(* ===== verification/Prelude.thy ===== *)
theory Prelude
  imports Main "HOL-Library.Word" "HOL-Library.Monad_Syntax"
begin

text \<open>
  Shared vocabulary of the development.

  \<^item> The error codes of the components (\<open>errNoError\<close> is success), as the libraries of
    \<open>ErrMsg/src\<close> and \<open>*Errors.h\<close> name them.
  \<^item> The C view of memory: a block is a list of cells, a cell is \<open>Some c\<close> for a byte that was
    written and \<open>None\<close> for one that is still indeterminate. Every access is checked: an access
    outside the block, a read of an indeterminate byte and a loop that never returns make the
    whole operation \<open>None\<close> (the code has no defined result there).
  \<^item> The functions of \<open>string.h\<close> and \<open>stdio.h\<close> that the sources call, on such blocks.
\<close>

section \<open>Collections of facts\<close>

named_theorems mem_simps \<open>evaluation of the string functions on well formed blocks\<close>
named_theorems buffer_simps \<open>unfolding of the buffer operations\<close>

section \<open>Option monad\<close>

lemma bind_eq_Some: "(Option.bind x f = Some y) = (\<exists>a. x = Some a \<and> f a = Some y)"
  by (cases x) auto

lemma map_option_bind: "map_option g (Option.bind x f) = Option.bind x (\<lambda>a. map_option g (f a))"
  by (cases x) auto

section \<open>Memory blocks\<close>

type_synonym mem = "char option list"

abbreviation NUL :: char where
  "NUL \<equiv> CHR 0x00"

text \<open>A block fresh from \<^verbatim>\<open>new char [n]\<close>: every byte is indeterminate.\<close>

definition fresh_block :: "nat \<Rightarrow> mem" where
  "fresh_block n = replicate n None"

text \<open>The block of a string literal: its characters and the terminator.\<close>

definition lit :: "char list \<Rightarrow> mem" where
  "lit s = map Some (s @ [NUL])"

definition mem_read :: "mem \<Rightarrow> nat \<Rightarrow> char option" where
  "mem_read m i = (if i < length m then m ! i else None)"

definition mem_write :: "mem \<Rightarrow> nat \<Rightarrow> char \<Rightarrow> mem option" where
  "mem_write m i c = (if i < length m then Some (m[i := Some c]) else None)"

text \<open>Replace the cells from \<open>off\<close> on by \<open>cs\<close>, if they fit.\<close>

definition splice :: "mem \<Rightarrow> nat \<Rightarrow> mem \<Rightarrow> mem option" where
  "splice m off cs =
     (if off + length cs \<le> length m then Some (take off m @ cs @ drop (off + length cs) m) else None)"

section \<open>The functions of string.h\<close>

text \<open>The characters before the first terminator.\<close>

fun c_str :: "mem \<Rightarrow> char list option" where
  "c_str [] = None"
| "c_str (None # m) = None"
| "c_str (Some c # m) = (if c = NUL then Some [] else map_option ((#) c) (c_str m))"

definition strlen :: "mem \<Rightarrow> nat option" where
  "strlen m = map_option length (c_str m)"

definition memcpy :: "mem \<Rightarrow> nat \<Rightarrow> mem \<Rightarrow> nat \<Rightarrow> mem option" where
  "memcpy dst off src n = (if n \<le> length src then splice dst off (take n src) else None)"

definition strcpy :: "mem \<Rightarrow> nat \<Rightarrow> mem \<Rightarrow> mem option" where
  "strcpy dst off src = do { s \<leftarrow> c_str src; splice dst off (lit s) }"

text \<open>What \<open>strncpy\<close> stores: up to \<open>n\<close> characters, then terminators up to \<open>n\<close>.\<close>

fun strncpy_bytes :: "mem \<Rightarrow> nat \<Rightarrow> char list option" where
  "strncpy_bytes src 0 = Some []"
| "strncpy_bytes [] (Suc n) = None"
| "strncpy_bytes (None # src) (Suc n) = None"
| "strncpy_bytes (Some c # src) (Suc n) =
     (if c = NUL then Some (replicate (Suc n) NUL) else map_option ((#) c) (strncpy_bytes src n))"

definition strncpy :: "mem \<Rightarrow> nat \<Rightarrow> mem \<Rightarrow> nat \<Rightarrow> mem option" where
  "strncpy dst off src n = do { cs \<leftarrow> strncpy_bytes src n; splice dst off (map Some cs) }"

text \<open>\<open>strcmp\<close> compares as \<open>unsigned char\<close>; \<open>strncmp\<close> stops after \<open>n\<close> characters.\<close>

fun strcmp :: "mem \<Rightarrow> mem \<Rightarrow> int option" where
  "strcmp (Some c # m) (Some d # m') =
     (if c \<noteq> d then Some (of_char c - of_char d) else if c = NUL then Some 0 else strcmp m m')"
| "strcmp _ _ = None"

fun strncmp :: "mem \<Rightarrow> mem \<Rightarrow> nat \<Rightarrow> int option" where
  "strncmp _ _ 0 = Some 0"
| "strncmp (Some c # m) (Some d # m') (Suc n) =
     (if c \<noteq> d then Some (of_char c - of_char d) else if c = NUL then Some 0 else strncmp m m' n)"
| "strncmp _ _ (Suc n) = None"

text \<open>Index of the first occurrence of \<open>t\<close> in \<open>s\<close> (\<open>strstr\<close>), and of a character
  (\<open>strchr\<close>, \<open>strrchr\<close>).\<close>

fun find_sub :: "'a list \<Rightarrow> 'a list \<Rightarrow> nat option" where
  "find_sub t [] = (if t = [] then Some 0 else None)"
| "find_sub t (c # s) =
     (if take (length t) (c # s) = t then Some 0 else map_option Suc (find_sub t s))"

fun find_first :: "'a \<Rightarrow> 'a list \<Rightarrow> nat option" where
  "find_first x [] = None"
| "find_first x (c # s) = (if c = x then Some 0 else map_option Suc (find_first x s))"

fun find_last :: "'a \<Rightarrow> 'a list \<Rightarrow> nat option" where
  "find_last x [] = None"
| "find_last x (c # s) =
     (case find_last x s of Some i \<Rightarrow> Some (Suc i) | None \<Rightarrow> if c = x then Some 0 else None)"

section \<open>Decimal output (the conversions of sprintf)\<close>

fun decimal_of_nat :: "nat \<Rightarrow> char list" where
  "decimal_of_nat n =
     (if n < 10 then [char_of (48 + n)] else decimal_of_nat (n div 10) @ [char_of (48 + n mod 10)])"

declare decimal_of_nat.simps [simp del]

definition decimal_of_int :: "int \<Rightarrow> char list" where
  "decimal_of_int i =
     (if i < 0 then CHR ''-'' # decimal_of_nat (nat (- i)) else decimal_of_nat (nat i))"

section \<open>Facts about blocks\<close>

lemma lit_length [simp]: "length (lit s) = Suc (length s)"
  by (simp add: lit_def)

lemma fresh_block_length [simp]: "length (fresh_block n) = n"
  by (simp add: fresh_block_def)

lemma fresh_block_drop [simp]: "drop k (fresh_block n) = fresh_block (n - k)"
  by (simp add: fresh_block_def)

lemma c_str_lit_append [mem_simps, simp]: "NUL \<notin> set s \<Longrightarrow> c_str (lit s @ r) = Some s"
  by (induction s) (auto simp: lit_def)

lemma c_str_lit [mem_simps, simp]: "NUL \<notin> set s \<Longrightarrow> c_str (lit s) = Some s"
  using c_str_lit_append [of s "[]"] by simp

lemma c_str_SomeD:
  "c_str m = Some s \<Longrightarrow> NUL \<notin> set s \<and> m = lit s @ drop (Suc (length s)) m"
proof (induction m arbitrary: s rule: c_str.induct)
  case (3 c m)
  then show ?case by (auto simp: lit_def split: if_splits)
qed auto

lemma c_str_no_NUL: "c_str m = Some s \<Longrightarrow> NUL \<notin> set s"
  by (simp add: c_str_SomeD)

lemma c_str_length: "c_str m = Some s \<Longrightarrow> Suc (length s) \<le> length m"
  by (metis c_str_SomeD le_add1 length_append lit_length)

lemma c_str_iff: "c_str m = Some s \<longleftrightarrow> NUL \<notin> set s \<and> (\<exists>r. m = lit s @ r)"
  using c_str_SomeD c_str_lit_append by blast

lemma c_str_obtain:
  assumes "c_str m = Some s"
  obtains r where "m = lit s @ r" "NUL \<notin> set s" "length m = Suc (length s) + length r"
proof -
  from c_str_SomeD [OF assms] have "NUL \<notin> set s" "m = lit s @ drop (Suc (length s)) m" by auto
  moreover have "length m = Suc (length s) + length (drop (Suc (length s)) m)"
    using c_str_length [OF assms] by simp
  ultimately show ?thesis using that by blast
qed

lemma strlen_eq [mem_simps, simp]: "c_str m = Some s \<Longrightarrow> strlen m = Some (length s)"
  by (simp add: strlen_def)

lemma strlen_SomeD: "strlen m = Some n \<Longrightarrow> \<exists>s. c_str m = Some s \<and> n = length s"
  by (auto simp: strlen_def)

lemma strcpy_eq [mem_simps]:
  assumes "c_str src = Some s" "off + Suc (length s) \<le> length dst"
  shows "strcpy dst off src = Some (take off dst @ lit s @ drop (off + Suc (length s)) dst)"
  using assms by (simp add: strcpy_def splice_def)

lemma strcpy_fresh [mem_simps]:
  "c_str src = Some s \<Longrightarrow> length s < n \<Longrightarrow>
    strcpy (fresh_block n) 0 src = Some (lit s @ fresh_block (n - Suc (length s)))"
  by (simp add: strcpy_eq)

lemma strcpy_0 [mem_simps]:
  "c_str src = Some s \<Longrightarrow> length s < length dst \<Longrightarrow>
    strcpy dst 0 src = Some (lit s @ drop (Suc (length s)) dst)"
  by (simp add: strcpy_eq)

lemma take_lit: "n \<le> length s \<Longrightarrow> take n (lit s @ r) = map Some (take n s)"
  by (simp add: lit_def take_map)

lemma strncpy_bytes_eq:
  "NUL \<notin> set t \<Longrightarrow> n \<le> length t \<Longrightarrow> strncpy_bytes (lit t @ r) n = Some (take n t)"
proof (induction t arbitrary: n)
  case Nil
  then show ?case by simp
next
  case (Cons c t)
  then show ?case by (cases n) (auto simp: lit_def)
qed

lemma strncpy_bytes_short:
  "NUL \<notin> set t \<Longrightarrow> length t \<le> n \<Longrightarrow>
    strncpy_bytes (lit t @ r) n = Some (t @ replicate (n - length t) NUL)"
proof (induction t arbitrary: n)
  case Nil
  then show ?case by (cases n) (auto simp: lit_def)
next
  case (Cons c t)
  then show ?case by (cases n) (auto simp: lit_def)
qed

lemma strncpy_bytes_length: "strncpy_bytes m n = Some cs \<Longrightarrow> length cs = n"
  by (induction m n arbitrary: cs rule: strncpy_bytes.induct) (auto split: if_splits)

lemma of_char_eq_0_iff [simp]: "(of_char c = (0::int)) \<longleftrightarrow> c = NUL"
  using of_char_eq_iff [of c NUL, where 'a = int] by simp

lemma strcmp_zero_iff:
  assumes "NUL \<notin> set s" "NUL \<notin> set t"
  shows "\<exists>d. strcmp (lit s @ r) (lit t @ r') = Some d \<and> (d = 0 \<longleftrightarrow> s = t)"
  using assms
proof (induction s arbitrary: t)
  case Nil
  then show ?case by (cases t) (auto simp: lit_def)
next
  case (Cons c s)
  then show ?case by (cases t) (auto simp: lit_def)
qed

lemma strncmp_prefix_iff:
  assumes "NUL \<notin> set s" "NUL \<notin> set t" "n = length t"
  shows "\<exists>d. strncmp (lit s @ r) (lit t @ r') n = Some d \<and> (d = 0 \<longleftrightarrow> take n s = t)"
  using assms
proof (induction s arbitrary: t n)
  case Nil
  then show ?case by (cases t) (auto simp: lit_def)
next
  case (Cons c s)
  then show ?case by (cases t) (auto simp: lit_def)
qed

lemma decimal_of_nat_length: "0 < k \<Longrightarrow> n < 10 ^ k \<Longrightarrow> length (decimal_of_nat n) \<le> k"
proof (induction k arbitrary: n)
  case 0
  then show ?case by simp
next
  case (Suc k)
  show ?case
  proof (cases "n < 10")
    case True
    then show ?thesis by (subst decimal_of_nat.simps) simp
  next
    case False
    then have "0 < k" using Suc.prems by (cases k) auto
    moreover have "n div 10 < 10 ^ k" using Suc.prems by auto
    ultimately show ?thesis using False Suc.IH [of "n div 10"] by (subst decimal_of_nat.simps) simp
  qed
qed

end
