(* ===== verification/BufferCore.thy ===== *)
theory BufferCore
  imports Prelude
begin

text \<open>
  The class \<open>Buffer\<close> of \<open>Tools/src/Buffer.h\<close> and \<open>Buffer.cpp\<close> (non Windows build): its
  state, the block allocation, the life cycle (\<open>init\<close>, \<open>finish\<close>, the assignments), the
  observers of the length and the contents, and the writers at the end (\<open>append\<close>,
  \<open>setBuffer\<close>, \<open>setChar\<close>).

  An operation returns \<open>None\<close> when the code has no defined result (an access outside the block,
  a read of an indeterminate byte, a loop that does not return) and otherwise the error code and
  the object after the call. \<^verbatim>\<open>new char []\<close> returns a fresh block (a failing allocation throws
  and is not modelled), lengths are far below the range of \<^verbatim>\<open>long\<close>, and a \<^verbatim>\<open>const char *\<close>
  argument is the readable block it points to, \<open>None\<close> for the null pointer; it does not point
  into the buffer's own block.
\<close>

datatype tools_error =
    errNoError
  | TOOLS_ACTIVATION_WRONG
  | TOOLS_OPERATION_NOTALLOWED
  | TOOLS_SPRINTF_FAILED
  | TOOLS_BUFFER_INIT_FAILED
  | TOOLS_BUFFER_APPEND_FAILED
  | TOOLS_BUFFER_SETBUFFER_FAILED
  | TOOLS_BUFFER_SUBSTITUTE_FAILED
  | TOOLS_BUFFER_GETBUFFERLENGTH_FAILED
  | TOOLS_BUFFER_ALLOCMEMORYBLOCKFORBUFFERIFNECESSARY_FAILED
  | TOOLS_BUFFER_CHARNOTFOUND
  | TOOLS_BUFFER_INDEXOUTOFRANGE
  | TOOLS_FILEIO_OPEN_FAILED
  | TOOLS_STRINGTOKENIZER_NOMORETOKEN

section \<open>State\<close>

datatype buffer_status = TOOLS_BUFFER_BUILDED | TOOLS_BUFFER_INITIALIZED

record buffer =
  bsBufferStatus :: buffer_status
  bMemoryAllocated :: bool
  lBufferBlockNumber :: nat
  lBufferBlockNumberOnOverflow :: nat
  ullCharsNumber :: nat
  pBuffer :: mem

type_synonym buffer_run = "(tools_error \<times> buffer) option"

definition TOOLS_DEFAULTBUFFERBLOCKNUMBERONOVERFLOW :: int where
  "TOOLS_DEFAULTBUFFERBLOCKNUMBERONOVERFLOW = 2"

text \<open>The constructor sets two fields; \<open>junk\<close> is what the storage held.\<close>

definition Buffer_ctor :: "buffer \<Rightarrow> buffer" where
  "Buffer_ctor junk =
     junk\<lparr>bsBufferStatus := TOOLS_BUFFER_BUILDED, bMemoryAllocated := False\<rparr>"

section \<open>Allocation\<close>

text \<open>The \<^verbatim>\<open>do ... while\<close> that counts the blocks: it does not return when a block has size 0.\<close>

partial_function (option) grow_blocks :: "nat \<Rightarrow> nat \<Rightarrow> nat \<Rightarrow> nat option" where
  "grow_blocks need ovf blocks =
     (if need \<ge> Suc blocks * ovf then grow_blocks need ovf (Suc blocks) else Some (Suc blocks))"

definition allocMemoryBlockForBufferIfNecessary :: "buffer \<Rightarrow> nat \<Rightarrow> buffer_run" where
  "allocMemoryBlockForBufferIfNecessary b ullBufferLengthToInsert = do {
     lBufferLength \<leftarrow> (if lBufferBlockNumber b \<noteq> 0 then strlen (pBuffer b) else Some 0);
     if lBufferBlockNumber b = 0 \<or>
        lBufferLength + ullBufferLengthToInsert + 1
          \<ge> lBufferBlockNumber b * lBufferBlockNumberOnOverflow b
     then do {
       blocks \<leftarrow> grow_blocks (lBufferLength + ullBufferLengthToInsert)
                   (lBufferBlockNumberOnOverflow b) (lBufferBlockNumber b);
       block \<leftarrow> (if lBufferBlockNumber b \<noteq> 0
                 then strcpy (fresh_block (blocks * lBufferBlockNumberOnOverflow b)) 0 (pBuffer b)
                 else strcpy (fresh_block (blocks * lBufferBlockNumberOnOverflow b)) 0 (lit []));
       Some (errNoError, b\<lparr>pBuffer := block, lBufferBlockNumber := blocks, bMemoryAllocated := True\<rparr>)
     }
     else Some (errNoError, b)
   }"

section \<open>Life cycle\<close>

text \<open>What \<open>init\<close> does with the memory a previous life of the object left.\<close>

definition Buffer_init_memory :: "buffer \<Rightarrow> nat \<Rightarrow> buffer option" where
  "Buffer_init_memory b ovf =
     (if \<not> bMemoryAllocated b then
        Some (b\<lparr>lBufferBlockNumber := 0, lBufferBlockNumberOnOverflow := ovf, pBuffer := []\<rparr>)
      else if lBufferBlockNumberOnOverflow b \<noteq> ovf then
        Some (b\<lparr>pBuffer := [], lBufferBlockNumber := 0, lBufferBlockNumberOnOverflow := ovf\<rparr>)
      else if lBufferBlockNumber b * lBufferBlockNumberOnOverflow b > 0 then do {
        m \<leftarrow> mem_write (pBuffer b) 0 NUL;
        Some (b\<lparr>pBuffer := m\<rparr>)
      }
      else
        Some (b\<lparr>pBuffer := [], lBufferBlockNumber := 0, lBufferBlockNumberOnOverflow := ovf\<rparr>))"

text \<open>The length parameter -1 asks for \<open>strlen\<close>; the stores of \<open>init\<close> and \<open>setBuffer\<close>.\<close>

definition arg_length :: "mem \<Rightarrow> int \<Rightarrow> nat option" where
  "arg_length src l = (if l = -1 then strlen src else Some (nat l))"

definition Buffer_init_store :: "mem \<Rightarrow> mem \<Rightarrow> int \<Rightarrow> nat \<Rightarrow> mem option" where
  "Buffer_init_store m src llBufferLength n =
     (if llBufferLength = -1 then strcpy m 0 src
      else if llBufferLength \<noteq> 0 then do { m1 \<leftarrow> strncpy m 0 src n; mem_write m1 n NUL }
      else Some m)"

definition Buffer_set_store :: "mem \<Rightarrow> mem \<Rightarrow> int \<Rightarrow> nat \<Rightarrow> mem option" where
  "Buffer_set_store m src lBufferLength n =
     (if lBufferLength = -1 then strcpy m 0 src
      else do { m1 \<leftarrow> strncpy m 0 src n; mem_write m1 n NUL })"

definition Buffer_init :: "buffer \<Rightarrow> mem option \<Rightarrow> int \<Rightarrow> int \<Rightarrow> buffer_run" where
  "Buffer_init b pBuf llBufferLength ovf =
     (case pBuf of
        None \<Rightarrow> Some (TOOLS_ACTIVATION_WRONG, b)
      | Some src \<Rightarrow>
          if (llBufferLength < 0 \<and> llBufferLength \<noteq> -1) \<or> ovf \<le> 0
          then Some (TOOLS_ACTIVATION_WRONG, b)
          else if bsBufferStatus b \<noteq> TOOLS_BUFFER_BUILDED
          then Some (TOOLS_OPERATION_NOTALLOWED, b)
          else do {
            b1 \<leftarrow> Buffer_init_memory b (nat ovf);
            n \<leftarrow> arg_length src llBufferLength;
            (e, b2) \<leftarrow> allocMemoryBlockForBufferIfNecessary b1 n;
            if e \<noteq> errNoError
            then Some (TOOLS_BUFFER_ALLOCMEMORYBLOCKFORBUFFERIFNECESSARY_FAILED, b2)
            else do {
              m \<leftarrow> Buffer_init_store (pBuffer b2) src llBufferLength n;
              Some (errNoError, b2\<lparr>pBuffer := m, ullCharsNumber := n,
                                   bsBufferStatus := TOOLS_BUFFER_INITIALIZED\<rparr>)
            }
          })"

definition Buffer_init_default :: "buffer \<Rightarrow> mem \<Rightarrow> buffer_run" where
  "Buffer_init_default b src =
     Buffer_init b (Some src) (-1) TOOLS_DEFAULTBUFFERBLOCKNUMBERONOVERFLOW"

text \<open>
  The numeric variants print into a local array of 129 bytes and go on with the text form;
  \<open>out\<close> is what \<open>sprintf\<close> prints for the argument and its format.
\<close>

definition sprintf_local :: "char list \<Rightarrow> mem option" where
  "sprintf_local out = strcpy (fresh_block (128 + 1)) 0 (lit out)"

definition Buffer_init_printed :: "buffer \<Rightarrow> char list \<Rightarrow> int \<Rightarrow> buffer_run" where
  "Buffer_init_printed b out ovf = do {
     pLocal \<leftarrow> sprintf_local out;
     n \<leftarrow> strlen pLocal;
     (e, b1) \<leftarrow> Buffer_init b (Some pLocal) (int n) ovf;
     if e \<noteq> errNoError then Some (TOOLS_BUFFER_INIT_FAILED, b1) else Some (errNoError, b1)
   }"

definition Buffer_init_long :: "buffer \<Rightarrow> 64 word \<Rightarrow> int \<Rightarrow> buffer_run" where
  "Buffer_init_long b lValue = Buffer_init_printed b (decimal_of_int (sint lValue))"

definition Buffer_init_ulong :: "buffer \<Rightarrow> 64 word \<Rightarrow> int \<Rightarrow> buffer_run" where
  "Buffer_init_ulong b ulValue = Buffer_init_printed b (decimal_of_int (uint ulValue))"

definition Buffer_init_double :: "('d \<Rightarrow> char list) \<Rightarrow> buffer \<Rightarrow> 'd \<Rightarrow> int \<Rightarrow> buffer_run" where
  "Buffer_init_double lf b dValue = Buffer_init_printed b (lf dValue)"

definition Buffer_finish :: "buffer \<Rightarrow> bool \<Rightarrow> tools_error \<times> buffer" where
  "Buffer_finish b bReuseMemoryFromNextInit =
     (if bsBufferStatus b \<noteq> TOOLS_BUFFER_INITIALIZED then (errNoError, b)
      else
        let b1 = (if \<not> bReuseMemoryFromNextInit \<and> lBufferBlockNumber b \<noteq> 0
                  then b\<lparr>pBuffer := [], lBufferBlockNumber := 0, bMemoryAllocated := False\<rparr>
                  else b)
        in (errNoError, b1\<lparr>bsBufferStatus := TOOLS_BUFFER_BUILDED\<rparr>))"

text \<open>
  The assignments drop the error codes of the calls they make. \<open>Buffer_assign_self\<close> is
  \<^verbatim>\<open>b = b\<close>: the argument is the object itself, so it is read after \<open>finish\<close> changed it.
\<close>

definition Buffer_assign_from :: "buffer \<Rightarrow> buffer \<Rightarrow> buffer option" where
  "Buffer_assign_from b1 src =
     (if bsBufferStatus src = TOOLS_BUFFER_INITIALIZED
      then map_option snd (Buffer_init b1 (Some (pBuffer src)) (int (ullCharsNumber src))
             (int (lBufferBlockNumberOnOverflow src)))
      else Some b1)"

definition Buffer_assign :: "buffer \<Rightarrow> buffer \<Rightarrow> buffer option" where
  "Buffer_assign b bBuffer = Buffer_assign_from (snd (Buffer_finish b True)) bBuffer"

definition Buffer_assign_self :: "buffer \<Rightarrow> buffer option" where
  "Buffer_assign_self b = (let b1 = snd (Buffer_finish b True) in Buffer_assign_from b1 b1)"

text \<open>\<^verbatim>\<open>operator = (const char *)\<close> and the numeric assignments share the preparation.\<close>

definition Buffer_assign_prepare :: "buffer \<Rightarrow> buffer" where
  "Buffer_assign_prepare b =
     (if bsBufferStatus b = TOOLS_BUFFER_INITIALIZED then snd (Buffer_finish b True)
      else b\<lparr>lBufferBlockNumberOnOverflow := nat TOOLS_DEFAULTBUFFERBLOCKNUMBERONOVERFLOW\<rparr>)"

definition Buffer_assign_cstr :: "buffer \<Rightarrow> mem option \<Rightarrow> buffer option" where
  "Buffer_assign_cstr b pBuf =
     (let b1 = Buffer_assign_prepare b; ovf = int (lBufferBlockNumberOnOverflow b1) in
      case pBuf of
        Some src \<Rightarrow> do {
          n \<leftarrow> strlen src;
          map_option snd (Buffer_init b1 (Some src) (int n) ovf)
        }
      | None \<Rightarrow> map_option snd (Buffer_init b1 None 0 ovf))"

definition Buffer_assign_long :: "buffer \<Rightarrow> 64 word \<Rightarrow> buffer option" where
  "Buffer_assign_long b lValue =
     (let b1 = Buffer_assign_prepare b
      in map_option snd (Buffer_init_long b1 lValue (int (lBufferBlockNumberOnOverflow b1))))"

definition Buffer_assign_ulonglong :: "buffer \<Rightarrow> 64 word \<Rightarrow> buffer option" where
  "Buffer_assign_ulonglong b ullValue =
     (let b1 = Buffer_assign_prepare b
      in map_option snd (Buffer_init_ulong b1 ullValue (int (lBufferBlockNumberOnOverflow b1))))"

section \<open>Length and contents\<close>

definition getBufferLength :: "buffer \<Rightarrow> tools_error \<times> nat option" where
  "getBufferLength b =
     (if bsBufferStatus b \<noteq> TOOLS_BUFFER_INITIALIZED then (TOOLS_OPERATION_NOTALLOWED, None)
      else if lBufferBlockNumber b = 0 then (errNoError, Some 0)
      else (errNoError, Some (ullCharsNumber b)))"

text \<open>\<^verbatim>\<open>operator long\<close>; \<^verbatim>\<open>operator unsigned long\<close> and \<open>length\<close> give the same value modulo
  \<open>2 ^ 64\<close>, -1 standing for the failure.\<close>

definition Buffer_as_long :: "buffer \<Rightarrow> int" where
  "Buffer_as_long b =
     (if bsBufferStatus b \<noteq> TOOLS_BUFFER_INITIALIZED then -1
      else case getBufferLength b of (errNoError, Some n) \<Rightarrow> int n | _ \<Rightarrow> -1)"

definition Buffer_as_ulong :: "buffer \<Rightarrow> nat" where
  "Buffer_as_ulong b = nat (Buffer_as_long b mod 2 ^ 64)"

definition Buffer_length :: "buffer \<Rightarrow> nat" where
  "Buffer_length b = Buffer_as_ulong b"

text \<open>\<open>str\<close> and \<^verbatim>\<open>operator const char *\<close>: the block the returned pointer reads.\<close>

definition Buffer_str :: "buffer \<Rightarrow> mem" where
  "Buffer_str b = (if bsBufferStatus b \<noteq> TOOLS_BUFFER_INITIALIZED then lit [] else pBuffer b)"

definition Buffer_getChar :: "buffer \<Rightarrow> nat \<Rightarrow> (tools_error \<times> char option) option" where
  "Buffer_getChar b ulIndex =
     (if bsBufferStatus b \<noteq> TOOLS_BUFFER_INITIALIZED then Some (TOOLS_OPERATION_NOTALLOWED, None)
      else case getBufferLength b of
        (errNoError, Some n) \<Rightarrow>
          if ulIndex \<ge> n then Some (TOOLS_BUFFER_INDEXOUTOFRANGE, None)
          else do { c \<leftarrow> mem_read (pBuffer b) ulIndex; Some (errNoError, Some c) }
      | _ \<Rightarrow> Some (TOOLS_BUFFER_GETBUFFERLENGTH_FAILED, None))"

text \<open>\<^verbatim>\<open>operator []\<close> converts a negative index to a huge \<^verbatim>\<open>unsigned long\<close>.\<close>

definition Buffer_index :: "buffer \<Rightarrow> int \<Rightarrow> char option" where
  "Buffer_index b lIndex = do {
     (e, oc) \<leftarrow> Buffer_getChar b (nat (lIndex mod 2 ^ 64));
     Some (case oc of Some c \<Rightarrow> c | None \<Rightarrow> CHR '' '')
   }"

text \<open>\<open>getBuffer\<close> copies the text into the caller's block.\<close>

definition Buffer_getBuffer :: "buffer \<Rightarrow> mem option \<Rightarrow> (tools_error \<times> mem option) option" where
  "Buffer_getBuffer b dest =
     (case dest of
        None \<Rightarrow> Some (TOOLS_ACTIVATION_WRONG, None)
      | Some m \<Rightarrow>
          if bsBufferStatus b \<noteq> TOOLS_BUFFER_INITIALIZED
          then Some (TOOLS_OPERATION_NOTALLOWED, Some m)
          else do {
            m' \<leftarrow> strcpy m 0 (if lBufferBlockNumber b = 0 then lit [] else pBuffer b);
            Some (errNoError, Some m')
          })"

definition Buffer_isEmpty :: "buffer \<Rightarrow> bool option" where
  "Buffer_isEmpty b =
     (if bsBufferStatus b \<noteq> TOOLS_BUFFER_INITIALIZED then Some True
      else do { d \<leftarrow> strcmp (pBuffer b) (lit []); Some (d = 0) })"

section \<open>Writing at the end\<close>

definition Buffer_append :: "buffer \<Rightarrow> mem option \<Rightarrow> int \<Rightarrow> buffer_run" where
  "Buffer_append b pBuf lBufferLength =
     (case pBuf of
        None \<Rightarrow> Some (TOOLS_ACTIVATION_WRONG, b)
      | Some src \<Rightarrow>
          if lBufferLength < 0 \<and> lBufferLength \<noteq> -1 then Some (TOOLS_ACTIVATION_WRONG, b)
          else do {
            (e0, b0) \<leftarrow> (if bsBufferStatus b = TOOLS_BUFFER_BUILDED
                        then Buffer_init_default b (lit []) else Some (errNoError, b));
            if e0 \<noteq> errNoError then Some (TOOLS_BUFFER_INIT_FAILED, b0)
            else do {
              n \<leftarrow> arg_length src lBufferLength;
              (e, b1) \<leftarrow> allocMemoryBlockForBufferIfNecessary b0 n;
              if e \<noteq> errNoError
              then Some (TOOLS_BUFFER_ALLOCMEMORYBLOCKFORBUFFERIFNECESSARY_FAILED, b1)
              else do {
                m \<leftarrow> memcpy (pBuffer b1) (ullCharsNumber b1) src n;
                m' \<leftarrow> mem_write m (ullCharsNumber b1 + n) NUL;
                Some (errNoError, b1\<lparr>pBuffer := m', ullCharsNumber := ullCharsNumber b1 + n\<rparr>)
              }
            }
          })"

text \<open>The overloads of \<open>append\<close> that hand over to it, with their own error code.\<close>

definition Buffer_append_checked :: "buffer \<Rightarrow> mem \<Rightarrow> buffer_run" where
  "Buffer_append_checked b src = do {
     (e, b1) \<leftarrow> Buffer_append b (Some src) (-1);
     if e \<noteq> errNoError then Some (TOOLS_BUFFER_APPEND_FAILED, b1) else Some (errNoError, b1)
   }"

definition Buffer_append_buffer :: "buffer \<Rightarrow> buffer \<Rightarrow> buffer_run" where
  "Buffer_append_buffer b bBuffer =
     (if bsBufferStatus bBuffer \<noteq> TOOLS_BUFFER_INITIALIZED
      then Some (TOOLS_OPERATION_NOTALLOWED, b)
      else Buffer_append_checked b (Buffer_str bBuffer))"

definition Buffer_append_ptr :: "buffer \<Rightarrow> buffer option \<Rightarrow> buffer_run" where
  "Buffer_append_ptr b pbBuffer =
     (case pbBuffer of
        None \<Rightarrow> Some (TOOLS_ACTIVATION_WRONG, b)
      | Some bBuffer \<Rightarrow>
          if bsBufferStatus bBuffer \<noteq> TOOLS_BUFFER_INITIALIZED
          then Some (TOOLS_OPERATION_NOTALLOWED, b)
          else Buffer_append_checked b (Buffer_str bBuffer))"

definition Buffer_append_char :: "buffer \<Rightarrow> char \<Rightarrow> buffer_run" where
  "Buffer_append_char b cValue = Buffer_append_checked b [Some cValue, Some NUL]"

definition Buffer_append_printed :: "buffer \<Rightarrow> char list \<Rightarrow> buffer_run" where
  "Buffer_append_printed b out = do { pLocal \<leftarrow> sprintf_local out; Buffer_append_checked b pLocal }"

definition Buffer_append_long :: "buffer \<Rightarrow> 64 word \<Rightarrow> buffer_run" where
  "Buffer_append_long b lValue = Buffer_append_printed b (decimal_of_int (sint lValue))"

definition Buffer_append_ulong :: "buffer \<Rightarrow> 64 word \<Rightarrow> buffer_run" where
  "Buffer_append_ulong b ulValue = Buffer_append_printed b (decimal_of_int (uint ulValue))"

definition Buffer_append_short :: "buffer \<Rightarrow> 16 word \<Rightarrow> buffer_run" where
  "Buffer_append_short b sValue = Buffer_append_printed b (decimal_of_int (sint sValue))"

text \<open>\<open>lf\<close> prints a floating point value with \<^verbatim>\<open>%lf\<close>, \<open>fmt\<close> with the caller's format.\<close>

definition Buffer_append_double ::
  "('d \<Rightarrow> char list) \<Rightarrow> buffer \<Rightarrow> 'd \<Rightarrow> ('d \<Rightarrow> char list) option \<Rightarrow> buffer_run" where
  "Buffer_append_double lf b dValue fmt =
     Buffer_append_printed b (case fmt of None \<Rightarrow> lf dValue | Some f \<Rightarrow> f dValue)"

text \<open>\<^verbatim>\<open>operator +=\<close> drops the error code; a buffer that is not initialised counts as "", -1.\<close>

definition Buffer_plus_eq :: "buffer \<Rightarrow> buffer \<Rightarrow> buffer option" where
  "Buffer_plus_eq b bBuffer =
     map_option snd (Buffer_append b (Some (Buffer_str bBuffer)) (Buffer_as_long bBuffer))"

definition Buffer_plus_eq_cstr :: "buffer \<Rightarrow> mem option \<Rightarrow> buffer option" where
  "Buffer_plus_eq_cstr b pBuf = map_option snd (Buffer_append b pBuf (-1))"

definition Buffer_setBuffer :: "buffer \<Rightarrow> mem option \<Rightarrow> int \<Rightarrow> buffer_run" where
  "Buffer_setBuffer b pBuf lBufferLength =
     (case pBuf of
        None \<Rightarrow> Some (TOOLS_ACTIVATION_WRONG, b)
      | Some src \<Rightarrow>
          if lBufferLength < 0 \<and> lBufferLength \<noteq> -1 then Some (TOOLS_ACTIVATION_WRONG, b)
          else do {
            (e0, b0) \<leftarrow> (if bsBufferStatus b = TOOLS_BUFFER_BUILDED
                        then Buffer_init_default b (lit []) else Some (errNoError, b));
            if e0 \<noteq> errNoError then Some (TOOLS_BUFFER_INIT_FAILED, b0)
            else do {
              m0 \<leftarrow> (if lBufferBlockNumber b0 \<noteq> 0 then strcpy (pBuffer b0) 0 (lit [])
                     else Some (pBuffer b0));
              n \<leftarrow> arg_length src lBufferLength;
              (e, b1) \<leftarrow> allocMemoryBlockForBufferIfNecessary (b0\<lparr>pBuffer := m0\<rparr>) n;
              if e \<noteq> errNoError
              then Some (TOOLS_BUFFER_ALLOCMEMORYBLOCKFORBUFFERIFNECESSARY_FAILED, b1)
              else do {
                m \<leftarrow> Buffer_set_store (pBuffer b1) src lBufferLength n;
                Some (errNoError, b1\<lparr>pBuffer := m, ullCharsNumber := n\<rparr>)
              }
            }
          })"

definition Buffer_setBuffer_printed :: "buffer \<Rightarrow> char list \<Rightarrow> buffer_run" where
  "Buffer_setBuffer_printed b out = do {
     pLocal \<leftarrow> sprintf_local out;
     (e, b1) \<leftarrow> Buffer_setBuffer b (Some pLocal) (-1);
     if e \<noteq> errNoError then Some (TOOLS_BUFFER_SETBUFFER_FAILED, b1) else Some (errNoError, b1)
   }"

definition Buffer_setBuffer_long :: "buffer \<Rightarrow> 64 word \<Rightarrow> buffer_run" where
  "Buffer_setBuffer_long b lValue = Buffer_setBuffer_printed b (decimal_of_int (sint lValue))"

definition Buffer_setBuffer_ulong :: "buffer \<Rightarrow> 64 word \<Rightarrow> buffer_run" where
  "Buffer_setBuffer_ulong b ulValue = Buffer_setBuffer_printed b (decimal_of_int (uint ulValue))"

definition Buffer_setBuffer_int :: "buffer \<Rightarrow> 32 word \<Rightarrow> buffer_run" where
  "Buffer_setBuffer_int b iValue = Buffer_setBuffer_printed b (decimal_of_int (sint iValue))"

definition Buffer_setBuffer_double ::
  "('d \<Rightarrow> char list) \<Rightarrow> buffer \<Rightarrow> 'd \<Rightarrow> ('d \<Rightarrow> char list) option \<Rightarrow> buffer_run" where
  "Buffer_setBuffer_double lf b dValue fmt = do {
     (e, b1) \<leftarrow> Buffer_setBuffer b (Some (lit [])) (-1);
     if e \<noteq> errNoError then Some (TOOLS_BUFFER_SETBUFFER_FAILED, b1)
     else do {
       (e2, b2) \<leftarrow> Buffer_append_double lf b1 dValue fmt;
       if e2 \<noteq> errNoError then Some (TOOLS_BUFFER_APPEND_FAILED, b2) else Some (errNoError, b2)
     }
   }"

definition Buffer_setBuffer_buffer :: "buffer \<Rightarrow> buffer \<Rightarrow> buffer_run" where
  "Buffer_setBuffer_buffer b bBuffer =
     (if bsBufferStatus bBuffer \<noteq> TOOLS_BUFFER_INITIALIZED
      then Some (TOOLS_OPERATION_NOTALLOWED, b)
      else if bsBufferStatus b = TOOLS_BUFFER_BUILDED then do {
        (e, b1) \<leftarrow> Buffer_init_default b (Buffer_str bBuffer);
        if e \<noteq> errNoError then Some (TOOLS_BUFFER_INIT_FAILED, b1) else Some (errNoError, b1)
      }
      else do {
        (e, b1) \<leftarrow> Buffer_setBuffer b (Some (Buffer_str bBuffer)) (-1);
        if e \<noteq> errNoError then Some (TOOLS_BUFFER_SETBUFFER_FAILED, b1) else Some (errNoError, b1)
      })"

definition Buffer_setBuffer_ptr :: "buffer \<Rightarrow> buffer option \<Rightarrow> buffer_run" where
  "Buffer_setBuffer_ptr b pbBuffer =
     (case pbBuffer of
        None \<Rightarrow> Some (TOOLS_ACTIVATION_WRONG, b)
      | Some bBuffer \<Rightarrow> Buffer_setBuffer_buffer b bBuffer)"

text \<open>Storing a terminator truncates the text.\<close>

definition Buffer_setChar :: "buffer \<Rightarrow> nat \<Rightarrow> char \<Rightarrow> buffer_run" where
  "Buffer_setChar b ulIndex cNewChar =
     (if bsBufferStatus b = TOOLS_BUFFER_BUILDED then Some (TOOLS_OPERATION_NOTALLOWED, b)
      else if ulIndex \<ge> Buffer_length b then Some (TOOLS_ACTIVATION_WRONG, b)
      else do {
        m \<leftarrow> mem_write (pBuffer b) ulIndex cNewChar;
        Some (errNoError,
              if cNewChar = NUL then b\<lparr>pBuffer := m, ullCharsNumber := ulIndex\<rparr>
              else b\<lparr>pBuffer := m\<rparr>)
      })"

end
