(* ===== verification/BufferSpec.thy ===== *)
theory BufferSpec
  imports BufferCore
begin

text \<open>
  The contract of \<open>Buffer\<close>. \<open>Buffer_holds b s\<close>: the object is initialised and its text is \<open>s\<close>
  (the block really holds \<open>s\<close> and a terminator, and the two counters agree with it);
  \<open>Buffer_wf\<close> is the invariant between calls, with the memory kept by \<open>finish\<close> for the next
  \<open>init\<close>. Under it every operation has a defined result (no access leaves the block, no
  indeterminate byte is read) and the text changes as the operation says.
\<close>

section \<open>The invariant\<close>

definition block_ok :: "buffer \<Rightarrow> char list \<Rightarrow> bool" where
  "block_ok b s \<longleftrightarrow>
     0 < lBufferBlockNumber b \<and> 0 < lBufferBlockNumberOnOverflow b \<and> bMemoryAllocated b \<and>
     lBufferBlockNumber b * lBufferBlockNumberOnOverflow b \<le> length (pBuffer b) \<and>
     c_str (pBuffer b) = Some s"

definition Buffer_holds :: "buffer \<Rightarrow> char list \<Rightarrow> bool" where
  "Buffer_holds b s \<longleftrightarrow>
     bsBufferStatus b = TOOLS_BUFFER_INITIALIZED \<and> block_ok b s \<and> ullCharsNumber b = length s"

definition Buffer_idle :: "buffer \<Rightarrow> bool" where
  "Buffer_idle b \<longleftrightarrow>
     bsBufferStatus b = TOOLS_BUFFER_BUILDED \<and> (bMemoryAllocated b \<longrightarrow> (\<exists>s. block_ok b s))"

definition Buffer_wf :: "buffer \<Rightarrow> bool" where
  "Buffer_wf b \<longleftrightarrow> Buffer_idle b \<or> (\<exists>s. Buffer_holds b s)"

text \<open>The text of a buffer, as its clients see it (empty when it is not initialised).\<close>

definition Buffer_text :: "buffer \<Rightarrow> char list" where
  "Buffer_text b = (case c_str (Buffer_str b) of Some s \<Rightarrow> s | None \<Rightarrow> [])"

lemma Buffer_holdsD:
  assumes "Buffer_holds b s"
  shows "bsBufferStatus b = TOOLS_BUFFER_INITIALIZED" "block_ok b s" "ullCharsNumber b = length s"
    "c_str (pBuffer b) = Some s" "NUL \<notin> set s" "length s < length (pBuffer b)"
    "lBufferBlockNumber b \<noteq> 0" "strlen (pBuffer b) = Some (length s)"
    "bsBufferStatus b \<noteq> TOOLS_BUFFER_BUILDED"
  using assms c_str_no_NUL c_str_length [of "pBuffer b" s]
  by (auto simp: Buffer_holds_def block_ok_def)

lemma Buffer_holds_text [simp]: "Buffer_holds b s \<Longrightarrow> Buffer_text b = s"
  by (simp add: Buffer_text_def Buffer_str_def Buffer_holdsD)

lemma Buffer_holds_wf [intro]: "Buffer_holds b s \<Longrightarrow> Buffer_wf b"
  by (auto simp: Buffer_wf_def)

lemma Buffer_ctor_idle: "Buffer_idle (Buffer_ctor junk)"
  by (simp add: Buffer_idle_def Buffer_ctor_def)

lemma Buffer_holds_unique: "Buffer_holds b s \<Longrightarrow> Buffer_holds b t \<Longrightarrow> s = t"
  by (simp add: Buffer_holds_def block_ok_def)

text \<open>A new object, and an initialised one with a given text (one block that fits it).\<close>

definition blank_buffer :: buffer where
  "blank_buffer = Buffer_ctor \<lparr>bsBufferStatus = TOOLS_BUFFER_INITIALIZED, bMemoryAllocated = True,
     lBufferBlockNumber = 9, lBufferBlockNumberOnOverflow = 0, ullCharsNumber = 7, pBuffer = []\<rparr>"

definition buffer_of :: "char list \<Rightarrow> buffer" where
  "buffer_of s = \<lparr>bsBufferStatus = TOOLS_BUFFER_INITIALIZED, bMemoryAllocated = True,
     lBufferBlockNumber = 1, lBufferBlockNumberOnOverflow = Suc (length s),
     ullCharsNumber = length s, pBuffer = lit s\<rparr>"

lemma blank_buffer_wf [simp]: "Buffer_idle blank_buffer" "Buffer_wf blank_buffer" "Buffer_text blank_buffer = []"
  by (auto simp: blank_buffer_def Buffer_wf_def Buffer_text_def Buffer_str_def Buffer_ctor_def Buffer_idle_def)

lemma buffer_of_holds: "NUL \<notin> set s \<Longrightarrow> Buffer_holds (buffer_of s) s"
  by (simp add: buffer_of_def Buffer_holds_def block_ok_def)

section \<open>Allocation\<close>

lemma grow_blocks_Some:
  assumes "0 < ovf"
  shows "\<exists>k. grow_blocks need ovf blocks = Some k \<and> blocks < k \<and> need < k * ovf"
proof (induction "Suc need - blocks * ovf" arbitrary: blocks rule: less_induct)
  case less
  show ?case
  proof (cases "need \<ge> Suc blocks * ovf")
    case True
    with assms have "Suc need - Suc blocks * ovf < Suc need - blocks * ovf" by simp
    from less [OF this] obtain k
      where "grow_blocks need ovf (Suc blocks) = Some k" "Suc blocks < k" "need < k * ovf" by blast
    with True show ?thesis by (auto simp: grow_blocks.simps [of need ovf blocks])
  next
    case False
    then show ?thesis by (auto simp: grow_blocks.simps [of need ovf blocks])
  qed
qed

lemma alloc_empty:
  assumes "lBufferBlockNumber b = 0" "0 < lBufferBlockNumberOnOverflow b"
  shows "\<exists>m k. allocMemoryBlockForBufferIfNecessary b n =
           Some (errNoError, b\<lparr>pBuffer := m, lBufferBlockNumber := k, bMemoryAllocated := True\<rparr>)
         \<and> 0 < k \<and> c_str m = Some [] \<and> n < length m \<and> length m = k * lBufferBlockNumberOnOverflow b"
proof -
  obtain k where k: "grow_blocks n (lBufferBlockNumberOnOverflow b) 0 = Some k" "0 < k"
      "n < k * lBufferBlockNumberOnOverflow b"
    using grow_blocks_Some [OF assms(2), of n 0] by auto
  let ?m = "lit [] @ fresh_block (k * lBufferBlockNumberOnOverflow b - 1)"
  have "strcpy (fresh_block (k * lBufferBlockNumberOnOverflow b)) 0 (lit []) = Some ?m"
    using k assms(2) strcpy_fresh [of "lit []" "[]" "k * lBufferBlockNumberOnOverflow b"] by simp
  then show ?thesis
    using assms k
    by (auto simp: allocMemoryBlockForBufferIfNecessary_def intro!: exI [of _ ?m] exI [of _ k])
qed

lemma alloc_block_ok:
  assumes "block_ok b s"
  shows "\<exists>m k. allocMemoryBlockForBufferIfNecessary b n =
           Some (errNoError, b\<lparr>pBuffer := m, lBufferBlockNumber := k, bMemoryAllocated := True\<rparr>)
         \<and> 0 < k \<and> c_str m = Some s \<and> length s + n < length m
         \<and> k * lBufferBlockNumberOnOverflow b \<le> length m"
proof (cases "length s + n + 1 \<ge> lBufferBlockNumber b * lBufferBlockNumberOnOverflow b")
  case True
  from assms have ovf: "0 < lBufferBlockNumberOnOverflow b" and c: "c_str (pBuffer b) = Some s"
    by (auto simp: block_ok_def)
  obtain k where k: "grow_blocks (length s + n) (lBufferBlockNumberOnOverflow b)
        (lBufferBlockNumber b) = Some k" "0 < k" "length s + n < k * lBufferBlockNumberOnOverflow b"
    using grow_blocks_Some [OF ovf, of "length s + n" "lBufferBlockNumber b"] by auto
  let ?size = "k * lBufferBlockNumberOnOverflow b"
  let ?m = "lit s @ fresh_block (?size - Suc (length s))"
  have "strcpy (fresh_block ?size) 0 (pBuffer b) = Some ?m"
    using strcpy_fresh [OF c, of ?size] k(3) by simp
  then show ?thesis
    using assms True k c_str_no_NUL [OF c]
    by (auto simp: allocMemoryBlockForBufferIfNecessary_def block_ok_def
        intro!: exI [of _ ?m] exI [of _ k])
next
  case False
  have "allocMemoryBlockForBufferIfNecessary b n = Some (errNoError, b)"
    using False assms by (simp add: allocMemoryBlockForBufferIfNecessary_def block_ok_def)
  then show ?thesis
    using False assms
    by (auto simp: block_ok_def intro!: exI [of _ "pBuffer b"] exI [of _ "lBufferBlockNumber b"])
qed

section \<open>Life cycle\<close>

text \<open>The memory \<open>init\<close> starts from is either none or a block with an empty text.\<close>

lemma init_memory_ok:
  assumes "Buffer_idle b" "0 < ovf"
  shows "\<exists>b1. Buffer_init_memory b ovf = Some b1 \<and>
           bsBufferStatus b1 = bsBufferStatus b \<and> lBufferBlockNumberOnOverflow b1 = ovf \<and>
           (lBufferBlockNumber b1 = 0 \<or> block_ok b1 [])"
proof (cases "bMemoryAllocated b \<and> lBufferBlockNumberOnOverflow b = ovf")
  case True
  with assms obtain s where s: "block_ok b s" by (auto simp: Buffer_idle_def)
  then obtain c m where m: "pBuffer b = Some c # m"
    by (cases "pBuffer b"; cases "hd (pBuffer b)") (auto simp: block_ok_def)
  have "Buffer_init_memory b ovf = Some (b\<lparr>pBuffer := Some NUL # m\<rparr>)"
    using True s m by (auto simp: Buffer_init_memory_def block_ok_def mem_write_def)
  moreover have "block_ok (b\<lparr>pBuffer := Some NUL # m\<rparr>) []"
    using s m by (simp add: block_ok_def)
  ultimately show ?thesis using True by auto
next
  case False
  then show ?thesis by (auto simp: Buffer_init_memory_def)
qed

lemma alloc_after_init_memory:
  assumes "lBufferBlockNumber b1 = 0 \<or> block_ok b1 []" "0 < lBufferBlockNumberOnOverflow b1"
  shows "\<exists>m k. allocMemoryBlockForBufferIfNecessary b1 n =
           Some (errNoError, b1\<lparr>pBuffer := m, lBufferBlockNumber := k, bMemoryAllocated := True\<rparr>)
         \<and> 0 < k \<and> c_str m = Some [] \<and> n < length m
         \<and> k * lBufferBlockNumberOnOverflow b1 \<le> length m"
  using assms(1)
proof
  assume "lBufferBlockNumber b1 = 0"
  from alloc_empty [OF this assms(2), of n] show ?thesis by fastforce
next
  assume "block_ok b1 []"
  from alloc_block_ok [OF this, of n] show ?thesis by auto
qed

text \<open>Which lengths \<open>init\<close>, \<open>append\<close> and \<open>setBuffer\<close> take with a given text.\<close>

definition len_ok :: "int \<Rightarrow> char list \<Rightarrow> bool" where
  "len_ok l t \<longleftrightarrow> l = -1 \<or> (0 \<le> l \<and> l \<le> int (length t))"

definition cut :: "int \<Rightarrow> char list \<Rightarrow> char list" where
  "cut l t = (if l = -1 then t else take (nat l) t)"

lemma cut_minus_1 [simp]: "cut (-1) t = t" "len_ok (-1) t"
  by (simp_all add: cut_def len_ok_def)

lemma cut_full [simp]: "cut (int (length t)) t = t" "len_ok (int (length t)) t"
  by (simp_all add: cut_def len_ok_def)

lemma length_cut: "len_ok l t \<Longrightarrow> length (cut l t) = (if l = -1 then length t else nat l)"
  by (auto simp: len_ok_def cut_def)

lemma cut_no_NUL: "NUL \<notin> set t \<Longrightarrow> NUL \<notin> set (cut l t)"
  by (auto simp: cut_def dest: in_set_takeD)

lemma arg_length_eq: "c_str src = Some t \<Longrightarrow> len_ok l t \<Longrightarrow> arg_length src l = Some (length (cut l t))"
  by (simp add: arg_length_def length_cut)

lemma strncpy_NUL:
  assumes "c_str src = Some t" "n \<le> length t" "n < length m"
  shows "Option.bind (strncpy m 0 src n) (\<lambda>m1. mem_write m1 n NUL) =
           Some (lit (take n t) @ drop (Suc n) m)"
proof -
  from c_str_obtain [OF assms(1)] obtain r where "src = lit t @ r" "NUL \<notin> set t" by metis
  then have "strncpy m 0 src n = Some (map Some (take n t) @ drop n m)"
    using assms(2,3) by (simp add: strncpy_def strncpy_bytes_eq splice_def min_def)
  moreover have "drop n m = m ! n # drop (Suc n) m"
    using assms(3) by (simp add: Cons_nth_drop_Suc)
  ultimately show ?thesis
    using assms(2,3) by (auto simp: mem_write_def lit_def list_update_append min_def)
qed

lemma Buffer_set_store_eq:
  assumes "c_str src = Some t" "len_ok l t" "length (cut l t) < length m"
  shows "\<exists>m'. Buffer_set_store m src l (length (cut l t)) = Some m' \<and>
           c_str m' = Some (cut l t) \<and> length m' = length m"
proof (cases "l = -1")
  case True
  then show ?thesis
    using assms c_str_no_NUL [OF assms(1)] strcpy_0 [OF assms(1), of m]
    by (simp add: Buffer_set_store_def)
next
  case False
  with assms(2) have l: "nat l \<le> length t" "cut l t = take (nat l) t" "length (cut l t) = nat l"
    by (auto simp: len_ok_def cut_def)
  moreover have "NUL \<notin> set (cut l t)" using c_str_no_NUL [OF assms(1)] by (rule cut_no_NUL)
  ultimately show ?thesis
    using False assms(3) strncpy_NUL [OF assms(1), of "nat l" m]
    by (simp add: Buffer_set_store_def)
qed

lemma Buffer_init_store_eq:
  assumes "c_str src = Some t" "len_ok l t" "length (cut l t) < length m" "c_str m = Some []"
  shows "\<exists>m'. Buffer_init_store m src l (length (cut l t)) = Some m' \<and>
           c_str m' = Some (cut l t) \<and> length m' = length m"
proof (cases "l = 0")
  case True
  then show ?thesis using assms(4) by (simp add: Buffer_init_store_def cut_def)
next
  case False
  then have "Buffer_init_store m src l n = Buffer_set_store m src l n" for n
    by (simp add: Buffer_init_store_def Buffer_set_store_def)
  then show ?thesis using Buffer_set_store_eq [OF assms(1,2,3)] by simp
qed

lemma Buffer_init_holds:
  assumes "Buffer_idle b" "c_str src = Some t" "len_ok l t" "0 < ovf"
  shows "\<exists>b'. Buffer_init b (Some src) l ovf = Some (errNoError, b') \<and> Buffer_holds b' (cut l t)"
proof -
  from assms(1,4) obtain b1 where b1: "Buffer_init_memory b (nat ovf) = Some b1"
    "bsBufferStatus b1 = bsBufferStatus b" "lBufferBlockNumberOnOverflow b1 = nat ovf"
    "lBufferBlockNumber b1 = 0 \<or> block_ok b1 []"
    using init_memory_ok [of b "nat ovf"] by auto
  let ?n = "length (cut l t)"
  obtain m k where m: "allocMemoryBlockForBufferIfNecessary b1 ?n =
        Some (errNoError, b1\<lparr>pBuffer := m, lBufferBlockNumber := k, bMemoryAllocated := True\<rparr>)"
      "0 < k" "c_str m = Some []" "?n < length m" "k * nat ovf \<le> length m"
    using alloc_after_init_memory [OF b1(4), of ?n] b1(3) assms(4) by auto
  obtain m' where m': "Buffer_init_store m src l ?n = Some m'" "c_str m' = Some (cut l t)"
      "length m' = length m"
    using Buffer_init_store_eq [OF assms(2,3) m(4,3)] by blast
  have "\<not> (l < 0 \<and> l \<noteq> -1)" "bsBufferStatus b = TOOLS_BUFFER_BUILDED"
    using assms(1,3) by (auto simp: len_ok_def Buffer_idle_def)
  then have "Buffer_init b (Some src) l ovf = Some (errNoError,
      b1\<lparr>pBuffer := m', lBufferBlockNumber := k, bMemoryAllocated := True,
         ullCharsNumber := ?n, bsBufferStatus := TOOLS_BUFFER_INITIALIZED\<rparr>)"
    using assms(4) b1(1) m(1) m'(1) arg_length_eq [OF assms(2,3)] by (auto simp: Buffer_init_def)
  then show ?thesis
    using m(2,5) m'(2,3) b1(3) assms(4) by (auto simp: Buffer_holds_def block_ok_def)
qed

lemma Buffer_init_default_holds:
  assumes "Buffer_idle b" "c_str src = Some t"
  shows "\<exists>b'. Buffer_init_default b src = Some (errNoError, b') \<and> Buffer_holds b' t"
  using Buffer_init_holds [OF assms, of "-1" 2]
  by (simp add: Buffer_init_default_def TOOLS_DEFAULTBUFFERBLOCKNUMBERONOVERFLOW_def)

lemma Buffer_finish_idle:
  assumes "Buffer_wf b"
  shows "fst (Buffer_finish b r) = errNoError \<and> Buffer_idle (snd (Buffer_finish b r))"
  using assms by (auto simp: Buffer_wf_def Buffer_finish_def Buffer_idle_def Buffer_holds_def
      block_ok_def Let_def)

section \<open>Writing at the end\<close>

lemma length_observers:
  assumes "Buffer_holds b s"
  shows "getBufferLength b = (errNoError, Some (length s))" "Buffer_as_long b = int (length s)"
    "length s < 2 ^ 64 \<Longrightarrow> Buffer_length b = length s"
proof -
  show len: "getBufferLength b = (errNoError, Some (length s))"
    using Buffer_holdsD [OF assms] by (simp add: getBufferLength_def)
  then show "Buffer_as_long b = int (length s)"
    using Buffer_holdsD [OF assms] by (simp add: Buffer_as_long_def)
  then show "length s < 2 ^ 64 \<Longrightarrow> Buffer_length b = length s"
    by (simp add: Buffer_length_def Buffer_as_ulong_def nat_mod_distrib)
qed

text \<open>The store of \<open>append\<close> into a block with room: the new text, then the old rest.\<close>

lemma append_store:
  assumes "c_str m = Some s" "c_str src = Some t" "n \<le> length t" "length s + n < length m"
  shows "Option.bind (memcpy m (length s) src n) (\<lambda>m1. mem_write m1 (length s + n) NUL) =
           Some (lit (s @ take n t) @ drop (Suc (length s + n)) m)"
proof -
  from c_str_obtain [OF assms(1)] obtain r where m: "m = lit s @ r" by metis
  from c_str_obtain [OF assms(2)] obtain r' where src: "src = lit t @ r'" by metis
  have "memcpy m (length s) src n = Some (map Some (s @ take n t) @ drop (length s + n) m)"
    using assms(3,4) m src by (simp add: memcpy_def splice_def take_lit lit_def min_def take_map)
  moreover have "drop (length s + n) m = m ! (length s + n) # drop (Suc (length s + n)) m"
    using assms(4) by (simp add: Cons_nth_drop_Suc)
  ultimately show ?thesis
    using assms(3,4) by (auto simp: mem_write_def lit_def list_update_append min_def)
qed

lemma cut_eq_take: "len_ok l t \<Longrightarrow> cut l t = take (length (cut l t)) t \<and> length (cut l t) \<le> length t"
  by (auto simp: len_ok_def cut_def)

text \<open>The initialised object \<open>append\<close> and \<open>setBuffer\<close> work on.\<close>

lemma ensure_initialised:
  assumes "Buffer_wf b"
  shows "\<exists>b0. (if bsBufferStatus b = TOOLS_BUFFER_BUILDED
               then Buffer_init_default b (lit []) else Some (errNoError, b)) = Some (errNoError, b0)
             \<and> Buffer_holds b0 (Buffer_text b)"
proof (cases "bsBufferStatus b = TOOLS_BUFFER_BUILDED")
  case True
  with assms have "Buffer_idle b" by (auto simp: Buffer_wf_def Buffer_holds_def)
  moreover have "Buffer_text b = []" using True by (simp add: Buffer_text_def Buffer_str_def)
  ultimately show ?thesis using True Buffer_init_default_holds [of b "lit []" "[]"] by simp
next
  case False
  with assms obtain s where "Buffer_holds b s" by (auto simp: Buffer_wf_def Buffer_idle_def)
  then show ?thesis using False by auto
qed

lemma Buffer_append_holds:
  assumes "Buffer_wf b" "c_str src = Some t" "len_ok l t"
  shows "\<exists>b'. Buffer_append b (Some src) l = Some (errNoError, b') \<and>
           Buffer_holds b' (Buffer_text b @ cut l t)"
proof -
  obtain b0 where b0: "(if bsBufferStatus b = TOOLS_BUFFER_BUILDED
      then Buffer_init_default b (lit []) else Some (errNoError, b)) = Some (errNoError, b0)"
      "Buffer_holds b0 (Buffer_text b)"
    using ensure_initialised [OF assms(1)] by blast
  let ?s = "Buffer_text b" and ?n = "length (cut l t)"
  obtain m k where m: "allocMemoryBlockForBufferIfNecessary b0 ?n =
        Some (errNoError, b0\<lparr>pBuffer := m, lBufferBlockNumber := k, bMemoryAllocated := True\<rparr>)"
      "0 < k" "c_str m = Some ?s" "length ?s + ?n < length m"
      "k * lBufferBlockNumberOnOverflow b0 \<le> length m"
    using alloc_block_ok [OF Buffer_holdsD(2) [OF b0(2)], of ?n] by blast
  let ?m = "lit (?s @ cut l t) @ drop (Suc (length ?s + ?n)) m"
  have "take ?n t = cut l t" "?n \<le> length t" using cut_eq_take [OF assms(3)] by auto
  with append_store [OF m(3) assms(2) _ m(4)]
  have st: "Option.bind (memcpy m (length ?s) src ?n) (\<lambda>m1. mem_write m1 (length ?s + ?n) NUL) = Some ?m"
    by simp
  have no: "NUL \<notin> set (?s @ cut l t)"
    using c_str_no_NUL [OF m(3)] cut_no_NUL [OF c_str_no_NUL [OF assms(2)]] by simp
  have "\<not> (l < 0 \<and> l \<noteq> -1)" using assms(3) by (auto simp: len_ok_def)
  then have "Buffer_append b (Some src) l = Some (errNoError,
      b0\<lparr>pBuffer := ?m, lBufferBlockNumber := k, bMemoryAllocated := True,
         ullCharsNumber := length ?s + ?n\<rparr>)"
    using b0(1) m(1) arg_length_eq [OF assms(2,3)] st Buffer_holdsD(3) [OF b0(2)]
    by (auto simp: Buffer_append_def bind_eq_Some)
  moreover have "block_ok b0 ?s" "bsBufferStatus b0 = TOOLS_BUFFER_INITIALIZED"
    using Buffer_holdsD [OF b0(2)] by auto
  ultimately show ?thesis
    using m(2,4,5) c_str_lit_append [OF no]
    by (auto simp: Buffer_holds_def block_ok_def)
qed

lemma Buffer_setBuffer_holds:
  assumes "Buffer_wf b" "c_str src = Some t" "len_ok l t"
  shows "\<exists>b'. Buffer_setBuffer b (Some src) l = Some (errNoError, b') \<and> Buffer_holds b' (cut l t)"
proof -
  obtain b0 where b0: "(if bsBufferStatus b = TOOLS_BUFFER_BUILDED
      then Buffer_init_default b (lit []) else Some (errNoError, b)) = Some (errNoError, b0)"
      "Buffer_holds b0 (Buffer_text b)"
    using ensure_initialised [OF assms(1)] by blast
  note h = Buffer_holdsD [OF b0(2)]
  let ?n = "length (cut l t)"
  let ?m0 = "lit [] @ drop 1 (pBuffer b0)"
  have m0: "strcpy (pBuffer b0) 0 (lit []) = Some ?m0"
    using h(6) strcpy_0 [of "lit []" "[]" "pBuffer b0"] by fastforce
  have "block_ok (b0\<lparr>pBuffer := ?m0\<rparr>) []"
    using h(2,6) by (auto simp: block_ok_def)
  from alloc_block_ok [OF this, of ?n] obtain m k where
      m: "allocMemoryBlockForBufferIfNecessary (b0\<lparr>pBuffer := ?m0\<rparr>) ?n =
        Some (errNoError, b0\<lparr>pBuffer := m, lBufferBlockNumber := k, bMemoryAllocated := True\<rparr>)"
      "0 < k" "?n < length m" "k * lBufferBlockNumberOnOverflow b0 \<le> length m"
    by auto
  obtain m' where m': "Buffer_set_store m src l ?n = Some m'" "c_str m' = Some (cut l t)"
      "length m' = length m"
    using Buffer_set_store_eq [OF assms(2,3) m(3)] by blast
  have "\<not> (l < 0 \<and> l \<noteq> -1)" using assms(3) by (auto simp: len_ok_def)
  then have "Buffer_setBuffer b (Some src) l = Some (errNoError,
      b0\<lparr>pBuffer := m', lBufferBlockNumber := k, bMemoryAllocated := True, ullCharsNumber := ?n\<rparr>)"
    using b0(1) m(1) arg_length_eq [OF assms(2,3)] m'(1) m0 h(7)
    by (auto simp: Buffer_setBuffer_def)
  then show ?thesis
    using m(2,4) m'(2,3) h(1,2) by (auto simp: Buffer_holds_def block_ok_def)
qed

lemma Buffer_setChar_holds:
  assumes "Buffer_holds b s" "length s < 2 ^ 64" "i < length s"
  shows "\<exists>b'. Buffer_setChar b i c = Some (errNoError, b') \<and>
           Buffer_holds b' (if c = NUL then take i s else s[i := c])"
proof -
  note h = Buffer_holdsD [OF assms(1)]
  from c_str_obtain [OF h(4)] obtain r where r: "pBuffer b = lit s @ r" by metis
  let ?m = "(pBuffer b)[i := Some c]"
  have w: "mem_write (pBuffer b) i c = Some ?m"
    using assms(3) h(6) by (simp add: mem_write_def)
  have "c_str ?m = Some (if c = NUL then take i s else s[i := c])"
  proof (cases "c = NUL")
    case True
    have "s[i := NUL] = take i s @ NUL # drop (Suc i) s"
      using assms(3) by (simp add: upd_conv_take_nth_drop)
    then have "?m = lit (take i s) @ map Some (drop (Suc i) s) @ Some NUL # r"
      using assms(3) True r by (simp add: lit_def list_update_append flip: map_update)
    moreover have "NUL \<notin> set (take i s)" using h(5) by (auto dest: in_set_takeD)
    ultimately show ?thesis using True by simp
  next
    case False
    have "?m = lit (s[i := c]) @ r"
      using assms(3) r by (simp add: lit_def list_update_append map_update)
    moreover have "NUL \<notin> set (s[i := c])"
      using False h(5) set_update_subset_insert [of s i c] by auto
    ultimately show ?thesis using False by simp
  qed
  then show ?thesis
    using assms h w length_observers(3) [OF assms(1,2)]
    by (auto simp: Buffer_setChar_def Buffer_holds_def block_ok_def)
qed

section \<open>Printed numbers\<close>

lemma digit_not_NUL: "d < 10 \<Longrightarrow> char_of (48 + d) \<noteq> NUL" for d :: nat
proof
  assume "d < 10" "char_of (48 + d) = NUL"
  then have "of_char (char_of (48 + d) :: char) = (0 :: nat)" by simp
  then show False using \<open>d < 10\<close> by simp
qed

lemma decimal_of_nat_no_NUL: "NUL \<notin> set (decimal_of_nat n)"
proof (induction n rule: decimal_of_nat.induct)
  case (1 n)
  then show ?case
    using digit_not_NUL [of n] digit_not_NUL [of "n mod 10"]
    by (cases "n < 10") (simp_all add: decimal_of_nat.simps [of n] eq_commute [of NUL])
qed

lemma decimal_no_NUL: "NUL \<notin> set (decimal_of_int i)"
  by (simp add: decimal_of_int_def decimal_of_nat_no_NUL)

lemma decimal_of_int_length: "\<bar>i\<bar> < 10 ^ 20 \<Longrightarrow> length (decimal_of_int i) \<le> 21"
proof -
  assume "\<bar>i\<bar> < 10 ^ 20"
  then have "nat \<bar>i\<bar> < 10 ^ 20" by simp
  from decimal_of_nat_length [OF _ this] show ?thesis
    by (auto simp: decimal_of_int_def)
qed

lemma decimal_sint_length: "length (decimal_of_int (sint (w :: 64 word))) \<le> 21"
  using sint_range_size [of w] by (intro decimal_of_int_length) (auto simp: word_size)

lemma decimal_uint_length: "length (decimal_of_int (uint (w :: 64 word))) \<le> 21"
  using uint_range_size [of w] by (intro decimal_of_int_length) (auto simp: word_size)

lemma sprintf_local_eq:
  "NUL \<notin> set out \<Longrightarrow> sprintf_local out =
     (if length out < 129 then Some (lit out @ fresh_block (128 - length out)) else None)"
  by (simp add: sprintf_local_def strcpy_fresh strcpy_def splice_def)

lemma Buffer_append_checked_holds:
  assumes "Buffer_wf b" "c_str src = Some t"
  shows "\<exists>b'. Buffer_append_checked b src = Some (errNoError, b') \<and>
           Buffer_holds b' (Buffer_text b @ t)"
  using Buffer_append_holds [OF assms, of "-1"] by (auto simp: Buffer_append_checked_def)

lemma Buffer_append_printed_holds:
  assumes "Buffer_wf b" "NUL \<notin> set out" "length out < 129"
  shows "\<exists>b'. Buffer_append_printed b out = Some (errNoError, b') \<and>
           Buffer_holds b' (Buffer_text b @ out)"
  using assms Buffer_append_checked_holds [OF assms(1)]
  by (simp add: Buffer_append_printed_def sprintf_local_eq)

end
