(* ===== verification/BufferEdit.thy ===== *)
theory BufferEdit
  imports BufferSpec
begin

text \<open>
  The editing operations of \<open>Buffer\<close> (\<open>insertAt\<close>, \<open>substitute\<close>, \<open>removeCTRLCharacters\<close>,
  \<open>removeChar\<close>, \<open>truncateStartingFrom\<close>, \<open>truncateIfBigger\<close>, the two \<open>strip\<close>) as the code runs
  them on the block, and what each does to the text.
\<close>

section \<open>insertAt\<close>

definition Buffer_insertAt :: "buffer \<Rightarrow> int \<Rightarrow> mem option \<Rightarrow> buffer_run" where
  "Buffer_insertAt b lStartIndex pBuf =
     (if lStartIndex < 0 then Some (TOOLS_ACTIVATION_WRONG, b)
      else case pBuf of
        None \<Rightarrow> Some (TOOLS_ACTIVATION_WRONG, b)
      | Some src \<Rightarrow>
          if bsBufferStatus b = TOOLS_BUFFER_BUILDED then Some (TOOLS_OPERATION_NOTALLOWED, b)
          else if lStartIndex > Buffer_as_long b then Some (TOOLS_ACTIVATION_WRONG, b)
          else if lStartIndex = Buffer_as_long b then Buffer_append_checked b src
          else do {
            n \<leftarrow> strlen (drop (nat lStartIndex) (pBuffer b));
            pRemainingBuffer \<leftarrow> strcpy (fresh_block (n + 1)) 0 (drop (nat lStartIndex) (pBuffer b));
            m \<leftarrow> mem_write (pBuffer b) (nat lStartIndex) NUL;
            (e, b1) \<leftarrow> Buffer_append_checked
                        (b\<lparr>pBuffer := m, ullCharsNumber := nat lStartIndex\<rparr>) src;
            if e \<noteq> errNoError then Some (e, b1)
            else Buffer_append_checked b1 pRemainingBuffer
          })"

definition Buffer_insertAt_buffer :: "buffer \<Rightarrow> int \<Rightarrow> buffer \<Rightarrow> buffer_run" where
  "Buffer_insertAt_buffer b lStartIndex bBuffer =
     (if bsBufferStatus b = TOOLS_BUFFER_BUILDED \<or> bsBufferStatus bBuffer = TOOLS_BUFFER_BUILDED
      then Some (TOOLS_OPERATION_NOTALLOWED, b)
      else Buffer_insertAt b lStartIndex (Some (Buffer_str bBuffer)))"

section \<open>substitute\<close>

text \<open>\<open>strstr\<close> from a position of the block: the position of the next occurrence.\<close>

definition strstr_from :: "mem \<Rightarrow> nat \<Rightarrow> char list \<Rightarrow> nat option option" where
  "strstr_from m pos ini = do {
     s \<leftarrow> c_str (drop pos m);
     Some (map_option ((+) pos) (find_sub ini s))
   }"

text \<open>The counting loop. It does not return for an empty \<open>pInitial\<close>.\<close>

partial_function (option) substitute_count :: "mem \<Rightarrow> char list \<Rightarrow> nat \<Rightarrow> nat \<Rightarrow> nat option" where
  "substitute_count m ini pos lSubstitutionNumber =
     Option.bind (strstr_from m pos ini) (\<lambda>r.
       case r of
         None \<Rightarrow> Some lSubstitutionNumber
       | Some p \<Rightarrow> substitute_count m ini (p + length ini) (Suc lSubstitutionNumber))"

text \<open>One replacement at \<open>p\<close>: in place when the lengths agree, else the rest moves.\<close>

definition substitute_at :: "mem \<Rightarrow> char list \<Rightarrow> mem \<Rightarrow> nat \<Rightarrow> bool \<Rightarrow> nat \<Rightarrow> mem option" where
  "substitute_at m ini fin lFinalLength same p =
     (if same then strncpy m p fin lFinalLength
      else do {
        rest \<leftarrow> c_str (drop (p + length ini) m);
        let lTmpLength = length rest;
        m1 \<leftarrow> strncpy m (p + lFinalLength) (lit rest) lTmpLength;
        m2 \<leftarrow> mem_write m1 (p + lFinalLength + lTmpLength) NUL;
        strncpy m2 p fin lFinalLength
      })"

partial_function (option) substitute_loop ::
  "char list \<Rightarrow> mem \<Rightarrow> nat \<Rightarrow> bool \<Rightarrow> mem \<Rightarrow> nat \<Rightarrow> mem option" where
  "substitute_loop ini fin lFinalLength same m pos =
     Option.bind (strstr_from m pos ini) (\<lambda>r.
       case r of
         None \<Rightarrow> Some m
       | Some p \<Rightarrow> Option.bind (substitute_at m ini fin lFinalLength same p)
                    (\<lambda>m'. substitute_loop ini fin lFinalLength same m' (p + lFinalLength)))"

definition Buffer_substitute :: "buffer \<Rightarrow> mem option \<Rightarrow> mem option \<Rightarrow> buffer_run" where
  "Buffer_substitute b pInitial pFinal =
     (case (pInitial, pFinal) of
        (Some pini, Some fin) \<Rightarrow>
          if bsBufferStatus b \<noteq> TOOLS_BUFFER_INITIALIZED then Some (TOOLS_OPERATION_NOTALLOWED, b)
          else if lBufferBlockNumber b = 0 then Some (errNoError, b)
          else do {
            lFinalLength \<leftarrow> strlen fin;
            ini \<leftarrow> c_str pini;
            lSubstitutionNumber \<leftarrow> substitute_count (pBuffer b) ini 0 0;
            if lSubstitutionNumber = 0 then Some (errNoError, b)
            else do {
              let lDifference = (int lFinalLength - int (length ini)) * int lSubstitutionNumber;
              (e, b1) \<leftarrow> (if lDifference > 0
                         then allocMemoryBlockForBufferIfNecessary b (nat lDifference)
                         else Some (errNoError, b));
              if e \<noteq> errNoError
              then Some (TOOLS_BUFFER_ALLOCMEMORYBLOCKFORBUFFERIFNECESSARY_FAILED, b1)
              else do {
                m \<leftarrow> substitute_loop ini fin lFinalLength (lDifference = 0) (pBuffer b1) 0;
                Some (errNoError, b1\<lparr>pBuffer := m,
                        ullCharsNumber := nat (int (ullCharsNumber b1) + lDifference)\<rparr>)
              }
            }
          }
      | _ \<Rightarrow> Some (TOOLS_ACTIVATION_WRONG, b))"

definition Buffer_substitute_ulong :: "buffer \<Rightarrow> mem option \<Rightarrow> 64 word \<Rightarrow> buffer_run" where
  "Buffer_substitute_ulong b pInitial ulFinal =
     (case pInitial of
        None \<Rightarrow> Some (TOOLS_ACTIVATION_WRONG, b)
      | Some ini \<Rightarrow>
          if bsBufferStatus b \<noteq> TOOLS_BUFFER_INITIALIZED then Some (TOOLS_OPERATION_NOTALLOWED, b)
          else do {
            pLocal \<leftarrow> sprintf_local (decimal_of_int (uint ulFinal));
            (e, b1) \<leftarrow> Buffer_substitute b (Some ini) (Some pLocal);
            if e \<noteq> errNoError then Some (TOOLS_BUFFER_SUBSTITUTE_FAILED, b1)
            else Some (errNoError, b1)
          })"

section \<open>Removing and truncating\<close>

text \<open>The inner loop \<open>for (i; i < n; i++) p [i] = p [i + 1]\<close>.\<close>

function shift_left :: "mem \<Rightarrow> nat \<Rightarrow> nat \<Rightarrow> mem option" where
  "shift_left m i n =
     (if i < n then do { c \<leftarrow> mem_read m (Suc i); m' \<leftarrow> mem_write m i c; shift_left m' (Suc i) n }
      else Some m)"
  by pat_completeness auto
termination
  by (relation "measure (\<lambda>(m, i, n). n - i)") auto

declare shift_left.simps [simp del]

text \<open>\<open>iscntrl\<close> in the C locale; a \<^verbatim>\<open>char\<close> is signed, so the byte 160 is compared as -96.\<close>

definition iscntrl :: "char \<Rightarrow> bool" where
  "iscntrl c \<longleftrightarrow> (of_char c :: nat) < 32 \<or> (of_char c :: nat) = 127"

definition NBSP :: char where
  "NBSP = char_of (160 :: nat)"

function removeCTRL_loop :: "mem \<Rightarrow> nat \<Rightarrow> nat \<Rightarrow> (mem \<times> nat) option" where
  "removeCTRL_loop m ulIndex chars =
     (if ulIndex < chars then do {
        c \<leftarrow> mem_read m ulIndex;
        if iscntrl c then do {
          m' \<leftarrow> shift_left m ulIndex chars;
          removeCTRL_loop m' (Suc ulIndex) (chars - 1)
        }
        else if c = NBSP then do {
          m' \<leftarrow> mem_write m ulIndex (CHR '' '');
          removeCTRL_loop m' (Suc ulIndex) chars
        }
        else removeCTRL_loop m (Suc ulIndex) chars
      }
      else Some (m, chars))"
  by pat_completeness auto
termination
  by (relation "measure (\<lambda>(m, i, n). n - i)") auto

declare removeCTRL_loop.simps [simp del]

definition Buffer_removeCTRLCharacters :: "buffer \<Rightarrow> buffer_run" where
  "Buffer_removeCTRLCharacters b =
     (if bsBufferStatus b \<noteq> TOOLS_BUFFER_INITIALIZED then Some (TOOLS_OPERATION_NOTALLOWED, b)
      else do {
        (m, n) \<leftarrow> removeCTRL_loop (pBuffer b) 0 (ullCharsNumber b);
        Some (errNoError, b\<lparr>pBuffer := m, ullCharsNumber := n\<rparr>)
      })"

definition Buffer_removeChar :: "buffer \<Rightarrow> nat \<Rightarrow> buffer_run" where
  "Buffer_removeChar b ulIndex =
     (if bsBufferStatus b = TOOLS_BUFFER_BUILDED then Some (TOOLS_OPERATION_NOTALLOWED, b)
      else if ulIndex \<ge> Buffer_length b then Some (TOOLS_ACTIVATION_WRONG, b)
      else do {
        m \<leftarrow> shift_left (pBuffer b) ulIndex (ullCharsNumber b);
        Some (errNoError, b\<lparr>pBuffer := m, ullCharsNumber := ullCharsNumber b - 1\<rparr>)
      })"

datatype strip_type = STRIPTYPE_LEADING | STRIPTYPE_TRAILING | STRIPTYPE_BOTH

text \<open>\<open>strchr\<close> and \<open>strrchr\<close> also find the terminator.\<close>

definition strchr :: "char list \<Rightarrow> char \<Rightarrow> nat option" where
  "strchr s c = (if c = NUL then Some (length s) else find_first c s)"

definition strrchr :: "char list \<Rightarrow> char \<Rightarrow> nat option" where
  "strrchr s c = (if c = NUL then Some (length s) else find_last c s)"

definition Buffer_truncateStartingFrom :: "buffer \<Rightarrow> strip_type \<Rightarrow> char \<Rightarrow> buffer_run" where
  "Buffer_truncateStartingFrom b stStripType cCharToSearch =
     (if bsBufferStatus b \<noteq> TOOLS_BUFFER_INITIALIZED then Some (TOOLS_OPERATION_NOTALLOWED, b)
      else if stStripType = STRIPTYPE_BOTH then Some (TOOLS_ACTIVATION_WRONG, b)
      else do {
        s \<leftarrow> c_str (pBuffer b);
        case (if stStripType = STRIPTYPE_LEADING then strchr s cCharToSearch
              else strrchr s cCharToSearch) of
          None \<Rightarrow> Some (TOOLS_BUFFER_CHARNOTFOUND, b)
        | Some i \<Rightarrow> Buffer_setChar b i NUL
      })"

definition Buffer_truncateIfBigger :: "buffer \<Rightarrow> nat \<Rightarrow> buffer_run" where
  "Buffer_truncateIfBigger b ulMaxLength =
     (if bsBufferStatus b \<noteq> TOOLS_BUFFER_INITIALIZED then Some (TOOLS_OPERATION_NOTALLOWED, b)
      else if ullCharsNumber b > ulMaxLength then Buffer_setChar b ulMaxLength NUL
      else Some (errNoError, b))"

section \<open>strip\<close>

text \<open>The search of the first text character, by steps of the stripped string.\<close>

partial_function (option) strip_leading_index :: "mem \<Rightarrow> mem \<Rightarrow> nat \<Rightarrow> nat \<Rightarrow> nat \<Rightarrow> nat option" where
  "strip_leading_index m t ulStringToStripLength ulBufferLength i =
     (if i < ulBufferLength then
        (if ulBufferLength - i < ulStringToStripLength then Some i
         else Option.bind (strncmp (drop i m) t ulStringToStripLength) (\<lambda>d.
           if d \<noteq> 0 then Some i
           else strip_leading_index m t ulStringToStripLength ulBufferLength
                  (i + ulStringToStripLength)))
      else Some i)"

text \<open>The loop that moves the text from \<open>first\<close> to the front of the block.\<close>

function move_front :: "mem \<Rightarrow> nat \<Rightarrow> nat \<Rightarrow> nat \<Rightarrow> mem option" where
  "move_front m first i n =
     (if i < n then do { c \<leftarrow> mem_read m i; m' \<leftarrow> mem_write m (i - first) c; move_front m' first (Suc i) n }
      else Some m)"
  by pat_completeness auto
termination
  by (relation "measure (\<lambda>(m, f, i, n). n - i)") auto

declare move_front.simps [simp del]

definition strip_leading_step :: "buffer \<Rightarrow> mem \<Rightarrow> nat \<Rightarrow> buffer option" where
  "strip_leading_step b t ulStringToStripLength = do {
     let ulBufferLength = ullCharsNumber b;
     lBufferIndex \<leftarrow> strip_leading_index (pBuffer b) t ulStringToStripLength ulBufferLength 0;
     if lBufferIndex \<noteq> 0 then do {
       m \<leftarrow> move_front (pBuffer b) lBufferIndex lBufferIndex ulBufferLength;
       m' \<leftarrow> mem_write m (ulBufferLength - lBufferIndex) NUL;
       Some (b\<lparr>pBuffer := m', ullCharsNumber := ulBufferLength - lBufferIndex\<rparr>)
     }
     else Some b
   }"

text \<open>The search from the end: \<open>i\<close> is a signed index and ends the loop below 0.\<close>

partial_function (option) strip_trailing_index :: "mem \<Rightarrow> mem \<Rightarrow> nat \<Rightarrow> int \<Rightarrow> int option" where
  "strip_trailing_index m t ulStringToStripLength i =
     (if i \<ge> 0 then
        Option.bind (strncmp (drop (nat i) m) t ulStringToStripLength) (\<lambda>d.
          if d \<noteq> 0 then Some i
          else strip_trailing_index m t ulStringToStripLength (i - int ulStringToStripLength))
      else Some i)"

definition strip_trailing_step :: "buffer \<Rightarrow> mem \<Rightarrow> nat \<Rightarrow> buffer option" where
  "strip_trailing_step b t ulStringToStripLength = do {
     let start = int (ullCharsNumber b) - int ulStringToStripLength;
     lBufferIndex \<leftarrow> strip_trailing_index (pBuffer b) t ulStringToStripLength start;
     if lBufferIndex \<noteq> start then do {
       m \<leftarrow> mem_write (pBuffer b) (nat (lBufferIndex + int ulStringToStripLength)) NUL;
       Some (b\<lparr>pBuffer := m, ullCharsNumber := nat (lBufferIndex + int ulStringToStripLength)\<rparr>)
     }
     else Some b
   }"

definition Buffer_strip :: "buffer \<Rightarrow> strip_type \<Rightarrow> mem \<Rightarrow> buffer_run" where
  "Buffer_strip b stStripType t =
     (if bsBufferStatus b \<noteq> TOOLS_BUFFER_INITIALIZED then Some (TOOLS_OPERATION_NOTALLOWED, b)
      else do {
        k \<leftarrow> strlen t;
        b1 \<leftarrow> (if stStripType = STRIPTYPE_LEADING \<or> stStripType = STRIPTYPE_BOTH
              then strip_leading_step b t k else Some b);
        b2 \<leftarrow> (if stStripType = STRIPTYPE_TRAILING \<or> stStripType = STRIPTYPE_BOTH
              then strip_trailing_step b1 t k else Some b1);
        Some (errNoError, b2)
      })"

text \<open>The variant that strips a number of characters.\<close>

definition strip_count_leading :: "buffer \<Rightarrow> nat \<Rightarrow> buffer option" where
  "strip_count_leading b n = do {
     m \<leftarrow> move_front (pBuffer b) n n (ullCharsNumber b);
     m' \<leftarrow> mem_write m (ullCharsNumber b - n) NUL;
     Some (b\<lparr>pBuffer := m', ullCharsNumber := ullCharsNumber b - n\<rparr>)
   }"

definition strip_count_trailing :: "buffer \<Rightarrow> nat \<Rightarrow> buffer option" where
  "strip_count_trailing b n = do {
     m' \<leftarrow> mem_write (pBuffer b) (ullCharsNumber b - n) NUL;
     Some (b\<lparr>pBuffer := m', ullCharsNumber := ullCharsNumber b - n\<rparr>)
   }"

definition Buffer_strip_count :: "buffer \<Rightarrow> strip_type \<Rightarrow> nat \<Rightarrow> buffer_run" where
  "Buffer_strip_count b stStripType n =
     (if bsBufferStatus b \<noteq> TOOLS_BUFFER_INITIALIZED then Some (TOOLS_OPERATION_NOTALLOWED, b)
      else if (stStripType = STRIPTYPE_BOTH \<and> n * 2 > ullCharsNumber b) \<or>
              (stStripType \<noteq> STRIPTYPE_BOTH \<and> n > ullCharsNumber b)
      then Some (TOOLS_ACTIVATION_WRONG, b)
      else do {
        b1 \<leftarrow> (if stStripType = STRIPTYPE_LEADING \<or> stStripType = STRIPTYPE_BOTH
              then strip_count_leading b n else Some b);
        b2 \<leftarrow> (if stStripType = STRIPTYPE_TRAILING \<or> stStripType = STRIPTYPE_BOTH
              then strip_count_trailing b1 n else Some b1);
        Some (errNoError, b2)
      })"

end
