(* ===== verification/BufferEditSpec.thy ===== *)
theory BufferEditSpec
  imports BufferEdit
begin

text \<open>
  What the editing operations of \<open>Buffer\<close> do to the text: each loop on the block is shown to
  compute a function on character lists, and each operation to keep \<open>Buffer_holds\<close> with the
  edited text.
\<close>

section \<open>Texts inside a block\<close>

lemma cut_lit:
  "i \<le> length s \<Longrightarrow> drop i (lit s) = lit (drop i s)"
  "i \<le> length s \<Longrightarrow> take i (lit s) = map Some (take i s)"
  by (simp_all add: lit_def drop_map take_map)

lemma not_in_take_drop:
  "x \<notin> set s \<Longrightarrow> x \<notin> set (take i s)" "x \<notin> set s \<Longrightarrow> x \<notin> set (drop i s)"
  by (auto dest: in_set_takeD in_set_dropD)

lemma c_str_drop:
  assumes "c_str m = Some s" "i \<le> length s"
  shows "c_str (drop i m) = Some (drop i s)"
proof -
  from c_str_obtain [OF assms(1)] obtain r where "m = lit s @ r" "NUL \<notin> set s" by metis
  then show ?thesis using assms(2) by (simp add: cut_lit not_in_take_drop)
qed

lemma mem_write_NUL:
  assumes "c_str m = Some s" "i \<le> length s"
  shows "\<exists>m'. mem_write m i NUL = Some m' \<and> c_str m' = Some (take i s) \<and> length m' = length m"
proof -
  from c_str_obtain [OF assms(1)] obtain r where r: "m = lit s @ r" "NUL \<notin> set s" by metis
  have "m[i := Some NUL] = take i m @ Some NUL # drop (Suc i) m"
    using assms r by (intro upd_conv_take_nth_drop) simp
  also have "take i m = map Some (take i s)" using r assms(2) by (simp add: cut_lit)
  finally have "m[i := Some NUL] = lit (take i s) @ drop (Suc i) m" by (simp add: lit_def)
  then show ?thesis
    using r assms(2) c_str_length [OF assms(1)] by (simp add: mem_write_def not_in_take_drop)
qed

text \<open>How an operation that only edits the block within its size keeps the invariant.\<close>

lemma Buffer_holds_edit:
  assumes "Buffer_holds b s" "c_str m = Some t" "length m = length (pBuffer b)" "n = length t"
  shows "Buffer_holds (b\<lparr>pBuffer := m, ullCharsNumber := n\<rparr>) t"
  using assms by (simp add: Buffer_holds_def block_ok_def)

section \<open>insertAt\<close>

lemma Buffer_insertAt_holds:
  assumes "Buffer_holds b s" "c_str src = Some t" "i \<le> length s"
  shows "\<exists>b'. Buffer_insertAt b (int i) (Some src) = Some (errNoError, b') \<and>
           Buffer_holds b' (take i s @ t @ drop i s)"
proof (cases "i = length s")
  case True
  then show ?thesis
    using assms Buffer_append_checked_holds [OF Buffer_holds_wf [OF assms(1)] assms(2)]
    by (simp add: Buffer_insertAt_def length_observers Buffer_holdsD)
next
  case False
  note h = Buffer_holdsD [OF assms(1)]
  have rest: "c_str (drop i (pBuffer b)) = Some (drop i s)"
    using c_str_drop [OF h(4) assms(3)] .
  then have sl: "strlen (drop i (pBuffer b)) = Some (length s - i)" by simp
  obtain rem where rem: "strcpy (fresh_block (length s - i + 1)) 0 (drop i (pBuffer b)) = Some rem"
      "c_str rem = Some (drop i s)"
    using strcpy_fresh [OF rest, of "length s - i + 1"] h(5) by (simp add: not_in_take_drop)
  obtain m where m: "mem_write (pBuffer b) i NUL = Some m" "c_str m = Some (take i s)"
      "length m = length (pBuffer b)"
    using mem_write_NUL [OF h(4) assms(3)] by blast
  have cutb: "Buffer_holds (b\<lparr>pBuffer := m, ullCharsNumber := i\<rparr>) (take i s)"
    using Buffer_holds_edit [OF assms(1) m(2,3)] assms(3) by simp
  obtain b1 where b1: "Buffer_append_checked (b\<lparr>pBuffer := m, ullCharsNumber := i\<rparr>) src
        = Some (errNoError, b1)" "Buffer_holds b1 (take i s @ t)"
    using Buffer_append_checked_holds [OF Buffer_holds_wf [OF cutb] assms(2)] cutb by auto
  obtain b2 where "Buffer_append_checked b1 rem = Some (errNoError, b2)"
      "Buffer_holds b2 ((take i s @ t) @ drop i s)"
    using Buffer_append_checked_holds [OF Buffer_holds_wf [OF b1(2)] rem(2)] b1(2) by auto
  then show ?thesis
    using False assms(1,3) h(9) sl rem(1) m(1) b1(1)
    by (simp add: Buffer_insertAt_def length_observers)
qed

section \<open>substitute\<close>

text \<open>Every occurrence from left to right; the text put in is not searched again.\<close>

function replace_all :: "char list \<Rightarrow> char list \<Rightarrow> char list \<Rightarrow> char list" where
  "replace_all ini fin s =
     (if ini = [] then s
      else case find_sub ini s of
        None \<Rightarrow> s
      | Some p \<Rightarrow> take p s @ fin @ replace_all ini fin (drop (p + length ini) s))"
  by pat_completeness auto

function count_sub :: "char list \<Rightarrow> char list \<Rightarrow> nat" where
  "count_sub ini s =
     (if ini = [] then 0
      else case find_sub ini s of
        None \<Rightarrow> 0
      | Some p \<Rightarrow> Suc (count_sub ini (drop (p + length ini) s)))"
  by pat_completeness auto

lemma find_sub_Some:
  "find_sub t s = Some p \<Longrightarrow> s = take p s @ t @ drop (p + length t) s \<and> p + length t \<le> length s"
proof (induction t s arbitrary: p rule: find_sub.induct)
  case (1 t)
  then show ?case by (auto split: if_splits)
next
  case (2 t c s)
  show ?case
  proof (cases "take (length t) (c # s) = t")
    case True
    with 2 have p: "p = 0" by simp
    have "c # s = t @ drop (length t) (c # s)"
      using True append_take_drop_id [of "length t" "c # s"] by simp
    moreover have "length t \<le> length (c # s)" using True by (metis length_take min.cobounded1)
    ultimately show ?thesis using p by simp
  next
    case False
    with 2 obtain q where "p = Suc q" "find_sub t s = Some q" by auto
    with 2 False show ?thesis by auto
  qed
qed

lemma find_sub_lt: "find_sub t s = Some p \<Longrightarrow> t \<noteq> [] \<Longrightarrow> length s - (p + length t) < length s"
  using find_sub_Some [of t s p] by (cases t) auto

termination replace_all
  by (relation "measure (\<lambda>(i, f, s). length s)") (auto dest: find_sub_lt)

termination count_sub
  by (relation "measure (\<lambda>(i, s). length s)") (auto dest: find_sub_lt)

declare replace_all.simps [simp del] count_sub.simps [simp del]

lemma replace_all_length:
  "int (length (replace_all ini fin s)) =
     int (length s) + (int (length fin) - int (length ini)) * int (count_sub ini s)"
proof (induction ini fin s rule: replace_all.induct)
  case (1 ini fin s)
  show ?case
  proof (cases "ini = [] \<or> find_sub ini s = None")
    case True
    then show ?thesis by (auto simp: replace_all.simps [of ini fin s] count_sub.simps [of ini s])
  next
    case False
    then obtain p where p: "ini \<noteq> []" "find_sub ini s = Some p" by auto
    from 1 [OF p] have IH: "int (length (replace_all ini fin (drop (p + length ini) s))) =
        int (length s - (p + length ini)) +
        (int (length fin) - int (length ini)) * int (count_sub ini (drop (p + length ini) s))"
      by simp
    from find_sub_Some [OF p(2)] have "p + length ini \<le> length s" by simp
    then show ?thesis
      using p IH by (simp add: replace_all.simps [of ini fin s] count_sub.simps [of ini s]
          of_nat_diff algebra_simps)
  qed
qed

lemma replace_all_no_NUL:
  "NUL \<notin> set s \<Longrightarrow> NUL \<notin> set fin \<Longrightarrow> NUL \<notin> set (replace_all ini fin s)"
proof (induction ini fin s rule: replace_all.induct)
  case (1 ini fin s)
  then show ?case
    by (subst replace_all.simps) (auto split: option.splits dest: in_set_takeD in_set_dropD)
qed

lemma strstr_from_eq:
  "c_str m = Some (pre @ s) \<Longrightarrow>
     strstr_from m (length pre) ini = Some (map_option ((+) (length pre)) (find_sub ini s))"
  using c_str_drop [of m "pre @ s" "length pre"] by (simp add: strstr_from_def)

lemma substitute_count_eq:
  assumes "ini \<noteq> []" "c_str m = Some (pre @ s)"
  shows "substitute_count m ini (length pre) k = Some (k + count_sub ini s)"
  using assms
proof (induction ini s arbitrary: pre k rule: count_sub.induct)
  case (1 ini s)
  show ?case
  proof (cases "find_sub ini s")
    case None
    then show ?thesis
      using 1 by (simp add: substitute_count.simps [of m] strstr_from_eq count_sub.simps [of ini s])
  next
    case (Some p)
    from find_sub_Some [OF Some] have s: "s = take p s @ ini @ drop (p + length ini) s"
        "length (take p s) = p" by auto
    then have "c_str m = Some ((pre @ take p s @ ini) @ drop (p + length ini) s)"
      using 1(3) by simp
    from 1(1) [OF 1(2) Some 1(2) this, of "Suc k"] s(2)
    show ?thesis
      using 1 Some
      by (simp add: substitute_count.simps [of m _ "length pre"] strstr_from_eq
          count_sub.simps [of ini s] add.assoc)
  qed
qed

lemma splice_Some: "off + length cs \<le> length m \<Longrightarrow>
    splice m off cs = Some (take off m @ cs @ drop (off + length cs) m)"
  by (simp add: splice_def)

lemma strncpy_text:
  assumes "c_str src = Some f" "off + length f \<le> length m"
  shows "strncpy m off src (length f) = Some (take off m @ map Some f @ drop (off + length f) m)"
proof -
  from c_str_obtain [OF assms(1)] obtain r where "src = lit f @ r" "NUL \<notin> set f" by metis
  then show ?thesis using assms(2) by (simp add: strncpy_def strncpy_bytes_eq splice_Some)
qed

text \<open>One replacement, in a block with room for its result.\<close>

lemma substitute_at_same:
  assumes "c_str m = Some (x @ ini @ z)" "c_str fin = Some f" "length f = length ini"
  shows "\<exists>m'. substitute_at m ini fin (length f) True (length x) = Some m' \<and>
           c_str m' = Some (x @ f @ z) \<and> length m' = length m"
proof -
  from c_str_obtain [OF assms(1)] obtain r where r: "m = lit (x @ ini @ z) @ r"
      "NUL \<notin> set (x @ ini @ z)" by metis
  let ?m = "lit (x @ f @ z) @ r"
  have "strncpy m (length x) fin (length f) = Some ?m"
    using r assms(3) by (subst strncpy_text [OF assms(2)]) (auto simp: lit_def)
  then have "substitute_at m ini fin (length f) True (length x) = Some ?m"
    by (simp add: substitute_at_def)
  moreover have "c_str ?m = Some (x @ f @ z)"
    using r c_str_no_NUL [OF assms(2)] by (intro c_str_lit_append) auto
  moreover have "length ?m = length m" using r assms(3) by simp
  ultimately show ?thesis by blast
qed

lemma substitute_at_move:
  assumes "c_str m = Some (x @ ini @ z)" "c_str fin = Some f" "length (x @ f @ z) < length m"
  shows "\<exists>m'. substitute_at m ini fin (length f) False (length x) = Some m' \<and>
           c_str m' = Some (x @ f @ z) \<and> length m' = length m"
proof -
  note nn = c_str_no_NUL [OF assms(1)] c_str_no_NUL [OF assms(2)]
  from c_str_obtain [OF assms(1)] obtain r where r: "m = lit (x @ ini @ z) @ r" by metis
  let ?o = "length x + length f" and ?l = "length z"
  have rest: "c_str (drop (length x + length ini) m) = Some z"
    using c_str_drop [OF assms(1), of "length x + length ini"] by simp
  let ?m1 = "take ?o m @ map Some z @ drop (?o + ?l) m"
  have m1: "strncpy m ?o (lit z) ?l = Some ?m1"
    using nn assms(3) by (intro strncpy_text) auto
  let ?m2 = "take ?o m @ map Some z @ Some NUL # drop (Suc (?o + ?l)) m"
  have "drop (?o + ?l) m = m ! (?o + ?l) # drop (Suc (?o + ?l)) m"
    using assms(3) by (simp add: Cons_nth_drop_Suc)
  then have m2: "mem_write ?m1 (?o + ?l) NUL = Some ?m2"
    using assms(3) by (simp add: mem_write_def list_update_append min_def)
  have x: "take (length x) m = map Some x" using r by (simp add: lit_def)
  let ?m3 = "map Some x @ map Some f @ map Some z @ Some NUL # drop (Suc (?o + ?l)) m"
  have m3: "strncpy ?m2 (length x) fin (length f) = Some ?m3"
    using assms(3) x by (subst strncpy_text [OF assms(2)]) (auto simp: min_def)
  let ?m4 = "lit (x @ f @ z) @ drop (Suc (?o + ?l)) m"
  have "?m3 = ?m4" by (simp add: lit_def)
  then have "substitute_at m ini fin (length f) False (length x) = Some ?m4"
    using rest m1 m2 m3 by (simp add: substitute_at_def Let_def)
  moreover have "c_str ?m4 = Some (x @ f @ z)"
    using nn by (intro c_str_lit_append) auto
  moreover have "length ?m4 = length m" using assms(3) by simp
  ultimately show ?thesis by blast
qed

lemma substitute_loop_eq:
  assumes "ini \<noteq> []" "c_str fin = Some f" "c_str m = Some (pre @ s)"
    "length (pre @ s) < length m" "length (pre @ replace_all ini f s) < length m"
    "same \<longleftrightarrow> length f = length ini"
  shows "\<exists>m'. substitute_loop ini fin (length f) same m (length pre) = Some m' \<and>
           c_str m' = Some (pre @ replace_all ini f s) \<and> length m' = length m"
  using assms
proof (induction ini f s arbitrary: pre m rule: replace_all.induct)
  case (1 ini f s)
  show ?case
  proof (cases "find_sub ini s")
    case None
    then show ?thesis
      using 1 by (simp add: substitute_loop.simps [of _ _ _ _ m] strstr_from_eq
          replace_all.simps [of ini f s])
  next
    case (Some p)
    let ?z = "drop (p + length ini) s" and ?x = "pre @ take p s"
    from find_sub_Some [OF Some] have s: "s = take p s @ ini @ ?z" and p: "p + length ini \<le> length s"
      by auto
    have c: "c_str m = Some (?x @ ini @ ?z)" using 1(4) s by simp
    have lx: "length ?x = length pre + p" using p by simp
    have ra: "replace_all ini f s = take p s @ f @ replace_all ini f ?z"
      using 1(2) Some by (simp add: replace_all.simps [of ini f s])
    have len: "length (?x @ f @ ?z) < length m"
    proof (cases "length f \<le> length ini")
      case True
      then show ?thesis using 1(5) p by simp
    next
      case False
      then have "(0::int) \<le> (int (length f) - int (length ini)) * int (count_sub ini ?z)" by simp
      then have "length ?z \<le> length (replace_all ini f ?z)"
        using replace_all_length [of ini f ?z] by linarith
      then show ?thesis using 1(6) ra by simp
    qed
    have "\<exists>m'. substitute_at m ini fin (length f) same (length ?x) = Some m' \<and>
             c_str m' = Some (?x @ f @ ?z) \<and> length m' = length m"
      using substitute_at_same [OF c 1(3)] substitute_at_move [OF c 1(3) len] 1(7) by (cases same) auto
    then obtain m' where m': "substitute_at m ini fin (length f) same (length ?x) = Some m'"
        "c_str m' = Some ((?x @ f) @ ?z)" "length m' = length m" by auto
    have "\<exists>m''. substitute_loop ini fin (length f) same m' (length (?x @ f)) = Some m'' \<and>
             c_str m'' = Some ((?x @ f) @ replace_all ini f ?z) \<and> length m'' = length m'"
      by (rule 1(1) [OF 1(2) Some 1(2,3) m'(2)]) (use len 1(6) 1(7) ra m'(3) in auto)
    then show ?thesis
      using 1(4) Some m'(1,3) ra lx
      by (simp add: substitute_loop.simps [of _ _ _ _ m] strstr_from_eq add.assoc)
  qed
qed

lemma Buffer_substitute_holds:
  assumes "Buffer_holds b s" "c_str pini = Some ini" "ini \<noteq> []" "c_str pfin = Some f"
  shows "\<exists>b'. Buffer_substitute b (Some pini) (Some pfin) = Some (errNoError, b') \<and>
           Buffer_holds b' (replace_all ini f s)"
proof -
  note h = Buffer_holdsD [OF assms(1)]
  let ?n = "count_sub ini s"
  let ?d = "(int (length f) - int (length ini)) * int ?n"
  have cnt: "substitute_count (pBuffer b) ini 0 0 = Some ?n"
    using substitute_count_eq [OF assms(3), of "pBuffer b" "[]" s 0] h(4) by simp
  show ?thesis
  proof (cases "?n = 0")
    case True
    then have "replace_all ini f s = s"
      using assms(3) by (auto simp: replace_all.simps [of ini f s] count_sub.simps [of ini s]
          split: option.splits)
    then show ?thesis using True assms h cnt by (simp add: Buffer_substitute_def)
  next
    case False
    have same: "?d = 0 \<longleftrightarrow> length f = length ini" using False by simp
    have "\<exists>b1. (if ?d > 0 then allocMemoryBlockForBufferIfNecessary b (nat ?d)
                 else Some (errNoError, b)) = Some (errNoError, b1) \<and> Buffer_holds b1 s \<and>
             length s + nat ?d < length (pBuffer b1)"
    proof (cases "?d > 0")
      case True
      then show ?thesis
        using alloc_block_ok [OF h(2), of "nat ?d"] h
        by (auto simp: Buffer_holds_def block_ok_def)
    next
      case False
      then show ?thesis using assms(1) h(6) by simp
    qed
    then obtain b1 where b1: "(if ?d > 0 then allocMemoryBlockForBufferIfNecessary b (nat ?d)
        else Some (errNoError, b)) = Some (errNoError, b1)" "Buffer_holds b1 s"
        "length s + nat ?d < length (pBuffer b1)" by blast
    have len: "int (length (replace_all ini f s)) = int (length s) + ?d"
      by (rule replace_all_length)
    then have shorter: "length (replace_all ini f s) < length (pBuffer b1)" using b1(3) by linarith
    obtain m where m: "substitute_loop ini pfin (length f) (?d = 0) (pBuffer b1) 0 = Some m"
        "c_str m = Some (replace_all ini f s)" "length m = length (pBuffer b1)"
      using substitute_loop_eq [OF assms(3,4), of "pBuffer b1" "[]" s "?d = 0"]
        Buffer_holdsD [OF b1(2)] shorter same by auto
    have "nat (int (ullCharsNumber b1) + ?d) = length (replace_all ini f s)"
      using len Buffer_holdsD(3) [OF b1(2)] by simp
    then show ?thesis
      using False assms h cnt b1(1) m(1) Buffer_holds_edit [OF b1(2) m(2,3)]
      by (simp add: Buffer_substitute_def Let_def)
  qed
qed

text \<open>With an empty \<open>pInitial\<close> the counting loop finds the same place for ever.\<close>

lemma find_sub_Nil [simp]: "find_sub [] s = Some 0"
  by (cases s) auto

lemma substitute_count_Some: "substitute_count m ini pos k = Some y \<Longrightarrow> ini \<noteq> []"
proof (rule substitute_count.raw_induct [where P = "\<lambda>m ini pos k y. ini \<noteq> []"])
  fix f :: "mem \<Rightarrow> char list \<Rightarrow> nat \<Rightarrow> nat \<Rightarrow> nat option" and m ini pos k y
  assume IH: "\<And>m ini pos k y. f m ini pos k = Some y \<Longrightarrow> ini \<noteq> []"
    and body: "Option.bind (strstr_from m pos ini) (\<lambda>r. case r of None \<Rightarrow> Some k
                 | Some p \<Rightarrow> f m ini (p + length ini) (Suc k)) = Some y"
  show "ini \<noteq> []"
  proof
    assume "ini = []"
    with body have "f m ini pos (Suc k) = Some y" by (auto simp: strstr_from_def bind_eq_Some)
    with IH \<open>ini = []\<close> show False by blast
  qed
qed

lemma Buffer_substitute_empty:
  assumes "Buffer_holds b s" "c_str pini = Some []" "c_str pfin = Some f"
  shows "Buffer_substitute b (Some pini) (Some pfin) = None"
proof -
  have "substitute_count (pBuffer b) [] 0 0 = None"
    by (meson substitute_count_Some not_None_eq)
  then show ?thesis using assms Buffer_holdsD [OF assms(1)] by (simp add: Buffer_substitute_def)
qed

section \<open>Removing characters\<close>

lemma shift_left_eq:
  "length pre = i \<Longrightarrow>
     shift_left (pre @ c # map Some z @ r) i (i + length z) =
       Some (pre @ map Some z @ last (c # map Some z) # r)"
proof (induction z arbitrary: pre c i)
  case Nil
  then show ?case by (simp add: shift_left.simps)
next
  case (Cons d z)
  from Cons.IH [of "pre @ [Some d]" "Suc i" "Some d"] Cons.prems show ?case
    by (subst shift_left.simps)
       (auto simp: mem_read_def mem_write_def nth_append list_update_append)
qed

text \<open>Removing the character at \<open>length pre\<close> closes the gap, the terminator included.\<close>

lemma shift_left_text:
  assumes "c_str m = Some (pre @ c # z)"
  shows "\<exists>m'. shift_left m (length pre) (length (pre @ c # z)) = Some m' \<and>
           c_str m' = Some (pre @ z) \<and> length m' = length m"
proof -
  from c_str_obtain [OF assms] obtain r where r: "m = lit (pre @ c # z) @ r"
      "NUL \<notin> set (pre @ c # z)" by metis
  have "shift_left m (length pre) (length (pre @ c # z)) = Some (lit (pre @ z) @ Some NUL # r)"
    using shift_left_eq [of "map Some pre" "length pre" "Some c" "z @ [NUL]" r] r
    by (simp add: lit_def)
  moreover have "c_str (lit (pre @ z) @ Some NUL # r) = Some (pre @ z)"
    using r by (intro c_str_lit_append) auto
  ultimately show ?thesis using r by auto
qed

lemma list_split_at: "i < length s \<Longrightarrow> s = take i s @ s ! i # drop (Suc i) s"
  by (simp add: id_take_nth_drop)

lemma Buffer_removeChar_holds:
  assumes "Buffer_holds b s" "length s < 2 ^ 64" "i < length s"
  shows "\<exists>b'. Buffer_removeChar b i = Some (errNoError, b') \<and>
           Buffer_holds b' (take i s @ drop (Suc i) s)"
proof -
  note h = Buffer_holdsD [OF assms(1)]
  have s: "take i s @ s ! i # drop (Suc i) s = s" "length (take i s) = i"
    using assms(3) by (auto simp flip: list_split_at)
  obtain m where m: "shift_left (pBuffer b) i (length s) = Some m"
      "c_str m = Some (take i s @ drop (Suc i) s)" "length m = length (pBuffer b)"
    using shift_left_text [of "pBuffer b" "take i s" "s ! i" "drop (Suc i) s"] h(4) s by auto
  have "length s - Suc 0 = length (take i s @ drop (Suc i) s)" using assms(3) by simp
  then show ?thesis
    using assms h m(1) length_observers(3) [OF assms(1,2)] Buffer_holds_edit [OF assms(1) m(2,3)]
    by (simp add: Buffer_removeChar_def)
qed

text \<open>What \<open>removeCTRLCharacters\<close> leaves: the character after a removed one is not looked at.\<close>

fun ctrl_spec :: "char list \<Rightarrow> char list" where
  "ctrl_spec [] = []"
| "ctrl_spec (c # s) =
     (if iscntrl c then (case s of [] \<Rightarrow> [] | d # s' \<Rightarrow> d # ctrl_spec s')
      else (if c = NBSP then CHR '' '' else c) # ctrl_spec s)"

definition clean_char :: "char \<Rightarrow> char" where
  "clean_char c = (if c = NBSP then CHR '' '' else c)"

text \<open>With no two adjacent control characters (nor one before a no-break space) that is what the
  name says.\<close>

fun ctrl_isolated :: "char list \<Rightarrow> bool" where
  "ctrl_isolated [] = True"
| "ctrl_isolated (c # s) =
     ((iscntrl c \<longrightarrow> s = [] \<or> (\<not> iscntrl (hd s) \<and> hd s \<noteq> NBSP)) \<and> ctrl_isolated s)"

lemma ctrl_spec_isolated:
  "ctrl_isolated s \<Longrightarrow> ctrl_spec s = map clean_char (filter (\<lambda>c. \<not> iscntrl c) s)"
  by (induction s rule: ctrl_spec.induct) (auto simp: clean_char_def split: list.splits)

lemma mem_write_text:
  assumes "c_str m = Some (pre @ c # z)" "d \<noteq> NUL"
  shows "\<exists>m'. mem_write m (length pre) d = Some m' \<and> c_str m' = Some (pre @ d # z) \<and>
           length m' = length m"
proof -
  from c_str_obtain [OF assms(1)] obtain r where r: "m = lit (pre @ c # z) @ r"
      "NUL \<notin> set (pre @ c # z)" by metis
  have "mem_write m (length pre) d = Some (lit (pre @ d # z) @ r)"
    using r by (simp add: mem_write_def lit_def list_update_append)
  moreover have "c_str (lit (pre @ d # z) @ r) = Some (pre @ d # z)"
    using r assms(2) by (intro c_str_lit_append) auto
  ultimately show ?thesis using r by auto
qed

lemma mem_read_text:
  assumes "c_str m = Some (pre @ c # z)"
  shows "mem_read m (length pre) = Some c"
proof -
  from c_str_obtain [OF assms] obtain r where "m = lit (pre @ c # z) @ r" by metis
  then show ?thesis by (simp add: mem_read_def lit_def nth_append)
qed

lemma removeCTRL_loop_end:
  "chars \<le> i \<Longrightarrow> removeCTRL_loop m i chars = Some (m, chars)"
  by (subst removeCTRL_loop.simps) simp

lemma removeCTRL_loop_eq:
  assumes "c_str m = Some (pre @ s)"
  shows "\<exists>m'. removeCTRL_loop m (length pre) (length (pre @ s)) =
             Some (m', length (pre @ ctrl_spec s)) \<and>
           c_str m' = Some (pre @ ctrl_spec s) \<and> length m' = length m"
  using assms
proof (induction s arbitrary: pre m rule: ctrl_spec.induct)
  case 1
  then show ?case by (simp add: removeCTRL_loop_end)
next
  case (2 c s)
  note rd = mem_read_text [OF 2(3)]
  consider (ctrl) "iscntrl c" | (nbsp) "\<not> iscntrl c" "c = NBSP" | (other) "\<not> iscntrl c" "c \<noteq> NBSP"
    by blast
  then show ?case
  proof cases
    case ctrl
    from shift_left_text [OF 2(3)] obtain m1 where
      m1: "shift_left m (length pre) (length (pre @ c # s)) = Some m1"
        "c_str m1 = Some (pre @ s)" "length m1 = length m" by blast
    have step: "removeCTRL_loop m (length pre) (length (pre @ c # s)) =
        removeCTRL_loop m1 (Suc (length pre)) (length (pre @ s))"
      using ctrl rd m1(1) by (subst removeCTRL_loop.simps) simp
    show ?thesis
    proof (cases s)
      case Nil
      then show ?thesis using step m1 ctrl by (simp add: removeCTRL_loop_end)
    next
      case (Cons d s')
      have "c_str m1 = Some ((pre @ [d]) @ s')" using m1(2) Cons by simp
      from 2(1) [OF ctrl Cons this] show ?thesis using step m1(3) ctrl Cons by simp
    qed
  next
    case nbsp
    from mem_write_text [OF 2(3), of "CHR '' ''"] obtain m1 where
      m1: "mem_write m (length pre) (CHR '' '') = Some m1"
        "c_str m1 = Some ((pre @ [CHR '' '']) @ s)" "length m1 = length m" by auto
    from 2(2) [OF nbsp(1) m1(2)] show ?thesis
      using nbsp rd m1 by (subst removeCTRL_loop.simps) simp
  next
    case other
    have "c_str m = Some ((pre @ [c]) @ s)" using 2(3) by simp
    from 2(2) [OF other(1) this] show ?thesis
      using other rd by (subst removeCTRL_loop.simps) simp
  qed
qed

lemma Buffer_removeCTRL_holds:
  assumes "Buffer_holds b s"
  shows "\<exists>b'. Buffer_removeCTRLCharacters b = Some (errNoError, b') \<and> Buffer_holds b' (ctrl_spec s)"
proof -
  note h = Buffer_holdsD [OF assms]
  obtain m where m: "removeCTRL_loop (pBuffer b) 0 (length s) = Some (m, length (ctrl_spec s))"
      "c_str m = Some (ctrl_spec s)" "length m = length (pBuffer b)"
    using removeCTRL_loop_eq [of "pBuffer b" "[]" s] h(4) by auto
  then show ?thesis
    using h Buffer_holds_edit [OF assms m(2,3)] by (simp add: Buffer_removeCTRLCharacters_def)
qed

section \<open>Truncating\<close>

lemma find_first_less: "find_first c s = Some i \<Longrightarrow> i < length s"
  by (induction s arbitrary: i) (auto split: if_splits)

lemma find_last_less: "find_last c s = Some i \<Longrightarrow> i < length s"
  by (induction s arbitrary: i) (auto split: if_splits option.splits)

lemma find_first_takeWhile:
  "find_first c s = (if c \<in> set s then Some (length (takeWhile (\<lambda>d. d \<noteq> c) s)) else None)"
  by (induction s) auto

text \<open>The text up to the first or the last occurrence; searching the terminator is an error.\<close>

lemma Buffer_truncateStartingFrom_holds:
  assumes "Buffer_holds b s" "length s < 2 ^ 64" "c \<noteq> NUL"
  shows "c \<in> set s \<Longrightarrow> \<exists>b'. Buffer_truncateStartingFrom b STRIPTYPE_LEADING c = Some (errNoError, b') \<and>
           Buffer_holds b' (takeWhile (\<lambda>d. d \<noteq> c) s)"
    and "find_last c s = Some i \<Longrightarrow> \<exists>b'. Buffer_truncateStartingFrom b STRIPTYPE_TRAILING c =
           Some (errNoError, b') \<and> Buffer_holds b' (take i s)"
    and "c \<notin> set s \<Longrightarrow> Buffer_truncateStartingFrom b STRIPTYPE_LEADING c =
           Some (TOOLS_BUFFER_CHARNOTFOUND, b)"
proof -
  note h = Buffer_holdsD [OF assms(1)]
  show "\<exists>b'. Buffer_truncateStartingFrom b STRIPTYPE_LEADING c = Some (errNoError, b') \<and>
           Buffer_holds b' (takeWhile (\<lambda>d. d \<noteq> c) s)" if "c \<in> set s"
  proof -
    let ?i = "length (takeWhile (\<lambda>d. d \<noteq> c) s)"
    have f: "find_first c s = Some ?i" using that by (simp add: find_first_takeWhile)
    then show ?thesis
      using Buffer_setChar_holds [OF assms(1,2) find_first_less [OF f], of NUL] h assms(3)
      by (simp add: Buffer_truncateStartingFrom_def strchr_def takeWhile_eq_take [symmetric])
  qed
  show "\<exists>b'. Buffer_truncateStartingFrom b STRIPTYPE_TRAILING c = Some (errNoError, b') \<and>
      Buffer_holds b' (take i s)" if "find_last c s = Some i"
    using Buffer_setChar_holds [OF assms(1,2) find_last_less [OF that], of NUL] h assms(3) that
    by (simp add: Buffer_truncateStartingFrom_def strrchr_def)
  show "Buffer_truncateStartingFrom b STRIPTYPE_LEADING c = Some (TOOLS_BUFFER_CHARNOTFOUND, b)"
    if "c \<notin> set s"
    using that h assms(3)
    by (simp add: Buffer_truncateStartingFrom_def strchr_def find_first_takeWhile)
qed

lemma Buffer_truncateIfBigger_holds:
  assumes "Buffer_holds b s" "length s < 2 ^ 64"
  shows "\<exists>b'. Buffer_truncateIfBigger b n = Some (errNoError, b') \<and> Buffer_holds b' (take n s)"
  using assms Buffer_setChar_holds [OF assms, of n NUL] Buffer_holdsD [OF assms(1)]
  by (cases "n < length s") (auto simp: Buffer_truncateIfBigger_def)

section \<open>strip\<close>

text \<open>Leading and trailing copies of \<open>t\<close>, as long as one is there.\<close>

function strip_front :: "char list \<Rightarrow> char list \<Rightarrow> char list" where
  "strip_front t s =
     (if t \<noteq> [] \<and> s \<noteq> [] \<and> take (length t) s = t then strip_front t (drop (length t) s) else s)"
  by pat_completeness auto
termination
  by (relation "measure (\<lambda>(t, s). length s)") auto

function strip_back :: "char list \<Rightarrow> char list \<Rightarrow> char list" where
  "strip_back t s =
     (if t \<noteq> [] \<and> length t \<le> length s \<and> drop (length s - length t) s = t
      then strip_back t (take (length s - length t) s) else s)"
  by pat_completeness auto
termination
  by (relation "measure (\<lambda>(t, s). length s)") (auto intro!: diff_less elim: less_le_trans [rotated])

declare strip_front.simps [simp del] strip_back.simps [simp del]

lemma strip_back_stop: "drop (length s - length t) s \<noteq> t \<Longrightarrow> strip_back t s = s"
  by (simp add: strip_back.simps [of t s])

lemma strip_back_step:
  "t \<noteq> [] \<Longrightarrow> length t \<le> length s \<Longrightarrow> drop (length s - length t) s = t \<Longrightarrow>
     strip_back t s = strip_back t (take (length s - length t) s)"
  by (subst strip_back.simps) simp

lemma strip_front_stop: "take (length t) s \<noteq> t \<or> s = [] \<Longrightarrow> strip_front t s = s"
  by (subst strip_front.simps) auto

lemma strip_front_no_NUL: "NUL \<notin> set s \<Longrightarrow> NUL \<notin> set (strip_front t s)"
  by (induction t s rule: strip_front.induct)
     (subst strip_front.simps, auto dest: in_set_dropD)

lemma strip_front_replicate:
  assumes "t \<noteq> []" "take (length t) s \<noteq> t"
  shows "strip_front t (concat (replicate n t) @ s) = s"
proof (induction n)
  case 0
  then show ?case using assms by (simp add: strip_front.simps [of t s])
next
  case (Suc n)
  then show ?case using assms(1) by (subst strip_front.simps) simp
qed

lemma strncmp_at:
  assumes "c_str m = Some s" "c_str tm = Some t" "i \<le> length s"
  shows "\<exists>d. strncmp (drop i m) tm (length t) = Some d \<and> (d = 0 \<longleftrightarrow> take (length t) (drop i s) = t)"
proof -
  from c_str_obtain [OF c_str_drop [OF assms(1,3)]] obtain r
    where r: "drop i m = lit (drop i s) @ r" "NUL \<notin> set (drop i s)" by metis
  from c_str_obtain [OF assms(2)] obtain r' where r': "tm = lit t @ r'" "NUL \<notin> set t" by metis
  show ?thesis using strncmp_prefix_iff [OF r(2) r'(2), of "length t" r r'] r(1) r'(1) by simp
qed

lemma strip_leading_index_eq:
  assumes "t \<noteq> []" "c_str m = Some s" "c_str tm = Some t" "i \<le> length s"
  shows "\<exists>j. strip_leading_index m tm (length t) (length s) i = Some j \<and> i \<le> j \<and> j \<le> length s \<and>
           drop j s = strip_front t (drop i s)"
  using assms(4)
proof (induction "length s - i" arbitrary: i rule: less_induct)
  case less
  obtain d where d: "strncmp (drop i m) tm (length t) = Some d"
      "d = 0 \<longleftrightarrow> take (length t) (drop i s) = t"
    using strncmp_at [OF assms(2,3) less.prems] by blast
  let ?more = "i < length s \<and> length t \<le> length s - i \<and> take (length t) (drop i s) = t"
  show ?case
  proof (cases ?more)
    case True
    from assms(1) have "0 < length t" by simp
    with True have "length s - (i + length t) < length s - i" "i + length t \<le> length s" by linarith+
    from less.hyps [OF this] obtain j where
      "strip_leading_index m tm (length t) (length s) (i + length t) = Some j"
      "i + length t \<le> j" "j \<le> length s" "drop j s = strip_front t (drop (i + length t) s)" by blast
    moreover have "strip_front t (drop i s) = strip_front t (drop (i + length t) s)"
      using True assms(1) strip_front.simps [of t "drop i s"] by (simp add: add.commute)
    ultimately show ?thesis
      using True d by (simp add: strip_leading_index.simps [of m tm "length t" "length s" i])
  next
    case False
    have "length t \<le> length s - i" if "take (length t) (drop i s) = t"
      using arg_cong [OF that, of length] by simp
    with False have "take (length t) (drop i s) \<noteq> t \<or> drop i s = []" by auto
    then have "strip_front t (drop i s) = drop i s" by (rule strip_front_stop)
    then show ?thesis
      using False d less.prems
      by (auto simp: strip_leading_index.simps [of m tm "length t" "length s" i])
  qed
qed

lemma move_front_eq:
  assumes "f \<le> i" "i + length z \<le> length m" "take (length z) (drop i m) = map Some z"
  shows "move_front m f i (i + length z) =
           Some (take (i - f) m @ map Some z @ drop (i - f + length z) m)"
  using assms
proof (induction z arbitrary: m i)
  case Nil
  then show ?case by (simp add: move_front.simps)
next
  case (Cons c z)
  have i: "m ! i = Some c" "take (length z) (drop (Suc i) m) = map Some z"
    using Cons.prems(2,3) by (auto simp: Cons_nth_drop_Suc [symmetric])
  let ?m = "m[i - f := Some c]"
  have "take (length z) (drop (Suc i) ?m) = map Some z" using i Cons.prems(1) by simp
  from Cons.IH [OF _ _ this] Cons.prems
  have "move_front ?m f (Suc i) (i + length (c # z)) =
      Some (take (Suc i - f) ?m @ map Some z @ drop (Suc i - f + length z) ?m)"
    by simp
  also have "take (Suc i - f) ?m = take (i - f) m @ [Some c]"
    using Cons.prems by (simp add: Suc_diff_le take_Suc_conv_app_nth)
  also have "drop (Suc i - f + length z) ?m = drop (i - f + length (c # z)) m"
    using Cons.prems by (simp add: Suc_diff_le)
  finally show ?case
    using i Cons.prems by (subst move_front.simps) (simp add: mem_read_def mem_write_def)
qed

text \<open>Dropping \<open>j\<close> characters in front: the loop and the terminator after it.\<close>

lemma move_front_text:
  assumes "c_str m = Some s" "j \<le> length s"
  shows "\<exists>m1 m2. move_front m j j (length s) = Some m1 \<and> mem_write m1 (length s - j) NUL = Some m2 \<and>
           c_str m2 = Some (drop j s) \<and> length m2 = length m"
proof -
  from c_str_obtain [OF assms(1)] obtain r where r: "m = lit s @ r" "NUL \<notin> set s" by metis
  let ?n = "length s - j"
  let ?m1 = "map Some (drop j s) @ drop ?n m"
  have "move_front m j j (length s) = Some ?m1"
    using move_front_eq [of j j "drop j s" m] assms r by (simp add: lit_def drop_map)
  moreover have "drop ?n m = m ! ?n # drop (Suc ?n) m"
    using r by (intro Cons_nth_drop_Suc [symmetric]) simp
  then have "mem_write ?m1 ?n NUL = Some (lit (drop j s) @ drop (Suc ?n) m)"
    using r by (simp add: mem_write_def list_update_append lit_def)
  moreover have "length (lit (drop j s) @ drop (Suc ?n) m) = length m" using r by simp
  ultimately show ?thesis using r by (auto simp: not_in_take_drop)
qed

lemma strip_leading_step_holds:
  assumes "Buffer_holds b s" "c_str tm = Some t" "t \<noteq> []"
  shows "\<exists>b'. strip_leading_step b tm (length t) = Some b' \<and> Buffer_holds b' (strip_front t s)"
proof -
  note h = Buffer_holdsD [OF assms(1)]
  from strip_leading_index_eq [OF assms(3) h(4) assms(2), of 0] obtain j where
    j: "strip_leading_index (pBuffer b) tm (length t) (length s) 0 = Some j" "j \<le> length s"
       "drop j s = strip_front t s" by auto
  show ?thesis
  proof (cases "j = 0")
    case True
    then show ?thesis using j h assms(1) by (simp add: strip_leading_step_def)
  next
    case False
    then obtain m1 m2 where m: "move_front (pBuffer b) j j (length s) = Some m1"
        "mem_write m1 (length s - j) NUL = Some m2" "c_str m2 = Some (drop j s)"
        "length m2 = length (pBuffer b)"
      using move_front_text [OF h(4) j(2)] by blast
    have "length s - j = length (strip_front t s)" using j(3) by (metis length_drop)
    then show ?thesis
      using False j(1,3) h m(1,2) Buffer_holds_edit [OF assms(1) m(3,4)]
      by (simp add: strip_leading_step_def)
  qed
qed

lemma strip_trailing_index_eq:
  assumes "t \<noteq> []" "c_str m = Some s" "c_str tm = Some t" "k \<le> length s"
  shows "\<exists>j. strip_trailing_index m tm (length t) (int k - int (length t)) =
               Some (int j - int (length t)) \<and> j \<le> k \<and> take j s = strip_back t (take k s)"
  using assms(4)
proof (induction k rule: less_induct)
  case (less k)
  show ?case
  proof (cases "length t \<le> k")
    case False
    then have "strip_back t (take k s) = take k s" using less.prems by (subst strip_back.simps) simp
    then show ?thesis using False by (auto simp: strip_trailing_index.simps)
  next
    case True
    let ?i = "k - length t"
    obtain d where d: "strncmp (drop ?i m) tm (length t) = Some d"
        "d = 0 \<longleftrightarrow> take (length t) (drop ?i s) = t"
      using strncmp_at [OF assms(2,3), of ?i] less.prems by (meson diff_le_self le_trans)
    have dr: "drop ?i (take k s) = take (length t) (drop ?i s)"
      using True by (simp add: drop_take)
    have lk: "length (take k s) = k" using less.prems by simp
    have start: "int k - int (length t) = int ?i" using True by simp
    have step: "strip_trailing_index m tm (length t) (int ?i) =
        (if d \<noteq> 0 then Some (int ?i)
         else strip_trailing_index m tm (length t) (int ?i - int (length t)))"
      using d(1) by (subst strip_trailing_index.simps) simp
    show ?thesis
    proof (cases "d = 0")
      case False
      have "drop (length (take k s) - length t) (take k s) \<noteq> t"
        unfolding lk dr using d(2) False by blast
      then have "strip_back t (take k s) = take k s" by (rule strip_back_stop)
      then show ?thesis
        unfolding start step using False True by (intro exI [of _ k]) simp
    next
      case eq: True
      then have "?i < k" using True assms(1) by (cases t) auto
      moreover have "?i \<le> length s" using less.prems by simp
      ultimately obtain j where
        j: "strip_trailing_index m tm (length t) (int ?i - int (length t)) = Some (int j - int (length t))"
          "j \<le> ?i" "take j s = strip_back t (take ?i s)"
        using less.IH by blast
      have "strip_back t (take k s) = strip_back t (take ?i s)"
        using strip_back_step [of t "take k s", unfolded lk dr] eq d(2) True assms(1) less.prems
        by (simp add: min_def)
      then show ?thesis
        unfolding start step using eq j by (intro exI [of _ j]) simp
    qed
  qed
qed

lemma strip_trailing_step_holds:
  assumes "Buffer_holds b s" "c_str tm = Some t" "t \<noteq> []"
  shows "\<exists>b'. strip_trailing_step b tm (length t) = Some b' \<and> Buffer_holds b' (strip_back t s)"
proof -
  note h = Buffer_holdsD [OF assms(1)]
  from strip_trailing_index_eq [OF assms(3) h(4) assms(2), of "length s"] obtain j where
    j: "strip_trailing_index (pBuffer b) tm (length t) (int (length s) - int (length t)) =
          Some (int j - int (length t))" "j \<le> length s" "take j s = strip_back t s" by auto
  obtain m where m: "mem_write (pBuffer b) j NUL = Some m" "c_str m = Some (take j s)"
      "length m = length (pBuffer b)"
    using mem_write_NUL [OF h(4) j(2)] by blast
  have "j = length (take j s)" using j(2) by simp
  from Buffer_holds_edit [OF assms(1) m(2,3) this] show ?thesis
    using j h m(1) assms(1) by (cases "j = length s") (simp_all add: strip_trailing_step_def Let_def)
qed

definition strip_spec :: "strip_type \<Rightarrow> char list \<Rightarrow> char list \<Rightarrow> char list" where
  "strip_spec st t s =
     (case st of
        STRIPTYPE_LEADING \<Rightarrow> strip_front t s
      | STRIPTYPE_TRAILING \<Rightarrow> strip_back t s
      | STRIPTYPE_BOTH \<Rightarrow> strip_back t (strip_front t s))"

lemma Buffer_strip_holds:
  assumes "Buffer_holds b s" "c_str tm = Some t" "t \<noteq> []"
  shows "\<exists>b'. Buffer_strip b st tm = Some (errNoError, b') \<and> Buffer_holds b' (strip_spec st t s)"
proof -
  note h = Buffer_holdsD [OF assms(1)]
  obtain b1 where b1: "strip_leading_step b tm (length t) = Some b1" "Buffer_holds b1 (strip_front t s)"
    using strip_leading_step_holds [OF assms] by blast
  obtain b2 where b2: "strip_trailing_step b tm (length t) = Some b2" "Buffer_holds b2 (strip_back t s)"
    using strip_trailing_step_holds [OF assms] by blast
  obtain b3 where "strip_trailing_step b1 tm (length t) = Some b3"
      "Buffer_holds b3 (strip_back t (strip_front t s))"
    using strip_trailing_step_holds [OF b1(2) assms(2,3)] by blast
  then show ?thesis
    using b1 b2 h assms(2) by (cases st) (simp_all add: Buffer_strip_def strip_spec_def)
qed

text \<open>An empty string to strip: the trailing loop does not move.\<close>

lemma strip_trailing_index_Some:
  "strip_trailing_index m tm k i = Some y \<Longrightarrow> k = 0 \<Longrightarrow> i < 0"
proof -
  assume "strip_trailing_index m tm k i = Some y"
  then have "k = 0 \<longrightarrow> i < 0"
  proof (rule strip_trailing_index.raw_induct [where P = "\<lambda>m tm k i y. k = 0 \<longrightarrow> i < 0", rotated])
    fix f :: "mem \<Rightarrow> mem \<Rightarrow> nat \<Rightarrow> int \<Rightarrow> int option" and m tm k i y
    assume IH: "\<And>m tm k i y. f m tm k i = Some y \<Longrightarrow> k = 0 \<longrightarrow> i < 0"
      and body: "(if i \<ge> 0 then Option.bind (strncmp (drop (nat i) m) tm k)
           (\<lambda>d. if d \<noteq> 0 then Some i else f m tm k (i - int k)) else Some i) = Some y"
    show "k = 0 \<longrightarrow> i < 0"
    proof (intro impI, rule ccontr)
      assume k: "k = 0" and "\<not> i < 0"
      with body have "f m tm k i = Some y" by simp
      with IH k \<open>\<not> i < 0\<close> show False by blast
    qed
  qed
  then show "k = 0 \<Longrightarrow> i < 0" by simp
qed

lemma Buffer_strip_empty:
  assumes "Buffer_holds b s" "c_str tm = Some []"
  shows "Buffer_strip b STRIPTYPE_TRAILING tm = None"
proof -
  have "strip_trailing_index (pBuffer b) tm 0 (int (length s)) = None"
    using strip_trailing_index_Some [of "pBuffer b" tm 0 "int (length s)"]
    by (metis not_None_eq of_nat_less_0_iff)
  then show ?thesis
    using assms(2) Buffer_holdsD [OF assms(1)] by (simp add: Buffer_strip_def strip_trailing_step_def)
qed

text \<open>Stripping a number of characters.\<close>

lemma strip_count_leading_holds:
  assumes "Buffer_holds b s" "n \<le> length s"
  shows "\<exists>b'. strip_count_leading b n = Some b' \<and> Buffer_holds b' (drop n s)"
proof -
  note h = Buffer_holdsD [OF assms(1)]
  obtain m1 m2 where m: "move_front (pBuffer b) n n (length s) = Some m1"
      "mem_write m1 (length s - n) NUL = Some m2" "c_str m2 = Some (drop n s)"
      "length m2 = length (pBuffer b)"
    using move_front_text [OF h(4) assms(2)] by blast
  then show ?thesis
    using h Buffer_holds_edit [OF assms(1) m(3,4)] by (simp add: strip_count_leading_def)
qed

lemma strip_count_trailing_holds:
  assumes "Buffer_holds b s" "n \<le> length s"
  shows "\<exists>b'. strip_count_trailing b n = Some b' \<and> Buffer_holds b' (take (length s - n) s)"
proof -
  note h = Buffer_holdsD [OF assms(1)]
  obtain m where m: "mem_write (pBuffer b) (length s - n) NUL = Some m"
      "c_str m = Some (take (length s - n) s)" "length m = length (pBuffer b)"
    using mem_write_NUL [OF h(4), of "length s - n"] by auto
  then show ?thesis
    using h assms(2) Buffer_holds_edit [OF assms(1) m(2,3)] by (simp add: strip_count_trailing_def)
qed

lemma Buffer_strip_count_holds:
  assumes "Buffer_holds b s"
  shows "n \<le> length s \<Longrightarrow> \<exists>b'. Buffer_strip_count b STRIPTYPE_LEADING n = Some (errNoError, b') \<and>
           Buffer_holds b' (drop n s)"
    and "n \<le> length s \<Longrightarrow> \<exists>b'. Buffer_strip_count b STRIPTYPE_TRAILING n = Some (errNoError, b') \<and>
           Buffer_holds b' (take (length s - n) s)"
    and "n * 2 \<le> length s \<Longrightarrow> \<exists>b'. Buffer_strip_count b STRIPTYPE_BOTH n = Some (errNoError, b') \<and>
           Buffer_holds b' (take (length s - n - n) (drop n s))"
proof -
  note h = Buffer_holdsD [OF assms(1)]
  show "\<exists>b'. Buffer_strip_count b STRIPTYPE_LEADING n = Some (errNoError, b') \<and>
      Buffer_holds b' (drop n s)" if "n \<le> length s"
    using strip_count_leading_holds [OF assms(1) that] h that
    by (auto simp: Buffer_strip_count_def)
  show "\<exists>b'. Buffer_strip_count b STRIPTYPE_TRAILING n = Some (errNoError, b') \<and>
      Buffer_holds b' (take (length s - n) s)" if "n \<le> length s"
    using strip_count_trailing_holds [OF assms(1) that] h that
    by (auto simp: Buffer_strip_count_def)
  show "\<exists>b'. Buffer_strip_count b STRIPTYPE_BOTH n = Some (errNoError, b') \<and>
      Buffer_holds b' (take (length s - n - n) (drop n s))" if "n * 2 \<le> length s"
  proof -
    have "n \<le> length s" using that by simp
    then obtain b1 where b1: "strip_count_leading b n = Some b1" "Buffer_holds b1 (drop n s)"
      using strip_count_leading_holds [OF assms(1)] by blast
    have "n \<le> length (drop n s)" using that by simp
    from strip_count_trailing_holds [OF b1(2) this] obtain b2 where
      "strip_count_trailing b1 n = Some b2" "Buffer_holds b2 (take (length s - n - n) (drop n s))"
      unfolding length_drop by blast
    then show ?thesis using b1 h that by (simp add: Buffer_strip_count_def)
  qed
qed

end
