(* ===== verification/BufferQuery.thy ===== *)
theory BufferQuery
  imports BufferEditSpec
begin

text \<open>
  The rest of \<open>Buffer\<close>: the comparisons (\<open>startWith\<close>, \<open>isEqualWith\<close>, the relational
  operators), \<^verbatim>\<open>operator +\<close>, the numeric \<^verbatim>\<open>operator +=\<close> and \<^verbatim>\<open>operator =\<close>, the copy constructor
  and the destructor, and the two transfers between a buffer and a file.
\<close>

section \<open>Comparisons\<close>

definition Buffer_startWith :: "buffer \<Rightarrow> mem option \<Rightarrow> (tools_error \<times> bool option) option" where
  "Buffer_startWith b pBuf =
     (case pBuf of
        None \<Rightarrow> Some (TOOLS_ACTIVATION_WRONG, None)
      | Some src \<Rightarrow>
          if bsBufferStatus b \<noteq> TOOLS_BUFFER_INITIALIZED then Some (TOOLS_OPERATION_NOTALLOWED, None)
          else case getBufferLength b of
            (errNoError, Some ulBufferLength) \<Rightarrow> do {
              n \<leftarrow> strlen src;
              if ulBufferLength < n then Some (errNoError, Some False)
              else do { d \<leftarrow> strncmp (pBuffer b) src n; Some (errNoError, Some (d = 0)) }
            }
          | _ \<Rightarrow> Some (TOOLS_BUFFER_GETBUFFERLENGTH_FAILED, None))"

definition Buffer_isEqualWith_cstr :: "buffer \<Rightarrow> mem option \<Rightarrow> (tools_error \<times> bool option) option" where
  "Buffer_isEqualWith_cstr b pBuf =
     (case pBuf of
        None \<Rightarrow> Some (TOOLS_ACTIVATION_WRONG, None)
      | Some src \<Rightarrow>
          if bsBufferStatus b \<noteq> TOOLS_BUFFER_INITIALIZED then Some (TOOLS_OPERATION_NOTALLOWED, None)
          else do { d \<leftarrow> strcmp (Buffer_str b) src; Some (errNoError, Some (d = 0)) })"

definition Buffer_isEqualWith :: "buffer \<Rightarrow> buffer \<Rightarrow> (tools_error \<times> bool option) option" where
  "Buffer_isEqualWith b bBuffer =
     (if bsBufferStatus b \<noteq> TOOLS_BUFFER_INITIALIZED \<or> bsBufferStatus bBuffer \<noteq> TOOLS_BUFFER_INITIALIZED
      then Some (TOOLS_OPERATION_NOTALLOWED, None)
      else do { d \<leftarrow> strcmp (Buffer_str b) (Buffer_str bBuffer); Some (errNoError, Some (d = 0)) })"

text \<open>The operators answer \<open>False\<close> when the call they make fails.\<close>

definition Buffer_equal_op :: "buffer \<Rightarrow> buffer \<Rightarrow> bool option" where
  "Buffer_equal_op b bBuffer = do {
     (e, r) \<leftarrow> Buffer_isEqualWith b bBuffer;
     if e \<noteq> errNoError then Some False else r
   }"

definition Buffer_equal_op_cstr :: "buffer \<Rightarrow> mem option \<Rightarrow> bool option" where
  "Buffer_equal_op_cstr b pBuf = do {
     (e, r) \<leftarrow> Buffer_isEqualWith_cstr b pBuf;
     if e \<noteq> errNoError then Some False else r
   }"

definition Buffer_less_op :: "buffer \<Rightarrow> buffer \<Rightarrow> bool option" where
  "Buffer_less_op b bBuffer =
     (if bsBufferStatus b \<noteq> TOOLS_BUFFER_INITIALIZED \<or> bsBufferStatus bBuffer \<noteq> TOOLS_BUFFER_INITIALIZED
      then Some False
      else do { d \<leftarrow> strcmp (Buffer_str b) (Buffer_str bBuffer); Some (d < 0) })"

definition Buffer_less_eq_op :: "buffer \<Rightarrow> buffer \<Rightarrow> bool option" where
  "Buffer_less_eq_op b bBuffer =
     (if bsBufferStatus b \<noteq> TOOLS_BUFFER_INITIALIZED \<or> bsBufferStatus bBuffer \<noteq> TOOLS_BUFFER_INITIALIZED
      then Some False
      else do { d \<leftarrow> strcmp (Buffer_str b) (Buffer_str bBuffer); Some (d \<le> 0) })"

definition Buffer_greater_op :: "buffer \<Rightarrow> buffer \<Rightarrow> bool option" where
  "Buffer_greater_op b bBuffer =
     (if bsBufferStatus b \<noteq> TOOLS_BUFFER_INITIALIZED \<or> bsBufferStatus bBuffer \<noteq> TOOLS_BUFFER_INITIALIZED
      then Some False
      else do { d \<leftarrow> strcmp (Buffer_str b) (Buffer_str bBuffer); Some (d > 0) })"

definition Buffer_greater_eq_op :: "buffer \<Rightarrow> buffer \<Rightarrow> bool option" where
  "Buffer_greater_eq_op b bBuffer =
     (if bsBufferStatus b \<noteq> TOOLS_BUFFER_INITIALIZED \<or> bsBufferStatus bBuffer \<noteq> TOOLS_BUFFER_INITIALIZED
      then Some False
      else do { d \<leftarrow> strcmp (Buffer_str b) (Buffer_str bBuffer); Some (d \<ge> 0) })"

section \<open>Sums and assignments\<close>

text \<open>\<open>junk\<close> is the storage of the local \<open>bSumBuffer\<close> before its constructor.\<close>

definition Buffer_plus :: "buffer \<Rightarrow> buffer \<Rightarrow> buffer \<Rightarrow> buffer option" where
  "Buffer_plus junk b bBuffer =
     (let bSumBuffer = Buffer_ctor junk in
      if bsBufferStatus b = TOOLS_BUFFER_BUILDED \<and> bsBufferStatus bBuffer = TOOLS_BUFFER_BUILDED
      then map_option snd (Buffer_init_default bSumBuffer (lit []))
      else if bsBufferStatus b = TOOLS_BUFFER_INITIALIZED \<and> bsBufferStatus bBuffer = TOOLS_BUFFER_BUILDED
      then map_option snd (Buffer_init_default bSumBuffer (Buffer_str b))
      else if bsBufferStatus b = TOOLS_BUFFER_BUILDED \<and> bsBufferStatus bBuffer = TOOLS_BUFFER_INITIALIZED
      then map_option snd (Buffer_init_default bSumBuffer (Buffer_str bBuffer))
      else do {
        (e, b1) \<leftarrow> Buffer_init_default bSumBuffer (Buffer_str b);
        if e \<noteq> errNoError then Some b1
        else map_option snd (Buffer_append b1 (Some (Buffer_str bBuffer)) (-1))
      })"

definition Buffer_plus_cstr :: "buffer \<Rightarrow> buffer \<Rightarrow> mem option \<Rightarrow> buffer option" where
  "Buffer_plus_cstr junk b pBuf =
     (let bSumBuffer = Buffer_ctor junk in
      case pBuf of
        None \<Rightarrow> Buffer_assign bSumBuffer b
      | Some src \<Rightarrow>
          if bsBufferStatus b = TOOLS_BUFFER_BUILDED
          then map_option snd (Buffer_init_default bSumBuffer src)
          else do {
            (e, b1) \<leftarrow> Buffer_init_default bSumBuffer (Buffer_str b);
            if e \<noteq> errNoError then Some b1
            else map_option snd (Buffer_append b1 (Some src) (-1))
          })"

definition Buffer_plus_eq_long :: "buffer \<Rightarrow> 64 word \<Rightarrow> buffer option" where
  "Buffer_plus_eq_long b lValue = map_option snd (Buffer_append_long b lValue)"

definition Buffer_plus_eq_ulonglong :: "buffer \<Rightarrow> 64 word \<Rightarrow> buffer option" where
  "Buffer_plus_eq_ulonglong b ullValue = map_option snd (Buffer_append_ulong b ullValue)"

definition Buffer_plus_eq_double :: "('d \<Rightarrow> char list) \<Rightarrow> buffer \<Rightarrow> 'd \<Rightarrow> buffer option" where
  "Buffer_plus_eq_double lf b dValue = map_option snd (Buffer_append_double lf b dValue None)"

definition Buffer_assign_double :: "('d \<Rightarrow> char list) \<Rightarrow> buffer \<Rightarrow> 'd \<Rightarrow> buffer option" where
  "Buffer_assign_double lf b dValue =
     (let b1 = Buffer_assign_prepare b
      in map_option snd (Buffer_init_double lf b1 dValue (int (lBufferBlockNumberOnOverflow b1))))"

text \<open>The copy constructor sets the status only: \<open>bMemoryAllocated\<close> is what the storage held.\<close>

definition Buffer_copy_ctor :: "buffer \<Rightarrow> buffer \<Rightarrow> buffer option" where
  "Buffer_copy_ctor junk bBuffer =
     Buffer_assign (junk\<lparr>bsBufferStatus := TOOLS_BUFFER_BUILDED\<rparr>) bBuffer"

text \<open>The destructor; the object it leaves shows that nothing stays allocated.\<close>

definition Buffer_dtor :: "buffer \<Rightarrow> buffer" where
  "Buffer_dtor b =
     (let b1 = (if bsBufferStatus b = TOOLS_BUFFER_INITIALIZED then snd (Buffer_finish b True) else b)
      in if bMemoryAllocated b1
         then b1\<lparr>pBuffer := [], lBufferBlockNumber := 0, bMemoryAllocated := False\<rparr> else b1)"

section \<open>Files\<close>

text \<open>
  Files are a map from path names to contents; \<open>can_open\<close> tells which paths the system lets the
  process open. \<open>FileIO:: readChars\<close> and \<open>writeChars\<close> transfer what is there in one call. The
  size computed from the offsets is an \<^verbatim>\<open>unsigned long long\<close> and wraps around.
\<close>

type_synonym files = "char list \<Rightarrow> char list option"

definition Buffer_readBufferFromFile ::
  "files \<Rightarrow> buffer \<Rightarrow> char list option \<Rightarrow> int \<Rightarrow> int \<Rightarrow> buffer_run" where
  "Buffer_readBufferFromFile fs b pPathName lFileStartOffset lFileEndOffset =
     (case pPathName of
        None \<Rightarrow> Some (TOOLS_ACTIVATION_WRONG, b)
      | Some path \<Rightarrow>
          if lFileStartOffset < -1 \<or> lFileEndOffset < -1 \<or> lFileEndOffset < lFileStartOffset
          then Some (TOOLS_ACTIVATION_WRONG, b)
          else do {
            (e0, b0) \<leftarrow> (if bsBufferStatus b \<noteq> TOOLS_BUFFER_INITIALIZED
                        then Buffer_init_default b (lit []) else Some (errNoError, b));
            if e0 \<noteq> errNoError then Some (TOOLS_BUFFER_INIT_FAILED, b0)
            else case fs path of
              None \<Rightarrow> Some (TOOLS_FILEIO_OPEN_FAILED, b0)
            | Some content \<Rightarrow> do {
                let llFileLength = int (length content);
                let lStartOffset = (if lFileStartOffset = -1 then 0 else lFileStartOffset);
                let ullEndOffset = (if lFileEndOffset = -1 then llFileLength
                                    else if lFileEndOffset > llFileLength then llFileLength
                                    else lFileEndOffset);
                let n = nat ((ullEndOffset - lStartOffset) mod 2 ^ 64);
                m0 \<leftarrow> (if lBufferBlockNumber b0 \<noteq> 0 then strcpy (pBuffer b0) 0 (lit [])
                       else Some (pBuffer b0));
                (e, b1) \<leftarrow> allocMemoryBlockForBufferIfNecessary (b0\<lparr>pBuffer := m0\<rparr>) n;
                if e \<noteq> errNoError
                then Some (TOOLS_BUFFER_ALLOCMEMORYBLOCKFORBUFFERIFNECESSARY_FAILED, b1)
                else do {
                  let bytes = take n (drop (nat lStartOffset) content);
                  m1 \<leftarrow> splice (pBuffer b1) 0 (map Some bytes);
                  let llByteRead = length bytes;
                  let chars = (if llByteRead < n then llByteRead else n);
                  m2 \<leftarrow> mem_write m1 chars NUL;
                  Some (errNoError, b1\<lparr>pBuffer := m2, ullCharsNumber := chars\<rparr>)
                }
              }
          })"

definition read_block :: "mem \<Rightarrow> nat \<Rightarrow> char list option" where
  "read_block m n = those (take n m)"

definition Buffer_writeBufferOnFile ::
  "(char list \<Rightarrow> bool) \<Rightarrow> files \<Rightarrow> buffer \<Rightarrow> char list option \<Rightarrow> bool \<Rightarrow> (tools_error \<times> files) option" where
  "Buffer_writeBufferOnFile can_open fs b pPathName bAppend =
     (case pPathName of
        None \<Rightarrow> Some (TOOLS_ACTIVATION_WRONG, fs)
      | Some path \<Rightarrow>
          if bsBufferStatus b \<noteq> TOOLS_BUFFER_INITIALIZED then Some (TOOLS_OPERATION_NOTALLOWED, fs)
          else if \<not> can_open path then Some (TOOLS_FILEIO_OPEN_FAILED, fs)
          else do {
            let old = (if bAppend then (case fs path of Some c \<Rightarrow> c | None \<Rightarrow> []) else []);
            bytes \<leftarrow> read_block (Buffer_str b) (Buffer_as_ulong b);
            Some (errNoError, fs(path \<mapsto> old @ bytes))
          })"

section \<open>Facts about the comparisons\<close>

text \<open>\<open>strcmp\<close> orders texts lexicographically by the codes of their characters.\<close>

definition codes :: "char list \<Rightarrow> nat list" where
  "codes s = map of_char s"

definition text_less :: "char list \<Rightarrow> char list \<Rightarrow> bool" where
  "text_less s t = ord_class.lexordp (codes s) (codes t)"

lemma codes_eq_iff [simp]: "codes s = codes t \<longleftrightarrow> s = t"
proof
  assume "codes s = codes t"
  then have "map char_of (codes s) = map char_of (codes t)" by simp
  then show "s = t" by (simp add: codes_def comp_def)
qed simp

lemma of_char_int: "(of_char c :: int) = int (of_char c)"
  using of_nat_of_char [of c, where 'a = int] by simp

lemma of_char_pos: "c \<noteq> NUL \<Longrightarrow> 0 < (of_char c :: nat)"
  using of_char_eq_iff [of c NUL, where 'a = nat] by auto

lemma strcmp_sign:
  assumes "NUL \<notin> set s" "NUL \<notin> set t"
  shows "\<exists>d. strcmp (lit s @ r) (lit t @ r') = Some d \<and>
           (d < 0 \<longleftrightarrow> text_less s t) \<and> (d > 0 \<longleftrightarrow> text_less t s)"
  using assms
proof (induction s arbitrary: t)
  case Nil
  show ?case
  proof (cases t)
    case (Cons d t')
    then have "0 < (of_char d :: nat)" "d \<noteq> NUL" using Nil by (auto intro!: of_char_pos)
    then show ?thesis using Cons by (simp add: lit_def text_less_def codes_def of_char_int del: of_nat_of_char)
  qed (simp add: lit_def text_less_def codes_def)
next
  case (Cons c s)
  show ?case
  proof (cases t)
    case Nil
    have "0 < (of_char c :: nat)" "c \<noteq> NUL" using Cons.prems by (auto intro!: of_char_pos)
    then show ?thesis using Nil by (simp add: lit_def text_less_def codes_def of_char_int del: of_nat_of_char)
  next
    case t: (Cons d t')
    show ?thesis
    proof (cases "c = d")
      case True
      then show ?thesis
        using Cons.IH [of t'] Cons.prems t by (auto simp: lit_def text_less_def codes_def)
    next
      case False
      then have "(of_char c :: nat) < of_char d \<or> (of_char d :: nat) < of_char c"
        by (metis linorder_neqE_nat of_char_eqI)
      then show ?thesis
        using False t by (auto simp: lit_def text_less_def codes_def of_char_int)
    qed
  qed
qed

lemma strcmp_blocks:
  assumes "c_str m = Some s" "c_str m' = Some t"
  shows "\<exists>d. strcmp m m' = Some d \<and> (d = 0 \<longleftrightarrow> s = t) \<and>
           (d < 0 \<longleftrightarrow> text_less s t) \<and> (d > 0 \<longleftrightarrow> text_less t s)"
proof -
  from c_str_obtain [OF assms(1)] obtain r where r: "m = lit s @ r" "NUL \<notin> set s" by metis
  from c_str_obtain [OF assms(2)] obtain r' where r': "m' = lit t @ r'" "NUL \<notin> set t" by metis
  show ?thesis
    using strcmp_zero_iff [OF r(2) r'(2), of r r'] strcmp_sign [OF r(2) r'(2), of r r'] r r' by auto
qed

lemma Buffer_str_holds:
  "Buffer_holds b s \<Longrightarrow> Buffer_str b = pBuffer b" "Buffer_holds b s \<Longrightarrow> c_str (Buffer_str b) = Some s"
  by (simp_all add: Buffer_str_def Buffer_holdsD)

lemma Buffer_comparisons:
  assumes "Buffer_holds b s" "Buffer_holds b' t"
  shows "Buffer_equal_op b b' = Some (s = t)"
    "Buffer_less_op b b' = Some (text_less s t)"
    "Buffer_less_eq_op b b' = Some (\<not> text_less t s)"
    "Buffer_greater_op b b' = Some (text_less t s)"
    "Buffer_greater_eq_op b b' = Some (\<not> text_less s t)"
proof -
  note h = Buffer_holdsD(1) [OF assms(1)] Buffer_holdsD(1) [OF assms(2)]
  obtain d where d: "strcmp (Buffer_str b) (Buffer_str b') = Some d" "d = 0 \<longleftrightarrow> s = t"
      "d < 0 \<longleftrightarrow> text_less s t" "d > 0 \<longleftrightarrow> text_less t s"
    using strcmp_blocks [OF Buffer_str_holds(2) [OF assms(1)] Buffer_str_holds(2) [OF assms(2)]]
    by blast
  show "Buffer_equal_op b b' = Some (s = t)"
    using d(1,2) h by (simp add: Buffer_equal_op_def Buffer_isEqualWith_def)
  show "Buffer_less_op b b' = Some (text_less s t)"
    using d(1,3) h by (simp add: Buffer_less_op_def)
  show "Buffer_less_eq_op b b' = Some (\<not> text_less t s)"
    using d(1) h by (simp add: Buffer_less_eq_op_def flip: d(4)) linarith
  show "Buffer_greater_op b b' = Some (text_less t s)"
    using d(1,4) h by (simp add: Buffer_greater_op_def)
  show "Buffer_greater_eq_op b b' = Some (\<not> text_less s t)"
    using d(1) h by (simp add: Buffer_greater_eq_op_def flip: d(3)) linarith
qed

lemma Buffer_startWith_eq:
  assumes "Buffer_holds b s" "c_str src = Some t"
  shows "Buffer_startWith b (Some src) = Some (errNoError, Some (take (length t) s = t))"
proof (cases "length s < length t")
  case True
  then have "take (length t) s \<noteq> t" by auto
  then show ?thesis
    using True assms Buffer_holdsD [OF assms(1)] length_observers(1) [OF assms(1)]
    by (simp add: Buffer_startWith_def)
next
  case False
  obtain d where "strncmp (pBuffer b) src (length t) = Some d" "d = 0 \<longleftrightarrow> take (length t) s = t"
    using strncmp_at [OF Buffer_holdsD(4) [OF assms(1)] assms(2), of 0] by auto
  then show ?thesis
    using False assms Buffer_holdsD [OF assms(1)] length_observers(1) [OF assms(1)]
    by (simp add: Buffer_startWith_def)
qed

lemma Buffer_isEmpty_eq:
  assumes "Buffer_wf b"
  shows "Buffer_isEmpty b = Some (Buffer_text b = [])"
proof (cases "bsBufferStatus b = TOOLS_BUFFER_INITIALIZED")
  case True
  with assms obtain s where s: "Buffer_holds b s" by (auto simp: Buffer_wf_def Buffer_idle_def)
  obtain d where "strcmp (pBuffer b) (lit []) = Some d" "d = 0 \<longleftrightarrow> s = []"
    using strcmp_blocks [OF Buffer_holdsD(4) [OF s], of "lit []" "[]"] by auto
  then show ?thesis using True s by (simp add: Buffer_isEmpty_def)
next
  case False
  then show ?thesis by (simp add: Buffer_isEmpty_def Buffer_text_def Buffer_str_def)
qed

section \<open>Facts about sums, copies and the destructor\<close>

lemma Buffer_plus_holds:
  assumes "Buffer_wf b" "Buffer_wf b'"
  shows "\<exists>c. Buffer_plus junk b b' = Some c \<and> Buffer_holds c (Buffer_text b @ Buffer_text b')"
proof -
  have c: "c_str (Buffer_str x) = Some (Buffer_text x)" if "Buffer_wf x" for x
    using that Buffer_str_holds(2) [of x] Buffer_holds_text [of x]
    by (auto simp: Buffer_wf_def Buffer_idle_def Buffer_str_def Buffer_text_def)
  have e: "Buffer_text x = []" if "bsBufferStatus x = TOOLS_BUFFER_BUILDED" for x
    using that by (simp add: Buffer_text_def Buffer_str_def)
  obtain c1 where c1: "Buffer_init_default (Buffer_ctor junk) (Buffer_str b) = Some (errNoError, c1)"
      "Buffer_holds c1 (Buffer_text b)"
    using Buffer_init_default_holds [OF Buffer_ctor_idle c [OF assms(1)]] by blast
  obtain c2 where c2: "Buffer_init_default (Buffer_ctor junk) (Buffer_str b') = Some (errNoError, c2)"
      "Buffer_holds c2 (Buffer_text b')"
    using Buffer_init_default_holds [OF Buffer_ctor_idle c [OF assms(2)]] by blast
  obtain c3 where c3: "Buffer_append c1 (Some (Buffer_str b')) (-1) = Some (errNoError, c3)"
      "Buffer_holds c3 (Buffer_text b @ Buffer_text b')"
    using Buffer_append_holds [OF Buffer_holds_wf [OF c1(2)] c [OF assms(2)], of "-1"] c1(2) by auto
  obtain c0 where c0: "Buffer_init_default (Buffer_ctor junk) (lit []) = Some (errNoError, c0)"
      "Buffer_holds c0 []"
    using Buffer_init_default_holds [OF Buffer_ctor_idle, of "lit []" "[]"] by auto
  show ?thesis
    using c0 c1 c2 c3 e
    by (cases "bsBufferStatus b"; cases "bsBufferStatus b'") (auto simp: Buffer_plus_def)
qed

text \<open>Assigning from another object copies its text.\<close>

lemma Buffer_assign_holds:
  assumes "Buffer_wf b" "Buffer_holds c s"
  shows "\<exists>b'. Buffer_assign b c = Some b' \<and> Buffer_holds b' s"
proof -
  note h = Buffer_holdsD [OF assms(2)]
  have idle: "Buffer_idle (snd (Buffer_finish b True))" using Buffer_finish_idle [OF assms(1), of True] by simp
  have ovf: "0 < int (lBufferBlockNumberOnOverflow c)" using h(2) by (simp add: block_ok_def)
  from Buffer_init_holds [OF idle h(4) cut_full(2) ovf] obtain b' where
    "Buffer_init (snd (Buffer_finish b True)) (Some (pBuffer c)) (int (length s))
      (int (lBufferBlockNumberOnOverflow c)) = Some (errNoError, b')" "Buffer_holds b' s"
    unfolding cut_full(1) by blast
  then show ?thesis using h(1,3) by (simp add: Buffer_assign_def Buffer_assign_from_def)
qed

lemma Buffer_dtor_released:
  "\<not> bMemoryAllocated (Buffer_dtor b)" "Buffer_idle (Buffer_dtor b)"
proof -
  show "\<not> bMemoryAllocated (Buffer_dtor b)" by (simp add: Buffer_dtor_def Let_def)
  moreover have "bsBufferStatus (Buffer_dtor b) = TOOLS_BUFFER_BUILDED"
    by (cases "bsBufferStatus b") (simp_all add: Buffer_dtor_def Buffer_finish_def Let_def)
  ultimately show "Buffer_idle (Buffer_dtor b)" by (simp add: Buffer_idle_def)
qed

section \<open>Facts about files\<close>

lemma read_block_text:
  assumes "c_str m = Some s"
  shows "read_block m (length s) = Some s"
proof -
  from c_str_obtain [OF assms] obtain r where "m = lit s @ r" by metis
  then have "take (length s) m = map Some s" by (simp add: lit_def)
  moreover have "those (map Some s) = Some s" by (induction s) auto
  ultimately show ?thesis by (simp add: read_block_def)
qed

lemma Buffer_writeBufferOnFile_holds:
  assumes "Buffer_holds b s" "length s < 2 ^ 64" "can_open path"
  shows "Buffer_writeBufferOnFile can_open fs b (Some path) ap =
     Some (errNoError, fs(path \<mapsto> (if ap then (case fs path of Some c \<Rightarrow> c | None \<Rightarrow> []) else []) @ s))"
  using assms read_block_text [OF Buffer_str_holds(2) [OF assms(1)]] length_observers(3) [OF assms(1,2)]
  by (simp add: Buffer_writeBufferOnFile_def Buffer_holdsD Buffer_length_def)

lemma Buffer_readBufferFromFile_holds:
  assumes "Buffer_wf b" "fs path = Some content" "NUL \<notin> set content" "length content < 2 ^ 64"
    "0 \<le> i" "i \<le> j" "nat i \<le> length content"
  shows "\<exists>b'. Buffer_readBufferFromFile fs b (Some path) i j = Some (errNoError, b') \<and>
           Buffer_holds b' (take (nat (j - i)) (drop (nat i) content))"
proof -
  have ne: "bsBufferStatus b \<noteq> TOOLS_BUFFER_INITIALIZED \<longleftrightarrow> bsBufferStatus b = TOOLS_BUFFER_BUILDED"
    by (cases "bsBufferStatus b") auto
  obtain b0 where b0: "(if bsBufferStatus b \<noteq> TOOLS_BUFFER_INITIALIZED
      then Buffer_init_default b (lit []) else Some (errNoError, b)) = Some (errNoError, b0)"
      "Buffer_holds b0 (Buffer_text b)"
    using ensure_initialised [OF assms(1)] unfolding ne by blast
  note h = Buffer_holdsD [OF b0(2)]
  define e where "e = (if j > int (length content) then int (length content) else j)"
  have e: "0 \<le> e - i" "e - i < 2 ^ 64" using assms by (auto simp: e_def)
  define n where "n = nat (e - i)"
  have n: "nat ((e - i) mod 2 ^ 64) = n" "n \<le> length content - nat i"
    "take n (drop (nat i) content) = take (nat (j - i)) (drop (nat i) content)"
    using e assms by (auto simp: n_def e_def nat_diff_distrib)
  let ?t = "take n (drop (nat i) content)"
  have lt: "length ?t = n" using n(2) by simp
  let ?m0 = "lit [] @ drop 1 (pBuffer b0)"
  have m0: "strcpy (pBuffer b0) 0 (lit []) = Some ?m0"
    using h(6) strcpy_0 [of "lit []" "[]" "pBuffer b0"] by fastforce
  have "block_ok (b0\<lparr>pBuffer := ?m0\<rparr>) []" using h(2,6) by (auto simp: block_ok_def)
  from alloc_block_ok [OF this, of n] obtain m k where
    m: "allocMemoryBlockForBufferIfNecessary (b0\<lparr>pBuffer := ?m0\<rparr>) n =
        Some (errNoError, b0\<lparr>pBuffer := m, lBufferBlockNumber := k, bMemoryAllocated := True\<rparr>)"
      "0 < k" "n < length m" "k * lBufferBlockNumberOnOverflow b0 \<le> length m"
    by auto
  let ?m1 = "map Some ?t @ drop n m" and ?m2 = "lit ?t @ drop (Suc n) m"
  have m1: "splice m 0 (map Some ?t) = Some ?m1" using m(3) lt by (simp add: splice_Some)
  have "drop n m = m ! n # drop (Suc n) m" using m(3) by (simp add: Cons_nth_drop_Suc)
  then have m2: "mem_write ?m1 n NUL = Some ?m2"
    using lt m(3) by (simp add: mem_write_def list_update_append lit_def)
  have "\<not> j < i" "\<not> i < -1" "\<not> j < -1" "i \<noteq> -1" "j \<noteq> -1" using assms(5,6) by auto
  then have "Buffer_readBufferFromFile fs b (Some path) i j = Some (errNoError,
      b0\<lparr>pBuffer := ?m2, lBufferBlockNumber := k, bMemoryAllocated := True, ullCharsNumber := n\<rparr>)"
    using assms(2) b0(1) m0 m(1) m1 m2 n(1) lt h(7)
    by (simp add: Buffer_readBufferFromFile_def Let_def e_def [symmetric])
  moreover have "NUL \<notin> set ?t" using assms(3) by (auto dest: in_set_takeD in_set_dropD)
  then have "c_str ?m2 = Some ?t" by simp
  ultimately show ?thesis
    using m(2,3,4) h(1,2) lt n(3) by (auto simp: Buffer_holds_def block_ok_def)
qed

end
