(* ===== verification/Simulation.thy ===== *)
theory Simulation
  imports Prelude
begin

text \<open>
  The contract every stateful component of the library is held to: its operations run on the
  detailed state, may have no defined result (\<open>None\<close>), and otherwise give an outcome and a new
  state; a specification gives the same outcome on an abstract state. One simulated operation is
  the law of the locale, whole runs follow.
\<close>

fun run_ops :: "('op \<Rightarrow> 'c \<Rightarrow> ('e \<times> 'c) option) \<Rightarrow> 'op list \<Rightarrow> 'c \<Rightarrow> ('e list \<times> 'c) option" where
  "run_ops exec [] c = Some ([], c)"
| "run_ops exec (p # ps) c = do {
     (e, c1) \<leftarrow> exec p c;
     (es, c2) \<leftarrow> run_ops exec ps c1;
     Some (e # es, c2)
   }"

fun run_spec :: "('op \<Rightarrow> 'a \<Rightarrow> 'e \<times> 'a) \<Rightarrow> 'op list \<Rightarrow> 'a \<Rightarrow> 'e list \<times> 'a" where
  "run_spec spec [] a = ([], a)"
| "run_spec spec (p # ps) a =
     (let (e, a1) = spec p a; (es, a2) = run_spec spec ps a1 in (e # es, a2))"

text \<open>Every operation of the run is used as its caller must use it.\<close>

fun ops_ok :: "('op \<Rightarrow> 'a \<Rightarrow> bool) \<Rightarrow> ('op \<Rightarrow> 'a \<Rightarrow> 'e \<times> 'a) \<Rightarrow> 'op list \<Rightarrow> 'a \<Rightarrow> bool" where
  "ops_ok ok spec [] a = True"
| "ops_ok ok spec (p # ps) a = (ok p a \<and> ops_ok ok spec ps (snd (spec p a)))"

locale simulation =
  fixes exec :: "'op \<Rightarrow> 'c \<Rightarrow> ('e \<times> 'c) option"
    and spec :: "'op \<Rightarrow> 'a \<Rightarrow> 'e \<times> 'a"
    and rel :: "'c \<Rightarrow> 'a \<Rightarrow> bool"
    and ok :: "'op \<Rightarrow> 'a \<Rightarrow> bool"
  assumes step: "rel c a \<Longrightarrow> ok p a \<Longrightarrow>
    \<exists>c'. exec p c = Some (fst (spec p a), c') \<and> rel c' (snd (spec p a))"
begin

lemma run:
  "rel c a \<Longrightarrow> ops_ok ok spec ps a \<Longrightarrow>
     \<exists>c'. run_ops exec ps c = Some (fst (run_spec spec ps a), c') \<and> rel c' (snd (run_spec spec ps a))"
proof (induction ps arbitrary: c a)
  case Nil
  then show ?case by simp
next
  case (Cons p ps)
  then obtain c1 where c1: "exec p c = Some (fst (spec p a), c1)" "rel c1 (snd (spec p a))"
    using step [of c a p] by auto
  obtain c2 where "run_ops exec ps c1 = Some (fst (run_spec spec ps (snd (spec p a))), c2)"
      "rel c2 (snd (run_spec spec ps (snd (spec p a))))"
    using Cons.IH [OF c1(2)] Cons.prems(2) by auto
  then show ?case using c1 by (simp add: case_prod_unfold Let_def)
qed

text \<open>What the caller sees does not depend on the detailed state.\<close>

lemma outcomes_agree:
  assumes "rel c a" "rel d a" "ops_ok ok spec ps a"
  shows "map_option fst (run_ops exec ps c) = map_option fst (run_ops exec ps d)"
  using run [OF assms(1,3)] run [OF assms(2,3)] by auto

end

end
