(* ===== verification/BufferRefine.thy ===== *)
theory BufferRefine
  imports BufferQuery Simulation
begin

text \<open>
  \<open>Buffer\<close> as its users see it: an object is \<open>None\<close> (constructed or finished) or \<open>Some s\<close>
  (initialised with the text \<open>s\<close>), and an operation is an error code and the next such value.
  Every operation of the class implements that specification, and so does every sequence of
  calls on one object.
\<close>

datatype buffer_op =
    OpInit "char list" int
  | OpFinish bool
  | OpAppend "char list"
  | OpSetBuffer "char list"
  | OpSetChar nat char
  | OpInsertAt int "char list"
  | OpSubstitute "char list" "char list"
  | OpRemoveCTRL
  | OpRemoveChar nat
  | OpTruncateIfBigger nat
  | OpTruncateStartingFrom strip_type char
  | OpStrip strip_type "char list"
  | OpStripCount strip_type nat

fun Buffer_exec :: "buffer_op \<Rightarrow> buffer \<Rightarrow> buffer_run" where
  "Buffer_exec (OpInit t ovf) b = Buffer_init b (Some (lit t)) (-1) ovf"
| "Buffer_exec (OpFinish r) b = Some (Buffer_finish b r)"
| "Buffer_exec (OpAppend t) b = Buffer_append b (Some (lit t)) (-1)"
| "Buffer_exec (OpSetBuffer t) b = Buffer_setBuffer b (Some (lit t)) (-1)"
| "Buffer_exec (OpSetChar i c) b = Buffer_setChar b i c"
| "Buffer_exec (OpInsertAt i t) b = Buffer_insertAt b i (Some (lit t))"
| "Buffer_exec (OpSubstitute ini f) b = Buffer_substitute b (Some (lit ini)) (Some (lit f))"
| "Buffer_exec OpRemoveCTRL b = Buffer_removeCTRLCharacters b"
| "Buffer_exec (OpRemoveChar i) b = Buffer_removeChar b i"
| "Buffer_exec (OpTruncateIfBigger n) b = Buffer_truncateIfBigger b n"
| "Buffer_exec (OpTruncateStartingFrom st c) b = Buffer_truncateStartingFrom b st c"
| "Buffer_exec (OpStrip st t) b = Buffer_strip b st (lit t)"
| "Buffer_exec (OpStripCount st n) b = Buffer_strip_count b st n"

text \<open>The specification on texts.\<close>

fun strip_count_spec :: "strip_type \<Rightarrow> nat \<Rightarrow> char list \<Rightarrow> char list" where
  "strip_count_spec STRIPTYPE_LEADING n s = drop n s"
| "strip_count_spec STRIPTYPE_TRAILING n s = take (length s - n) s"
| "strip_count_spec STRIPTYPE_BOTH n s = take (length s - n - n) (drop n s)"

fun text_edit :: "buffer_op \<Rightarrow> char list \<Rightarrow> tools_error \<times> char list" where
  "text_edit (OpInit t ovf) s =
     (if ovf \<le> 0 then TOOLS_ACTIVATION_WRONG else TOOLS_OPERATION_NOTALLOWED, s)"
| "text_edit (OpFinish r) s = (errNoError, s)"
| "text_edit (OpAppend t) s = (errNoError, s @ t)"
| "text_edit (OpSetBuffer t) s = (errNoError, t)"
| "text_edit (OpSetChar i c) s =
     (if i < length s then (errNoError, if c = NUL then take i s else s[i := c])
      else (TOOLS_ACTIVATION_WRONG, s))"
| "text_edit (OpInsertAt i t) s =
     (if 0 \<le> i \<and> i \<le> int (length s) then (errNoError, take (nat i) s @ t @ drop (nat i) s)
      else (TOOLS_ACTIVATION_WRONG, s))"
| "text_edit (OpSubstitute ini f) s = (errNoError, replace_all ini f s)"
| "text_edit OpRemoveCTRL s = (errNoError, ctrl_spec s)"
| "text_edit (OpRemoveChar i) s =
     (if i < length s then (errNoError, take i s @ drop (Suc i) s) else (TOOLS_ACTIVATION_WRONG, s))"
| "text_edit (OpTruncateIfBigger n) s = (errNoError, take n s)"
| "text_edit (OpTruncateStartingFrom st c) s =
     (if st = STRIPTYPE_BOTH then (TOOLS_ACTIVATION_WRONG, s)
      else case (if st = STRIPTYPE_LEADING then find_first c s else find_last c s) of
        None \<Rightarrow> (TOOLS_BUFFER_CHARNOTFOUND, s)
      | Some i \<Rightarrow> (errNoError, take i s))"
| "text_edit (OpStrip st t) s = (errNoError, strip_spec st t s)"
| "text_edit (OpStripCount st n) s =
     (if (if st = STRIPTYPE_BOTH then n * 2 else n) \<le> length s
      then (errNoError, strip_count_spec st n s) else (TOOLS_ACTIVATION_WRONG, s))"

fun text_start :: "buffer_op \<Rightarrow> tools_error \<times> char list option" where
  "text_start (OpInit t ovf) =
     (if ovf \<le> 0 then (TOOLS_ACTIVATION_WRONG, None) else (errNoError, Some t))"
| "text_start (OpFinish r) = (errNoError, None)"
| "text_start (OpAppend t) = (errNoError, Some t)"
| "text_start (OpSetBuffer t) = (errNoError, Some t)"
| "text_start (OpInsertAt i t) =
     (if i < 0 then TOOLS_ACTIVATION_WRONG else TOOLS_OPERATION_NOTALLOWED, None)"
| "text_start p = (TOOLS_OPERATION_NOTALLOWED, None)"

definition text_spec :: "buffer_op \<Rightarrow> char list option \<Rightarrow> tools_error \<times> char list option" where
  "text_spec p a =
     (case a of
        None \<Rightarrow> text_start p
      | Some s \<Rightarrow> (case p of OpFinish r \<Rightarrow> (errNoError, None)
                 | _ \<Rightarrow> (fst (text_edit p s), Some (snd (text_edit p s)))))"

text \<open>How the operations must be used: arguments are texts, searched texts are not empty.\<close>

fun op_args_ok :: "buffer_op \<Rightarrow> bool" where
  "op_args_ok (OpInit t ovf) = (NUL \<notin> set t)"
| "op_args_ok (OpAppend t) = (NUL \<notin> set t)"
| "op_args_ok (OpSetBuffer t) = (NUL \<notin> set t)"
| "op_args_ok (OpInsertAt i t) = (NUL \<notin> set t)"
| "op_args_ok (OpSubstitute ini f) = (NUL \<notin> set ini \<and> NUL \<notin> set f \<and> ini \<noteq> [])"
| "op_args_ok (OpTruncateStartingFrom st c) = (c \<noteq> NUL)"
| "op_args_ok (OpStrip st t) = (NUL \<notin> set t \<and> t \<noteq> [])"
| "op_args_ok p = True"

definition text_ok :: "buffer_op \<Rightarrow> char list option \<Rightarrow> bool" where
  "text_ok p a \<longleftrightarrow> op_args_ok p \<and> (\<forall>s\<in>set_option a. length s < 2 ^ 64)"

definition buffer_rel :: "buffer \<Rightarrow> char list option \<Rightarrow> bool" where
  "buffer_rel b a = (case a of None \<Rightarrow> Buffer_idle b | Some s \<Rightarrow> Buffer_holds b s)"

section \<open>Every operation implements its specification\<close>

lemma idle_wf: "Buffer_idle b \<Longrightarrow> Buffer_wf b \<and> Buffer_text b = [] \<and>
    bsBufferStatus b = TOOLS_BUFFER_BUILDED"
  by (simp add: Buffer_wf_def Buffer_idle_def Buffer_text_def Buffer_str_def)

lemma exec_idle:
  assumes "Buffer_idle b" "op_args_ok p"
  shows "\<exists>b'. Buffer_exec p b = Some (fst (text_start p), b') \<and> buffer_rel b' (snd (text_start p))"
proof -
  note i = idle_wf [OF assms(1)]
  show ?thesis
  proof (cases p)
    case (OpInit t ovf)
    then show ?thesis
      using assms i Buffer_init_holds [OF assms(1), of "lit t" t "-1" ovf]
      by (cases "ovf \<le> 0") (auto simp: buffer_rel_def Buffer_init_def)
  next
    case (OpAppend t)
    then show ?thesis
      using assms i Buffer_append_holds [of b "lit t" t "-1"] by (auto simp: buffer_rel_def)
  next
    case (OpSetBuffer t)
    then show ?thesis
      using assms i Buffer_setBuffer_holds [of b "lit t" t "-1"] by (auto simp: buffer_rel_def)
  qed (use assms i in \<open>simp_all add: buffer_rel_def Buffer_finish_def Buffer_setChar_def
        Buffer_insertAt_def Buffer_substitute_def Buffer_removeCTRLCharacters_def
        Buffer_removeChar_def Buffer_truncateIfBigger_def Buffer_truncateStartingFrom_def
        Buffer_strip_def Buffer_strip_count_def\<close>)
qed

lemma truncate_exec:
  assumes "Buffer_holds b s" "length s < 2 ^ 64" "c \<noteq> NUL"
  shows "\<exists>b'. Buffer_truncateStartingFrom b st c =
             Some (fst (text_edit (OpTruncateStartingFrom st c) s), b') \<and>
           Buffer_holds b' (snd (text_edit (OpTruncateStartingFrom st c) s))"
proof -
  note h = Buffer_holdsD [OF assms(1)]
  let ?r = "if st = STRIPTYPE_LEADING then find_first c s else find_last c s"
  have "i < length s" if "?r = Some i" for i
    using that find_first_less [of c s i] find_last_less [of c s i] by (auto split: if_splits)
  then show ?thesis
    using assms h Buffer_setChar_holds [OF assms(1,2), where c = NUL]
    by (cases ?r) (auto simp: Buffer_truncateStartingFrom_def strchr_def strrchr_def)
qed

lemma strip_count_exec:
  assumes "Buffer_holds b s"
  shows "\<exists>b'. Buffer_strip_count b st n = Some (fst (text_edit (OpStripCount st n) s), b') \<and>
           Buffer_holds b' (snd (text_edit (OpStripCount st n) s))"
proof (cases "(if st = STRIPTYPE_BOTH then n * 2 else n) \<le> length s")
  case True
  then show ?thesis using Buffer_strip_count_holds [OF assms, of n] by (cases st) auto
next
  case False
  then show ?thesis
    using assms Buffer_holdsD [OF assms] by (cases st) (auto simp: Buffer_strip_count_def)
qed

lemma exec_holds:
  assumes "Buffer_holds b s" "length s < 2 ^ 64" "op_args_ok p"
    "\<And>r. p \<noteq> OpFinish r"
  shows "\<exists>b'. Buffer_exec p b = Some (fst (text_edit p s), b') \<and>
           Buffer_holds b' (snd (text_edit p s))"
proof -
  note h = Buffer_holdsD [OF assms(1)] and wf = Buffer_holds_wf [OF assms(1)]
  note len = length_observers [OF assms(1)]
  show ?thesis
  proof (cases p)
    case (OpInit t ovf)
    then show ?thesis using assms h by (auto simp: Buffer_init_def)
  next
    case (OpFinish r)
    then show ?thesis using assms by simp
  next
    case (OpAppend t)
    then show ?thesis using assms Buffer_append_holds [OF wf, of "lit t" t "-1"] by auto
  next
    case (OpSetBuffer t)
    then show ?thesis using assms Buffer_setBuffer_holds [OF wf, of "lit t" t "-1"] by auto
  next
    case (OpSetChar i c)
    then show ?thesis
      using assms h len Buffer_setChar_holds [OF assms(1,2), of i c]
      by (cases "i < length s") (auto simp: Buffer_setChar_def)
  next
    case (OpInsertAt i t)
    then show ?thesis
      using assms h len Buffer_insertAt_holds [OF assms(1), of "lit t" t "nat i"]
      by (cases "0 \<le> i \<and> i \<le> int (length s)") (auto simp: Buffer_insertAt_def)
  next
    case (OpSubstitute ini f)
    then show ?thesis
      using assms Buffer_substitute_holds [OF assms(1), of "lit ini" ini "lit f" f] by auto
  next
    case OpRemoveCTRL
    then show ?thesis using Buffer_removeCTRL_holds [OF assms(1)] by auto
  next
    case (OpRemoveChar i)
    then show ?thesis
      using assms h len Buffer_removeChar_holds [OF assms(1,2), of i]
      by (cases "i < length s") (auto simp: Buffer_removeChar_def)
  next
    case (OpTruncateIfBigger n)
    then show ?thesis using Buffer_truncateIfBigger_holds [OF assms(1,2)] by auto
  next
    case (OpTruncateStartingFrom st c)
    then show ?thesis using truncate_exec [OF assms(1,2)] assms(3) by auto
  next
    case (OpStrip st t)
    then show ?thesis using assms Buffer_strip_holds [OF assms(1), of "lit t" t st] by auto
  next
    case (OpStripCount st n)
    then show ?thesis using strip_count_exec [OF assms(1)] by auto
  qed
qed

lemma exec_step:
  assumes "buffer_rel b a" "text_ok p a"
  shows "\<exists>b'. Buffer_exec p b = Some (fst (text_spec p a), b') \<and> buffer_rel b' (snd (text_spec p a))"
proof (cases a)
  case None
  then show ?thesis
    using assms exec_idle [of b p] by (simp add: text_spec_def text_ok_def buffer_rel_def)
next
  case (Some s)
  then have b: "Buffer_holds b s" "length s < 2 ^ 64" "op_args_ok p"
    using assms by (auto simp: text_ok_def buffer_rel_def)
  show ?thesis
  proof (cases "\<exists>r. p = OpFinish r")
    case True
    then obtain r where "p = OpFinish r" by blast
    then show ?thesis
      using Some Buffer_finish_idle [OF Buffer_holds_wf [OF b(1)], of r]
      by (cases "Buffer_finish b r") (simp add: text_spec_def buffer_rel_def)
  next
    case False
    then have "text_spec p a = (fst (text_edit p s), Some (snd (text_edit p s)))"
      using Some by (cases p) (simp_all add: text_spec_def)
    then show ?thesis using exec_holds [OF b] False by (auto simp: buffer_rel_def)
  qed
qed

interpretation buffer: simulation Buffer_exec text_spec buffer_rel text_ok
  by unfold_locales (rule exec_step)

end
