(* ===== verification/BufferProps.thy ===== *)
theory BufferProps
  imports BufferRefine
begin

text \<open>
  The properties of the class \<open>Buffer\<close>, each with a witness at a concrete object, and the
  places where the code does not do what its interface says.
\<close>

section \<open>Correctness\<close>



text \<open>\<open>append\<close> adds the first \<open>l\<close> characters of its argument (all of them for -1) at the end of
  the text, initialising a new object first; no access leaves the block, whatever the sizes.\<close>

theorem Buffer_append_correct:
  assumes "Buffer_wf b" "c_str src = Some t" "len_ok l t"
  shows "\<exists>b'. Buffer_append b (Some src) l = Some (errNoError, b') \<and>
           Buffer_holds b' (Buffer_text b @ cut l t)"
  by (rule Buffer_append_holds [OF assms])

theorem Buffer_append_correct_witness:
  "\<exists>b'. Buffer_append (buffer_of ''ab'') (Some (lit ''cde'')) 2 = Some (errNoError, b') \<and>
        Buffer_holds b' ''abcd''"
  using Buffer_append_correct [of "buffer_of ''ab''" "lit ''cde''" "''cde''" 2]
    Buffer_holds_wf [OF buffer_of_holds [of "''ab''"]] Buffer_holds_text [OF buffer_of_holds [of "''ab''"]]
  by (simp add: len_ok_def cut_def)

text \<open>\<open>substitute\<close> replaces every occurrence of a non-empty string, from left to right and without
  searching what it put in; the text may grow (more memory is allocated) or shrink.\<close>

theorem Buffer_substitute_correct:
  assumes "Buffer_holds b s" "c_str pini = Some ini" "ini \<noteq> []" "c_str pfin = Some f"
  shows "\<exists>b'. Buffer_substitute b (Some pini) (Some pfin) = Some (errNoError, b') \<and>
           Buffer_holds b' (replace_all ini f s)"
  by (rule Buffer_substitute_holds [OF assms])

theorem Buffer_substitute_correct_witness:
  "\<exists>b'. Buffer_substitute (buffer_of ''a.b.'') (Some (lit ''.'')) (Some (lit ''..'')) = Some (errNoError, b') \<and>
        Buffer_holds b' ''a..b..''"
  using Buffer_substitute_correct [OF buffer_of_holds [of "''a.b.''"], of "lit ''.''" "''.''" "lit ''..''" "''..''"]
  by (simp add: replace_all.simps)

text \<open>\<open>insertAt\<close> puts its argument before the character at the index.\<close>

theorem Buffer_insertAt_correct:
  assumes "Buffer_holds b s" "c_str src = Some t" "i \<le> length s"
  shows "\<exists>b'. Buffer_insertAt b (int i) (Some src) = Some (errNoError, b') \<and>
           Buffer_holds b' (take i s @ t @ drop i s)"
  by (rule Buffer_insertAt_holds [OF assms])

theorem Buffer_insertAt_correct_witness:
  "\<exists>b'. Buffer_insertAt (buffer_of ''ad'') (int 1) (Some (lit ''bc'')) = Some (errNoError, b') \<and>
        Buffer_holds b' ''abcd''"
  using Buffer_insertAt_correct [OF buffer_of_holds [of "''ad''"], of "lit ''bc''" "''bc''" 1] by simp

text \<open>\<open>strip\<close> removes the copies of a non-empty string at the front, at the end or at both, as
  long as one is there.\<close>

theorem Buffer_strip_correct:
  assumes "Buffer_holds b s" "c_str tm = Some t" "t \<noteq> []"
  shows "\<exists>b'. Buffer_strip b st tm = Some (errNoError, b') \<and> Buffer_holds b' (strip_spec st t s)"
  by (rule Buffer_strip_holds [OF assms])

theorem Buffer_strip_correct_witness:
  "\<exists>b'. Buffer_strip (buffer_of ''  a b '') STRIPTYPE_BOTH (lit '' '') = Some (errNoError, b') \<and>
        Buffer_holds b' ''a b''"
  using Buffer_strip_correct [OF buffer_of_holds [of "''  a b ''"], of "lit '' ''" "'' ''" STRIPTYPE_BOTH]
  by (simp add: strip_spec_def strip_front.simps strip_back.simps)

text \<open>The relational operators order initialised buffers lexicographically by character codes;
  \<open>==\<close> is equality of the texts.\<close>

theorem Buffer_order:
  assumes "Buffer_holds b s" "Buffer_holds b' t"
  shows "Buffer_equal_op b b' = Some (s = t) \<and> Buffer_less_op b b' = Some (text_less s t) \<and>
    Buffer_greater_op b b' = Some (text_less t s) \<and>
    Buffer_less_eq_op b b' = Some (\<not> text_less t s) \<and> Buffer_greater_eq_op b b' = Some (\<not> text_less s t)"
  using Buffer_comparisons [OF assms] by simp

theorem Buffer_order_witness:
  "Buffer_equal_op (buffer_of ''ab'') (buffer_of ''b'') = Some False \<and>
   Buffer_less_op (buffer_of ''ab'') (buffer_of ''b'') = Some True"
  using Buffer_order [OF buffer_of_holds [of "''ab''"] buffer_of_holds [of "''b''"]]
  by (simp add: text_less_def codes_def)

text \<open>A buffer written to a file and read back has the same text, whatever the object that reads
  it held.\<close>

theorem Buffer_file_roundtrip:
  assumes "Buffer_holds b s" "length s < 2 ^ 63" "can_open path" "Buffer_wf c"
  shows "\<exists>fs' c'. Buffer_writeBufferOnFile can_open fs b (Some path) False = Some (errNoError, fs') \<and>
           Buffer_readBufferFromFile fs' c (Some path) 0 (int (length s)) = Some (errNoError, c') \<and>
           Buffer_holds c' s"
proof -
  have w: "Buffer_writeBufferOnFile can_open fs b (Some path) False = Some (errNoError, fs(path \<mapsto> s))"
    using Buffer_writeBufferOnFile_holds [where can_open = can_open and ap = False, OF assms(1) _ assms(3)]
      assms(2) by simp
  show ?thesis
    using w Buffer_readBufferFromFile_holds [of c "fs(path \<mapsto> s)" path s 0 "int (length s)"]
      assms(2,4) Buffer_holdsD(5) [OF assms(1)] by auto
qed

theorem Buffer_file_roundtrip_witness:
  "\<exists>fs' c'. Buffer_writeBufferOnFile (\<lambda>p. p = ''/tmp/x'') Map.empty (buffer_of ''hello'') (Some ''/tmp/x'') False
        = Some (errNoError, fs') \<and>
      Buffer_readBufferFromFile fs' blank_buffer (Some ''/tmp/x'') 0 (int (length ''hello'')) = Some (errNoError, c') \<and>
      Buffer_holds c' ''hello''"
  using Buffer_file_roundtrip [OF buffer_of_holds [of "''hello''"], of "\<lambda>p. p = ''/tmp/x''" "''/tmp/x''" blank_buffer]
  by simp

text \<open>Assignment from another buffer copies its text and needs nothing of the target but its
  invariant; the target's old memory is reused or replaced safely.\<close>

theorem Buffer_assign_copies:
  assumes "Buffer_wf b" "Buffer_holds c s"
  shows "\<exists>b'. Buffer_assign b c = Some b' \<and> Buffer_holds b' s"
  by (rule Buffer_assign_holds [OF assms])

theorem Buffer_assign_copies_witness:
  "\<exists>b'. Buffer_assign (buffer_of ''x'') (buffer_of ''a longer text'') = Some b' \<and>
        Buffer_holds b' ''a longer text''"
  using Buffer_assign_copies [OF Buffer_holds_wf [OF buffer_of_holds [of "''x''"]] buffer_of_holds [of "''a longer text''"]]
  by simp

text \<open>Appending an integer prints it in decimal; the local array of 129 bytes is never
  overrun.\<close>

theorem Buffer_append_long_decimal:
  assumes "Buffer_wf b"
  shows "\<exists>b'. Buffer_append_long b w = Some (errNoError, b') \<and>
           Buffer_holds b' (Buffer_text b @ decimal_of_int (sint w))"
  using Buffer_append_printed_holds [OF assms decimal_no_NUL, of "sint w"] decimal_sint_length [of w]
  by (simp add: Buffer_append_long_def)

theorem Buffer_append_long_decimal_witness:
  "\<exists>b'. Buffer_append_long blank_buffer (- 42) = Some (errNoError, b') \<and> Buffer_holds b' ''-42''"
  using Buffer_append_long_decimal [of blank_buffer "- 42"]
  by (simp add: decimal_of_int_def decimal_of_nat.simps char_of_def bit_simps)

section \<open>Divergences\<close>

text \<open>\<open>substitute\<close> with an empty string to replace does not return.\<close>

theorem Buffer_substitute_diverges:
  assumes "Buffer_holds b s" "c_str pini = Some []" "c_str pfin = Some f"
  shows "Buffer_substitute b (Some pini) (Some pfin) = None"
  by (rule Buffer_substitute_empty [OF assms])

theorem Buffer_substitute_diverges_witness:
  "Buffer_substitute (buffer_of ''ab'') (Some (lit '''')) (Some (lit ''x'')) = None"
  using Buffer_substitute_diverges [OF buffer_of_holds [of "''ab''"], of "lit ''''" "lit ''x''" "''x''"] by simp

text \<open>\<open>removeCTRLCharacters\<close> removes the control characters and turns no-break spaces into
  spaces when none of these follows a control character, but the character after a removed one is
  kept as it is, a control character too.\<close>

theorem Buffer_removeCTRL_effect:
  assumes "Buffer_holds b s"
  shows "\<exists>b' s'. Buffer_removeCTRLCharacters b = Some (errNoError, b') \<and> Buffer_holds b' s' \<and>
      (ctrl_isolated s \<longrightarrow> s' = map clean_char (filter (\<lambda>c. \<not> iscntrl c) s)) \<and>
      (\<forall>c d r. s = c # d # r \<longrightarrow> iscntrl c \<longrightarrow> (\<exists>r'. s' = d # r'))"
  using Buffer_removeCTRL_holds [OF assms] ctrl_spec_isolated [of s] by fastforce

theorem Buffer_removeCTRL_effect_witness:
  "\<exists>b' s'. Buffer_removeCTRLCharacters (buffer_of [CHR 0x0A, CHR 0x0A, CHR ''a'']) = Some (errNoError, b') \<and>
      Buffer_holds b' s' \<and> (\<exists>r'. s' = CHR 0x0A # r')"
  using Buffer_removeCTRL_effect [OF buffer_of_holds [of "[CHR 0x0A, CHR 0x0A, CHR ''a'']"]]
  by (fastforce simp: iscntrl_def)

text \<open>The copy constructor does not set \<open>bMemoryAllocated\<close>: with what the storage may hold, it
  writes through a pointer that was never set.\<close>

theorem Buffer_copy_ctor_unsafe:
  assumes "Buffer_holds c s"
  shows "\<exists>junk. Buffer_copy_ctor junk c = None"
proof -
  let ?junk = "\<lparr>bsBufferStatus = TOOLS_BUFFER_INITIALIZED, bMemoryAllocated = True, lBufferBlockNumber = 1,
    lBufferBlockNumberOnOverflow = lBufferBlockNumberOnOverflow c, ullCharsNumber = 0, pBuffer = []\<rparr>"
  have "Buffer_copy_ctor ?junk c = None"
    using Buffer_holdsD [OF assms]
    by (simp add: Buffer_copy_ctor_def Buffer_assign_def Buffer_assign_from_def Buffer_finish_def
        Buffer_init_def Buffer_init_memory_def mem_write_def block_ok_def)
  then show ?thesis ..
qed

theorem Buffer_copy_ctor_unsafe_witness:
  "\<exists>junk. Buffer_copy_ctor junk (buffer_of ''ab'') = None"
  using Buffer_copy_ctor_unsafe [OF buffer_of_holds [of "''ab''"]] by simp

end
