(* ===== verification/HashMap.thy ===== *)
theory HashMap
  imports Prelude
begin

text \<open>
  \<open>my_hash_map\<close> of \<open>my_hash_map/my_hash_map.h\<close>: open addressing with double hashing over a
  table whose size is a power of two, lazy deletion, and rebuilding when the table is half full or
  has seen too many deletions.

  The hash functor of the template is the parameter \<open>hash\<close> (an \<^verbatim>\<open>int\<close>); the equality functors of
  the header compare values, so keys are compared with \<open>=\<close>. The resize ratio is the default
  \<^verbatim>\<open>.5\<close>, for which the products and quotients with a table size are exact. \<open>None\<close> stands for
  \<^verbatim>\<open>abort ()\<close> (a failing \<open>Hash_Assert\<close>), a loop that does not return, and a conversion to
  \<^verbatim>\<open>int\<close> out of range.
\<close>

section \<open>State\<close>

text \<open>\<open>tableStatus\<close> and \<open>tableData\<close>, cell by cell.\<close>

datatype ('k, 'v) cell = EMPTY_CELL | VALID_CELL 'k 'v | DELETED_CELL

record ('k, 'v) my_hash_map =
  maxLength :: nat
  currentLength :: nat
  numDeletedCells :: nat
  maxLengthTIMESresizeRatio :: nat
  cells :: "('k, 'v) cell list"

section \<open>Hashing\<close>

definition SecondHashValue :: "('k \<Rightarrow> int) \<Rightarrow> 'k \<Rightarrow> int" where
  "SecondHashValue hash key = 2 * hash key + 1"

text \<open>
  The string hashers fold the characters (\<^verbatim>\<open>char\<close> is signed) in 32 bit arithmetic and stop before
  the first negative value. \<open>generic\<close> is \<open>GENERIC_intHASH\<close>, a computation in floating point.
\<close>

definition int32 :: "int \<Rightarrow> int" where
  "int32 i = (i + 2 ^ 31) mod 2 ^ 32 - 2 ^ 31"

definition signed_char :: "char \<Rightarrow> int" where
  "signed_char c = (if of_char c < (128 :: int) then of_char c else of_char c - 256)"

fun BufferHasher_fold :: "int \<Rightarrow> char list \<Rightarrow> int" where
  "BufferHasher_fold result [] = result"
| "BufferHasher_fold result (c # s) =
     (let tempResult = int32 (result * 5 + signed_char c)
      in if tempResult < 0 then result else BufferHasher_fold tempResult s)"

definition BufferHasher :: "(int \<Rightarrow> int) \<Rightarrow> char list \<Rightarrow> int" where
  "BufferHasher generic key = generic (BufferHasher_fold 0 key)"

definition IntHasher :: "(int \<Rightarrow> int) \<Rightarrow> int \<Rightarrow> int" where
  "IntHasher generic iValue = generic (if iValue < 0 then int32 (iValue * (-1)) else iValue)"

text \<open>The \<^verbatim>\<open>unsigned long\<close> is converted to the \<^verbatim>\<open>int\<close> parameter of \<open>GENERIC_intHASH\<close>.\<close>

definition UnsignedLongHasher :: "(int \<Rightarrow> int) \<Rightarrow> nat \<Rightarrow> int" where
  "UnsignedLongHasher generic ulValue = generic (int32 (int ulValue))"

text \<open>The two steps of the probe sequence, computed in unsigned arithmetic.\<close>

definition first_location :: "('k \<Rightarrow> int) \<Rightarrow> nat \<Rightarrow> 'k \<Rightarrow> nat" where
  "first_location hash len key = nat (hash key mod int len)"

definition next_location :: "('k \<Rightarrow> int) \<Rightarrow> nat \<Rightarrow> 'k \<Rightarrow> nat \<Rightarrow> nat" where
  "next_location hash len key hashLocation =
     nat ((int hashLocation + SecondHashValue hash key) mod int len)"

section \<open>Construction\<close>

text \<open>The doubling wraps around in 32 bits, so that the loop does not return above \<open>2 ^ 31\<close>.\<close>

partial_function (option) RoundUp_loop :: "nat \<Rightarrow> nat \<Rightarrow> nat option" where
  "RoundUp_loop x returnValue =
     (if x > returnValue then RoundUp_loop x ((returnValue * 2) mod 2 ^ 32) else Some returnValue)"

definition RoundUpToPowerOfTwo :: "nat \<Rightarrow> nat option" where
  "RoundUpToPowerOfTwo x = RoundUp_loop x 1"

definition hash_map_ctor :: "nat \<Rightarrow> ('k, 'v) my_hash_map option" where
  "hash_map_ctor tableSize = do {
     len \<leftarrow> RoundUpToPowerOfTwo tableSize;
     Some \<lparr>maxLength = len, currentLength = 0, numDeletedCells = 0,
           maxLengthTIMESresizeRatio = len div 2, cells = replicate len EMPTY_CELL\<rparr>
   }"

section \<open>Searching\<close>

text \<open>The index of the iterator that \<open>Search\<close> returns, \<open>maxLength\<close> for \<open>end ()\<close>.\<close>

function Search_loop ::
  "('k \<Rightarrow> int) \<Rightarrow> ('k, 'v) my_hash_map \<Rightarrow> 'k \<Rightarrow> nat \<Rightarrow> nat \<Rightarrow> nat option" where
  "Search_loop hash t key hashLocation timesInLoop =
     (let l = next_location hash (maxLength t) key hashLocation;
          more = (if Suc timesInLoop < maxLength t then Search_loop hash t key l (Suc timesInLoop)
                  else None)
      in case cells t ! l of
           EMPTY_CELL \<Rightarrow> Some (maxLength t)
         | VALID_CELL k v \<Rightarrow> if k = key then Some l else more
         | DELETED_CELL \<Rightarrow> more)"
  by pat_completeness auto
termination
  by (relation "measure (\<lambda>(h, t, k, l, n). maxLength t - n)") auto

declare Search_loop.simps [simp del]

definition Search :: "('k \<Rightarrow> int) \<Rightarrow> ('k, 'v) my_hash_map \<Rightarrow> 'k \<Rightarrow> nat option" where
  "Search hash t key =
     (let l = first_location hash (maxLength t) key
      in case cells t ! l of
           EMPTY_CELL \<Rightarrow> Some (maxLength t)
         | VALID_CELL k v \<Rightarrow> if k = key then Some l else Search_loop hash t key l 0
         | DELETED_CELL \<Rightarrow> Search_loop hash t key l 0)"

section \<open>Inserting\<close>

definition AssignToCell :: "('k, 'v) my_hash_map \<Rightarrow> nat \<Rightarrow> 'k \<Rightarrow> 'v \<Rightarrow> ('k, 'v) my_hash_map" where
  "AssignToCell t hashLocation key value =
     t\<lparr>cells := (cells t)[hashLocation := VALID_CELL key value],
       currentLength := currentLength t + 1\<rparr>"

text \<open>The counter is unsigned: it wraps around at 0 and its assertion cannot fail.\<close>

definition DecrementNumDeletedCells :: "('k, 'v) my_hash_map \<Rightarrow> ('k, 'v) my_hash_map" where
  "DecrementNumDeletedCells t =
     t\<lparr>numDeletedCells := (numDeletedCells t + (2 ^ 32 - 1)) mod 2 ^ 32\<rparr>"

text \<open>The outcome of an insertion: the index of the iterator, \<open>didInsert\<close> and the table.\<close>

type_synonym ('k, 'v) inserted = "nat \<times> bool \<times> ('k, 'v) my_hash_map"

text \<open>
  The loop of \<open>InsertWithoutDuplication\<close>. Once it went round the whole table it stores at the
  current location (not at the deleted one it remembers).
\<close>

function Insert_loop ::
  "('k \<Rightarrow> int) \<Rightarrow> ('k, 'v) my_hash_map \<Rightarrow> 'k \<Rightarrow> 'v \<Rightarrow> nat option \<Rightarrow> nat \<Rightarrow> nat \<Rightarrow> ('k, 'v) inserted option" where
  "Insert_loop hash t key value firstDeletedLocation hashLocation timesInLoop =
     (let l = next_location hash (maxLength t) key hashLocation;
          more = (\<lambda>fd. if Suc timesInLoop > maxLength t
                       then (if fd = None then None
                             else Some (l, True, AssignToCell (DecrementNumDeletedCells t) l key value))
                       else Insert_loop hash t key value fd l (Suc timesInLoop))
      in case cells t ! l of
           EMPTY_CELL \<Rightarrow>
             (let l' = (case firstDeletedLocation of Some d \<Rightarrow> d | None \<Rightarrow> l)
              in Some (l', True, AssignToCell t l' key value))
         | VALID_CELL k v \<Rightarrow> if k = key then Some (l, False, t) else more firstDeletedLocation
         | DELETED_CELL \<Rightarrow>
             more (if firstDeletedLocation = None then Some l else firstDeletedLocation))"
  by pat_completeness auto
termination
  by (relation "measure (\<lambda>(h, t, k, v, f, l, n). Suc (maxLength t) - n)") auto

declare Insert_loop.simps [simp del]

definition Insert_probe ::
  "('k \<Rightarrow> int) \<Rightarrow> ('k, 'v) my_hash_map \<Rightarrow> 'k \<Rightarrow> 'v \<Rightarrow> ('k, 'v) inserted option" where
  "Insert_probe hash t key value =
     (let l = first_location hash (maxLength t) key
      in case cells t ! l of
           EMPTY_CELL \<Rightarrow> Some (l, True, AssignToCell t l key value)
         | VALID_CELL k v \<Rightarrow>
             if k = key then Some (l, False, t) else Insert_loop hash t key value None l 0
         | DELETED_CELL \<Rightarrow> Insert_loop hash t key value (Some l) l 0)"

text \<open>
  \<open>InsertWithoutDuplication\<close>, \<open>Resize\<close> and \<open>insert\<close> call each other; the first argument bounds
  the depth of the nested calls (two are enough, see the theorems). \<open>insert\<close> replaces the pair
  of a key that is there.
\<close>

definition insert_with ::
  "(('k, 'v) my_hash_map \<Rightarrow> 'k \<Rightarrow> 'v \<Rightarrow> ('k, 'v) inserted option) \<Rightarrow>
   ('k, 'v) my_hash_map \<Rightarrow> 'k \<Rightarrow> 'v \<Rightarrow> ('k, 'v) my_hash_map option" where
  "insert_with iwd t key value = do {
     (i, didInsert, t1) \<leftarrow> iwd t key value;
     Some (if didInsert then t1 else t1\<lparr>cells := (cells t1)[i := VALID_CELL key value]\<rparr>)
   }"

fun reinsert ::
  "(('k, 'v) my_hash_map \<Rightarrow> 'k \<Rightarrow> 'v \<Rightarrow> ('k, 'v) inserted option) \<Rightarrow>
   ('k, 'v) my_hash_map \<Rightarrow> ('k, 'v) cell list \<Rightarrow> ('k, 'v) my_hash_map option" where
  "reinsert iwd t [] = Some t"
| "reinsert iwd t (VALID_CELL k v # old) = Option.bind (insert_with iwd t k v) (\<lambda>t1. reinsert iwd t1 old)"
| "reinsert iwd t (_ # old) = reinsert iwd t old"

text \<open>The threshold keeps its old value while the pairs are inserted again.\<close>

definition Resize_with ::
  "(('k, 'v) my_hash_map \<Rightarrow> 'k \<Rightarrow> 'v \<Rightarrow> ('k, 'v) inserted option) \<Rightarrow>
   nat \<Rightarrow> ('k, 'v) my_hash_map \<Rightarrow> ('k, 'v) my_hash_map option" where
  "Resize_with iwd newMaxSize t = do {
     len \<leftarrow> RoundUpToPowerOfTwo newMaxSize;
     if len < currentLength t then None
     else do {
       t1 \<leftarrow> reinsert iwd
              (t\<lparr>maxLength := len, cells := replicate len EMPTY_CELL,
                 numDeletedCells := 0, currentLength := 0\<rparr>) (cells t);
       Some (t1\<lparr>maxLengthTIMESresizeRatio := maxLength t1 div 2\<rparr>)
     }
   }"

fun InsertWithoutDuplication ::
  "nat \<Rightarrow> ('k \<Rightarrow> int) \<Rightarrow> ('k, 'v) my_hash_map \<Rightarrow> 'k \<Rightarrow> 'v \<Rightarrow> ('k, 'v) inserted option" where
  "InsertWithoutDuplication 0 hash t key value = None"
| "InsertWithoutDuplication (Suc depth) hash t key value = do {
     t1 \<leftarrow> (if currentLength t \<ge> maxLengthTIMESresizeRatio t
           then (if 2 * maxLength t \<ge> 2 ^ 31 then None
                 else Resize_with (InsertWithoutDuplication depth hash) (2 * maxLength t) t)
           else Some t);
     Insert_probe hash t1 key value
   }"

definition Resize ::
  "nat \<Rightarrow> ('k \<Rightarrow> int) \<Rightarrow> nat \<Rightarrow> ('k, 'v) my_hash_map \<Rightarrow> ('k, 'v) my_hash_map option" where
  "Resize depth hash = Resize_with (InsertWithoutDuplication depth hash)"

definition hash_map_insert ::
  "nat \<Rightarrow> ('k \<Rightarrow> int) \<Rightarrow> ('k, 'v) my_hash_map \<Rightarrow> 'k \<Rightarrow> 'v \<Rightarrow> ('k, 'v) my_hash_map option" where
  "hash_map_insert depth hash = insert_with (InsertWithoutDuplication depth hash)"

text \<open>\<^verbatim>\<open>operator []\<close>: the value of the key, inserted as \<open>dflt\<close> (\<^verbatim>\<open>HashValue()\<close>) when missing.\<close>

definition hash_map_index ::
  "nat \<Rightarrow> ('k \<Rightarrow> int) \<Rightarrow> 'v \<Rightarrow> ('k, 'v) my_hash_map \<Rightarrow> 'k \<Rightarrow> ('v option \<times> ('k, 'v) my_hash_map) option" where
  "hash_map_index depth hash dflt t key = do {
     (i, didInsert, t1) \<leftarrow> InsertWithoutDuplication depth hash t key dflt;
     Some (case cells t1 ! i of VALID_CELL k v \<Rightarrow> Some v | _ \<Rightarrow> None, t1)
   }"

section \<open>Deleting\<close>

definition IncrementNumDeletedCells ::
  "nat \<Rightarrow> ('k \<Rightarrow> int) \<Rightarrow> ('k, 'v) my_hash_map \<Rightarrow> ('k, 'v) my_hash_map option" where
  "IncrementNumDeletedCells depth hash t =
     (let t1 = t\<lparr>numDeletedCells := numDeletedCells t + 1\<rparr>
      in if numDeletedCells t1 \<ge> maxLengthTIMESresizeRatio t1 then Resize depth hash (maxLength t1) t1
         else Some t1)"

definition delete_cell ::
  "nat \<Rightarrow> ('k \<Rightarrow> int) \<Rightarrow> ('k, 'v) my_hash_map \<Rightarrow> nat \<Rightarrow> (bool \<times> ('k, 'v) my_hash_map) option" where
  "delete_cell depth hash t hashLocation = do {
     t1 \<leftarrow> IncrementNumDeletedCells depth hash
            (t\<lparr>cells := (cells t)[hashLocation := DELETED_CELL], currentLength := currentLength t - 1\<rparr>);
     Some (True, t1)
   }"

function Delete_loop ::
  "nat \<Rightarrow> ('k \<Rightarrow> int) \<Rightarrow> ('k, 'v) my_hash_map \<Rightarrow> 'k \<Rightarrow> nat \<Rightarrow> nat \<Rightarrow> (bool \<times> ('k, 'v) my_hash_map) option" where
  "Delete_loop depth hash t key hashLocation timesInLoop =
     (let l = next_location hash (maxLength t) key hashLocation;
          more = (if Suc timesInLoop < maxLength t then Delete_loop depth hash t key l (Suc timesInLoop)
                  else None)
      in case cells t ! l of
           EMPTY_CELL \<Rightarrow> Some (False, t)
         | VALID_CELL k v \<Rightarrow> if k = key then delete_cell depth hash t l else more
         | DELETED_CELL \<Rightarrow> more)"
  by pat_completeness auto
termination
  by (relation "measure (\<lambda>(d, h, t, k, l, n). maxLength t - n)") auto

declare Delete_loop.simps [simp del]

definition Delete ::
  "nat \<Rightarrow> ('k \<Rightarrow> int) \<Rightarrow> ('k, 'v) my_hash_map \<Rightarrow> 'k \<Rightarrow> (bool \<times> ('k, 'v) my_hash_map) option" where
  "Delete depth hash t key =
     (let l = first_location hash (maxLength t) key;
          more = (if SecondHashValue hash key \<le> 0 then None else Delete_loop depth hash t key l 0)
      in case cells t ! l of
           EMPTY_CELL \<Rightarrow> Some (False, t)
         | VALID_CELL k v \<Rightarrow> if k = key then delete_cell depth hash t l else more
         | DELETED_CELL \<Rightarrow> more)"

definition hash_map_clear :: "('k, 'v) my_hash_map \<Rightarrow> ('k, 'v) my_hash_map" where
  "hash_map_clear t = t\<lparr>cells := replicate (maxLength t) EMPTY_CELL, currentLength := 0, numDeletedCells := 0\<rparr>"

section \<open>Iterating\<close>

text \<open>An iterator is its index. The loops that skip the cells that are not valid:\<close>

function skip_invalid :: "('k, 'v) my_hash_map \<Rightarrow> nat \<Rightarrow> nat" where
  "skip_invalid t i =
     (if i < maxLength t then
        (case cells t ! i of VALID_CELL k v \<Rightarrow> i | _ \<Rightarrow> skip_invalid t (Suc i))
      else i)"
  by pat_completeness auto
termination
  by (relation "measure (\<lambda>(t, i). maxLength t - i)") auto

declare skip_invalid.simps [simp del]

definition cell_item :: "('k, 'v) my_hash_map \<Rightarrow> nat \<Rightarrow> ('k \<times> 'v) option" where
  "cell_item t i =
     (if i < maxLength t then (case cells t ! i of VALID_CELL k v \<Rightarrow> Some (k, v) | _ \<Rightarrow> None)
      else None)"

text \<open>\<open>GetCurrentItem\<close> moves the iterator to the item it returns.\<close>

definition GetCurrentItem :: "('k, 'v) my_hash_map \<Rightarrow> nat \<Rightarrow> nat \<times> ('k \<times> 'v) option" where
  "GetCurrentItem t i = (let j = skip_invalid t i in (j, cell_item t j))"

definition iterator_postfix :: "('k, 'v) my_hash_map \<Rightarrow> nat \<Rightarrow> nat \<times> ('k \<times> 'v) option" where
  "iterator_postfix t i =
     (let j = skip_invalid t i
      in if j < maxLength t then (skip_invalid t (Suc j), cell_item t j) else (j, None))"

definition iterator_prefix :: "('k, 'v) my_hash_map \<Rightarrow> nat \<Rightarrow> nat \<times> ('k \<times> 'v) option" where
  "iterator_prefix t i = GetCurrentItem t (Suc i)"

definition hash_map_end :: "('k, 'v) my_hash_map \<Rightarrow> nat" where
  "hash_map_end t = maxLength t"

definition hash_map_begin :: "('k, 'v) my_hash_map \<Rightarrow> nat" where
  "hash_map_begin t = (if currentLength t = 0 then hash_map_end t else 0)"

text \<open>\<open>find\<close> and the test against \<open>end ()\<close>: the value the iterator points to.\<close>

definition hash_map_find :: "('k \<Rightarrow> int) \<Rightarrow> ('k, 'v) my_hash_map \<Rightarrow> 'k \<Rightarrow> 'v option option" where
  "hash_map_find hash t key = do {
     i \<leftarrow> Search hash t key;
     Some (if i < hash_map_end t then map_option snd (cell_item t i) else None)
   }"

text \<open>The loop \<^verbatim>\<open>for (i = begin (); i < end (); i++)\<close> and the items it looks at.\<close>

lemma skip_invalid_ge: "i \<le> skip_invalid t i"
proof (induction t i rule: skip_invalid.induct)
  case (1 t i)
  then show ?case by (subst skip_invalid.simps) (auto split: cell.splits intro: Suc_leD)
qed

lemma iterator_postfix_moves: "iterator_postfix t i = (j, Some kv) \<Longrightarrow> i < j \<and> i < maxLength t"
  using skip_invalid_ge [of i t] skip_invalid_ge [of "Suc (skip_invalid t i)" t]
  by (auto simp: iterator_postfix_def Let_def split: if_splits)

function for_each_from :: "('k, 'v) my_hash_map \<Rightarrow> nat \<Rightarrow> ('k \<times> 'v) list" where
  "for_each_from t i =
     (if skip_invalid t i < maxLength t then
        (case iterator_postfix t i of
           (j, Some kv) \<Rightarrow> kv # for_each_from t j
         | (j, None) \<Rightarrow> [])
      else [])"
  by pat_completeness auto
termination
  by (relation "measure (\<lambda>(t, i). maxLength t - i)")
     (auto dest!: iterator_postfix_moves [OF sym] intro: diff_less_mono2)

definition for_each :: "('k, 'v) my_hash_map \<Rightarrow> ('k \<times> 'v) list" where
  "for_each t = for_each_from t (hash_map_begin t)"

end
