(* ===== verification/HashMapSpec.thy ===== *)
theory HashMapSpec
  imports HashMap
begin

text \<open>
  The contract of \<open>my_hash_map\<close>: under the invariant \<open>hm_wf\<close> no assertion of the code fails, every
  operation returns, and the table is a finite map. The odd second hash value makes the probe
  sequence of a key visit every cell of the power-of-two table, each live key is on its own
  sequence with no empty cell before it, and one cell is always empty.
\<close>

section \<open>The probe sequence\<close>

definition probe :: "('k \<Rightarrow> int) \<Rightarrow> nat \<Rightarrow> 'k \<Rightarrow> nat \<Rightarrow> nat" where
  "probe hash len k j = nat ((hash k + int j * SecondHashValue hash k) mod int len)"

lemma probe_0: "first_location hash len k = probe hash len k 0"
  by (simp add: first_location_def probe_def)

lemma probe_Suc:
  assumes "0 < len"
  shows "next_location hash len k (probe hash len k j) = probe hash len k (Suc j)"
proof -
  let ?s = "SecondHashValue hash k"
  have "(hash k + int j * ?s) mod int len + ?s = (hash k + int j * ?s) mod int len + ?s" ..
  then have "((hash k + int j * ?s) mod int len + ?s) mod int len = (hash k + int (Suc j) * ?s) mod int len"
    by (simp add: mod_simps algebra_simps)
  then show ?thesis using assms by (simp add: next_location_def probe_def)
qed

lemma probe_less: "0 < len \<Longrightarrow> probe hash len k j < len"
  by (simp add: probe_def nat_less_iff)

text \<open>An odd step visits every cell.\<close>

lemma probe_inj:
  "inj_on (probe hash (2 ^ n) k) {..<2 ^ n}"
proof (rule inj_onI)
  fix i j assume ij: "i \<in> {..<2 ^ n}" "j \<in> {..<2 ^ n}"
    and eq: "probe hash (2 ^ n) k i = probe hash (2 ^ n) k j"
  let ?s = "SecondHashValue hash k"
  have "(hash k + int i * ?s) mod 2 ^ n = (hash k + int j * ?s) mod 2 ^ n"
    using eq by (simp add: probe_def eq_nat_nat_iff)
  then have "2 ^ n dvd (int i - int j) * ?s"
    by (simp add: mod_eq_dvd_iff algebra_simps)
  moreover have "coprime (2 ^ n) ?s" by (simp add: SecondHashValue_def)
  ultimately have "2 ^ n dvd int i - int j" by (simp add: coprime_dvd_mult_left_iff)
  then have "int i mod 2 ^ n = int j mod 2 ^ n" by (simp add: mod_eq_dvd_iff)
  moreover have "int i < 2 ^ n" "int j < 2 ^ n" using ij by (auto simp flip: of_nat_power)
  ultimately show "i = j" by simp
qed

lemma probe_surj:
  assumes "i < 2 ^ n"
  shows "\<exists>j<2 ^ n. probe hash (2 ^ n) k j = i"
proof -
  have "probe hash (2 ^ n) k ` {..<2 ^ n} \<subseteq> {..<2 ^ n}" by (auto simp: probe_less)
  from endo_inj_surj [OF finite_lessThan this probe_inj]
  have "i \<in> probe hash (2 ^ n) k ` {..<2 ^ n}" using assms by simp
  then show ?thesis by blast
qed

section \<open>Counting cells\<close>

fun is_valid :: "('k, 'v) cell \<Rightarrow> bool" where
  "is_valid (VALID_CELL k v) = True"
| "is_valid _ = False"

definition n_valid :: "('k, 'v) cell list \<Rightarrow> nat" where
  "n_valid cs = length (filter is_valid cs)"

definition n_deleted :: "('k, 'v) cell list \<Rightarrow> nat" where
  "n_deleted cs = length (filter (\<lambda>c. c = DELETED_CELL) cs)"

fun cell_items :: "('k, 'v) cell list \<Rightarrow> ('k \<times> 'v) list" where
  "cell_items [] = []"
| "cell_items (VALID_CELL k v # cs) = (k, v) # cell_items cs"
| "cell_items (_ # cs) = cell_items cs"

lemma filter_update_count:
  "i < length xs \<Longrightarrow>
     length (filter P (xs[i := y])) + (if P (xs ! i) then 1 else 0) =
     length (filter P xs) + (if P y then 1 else 0)"
proof (induction xs arbitrary: i)
  case (Cons x xs)
  show ?case
  proof (cases i)
    case 0
    then show ?thesis by simp
  next
    case (Suc j)
    then show ?thesis using Cons.IH [of j] Cons.prems by simp
  qed
qed simp

lemma n_valid_update:
  "i < length cs \<Longrightarrow> n_valid (cs[i := c]) + (if is_valid (cs ! i) then 1 else 0) =
     n_valid cs + (if is_valid c then 1 else 0)"
  unfolding n_valid_def by (rule filter_update_count)

lemma n_deleted_update:
  "i < length cs \<Longrightarrow> n_deleted (cs[i := c]) + (if cs ! i = DELETED_CELL then 1 else 0) =
     n_deleted cs + (if c = DELETED_CELL then 1 else 0)"
  unfolding n_deleted_def by (rule filter_update_count)

lemma empty_exists: "n_valid cs + n_deleted cs < length cs \<Longrightarrow> EMPTY_CELL \<in> set cs"
proof (induction cs)
  case (Cons c cs)
  then show ?case by (cases c) (auto simp: n_valid_def n_deleted_def)
qed simp

lemma fresh_cells [simp]:
  "n_valid (replicate len EMPTY_CELL) = 0" "n_deleted (replicate len EMPTY_CELL) = 0"
  "cell_items (replicate len EMPTY_CELL) = []"
  by (induction len) (simp_all add: n_valid_def n_deleted_def)

lemma cell_items_mem: "(k, v) \<in> set (cell_items cs) \<longleftrightarrow> VALID_CELL k v \<in> set cs"
  by (induction cs rule: cell_items.induct) auto

lemma cell_items_length: "length (cell_items cs) = n_valid cs"
  by (induction cs rule: cell_items.induct) (auto simp: n_valid_def)

section \<open>The invariant\<close>

definition cell_keys :: "('k, 'v) cell list \<Rightarrow> 'k list" where
  "cell_keys cs = map fst (cell_items cs)"

definition on_probe_path :: "('k \<Rightarrow> int) \<Rightarrow> ('k, 'v) my_hash_map \<Rightarrow> 'k \<Rightarrow> nat \<Rightarrow> bool" where
  "on_probe_path hash t k i \<longleftrightarrow>
     (\<exists>j. probe hash (maxLength t) k j = i \<and>
          (\<forall>j'<j. cells t ! probe hash (maxLength t) k j' \<noteq> EMPTY_CELL))"

definition table_ok :: "('k \<Rightarrow> int) \<Rightarrow> ('k, 'v) my_hash_map \<Rightarrow> bool" where
  "table_ok hash t \<longleftrightarrow>
     (\<exists>n. maxLength t = 2 ^ n) \<and> length (cells t) = maxLength t \<and>
     currentLength t = n_valid (cells t) \<and>
     n_valid (cells t) + n_deleted (cells t) < maxLength t \<and>
     distinct (cell_keys (cells t)) \<and>
     (\<forall>i<maxLength t. \<forall>k v. cells t ! i = VALID_CELL k v \<longrightarrow> on_probe_path hash t k i)"

definition hm_wf :: "('k \<Rightarrow> int) \<Rightarrow> ('k, 'v) my_hash_map \<Rightarrow> bool" where
  "hm_wf hash t \<longleftrightarrow>
     table_ok hash t \<and> n_deleted (cells t) \<le> numDeletedCells t \<and>
     maxLengthTIMESresizeRatio t = maxLength t div 2 \<and>
     currentLength t \<le> maxLengthTIMESresizeRatio t \<and>
     (numDeletedCells t < maxLengthTIMESresizeRatio t \<or> numDeletedCells t = 0)"

text \<open>The map a table stands for.\<close>

definition hm_map :: "('k, 'v) my_hash_map \<Rightarrow> 'k \<Rightarrow> 'v option" where
  "hm_map t = map_of (cell_items (cells t))"

lemma hm_map_iff:
  "distinct (cell_keys (cells t)) \<Longrightarrow> hm_map t k = Some v \<longleftrightarrow> VALID_CELL k v \<in> set (cells t)"
  by (simp add: hm_map_def cell_keys_def cell_items_mem)

lemma table_okD:
  assumes "table_ok hash t"
  shows "0 < maxLength t" "length (cells t) = maxLength t" "currentLength t = n_valid (cells t)"
    "distinct (cell_keys (cells t))" "EMPTY_CELL \<in> set (cells t)"
  using assms empty_exists [of "cells t"] by (auto simp: table_ok_def)

lemma keys_unique:
  assumes "distinct (cell_keys cs)" "i < length cs" "j < length cs"
    "cs ! i = VALID_CELL k v" "cs ! j = VALID_CELL k v'"
  shows "i = j"
  using assms
proof (induction cs arbitrary: i j)
  case (Cons c cs)
  have later: "k \<in> set (cell_keys cs)" if "n < length cs" "cs ! n = VALID_CELL k w" for n w
    using that nth_mem [of n cs] cell_items_mem [of k w cs] by (force simp: cell_keys_def)
  have first: "k \<notin> set (cell_keys cs)" if "c = VALID_CELL k w" for w
    using that Cons.prems(1) by (simp add: cell_keys_def)
  have tail: "distinct (cell_keys cs)" using Cons.prems(1) by (cases c) (auto simp: cell_keys_def)
  show ?case
  proof (cases i; cases j)
    fix j' assume ij: "i = 0" "j = Suc j'"
    then show ?thesis using Cons.prems(2-) later [of j' v'] first [of v] by simp
  next
    fix i' assume ij: "i = Suc i'" "j = 0"
    then show ?thesis using Cons.prems(2-) later [of i' v] first [of v'] by simp
  next
    fix i' j' assume ij: "i = Suc i'" "j = Suc j'"
    then show ?thesis using Cons.IH [OF tail, of i' j'] Cons.prems(2-) by simp
  qed simp
qed simp

section \<open>Where a search stops\<close>

definition stops :: "('k \<Rightarrow> int) \<Rightarrow> ('k, 'v) my_hash_map \<Rightarrow> 'k \<Rightarrow> nat \<Rightarrow> bool" where
  "stops hash t k j \<longleftrightarrow>
     (case cells t ! probe hash (maxLength t) k j of
        EMPTY_CELL \<Rightarrow> True | VALID_CELL k' v \<Rightarrow> k' = k | DELETED_CELL \<Rightarrow> False)"

definition stop_at :: "('k \<Rightarrow> int) \<Rightarrow> ('k, 'v) my_hash_map \<Rightarrow> 'k \<Rightarrow> nat \<Rightarrow> bool" where
  "stop_at hash t k p \<longleftrightarrow> p < maxLength t \<and> stops hash t k p \<and> (\<forall>j<p. \<not> stops hash t k j)"

lemma stop_exists:
  assumes "table_ok hash t"
  shows "\<exists>p. stop_at hash t k p"
proof -
  obtain n where n: "maxLength t = 2 ^ n" using assms by (auto simp: table_ok_def)
  obtain i where "i < maxLength t" "cells t ! i = EMPTY_CELL"
    using table_okD [OF assms] by (metis in_set_conv_nth)
  then obtain j where j: "j < maxLength t" "stops hash t k j"
    using probe_surj [of i n hash k] n by (auto simp: stops_def)
  let ?p = "LEAST j. stops hash t k j"
  have "stops hash t k ?p" using j(2) by (rule LeastI)
  moreover have "?p \<le> j" using j(2) by (rule Least_le)
  then have "?p < maxLength t" using j(1) by (rule le_less_trans)
  moreover have "\<forall>j'<?p. \<not> stops hash t k j'" using not_less_Least by blast
  ultimately have "stop_at hash t k ?p" unfolding stop_at_def by blast
  then show ?thesis ..
qed

text \<open>At an empty cell the key is not in the table, at a valid one its value is found.\<close>

lemma stop_empty:
  assumes "table_ok hash t" "stop_at hash t k p"
    "cells t ! probe hash (maxLength t) k p = EMPTY_CELL"
  shows "hm_map t k = None"
proof (rule ccontr)
  assume "hm_map t k \<noteq> None"
  then obtain v where "VALID_CELL k v \<in> set (cells t)"
    using hm_map_iff [OF table_okD(4) [OF assms(1)]] by blast
  then obtain i where i: "i < maxLength t" "cells t ! i = VALID_CELL k v"
    using table_okD(2) [OF assms(1)] by (metis in_set_conv_nth)
  then obtain j where j: "probe hash (maxLength t) k j = i"
      "\<forall>j'<j. cells t ! probe hash (maxLength t) k j' \<noteq> EMPTY_CELL"
    using assms(1) by (force simp: table_ok_def on_probe_path_def)
  have "stops hash t k j" using i j by (simp add: stops_def)
  then have "p \<le> j" using assms(2) by (meson not_le stop_at_def)
  then show False using i j assms(3) by (cases "p = j") auto
qed

lemma stop_valid:
  assumes "table_ok hash t" "cells t ! probe hash (maxLength t) k p = VALID_CELL k v"
  shows "hm_map t k = Some v"
  using assms table_okD(1,2,4) [OF assms(1)] probe_less [of "maxLength t" hash k p]
  by (metis hm_map_iff nth_mem)

text \<open>Every cell before the stop is in use, by another key or a deleted one.\<close>

lemma before_stop:
  assumes "\<not> stops hash t k j"
  shows "cells t ! probe hash (maxLength t) k j \<noteq> EMPTY_CELL"
    "cells t ! probe hash (maxLength t) k j \<noteq> VALID_CELL k v"
  using assms by (auto simp: stops_def)

lemma no_stop_cases:
  assumes "\<not> stops hash t k j"
  obtains "cells t ! probe hash (maxLength t) k j = DELETED_CELL"
    | k' v where "cells t ! probe hash (maxLength t) k j = VALID_CELL k' v" "k' \<noteq> k"
  using assms by (cases "cells t ! probe hash (maxLength t) k j") (auto simp: stops_def)

lemma stop_cases:
  assumes "stops hash t k j"
  obtains "cells t ! probe hash (maxLength t) k j = EMPTY_CELL"
    | v where "cells t ! probe hash (maxLength t) k j = VALID_CELL k v"
  using assms by (cases "cells t ! probe hash (maxLength t) k j") (auto simp: stops_def)

end
