(* ===== verification/HashMapWf.thy ===== *)
theory HashMapWf
  imports HashMapOps Simulation
begin

text \<open>
  \<open>my_hash_map\<close> as its users see it: construction, rebuilding, insertion, deletion, clearing and
  iteration keep \<open>hm_wf\<close> and act on the finite map \<open>hm_map\<close>.
\<close>

section \<open>Sizes\<close>

lemma RoundUp_loop_eq:
  assumes "k \<le> n" "n \<le> 31" "2 ^ (n - 1) < x \<or> n = k" "x \<le> 2 ^ n"
  shows "RoundUp_loop x (2 ^ k) = Some (2 ^ n)"
  using assms(1,3)
proof (induction "n - k" arbitrary: k)
  case 0
  then show ?case using assms(4) by (simp add: RoundUp_loop.simps)
next
  case (Suc d)
  then have k: "Suc k \<le> n" "d = n - Suc k" "2 ^ (n - 1) < x" by auto
  have "(2::nat) ^ k \<le> 2 ^ (n - 1)" using k(1) by (intro power_increasing) auto
  then have more: "2 ^ k < x" using k(3) by (rule le_less_trans)
  have "(2::nat) ^ Suc k \<le> 2 ^ 31" using k(1) assms(2) by (intro power_increasing) auto
  then have "(2 ^ k * 2) mod 2 ^ 32 = (2::nat) ^ Suc k" by simp
  moreover have "RoundUp_loop x (2 ^ Suc k) = Some (2 ^ n)"
    using Suc.hyps(1) [OF k(2,1)] k(3) by simp
  ultimately show ?case using more by (subst RoundUp_loop.simps) simp
qed

lemma RoundUpToPowerOfTwo_eq:
  "n \<le> 31 \<Longrightarrow> 2 ^ (n - 1) < x \<or> n = 0 \<Longrightarrow> x \<le> 2 ^ n \<Longrightarrow> RoundUpToPowerOfTwo x = Some (2 ^ n)"
  using RoundUp_loop_eq [of 0 n x] by (simp add: RoundUpToPowerOfTwo_def)

lemma RoundUpToPowerOfTwo_power:
  assumes "n \<le> 31"
  shows "RoundUpToPowerOfTwo (2 ^ n) = Some (2 ^ n)"
  using assms by (intro RoundUpToPowerOfTwo_eq) auto

text \<open>Every size up to \<open>2 ^ 31\<close> is rounded up to the least power of two that is as large.\<close>

lemma RoundUpToPowerOfTwo_least:
  assumes "x \<le> 2 ^ 31"
  shows "\<exists>n\<le>31. RoundUpToPowerOfTwo x = Some (2 ^ n) \<and> x \<le> 2 ^ n \<and> (\<forall>m. x \<le> 2 ^ m \<longrightarrow> n \<le> m)"
proof -
  let ?n = "LEAST n. x \<le> 2 ^ n"
  have le: "x \<le> 2 ^ ?n" using assms by (rule LeastI)
  have bound: "?n \<le> m" if "x \<le> 2 ^ m" for m using that by (rule Least_le)
  have "2 ^ (?n - 1) < x \<or> ?n = 0"
  proof (cases ?n)
    case (Suc m)
    then have "\<not> x \<le> 2 ^ m" using not_less_Least [of m "\<lambda>n. x \<le> 2 ^ n"] by simp
    then show ?thesis using Suc by simp
  qed simp
  with RoundUpToPowerOfTwo_eq [OF bound [OF assms] this le] show ?thesis
    using le bound assms by blast
qed

section \<open>Rebuilding\<close>

declare InsertWithoutDuplication.simps [simp del]

text \<open>Inserting without reaching the threshold does not rebuild.\<close>

lemma InsertWithoutDuplication_below:
  "currentLength t < maxLengthTIMESresizeRatio t \<Longrightarrow>
     InsertWithoutDuplication (Suc d) hash t k v = Insert_probe hash t k v"
  by (simp add: InsertWithoutDuplication.simps)

definition rebuild_ok :: "('k \<Rightarrow> int) \<Rightarrow> ('k, 'v) my_hash_map \<Rightarrow> bool" where
  "rebuild_ok hash t \<longleftrightarrow> table_ok hash t \<and> n_deleted (cells t) = 0 \<and> numDeletedCells t = 0"

lemma reinsert_ok:
  assumes "rebuild_ok hash t" "n_valid (cells t) + n_valid old < maxLength t"
    "n_valid (cells t) + n_valid old \<le> maxLengthTIMESresizeRatio t"
    "distinct (cell_keys old)" "\<forall>k\<in>set (cell_keys old). hm_map t k = None"
  shows "\<exists>t'. reinsert (InsertWithoutDuplication (Suc d) hash) t old = Some t' \<and> rebuild_ok hash t' \<and>
           hm_map t' = hm_map t ++ map_of (cell_items old) \<and>
           n_valid (cells t') = n_valid (cells t) + n_valid old \<and>
           maxLength t' = maxLength t \<and> maxLengthTIMESresizeRatio t' = maxLengthTIMESresizeRatio t"
  using assms
proof (induction old arbitrary: t rule: cell_items.induct)
  case 1
  then show ?case by (simp add: n_valid_def)
next
  case (2 k v cs)
  have nv: "n_valid (VALID_CELL k v # cs) = Suc (n_valid cs)" by (simp add: n_valid_def)
  have t: "table_ok hash t" "n_deleted (cells t) = 0" "numDeletedCells t = 0"
    using 2(2) by (auto simp: rebuild_ok_def)
  have "hm_map t k = None" using 2(6) by (simp add: cell_keys_def)
  moreover have "n_valid (cells t) + n_deleted (cells t) + 1 < maxLength t" using 2(3) nv t(2) by simp
  ultimately obtain i where i: "i < maxLength t"
      "Insert_probe hash t k v = Some (i, True, AssignToCell t i k v)"
      "table_ok hash (AssignToCell t i k v)" "hm_map (AssignToCell t i k v) = (hm_map t)(k \<mapsto> v)"
      "n_deleted (cells (AssignToCell t i k v)) \<le> n_deleted (cells t)"
    using insert_absent [OF t(1), of k v] by blast
  let ?t = "AssignToCell t i k v"
  have same: "maxLength ?t = maxLength t" "maxLengthTIMESresizeRatio ?t = maxLengthTIMESresizeRatio t"
      "numDeletedCells ?t = 0" "currentLength ?t = Suc (currentLength t)"
    using t(3) by (simp_all add: AssignToCell_def)
  then have count: "n_valid (cells ?t) = Suc (n_valid (cells t))"
    using table_okD(3) [OF i(3)] table_okD(3) [OF t(1)] by simp
  have "currentLength t < maxLengthTIMESresizeRatio t" using 2(4) nv table_okD(3) [OF t(1)] by simp
  then have ins: "insert_with (InsertWithoutDuplication (Suc d) hash) t k v = Some ?t"
    using i(2) by (simp add: insert_with_def InsertWithoutDuplication_below)
  have rb: "rebuild_ok hash ?t" using i(3,5) t(2) same(3) by (simp add: rebuild_ok_def)
  have dist: "distinct (cell_keys cs)" "k \<notin> set (cell_keys cs)" using 2(5) by (auto simp: cell_keys_def)
  have disj: "\<forall>k'\<in>set (cell_keys cs). hm_map ?t k' = None"
    using 2(6) dist(2) i(4) by (auto simp: cell_keys_def)
  obtain t' where t': "reinsert (InsertWithoutDuplication (Suc d) hash) ?t cs = Some t'"
      "rebuild_ok hash t'" "hm_map t' = hm_map ?t ++ map_of (cell_items cs)"
      "n_valid (cells t') = n_valid (cells ?t) + n_valid cs" "maxLength t' = maxLength ?t"
      "maxLengthTIMESresizeRatio t' = maxLengthTIMESresizeRatio ?t"
    using 2(1) [OF rb _ _ dist(1) disj] 2(3,4) nv count same(1,2) by auto
  have "k \<notin> dom (map_of (cell_items cs))" using dist(2) by (simp add: cell_keys_def dom_map_of_conv_image_fst)
  then have "hm_map ?t ++ map_of (cell_items cs) = hm_map t ++ (map_of (cell_items cs))(k \<mapsto> v)"
    unfolding i(4) by (simp add: map_add_upd_left)
  moreover have "map_of (cell_items (VALID_CELL k v # cs)) = (map_of (cell_items cs))(k \<mapsto> v)" by simp
  ultimately have "hm_map t' = hm_map t ++ map_of (cell_items (VALID_CELL k v # cs))"
    unfolding t'(3) by (rule trans [OF _ arg_cong [OF sym]])
  then show ?case using ins t' nv count same by (intro exI [of _ t']) (simp del: cell_items.simps)
qed (auto simp: n_valid_def cell_keys_def)

lemma fresh_table_ok:
  assumes "maxLength t = 2 ^ n" "cells t = replicate (2 ^ n) EMPTY_CELL"
    "currentLength t = 0"
  shows "table_ok hash t" "hm_map t = Map.empty"
  using assms by (auto simp: table_ok_def cell_keys_def hm_map_def)

lemma Resize_ok:
  assumes "length (cells t) = maxLength t" "currentLength t = n_valid (cells t)"
    "distinct (cell_keys (cells t))" "n \<le> 31" "n_valid (cells t) < 2 ^ n"
    "n_valid (cells t) \<le> maxLengthTIMESresizeRatio t" "n_valid (cells t) \<le> 2 ^ n div 2"
  shows "\<exists>t'. Resize (Suc d) hash (2 ^ n) t = Some t' \<and> hm_wf hash t' \<and> hm_map t' = hm_map t \<and>
           maxLength t' = 2 ^ n \<and> currentLength t' = currentLength t \<and> numDeletedCells t' = 0"
proof -
  let ?t0 = "t\<lparr>maxLength := 2 ^ n, cells := replicate (2 ^ n) EMPTY_CELL, numDeletedCells := 0,
               currentLength := 0\<rparr>"
  have t0: "table_ok hash ?t0" "hm_map ?t0 = Map.empty"
    using fresh_table_ok(1) [of ?t0 n hash] fresh_table_ok(2) [of ?t0 n] by auto
  have rb: "rebuild_ok hash ?t0" using t0(1) by (simp add: rebuild_ok_def)
  have "\<exists>t'. reinsert (InsertWithoutDuplication (Suc d) hash) ?t0 (cells t) = Some t' \<and>
      rebuild_ok hash t' \<and> hm_map t' = hm_map ?t0 ++ map_of (cell_items (cells t)) \<and>
      n_valid (cells t') = n_valid (cells ?t0) + n_valid (cells t) \<and> maxLength t' = maxLength ?t0 \<and>
      maxLengthTIMESresizeRatio t' = maxLengthTIMESresizeRatio ?t0"
    by (rule reinsert_ok [OF rb]) (use assms t0(2) in auto)
  then obtain t1 where t1: "reinsert (InsertWithoutDuplication (Suc d) hash) ?t0 (cells t) = Some t1"
      "rebuild_ok hash t1" "hm_map t1 = hm_map t" "n_valid (cells t1) = n_valid (cells t)"
      "maxLength t1 = 2 ^ n" using t0(2) by (auto simp: hm_map_def)
  let ?t = "t1\<lparr>maxLengthTIMESresizeRatio := maxLength t1 div 2\<rparr>"
  have "Resize (Suc d) hash (2 ^ n) t = Some ?t"
    using RoundUpToPowerOfTwo_power [OF assms(4)] t1(1) assms(2,5) by (simp add: Resize_def Resize_with_def)
  moreover have "table_ok hash ?t" using t1(2) by (simp add: rebuild_ok_def table_ok_def on_probe_path_def)
  then have "hm_wf hash ?t"
    using t1(2,4,5) assms(7) table_okD(3) [of hash t1] by (auto simp: hm_wf_def rebuild_ok_def)
  moreover have "currentLength t1 = n_valid (cells t1)"
    using t1(2) table_okD(3) by (auto simp: rebuild_ok_def)
  ultimately show ?thesis
    using t1 assms(2) by (auto simp: hm_map_def rebuild_ok_def intro!: exI [of _ ?t])
qed

section \<open>Construction and clearing\<close>

lemma hash_map_ctor_ok:
  assumes "n \<le> 2 ^ 31"
  shows "\<exists>t. hash_map_ctor n = Some t \<and> hm_wf hash t \<and> hm_map t = Map.empty \<and> n \<le> maxLength t"
proof -
  obtain k where k: "RoundUpToPowerOfTwo n = Some (2 ^ k)" "n \<le> 2 ^ k"
    using RoundUpToPowerOfTwo_least [OF assms] by blast
  let ?t = "\<lparr>maxLength = 2 ^ k, currentLength = 0, numDeletedCells = 0,
      maxLengthTIMESresizeRatio = 2 ^ k div 2, cells = replicate (2 ^ k) EMPTY_CELL\<rparr>"
  have "hash_map_ctor n = Some ?t" using k(1) by (simp add: hash_map_ctor_def)
  moreover have "table_ok hash ?t" "hm_map ?t = Map.empty"
    using fresh_table_ok(1) [of ?t k hash] fresh_table_ok(2) [of ?t k] by auto
  moreover from this(1) have "hm_wf hash ?t" by (simp add: hm_wf_def)
  ultimately show ?thesis using k(2) by (intro exI [of _ ?t]) simp
qed

lemma hash_map_clear_ok:
  assumes "hm_wf hash t"
  shows "hm_wf hash (hash_map_clear t)" "hm_map (hash_map_clear t) = Map.empty"
    "maxLength (hash_map_clear t) = maxLength t"
proof -
  obtain n where n: "maxLength t = 2 ^ n" using assms by (auto simp: hm_wf_def table_ok_def)
  then have "table_ok hash (hash_map_clear t)" "hm_map (hash_map_clear t) = Map.empty"
    using fresh_table_ok(1) [of "hash_map_clear t" n hash] fresh_table_ok(2) [of "hash_map_clear t" n]
    by (auto simp: hash_map_clear_def)
  then show "hm_wf hash (hash_map_clear t)" "hm_map (hash_map_clear t) = Map.empty"
    using assms by (auto simp: hm_wf_def hash_map_clear_def)
  show "maxLength (hash_map_clear t) = maxLength t" by (simp add: hash_map_clear_def)
qed

section \<open>Insertion\<close>

lemma hm_wfD:
  assumes "hm_wf hash t"
  shows "table_ok hash t" "n_deleted (cells t) \<le> numDeletedCells t"
    "maxLengthTIMESresizeRatio t = maxLength t div 2" "currentLength t \<le> maxLength t div 2"
    "numDeletedCells t < maxLength t div 2 \<or> numDeletedCells t = 0"
    "\<exists>n. maxLength t = 2 ^ n" "currentLength t = n_valid (cells t)"
  using assms table_okD(3) by (auto simp: hm_wf_def table_ok_def)

lemma power_bound: "maxLength t = 2 ^ n \<Longrightarrow> maxLength t < 2 ^ 30 \<Longrightarrow> n < 30"
  by (metis power_strict_increasing_iff one_less_numeral_iff semiring_norm(76))

definition grown :: "('k, 'v) my_hash_map \<Rightarrow> nat" where
  "grown t = (if currentLength t \<ge> maxLength t div 2 then 2 * maxLength t else maxLength t)"

text \<open>The first step of an insertion leaves room for the new key.\<close>

lemma make_room:
  assumes "hm_wf hash t" "maxLength t < 2 ^ 30"
  shows "\<exists>t1. InsertWithoutDuplication (Suc (Suc d)) hash t k v = Insert_probe hash t1 k v \<and>
           hm_wf hash t1 \<and> hm_map t1 = hm_map t \<and> currentLength t1 < maxLength t1 div 2 \<and>
           maxLength t1 = grown t \<and> currentLength t1 = currentLength t"
proof (cases "currentLength t < maxLengthTIMESresizeRatio t")
  case True
  then show ?thesis
    using assms hm_wfD(3) [OF assms(1)]
    by (intro exI [of _ t]) (simp add: InsertWithoutDuplication_below grown_def)
next
  case False
  note wf = hm_wfD [OF assms(1)] and ok = table_okD [OF hm_wfD(1) [OF assms(1)]]
  obtain n where n: "maxLength t = 2 ^ n" using wf(6) by blast
  then have n31: "Suc n \<le> 31" using power_bound [OF n assms(2)] by simp
  have eq: "currentLength t = maxLength t div 2" using False wf(3,4) by simp
  have "n_valid (cells t) < 2 ^ Suc n" "n_valid (cells t) \<le> 2 ^ Suc n div 2"
    using wf(4,7) n by (auto intro: le_less_trans [of _ "2 ^ n"])
  then obtain t1 where t1: "Resize (Suc d) hash (2 ^ Suc n) t = Some t1" "hm_wf hash t1"
      "hm_map t1 = hm_map t" "maxLength t1 = 2 ^ Suc n" "currentLength t1 = currentLength t"
    using Resize_ok [OF ok(2,3,4) n31, of d hash] wf(3,4,7) by auto
  have "InsertWithoutDuplication (Suc (Suc d)) hash t k v = Insert_probe hash t1 k v"
    using False assms(2) t1(1) n by (simp add: InsertWithoutDuplication.simps(2) Resize_def)
  moreover have "currentLength t1 < maxLength t1 div 2" using t1(4,5) eq n by simp
  ultimately show ?thesis using t1 eq n by (intro exI [of _ t1]) (simp add: grown_def)
qed

lemma room_after:
  assumes "hm_wf hash t" "currentLength t < maxLength t div 2"
  shows "n_valid (cells t) + n_deleted (cells t) + 1 < maxLength t"
  using hm_wfD [OF assms(1)] assms(2) by auto

lemma assign_wf:
  assumes "hm_wf hash t" "currentLength t < maxLength t div 2" "table_ok hash (AssignToCell t i k v)"
    "n_deleted (cells (AssignToCell t i k v)) \<le> n_deleted (cells t)"
  shows "hm_wf hash (AssignToCell t i k v)"
  using assms hm_wfD [OF assms(1)] by (auto simp: hm_wf_def AssignToCell_def)

lemma InsertWithoutDuplication_ok:
  assumes "hm_wf hash t" "maxLength t < 2 ^ 30"
  shows "\<exists>i t'. InsertWithoutDuplication (Suc (Suc d)) hash t k v = Some (i, hm_map t k = None, t') \<and>
           hm_wf hash t' \<and> i < maxLength t' \<and> maxLength t' = grown t \<and>
           hm_map t' = (if hm_map t k = None then (hm_map t)(k \<mapsto> v) else hm_map t) \<and>
           (\<exists>w. cells t' ! i = VALID_CELL k w)"
proof -
  obtain t1 where t1: "InsertWithoutDuplication (Suc (Suc d)) hash t k v = Insert_probe hash t1 k v"
      "hm_wf hash t1" "hm_map t1 = hm_map t" "currentLength t1 < maxLength t1 div 2"
      "maxLength t1 = grown t"
    using make_room [OF assms] by blast
  note ok = hm_wfD(1) [OF t1(2)]
  show ?thesis
  proof (cases "hm_map t k")
    case None
    then have "hm_map t1 k = None" using t1(3) by simp
    from insert_absent [OF ok this room_after [OF t1(2,4)], of v] obtain i where i: "i < maxLength t1"
        "Insert_probe hash t1 k v = Some (i, True, AssignToCell t1 i k v)"
        "table_ok hash (AssignToCell t1 i k v)" "hm_map (AssignToCell t1 i k v) = (hm_map t1)(k \<mapsto> v)"
        "n_deleted (cells (AssignToCell t1 i k v)) \<le> n_deleted (cells t1)" by blast
    have "cells (AssignToCell t1 i k v) ! i = VALID_CELL k v" "maxLength (AssignToCell t1 i k v) = maxLength t1"
      using i(1) table_okD(2) [OF ok] by (simp_all add: AssignToCell_def)
    then show ?thesis
      using None t1 i assign_wf [OF t1(2,4) i(3,5)] by (intro exI [of _ i] exI [of _ "AssignToCell t1 i k v"]) simp
  next
    case (Some w)
    then have "hm_map t1 k = Some w" using t1(3) by simp
    from insert_present [OF ok this, of v] show ?thesis using t1 Some by fastforce
  qed
qed

text \<open>Overwriting the value of a key.\<close>

lemma overwrite_ok:
  assumes "hm_wf hash t" "i < maxLength t" "cells t ! i = VALID_CELL k w"
    and t'_def: "t' = t\<lparr>cells := (cells t)[i := VALID_CELL k v]\<rparr>"
  shows "hm_wf hash t'" "hm_map t' = (hm_map t)(k \<mapsto> v)"
proof -
  note wf = hm_wfD [OF assms(1)] and ok = table_okD [OF hm_wfD(1) [OF assms(1)]]
  let ?cs = "(cells t)[i := VALID_CELL k v]" and ?ds = "(cells t)[i := DELETED_CELL]"
  have il: "i < length (cells t)" using assms(2) ok(2) by simp
  have "?cs = ?ds[i := VALID_CELL k v]" by simp
  then have ins: "mset (cell_items ?cs) = add_mset (k, v) (mset (cell_items ?ds))"
    using cell_items_update [of i ?ds k v] il by simp
  have del: "add_mset (k, w) (mset (cell_items ?ds)) = mset (cell_items (cells t))"
    using cell_items_remove [OF il assms(3), of DELETED_CELL] by simp
  have "mset (cell_keys ?cs) = mset (cell_keys (cells t))"
    using ins del [symmetric] by (simp add: cell_keys_def)
  then have dist: "distinct (cell_keys ?cs)" using ok(4) by (metis mset_eq_imp_distinct_iff)
  have counts: "n_valid ?cs = n_valid (cells t)" "n_deleted ?cs = n_deleted (cells t)"
    using n_valid_update [OF il, of "VALID_CELL k v"] n_deleted_update [OF il, of "VALID_CELL k v"] assms(3)
    by auto
  have path: "on_probe_path hash t' k' j" if "j < maxLength t" "?cs ! j = VALID_CELL k' v'" for j k' v'
  proof -
    have "\<exists>v''. cells t ! j = VALID_CELL k' v''"
      using that assms(3) il by (cases "j = i") auto
    then have "on_probe_path hash t k' j" using that(1) wf(1) by (auto simp: table_ok_def)
    then show ?thesis
      by (rule path_kept) (use ok(1) il in \<open>auto simp: t'_def nth_list_update\<close>)
  qed
  have "table_ok hash t'"
    using wf(1) counts dist path by (auto simp: table_ok_def t'_def)
  then show "hm_wf hash t'" using assms(1) counts by (auto simp: hm_wf_def t'_def)
  have "map_of (cell_items ?cs) = (map_of (cell_items ?ds))(k \<mapsto> v)"
    using map_of_mset [of "cell_items ?cs" "(k, v) # cell_items ?ds"] ins dist by (simp add: cell_keys_def)
  moreover have "map_of (cell_items (cells t)) = (map_of (cell_items ?ds))(k \<mapsto> w)"
    using map_of_mset [of "cell_items (cells t)" "(k, w) # cell_items ?ds"] del ok(4)
    by (simp add: cell_keys_def)
  ultimately show "hm_map t' = (hm_map t)(k \<mapsto> v)" by (simp add: hm_map_def t'_def)
qed

end
