(* ===== verification/HashMapUse.thy ===== *)
theory HashMapUse
  imports HashMapWf
begin

text \<open>
  The operations of \<open>my_hash_map\<close> on the finite map they maintain, the interface
  \<open>finite_map\<close> its clients use, and runs of operations.
\<close>

lemma hash_map_insert_ok:
  assumes "hm_wf hash t" "maxLength t < 2 ^ 30"
  shows "\<exists>t'. hash_map_insert (Suc (Suc d)) hash t k v = Some t' \<and> hm_wf hash t' \<and>
           hm_map t' = (hm_map t)(k \<mapsto> v) \<and> maxLength t' = grown t"
proof -
  obtain i t1 w where t1: "InsertWithoutDuplication (Suc (Suc d)) hash t k v = Some (i, hm_map t k = None, t1)"
      "hm_wf hash t1" "i < maxLength t1" "maxLength t1 = grown t"
      "hm_map t1 = (if hm_map t k = None then (hm_map t)(k \<mapsto> v) else hm_map t)"
      "cells t1 ! i = VALID_CELL k w"
    using InsertWithoutDuplication_ok [OF assms] by blast
  show ?thesis
    using t1 overwrite_ok [OF t1(2,3,6) refl, of v]
    by (cases "hm_map t k") (simp_all add: hash_map_insert_def insert_with_def)
qed

lemma hash_map_find_ok:
  assumes "hm_wf hash t"
  shows "hash_map_find hash t k = Some (hm_map t k)"
proof -
  note ok = hm_wfD(1) [OF assms]
  show ?thesis
    using Search_correct [OF ok, of k]
    by (cases "hm_map t k") (auto simp: hash_map_find_def hash_map_end_def cell_item_def)
qed

section \<open>Deletion\<close>

lemma Delete_loop_eq:
  assumes "stop_at hash t k p" "n < p"
  shows "Delete_loop d hash t k (probe hash (maxLength t) k n) n =
    (if search_result hash t k p = maxLength t then Some (False, t)
     else delete_cell d hash t (search_result hash t k p))"
  using assms(2)
proof (induction "p - n" arbitrary: n)
  case (Suc m)
  have len: "0 < maxLength t" using assms(1) by (auto simp: stop_at_def)
  have pl: "probe hash (maxLength t) k p \<noteq> maxLength t" using probe_less [OF len, of hash k p] by simp
  show ?case
  proof (cases "Suc n = p")
    case True
    then have "stops hash t k (Suc n)" using assms(1) by (simp add: stop_at_def)
    then show ?thesis
      using True len pl
      by (cases rule: stop_cases) (simp_all add: Delete_loop.simps [of d hash t k] probe_Suc
          search_result_def)
  next
    case False
    with Suc have n: "Suc n < p" "m = p - Suc n" by auto
    then have ns: "\<not> stops hash t k (Suc n)" and less: "Suc n < maxLength t"
      using assms(1) by (auto simp: stop_at_def)
    from Suc.hyps(1) [OF n(2,1)] ns less len show ?thesis
      by (cases rule: no_stop_cases [OF ns])
         (simp_all add: Delete_loop.simps [of d hash t k _ n] probe_Suc Let_def)
  qed
qed simp

lemma Delete_eq:
  assumes "stop_at hash t k p" "0 \<le> hash k"
  shows "Delete d hash t k =
    (if search_result hash t k p = maxLength t then Some (False, t)
     else delete_cell d hash t (search_result hash t k p))"
proof (cases p)
  case 0
  then have st: "stops hash t k 0" "0 < maxLength t" using assms by (auto simp: stop_at_def)
  then have "probe hash (maxLength t) k 0 \<noteq> maxLength t"
    using probe_less [of "maxLength t" hash k 0] by simp
  then show ?thesis
    using 0 by (cases rule: stop_cases [OF st(1)]) (simp_all add: Delete_def probe_0 search_result_def)
next
  case (Suc p')
  then have ns: "\<not> stops hash t k 0" using assms by (simp add: stop_at_def)
  show ?thesis
    using Delete_loop_eq [OF assms(1), of 0 d] Suc assms(2)
    by (cases rule: no_stop_cases [OF ns]) (simp_all add: Delete_def probe_0 SecondHashValue_def Let_def)
qed

lemma delete_cell_ok:
  assumes "hm_wf hash t" "maxLength t < 2 ^ 30" "i < maxLength t" "cells t ! i = VALID_CELL k v"
  shows "\<exists>t'. delete_cell (Suc d) hash t i = Some (True, t') \<and> hm_wf hash t' \<and>
           hm_map t' = (hm_map t)(k := None) \<and> maxLength t' = maxLength t"
proof -
  note wf = hm_wfD [OF assms(1)] and ok = table_okD [OF hm_wfD(1) [OF assms(1)]]
  let ?cs = "(cells t)[i := DELETED_CELL]"
  let ?t = "t\<lparr>cells := ?cs, currentLength := currentLength t - 1,
              numDeletedCells := numDeletedCells t + 1\<rparr>"
  have il: "i < length (cells t)" using assms(3) ok(2) by simp
  have rem: "mset ((k, v) # cell_items ?cs) = mset (cell_items (cells t))"
    using cell_items_remove [OF il assms(4), of DELETED_CELL] by simp
  then have "mset (k # cell_keys ?cs) = mset (cell_keys (cells t))"
    by (metis cell_keys_def list.simps(9) mset_map fst_conv)
  then have dist: "distinct (k # cell_keys ?cs)" using ok(4) by (metis mset_eq_imp_distinct_iff)
  have "map_of (cell_items (cells t)) = (map_of (cell_items ?cs))(k \<mapsto> v)"
    using map_of_mset [OF rem [symmetric]] ok(4) by (simp add: cell_keys_def)
  moreover have "map_of (cell_items ?cs) k = None"
    using dist by (simp add: cell_keys_def map_of_eq_None_iff)
  ultimately have map: "map_of (cell_items ?cs) = (hm_map t)(k := None)"
    by (auto simp: hm_map_def fun_eq_iff)
  have counts: "Suc (n_valid ?cs) = n_valid (cells t)" "n_deleted ?cs = Suc (n_deleted (cells t))"
    using n_valid_update [OF il, of DELETED_CELL] n_deleted_update [OF il, of DELETED_CELL] assms(4)
    by auto
  have path: "on_probe_path hash ?t k' j" if "j < maxLength t" "?cs ! j = VALID_CELL k' v'" for j k' v'
  proof -
    have "cells t ! j = VALID_CELL k' v'" using that il by (cases "j = i") auto
    then have "on_probe_path hash t k' j" using that(1) wf(1) by (auto simp: table_ok_def)
    then show ?thesis by (rule path_kept) (use ok(1) il in \<open>auto simp: nth_list_update\<close>)
  qed
  have tok: "table_ok hash ?t" using wf(1) counts dist path by (auto simp: table_ok_def)
  have eq: "delete_cell (Suc d) hash t i =
      (if numDeletedCells t + 1 \<ge> maxLength t div 2
       then map_option (Pair True) (Resize (Suc d) hash (maxLength t) ?t) else Some (True, ?t))"
    using wf(3) by (simp add: delete_cell_def IncrementNumDeletedCells_def Let_def map_conv_bind_option comp_def)
  show ?thesis
  proof (cases "numDeletedCells t + 1 \<ge> maxLength t div 2")
    case False
    have "hm_wf hash ?t" using tok wf(2,3,4) counts False by (auto simp: hm_wf_def)
    then show ?thesis using eq False map by (auto simp: hm_map_def)
  next
    case True
    obtain n where n: "maxLength t = 2 ^ n" using wf(6) by blast
    have n31: "n \<le> 31" using power_bound [OF n assms(2)] by simp
    have small: "n_valid (cells ?t) \<le> 2 ^ n div 2" "n_valid (cells ?t) < 2 ^ n"
      using counts(1) wf(4,7) n by auto
    obtain t' where "Resize (Suc d) hash (2 ^ n) ?t = Some t'" "hm_wf hash t'" "hm_map t' = hm_map ?t"
        "maxLength t' = 2 ^ n"
      using Resize_ok [of ?t n d hash] table_okD [OF tok] n31 small wf(3) n by auto
    then show ?thesis using eq True map n by (auto simp: hm_map_def)
  qed
qed

lemma Delete_ok:
  assumes "hm_wf hash t" "maxLength t < 2 ^ 30" "0 \<le> hash k"
  shows "\<exists>t'. Delete (Suc d) hash t k = Some (hm_map t k \<noteq> None, t') \<and> hm_wf hash t' \<and>
           hm_map t' = (hm_map t)(k := None) \<and> maxLength t' = maxLength t"
proof -
  note tok = hm_wfD(1) [OF assms(1)]
  obtain p where p: "stop_at hash t k p" using stop_exists [OF tok] by blast
  then have st: "stops hash t k p" by (simp add: stop_at_def)
  have pl: "probe hash (maxLength t) k p < maxLength t" by (rule probe_less [OF table_okD(1) [OF tok]])
  from st show ?thesis
  proof (cases rule: stop_cases)
    case empty: 1
    then have "hm_map t k = None" by (rule stop_empty [OF tok p])
    then show ?thesis
      using Delete_eq [OF p assms(3), of "Suc d"] empty assms(1)
      by (simp add: search_result_def fun_upd_idem)
  next
    case found: (2 v)
    then show ?thesis
      using Delete_eq [OF p assms(3), of "Suc d"] stop_valid [OF tok found] pl
        delete_cell_ok [OF assms(1,2) pl found, of d]
      by (auto simp: search_result_def)
  qed
qed

section \<open>Iteration\<close>

lemma skip_invalid_items:
  assumes "length (cells t) = maxLength t" "i \<le> maxLength t"
  shows "i \<le> skip_invalid t i \<and> skip_invalid t i \<le> maxLength t \<and>
         cell_items (drop (skip_invalid t i) (cells t)) = cell_items (drop i (cells t)) \<and>
         (skip_invalid t i < maxLength t \<longrightarrow> is_valid (cells t ! skip_invalid t i))"
  using assms(2)
proof (induction "maxLength t - i" arbitrary: i)
  case 0
  then show ?case by (simp add: skip_invalid.simps)
next
  case (Suc d)
  then have i: "i < length (cells t)" "Suc i \<le> maxLength t" "d = maxLength t - Suc i"
    using assms(1) by auto
  have dr: "drop i (cells t) = cells t ! i # drop (Suc i) (cells t)" using i by (simp add: Cons_nth_drop_Suc)
  show ?case
  proof (cases "cells t ! i")
    case (VALID_CELL k v)
    then show ?thesis using i by (simp add: skip_invalid.simps [of t i])
  qed (use Suc.hyps(1) [OF i(3,2)] i dr in \<open>auto simp: skip_invalid.simps [of t i]\<close>)
qed

declare for_each_from.simps [simp del]

lemma for_each_from_eq:
  assumes "length (cells t) = maxLength t" "i \<le> maxLength t"
  shows "for_each_from t i = cell_items (drop i (cells t))"
  using assms(2)
proof (induction "maxLength t - i" arbitrary: i rule: less_induct)
  case less
  let ?j = "skip_invalid t i"
  note sk = skip_invalid_items [OF assms(1) less.prems]
  show ?case
  proof (cases "?j < maxLength t")
    case False
    then have "?j = maxLength t" using sk by simp
    then have "cell_items (drop i (cells t)) = []" using sk assms(1) by auto
    then show ?thesis using False by (simp add: for_each_from.simps [of t i])
  next
    case True
    then obtain k v where c: "cells t ! ?j = VALID_CELL k v" using sk by (cases "cells t ! ?j") auto
    let ?j' = "skip_invalid t (Suc ?j)"
    have sj: "Suc ?j \<le> maxLength t" using True by simp
    note sk' = skip_invalid_items [OF assms(1) sj]
    have "drop ?j (cells t) = VALID_CELL k v # drop (Suc ?j) (cells t)"
      using True assms(1) c by (metis Cons_nth_drop_Suc)
    then have items: "cell_items (drop i (cells t)) = (k, v) # cell_items (drop ?j' (cells t))"
      using sk sk' by (metis cell_items.simps(2))
    have less': "maxLength t - ?j' < maxLength t - i" "?j' \<le> maxLength t" "i < ?j'" using sk sk' True by auto
    have "iterator_postfix t i = (?j', Some (k, v))"
      using True c by (simp add: iterator_postfix_def cell_item_def Let_def)
    then show ?thesis
      using True items less.hyps [OF less'(1,2)] less'(3) by (simp add: for_each_from.simps [of t i])
  qed
qed

lemma for_each_eq:
  assumes "hm_wf hash t"
  shows "for_each t = cell_items (cells t)"
proof -
  note ok = table_okD [OF hm_wfD(1) [OF assms]]
  show ?thesis
  proof (cases "currentLength t = 0")
    case True
    then have "cell_items (cells t) = []" using ok(3) cell_items_length [of "cells t"] by simp
    then show ?thesis
      using True ok(2) for_each_from_eq [OF ok(2), of "maxLength t"]
      by (simp add: for_each_def hash_map_begin_def hash_map_end_def)
  next
    case False
    then show ?thesis
      using for_each_from_eq [OF ok(2), of 0] by (simp add: for_each_def hash_map_begin_def)
  qed
qed

section \<open>The interface of the clients\<close>

text \<open>
  What the classes that keep a \<open>my_hash_map\<close> rely on. \<open>room\<close> is the bound on the size under
  which an insertion may be made.
\<close>

locale finite_map =
  fixes inv :: "'t \<Rightarrow> bool"
    and abs :: "'t \<Rightarrow> 'k \<Rightarrow> 'v option"
    and room :: "'t \<Rightarrow> bool"
    and key_ok :: "'k \<Rightarrow> bool"
    and find :: "'t \<Rightarrow> 'k \<Rightarrow> 'v option option"
    and ins :: "'t \<Rightarrow> 'k \<Rightarrow> 'v \<Rightarrow> 't option"
    and del :: "'t \<Rightarrow> 'k \<Rightarrow> (bool \<times> 't) option"
  assumes find_law: "inv t \<Longrightarrow> find t k = Some (abs t k)"
    and ins_law: "inv t \<Longrightarrow> room t \<Longrightarrow> \<exists>t'. ins t k v = Some t' \<and> inv t' \<and> abs t' = (abs t)(k \<mapsto> v)"
    and del_law: "inv t \<Longrightarrow> room t \<Longrightarrow> key_ok k \<Longrightarrow>
      \<exists>t'. del t k = Some (abs t k \<noteq> None, t') \<and> inv t' \<and> room t' \<and> abs t' = (abs t)(k := None)"
begin

lemma ins_find:
  assumes "inv t" "room t"
  shows "\<exists>t'. ins t k v = Some t' \<and> inv t' \<and> (\<forall>k'. find t' k' = (if k' = k then Some (Some v) else find t k'))"
  using ins_law [OF assms, of k v] find_law assms(1) by fastforce

lemma del_find:
  assumes "inv t" "room t" "key_ok k"
  shows "\<exists>b t'. del t k = Some (b, t') \<and> inv t' \<and> room t' \<and> (b \<longleftrightarrow> find t k \<noteq> Some None) \<and>
           (\<forall>k'. find t' k' = (if k' = k then Some None else find t k'))"
  using del_law [OF assms] find_law assms(1) by fastforce

end

interpretation hm: finite_map "hm_wf hash" hm_map "\<lambda>t. maxLength t < 2 ^ 30" "\<lambda>k. 0 \<le> hash k"
    "hash_map_find hash" "hash_map_insert (Suc (Suc d)) hash" "Delete (Suc d) hash" for hash d
proof unfold_locales
  show "hm_wf hash t \<Longrightarrow> hash_map_find hash t k = Some (hm_map t k)" for t k
    by (rule hash_map_find_ok)
  show "hm_wf hash t \<Longrightarrow> maxLength t < 2 ^ 30 \<Longrightarrow> \<exists>t'. hash_map_insert (Suc (Suc d)) hash t k v = Some t' \<and>
      hm_wf hash t' \<and> hm_map t' = (hm_map t)(k \<mapsto> v)" for t k v
    using hash_map_insert_ok by fast
  show "hm_wf hash t \<Longrightarrow> maxLength t < 2 ^ 30 \<Longrightarrow> 0 \<le> hash k \<Longrightarrow>
      \<exists>t'. Delete (Suc d) hash t k = Some (hm_map t k \<noteq> None, t') \<and> hm_wf hash t' \<and>
        maxLength t' < 2 ^ 30 \<and> hm_map t' = (hm_map t)(k := None)" for t k
    using Delete_ok by fastforce
qed

section \<open>Runs of operations\<close>

text \<open>
  The abstract state is the map and the size of the table, which doubles when an insertion finds
  the table half full.
\<close>

datatype ('k, 'v) hm_op = HmInsert 'k 'v | HmInsertNew 'k 'v | HmFind 'k | HmDelete 'k | HmClear

datatype 'v hm_out = HmDone | HmFlag bool | HmValue "'v option"

fun hm_exec ::
  "nat \<Rightarrow> ('k \<Rightarrow> int) \<Rightarrow> ('k, 'v) hm_op \<Rightarrow> ('k, 'v) my_hash_map \<Rightarrow> ('v hm_out \<times> ('k, 'v) my_hash_map) option" where
  "hm_exec d hash (HmInsert k v) t = map_option (Pair HmDone) (hash_map_insert d hash t k v)"
| "hm_exec d hash (HmInsertNew k v) t =
     map_option (\<lambda>(i, didInsert, t'). (HmFlag didInsert, t')) (InsertWithoutDuplication d hash t k v)"
| "hm_exec d hash (HmFind k) t = map_option (\<lambda>r. (HmValue r, t)) (hash_map_find hash t k)"
| "hm_exec d hash (HmDelete k) t = map_option (\<lambda>(b, t'). (HmFlag b, t')) (Delete d hash t k)"
| "hm_exec d hash HmClear t = Some (HmDone, hash_map_clear t)"

definition spec_grow :: "('k \<Rightarrow> 'v option) \<Rightarrow> nat \<Rightarrow> nat" where
  "spec_grow m len = (if card (dom m) \<ge> len div 2 then 2 * len else len)"

fun hm_spec ::
  "('k, 'v) hm_op \<Rightarrow> ('k \<Rightarrow> 'v option) \<times> nat \<Rightarrow> 'v hm_out \<times> ('k \<Rightarrow> 'v option) \<times> nat" where
  "hm_spec (HmInsert k v) (m, len) = (HmDone, m(k \<mapsto> v), spec_grow m len)"
| "hm_spec (HmInsertNew k v) (m, len) =
     (HmFlag (m k = None), if m k = None then m(k \<mapsto> v) else m, spec_grow m len)"
| "hm_spec (HmFind k) (m, len) = (HmValue (m k), m, len)"
| "hm_spec (HmDelete k) (m, len) = (HmFlag (m k \<noteq> None), m(k := None), len)"
| "hm_spec HmClear (m, len) = (HmDone, Map.empty, len)"

fun hm_ok :: "('k \<Rightarrow> int) \<Rightarrow> ('k, 'v) hm_op \<Rightarrow> ('k \<Rightarrow> 'v option) \<times> nat \<Rightarrow> bool" where
  "hm_ok hash (HmDelete k) (m, len) = (0 \<le> hash k \<and> len < 2 ^ 30)"
| "hm_ok hash p (m, len) = (len < 2 ^ 30)"

definition hm_rel :: "('k \<Rightarrow> int) \<Rightarrow> ('k, 'v) my_hash_map \<Rightarrow> ('k \<Rightarrow> 'v option) \<times> nat \<Rightarrow> bool" where
  "hm_rel hash t a \<longleftrightarrow> hm_wf hash t \<and> hm_map t = fst a \<and> maxLength t = snd a"

lemma card_dom_map:
  assumes "hm_wf hash t"
  shows "card (dom (hm_map t)) = currentLength t"
proof -
  note ok = table_okD [OF hm_wfD(1) [OF assms]]
  have "dom (hm_map t) = set (cell_keys (cells t))"
    by (simp add: hm_map_def cell_keys_def dom_map_of_conv_image_fst)
  then show ?thesis
    using ok(3,4) distinct_card [of "cell_keys (cells t)"] cell_items_length [of "cells t"]
    by (simp add: cell_keys_def)
qed

lemma hm_step:
  assumes "hm_rel hash t a" "hm_ok hash p a"
  shows "\<exists>t'. hm_exec (Suc (Suc d)) hash p t = Some (fst (hm_spec p a), t') \<and>
           hm_rel hash t' (snd (hm_spec p a))"
proof -
  obtain m len where a: "a = (m, len)" by (cases a)
  have wf: "hm_wf hash t" "hm_map t = m" "maxLength t = len" using assms(1) a by (auto simp: hm_rel_def)
  have grow: "grown t = spec_grow m len"
    using card_dom_map [OF wf(1)] wf(2,3) by (simp add: grown_def spec_grow_def)
  show ?thesis
  proof (cases p)
    case (HmInsert k v)
    then show ?thesis
      using hash_map_insert_ok [OF wf(1), of d k v] assms(2) a wf grow by (auto simp: hm_rel_def)
  next
    case (HmInsertNew k v)
    then show ?thesis
      using InsertWithoutDuplication_ok [OF wf(1), of d k v] assms(2) a wf grow by (auto simp: hm_rel_def)
  next
    case (HmFind k)
    then show ?thesis using hash_map_find_ok [OF wf(1), of k] a wf by (auto simp: hm_rel_def)
  next
    case (HmDelete k)
    then show ?thesis
      using Delete_ok [OF wf(1), of k "Suc d"] assms(2) a wf by (auto simp: hm_rel_def)
  next
    case HmClear
    then show ?thesis using hash_map_clear_ok [OF wf(1)] a wf by (auto simp: hm_rel_def)
  qed
qed

interpretation hm_run: simulation "hm_exec (Suc (Suc d)) hash" hm_spec "hm_rel hash" "hm_ok hash"
  for d hash
  by unfold_locales (rule hm_step)

end
