(* ===== verification/HashMapProps.thy ===== *)
theory HashMapProps
  imports HashMapUse
begin

text \<open>
  The properties of \<open>my_hash_map\<close>, each with a witness at a concrete table, and the calls on
  which the code aborts.
\<close>

section \<open>Correctness\<close>


definition sample_hash :: "int \<Rightarrow> int" where
  "sample_hash k = k"

definition sample_table :: "(int, char) my_hash_map" where
  "sample_table = the (hash_map_ctor 3)"

lemma sample_table_ctor:
  "hash_map_ctor 3 = Some sample_table" "maxLength sample_table = 4" "hm_wf sample_hash sample_table"
proof -
  have r: "RoundUpToPowerOfTwo 3 = Some 4"
    using RoundUpToPowerOfTwo_eq [of 2 3] by simp
  show "hash_map_ctor 3 = Some sample_table" "maxLength sample_table = 4"
    using r by (simp_all add: sample_table_def hash_map_ctor_def)
  then show "hm_wf sample_hash sample_table"
    using hash_map_ctor_ok [of 3 sample_hash, where ?'b = char] by auto
qed


text \<open>\<open>Search\<close> returns on every well formed table: the cell of the key when it is there,
  \<open>end ()\<close> when it is not.\<close>

theorem Search_total:
  assumes "hm_wf hash t"
  shows "case hm_map t k of
           None \<Rightarrow> Search hash t k = Some (maxLength t)
         | Some v \<Rightarrow> \<exists>i<maxLength t. Search hash t k = Some i \<and> cells t ! i = VALID_CELL k v"
  by (rule Search_correct [OF hm_wfD(1) [OF assms]])

theorem Search_total_witness: "Search sample_hash sample_table 7 = Some 4"
proof -
  have "hm_map sample_table 7 = None"
    using hash_map_ctor_ok [of 3 sample_hash, where ?'b = char] sample_table_ctor(1) by auto
  then show ?thesis using Search_total [OF sample_table_ctor(3), of 7] sample_table_ctor(2) by simp
qed

text \<open>The probe sequence of every key visits every cell of a power-of-two table within one
  round, because the second hash value is odd.\<close>

theorem probe_sequence_covers:
  assumes "i < 2 ^ n"
  shows "\<exists>j<2 ^ n. (next_location hash (2 ^ n) k ^^ j) (first_location hash (2 ^ n) k) = i"
proof -
  have "(next_location hash (2 ^ n) k ^^ j) (first_location hash (2 ^ n) k) = probe hash (2 ^ n) k j" for j
    by (induction j) (simp_all add: probe_0 probe_Suc)
  then show ?thesis using probe_surj [OF assms] by simp
qed

theorem probe_sequence_covers_witness:
  "\<exists>j<2 ^ 3. (next_location sample_hash (2 ^ 3) 6 ^^ j) (first_location sample_hash (2 ^ 3) 6) = 5"
  using probe_sequence_covers [of 5 3 sample_hash 6] by simp

text \<open>\<open>RoundUpToPowerOfTwo\<close> gives the least power of two that is large enough up to
  \<open>2 ^ 31\<close>; above, its 32 bit counter wraps to 0 and the loop does not return.\<close>

lemma RoundUp_loop_Some:
  "RoundUp_loop x r = Some y \<Longrightarrow> (\<exists>k\<le>31. r = 2 ^ k) \<or> r = 0 \<Longrightarrow> x \<le> 2 ^ 31"
proof -
  assume "RoundUp_loop x r = Some y"
  then have "(\<exists>k\<le>31. r = 2 ^ k) \<or> r = 0 \<longrightarrow> x \<le> 2 ^ 31"
  proof (rule RoundUp_loop.raw_induct
      [where P = "\<lambda>x r y. (\<exists>k\<le>31. r = 2 ^ k) \<or> r = 0 \<longrightarrow> x \<le> 2 ^ 31" and xa = "(x, r)",
        unfolded prod.case, rotated])
    fix f :: "nat \<Rightarrow> nat \<Rightarrow> nat option" and x r y
    assume IH: "\<And>x r y. f x r = Some y \<Longrightarrow> (\<exists>k\<le>31. r = 2 ^ k) \<or> r = 0 \<longrightarrow> x \<le> 2 ^ 31"
      and body: "(if r < x then f x (r * 2 mod 2 ^ 32) else Some r) = Some y"
    show "(\<exists>k\<le>31. r = 2 ^ k) \<or> r = 0 \<longrightarrow> x \<le> 2 ^ 31"
    proof
      assume r: "(\<exists>k\<le>31. r = 2 ^ k) \<or> r = 0"
      have "(2::nat) ^ k \<le> 2 ^ 31" if "k \<le> 31" for k using that by (rule power_increasing) simp
      then have r31: "r \<le> 2 ^ 31" using r by (metis zero_le)
      have wraps: "(\<exists>k\<le>31. r * 2 mod 2 ^ 32 = 2 ^ k) \<or> r * 2 mod 2 ^ 32 = (0::nat)"
      proof (cases "\<exists>k<31. r = 2 ^ k")
        case True
        then obtain k where k: "k < 31" "r = 2 ^ k" by blast
        have "(2::nat) ^ Suc k < 2 ^ 32" using k(1) by (intro power_strict_increasing) auto
        then have "r * 2 mod 2 ^ 32 = 2 ^ Suc k" using k(2) by simp
        then show ?thesis using k(1) by (intro disjI1 exI [of _ "Suc k"]) simp
      next
        case False
        then have "r = 2 ^ 31 \<or> r = 0" using r by (metis le_neq_implies_less)
        then show ?thesis by auto
      qed
      show "x \<le> 2 ^ 31"
      proof (cases "r < x")
        case True
        then have "f x (r * 2 mod 2 ^ 32) = Some y" using body by simp
        from IH [OF this] wraps show ?thesis by blast
      qed (use r31 in simp)
    qed
  qed
  then show "(\<exists>k\<le>31. r = 2 ^ k) \<or> r = 0 \<Longrightarrow> x \<le> 2 ^ 31" by simp
qed

theorem RoundUpToPowerOfTwo_range:
  "(x \<le> 2 ^ 31 \<longrightarrow> (\<exists>n\<le>31. RoundUpToPowerOfTwo x = Some (2 ^ n) \<and> x \<le> 2 ^ n \<and> (\<forall>m. x \<le> 2 ^ m \<longrightarrow> n \<le> m)))
   \<and> (x > 2 ^ 31 \<longrightarrow> RoundUpToPowerOfTwo x = None)"
proof -
  have "RoundUpToPowerOfTwo x = None" if "x > 2 ^ 31"
  proof (cases "RoundUpToPowerOfTwo x")
    case (Some y)
    moreover have "\<exists>k\<le>31. (1::nat) = 2 ^ k" by (rule exI [of _ 0]) simp
    ultimately have "x \<le> 2 ^ 31"
      using RoundUp_loop_Some [of x 1 y] by (simp add: RoundUpToPowerOfTwo_def)
    then show ?thesis using that by simp
  qed
  then show ?thesis using RoundUpToPowerOfTwo_least [of x] by blast
qed

theorem RoundUpToPowerOfTwo_range_witness:
  "(\<exists>n\<le>31. RoundUpToPowerOfTwo 100 = Some (2 ^ n)) \<and> RoundUpToPowerOfTwo (2 ^ 31 + 1) = None"
  using RoundUpToPowerOfTwo_range [of 100] RoundUpToPowerOfTwo_range [of "2 ^ 31 + 1"] by auto

text \<open>The loop from \<open>begin ()\<close> to \<open>end ()\<close> looks at every binding of the map once.\<close>

theorem for_each_bindings:
  assumes "hm_wf hash t"
  shows "distinct (map fst (for_each t)) \<and> map_of (for_each t) = hm_map t \<and>
         length (for_each t) = currentLength t"
  using for_each_eq [OF assms] table_okD(3,4) [OF hm_wfD(1) [OF assms]] cell_items_length [of "cells t"]
  by (simp add: hm_map_def cell_keys_def)

theorem for_each_bindings_witness: "for_each sample_table = []"
proof -
  have "currentLength sample_table = 0"
    using RoundUpToPowerOfTwo_eq [of 2 3] by (simp add: sample_table_def hash_map_ctor_def)
  then show ?thesis using for_each_bindings [OF sample_table_ctor(3)] by simp
qed

text \<open>The string hashers hand a non-negative 32 bit value to \<open>GENERIC_intHASH\<close> for every
  string, as their comment asks.\<close>

theorem BufferHasher_fold_range:
  assumes "0 \<le> r" "r < 2 ^ 31"
  shows "0 \<le> BufferHasher_fold r s \<and> BufferHasher_fold r s < 2 ^ 31"
  using assms
proof (induction r s rule: BufferHasher_fold.induct)
  case (2 r c s)
  let ?i = "int32 (r * 5 + signed_char c)"
  have "?i < 2 ^ 31"
    using pos_mod_bound [of "2 ^ 32" "r * 5 + signed_char c + 2 ^ 31"] by (simp add: int32_def)
  then show ?case using 2 by (simp add: Let_def)
qed simp

theorem BufferHasher_fold_range_witness: "0 \<le> BufferHasher_fold 0 ''a long enough name''"
  using BufferHasher_fold_range [of 0 "''a long enough name''"] by simp

section \<open>Calls that abort\<close>

text \<open>A negative hash value, which \<open>UnsignedLongHasher\<close> computes from keys above the range of
  \<^verbatim>\<open>int\<close>, makes \<open>Delete\<close> abort when the first cell of the key holds another key.\<close>

theorem Delete_negative_hash_aborts:
  assumes "hash k < 0" "cells t ! first_location hash (maxLength t) k = VALID_CELL k' v" "k' \<noteq> k"
  shows "Delete d hash t k = None"
  using assms by (simp add: Delete_def SecondHashValue_def)

definition collision_table :: "(nat, char) my_hash_map" where
  "collision_table = \<lparr>maxLength = 2, currentLength = 1, numDeletedCells = 0,
     maxLengthTIMESresizeRatio = 1, cells = [VALID_CELL 4 CHR ''x'', EMPTY_CELL]\<rparr>"

theorem Delete_negative_hash_aborts_witness:
  "UnsignedLongHasher (\<lambda>i. i) (2 ^ 31) < 0 \<and>
   Delete 2 (UnsignedLongHasher (\<lambda>i. i)) collision_table (2 ^ 31) = None"
  using Delete_negative_hash_aborts [of "UnsignedLongHasher (\<lambda>i. i)" "2 ^ 31" collision_table 4 "CHR ''x''" 2]
  by (simp add: UnsignedLongHasher_def int32_def collision_table_def first_location_def)

text \<open>\<open>Resize\<close> accepts a size that the pairs fill completely; a search for a key that is not
  there then goes round the table and aborts.\<close>

theorem Resize_full_table_search_aborts:
  assumes "length (cells t) = maxLength t" "0 < maxLength t"
    "\<forall>c\<in>set (cells t). \<exists>k' v. c = VALID_CELL k' v \<and> k' \<noteq> k"
  shows "Search hash t k = None"
proof -
  have c: "\<exists>k' v. cells t ! l = VALID_CELL k' v \<and> k' \<noteq> k" if "l < maxLength t" for l
    using that assms(1,3) by simp
  have loop: "Search_loop hash t k l n = None" if "n < maxLength t" for l n
    using that
  proof (induction "maxLength t - n" arbitrary: l n)
    case (Suc m)
    let ?l = "next_location hash (maxLength t) k l"
    have "?l < maxLength t" using assms(2) by (simp add: next_location_def nat_less_iff)
    then obtain k' v where "cells t ! ?l = VALID_CELL k' v" "k' \<noteq> k" using c by blast
    then show ?case using Suc by (cases "Suc n < maxLength t") (simp_all add: Search_loop.simps [of hash t k l n])
  qed simp
  have "first_location hash (maxLength t) k < maxLength t"
    using assms(2) by (simp add: first_location_def nat_less_iff)
  then obtain k' v where "cells t ! first_location hash (maxLength t) k = VALID_CELL k' v" "k' \<noteq> k"
    using c by blast
  then show ?thesis using loop assms(2) by (simp add: Search_def)
qed

definition half_full_table :: "(int, char) my_hash_map" where
  "half_full_table = \<lparr>maxLength = 4, currentLength = 2, numDeletedCells = 0,
     maxLengthTIMESresizeRatio = 2,
     cells = [VALID_CELL 4 CHR ''x'', VALID_CELL 1 CHR ''y'', EMPTY_CELL, EMPTY_CELL]\<rparr>"

theorem Resize_full_table_search_aborts_witness:
  "\<exists>t'. Resize 2 sample_hash 2 half_full_table = Some t' \<and> Search sample_hash t' 3 = None"
proof -
  have "RoundUpToPowerOfTwo 2 = Some 2" using RoundUpToPowerOfTwo_power [of 1] by simp
  then have "Resize 2 sample_hash 2 half_full_table = Some \<lparr>maxLength = 2, currentLength = 2,
      numDeletedCells = 0, maxLengthTIMESresizeRatio = 1,
      cells = [VALID_CELL 4 CHR ''x'', VALID_CELL 1 CHR ''y'']\<rparr>" (is "_ = Some ?t")
    by (simp add: Resize_def Resize_with_def half_full_table_def insert_with_def numeral_2_eq_2
        InsertWithoutDuplication.simps Insert_probe_def AssignToCell_def first_location_def sample_hash_def Let_def)
  moreover have "Search sample_hash ?t 3 = None"
    by (rule Resize_full_table_search_aborts) auto
  ultimately show ?thesis by blast
qed

end
