(* ===== verification/Errors.thy ===== *)
theory Errors
  imports BufferCore
begin

text \<open>
  The error codes of the event, thread, date, scheduler, configuration and balancer libraries that the modelled functions
  return (\<open>*Errors.h\<close>), and their sum: an \<open>Error\<close> value names its library and its code. File
  names, line numbers and messages are not modelled.
\<close>

datatype events_set_error =
    EVSET_ACTIVATION_WRONG
  | EVSET_OPERATION_NOTALLOWED
  | EVSET_EVENT_GETDESTINATION_FAILED
  | EVSET_EVENT_GETEXPIRATIONLOCALDATETIMEINMILLISECS_FAILED
  | EVSET_EVENTSSET_DESTINATIONNOTFOUND
  | EVSET_EVENTSSET_DESTINATIONALREADYADDED
  | EVSET_EVENTSSET_EVENTNOTFOUND
  | EVSET_EVENTSSET_NOEVENTSFOUND
  | EVSET_EVENTSSET_EVENTNOTEXPIREDYET
  | EVSET_EVENTSSET_NOFREEEVENTSALLOCATED
  | EVSET_EVENTSSET_EVENTTYPEOVERCOMENUMBEROFDIFFERENTEVENTTYPES
  | EVSET_EVENTSSET_UNKNOWNEVENTTYPE

datatype thread_error =
    THREADLIB_OPERATIONNOTALLOWED
  | THREADLIB_MUTEX_UNLOCK_FAILED
  | THREADLIB_PMUTEX_INIT_FAILED
  | THREADLIB_PMUTEX_LOCK_FAILED
  | THREADLIB_PMUTEX_UNLOCK_FAILED
  | THREADLIB_COND_TIMEDWAIT_FAILED
  | THREADLIB_PCONDITION_TIMEDWAIT_FAILED
  | THREADLIB_PMUTEX_FINISH_FAILED
  | THREADLIB_PARAMETER_WRONG "char list"
  | THREADLIB_PTHREAD_SETPTHREADNAME_FAILED
  | THREADLIB_CREATE_FAILED
  | THREADLIB_JOIN_FAILED
  | THREADLIB_PTHREAD_INIT_FAILED
  | THREADLIB_PTHREAD_GETSLEEP_FAILED

datatype clock_error =
    TOOLS_DATETIME_GET_TM_LOCALTIME_FAILED
  | TOOLS_DATETIME_NOWUTCINMILLISECS_FAILED
  | TOOLS_DATETIME_NOWLOCALINMILLISECS_FAILED
  | TOOLS_DATETIME_CONVERTFROMUTCTOLOCAL_FAILED
  | TOOLS_DATETIME_CONVERTFROMLOCALTOUTC_FAILED
  | TOOLS_GETTIMEOFDAY_FAILED
  | TOOLS_DATETIME_ADDSECONDS_FAILED
  | TOOLS_DATETIME_ACTIVATION_WRONG

text \<open>The arguments that \<open>SCH_SCHEDULEFIELDRANGE_WRONG\<close> carries are the value and the name of the field.\<close>

datatype scheduler_error =
    SCH_OPERATION_NOTALLOWED
  | SCH_ACTIVATION_WRONG
  | SCH_CALENDARSCHEDULE_WRONG
  | SCH_SCHEDULEFIELDRANGE_WRONG int "char list"
  | SCH_CLASSNAME_TOOLONG
  | SCH_SSCANF_FAILED
  | SCH_LOCALTIME_R_FAILED
  | SCH_REACHED_LASTTIMEOUT
  | SCH_TIMES_ADDSECONDSTODATETIME_FAILED
  | SCH_TIMES_UPDATENEXTPERIODICEXPIRATIONDATETIME_FAILED
  | SCH_TIMES_UPDATENEXTEXPIRATIONDATETIME_FAILED
  | SCH_TIMES_ISSTARTED_FAILED
  | SCH_TIMES_ISEXPIREDTIME_FAILED
  | SCH_TIMES_NOTFOUND
  | SCH_SCHEDULER_HANDLETIMES_FAILED
  | SCH_SCHEDULER_DEACTIVETIMES_FAILED
  | SCH_SCHEDULER_GETTIMESPOINTERINDEX_FAILED
  | SCH_SCHEDULER_TIMESALREADYACTIVE

text \<open>\<open>ConfigurationErrors\<close>, in the groups of its header.\<close>

datatype cfg_item_error =
    CFG_CONFIGURATIONITEM_INIT_FAILED
  | CFG_CONFIGURATIONITEM_APPENDITEMVALUE_FAILED
  | CFG_CONFIGURATIONITEM_INSERTITEMVALUE_FAILED
  | CFG_CONFIGURATIONITEM_GETISCASESENSITIVE_FAILED
  | CFG_CONFIGURATIONITEM_GETITEMNAME_FAILED
  | CFG_CONFIGURATIONITEM_GETITEMNAMELENGTH_FAILED
  | CFG_CONFIGURATIONITEM_MODIFYITEMNAME_FAILED
  | CFG_CONFIGURATIONITEM_GETITEMCOMMENT_FAILED
  | CFG_CONFIGURATIONITEM_GETITEMCOMMENTLENGTH_FAILED
  | CFG_CONFIGURATIONITEM_MODIFYITEMCOMMENT_FAILED
  | CFG_CONFIGURATIONITEM_GETITEMVALUESNUMBER_FAILED
  | CFG_CONFIGURATIONITEM_GETITEMVALUE_FAILED
  | CFG_CONFIGURATIONITEM_GETITEMVALUELENGTH_FAILED
  | CFG_CONFIGURATIONITEM_MODIFYITEMVALUE_FAILED
  | CFG_CONFIGURATIONITEM_FINISH_FAILED
  | CFG_CONFIGURATIONITEM_WRITE_FAILED
  | CFG_CONFIGURATIONITEM_COPY_FAILED
  | CFG_CONFIGURATIONITEM_BUFFERTOOSHORT

datatype cfg_section_error =
    CFG_CONFIGURATIONSECTION_INIT_FAILED
  | CFG_CONFIGURATIONSECTION_APPENDCFGITEM_FAILED
  | CFG_CONFIGURATIONSECTION_GETISCASESENSITIVE_FAILED
  | CFG_CONFIGURATIONSECTION_GETSECTIONNAME_FAILED
  | CFG_CONFIGURATIONSECTION_GETSECTIONNAMELENGTH_FAILED
  | CFG_CONFIGURATIONSECTION_MODIFYSECTIONNAME_FAILED
  | CFG_CONFIGURATIONSECTION_GETSECTIONCOMMENT_FAILED
  | CFG_CONFIGURATIONSECTION_GETSECTIONCOMMENTLENGTH_FAILED
  | CFG_CONFIGURATIONSECTION_MODIFYSECTIONCOMMENT_FAILED
  | CFG_CONFIGURATIONSECTION_GETSECTIONDATE_FAILED
  | CFG_CONFIGURATIONSECTION_MODIFYSECTIONDATE_FAILED
  | CFG_CONFIGURATIONSECTION_GETCFGITEMSNUMBER_FAILED
  | CFG_CONFIGURATIONSECTION_GETCFGITEMBYNAME_FAILED
  | CFG_CONFIGURATIONSECTION_GETPTRCFGITEMBYNAME_FAILED
  | CFG_CONFIGURATIONSECTION_GETCFGITEMBYINDEX_FAILED
  | CFG_CONFIGURATIONSECTION_FINISH_FAILED
  | CFG_CONFIGURATIONSECTION_WRITE_FAILED
  | CFG_CONFIGURATIONSECTION_COPY_FAILED
  | CFG_ITEM_NOTFOUND
  | CFG_CONFIGURATIONSECTIONDATE_NOTFOUND

datatype cfg_config_error =
    CFG_CONFIG_INIT_FAILED
  | CFG_CONFIG_APPENDCFGSECTION_FAILED
  | CFG_CONFIG_GETISCASESENSITIVE_FAILED
  | CFG_CONFIG_GETCONFIGNAME_FAILED
  | CFG_CONFIG_MODIFYCONFIGNAME_FAILED
  | CFG_CONFIG_GETSECTIONSNUMBER_FAILED
  | CFG_CONFIG_GETCFGSECTIONBYINDEX_FAILED
  | CFG_CONFIG_GETCFGSECTIONBYNAME_FAILED
  | CFG_CONFIG_FINISH_FAILED
  | CFG_CONFIG_WRITE_FAILED
  | CFG_CONFIG_COPY_FAILED
  | CFG_SECTION_NOTFOUND

datatype cfg_common_error =
    CFG_ACTIVATION_WRONG
  | CFG_OPERATIONNOTALLOWED
  | CFG_ENCRYPT_FAILED
  | CFG_DECRYPT_FAILED

datatype configuration_file_error =
    CFGFILE_YYPARSER_FAILED
  | CFGFILE_CONFIGURATIONFILE_SAVE_FAILED

datatype load_balancer_error =
    LB_ACTIVATION_WRONG
  | LB_LOADBALANCER_CONFIGITEMTOOLONG
  | LB_LOADBALANCER_MODULESNUMBERNOTCONSISTENT
  | LB_LOADBALANCER_CONFIGITEMSVALUESWRONG
  | LB_LOADBALANCER_SETSHUTDOWN_FAILED
  | LB_LOADBALANCER_GETSHUTDOWN_FAILED
  | LB_LOADBALANCER_CHECKALLDELIVERYMODULES_FAILED
  | LB_LOADBALANCER_MODULESNAMENOTFOUND
  | LB_LOADBALANCER_BUFFERTOOSHORT
  | LB_LOADBALANCER_MODULENOTAVAILABLE
  | LB_HTTPGETTHREAD_RUN_FAILED

datatype file_error =
    TOOLS_FILEIO_WRITECHARS_FAILED
  | TOOLS_FILEIO_OPEN_FAILED
  | TOOLS_FILEIO_LOCKFILE_FAILED
  | TOOLS_FILEIO_SEEK_FAILED
  | TOOLS_FILEIO_READCHARS_FAILED
  | TOOLS_FILEIO_CLOSE_FAILED
  | TOOLS_CLOSE_FAILED

datatype lib_error =
    NoError
  | ToolsErrors tools_error
  | ClockErrors clock_error
  | EventsSetErrors events_set_error
  | PThreadErrors thread_error
  | SchedulerErrors scheduler_error
  | CfgItemErrors cfg_item_error
  | CfgSectionErrors cfg_section_error
  | CfgConfigErrors cfg_config_error
  | CfgErrors cfg_common_error
  | ConfigurationFileErrors configuration_file_error
  | LoadBalancerErrors load_balancer_error
  | FileErrors file_error

end
