(* ===== verification/PMutex.thy ===== *)
theory PMutex
  imports Errors
begin

text \<open>The class \<open>PMutex\<close> of \<open>PThread/src/PMutex.cpp\<close>, as the libraries use it.\<close>

text \<open>
  A recursive mutex is the number of times its holder locked it, \<open>None\<close> when it is not initialised.
  A call that would block is not a step, so that \<open>lock\<close> only fails on the status.
\<close>

type_synonym mutex = "nat option"

definition PMutex_init :: "mutex \<Rightarrow> lib_error \<times> mutex" where
  "PMutex_init m = (if m \<noteq> None then (PThreadErrors THREADLIB_OPERATIONNOTALLOWED, m) else (NoError, Some 0))"

definition PMutex_finish :: "mutex \<Rightarrow> lib_error \<times> mutex" where
  "PMutex_finish m = (if m = None then (PThreadErrors THREADLIB_OPERATIONNOTALLOWED, m) else (NoError, None))"

definition PMutex_lock :: "mutex \<Rightarrow> lib_error \<times> mutex" where
  "PMutex_lock m =
     (case m of None \<Rightarrow> (PThreadErrors THREADLIB_OPERATIONNOTALLOWED, m) | Some d \<Rightarrow> (NoError, Some (Suc d)))"

definition PMutex_unLock :: "mutex \<Rightarrow> lib_error \<times> mutex" where
  "PMutex_unLock m =
     (case m of
        None \<Rightarrow> (PThreadErrors THREADLIB_OPERATIONNOTALLOWED, m)
      | Some 0 \<Rightarrow> (PThreadErrors THREADLIB_MUTEX_UNLOCK_FAILED, m)
      | Some (Suc d) \<Rightarrow> (NoError, Some d))"

lemma PMutex_lock_Some [simp]: "PMutex_lock (Some d) = (NoError, Some (Suc d))"
  by (simp add: PMutex_lock_def)

lemma PMutex_unLock_Suc [simp]: "PMutex_unLock (Some (Suc d)) = (NoError, Some d)"
  by (simp add: PMutex_unLock_def)

lemma PMutex_lock_None [simp]: "PMutex_lock None = (PThreadErrors THREADLIB_OPERATIONNOTALLOWED, None)"
  by (simp add: PMutex_lock_def)

end
