(* ===== verification/CTime.thy ===== *)
theory CTime
  imports Prelude
begin

text \<open>
  The functions of \<open>time.h\<close> and \<open>stdio.h\<close> that the date code calls. Seconds since the epoch and the
  fields of \<open>struct tm\<close> are unbounded integers; the years the sources reach fit their types.

  \<^item> The civil (Gregorian) calendar: \<open>days_of_civil\<close> and its inverse \<open>civil_of_days\<close>.
  \<^item> \<open>gmtime_r\<close>, \<open>timegm\<close>, and for local time a \<open>zone\<close>: the pair of functions that \<open>localtime_r\<close> and
    \<open>mktime\<close> compute with the installed time zone. \<open>fixed_zone\<close> is a zone without daylight saving.
  \<^item> The conversions \<^verbatim>\<open>%0Nlu\<close> of \<open>sprintf\<close> and \<^verbatim>\<open>%Nlu\<close> of \<open>sscanf\<close>, and \<open>atol\<close>.
\<close>

section \<open>The civil calendar\<close>

definition leap :: "int \<Rightarrow> bool" where
  "leap y \<longleftrightarrow> (y mod 4 = 0 \<and> y mod 100 \<noteq> 0) \<or> y mod 400 = 0"

text \<open>Days from 1 January of year 1 to 1 January of year \<open>y\<close>.\<close>

definition days_before_year :: "int \<Rightarrow> int" where
  "days_before_year y = 365 * (y - 1) + (y - 1) div 4 - (y - 1) div 100 + (y - 1) div 400"

text \<open>Months are counted from 0, as in \<open>tm_mon\<close>.\<close>

definition days_in_month :: "int \<Rightarrow> int \<Rightarrow> int" where
  "days_in_month y m =
     (if m = 1 then (if leap y then 29 else 28) else if m \<in> {3, 5, 8, 10} then 30 else 31)"

definition month_offset :: "int \<Rightarrow> int" where
  "month_offset m = [0, 31, 59, 90, 120, 151, 181, 212, 243, 273, 304, 334] ! nat m"

definition days_before_month :: "int \<Rightarrow> int \<Rightarrow> int" where
  "days_before_month y m = month_offset m + (if 2 \<le> m \<and> leap y then 1 else 0)"

text \<open>Days since the epoch; a month outside 0..11 is carried into the year, as \<open>mktime\<close> does.\<close>

definition days_of_civil :: "int \<Rightarrow> int \<Rightarrow> int \<Rightarrow> int" where
  "days_of_civil y m d =
     (let y' = y + m div 12; m' = m mod 12
      in days_before_year y' + days_before_month y' m' + (d - 1) - 719162)"

definition year_of_days :: "int \<Rightarrow> int" where
  "year_of_days n =
     (let k = (n + 719162) * 400 div 146097 + 1
      in if n + 719162 < days_before_year k then k - 1
         else if days_before_year (k + 1) \<le> n + 719162 then k + 1 else k)"

text \<open>The month of the day with index \<open>r\<close> in year \<open>y\<close>.\<close>

definition month_of_day :: "int \<Rightarrow> int \<Rightarrow> int" where
  "month_of_day y r =
     int (length (filter (\<lambda>m. days_before_month y m \<le> r) [1, 2, 3, 4, 5, 6, 7, 8, 9, 10, 11]))"

definition civil_of_days :: "int \<Rightarrow> int \<times> int \<times> int" where
  "civil_of_days n =
     (let y = year_of_days n; r = n + 719162 - days_before_year y; m = month_of_day y r
      in (y, m, r - days_before_month y m + 1))"

lemma div_bounds: "0 < (c::int) \<Longrightarrow> c * (x div c) \<le> x" "0 < (c::int) \<Longrightarrow> x < c * (x div c) + c"
  using pos_mod_sign [of c x] pos_mod_bound [of c x] by (simp_all add: minus_mod_eq_mult_div [symmetric])

lemma year_bounds:
  "146097 * (y - 1) - 700 \<le> 400 * days_before_year y"
  "400 * days_before_year y \<le> 146097 * (y - 1) + 400"
  unfolding days_before_year_def
  using div_bounds [of 4 "y - 1"] div_bounds [of 100 "y - 1"] div_bounds [of 400 "y - 1"] by simp_all

lemma div_pred: "0 < (c::int) \<Longrightarrow> y div c = (y - 1) div c + (if y mod c = 0 then 1 else 0)"
proof (cases "y mod c = 0")
  case True
  assume c: "0 < c"
  have "y = c * (y div c)" using True mult_div_mod_eq [of c y] by linarith
  then have "y - 1 = c * (y div c - 1) + (c - 1)"
    by (simp only: right_diff_distrib mult_1_right)
  from int_div_pos_eq [OF this] have "(y - 1) div c = y div c - 1" using c by simp
  then show ?thesis using True by simp
next
  case False
  assume c: "0 < c"
  then have "0 < y mod c" using False pos_mod_sign [of c y] by linarith
  moreover have "y - 1 = c * (y div c) + (y mod c - 1)" by simp
  moreover have "y mod c - 1 < c" using c pos_mod_bound [of c y] by linarith
  ultimately have "(y - 1) div c = y div c"
    using int_div_pos_eq [of "y - 1" c "y div c" "y mod c - 1"] by simp
  then show ?thesis using False by simp
qed

lemma days_before_year_Suc: "days_before_year (y + 1) = days_before_year y + (if leap y then 366 else 365)"
proof -
  have "y mod 400 = 0 \<Longrightarrow> y mod 100 = 0" "y mod 100 = 0 \<Longrightarrow> y mod 4 = 0"
    by (auto simp: mod_eq_0_iff_dvd intro: dvd_trans [of 100 400] dvd_trans [of 4 100])
  moreover have "days_before_year (y + 1) = days_before_year y + 365 + (if y mod 4 = 0 then 1 else 0)
      - (if y mod 100 = 0 then 1 else 0) + (if y mod 400 = 0 then 1 else 0)"
  proof -
    have eq: "365 * (x + 1) + (p + a) - (q + b) + (r + c) = 365 * x + p - q + r + 365 + a - b + c"
      for x p q r a b c :: int by simp
    have "days_before_year (y + 1) = 365 * ((y - 1) + 1) + y div 4 - y div 100 + y div 400"
      unfolding days_before_year_def by simp
    also have "\<dots> = 365 * ((y - 1) + 1) + ((y - 1) div 4 + (if y mod 4 = 0 then 1 else 0))
        - ((y - 1) div 100 + (if y mod 100 = 0 then 1 else 0))
        + ((y - 1) div 400 + (if y mod 400 = 0 then 1 else 0))"
      by (simp only: div_pred [symmetric] zero_less_numeral)
    finally show ?thesis unfolding days_before_year_def by (simp only: eq)
  qed
  ultimately show ?thesis unfolding leap_def by (simp split: if_splits)
qed

lemma days_before_year_mono: "a \<le> b \<Longrightarrow> days_before_year a \<le> days_before_year b"
proof (induction b rule: int_ge_induct)
  case (step i)
  then show ?case by (simp add: days_before_year_Suc split: if_splits)
qed simp

lemma days_before_year_strict: "a < b \<Longrightarrow> days_before_year a + 365 \<le> days_before_year b"
  using days_before_year_mono [of "a + 1" b] by (simp add: days_before_year_Suc split: if_splits)

lemma year_of_days_bounds:
  "days_before_year (year_of_days n) \<le> n + 719162 \<and> n + 719162 < days_before_year (year_of_days n + 1)"
proof -
  let ?n = "n + 719162"
  define k where "k = ?n * 400 div 146097 + 1"
  have k: "146097 * (k - 1) \<le> 400 * ?n" "400 * ?n < 146097 * (k - 1) + 146097"
    unfolding k_def using div_bounds [of 146097 "?n * 400"] by simp_all
  have "days_before_year (k - 1) \<le> ?n"
    using k year_bounds [of "k - 1"] by simp
  moreover have "?n < days_before_year (k + 1 + 1)"
    using k year_bounds [of "k + 1 + 1"] by simp
  ultimately show ?thesis
    unfolding year_of_days_def Let_def k_def [symmetric] by (auto split: if_splits)
qed

lemma year_of_days_unique:
  assumes "days_before_year y \<le> n + 719162" "n + 719162 < days_before_year (y + 1)"
  shows "year_of_days n = y"
proof (rule antisym)
  show "year_of_days n \<le> y"
    using assms(2) year_of_days_bounds [of n] days_before_year_mono [of "y + 1" "year_of_days n"] by linarith
  show "y \<le> year_of_days n"
    using assms(1) year_of_days_bounds [of n] days_before_year_mono [of "year_of_days n + 1" y] by linarith
qed

lemma month_cases:
  assumes "0 \<le> m" "m < 12"
  shows "m \<in> {0, 1, 2, 3, 4, 5, 6, 7, 8, 9, 10, 11 :: int}"
proof -
  have "m = 0 \<or> m = 1 \<or> m = 2 \<or> m = 3 \<or> m = 4 \<or> m = 5 \<or> m = 6 \<or> m = 7 \<or> m = 8 \<or> m = 9 \<or>
      m = 10 \<or> m = 11"
    using assms by presburger
  then show ?thesis by auto
qed

lemma days_before_month_0 [simp]: "days_before_month y 0 = 0"
  by (simp add: days_before_month_def month_offset_def)

lemma days_before_month_Suc:
  assumes "0 \<le> m" "m < 11"
  shows "days_before_month y (m + 1) = days_before_month y m + days_in_month y m"
  using month_cases [of m] assms
  by (auto simp: days_before_month_def month_offset_def days_in_month_def)

lemma days_in_year: "days_before_month y 11 + days_in_month y 11 = (if leap y then 366 else 365)"
  by (simp add: days_before_month_def month_offset_def days_in_month_def)

lemma days_in_month_bounds: "28 \<le> days_in_month y m" "days_in_month y m \<le> 31"
  by (simp_all add: days_in_month_def)

lemma days_before_month_nonneg: "0 \<le> m \<Longrightarrow> m < 12 \<Longrightarrow> 0 \<le> days_before_month y m"
  using month_cases [of m] by (auto simp: days_before_month_def month_offset_def)

lemma day_of_year_bound:
  assumes "0 \<le> m" "m < 12"
  shows "days_before_month y m + days_in_month y m \<le> (if leap y then 366 else 365)"
  using month_cases [OF assms] by (auto simp: days_before_month_def month_offset_def days_in_month_def)

lemma month_of_day_unique:
  assumes "0 \<le> m" "m < 12" "days_before_month y m \<le> r" "r < days_before_month y m + days_in_month y m"
  shows "month_of_day y r = m"
  using month_cases [OF assms(1,2)] assms(3,4)
  by (elim insertE emptyE)
    (auto simp: month_of_day_def days_before_month_def month_offset_def days_in_month_def split: if_splits)

lemma month_of_day_bounds:
  assumes "0 \<le> r" "r < (if leap y then 366 else 365)"
  shows "0 \<le> month_of_day y r \<and> month_of_day y r < 12 \<and> days_before_month y (month_of_day y r) \<le> r \<and>
    r < days_before_month y (month_of_day y r) + days_in_month y (month_of_day y r)"
proof -
  let ?m = "Max {m \<in> {0..11}. days_before_month y m \<le> r}"
  let ?S = "{m \<in> {0..11}. days_before_month y m \<le> r}"
  have f: "finite ?S" by (rule finite_subset [of _ "{0..11}"]) auto
  have "0 \<in> ?S" using assms(1) by simp
  then have ne: "?S \<noteq> {}" by blast
  have m: "0 \<le> ?m" "?m < 12" "days_before_month y ?m \<le> r" using Max_in [OF f ne] by auto
  have "r < days_before_month y ?m + days_in_month y ?m"
  proof (cases "?m = 11")
    case True
    then show ?thesis using assms(2) days_in_year [of y] by simp
  next
    case False
    then have lt: "?m < 11" using m by simp
    have "\<not> days_before_month y (?m + 1) \<le> r"
    proof
      assume "days_before_month y (?m + 1) \<le> r"
      then have "?m + 1 \<in> ?S" using m lt by simp
      then have "?m + 1 \<le> ?m" by (rule Max_ge [OF f])
      then show False by simp
    qed
    then show ?thesis using days_before_month_Suc [OF m(1) lt] by simp
  qed
  then show ?thesis using month_of_day_unique m by simp
qed

text \<open>The two conversions are inverse to each other.\<close>

lemma civil_of_days_of_civil:
  assumes "0 \<le> m" "m < 12" "1 \<le> d" "d \<le> days_in_month y m"
  shows "civil_of_days (days_of_civil y m d) = (y, m, d)"
proof -
  let ?n = "days_of_civil y m d"
  have n: "?n + 719162 = days_before_year y + (days_before_month y m + (d - 1))"
    using assms by (simp add: days_of_civil_def)
  have r: "0 \<le> days_before_month y m + (d - 1)" "days_before_month y m + (d - 1) < (if leap y then 366 else 365)"
    using assms days_before_month_nonneg [of m y] day_of_year_bound [of m y] by linarith+
  have y: "year_of_days ?n = y"
    using n r by (intro year_of_days_unique) (simp_all add: days_before_year_Suc)
  have "month_of_day y (days_before_month y m + (d - 1)) = m"
    using assms by (intro month_of_day_unique) auto
  then show ?thesis by (simp add: civil_of_days_def y n Let_def)
qed

lemma civil_of_days_valid:
  assumes "civil_of_days n = (y, m, d)"
  shows "0 \<le> m" "m < 12" "1 \<le> d" "d \<le> days_in_month y m" "days_of_civil y m d = n"
proof -
  let ?y = "year_of_days n"
  let ?r = "n + 719162 - days_before_year ?y"
  have r: "0 \<le> ?r" "?r < (if leap ?y then 366 else 365)"
    using year_of_days_bounds [of n] days_before_year_Suc [of ?y] by simp_all
  have eqs: "y = ?y" "m = month_of_day ?y ?r" "d = ?r - days_before_month ?y m + 1"
    using assms by (auto simp: civil_of_days_def Let_def)
  show "0 \<le> m" "m < 12" "1 \<le> d" "d \<le> days_in_month y m" "days_of_civil y m d = n"
    using month_of_day_bounds [OF r] eqs by (simp_all add: days_of_civil_def)
qed

lemma days_of_civil_of_days: "(case civil_of_days n of (y, m, d) \<Rightarrow> days_of_civil y m d) = n"
  by (cases "civil_of_days n") (simp add: civil_of_days_valid)

section \<open>Broken-down time\<close>

record tm =
  tm_year :: int
  tm_mon :: int
  tm_mday :: int
  tm_hour :: int
  tm_min :: int
  tm_sec :: int
  tm_wday :: int
  tm_isdst :: int

definition gmtime_r :: "int \<Rightarrow> tm" where
  "gmtime_r t =
     (let n = t div 86400; (y, m, d) = civil_of_days n
      in \<lparr>tm_year = y - 1900, tm_mon = m, tm_mday = d, tm_hour = t div 3600 mod 24, tm_min = t div 60 mod 60,
          tm_sec = t mod 60, tm_wday = (n + 4) mod 7, tm_isdst = 0\<rparr>)"

definition timegm :: "tm \<Rightarrow> int" where
  "timegm x = days_of_civil (tm_year x + 1900) (tm_mon x) (tm_mday x) * 86400 +
     tm_hour x * 3600 + tm_min x * 60 + tm_sec x"

text \<open>
  What \<open>localtime_r\<close> and \<open>mktime\<close> compute in the installed time zone; \<open>None\<close> is the failure of
  \<open>localtime_r\<close>. The zone is an argument of the operations that use it.
\<close>

record zone =
  localtime_r :: "int \<Rightarrow> tm option"
  mktime :: "tm \<Rightarrow> int"

text \<open>
  A zone without daylight saving, \<open>off\<close> seconds east of UTC. What \<open>mktime\<close> makes of a positive
  \<open>tm_isdst\<close> is not the same in all C libraries there: it subtracts \<open>shift\<close> (0 or 3600).
\<close>

definition fixed_zone :: "int \<Rightarrow> int \<Rightarrow> zone" where
  "fixed_zone off shift =
     \<lparr>localtime_r = (\<lambda>t. Some (gmtime_r (t + off))),
      mktime = (\<lambda>x. timegm x - off - (if 0 < tm_isdst x then shift else 0))\<rparr>"

lemma div_of_seconds: "t = t div 86400 * 86400 + t div 3600 mod 24 * 3600 + t div 60 mod 60 * 60 + t mod (60::int)"
proof -
  have compose: "t = p * 60 + s \<Longrightarrow> p = h * 60 + m \<Longrightarrow> h = d * 24 + k \<Longrightarrow> t = d * 86400 + k * 3600 + m * 60 + s"
    for t p s h m d k :: int by simp
  have "t div 60 div 60 = t div 3600" "t div 3600 div 24 = t div 86400"
    by (simp_all add: zdiv_zmult2_eq [symmetric])
  then show ?thesis
    by (intro compose [of t "t div 60" "t mod 60" "t div 3600"])
      (metis div_mult_mod_eq)+
qed

lemma timegm_gmtime_r [simp]: "timegm (gmtime_r t) = t"
proof (cases "civil_of_days (t div 86400)")
  case (fields y m d)
  then have "timegm (gmtime_r t) =
      t div 86400 * 86400 + t div 3600 mod 24 * 3600 + t div 60 mod 60 * 60 + t mod 60"
    by (simp add: timegm_def gmtime_r_def Let_def civil_of_days_valid)
  also have "\<dots> = t" by (rule div_of_seconds [symmetric])
  finally show ?thesis .
qed

lemma gmtime_r_fields [simp]:
  "tm_hour (gmtime_r t) = t div 3600 mod 24" "tm_min (gmtime_r t) = t div 60 mod 60"
  "tm_sec (gmtime_r t) = t mod 60" "tm_wday (gmtime_r t) = (t div 86400 + 4) mod 7"
  "tm_isdst (gmtime_r t) = 0"
  by (simp_all add: gmtime_r_def Let_def split: prod.split)

text \<open>The fields of the date depend on the day only.\<close>

definition same_day :: "int \<Rightarrow> int \<Rightarrow> bool" where
  "same_day t u \<longleftrightarrow> t div 86400 = u div 86400"

lemma same_day_fields:
  assumes "same_day t u"
  shows "tm_year (gmtime_r u) = tm_year (gmtime_r t)" "tm_mon (gmtime_r u) = tm_mon (gmtime_r t)"
    "tm_mday (gmtime_r u) = tm_mday (gmtime_r t)" "tm_wday (gmtime_r u) = tm_wday (gmtime_r t)"
  using assms by (simp_all add: same_day_def gmtime_r_def Let_def split: prod.splits)

lemma gmtime_r_date:
  assumes "civil_of_days (t div 86400) = (y, m, d)"
  shows "tm_year (gmtime_r t) = y - 1900" "tm_mon (gmtime_r t) = m" "tm_mday (gmtime_r t) = d"
  using assms by (simp_all add: gmtime_r_def)

lemma gmtime_r_ranges:
  "0 \<le> tm_mon (gmtime_r t)" "tm_mon (gmtime_r t) < 12"
  "1 \<le> tm_mday (gmtime_r t)" "tm_mday (gmtime_r t) \<le> 31"
proof -
  obtain y m d where c: "civil_of_days (t div 86400) = (y, m, d)" by (cases "civil_of_days (t div 86400)")
  note v = civil_of_days_valid [OF c]
  show "0 \<le> tm_mon (gmtime_r t)" "tm_mon (gmtime_r t) < 12"
    "1 \<le> tm_mday (gmtime_r t)" "tm_mday (gmtime_r t) \<le> 31"
    using v days_in_month_bounds(2) [of y m] by (simp_all add: gmtime_r_date [OF c])
qed

text \<open>The fields determine the second.\<close>

lemma gmtime_r_of_fields:
  assumes "0 \<le> tm_mon x" "tm_mon x < 12" "1 \<le> tm_mday x" "tm_mday x \<le> days_in_month (tm_year x + 1900) (tm_mon x)"
    and "0 \<le> tm_hour x" "tm_hour x < 24" "0 \<le> tm_min x" "tm_min x < 60" "0 \<le> tm_sec x" "tm_sec x < 60"
  shows "tm_year (gmtime_r (timegm x)) = tm_year x" "tm_mon (gmtime_r (timegm x)) = tm_mon x"
    "tm_mday (gmtime_r (timegm x)) = tm_mday x" "tm_hour (gmtime_r (timegm x)) = tm_hour x"
    "tm_min (gmtime_r (timegm x)) = tm_min x" "tm_sec (gmtime_r (timegm x)) = tm_sec x"
proof -
  let ?n = "days_of_civil (tm_year x + 1900) (tm_mon x) (tm_mday x)"
  let ?t = "timegm x"
  have c: "civil_of_days ?n = (tm_year x + 1900, tm_mon x, tm_mday x)"
    using assms by (intro civil_of_days_of_civil) auto
  have "?t = 86400 * ?n + (tm_hour x * 3600 + tm_min x * 60 + tm_sec x)" by (simp add: timegm_def)
  then have n: "?t div 86400 = ?n" by (rule int_div_pos_eq) (use assms in auto)
  have "?t = 3600 * (24 * ?n + tm_hour x) + (tm_min x * 60 + tm_sec x)" by (simp add: timegm_def)
  then have h: "?t div 3600 = 24 * ?n + tm_hour x" by (rule int_div_pos_eq) (use assms in auto)
  have "?t = 60 * (60 * (24 * ?n + tm_hour x) + tm_min x) + tm_sec x" by (simp add: timegm_def)
  then have m: "?t div 60 = 60 * (24 * ?n + tm_hour x) + tm_min x" and s: "?t mod 60 = tm_sec x"
    using assms int_div_pos_eq int_mod_pos_eq by blast+
  have mm: "?t div 60 mod 60 = tm_min x" using int_mod_pos_eq [OF m] assms by simp
  have hh: "?t div 3600 mod 24 = tm_hour x" using int_mod_pos_eq [OF h] assms by simp
  show "tm_year (gmtime_r ?t) = tm_year x" "tm_mon (gmtime_r ?t) = tm_mon x" "tm_mday (gmtime_r ?t) = tm_mday x"
    using gmtime_r_date [of ?t, unfolded n, OF c] by simp_all
  show "tm_hour (gmtime_r ?t) = tm_hour x" "tm_min (gmtime_r ?t) = tm_min x" "tm_sec (gmtime_r ?t) = tm_sec x"
    by (simp_all add: mm hh s)
qed

end
