(* ===== verification/CText.thy ===== *)
theory CText
  imports Prelude
begin

text \<open>
  The conversions between numbers and text of the C library that the date and schedule code uses:
  \<^verbatim>\<open>%0Nlu\<close> of \<open>sprintf\<close>, \<^verbatim>\<open>%Nlu\<close> of \<open>sscanf\<close>, \<open>atol\<close> and \<open>strtok_r\<close>. A text is the list of its
  characters before the terminator. The lemmas say that printed numbers read back and that
  \<open>strcmp\<close> orders printed numbers of the same width by value.
\<close>

definition isdigit :: "char \<Rightarrow> bool" where
  "isdigit c \<longleftrightarrow> 48 \<le> (of_char c :: nat) \<and> (of_char c :: nat) \<le> 57"

definition isspace :: "char \<Rightarrow> bool" where
  "isspace c \<longleftrightarrow> c = CHR '' '' \<or> 9 \<le> (of_char c :: nat) \<and> (of_char c :: nat) \<le> 13"

definition digit_value :: "char \<Rightarrow> nat" where
  "digit_value c = of_char c - 48"

definition number :: "char list \<Rightarrow> nat" where
  "number s = foldl (\<lambda>n c. 10 * n + digit_value c) 0 s"

text \<open>\<^verbatim>\<open>%0Nlu\<close> of an \<open>unsigned long\<close>.\<close>

definition pad0 :: "nat \<Rightarrow> nat \<Rightarrow> char list" where
  "pad0 w n = (let s = decimal_of_nat n in replicate (w - length s) CHR ''0'' @ s)"

definition print_lu :: "nat \<Rightarrow> int \<Rightarrow> char list" where
  "print_lu w v = pad0 w (nat (v mod 2 ^ 64))"

text \<open>\<^verbatim>\<open>%Nlu\<close>: blanks, a sign that counts for the width, at least one digit; the value is unsigned.\<close>

definition scan_lu :: "nat \<Rightarrow> char list \<Rightarrow> (int \<times> char list) option" where
  "scan_lu w s =
     (case dropWhile isspace s of
        [] \<Rightarrow> None
      | c # r \<Rightarrow>
          (let signed = (c = CHR ''-'' \<or> c = CHR ''+'');
               rest = (if signed then r else c # r);
               ds = takeWhile isdigit (take (if signed then w - 1 else w) rest);
               v = int (number ds)
           in if ds = [] then None
              else Some (if c = CHR ''-'' then (- v) mod 2 ^ 64 else v, drop (length ds) rest)))"

datatype directive = Lu nat | Lit char | White

text \<open>The values that \<open>sscanf\<close> assigns before the first directive that fails.\<close>

fun sscanf :: "directive list \<Rightarrow> char list \<Rightarrow> int list" where
  "sscanf [] s = []"
| "sscanf (Lu w # f) s = (case scan_lu w s of None \<Rightarrow> [] | Some (v, r) \<Rightarrow> v # sscanf f r)"
| "sscanf (Lit c # f) s = (case s of [] \<Rightarrow> [] | d # r \<Rightarrow> if d = c then sscanf f r else [])"
| "sscanf (White # f) s = sscanf f (dropWhile isspace s)"

text \<open>\<open>atol\<close>, which saturates at the bounds of \<open>long\<close>.\<close>

definition atol :: "char list \<Rightarrow> int" where
  "atol s =
     (let s1 = dropWhile isspace s;
          s2 = (case s1 of [] \<Rightarrow> [] | c # r \<Rightarrow> if c = CHR ''-'' \<or> c = CHR ''+'' then r else s1);
          n = int (number (takeWhile isdigit s2))
      in max (- (2 ^ 63)) (min (2 ^ 63 - 1) (if take 1 s1 = ''-'' then - n else n)))"

text \<open>\<open>strtok_r\<close> with the delimiter \<open>c\<close>: the next token and the text behind its delimiter.\<close>

definition strtok :: "char \<Rightarrow> char list \<Rightarrow> (char list \<times> char list) option" where
  "strtok c s =
     (let s1 = dropWhile (\<lambda>x. x = c) s
      in if s1 = [] then None
         else Some (takeWhile (\<lambda>x. x \<noteq> c) s1, drop 1 (dropWhile (\<lambda>x. x \<noteq> c) s1)))"

section \<open>Digits\<close>

lemma of_char_digit: "n < 10 \<Longrightarrow> of_char (char_of (48 + n) :: char) = (48 + n :: nat)"
  by simp

lemma digit_of_nat [simp]: "n < 10 \<Longrightarrow> isdigit (char_of (48 + n))" "n < 10 \<Longrightarrow> digit_value (char_of (48 + n)) = n"
  by (simp_all add: isdigit_def digit_value_def)

lemma number_Nil [simp]: "number [] = 0"
  by (simp add: number_def)

lemma number_snoc [simp]: "number (s @ [c]) = 10 * number s + digit_value c"
  by (simp add: number_def)

lemma number_Cons: "number (c # s) = digit_value c * 10 ^ length s + number s"
proof (induction s rule: rev_induct)
  case (snoc x xs)
  have "number ((c # xs) @ [x]) = 10 * number (c # xs) + digit_value x" by (rule number_snoc)
  then show ?case using snoc by simp
qed (simp add: number_def)

lemma digit_value_less: "isdigit c \<Longrightarrow> digit_value c < 10"
  unfolding isdigit_def digit_value_def by linarith

lemma number_less: "list_all isdigit s \<Longrightarrow> number s < 10 ^ length s"
proof (induction s)
  case (Cons c s)
  then have "digit_value c * 10 ^ length s + number s < (digit_value c + 1) * 10 ^ length s" by simp
  also have "\<dots> \<le> 10 * 10 ^ length s"
    using digit_value_less [of c] Cons.prems by (intro mult_le_mono1) simp
  finally show ?case by (simp add: number_Cons)
qed simp

lemma decimal_of_nat_digits [simp]: "list_all isdigit (decimal_of_nat n)"
  by (induction n rule: decimal_of_nat.induct) (subst decimal_of_nat.simps, simp)

lemma number_decimal_of_nat [simp]: "number (decimal_of_nat n) = n"
  by (induction n rule: decimal_of_nat.induct)
    (subst decimal_of_nat.simps, use number_snoc [of "[]"] in simp)

lemma number_zeros: "number (replicate k CHR ''0'' @ s) = number s"
  by (induction k) (simp_all add: number_Cons digit_value_def)

lemma pad0_props:
  assumes "n < 10 ^ w" "0 < w"
  shows "length (pad0 w n) = w" "list_all isdigit (pad0 w n)" "number (pad0 w n) = n"
proof -
  have "isdigit CHR ''0''" by (simp add: isdigit_def)
  then have "list_all isdigit (replicate k CHR ''0'')" for k by (induction k) simp_all
  then show "list_all isdigit (pad0 w n)" by (simp add: pad0_def Let_def)
qed (use decimal_of_nat_length [OF assms(2,1)] in \<open>simp_all add: pad0_def Let_def number_zeros\<close>)

lemma digit_not_special:
  assumes "isdigit c"
  shows "\<not> isspace c" "c \<noteq> CHR ''-''" "c \<noteq> CHR ''+''" "c \<noteq> NUL" "c \<noteq> CHR '':''"
  using assms by (auto simp: isdigit_def isspace_def)

lemma scan_lu_digits:
  assumes "list_all isdigit ds" "length ds = w" "0 < w"
  shows "scan_lu w (ds @ r) = Some (int (number ds), r)"
proof -
  obtain c ds' where ds: "ds = c # ds'" using assms by (cases ds) auto
  then have c: "isdigit c" using assms by simp
  have "takeWhile isdigit (take w (ds @ r)) = ds" using assms by (simp add: list_all_iff)
  then show ?thesis
    using assms ds digit_not_special [OF c] by (auto simp: scan_lu_def Let_def)
qed

text \<open>A printed number reads back.\<close>

lemma scan_print_lu:
  assumes "0 \<le> v" "v < 10 ^ w" "0 < w" "w \<le> 19"
  shows "scan_lu w (print_lu w v @ r) = Some (v, r)"
proof -
  have "(10::int) ^ w \<le> 10 ^ 19" using assms by (intro power_increasing) auto
  then have "v mod 2 ^ 64 = v" using assms by (intro mod_pos_pos_trivial) auto
  then have p: "print_lu w v = pad0 w (nat v)" by (simp add: print_lu_def)
  have "nat v < 10 ^ w" using assms by (simp add: nat_less_iff)
  then show ?thesis using scan_lu_digits [of "pad0 w (nat v)" w r] pad0_props [of "nat v" w] assms p by simp
qed

lemma print_lu_props:
  assumes "0 \<le> v" "v < 10 ^ w" "0 < w" "w \<le> 19"
  shows "length (print_lu w v) = w" "list_all isdigit (print_lu w v)" "number (print_lu w v) = nat v"
proof -
  have "(10::int) ^ w \<le> 10 ^ 19" using assms by (intro power_increasing) auto
  then have "v mod 2 ^ 64 = v" using assms by (intro mod_pos_pos_trivial) auto
  moreover have "nat v < 10 ^ w" using assms by (simp add: nat_less_iff)
  ultimately show "length (print_lu w v) = w" "list_all isdigit (print_lu w v)" "number (print_lu w v) = nat v"
    using pad0_props [of "nat v" w] assms by (simp_all add: print_lu_def)
qed

section \<open>The order of texts\<close>

text \<open>\<^verbatim>\<open>strcmp (s, t) <= 0\<close>.\<close>

definition text_le :: "char list \<Rightarrow> char list \<Rightarrow> bool" where
  "text_le s t \<longleftrightarrow> (case strcmp (lit s) (lit t) of Some k \<Rightarrow> k \<le> 0 | None \<Rightarrow> False)"

lemma text_le_Cons [simp]: "c \<noteq> NUL \<Longrightarrow> text_le (c # s) (c # t) \<longleftrightarrow> text_le s t"
  by (simp add: text_le_def lit_def)

lemma text_le_Nil [simp]: "text_le [] []"
  by (simp add: text_le_def lit_def)

lemma text_le_differ: "c \<noteq> d \<Longrightarrow> text_le (c # s) (d # t) \<longleftrightarrow> (of_char c :: nat) < of_char d"
proof -
  assume "c \<noteq> d"
  then have "(of_char c :: nat) \<noteq> of_char d" by simp
  then have "int (of_char c) - int (of_char d) \<le> 0 \<longleftrightarrow> (of_char c :: nat) < of_char d" by linarith
  then have "(of_char c :: int) - of_char d \<le> 0 \<longleftrightarrow> (of_char c :: nat) < of_char d" by (simp only: of_nat_of_char)
  then show ?thesis using \<open>c \<noteq> d\<close> unfolding text_le_def lit_def by simp
qed

lemma digit_eqI: "isdigit c \<Longrightarrow> isdigit d \<Longrightarrow> digit_value c = digit_value d \<Longrightarrow> c = d"
  unfolding isdigit_def digit_value_def by (metis eq_diff_iff of_char_eq_iff)

text \<open>Digit strings of the same length are compared by their numbers.\<close>

lemma text_le_digits:
  assumes "list_all isdigit a" "list_all isdigit b" "length a = length b"
  shows "text_le (a @ s) (b @ t) \<longleftrightarrow> number a < number b \<or> (number a = number b \<and> text_le s t)"
  using assms
proof (induction a arbitrary: b)
  case (Cons c a)
  then obtain d b' where b: "b = d # b'" by (cases b) auto
  have dig: "isdigit c" "isdigit d" "list_all isdigit a" "list_all isdigit b'" "length a = length b'"
    using Cons.prems b by simp_all
  have less: "number a < 10 ^ length a" "number b' < 10 ^ length a" using number_less dig by metis+
  show ?case
  proof (cases "c = d")
    case True
    then show ?thesis
      using Cons.IH [of b'] dig b digit_not_special [of d] by (simp add: number_Cons)
  next
    case False
    then have ne: "digit_value c \<noteq> digit_value d" using digit_eqI dig by blast
    have lt: "x * 10 ^ length a + p < y * 10 ^ length a + q"
      if "x < y" "p < 10 ^ length a" for x y p q :: nat
    proof -
      have "x * 10 ^ length a + p < (x + 1) * 10 ^ length a" using that by simp
      also have "\<dots> \<le> y * 10 ^ length a" using that by (intro mult_le_mono1) simp
      finally show ?thesis by simp
    qed
    have "(of_char c :: nat) < of_char d \<longleftrightarrow> digit_value c < digit_value d"
      using dig unfolding isdigit_def digit_value_def by linarith
    then show ?thesis
      using lt [OF _ less(1), of "digit_value c" "digit_value d" "number b'"]
        lt [OF _ less(2), of "digit_value d" "digit_value c" "number a"] ne False b dig
      by (auto simp: number_Cons text_le_differ)
  qed
qed simp

lemma text_le_print_lu:
  assumes "0 \<le> a" "a < 10 ^ w" "0 \<le> b" "b < 10 ^ w" "0 < w" "w \<le> 19"
  shows "text_le (print_lu w a @ s) (print_lu w b @ t) \<longleftrightarrow> a < b \<or> (a = b \<and> text_le s t)"
  using text_le_digits [of "print_lu w a" "print_lu w b" s t] print_lu_props [of a w] print_lu_props [of b w] assms
  by auto

end
