(* ===== verification/DateText.thy ===== *)
theory DateText
  imports CTime CText
begin

text \<open>
  Dates as text, in the format \<^verbatim>\<open>%04lu-%02lu-%02lu %02lu:%02lu:%02lu:%04lu\<close> that the event and
  scheduler libraries print, scan and compare with \<open>strcmp\<close>. For years of four digits the text scans
  back, and texts of the same zone are ordered as the instants they show.
\<close>

definition date_text :: "int \<Rightarrow> int \<Rightarrow> int \<Rightarrow> int \<Rightarrow> int \<Rightarrow> int \<Rightarrow> int \<Rightarrow> char list" where
  "date_text y mo d h mi s ms =
     print_lu 4 y @ ''-'' @ print_lu 2 mo @ ''-'' @ print_lu 2 d @ '' '' @
     print_lu 2 h @ '':'' @ print_lu 2 mi @ '':'' @ print_lu 2 s @ '':'' @ print_lu 4 ms"

definition date_format :: "directive list" where
  "date_format = [Lu 4, Lit CHR ''-'', Lu 2, Lit CHR ''-'', Lu 2, White,
     Lu 2, Lit CHR '':'', Lu 2, Lit CHR '':'', Lu 2, Lit CHR '':'', Lu 4]"

definition tm_text :: "tm \<Rightarrow> int \<Rightarrow> char list" where
  "tm_text x ms = date_text (tm_year x + 1900) (tm_mon x + 1) (tm_mday x) (tm_hour x) (tm_min x) (tm_sec x) ms"

section \<open>Printing and scanning\<close>

definition fits :: "nat \<Rightarrow> int \<Rightarrow> bool" where
  "fits w v \<longleftrightarrow> 0 \<le> v \<and> v < 10 ^ w"

definition date_fits :: "int \<Rightarrow> int \<Rightarrow> int \<Rightarrow> int \<Rightarrow> int \<Rightarrow> int \<Rightarrow> int \<Rightarrow> bool" where
  "date_fits y mo d h mi s ms \<longleftrightarrow>
     fits 4 y \<and> fits 2 mo \<and> fits 2 d \<and> fits 2 h \<and> fits 2 mi \<and> fits 2 s \<and> fits 4 ms"

lemma fits_scan: "fits w v \<Longrightarrow> 0 < w \<Longrightarrow> w \<le> 19 \<Longrightarrow> scan_lu w (print_lu w v @ r) = Some (v, r)"
  by (simp add: fits_def scan_print_lu)

lemma fits_text: "fits w v \<Longrightarrow> 0 < w \<Longrightarrow> w \<le> 19 \<Longrightarrow> length (print_lu w v) = w \<and> NUL \<notin> set (print_lu w v)"
  using print_lu_props [of v w] digit_not_special(4) by (auto simp: fits_def list_all_iff)

lemma fits_no_space:
  assumes "fits w v" "0 < w" "w \<le> 19"
  shows "dropWhile isspace (print_lu w v @ r) = print_lu w v @ r"
  using print_lu_props [of v w] assms digit_not_special(1)
  by (cases "print_lu w v") (auto simp: fits_def)

lemma date_text_length: "date_fits y mo d h mi s ms \<Longrightarrow> length (date_text y mo d h mi s ms) = 24"
  by (simp add: date_fits_def date_text_def fits_text)

lemma date_text_no_NUL: "date_fits y mo d h mi s ms \<Longrightarrow> NUL \<notin> set (date_text y mo d h mi s ms)"
  by (simp add: date_fits_def date_text_def fits_text)

lemma scan_date_text:
  assumes "date_fits y mo d h mi s ms"
  shows "sscanf date_format (date_text y mo d h mi s ms) = [y, mo, d, h, mi, s, ms]"
proof -
  have "scan_lu 4 (print_lu 4 ms) = Some (ms, [])"
    using fits_scan [of 4 ms "[]"] assms by (simp add: date_fits_def)
  then show ?thesis
    using assms unfolding date_fits_def date_text_def date_format_def
    by (simp add: fits_scan fits_no_space isspace_def)
qed

section \<open>The order of dates\<close>

lemma text_le_field:
  assumes "fits w a" "fits w b" "0 < w" "w \<le> 19"
  shows "text_le (print_lu w a @ s) (print_lu w b @ t) \<longleftrightarrow> a < b \<or> (a = b \<and> text_le s t)"
  using assms by (simp add: fits_def text_le_print_lu)

text \<open>Lexicographic order of two lists of fields.\<close>

fun lex_le :: "int list \<Rightarrow> int list \<Rightarrow> bool" where
  "lex_le (a # as) (b # bs) \<longleftrightarrow> a < b \<or> (a = b \<and> lex_le as bs)"
| "lex_le as bs \<longleftrightarrow> as = []"

lemma text_le_dates:
  assumes "date_fits y mo d h mi s ms" "date_fits y' mo' d' h' mi' s' ms'"
  shows "text_le (date_text y mo d h mi s ms) (date_text y' mo' d' h' mi' s' ms') \<longleftrightarrow>
    lex_le [y, mo, d, h, mi, s, ms] [y', mo', d', h', mi', s', ms']"
proof -
  have "text_le (print_lu 4 ms) (print_lu 4 ms') \<longleftrightarrow> ms < ms' \<or> ms = ms'"
    using text_le_field [of 4 ms ms' "[]" "[]"] assms by (simp add: date_fits_def)
  then show ?thesis
    using assms unfolding date_fits_def date_text_def by (simp add: text_le_field)
qed

lemma days_before_month_mono:
  assumes "0 \<le> m" "m < m'" "m' < 12"
  shows "days_before_month y m + days_in_month y m \<le> days_before_month y m'"
proof -
  have "i < 12 \<Longrightarrow> days_before_month y (m + 1) \<le> days_before_month y i" if "m + 1 \<le> i" for i
    using that
  proof (induction i rule: int_ge_induct)
    case (step i)
    then show ?case using days_before_month_Suc [of i y] days_in_month_bounds(1) [of y i] assms(1) by simp
  qed simp
  from this [of m'] show ?thesis using days_before_month_Suc [of m y] assms by simp
qed

lemma days_of_civil_eq:
  "0 \<le> m \<Longrightarrow> m < 12 \<Longrightarrow>
    days_of_civil y m d = days_before_year y + days_before_month y m + (d - 1) - 719162"
  by (simp add: days_of_civil_def)

lemma days_of_civil_year_less:
  assumes "y < y'" "0 \<le> m" "m < 12" "d \<le> days_in_month y m" "0 \<le> m'" "m' < 12" "1 \<le> d'"
  shows "days_of_civil y m d < days_of_civil y' m' d'"
proof -
  have "days_before_month y m + d \<le> days_before_year (y + 1) - days_before_year y"
    using day_of_year_bound [of m y] assms by (simp add: days_before_year_Suc)
  moreover have "days_before_year (y + 1) \<le> days_before_year y'"
    using assms by (intro days_before_year_mono) simp
  moreover have "0 \<le> days_before_month y' m'" using assms by (intro days_before_month_nonneg) auto
  ultimately show ?thesis using assms by (simp add: days_of_civil_eq)
qed

lemma days_of_civil_month_less:
  assumes "0 \<le> m" "m < m'" "m' < 12" "d \<le> days_in_month y m" "1 \<le> d'"
  shows "days_of_civil y m d < days_of_civil y m' d'"
  using assms days_before_month_mono [of m m' y] by (simp add: days_of_civil_eq)

lemma day_less:
  assumes "lex_le [y', m', d'] [y, m, d]" "days_of_civil y m d < days_of_civil y' m' d'"
    and "0 \<le> m" "m < 12" "1 \<le> d" "d \<le> days_in_month y m"
    and "0 \<le> m'" "m' < 12" "1 \<le> d'" "d' \<le> days_in_month y' m'"
  shows False
proof -
  consider "y' < y" | "y' = y" "m' < m" | "y' = y" "m' = m" "d' \<le> d" using assms(1) by fastforce
  then show False
  proof cases
    case 1
    then show ?thesis using days_of_civil_year_less [of y' y m' d' m d] assms by simp
  next
    case 2
    then show ?thesis using days_of_civil_month_less [of m' m d' y d] assms by simp
  next
    case 3
    then show ?thesis using assms by (simp add: days_of_civil_eq)
  qed
qed

lemma lex_le_total: "\<not> lex_le as bs \<Longrightarrow> length as = length bs \<Longrightarrow> lex_le bs as \<and> bs \<noteq> as"
  by (induction as bs rule: lex_le.induct) auto

lemma lex_le_refl [simp]: "lex_le as as"
  by (induction as) auto

lemma lex_le_append:
  "length as = length bs \<Longrightarrow> lex_le (as @ cs) (bs @ ds) \<longleftrightarrow> (lex_le as bs \<and> as \<noteq> bs) \<or> (as = bs \<and> lex_le cs ds)"
  by (induction as bs rule: lex_le.induct) auto

lemma div_of_seconds_ranges:
  "0 \<le> t div 3600 mod (24::int)" "t div 3600 mod 24 \<le> (23::int)" "0 \<le> t div 60 mod (60::int)"
  "t div 60 mod 60 \<le> (59::int)" "0 \<le> t mod (60::int)" "t mod 60 \<le> (59::int)"
  using pos_mod_bound [of 24 "t div 3600"] pos_mod_bound [of 60 "t div 60"] pos_mod_bound [of 60 t] by simp_all

definition date_of :: "int \<Rightarrow> int list" where
  "date_of t = [tm_year (gmtime_r t), tm_mon (gmtime_r t), tm_mday (gmtime_r t)]"

definition clock_of :: "int \<Rightarrow> int list" where
  "clock_of t = [tm_hour (gmtime_r t), tm_min (gmtime_r t), tm_sec (gmtime_r t)]"

lemma date_of_less:
  assumes "t div 86400 < u div 86400"
  shows "lex_le (date_of t) (date_of u) \<and> date_of t \<noteq> date_of u"
proof -
  obtain y m d where t: "civil_of_days (t div 86400) = (y, m, d)" by (cases "civil_of_days (t div 86400)")
  obtain y' m' d' where u: "civil_of_days (u div 86400) = (y', m', d')" by (cases "civil_of_days (u div 86400)")
  note vt = civil_of_days_valid [OF t] and vu = civil_of_days_valid [OF u]
  have "\<not> lex_le [y', m', d'] [y, m, d]"
    using day_less [of y' m' d' y m d] vt vu assms by metis
  then have "\<not> lex_le (date_of u) (date_of t)"
    by (simp add: date_of_def gmtime_r_date [OF t] gmtime_r_date [OF u])
  then show ?thesis by (rule lex_le_total) (simp add: date_of_def)
qed

lemma clock_of_less:
  assumes "t div 86400 = u div 86400" "t < u"
  shows "lex_le (clock_of t) (clock_of u) \<and> clock_of t \<noteq> clock_of u"
proof -
  have less: "\<not> lex_le [h', m', s'] [h, m, s]"
    if "t = n * 86400 + h * 3600 + m * 60 + s" "u = n * 86400 + h' * 3600 + m' * 60 + s'" "t < u"
      "m' \<le> 59" "s' \<le> 59" "0 \<le> m" "0 \<le> s" for t u n h m s h' m' s' :: int
    using that by auto
  have "\<not> lex_le (clock_of u) (clock_of t)"
    unfolding clock_of_def gmtime_r_fields
    by (rule less [OF div_of_seconds [of t] _ assms(2)])
      (simp_all only: assms(1) div_of_seconds_ranges div_of_seconds [of u, symmetric])
  then show ?thesis by (rule lex_le_total) (simp add: clock_of_def)
qed

lemma same_day_date: "t div 86400 = u div 86400 \<Longrightarrow> date_of t = date_of u"
  using same_day_fields [of t u] by (simp add: date_of_def same_day_def)

definition time_fields :: "int \<Rightarrow> int \<Rightarrow> int list" where
  "time_fields t ms = (date_of t @ clock_of t) @ [ms]"

lemma fields_less:
  assumes "t < u"
  shows "lex_le (date_of t @ clock_of t) (date_of u @ clock_of u) \<and>
    date_of t @ clock_of t \<noteq> date_of u @ clock_of u"
proof -
  have len: "length (date_of t) = length (date_of u)" by (simp add: date_of_def)
  consider "t div 86400 < u div 86400" | "t div 86400 = u div 86400"
    using zdiv_mono1 [of t u 86400] assms by linarith
  then show ?thesis
  proof cases
    case 1
    then show ?thesis using date_of_less [of t u] len by (simp add: lex_le_append)
  next
    case 2
    then show ?thesis using clock_of_less [of t u] same_day_date [of t u] assms by (simp add: lex_le_append)
  qed
qed

lemma lex_le_antisym: "lex_le as bs \<Longrightarrow> lex_le bs as \<Longrightarrow> as = bs"
  by (induction as bs rule: lex_le.induct) auto

lemma time_fields_le: "lex_le (time_fields t ms) (time_fields u ms') \<longleftrightarrow> t < u \<or> (t = u \<and> ms \<le> ms')"
proof -
  let ?f = "\<lambda>t. date_of t @ clock_of t"
  have len: "length (?f t) = length (?f u)" by (simp add: date_of_def clock_of_def)
  have last: "lex_le [ms] [ms'] \<longleftrightarrow> ms \<le> ms'" by auto
  consider "t < u" | "t = u" | "u < t" by linarith
  then show ?thesis
  proof cases
    case 1
    then show ?thesis using fields_less [of t u] len by (simp add: time_fields_def lex_le_append del: append_assoc)
  next
    case 2
    then show ?thesis using last by (simp add: time_fields_def lex_le_append del: append_assoc)
  next
    case 3
    then show ?thesis
      using fields_less [of u t] len lex_le_antisym [of "?f t" "?f u"]
      by (auto simp add: time_fields_def lex_le_append simp del: append_assoc)
  qed
qed

section \<open>The text of an instant\<close>

text \<open>The text that a clock of the zone shows at second \<open>t\<close> and millisecond \<open>ms\<close>.\<close>

definition in_years :: "int \<Rightarrow> bool" where
  "in_years t \<longleftrightarrow> 0 \<le> tm_year (gmtime_r t) + 1900 \<and> tm_year (gmtime_r t) + 1900 \<le> 9999"

lemma in_yearsI:
  assumes "- 62167219200 \<le> t" "t < 253402300800"
  shows "in_years t"
proof -
  let ?n = "t div 86400"
  have "- 719528 = - 62167219200 div (86400::int)" "2932896 = 253402300799 div (86400::int)" by simp_all
  then have n: "- 719528 \<le> ?n" "?n \<le> 2932896"
    using zdiv_mono1 [of "- 62167219200" t 86400] zdiv_mono1 [of t 253402300799 86400] assms by linarith+
  have y: "tm_year (gmtime_r t) + 1900 = year_of_days ?n"
    by (simp add: gmtime_r_def civil_of_days_def Let_def)
  have ends: "days_before_year 0 = - 366" "days_before_year 10000 = 3652059"
    by (simp_all add: days_before_year_def)
  have "0 \<le> year_of_days ?n"
    using days_before_year_mono [of "year_of_days ?n + 1" 0] year_of_days_bounds [of ?n] n(1) ends(1) by linarith
  moreover have "year_of_days ?n \<le> 9999"
    using days_before_year_mono [of 10000 "year_of_days ?n"] year_of_days_bounds [of ?n] n(2) ends(2) by linarith
  ultimately show ?thesis by (simp only: in_years_def y)
qed

lemma tm_text_fits:
  assumes "in_years t" "0 \<le> ms" "ms < 10000"
  shows "date_fits (tm_year (gmtime_r t) + 1900) (tm_mon (gmtime_r t) + 1) (tm_mday (gmtime_r t))
    (tm_hour (gmtime_r t)) (tm_min (gmtime_r t)) (tm_sec (gmtime_r t)) ms"
  using assms gmtime_r_ranges [of t] div_of_seconds_ranges [of t]
  by (simp add: date_fits_def fits_def in_years_def)

lemma text_le_instants:
  assumes "in_years t" "in_years u" "0 \<le> ms" "ms < 1000" "0 \<le> ms'" "ms' < 1000"
  shows "text_le (tm_text (gmtime_r t) ms) (tm_text (gmtime_r u) ms') \<longleftrightarrow> 1000 * t + ms \<le> 1000 * u + ms'"
proof -
  have shift: "lex_le [y + 1900, mo + 1, d, h, mi, s, x] [y' + 1900, mo' + 1, d', h', mi', s', x'] \<longleftrightarrow>
      lex_le [y, mo, d, h, mi, s, x] [y', mo', d', h', mi', s', x']"
    for y mo d h mi s x y' mo' d' h' mi' s' x'
    by (simp only: lex_le.simps add_less_cancel_right add_right_cancel)
  have ms: "ms < 10000" "ms' < 10000" using assms by simp_all
  have "text_le (tm_text (gmtime_r t) ms) (tm_text (gmtime_r u) ms') \<longleftrightarrow> lex_le (time_fields t ms) (time_fields u ms')"
    unfolding tm_text_def
      text_le_dates [OF tm_text_fits [OF assms(1,3) ms(1)] tm_text_fits [OF assms(2,5) ms(2)]] shift
    by (simp only: time_fields_def date_of_def clock_of_def append.simps)
  moreover have "t < u \<or> (t = u \<and> ms \<le> ms') \<longleftrightarrow> 1000 * t + ms \<le> 1000 * u + ms'"
    using assms(3-6) by linarith
  ultimately show ?thesis by (simp only: time_fields_le)
qed

end
