(* ===== verification/Event.thy ===== *)
theory Event
  imports BufferSpec PMutex DateText
begin

text \<open>
  The class \<open>Event\<close> of \<open>EventsSet/src/Event.cpp\<close>. An event owns three \<open>Buffer\<close>s; as
  there, \<open>None\<close> is a call without a defined result.
\<close>

section \<open>Events\<close>

datatype event_status = EVSET_EVENTBUILDED | EVSET_EVENTINITIALIZED

record event =
  esEventStatus :: event_status
  bSource :: buffer
  bEvDestination :: buffer
  bTypeIdentifier :: buffer
  lTypeIdentifier :: "64 word"
  ullExpirationLocalDateTimeInMilliSecs :: "64 word"
  pCreationLocalDateTime :: "char list"
  ullCreationUTCTimeInMilliSecs :: "64 word"

definition Event_ctor :: "event \<Rightarrow> event" where
  "Event_ctor junk =
     junk\<lparr>esEventStatus := EVSET_EVENTBUILDED, bSource := Buffer_ctor (bSource junk),
          bEvDestination := Buffer_ctor (bEvDestination junk),
          bTypeIdentifier := Buffer_ctor (bTypeIdentifier junk)\<rparr>"

text \<open>A reading of the local clock: the broken-down time and the milliseconds.\<close>

type_synonym clock_fields = "tm \<times> int"

text \<open>The date is printed with \<^verbatim>\<open>%04lu-%02lu-%02lu %02lu:%02lu:%02lu:%04lu\<close>.\<close>

definition creation_date :: "clock_fields \<Rightarrow> char list" where
  "creation_date t = tm_text (fst t) (snd t)"

text \<open>
  The clocks are what the calls of \<open>get_tm_LocalTime\<close> and \<open>nowUTCInMilliSecs\<close> give, \<open>None\<close> when they
  fail. A printed date longer than the array of 25 bytes would overrun it.
\<close>

definition Event_init_clocks ::
  "event \<Rightarrow> clock_fields option \<Rightarrow> 64 word option \<Rightarrow> (lib_error \<times> event) option" where
  "Event_init_clocks ev tmDateTime nowUTC =
     (let drop_all = ev\<lparr>bTypeIdentifier := snd (Buffer_finish (bTypeIdentifier ev) True),
                       bEvDestination := snd (Buffer_finish (bEvDestination ev) True),
                       bSource := snd (Buffer_finish (bSource ev) True)\<rparr>
      in case tmDateTime of
           None \<Rightarrow> Some (ClockErrors TOOLS_DATETIME_GET_TM_LOCALTIME_FAILED, drop_all)
         | Some t \<Rightarrow>
             (case nowUTC of
                None \<Rightarrow> Some (ClockErrors TOOLS_DATETIME_NOWUTCINMILLISECS_FAILED, drop_all)
              | Some u \<Rightarrow>
                  if length (creation_date t) > 24 then None
                  else Some (NoError, ev\<lparr>ullCreationUTCTimeInMilliSecs := u,
                                         pCreationLocalDateTime := creation_date t,
                                         esEventStatus := EVSET_EVENTINITIALIZED\<rparr>)))"

definition Event_init ::
  "event \<Rightarrow> mem option \<Rightarrow> mem option \<Rightarrow> 64 word \<Rightarrow> mem option \<Rightarrow> 64 word \<Rightarrow>
   clock_fields option \<Rightarrow> 64 word option \<Rightarrow> (lib_error \<times> event) option" where
  "Event_init ev pSource pDestination lType pTypeIdentifier expiration tmDateTime nowUTC =
     (case (pSource, pDestination, pTypeIdentifier) of
        (Some src, Some dst, Some typ) \<Rightarrow>
          if esEventStatus ev \<noteq> EVSET_EVENTBUILDED
          then Some (EventsSetErrors EVSET_OPERATION_NOTALLOWED, ev)
          else do {
            (e1, s) \<leftarrow> Buffer_init_default (bSource ev) src;
            let ev1 = ev\<lparr>bSource := s\<rparr>;
            if e1 \<noteq> errNoError then Some (ToolsErrors TOOLS_BUFFER_INIT_FAILED, ev1)
            else do {
              (e2, d) \<leftarrow> Buffer_init_default (bEvDestination ev1) dst;
              let ev2 = ev1\<lparr>bEvDestination := d\<rparr>;
              if e2 \<noteq> errNoError
              then Some (ToolsErrors TOOLS_BUFFER_INIT_FAILED, ev2\<lparr>bSource := snd (Buffer_finish s True)\<rparr>)
              else do {
                (e3, t) \<leftarrow> Buffer_init_default (bTypeIdentifier ev2) typ;
                let ev3 = ev2\<lparr>bTypeIdentifier := t\<rparr>;
                if e3 \<noteq> errNoError
                then Some (ToolsErrors TOOLS_BUFFER_INIT_FAILED,
                       ev3\<lparr>bEvDestination := snd (Buffer_finish d True), bSource := snd (Buffer_finish s True)\<rparr>)
                else Event_init_clocks
                       (ev3\<lparr>lTypeIdentifier := lType, ullExpirationLocalDateTimeInMilliSecs := expiration\<rparr>)
                       tmDateTime nowUTC
              }
            }
          }
      | _ \<Rightarrow> Some (EventsSetErrors EVSET_ACTIVATION_WRONG, ev))"

definition Event_finish :: "event \<Rightarrow> lib_error \<times> event" where
  "Event_finish ev =
     (if esEventStatus ev \<noteq> EVSET_EVENTINITIALIZED then (EventsSetErrors EVSET_OPERATION_NOTALLOWED, ev)
      else (NoError, ev\<lparr>bTypeIdentifier := snd (Buffer_finish (bTypeIdentifier ev) True),
                        bEvDestination := snd (Buffer_finish (bEvDestination ev) True),
                        bSource := snd (Buffer_finish (bSource ev) True),
                        esEventStatus := EVSET_EVENTBUILDED\<rparr>))"

definition Event_dtor :: "event \<Rightarrow> event" where
  "Event_dtor ev = (if esEventStatus ev = EVSET_EVENTINITIALIZED then snd (Event_finish ev) else ev)"

text \<open>The getters give their value through a pointer when the event is initialised.\<close>

definition Event_get :: "(event \<Rightarrow> 'a) \<Rightarrow> event \<Rightarrow> lib_error + 'a" where
  "Event_get f ev =
     (if esEventStatus ev \<noteq> EVSET_EVENTINITIALIZED then Inl (EventsSetErrors EVSET_OPERATION_NOTALLOWED)
      else Inr (f ev))"

definition getTypeIdentifier :: "event \<Rightarrow> lib_error + 64 word" where
  "getTypeIdentifier = Event_get lTypeIdentifier"

definition getTypeIdentifier_str :: "event \<Rightarrow> mem" where
  "getTypeIdentifier_str ev = Buffer_str (bTypeIdentifier ev)"

definition getExpirationLocalDateTimeInMilliSecs :: "event \<Rightarrow> lib_error + 64 word" where
  "getExpirationLocalDateTimeInMilliSecs = Event_get ullExpirationLocalDateTimeInMilliSecs"

definition getCreationDateTime :: "event \<Rightarrow> lib_error + char list" where
  "getCreationDateTime = Event_get pCreationLocalDateTime"

definition getSource :: "event \<Rightarrow> lib_error + buffer" where
  "getSource = Event_get bSource"

definition getDestination :: "event \<Rightarrow> lib_error + buffer" where
  "getDestination = Event_get bEvDestination"

definition setExpirationLocalDateTimeInMilliSecs :: "event \<Rightarrow> 64 word \<Rightarrow> lib_error \<times> event" where
  "setExpirationLocalDateTimeInMilliSecs ev x =
     (if esEventStatus ev \<noteq> EVSET_EVENTINITIALIZED then (EventsSetErrors EVSET_OPERATION_NOTALLOWED, ev)
      else (NoError, ev\<lparr>ullExpirationLocalDateTimeInMilliSecs := x\<rparr>))"

section \<open>Initialised events\<close>

text \<open>What an event says once it is initialised: where it goes and when it expires.\<close>

definition event_is :: "event \<Rightarrow> char list \<Rightarrow> 64 word \<Rightarrow> bool" where
  "event_is ev d x \<longleftrightarrow> esEventStatus ev = EVSET_EVENTINITIALIZED \<and> Buffer_holds (bEvDestination ev) d \<and>
     ullExpirationLocalDateTimeInMilliSecs ev = x"

definition event_idle :: "event \<Rightarrow> bool" where
  "event_idle ev \<longleftrightarrow> esEventStatus ev = EVSET_EVENTBUILDED \<and> Buffer_idle (bSource ev) \<and>
     Buffer_idle (bEvDestination ev) \<and> Buffer_idle (bTypeIdentifier ev)"

text \<open>Objects for the witnesses.\<close>

definition blank_event :: event where
  "blank_event = \<lparr>esEventStatus = EVSET_EVENTBUILDED, bSource = blank_buffer, bEvDestination = blank_buffer,
     bTypeIdentifier = blank_buffer, lTypeIdentifier = 0, ullExpirationLocalDateTimeInMilliSecs = 0,
     pCreationLocalDateTime = [], ullCreationUTCTimeInMilliSecs = 0\<rparr>"

definition event_of :: "char list \<Rightarrow> 64 word \<Rightarrow> event" where
  "event_of d x = blank_event\<lparr>esEventStatus := EVSET_EVENTINITIALIZED, bSource := buffer_of ''src'',
     bEvDestination := buffer_of d, bTypeIdentifier := buffer_of ''type'',
     ullExpirationLocalDateTimeInMilliSecs := x\<rparr>"

lemma event_of_is: "NUL \<notin> set d \<Longrightarrow> event_is (event_of d x) d x"
  by (simp add: event_is_def event_of_def blank_event_def buffer_of_holds)

lemma blank_event_idle [simp]: "event_idle blank_event"
  by (simp add: event_idle_def blank_event_def)

lemma Event_ctor_idle: "event_idle (Event_ctor junk)"
  by (simp add: event_idle_def Event_ctor_def Buffer_ctor_idle)

lemma event_is_get:
  assumes "event_is ev d x"
  shows "getDestination ev = Inr (bEvDestination ev)" "getExpirationLocalDateTimeInMilliSecs ev = Inr x"
  using assms by (simp_all add: event_is_def getDestination_def getExpirationLocalDateTimeInMilliSecs_def Event_get_def)

end
