(* ===== verification/EventQueue.thy ===== *)
theory EventQueue
  imports Prelude "HOL-Library.Multiset"
begin

text \<open>
  The ordered queue of events: the \<^verbatim>\<open>std:: multimap\<close> from expirations to event pointers that
  \<open>EventsSet\<close> and \<open>MultiEventsSet\<close> keep per destination, and the interface \<open>ordered_queue\<close> its clients rely on. Pairs
  are in the order of their keys, and in the order of their insertion for equal keys.
\<close>

type_synonym ('k, 'v) multimap = "('k \<times> 'v) list"

section \<open>The operations of the multimap\<close>

text \<open>\<open>insert\<close> stores behind the pairs whose key is not greater.\<close>

fun mm_insert :: "'k :: linorder \<Rightarrow> 'v \<Rightarrow> ('k, 'v) multimap \<Rightarrow> ('k, 'v) multimap" where
  "mm_insert k v [] = [(k, v)]"
| "mm_insert k v ((k', v') # q) =
     (if k < k' then (k, v) # (k', v') # q else (k', v') # mm_insert k v q)"

text \<open>\<open>find\<close> gives the first pair with the key; \<open>erase\<close> removes the pair at an iterator.\<close>

fun mm_find :: "'k \<Rightarrow> ('k, 'v) multimap \<Rightarrow> nat option" where
  "mm_find k [] = None"
| "mm_find k ((k', v') # q) = (if k' = k then Some 0 else map_option Suc (mm_find k q))"

definition mm_erase :: "nat \<Rightarrow> ('k, 'v) multimap \<Rightarrow> ('k, 'v) multimap" where
  "mm_erase i q = take i q @ drop (Suc i) q"

text \<open>\<open>begin\<close> and removing there.\<close>

definition mm_pop :: "('k, 'v) multimap \<Rightarrow> (('k \<times> 'v) \<times> ('k, 'v) multimap) option" where
  "mm_pop q = (case q of [] \<Rightarrow> None | x # r \<Rightarrow> Some (x, r))"

definition mm_sorted :: "('k :: linorder, 'v) multimap \<Rightarrow> bool" where
  "mm_sorted q = sorted (map fst q)"

section \<open>The interface\<close>

definition with_key :: "'k \<Rightarrow> ('k \<times> 'v) list \<Rightarrow> ('k \<times> 'v) list" where
  "with_key k q = filter (\<lambda>x. fst x = k) q"

fun drain :: "('q \<Rightarrow> ('x \<times> 'q) option) \<Rightarrow> nat \<Rightarrow> 'q \<Rightarrow> 'x list" where
  "drain pop 0 q = []"
| "drain pop (Suc n) q = (case pop q of None \<Rightarrow> [] | Some (x, q') \<Rightarrow> x # drain pop n q')"

locale ordered_queue =
  fixes qinv :: "'q \<Rightarrow> bool"
    and qlist :: "'q \<Rightarrow> ('k :: linorder \<times> 'v) list"
    and ins :: "'k \<Rightarrow> 'v \<Rightarrow> 'q \<Rightarrow> 'q"
    and pop :: "'q \<Rightarrow> (('k \<times> 'v) \<times> 'q) option"
  assumes sorted_law: "qinv q \<Longrightarrow> sorted (map fst (qlist q))"
    and ins_law: "qinv q \<Longrightarrow> qinv (ins k v q) \<and>
      (\<forall>k'. with_key k' (qlist (ins k v q)) = with_key k' (qlist q) @ (if k' = k then [(k, v)] else []))"
    and pop_empty_law: "qinv q \<Longrightarrow> qlist q = [] \<Longrightarrow> pop q = None"
    and pop_law: "qinv q \<Longrightarrow> qlist q = x # r \<Longrightarrow> \<exists>q'. pop q = Some (x, q') \<and> qinv q' \<and> qlist q' = r"
begin

text \<open>What is removed has the least key and was inserted first among its equals.\<close>

lemma pop_least:
  assumes "qinv q" "pop q = Some ((k, v), q')"
  shows "qlist q = (k, v) # qlist q'" "qinv q'" "\<forall>x\<in>set (qlist q). k \<le> fst x"
    "hd (with_key k (qlist q)) = (k, v)"
proof -
  show q: "qlist q = (k, v) # qlist q'" and "qinv q'"
    using assms pop_empty_law [of q] pop_law [of q] by (cases "qlist q"; force)+
  then show "\<forall>x\<in>set (qlist q). k \<le> fst x" using sorted_law [OF assms(1)] by auto
  show "hd (with_key k (qlist q)) = (k, v)" using q by (simp add: with_key_def)
qed

lemma pop_None: "qinv q \<Longrightarrow> pop q = None \<longleftrightarrow> qlist q = []"
  using pop_empty_law [of q] pop_law [of q] by (cases "qlist q") force+

lemma ins_mset:
  assumes "qinv q"
  shows "mset (qlist (ins k v q)) = add_mset (k, v) (mset (qlist q))"
proof (rule multiset_eqI)
  fix x :: "'k \<times> 'v"
  have c: "count (mset ys) x = count (mset (with_key (fst x) ys)) x" for ys :: "('k \<times> 'v) list"
    by (induction ys) (auto simp: with_key_def)
  have w: "with_key (fst x) (qlist (ins k v q)) = with_key (fst x) (qlist q) @ (if fst x = k then [(k, v)] else [])"
    using ins_law [OF assms] by blast
  show "count (mset (qlist (ins k v q))) x = count (add_mset (k, v) (mset (qlist q))) x"
    unfolding c [of "qlist (ins k v q)"] w using c [of "qlist q"] by auto
qed

text \<open>Removing one after the other gives the queue in its order.\<close>

lemma drain_take: "qinv q \<Longrightarrow> drain pop n q = take n (qlist q)"
proof (induction n arbitrary: q)
  case (Suc n)
  show ?case
  proof (cases "qlist q")
    case Nil
    then show ?thesis using pop_empty_law [OF Suc.prems] by simp
  next
    case (Cons x r)
    then obtain q' where "pop q = Some (x, q')" "qinv q'" "qlist q' = r"
      using pop_law [OF Suc.prems] by blast
    then show ?thesis using Suc.IH [of q'] Cons by simp
  qed
qed simp

lemma drain_sorted: "qinv q \<Longrightarrow> sorted (map fst (drain pop n q))"
  using sorted_law by (simp add: drain_take take_map sorted_wrt_take flip: take_map)

end

section \<open>The multimap provides it\<close>

lemma mm_insert_set: "set (mm_insert k v q) = insert (k, v) (set q)"
  by (induction q rule: mm_insert.induct) auto

lemma mm_insert_sorted: "mm_sorted q \<Longrightarrow> mm_sorted (mm_insert k v q)"
  unfolding mm_sorted_def
proof (induction k v q rule: mm_insert.induct)
  case (2 k v k' v' q)
  then show ?case using mm_insert_set [of k v q] by (auto simp: not_less)
qed simp

lemma mm_insert_with_key:
  "mm_sorted q \<Longrightarrow> with_key k' (mm_insert k v q) = with_key k' q @ (if k' = k then [(k, v)] else [])"
  unfolding mm_sorted_def
proof (induction k v q rule: mm_insert.induct)
  case (2 k v k1 v1 q)
  show ?case
  proof (cases "k < k1")
    case True
    then have "filter (\<lambda>x. fst x = k) ((k1, v1) # q) = []" using 2(2) by (auto simp: filter_empty_conv)
    then show ?thesis using True by (auto simp: with_key_def)
  next
    case False
    then show ?thesis using 2 by (auto simp: with_key_def)
  qed
qed (simp add: with_key_def)

lemma mm_find_Some:
  "mm_find k q = Some i \<Longrightarrow> i < length q \<and> fst (q ! i) = k \<and> (\<forall>j<i. fst (q ! j) \<noteq> k)"
proof (induction k q arbitrary: i rule: mm_find.induct)
  case (2 k k' v' q)
  then show ?case by (cases i) (auto split: if_splits simp: nth_Cons' less_Suc_eq_0_disj)
qed simp

lemma mm_find_None: "mm_find k q = None \<longleftrightarrow> with_key k q = []"
  by (induction k q rule: mm_find.induct) (auto simp: with_key_def)

lemma mm_erase_sorted: "mm_sorted q \<Longrightarrow> mm_sorted (mm_erase i q)"
proof (induction q arbitrary: i)
  case (Cons x q)
  then show ?case by (cases i) (auto simp: mm_sorted_def mm_erase_def dest: in_set_takeD in_set_dropD)
qed (simp add: mm_sorted_def mm_erase_def)

interpretation mm: ordered_queue mm_sorted "\<lambda>q. q" mm_insert mm_pop
  by unfold_locales (auto simp: mm_sorted_def mm_pop_def mm_insert_with_key [unfolded mm_sorted_def]
      mm_insert_sorted [unfolded mm_sorted_def] split: list.splits)

end
