(* ===== verification/EventsSet.thy ===== *)
theory EventsSet
  imports Event EventQueue HashMapUse
begin

text \<open>
  The class \<open>EventsSet\<close> of \<open>EventsSet/src/EventsSet.cpp\<close>: events partitioned by destination, each
  partition ordered by expiration, a pool of free events, and the calls that wait for an event.

  Pointers are indices: \<open>evHeap\<close> holds the events, \<open>destinationHeap\<close> the structures
  \<open>DestinationEvent\<close> (\<open>None\<close> once deleted). The hash map has the text of the destination as key, as
  its functors see it; \<open>hash\<close> stands for \<open>BufferHasher\<close>. A condition variable is the number of
  signals it got (\<open>None\<close> before \<open>init\<close>). The calls of the operating system that only fail for want
  of resources do not fail here. As before, a call is \<open>None\<close> where the code has no defined result.
\<close>

section \<open>State\<close>

datatype events_set_status = EVSET_EVENTSSETBUILDED | EVSET_EVENTSSETINITIALIZED

record destination_event =
  emEventsMultiMap :: "(64 word, nat) multimap"
  cdAddedEvent :: "nat option"
  bDestination :: buffer

record event_type_info =
  vPointersToAllocatedEvents :: "nat list"
  vFreeEvents :: "nat list"
  ulPreAllocatedEventsNumber :: nat

record events_set =
  essEventsSetStatus :: events_set_status
  evSetMutex :: mutex
  bConditionVariablesToBeUsed :: bool
  pesmEventsSetHashMap :: "(char list, nat) my_hash_map"
  mtFreeEvents :: mutex
  ulNumberOfDifferentEventTypeToManage :: nat
  petiEventTypeInfo :: "event_type_info list"
  destinationHeap :: "destination_event option list"
  evHeap :: "event option list"

type_synonym es_run = "(lib_error \<times> events_set) option"

definition deref :: "'a option list \<Rightarrow> nat \<Rightarrow> 'a option" where
  "deref h p = (if p < length h then h ! p else None)"

abbreviation event_at :: "events_set \<Rightarrow> nat \<Rightarrow> event option" where
  "event_at es p \<equiv> deref (evHeap es) p"

abbreviation destination_at :: "events_set \<Rightarrow> nat \<Rightarrow> destination_event option" where
  "destination_at es i \<equiv> deref (destinationHeap es) i"

section \<open>Locking\<close>

definition es_lock :: "events_set \<Rightarrow> lib_error \<times> events_set" where
  "es_lock es = (let (e, m) = PMutex_lock (evSetMutex es) in (e, es\<lparr>evSetMutex := m\<rparr>))"

definition es_unlock :: "events_set \<Rightarrow> lib_error \<times> events_set" where
  "es_unlock es = (let (e, m) = PMutex_unLock (evSetMutex es) in (e, es\<lparr>evSetMutex := m\<rparr>))"

text \<open>The error paths ignore a failing \<open>unLock\<close>, the ends of the methods report it.\<close>

definition es_fail :: "lib_error \<Rightarrow> events_set \<Rightarrow> lib_error \<times> events_set" where
  "es_fail err es = (err, snd (es_unlock es))"

definition es_done :: "events_set \<Rightarrow> lib_error \<times> events_set" where
  "es_done es =
     (let (e, es1) = es_unlock es
      in if e \<noteq> NoError then (PThreadErrors THREADLIB_PMUTEX_UNLOCK_FAILED, es1) else (NoError, es1))"

text \<open>Every method starts by locking and looking at the status.\<close>

definition es_enter :: "events_set \<Rightarrow> (lib_error \<times> events_set) + events_set" where
  "es_enter es =
     (let (e, es1) = es_lock es
      in if e \<noteq> NoError then Inl (PThreadErrors THREADLIB_PMUTEX_LOCK_FAILED, es1)
         else if essEventsSetStatus es1 \<noteq> EVSET_EVENTSSETINITIALIZED
         then Inl (es_fail (EventsSetErrors EVSET_OPERATION_NOTALLOWED) es1)
         else Inr es1)"

section \<open>Life cycle\<close>

definition EventsSet_ctor :: "events_set \<Rightarrow> events_set" where
  "EventsSet_ctor junk =
     junk\<lparr>essEventsSetStatus := EVSET_EVENTSSETBUILDED, evSetMutex := None, mtFreeEvents := None\<rparr>"

definition EventsSet_init :: "events_set \<Rightarrow> bool \<Rightarrow> nat \<Rightarrow> es_run" where
  "EventsSet_init es bCond ulTypes =
     (if essEventsSetStatus es \<noteq> EVSET_EVENTSSETBUILDED \<or> ulTypes \<le> 0
      then Some (EventsSetErrors EVSET_OPERATION_NOTALLOWED, es)
      else
        let es1 = es\<lparr>ulNumberOfDifferentEventTypeToManage := ulTypes, bConditionVariablesToBeUsed := bCond,
                     petiEventTypeInfo := replicate ulTypes
                       \<lparr>vPointersToAllocatedEvents = [], vFreeEvents = [], ulPreAllocatedEventsNumber = 0\<rparr>\<rparr>;
            (e1, mf) = PMutex_init (mtFreeEvents es1);
            es2 = es1\<lparr>mtFreeEvents := mf\<rparr>
        in if e1 \<noteq> NoError
           then Some (PThreadErrors THREADLIB_PMUTEX_INIT_FAILED, es2\<lparr>petiEventTypeInfo := []\<rparr>)
           else
             let (e2, ms) = PMutex_init (evSetMutex es2)
             in if e2 \<noteq> NoError
                then Some (PThreadErrors THREADLIB_PMUTEX_INIT_FAILED,
                       es2\<lparr>evSetMutex := ms, mtFreeEvents := snd (PMutex_finish mf), petiEventTypeInfo := []\<rparr>)
                else do {
                  t \<leftarrow> hash_map_ctor 100;
                  Some (NoError, es2\<lparr>evSetMutex := ms, pesmEventsSetHashMap := t,
                                     essEventsSetStatus := EVSET_EVENTSSETINITIALIZED\<rparr>)
                })"

text \<open>
  \<open>allocateMoreFreeUserEvents\<close> and \<open>deleteAllocatedEvents\<close> as the class defines them (they are
  virtual): blocks of 500 events of type 0. A block is a run of new cells of the heap.
\<close>

definition EVSET_DEFAULTNUMBEROFNEWFREEEVENTSALLOCATED :: nat where
  "EVSET_DEFAULTNUMBEROFNEWFREEEVENTSALLOCATED = 500"

definition EVSET_EVENTTYPE_EVENTIDENTIFIER :: nat where
  "EVSET_EVENTTYPE_EVENTIDENTIFIER = 0"

definition new_events :: "nat \<Rightarrow> event option list" where
  "new_events n = replicate n (Some (Event_ctor blank_event))"

definition allocateMoreFreeUserEvents ::
  "nat \<Rightarrow> event option list \<Rightarrow> event_type_info \<Rightarrow> lib_error \<times> event option list \<times> event_type_info" where
  "allocateMoreFreeUserEvents ulEventTypeIndex heap ti =
     (if ulEventTypeIndex = EVSET_EVENTTYPE_EVENTIDENTIFIER then
        let n = EVSET_DEFAULTNUMBEROFNEWFREEEVENTSALLOCATED; pevEvents = length heap
        in (NoError, heap @ new_events n,
            ti\<lparr>ulPreAllocatedEventsNumber := ulPreAllocatedEventsNumber ti + n,
               vPointersToAllocatedEvents := vPointersToAllocatedEvents ti @ [pevEvents],
               vFreeEvents := vFreeEvents ti @ [pevEvents ..< pevEvents + n]\<rparr>)
      else (EventsSetErrors EVSET_EVENTSSET_UNKNOWNEVENTTYPE, heap, ti))"

definition free_cells :: "nat \<Rightarrow> nat \<Rightarrow> 'a option list \<Rightarrow> 'a option list" where
  "free_cells p n heap = take p heap @ replicate (length (take n (drop p heap))) None @ drop (p + n) heap"

definition deleteAllocatedEvents ::
  "nat \<Rightarrow> nat list \<Rightarrow> event option list \<Rightarrow> lib_error \<times> event option list" where
  "deleteAllocatedEvents ulEventTypeIndex blocks heap =
     (if ulEventTypeIndex = EVSET_EVENTTYPE_EVENTIDENTIFIER
      then (NoError, fold (\<lambda>p. free_cells p EVSET_DEFAULTNUMBEROFNEWFREEEVENTSALLOCATED) blocks heap)
      else (EventsSetErrors EVSET_EVENTSSET_UNKNOWNEVENTTYPE, heap))"

text \<open>
  \<open>finish\<close> deletes the destinations in the order of the table and then the pools; it goes on after
  every error but the last \<open>unLock\<close>.
\<close>

definition delete_destinations :: "(char list \<times> nat) list \<Rightarrow> events_set \<Rightarrow> events_set" where
  "delete_destinations items es =
     fold (\<lambda>(key, i) es. es\<lparr>destinationHeap := (destinationHeap es)[i := None]\<rparr>) items es"

definition delete_pool :: "nat \<Rightarrow> events_set \<Rightarrow> events_set" where
  "delete_pool k es =
     (let ti = petiEventTypeInfo es ! k
      in es\<lparr>evHeap := snd (deleteAllocatedEvents k (vPointersToAllocatedEvents ti) (evHeap es)),
            petiEventTypeInfo := (petiEventTypeInfo es)[k :=
              \<lparr>vPointersToAllocatedEvents = [], vFreeEvents = [], ulPreAllocatedEventsNumber = 0\<rparr>]\<rparr>)"

definition EventsSet_finish :: "events_set \<Rightarrow> lib_error \<times> events_set" where
  "EventsSet_finish es =
     (if essEventsSetStatus es \<noteq> EVSET_EVENTSSETINITIALIZED
      then (EventsSetErrors EVSET_OPERATION_NOTALLOWED, es)
      else
        let es1 = snd (es_lock es);
            es2 = delete_destinations (for_each (pesmEventsSetHashMap es1)) es1;
            es3 = snd (es_unlock (es2\<lparr>pesmEventsSetHashMap := hash_map_clear (pesmEventsSetHashMap es2)\<rparr>));
            es4 = es3\<lparr>evSetMutex := snd (PMutex_finish (evSetMutex es3)),
                      mtFreeEvents := snd (PMutex_lock (mtFreeEvents es3))\<rparr>;
            es5 = fold delete_pool [0 ..< ulNumberOfDifferentEventTypeToManage es4] es4;
            (e, mf) = PMutex_unLock (mtFreeEvents es5)
        in if e \<noteq> NoError
           then (PThreadErrors THREADLIB_PMUTEX_UNLOCK_FAILED, es5\<lparr>mtFreeEvents := mf\<rparr>)
           else (NoError, es5\<lparr>mtFreeEvents := snd (PMutex_finish mf), petiEventTypeInfo := [],
                              essEventsSetStatus := EVSET_EVENTSSETBUILDED\<rparr>))"

section \<open>The pool of free events\<close>

definition pool_fail :: "lib_error \<Rightarrow> events_set \<Rightarrow> lib_error \<times> events_set" where
  "pool_fail err es = (err, es\<lparr>mtFreeEvents := snd (PMutex_unLock (mtFreeEvents es))\<rparr>)"

definition pool_done :: "events_set \<Rightarrow> lib_error \<times> events_set" where
  "pool_done es =
     (let (e, m) = PMutex_unLock (mtFreeEvents es); es1 = es\<lparr>mtFreeEvents := m\<rparr>
      in if e \<noteq> NoError then (PThreadErrors THREADLIB_PMUTEX_UNLOCK_FAILED, es1) else (NoError, es1))"

definition pool_enter :: "nat \<Rightarrow> events_set \<Rightarrow> (lib_error \<times> events_set) + events_set" where
  "pool_enter ulEventTypeIndex es =
     (let (e, m) = PMutex_lock (mtFreeEvents es); es1 = es\<lparr>mtFreeEvents := m\<rparr>
      in if e \<noteq> NoError then Inl (PThreadErrors THREADLIB_PMUTEX_LOCK_FAILED, es1)
         else if ulEventTypeIndex \<ge> ulNumberOfDifferentEventTypeToManage es1
         then Inl (pool_fail (EventsSetErrors
                EVSET_EVENTSSET_EVENTTYPEOVERCOMENUMBEROFDIFFERENTEVENTTYPES) es1)
         else Inr es1)"

text \<open>The result is the error, the event and the set; \<open>allocate\<close> is the virtual method.\<close>

definition pool_refill ::
  "(nat \<Rightarrow> event option list \<Rightarrow> event_type_info \<Rightarrow> lib_error \<times> event option list \<times> event_type_info) \<Rightarrow>
   nat \<Rightarrow> events_set \<Rightarrow> lib_error \<times> events_set" where
  "pool_refill allocate k es =
     (if vFreeEvents (petiEventTypeInfo es ! k) = [] then
        let (e, heap, ti) = allocate k (evHeap es) (petiEventTypeInfo es ! k);
            es1 = es\<lparr>evHeap := heap, petiEventTypeInfo := (petiEventTypeInfo es)[k := ti]\<rparr>
        in if e \<noteq> NoError then (e, es1)
           else if vFreeEvents ti = []
           then (EventsSetErrors EVSET_EVENTSSET_NOFREEEVENTSALLOCATED, es1)
           else (NoError, es1)
      else (NoError, es))"

definition getFreeEvent_with ::
  "(nat \<Rightarrow> event option list \<Rightarrow> event_type_info \<Rightarrow> lib_error \<times> event option list \<times> event_type_info) \<Rightarrow>
   events_set \<Rightarrow> nat \<Rightarrow> lib_error \<times> nat option \<times> events_set" where
  "getFreeEvent_with allocate es k =
     (case pool_enter k es of
        Inl (e, es1) \<Rightarrow> (e, None, es1)
      | Inr es1 \<Rightarrow>
          (case pool_refill allocate k es1 of (e, es2) \<Rightarrow>
             if e \<noteq> NoError then (let (e', es3) = pool_fail e es2 in (e', None, es3))
             else
               let ti = petiEventTypeInfo es2 ! k;
                   es3 = es2\<lparr>petiEventTypeInfo :=
                     (petiEventTypeInfo es2)[k := ti\<lparr>vFreeEvents := tl (vFreeEvents ti)\<rparr>]\<rparr>;
                   (e', es4) = pool_done es3
               in (e', Some (hd (vFreeEvents ti)), es4)))"

definition getFreeEvent :: "events_set \<Rightarrow> nat \<Rightarrow> lib_error \<times> nat option \<times> events_set" where
  "getFreeEvent = getFreeEvent_with allocateMoreFreeUserEvents"

definition releaseEvent :: "events_set \<Rightarrow> nat \<Rightarrow> nat \<Rightarrow> lib_error \<times> events_set" where
  "releaseEvent es k pevEvent =
     (case pool_enter k es of
        Inl r \<Rightarrow> r
      | Inr es1 \<Rightarrow>
          let ti = petiEventTypeInfo es1 ! k
          in pool_done (es1\<lparr>petiEventTypeInfo :=
               (petiEventTypeInfo es1)[k := ti\<lparr>vFreeEvents := vFreeEvents ti @ [pevEvent]\<rparr>]\<rparr>))"

section \<open>Adding\<close>

text \<open>
  A new structure for a destination. What its storage held does not matter: the constructor and
  \<open>init\<close> write every field of the buffer that is read. \<open>Inr\<close> gives its index.
\<close>

definition new_destination ::
  "(char list \<Rightarrow> int) \<Rightarrow> events_set \<Rightarrow> buffer \<Rightarrow> (nat \<times> events_set) option" where
  "new_destination hash es bDest = do {
     let i = length (destinationHeap es);
     let de = \<lparr>emEventsMultiMap = [], cdAddedEvent = (if bConditionVariablesToBeUsed es then Some 0 else None),
               bDestination = bDest\<rparr>;
     key \<leftarrow> c_str (Buffer_str bDest);
     t \<leftarrow> hash_map_insert 2 hash (pesmEventsSetHashMap es) key i;
     Some (i, es\<lparr>destinationHeap := destinationHeap es @ [Some de], pesmEventsSetHashMap := t\<rparr>)
   }"

definition signal_destination :: "destination_event \<Rightarrow> destination_event option" where
  "signal_destination de = map_option (\<lambda>n. de\<lparr>cdAddedEvent := Some (Suc n)\<rparr>) (cdAddedEvent de)"

text \<open>The expiration of the event at the head of a queue, read from the event itself.\<close>

definition head_expiration :: "events_set \<Rightarrow> (64 word, nat) multimap \<Rightarrow> (lib_error + 64 word) option option" where
  "head_expiration es q =
     (case q of
        [] \<Rightarrow> Some None
      | (k, h) # _ \<Rightarrow> map_option (\<lambda>ev. Some (getExpirationLocalDateTimeInMilliSecs ev)) (event_at es h))"

definition addEvent_to :: "events_set \<Rightarrow> nat \<Rightarrow> 64 word \<Rightarrow> nat \<Rightarrow> es_run" where
  "addEvent_to es i x pevEvent = do {
     de \<leftarrow> destination_at es i;
     head \<leftarrow> head_expiration es (emEventsMultiMap de);
     let de1 = de\<lparr>emEventsMultiMap := mm_insert x pevEvent (emEventsMultiMap de)\<rparr>;
     let signalled = (\<lambda>wake. do {
       de2 \<leftarrow> (if wake \<and> bConditionVariablesToBeUsed es then signal_destination de1 else Some de1);
       Some (es_done (es\<lparr>destinationHeap := (destinationHeap es)[i := Some de2]\<rparr>)) });
     (case head of
        Some (Inl e) \<Rightarrow>
          Some (es_fail (EventsSetErrors EVSET_EVENT_GETEXPIRATIONLOCALDATETIMEINMILLISECS_FAILED) es)
      | Some (Inr x') \<Rightarrow> signalled (x < x')
      | None \<Rightarrow> signalled True)
   }"

definition addEvent :: "(char list \<Rightarrow> int) \<Rightarrow> events_set \<Rightarrow> nat option \<Rightarrow> es_run" where
  "addEvent hash es pevEvent =
     (case pevEvent of
        None \<Rightarrow> Some (EventsSetErrors EVSET_ACTIVATION_WRONG, es)
      | Some p \<Rightarrow> do {
          ev \<leftarrow> event_at es p;
          (case getDestination ev of
             Inl e \<Rightarrow> Some (EventsSetErrors EVSET_EVENT_GETDESTINATION_FAILED, es)
           | Inr pbDestination \<Rightarrow>
          (case getExpirationLocalDateTimeInMilliSecs ev of
             Inl e \<Rightarrow> Some (EventsSetErrors EVSET_EVENT_GETEXPIRATIONLOCALDATETIMEINMILLISECS_FAILED, es)
           | Inr x \<Rightarrow>
          (case es_enter es of
             Inl r \<Rightarrow> Some r
           | Inr es1 \<Rightarrow> do {
               key \<leftarrow> c_str (Buffer_str pbDestination);
               found \<leftarrow> hash_map_find hash (pesmEventsSetHashMap es1) key;
               (case found of
                  Some i \<Rightarrow> addEvent_to es1 i x p
                | None \<Rightarrow> do {
                    (e, bDest) \<leftarrow> Buffer_init_default (Buffer_ctor blank_buffer) (Buffer_str pbDestination);
                    if e \<noteq> errNoError then Some (es_fail (ToolsErrors TOOLS_BUFFER_INIT_FAILED) es1)
                    else do {
                      (i, es2) \<leftarrow> new_destination hash es1 bDest;
                      addEvent_to es2 i x p
                    }
                  })
             })))
        })"

definition addDestination :: "(char list \<Rightarrow> int) \<Rightarrow> events_set \<Rightarrow> mem option \<Rightarrow> es_run" where
  "addDestination hash es pDestination =
     (case pDestination of
        None \<Rightarrow> Some (EventsSetErrors EVSET_ACTIVATION_WRONG, es)
      | Some src \<Rightarrow>
          (case es_enter es of
             Inl r \<Rightarrow> Some r
           | Inr es1 \<Rightarrow> do {
               (e, bDest) \<leftarrow> Buffer_init_default (Buffer_ctor blank_buffer) src;
               if e \<noteq> errNoError then Some (es_fail (ToolsErrors TOOLS_BUFFER_INIT_FAILED) es1)
               else do {
                 key \<leftarrow> c_str (Buffer_str bDest);
                 found \<leftarrow> hash_map_find hash (pesmEventsSetHashMap es1) key;
                 (case found of
                    Some i \<Rightarrow> Some (es_fail (EventsSetErrors EVSET_EVENTSSET_DESTINATIONALREADYADDED) es1)
                  | None \<Rightarrow> do {
                      (i, es2) \<leftarrow> new_destination hash es1 bDest;
                      Some (es_done es2)
                    })
               }
             }))"

section \<open>Removing a given event\<close>

definition deleteEvent :: "(char list \<Rightarrow> int) \<Rightarrow> events_set \<Rightarrow> nat option \<Rightarrow> es_run" where
  "deleteEvent hash es pevEvent =
     (case pevEvent of
        None \<Rightarrow> Some (EventsSetErrors EVSET_ACTIVATION_WRONG, es)
      | Some p \<Rightarrow> do {
          ev \<leftarrow> event_at es p;
          (case getDestination ev of
             Inl e \<Rightarrow> Some (EventsSetErrors EVSET_EVENT_GETDESTINATION_FAILED, es)
           | Inr pbDestination \<Rightarrow>
          (case getExpirationLocalDateTimeInMilliSecs ev of
             Inl e \<Rightarrow> Some (EventsSetErrors EVSET_EVENT_GETEXPIRATIONLOCALDATETIMEINMILLISECS_FAILED, es)
           | Inr x \<Rightarrow>
          (case es_enter es of
             Inl r \<Rightarrow> Some r
           | Inr es1 \<Rightarrow> do {
               key \<leftarrow> c_str (Buffer_str pbDestination);
               found \<leftarrow> hash_map_find hash (pesmEventsSetHashMap es1) key;
               (case found of
                  None \<Rightarrow> Some (es_fail (EventsSetErrors EVSET_EVENTSSET_DESTINATIONNOTFOUND) es1)
                | Some i \<Rightarrow> do {
                    de \<leftarrow> destination_at es1 i;
                    (case mm_find x (emEventsMultiMap de) of
                       None \<Rightarrow> Some (es_fail (EventsSetErrors EVSET_EVENTSSET_EVENTNOTFOUND) es1)
                     | Some j \<Rightarrow>
                         Some (es_done (es1\<lparr>destinationHeap := (destinationHeap es1)[i :=
                           Some (de\<lparr>emEventsMultiMap := mm_erase j (emEventsMultiMap de)\<rparr>)]\<rparr>)))
                  })
             })))
        })"

end
