(* ===== verification/EventsSetWait.thy ===== *)
theory EventsSetWait
  imports EventsSet
begin

text \<open>
  The calls of \<open>EventsSet\<close> that may wait: \<open>getFirstEvent\<close> and \<open>getAndRemoveFirstEvent\<close>.

  A call is cut at \<open>timedWait\<close>, where the mutex is released and other threads run: it either has
  returned or is blocked, and \<open>resume\<close> goes on from a blocked call with what \<open>timedWait\<close> gave, the
  set as the other threads left it and the clock (\<open>None\<close> when \<open>nowLocalInMilliSecs\<close> fails). Each turn
  of the two loops of \<open>getAndRemoveFirstEvent\<close> is one \<open>resume\<close>. The times are in 64 bit arithmetic.
\<close>

section \<open>Blocked calls\<close>

datatype wait_result = Signalled | TimedOut | WaitFailed lib_error

datatype waiting_in = GetFirst | FirstLoop | SecondLoop

record waiter =
  wtIn :: waiting_in
  wtDestination :: nat
  wtInitial :: "64 word"
  ulMilliSecondsToWait :: "64 word"
  ulRemainingSecondsToWait :: "64 word"
  ulRemainingMilliSecondsToWait :: "64 word"
  wtEvent :: "nat option"

text \<open>The output parameters are the event (also written on some error paths) and, of
  \<open>getFirstEvent\<close>, whether it expired.\<close>

datatype outcome =
    Returned lib_error "nat option" "bool option" events_set
  | Blocked waiter events_set

definition return_fail :: "lib_error \<Rightarrow> nat option \<Rightarrow> events_set \<Rightarrow> outcome" where
  "return_fail err p es = (case es_fail err es of (e, es1) \<Rightarrow> Returned e p None es1)"

definition return_done :: "nat option \<Rightarrow> bool option \<Rightarrow> events_set \<Rightarrow> outcome" where
  "return_done p b es = (case es_done es of (e, es1) \<Rightarrow> Returned e p b es1)"

text \<open>\<open>timedWait\<close> releases the mutex and takes it again before it returns.\<close>

definition block :: "waiter \<Rightarrow> events_set \<Rightarrow> outcome" where
  "block w es = Blocked w (snd (es_unlock es))"

definition wait_for :: "waiter \<Rightarrow> 64 word \<Rightarrow> waiter" where
  "wait_for w t = w\<lparr>ulRemainingSecondsToWait := t div 1000,
                    ulRemainingMilliSecondsToWait := t - (t div 1000) * 1000\<rparr>"

definition lRemainingTimeInMilliSecs :: "waiter \<Rightarrow> 64 word \<Rightarrow> 64 word" where
  "lRemainingTimeInMilliSecs w now = ulMilliSecondsToWait w - (now - wtInitial w)"

section \<open>getAndRemoveFirstEvent\<close>

text \<open>One turn of the second loop, up to its \<open>timedWait\<close> or the return of the method.\<close>

definition second_loop :: "bool \<Rightarrow> waiter \<Rightarrow> 64 word option \<Rightarrow> events_set \<Rightarrow> outcome option" where
  "second_loop bBlocking w clock es = do {
     de \<leftarrow> destination_at es (wtDestination w);
     (case emEventsMultiMap de of
        [] \<Rightarrow> Some (return_fail (EventsSetErrors EVSET_EVENTSSET_NOEVENTSFOUND) (wtEvent w) es)
      | (k, p) # q \<Rightarrow> do {
          ev \<leftarrow> event_at es p;
          (case (getExpirationLocalDateTimeInMilliSecs ev, clock) of
             (Inl e, _) \<Rightarrow> Some (return_fail (EventsSetErrors
                 EVSET_EVENT_GETEXPIRATIONLOCALDATETIMEINMILLISECS_FAILED) (Some p) es)
           | (Inr x, None) \<Rightarrow>
               Some (return_fail (ClockErrors TOOLS_DATETIME_NOWLOCALINMILLISECS_FAILED) (Some p) es)
           | (Inr x, Some now) \<Rightarrow>
               if now < x then
                 if \<not> bConditionVariablesToBeUsed es \<or> \<not> bBlocking
                 then Some (return_fail (EventsSetErrors EVSET_EVENTSSET_EVENTNOTEXPIREDYET) (Some p) es)
                 else
                   let remaining = lRemainingTimeInMilliSecs w now; w1 = w\<lparr>wtIn := SecondLoop, wtEvent := Some p\<rparr>
                   in if sint remaining \<le> 0
                      then Some (return_fail (EventsSetErrors EVSET_EVENTSSET_EVENTNOTEXPIREDYET) (Some p) es)
                      else if sint (x - now) \<le> sint remaining then Some (block (wait_for w1 (x - now)) es)
                      else Some (block (wait_for w1 remaining) es)
               else
                 Some (return_done (Some p) None (es\<lparr>destinationHeap := (destinationHeap es)[wtDestination w :=
                   Some (de\<lparr>emEventsMultiMap := mm_erase 0 (emEventsMultiMap de)\<rparr>)]\<rparr>)))
        })
   }"

text \<open>The part of the first loop after a \<open>timedWait\<close> that did not bring an event.\<close>

definition wait_again :: "waiter \<Rightarrow> 64 word option \<Rightarrow> events_set \<Rightarrow> outcome" where
  "wait_again w clock es =
     (case clock of
        None \<Rightarrow> return_fail (ClockErrors TOOLS_DATETIME_NOWLOCALINMILLISECS_FAILED) (wtEvent w) es
      | Some now \<Rightarrow>
          let remaining = lRemainingTimeInMilliSecs w now
          in if sint remaining \<le> 0
             then return_fail (EventsSetErrors EVSET_EVENTSSET_NOEVENTSFOUND) (wtEvent w) es
             else block (wait_for w remaining) es)"

text \<open>
  The method up to its first \<open>timedWait\<close>. \<open>clock0\<close> is read before the mutex is taken (when
  blocking), \<open>clock\<close> in the second loop. The first wait gets the values of the caller.
\<close>

definition getAndRemoveFirstEvent ::
  "(char list \<Rightarrow> int) \<Rightarrow> events_set \<Rightarrow> buffer option \<Rightarrow> bool \<Rightarrow> bool \<Rightarrow> 64 word \<Rightarrow> 64 word \<Rightarrow>
   64 word option \<Rightarrow> 64 word option \<Rightarrow> outcome option" where
  "getAndRemoveFirstEvent hash es pbDestination pevEvent_null bBlocking
     ulSecondsToBlock ulAdditionalMilliSecondsToBlock clock0 clock =
     (case pbDestination of
        None \<Rightarrow> Some (Returned (EventsSetErrors EVSET_ACTIVATION_WRONG) None None es)
      | Some dst \<Rightarrow>
          if pevEvent_null then Some (Returned (EventsSetErrors EVSET_ACTIVATION_WRONG) None None es)
          else if bBlocking \<and> clock0 = None
          then Some (Returned (ClockErrors TOOLS_DATETIME_NOWLOCALINMILLISECS_FAILED) None None es)
          else
            (case es_enter es of
               Inl (e, es1) \<Rightarrow> Some (Returned e None None es1)
             | Inr es1 \<Rightarrow> do {
                 key \<leftarrow> c_str (Buffer_str dst);
                 found \<leftarrow> hash_map_find hash (pesmEventsSetHashMap es1) key;
                 (case found of
                    None \<Rightarrow>
                      Some (return_fail (EventsSetErrors EVSET_EVENTSSET_DESTINATIONNOTFOUND) None es1)
                  | Some i \<Rightarrow> do {
                      de \<leftarrow> destination_at es1 i;
                      let w = \<lparr>wtIn = FirstLoop, wtDestination = i,
                               wtInitial = (case clock0 of Some t \<Rightarrow> t | None \<Rightarrow> 0),
                               ulMilliSecondsToWait = ulSecondsToBlock * 1000 + ulAdditionalMilliSecondsToBlock,
                               ulRemainingSecondsToWait = ulSecondsToBlock,
                               ulRemainingMilliSecondsToWait = ulAdditionalMilliSecondsToBlock, wtEvent = None\<rparr>;
                      if emEventsMultiMap de = [] then
                        if bConditionVariablesToBeUsed es1 \<and> bBlocking then Some (block w es1)
                        else Some (return_fail (EventsSetErrors EVSET_EVENTSSET_NOEVENTSFOUND) None es1)
                      else second_loop bBlocking w clock es1
                    })
               }))"

section \<open>getFirstEvent\<close>

definition first_event_found :: "waiter \<Rightarrow> 64 word option \<Rightarrow> events_set \<Rightarrow> outcome option" where
  "first_event_found w clock es = do {
     de \<leftarrow> destination_at es (wtDestination w);
     (case emEventsMultiMap de of
        [] \<Rightarrow> None
      | (k, p) # q \<Rightarrow> do {
          ev \<leftarrow> event_at es p;
          Some (case (getExpirationLocalDateTimeInMilliSecs ev, clock) of
             (Inl e, _) \<Rightarrow> return_fail (EventsSetErrors
                 EVSET_EVENT_GETEXPIRATIONLOCALDATETIMEINMILLISECS_FAILED) (Some p) es
           | (Inr x, None) \<Rightarrow> return_fail (ClockErrors TOOLS_DATETIME_NOWLOCALINMILLISECS_FAILED) (Some p) es
           | (Inr x, Some now) \<Rightarrow> return_done (Some p) (Some (\<not> now < x)) es)
        })
   }"

definition getFirstEvent ::
  "(char list \<Rightarrow> int) \<Rightarrow> events_set \<Rightarrow> buffer option \<Rightarrow> bool \<Rightarrow> bool \<Rightarrow> 64 word \<Rightarrow> 64 word \<Rightarrow>
   64 word option \<Rightarrow> outcome option" where
  "getFirstEvent hash es pbDestination pevEvent_null bBlocking
     ulSecondsToBlock ulAdditionalMilliSecondsToBlock clock =
     (case pbDestination of
        None \<Rightarrow> Some (Returned (EventsSetErrors EVSET_ACTIVATION_WRONG) None None es)
      | Some dst \<Rightarrow>
          if pevEvent_null then Some (Returned (EventsSetErrors EVSET_ACTIVATION_WRONG) None None es)
          else
            (case es_enter es of
               Inl (e, es1) \<Rightarrow> Some (Returned e None None es1)
             | Inr es1 \<Rightarrow> do {
                 key \<leftarrow> c_str (Buffer_str dst);
                 found \<leftarrow> hash_map_find hash (pesmEventsSetHashMap es1) key;
                 (case found of
                    None \<Rightarrow>
                      Some (return_fail (EventsSetErrors EVSET_EVENTSSET_DESTINATIONNOTFOUND) None es1)
                  | Some i \<Rightarrow> do {
                      de \<leftarrow> destination_at es1 i;
                      let w = \<lparr>wtIn = GetFirst, wtDestination = i, wtInitial = 0, ulMilliSecondsToWait = 0,
                               ulRemainingSecondsToWait = ulSecondsToBlock,
                               ulRemainingMilliSecondsToWait = ulAdditionalMilliSecondsToBlock, wtEvent = None\<rparr>;
                      if emEventsMultiMap de = [] then
                        if bConditionVariablesToBeUsed es1 \<and> bBlocking then Some (block w es1)
                        else Some (return_fail (EventsSetErrors EVSET_EVENTSSET_NOEVENTSFOUND) None es1)
                      else first_event_found w clock es1
                    })
               }))"

section \<open>Going on after timedWait\<close>

definition getFirst_after_wait :: "waiter \<Rightarrow> wait_result \<Rightarrow> 64 word option \<Rightarrow> events_set \<Rightarrow> outcome option" where
  "getFirst_after_wait w r clock es =
     (case r of
        WaitFailed e \<Rightarrow> Some (return_fail e None es)
      | TimedOut \<Rightarrow> Some (return_fail (EventsSetErrors EVSET_EVENTSSET_NOEVENTSFOUND) None es)
      | Signalled \<Rightarrow> do {
          de \<leftarrow> destination_at es (wtDestination w);
          if emEventsMultiMap de = []
          then Some (return_fail (PThreadErrors THREADLIB_PCONDITION_TIMEDWAIT_FAILED) None es)
          else first_event_found w clock es
        })"

definition first_loop_after_wait :: "waiter \<Rightarrow> wait_result \<Rightarrow> 64 word option \<Rightarrow> events_set \<Rightarrow> outcome option" where
  "first_loop_after_wait w r clock es =
     (case r of
        WaitFailed e \<Rightarrow> Some (return_fail e (wtEvent w) es)
      | TimedOut \<Rightarrow> Some (wait_again w clock es)
      | Signalled \<Rightarrow> do {
          de \<leftarrow> destination_at es (wtDestination w);
          if emEventsMultiMap de = [] then Some (wait_again w clock es)
          else second_loop True w clock es
        })"

definition second_loop_after_wait :: "waiter \<Rightarrow> wait_result \<Rightarrow> 64 word option \<Rightarrow> events_set \<Rightarrow> outcome option" where
  "second_loop_after_wait w r clock es =
     (case r of
        WaitFailed e \<Rightarrow> Some (return_fail e (wtEvent w) es)
      | _ \<Rightarrow> second_loop True w clock es)"

definition resume :: "waiter \<Rightarrow> wait_result \<Rightarrow> 64 word option \<Rightarrow> events_set \<Rightarrow> outcome option" where
  "resume w r clock es =
     (let es1 = snd (es_lock es)
      in case wtIn w of
           GetFirst \<Rightarrow> getFirst_after_wait w r clock es1
         | FirstLoop \<Rightarrow> first_loop_after_wait w r clock es1
         | SecondLoop \<Rightarrow> second_loop_after_wait w r clock es1)"

lemmas resume_defs = resume_def getFirst_after_wait_def first_loop_after_wait_def second_loop_after_wait_def

text \<open>A whole call: the list says how each wait ended, what the others made of the set while it
  lasted, and the clock after it. The result is the outcome after the last of them.\<close>

fun run_waits ::
  "outcome \<Rightarrow> (wait_result \<times> (events_set \<Rightarrow> events_set) \<times> 64 word option) list \<Rightarrow> outcome option" where
  "run_waits (Returned e p b es) script = Some (Returned e p b es)"
| "run_waits (Blocked w es) [] = Some (Blocked w es)"
| "run_waits (Blocked w es) ((r, others, clock) # script) =
     Option.bind (resume w r clock (others es)) (\<lambda>out. run_waits out script)"

end
