(* ===== verification/EventsSetSpec.thy ===== *)
theory EventsSetSpec
  imports EventsSetWait
begin

text \<open>
  What an initialised \<open>EventsSet\<close> means: the queue of every destination (\<open>es_queues\<close>), its
  invariant, and the effect of the operations that do not wait.
\<close>

section \<open>Invariant\<close>

definition destination_ok :: "events_set \<Rightarrow> char list \<Rightarrow> destination_event \<Rightarrow> bool" where
  "destination_ok es d de \<longleftrightarrow>
     mm_sorted (emEventsMultiMap de) \<and>
     (\<forall>(k, p) \<in> set (emEventsMultiMap de). \<exists>ev. event_at es p = Some ev \<and> event_is ev d k) \<and>
     (bConditionVariablesToBeUsed es \<longrightarrow> cdAddedEvent de \<noteq> None) \<and>
     Buffer_holds (bDestination de) d"

text \<open>\<open>n\<close> is how often the running call locked the mutex of the set.\<close>

definition es_ok :: "(char list \<Rightarrow> int) \<Rightarrow> nat \<Rightarrow> events_set \<Rightarrow> bool" where
  "es_ok hash n es \<longleftrightarrow>
     essEventsSetStatus es = EVSET_EVENTSSETINITIALIZED \<and> evSetMutex es = Some n \<and>
     hm_wf hash (pesmEventsSetHashMap es) \<and>
     (\<forall>d d' i. hm_map (pesmEventsSetHashMap es) d = Some i \<longrightarrow>
        hm_map (pesmEventsSetHashMap es) d' = Some i \<longrightarrow> d = d') \<and>
     (\<forall>d i. hm_map (pesmEventsSetHashMap es) d = Some i \<longrightarrow>
        (\<exists>de. destination_at es i = Some de \<and> destination_ok es d de))"

abbreviation destination_index :: "events_set \<Rightarrow> char list \<Rightarrow> nat option" where
  "destination_index es \<equiv> hm_map (pesmEventsSetHashMap es)"

definition es_queues :: "events_set \<Rightarrow> char list \<Rightarrow> (64 word, nat) multimap option" where
  "es_queues es d = Option.bind (destination_index es d) (\<lambda>i. map_option emEventsMultiMap (destination_at es i))"

text \<open>The signals a destination got.\<close>

definition es_signals :: "events_set \<Rightarrow> char list \<Rightarrow> nat option" where
  "es_signals es d = Option.bind (destination_index es d) (\<lambda>i. Option.bind (destination_at es i) cdAddedEvent)"

text \<open>What the operations on the queues do not touch; no destination is deleted.\<close>

definition same_events :: "events_set \<Rightarrow> events_set \<Rightarrow> bool" where
  "same_events es es' \<longleftrightarrow> evHeap es' = evHeap es \<and> petiEventTypeInfo es' = petiEventTypeInfo es \<and>
     mtFreeEvents es' = mtFreeEvents es \<and>
     ulNumberOfDifferentEventTypeToManage es' = ulNumberOfDifferentEventTypeToManage es \<and>
     bConditionVariablesToBeUsed es' = bConditionVariablesToBeUsed es \<and>
     destination_index es \<subseteq>\<^sub>m destination_index es'"

lemma same_events_refl [simp, intro]: "same_events es es"
  by (simp add: same_events_def)

lemma same_events_trans [trans]: "same_events a b \<Longrightarrow> same_events b c \<Longrightarrow> same_events a c"
  by (auto simp: same_events_def intro: map_le_trans)

lemma es_okD:
  assumes "es_ok hash n es"
  shows "essEventsSetStatus es = EVSET_EVENTSSETINITIALIZED" "evSetMutex es = Some n"
    "hm_wf hash (pesmEventsSetHashMap es)"
    "destination_index es d = Some i \<Longrightarrow> \<exists>de. destination_at es i = Some de \<and> destination_ok es d de"
    "destination_index es d = Some i \<Longrightarrow> destination_index es d' = Some i \<Longrightarrow> d = d'"
  using assms unfolding es_ok_def by blast+

lemma es_ok_lookup:
  assumes "es_ok hash n es" "destination_index es d = Some i"
  obtains de where "destination_at es i = Some de" "destination_ok es d de"
    "es_queues es d = Some (emEventsMultiMap de)" "es_signals es d = cdAddedEvent de"
  using es_okD(4) [OF assms] assms(2) by (auto simp: es_queues_def es_signals_def)

lemma es_queues_dom: "es_ok hash n es \<Longrightarrow> es_queues es d = None \<longleftrightarrow> destination_index es d = None"
  using es_okD(4) [of hash n es d] by (cases "destination_index es d") (auto simp: es_queues_def)

lemma es_queue_sorted: "es_ok hash n es \<Longrightarrow> es_queues es d = Some q \<Longrightarrow> mm_sorted q"
  using es_okD(4) [of hash n es d] by (cases "destination_index es d") (auto simp: es_queues_def destination_ok_def)

lemma es_queue_event:
  "es_ok hash n es \<Longrightarrow> es_queues es d = Some q \<Longrightarrow> (k, p) \<in> set q \<Longrightarrow>
   \<exists>ev. event_at es p = Some ev \<and> event_is ev d k"
  using es_okD(4) [of hash n es d] by (cases "destination_index es d") (auto simp: es_queues_def destination_ok_def)

section \<open>Locking\<close>

lemma mutex_update [simp]:
  "es_queues (es\<lparr>evSetMutex := m\<rparr>) = es_queues es" "es_signals (es\<lparr>evSetMutex := m\<rparr>) = es_signals es"
  "same_events es (es\<lparr>evSetMutex := m\<rparr>)" "same_events es (es'\<lparr>evSetMutex := m\<rparr>) = same_events es es'"
  by (simp_all add: fun_eq_iff es_queues_def es_signals_def same_events_def)

lemma es_ok_mutex: "es_ok hash n es \<Longrightarrow> es_ok hash m (es\<lparr>evSetMutex := Some m\<rparr>)"
  by (simp add: es_ok_def destination_ok_def)

lemma locking:
  assumes "evSetMutex es = Some n"
  shows "es_lock es = (NoError, es\<lparr>evSetMutex := Some (Suc n)\<rparr>)"
    "n = Suc m \<Longrightarrow> es_unlock es = (NoError, es\<lparr>evSetMutex := Some m\<rparr>)"
    "n = Suc m \<Longrightarrow> es_fail err es = (err, es\<lparr>evSetMutex := Some m\<rparr>)"
    "n = Suc m \<Longrightarrow> es_done es = (NoError, es\<lparr>evSetMutex := Some m\<rparr>)"
  using assms by (simp_all add: es_lock_def es_unlock_def es_fail_def es_done_def PMutex_lock_def PMutex_unLock_def)

lemma es_enter_ok:
  "es_ok hash n es \<Longrightarrow> es_enter es = Inr (es\<lparr>evSetMutex := Some (Suc n)\<rparr>)"
  by (simp add: es_enter_def locking(1) [OF es_okD(2)] es_okD(1))

section \<open>The destinations\<close>

lemma deref_update: "i < length h \<Longrightarrow> deref (h[i := x]) j = (if j = i then x else deref h j)"
  by (auto simp: deref_def)

lemma deref_less: "deref h i = Some x \<Longrightarrow> i < length h"
  by (simp add: deref_def split: if_splits)

lemma destination_ok_mono:
  "destination_ok es d de \<Longrightarrow> evHeap es' = evHeap es \<Longrightarrow>
   bConditionVariablesToBeUsed es' = bConditionVariablesToBeUsed es \<Longrightarrow> destination_ok es' d de"
  by (simp add: destination_ok_def)

lemma destination_update:
  assumes ok: "es_ok hash n es" and i: "destination_index es d = Some i" and de: "destination_ok es d de"
  defines "es' \<equiv> es\<lparr>destinationHeap := (destinationHeap es)[i := Some de]\<rparr>"
  shows "es_ok hash n es'" "es_queues es' = (es_queues es)(d \<mapsto> emEventsMultiMap de)"
    "es_signals es' = (es_signals es)(d := cdAddedEvent de)" "same_events es es'"
proof -
  obtain de0 where il: "destination_at es i = Some de0" using es_okD(4) [OF ok i] by blast
  note at = deref_update [OF deref_less [OF il], of "Some de"]
  have other: "(j = i) = (d' = d)" if j: "destination_index es d' = Some j" for d' j
  proof
    assume "j = i"
    then show "d' = d" using es_okD(5) [OF ok i, of d'] j by simp
  qed (use i j in simp)
  have kept: "destination_ok es' d' x = destination_ok es d' x" for d' x
    by (simp add: es'_def destination_ok_def)
  show "es_ok hash n es'"
    unfolding es_ok_def
  proof (intro conjI allI impI)
    fix d' j assume j: "destination_index es' d' = Some j"
    show "\<exists>x. destination_at es' j = Some x \<and> destination_ok es' d' x"
      using j other [of d' j] es_okD(4) [OF ok, of d' j] de kept at [of j]
      by (cases "d' = d") (auto simp: es'_def)
  qed (use ok in \<open>auto simp: es_ok_def es'_def\<close>)
  show "es_queues es' = (es_queues es)(d \<mapsto> emEventsMultiMap de)"
  proof
    fix d' show "es_queues es' d' = ((es_queues es)(d \<mapsto> emEventsMultiMap de)) d'"
      using i other [of d'] at by (cases "destination_index es d'") (auto simp: es_queues_def es'_def)
  qed
  show "es_signals es' = (es_signals es)(d := cdAddedEvent de)"
  proof
    fix d' show "es_signals es' d' = ((es_signals es)(d := cdAddedEvent de)) d'"
      using i other [of d'] at by (cases "destination_index es d'") (auto simp: es_signals_def es'_def)
  qed
qed (simp add: es'_def same_events_def)

text \<open>Looking up and inserting in the hash map go through the interface \<open>finite_map\<close>.\<close>

lemma lookup_destination: "es_ok hash n es \<Longrightarrow> hash_map_find hash (pesmEventsSetHashMap es) d = Some (destination_index es d)"
  by (rule hm.find_law [OF es_okD(3)])

lemma new_destination_ok:
  assumes ok: "es_ok hash n es" and new: "destination_index es d = None"
    and room: "maxLength (pesmEventsSetHashMap es) < 2 ^ 30" and b: "Buffer_holds b d"
  shows "\<exists>i es'. new_destination hash es b = Some (i, es') \<and> es_ok hash n es' \<and>
           destination_index es' d = Some i \<and> es_queues es' = (es_queues es)(d \<mapsto> []) \<and>
           es_signals es' = (es_signals es)(d := (if bConditionVariablesToBeUsed es then Some 0 else None)) \<and>
           same_events es es'"
proof -
  let ?i = "length (destinationHeap es)"
  let ?de = "\<lparr>emEventsMultiMap = [], cdAddedEvent = (if bConditionVariablesToBeUsed es then Some 0 else None),
               bDestination = b\<rparr>"
  have "\<exists>t. hash_map_insert (Suc (Suc 0)) hash (pesmEventsSetHashMap es) d ?i = Some t \<and>
      hm_wf hash t \<and> hm_map t = (destination_index es)(d \<mapsto> ?i)"
    by (rule hm.ins_law [OF es_okD(3) [OF ok] room])
  then obtain t where t: "hash_map_insert 2 hash (pesmEventsSetHashMap es) d ?i = Some t"
      "hm_wf hash t" "hm_map t = (destination_index es)(d \<mapsto> ?i)"
    unfolding numeral_2_eq_2 by blast
  let ?es = "es\<lparr>destinationHeap := destinationHeap es @ [Some ?de], pesmEventsSetHashMap := t\<rparr>"
  have key: "c_str (Buffer_str b) = Some d"
    using b by (simp add: Buffer_str_def Buffer_holdsD)
  have old: "i < ?i" if "destination_index es d' = Some i" for d' i
    using es_okD(4) [OF ok that] by (auto dest: deref_less)
  have at: "deref (destinationHeap es @ [Some ?de]) i = (if i = ?i then Some ?de else destination_at es i)" for i
    by (auto simp: deref_def nth_append)
  have "es_ok hash n ?es"
    unfolding es_ok_def
  proof (intro conjI allI impI)
    fix d1 d2 j assume j: "destination_index ?es d1 = Some j" "destination_index ?es d2 = Some j"
    have "destination_index es d' \<noteq> Some ?i" for d' using old [of d' ?i] by auto
    then show "d1 = d2" using j t(3) es_okD(5) [OF ok, of d1 j d2] by (auto split: if_splits)
  next
    fix d' j assume "destination_index ?es d' = Some j"
    then have "d' = d \<and> j = ?i \<or> d' \<noteq> d \<and> destination_index es d' = Some j" using t(3) by (auto split: if_splits)
    then show "\<exists>x. destination_at ?es j = Some x \<and> destination_ok ?es d' x"
    proof
      assume "d' = d \<and> j = ?i"
      then show ?thesis using at [of ?i] b by (auto simp: destination_ok_def mm_sorted_def)
    next
      assume j: "d' \<noteq> d \<and> destination_index es d' = Some j"
      then obtain x where "destination_at es j = Some x" "destination_ok es d' x" using es_okD(4) [OF ok] by blast
      moreover have "j \<noteq> ?i" using old j by fastforce
      ultimately show ?thesis using at [of j] by (auto simp: destination_ok_def)
    qed
  qed (use ok t in \<open>auto simp: es_ok_def\<close>)
  moreover have "es_queues ?es = (es_queues es)(d \<mapsto> [])"
  proof
    fix d' show "es_queues ?es d' = ((es_queues es)(d \<mapsto> [])) d'"
      using t(3) at old [of d'] by (cases "destination_index es d'") (auto simp: es_queues_def)
  qed
  moreover have "es_signals ?es = (es_signals es)(d := cdAddedEvent ?de)"
  proof
    fix d' show "es_signals ?es d' = ((es_signals es)(d := cdAddedEvent ?de)) d'"
      using t(3) at old [of d'] by (cases "destination_index es d'") (auto simp: es_signals_def)
  qed
  moreover have "new_destination hash es b = Some (?i, ?es)"
    using key t(1) by (simp add: new_destination_def Let_def)
  moreover have "destination_index es \<subseteq>\<^sub>m (destination_index es)(d \<mapsto> ?i)"
    using new by (auto simp: map_le_def)
  ultimately show ?thesis using t(3) by (simp add: same_events_def)
qed

end
