(* ===== verification/EventsSetOps.thy ===== *)
theory EventsSetOps
  imports EventsSetSpec
begin

text \<open>
  The effect of every operation of \<open>EventsSet\<close> on the queues of an initialised set.
\<close>

section \<open>Adding\<close>

text \<open>The head of a well formed queue expires at its key.\<close>

lemma head_expiration_ok:
  assumes "es_ok hash n es" "es_queues es d = Some q"
  shows "head_expiration es q = Some (case q of [] \<Rightarrow> None | (k, p) # _ \<Rightarrow> Some (Inr k))"
proof (cases q)
  case (Cons kp r)
  then show ?thesis
    using es_queue_event [OF assms, of "fst kp" "snd kp"]
    by (cases kp) (auto simp: head_expiration_def dest: event_is_get)
qed (simp add: head_expiration_def)

text \<open>Whether an event that expires at \<open>x\<close> wakes the thread that waits on the queue \<open>q\<close>.\<close>

definition wakes :: "64 word \<Rightarrow> (64 word, nat) multimap \<Rightarrow> bool" where
  "wakes x q = (case q of [] \<Rightarrow> True | (k, p) # _ \<Rightarrow> x < k)"

lemma addEvent_to_ok:
  assumes ok: "es_ok hash (Suc n) es" and i: "destination_index es d = Some i"
    and ev: "event_at es p = Some ev" "event_is ev d x"
  shows "\<exists>es' q. addEvent_to es i x p = Some (NoError, es') \<and> es_ok hash n es' \<and> same_events es es' \<and>
    es_queues es d = Some q \<and> es_queues es' = (es_queues es)(d \<mapsto> mm_insert x p q) \<and>
    es_signals es' = (if bConditionVariablesToBeUsed es \<and> wakes x q
      then (es_signals es)(d := map_option Suc (es_signals es d)) else es_signals es)"
proof -
  obtain de where de: "destination_at es i = Some de" "destination_ok es d de"
    "es_queues es d = Some (emEventsMultiMap de)" "es_signals es d = cdAddedEvent de"
    by (rule es_ok_lookup [OF ok i])
  let ?q = "emEventsMultiMap de"
  let ?b = "wakes x ?q \<and> bConditionVariablesToBeUsed es"
  let ?de = "de\<lparr>emEventsMultiMap := mm_insert x p ?q, cdAddedEvent := (if ?b then map_option Suc (cdAddedEvent de) else cdAddedEvent de)\<rparr>"
  let ?es = "es\<lparr>destinationHeap := (destinationHeap es)[i := Some ?de]\<rparr>"
  have deok: "destination_ok es d ?de"
    using de(2) ev mm_insert_sorted [of ?q x p] by (auto simp: destination_ok_def mm_insert_set)
  note up = destination_update [OF ok i deok]
  have cond: "bConditionVariablesToBeUsed es \<Longrightarrow> \<exists>m. cdAddedEvent de = Some m"
    using de(2) by (auto simp: destination_ok_def)
  have "addEvent_to es i x p = Some (es_done ?es)"
    using de(1) head_expiration_ok [OF ok de(3)] cond
    by (cases ?q) (auto simp: addEvent_to_def Let_def wakes_def signal_destination_def)
  then have run: "addEvent_to es i x p = Some (NoError, ?es\<lparr>evSetMutex := Some n\<rparr>)"
    using locking(4) [OF es_okD(2) [OF up(1)] refl] by simp
  show ?thesis
  proof (intro exI conjI)
    show "addEvent_to es i x p = Some (NoError, ?es\<lparr>evSetMutex := Some n\<rparr>)" by (rule run)
    show "es_ok hash n (?es\<lparr>evSetMutex := Some n\<rparr>)" by (rule es_ok_mutex [OF up(1)])
    show "same_events es (?es\<lparr>evSetMutex := Some n\<rparr>)" using up(4) unfolding mutex_update .
    show "es_queues es d = Some ?q" by (rule de(3))
    show "es_queues (?es\<lparr>evSetMutex := Some n\<rparr>) = (es_queues es)(d \<mapsto> mm_insert x p ?q)"
      using up(2) unfolding mutex_update by simp
    show "es_signals (?es\<lparr>evSetMutex := Some n\<rparr>) = (if bConditionVariablesToBeUsed es \<and> wakes x ?q
      then (es_signals es)(d := map_option Suc (es_signals es d)) else es_signals es)"
      using up(3) de(4) unfolding mutex_update by auto
  qed
qed

definition the_queue :: "(64 word, nat) multimap option \<Rightarrow> (64 word, nat) multimap" where
  "the_queue m = (case m of Some q \<Rightarrow> q | None \<Rightarrow> [])"

lemma addEvent_ok:
  assumes ok: "es_ok hash 0 es" and room: "maxLength (pesmEventsSetHashMap es) < 2 ^ 30"
    and ev: "event_at es p = Some ev" "event_is ev d x"
  shows "\<exists>es'. addEvent hash es (Some p) = Some (NoError, es') \<and> es_ok hash 0 es' \<and> same_events es es' \<and>
    es_queues es' = (es_queues es)(d \<mapsto> mm_insert x p (the_queue (es_queues es d))) \<and>
    (bConditionVariablesToBeUsed es \<longrightarrow> wakes x (the_queue (es_queues es d)) \<longrightarrow>
       es_signals es' d = Some (Suc (case es_signals es d of Some m \<Rightarrow> m | None \<Rightarrow> 0)))"
proof -
  let ?es = "es\<lparr>evSetMutex := Some (Suc 0)\<rparr>"
  have ok1: "es_ok hash (Suc 0) ?es" using es_ok_mutex [OF ok, of "Suc 0"] by simp
  have dst: "c_str (Buffer_str (bEvDestination ev)) = Some d"
    using ev(2) by (auto simp: event_is_def Buffer_str_def Buffer_holdsD)
  have run: "addEvent hash es (Some p) = (case destination_index es d of
      Some i \<Rightarrow> addEvent_to ?es i x p
    | None \<Rightarrow> do {
        (e, bDest) \<leftarrow> Buffer_init_default (Buffer_ctor blank_buffer) (Buffer_str (bEvDestination ev));
        if e \<noteq> errNoError then Some (es_fail (ToolsErrors TOOLS_BUFFER_INIT_FAILED) ?es)
        else do { (i, es2) \<leftarrow> new_destination hash ?es bDest; addEvent_to es2 i x p }
      })"
    using ev(1) event_is_get [OF ev(2)] es_enter_ok [OF ok] dst lookup_destination [OF ok1]
    by (simp add: addEvent_def cong: option.case_cong)
  have ev1: "event_at ?es p = Some ev" using ev(1) by simp
  show ?thesis
  proof (cases "destination_index es d")
    case (Some i)
    then have i: "destination_index ?es d = Some i" by simp
    obtain es' q where r: "addEvent_to ?es i x p = Some (NoError, es')" "es_ok hash 0 es'" "same_events ?es es'"
      "es_queues ?es d = Some q" "es_queues es' = (es_queues ?es)(d \<mapsto> mm_insert x p q)"
      "es_signals es' = (if bConditionVariablesToBeUsed ?es \<and> wakes x q
         then (es_signals ?es)(d := map_option Suc (es_signals ?es d)) else es_signals ?es)"
      using addEvent_to_ok [OF ok1 i ev1 ev(2)] by blast
    have sig: "bConditionVariablesToBeUsed es \<Longrightarrow> \<exists>m. es_signals es d = Some m"
      by (rule es_ok_lookup [OF ok Some]) (auto simp: destination_ok_def)
    show ?thesis
      using r Some run sig by (auto simp: the_queue_def same_events_def)
  next
    case None
    then have new: "destination_index ?es d = None" by simp
    have q0: "es_queues es d = None" "es_signals es d = None" using None by (simp_all add: es_queues_def es_signals_def)
    obtain b where b: "Buffer_init_default (Buffer_ctor blank_buffer) (Buffer_str (bEvDestination ev)) = Some (errNoError, b)"
        "Buffer_holds b d"
      using Buffer_init_default_holds [OF Buffer_ctor_idle dst] by blast
    obtain i es2 where n: "new_destination hash ?es b = Some (i, es2)" "es_ok hash (Suc 0) es2"
        "destination_index es2 d = Some i" "es_queues es2 = (es_queues ?es)(d \<mapsto> [])"
        "es_signals es2 = (es_signals ?es)(d := (if bConditionVariablesToBeUsed ?es then Some 0 else None))"
        "same_events ?es es2"
      using new_destination_ok [OF ok1 new _ b(2)] room by auto
    have ev2: "event_at es2 p = Some ev" using n(6) ev(1) by (simp add: same_events_def)
    obtain es' q where r: "addEvent_to es2 i x p = Some (NoError, es')" "es_ok hash 0 es'" "same_events es2 es'"
      "es_queues es2 d = Some q" "es_queues es' = (es_queues es2)(d \<mapsto> mm_insert x p q)"
      "es_signals es' = (if bConditionVariablesToBeUsed es2 \<and> wakes x q
         then (es_signals es2)(d := map_option Suc (es_signals es2 d)) else es_signals es2)"
      using addEvent_to_ok [OF n(2,3) ev2 ev(2)] by blast
    have "addEvent hash es (Some p) = Some (NoError, es')" using run None b(1) n(1) r(1) by simp
    moreover have "same_events es es'"
      using same_events_trans [OF n(6) r(3)] by (simp add: same_events_def)
    moreover have "es_queues es' = (es_queues es)(d \<mapsto> mm_insert x p [])" using r(4,5) n(4) by auto
    moreover have "bConditionVariablesToBeUsed es \<Longrightarrow> es_signals es' d = Some (Suc 0)"
      using r(4,6) n(4,5,6) by (auto simp: same_events_def wakes_def)
    ultimately show ?thesis using r(2) q0 by (auto simp: the_queue_def)
  qed
qed

lemma addDestination_ok:
  assumes ok: "es_ok hash 0 es" and room: "maxLength (pesmEventsSetHashMap es) < 2 ^ 30"
    and src: "c_str src = Some d"
  shows "\<exists>es'. addDestination hash es (Some src) =
      Some (if es_queues es d = None then NoError
            else EventsSetErrors EVSET_EVENTSSET_DESTINATIONALREADYADDED, es') \<and>
    es_ok hash 0 es' \<and> same_events es es' \<and>
    es_queues es' = (if es_queues es d = None then (es_queues es)(d \<mapsto> []) else es_queues es)"
proof -
  let ?es = "es\<lparr>evSetMutex := Some (Suc 0)\<rparr>"
  have ok1: "es_ok hash (Suc 0) ?es" using es_ok_mutex [OF ok, of "Suc 0"] by simp
  obtain b where b: "Buffer_init_default (Buffer_ctor blank_buffer) src = Some (errNoError, b)" "Buffer_holds b d"
    using Buffer_init_default_holds [OF Buffer_ctor_idle src] by blast
  have key: "c_str (Buffer_str b) = Some d" using b(2) by (simp add: Buffer_str_def Buffer_holdsD)
  have run: "addDestination hash es (Some src) = (case destination_index es d of
      Some i \<Rightarrow> Some (es_fail (EventsSetErrors EVSET_EVENTSSET_DESTINATIONALREADYADDED) ?es)
    | None \<Rightarrow> do { (i, es2) \<leftarrow> new_destination hash ?es b; Some (es_done es2) })"
    using es_enter_ok [OF ok] b(1) key lookup_destination [OF ok1]
    by (simp add: addDestination_def cong: option.case_cong)
  show ?thesis
  proof (cases "destination_index es d")
    case (Some i)
    then have "es_queues es d \<noteq> None" using es_queues_dom [OF ok] by simp
    then show ?thesis
      using Some run locking(3) [OF es_okD(2) [OF ok1] refl] ok es_ok_mutex [OF ok, of 0] by simp
  next
    case None
    then have new: "destination_index ?es d = None" by simp
    obtain i es2 where n: "new_destination hash ?es b = Some (i, es2)" "es_ok hash (Suc 0) es2"
        "es_queues es2 = (es_queues ?es)(d \<mapsto> [])" "same_events ?es es2"
      using new_destination_ok [OF ok1 new _ b(2)] room by auto
    have "addDestination hash es (Some src) = Some (NoError, es2\<lparr>evSetMutex := Some 0\<rparr>)"
      using run None n(1) locking(4) [OF es_okD(2) [OF n(2)] refl] by simp
    moreover have "same_events es (es2\<lparr>evSetMutex := Some 0\<rparr>)" using n(4) by (simp add: same_events_def)
    ultimately show ?thesis
      using None es_queues_dom [OF ok, of d] n(3) es_ok_mutex [OF n(2), of 0] by simp
  qed
qed


section \<open>Removing\<close>

lemma mm_erase_set: "set (mm_erase j q) \<subseteq> set q"
  by (auto simp: mm_erase_def dest: in_set_takeD in_set_dropD)

lemma erase_ok:
  fixes j :: nat
  assumes ok: "es_ok hash (Suc n) es" and i: "destination_index es d = Some i"
    and de: "destination_at es i = Some de" "destination_ok es d de"
  defines "es' \<equiv> (es\<lparr>destinationHeap := (destinationHeap es)[i :=
    Some (de\<lparr>emEventsMultiMap := mm_erase j (emEventsMultiMap de)\<rparr>)]\<rparr>)\<lparr>evSetMutex := Some n\<rparr>"
  shows "es_done (es\<lparr>destinationHeap := (destinationHeap es)[i :=
      Some (de\<lparr>emEventsMultiMap := mm_erase j (emEventsMultiMap de)\<rparr>)]\<rparr>) = (NoError, es')"
    "es_ok hash n es'" "same_events es es'"
    "es_queues es' = (es_queues es)(d \<mapsto> mm_erase j (emEventsMultiMap de))"
proof -
  have "destination_ok es d (de\<lparr>emEventsMultiMap := mm_erase j (emEventsMultiMap de)\<rparr>)"
    using de(2) mm_erase_sorted mm_erase_set [of j "emEventsMultiMap de"] by (auto simp: destination_ok_def)
  note up = destination_update [OF ok i this]
  show "es_done (es\<lparr>destinationHeap := (destinationHeap es)[i :=
      Some (de\<lparr>emEventsMultiMap := mm_erase j (emEventsMultiMap de)\<rparr>)]\<rparr>) = (NoError, es')"
    using locking(4) [OF es_okD(2) [OF up(1)] refl] by (simp add: es'_def)
  show "es_ok hash n es'" unfolding es'_def by (rule es_ok_mutex [OF up(1)])
  show "same_events es es'" using up(4) unfolding es'_def mutex_update .
  show "es_queues es' = (es_queues es)(d \<mapsto> mm_erase j (emEventsMultiMap de))"
    using up(2) unfolding es'_def mutex_update by simp
qed

text \<open>\<open>deleteEvent\<close> looks for the expiration of the event, not for the event.\<close>

definition delete_spec :: "(char list \<Rightarrow> (64 word, nat) multimap option) \<Rightarrow> char list \<Rightarrow> 64 word \<Rightarrow>
    lib_error \<times> (char list \<Rightarrow> (64 word, nat) multimap option)" where
  "delete_spec m d x =
     (case m d of
        None \<Rightarrow> (EventsSetErrors EVSET_EVENTSSET_DESTINATIONNOTFOUND, m)
      | Some q \<Rightarrow>
          (case mm_find x q of
             None \<Rightarrow> (EventsSetErrors EVSET_EVENTSSET_EVENTNOTFOUND, m)
           | Some j \<Rightarrow> (NoError, m(d \<mapsto> mm_erase j q))))"

lemma deleteEvent_ok:
  assumes ok: "es_ok hash 0 es" and ev: "event_at es p = Some ev" "event_is ev d x"
  shows "\<exists>es'. deleteEvent hash es (Some p) = Some (fst (delete_spec (es_queues es) d x), es') \<and>
    es_ok hash 0 es' \<and> same_events es es' \<and> es_queues es' = snd (delete_spec (es_queues es) d x)"
proof -
  let ?es = "es\<lparr>evSetMutex := Some (Suc 0)\<rparr>"
  have ok1: "es_ok hash (Suc 0) ?es" using es_ok_mutex [OF ok, of "Suc 0"] by simp
  have dst: "c_str (Buffer_str (bEvDestination ev)) = Some d"
    using ev(2) by (auto simp: event_is_def Buffer_str_def Buffer_holdsD)
  have run: "deleteEvent hash es (Some p) = (case destination_index es d of
      None \<Rightarrow> Some (es_fail (EventsSetErrors EVSET_EVENTSSET_DESTINATIONNOTFOUND) ?es)
    | Some i \<Rightarrow> do {
        de \<leftarrow> destination_at ?es i;
        (case mm_find x (emEventsMultiMap de) of
           None \<Rightarrow> Some (es_fail (EventsSetErrors EVSET_EVENTSSET_EVENTNOTFOUND) ?es)
         | Some j \<Rightarrow> Some (es_done (?es\<lparr>destinationHeap := (destinationHeap ?es)[i :=
             Some (de\<lparr>emEventsMultiMap := mm_erase j (emEventsMultiMap de)\<rparr>)]\<rparr>))) })"
    using ev(1) event_is_get [OF ev(2)] es_enter_ok [OF ok] dst lookup_destination [OF ok1]
    by (simp add: deleteEvent_def cong: option.case_cong)
  note unlocked = locking(3) [OF es_okD(2) [OF ok1] refl] es_ok_mutex [OF ok, of 0]
  show ?thesis
  proof (cases "destination_index es d")
    case None
    then have "es_queues es d = None" by (simp add: es_queues_def)
    then show ?thesis using run None unlocked by (simp add: delete_spec_def)
  next
    case (Some i)
    then have i: "destination_index ?es d = Some i" by simp
    obtain de where de: "destination_at ?es i = Some de" "destination_ok ?es d de"
        "es_queues ?es d = Some (emEventsMultiMap de)"
      by (rule es_ok_lookup [OF ok1 i])
    show ?thesis
    proof (cases "mm_find x (emEventsMultiMap de)")
      case None
      then show ?thesis using run Some de unlocked by (simp add: delete_spec_def)
    next
      case (Some j)
      note er = erase_ok [OF ok1 i de(1,2), of j]
      show ?thesis
      proof (intro exI conjI)
        show "deleteEvent hash es (Some p) = Some (fst (delete_spec (es_queues es) d x),
            (?es\<lparr>destinationHeap := (destinationHeap ?es)[i :=
              Some (de\<lparr>emEventsMultiMap := mm_erase j (emEventsMultiMap de)\<rparr>)]\<rparr>)\<lparr>evSetMutex := Some 0\<rparr>)"
          using run i de(1,3) Some er(1) by (simp add: delete_spec_def)
      qed (use er(2,3,4) de(3) Some in \<open>auto simp: delete_spec_def same_events_def\<close>)
    qed
  qed
qed

section \<open>The calls that wait\<close>

text \<open>What a blocked call keeps: its destination is the one its caller asked for.\<close>

definition waiter_ok :: "events_set \<Rightarrow> waiter \<Rightarrow> char list \<Rightarrow> bool" where
  "waiter_ok es w d \<longleftrightarrow> destination_index es d = Some (wtDestination w)"

definition wait_time :: "waiter \<Rightarrow> nat" where
  "wait_time w = unat (ulRemainingSecondsToWait w) * 1000 + unat (ulRemainingMilliSecondsToWait w)"

lemma return_ok:
  assumes "es_ok hash (Suc n) es"
  shows "return_fail e p es = Returned e p None (es\<lparr>evSetMutex := Some n\<rparr>)"
    "return_done p b es = Returned NoError p b (es\<lparr>evSetMutex := Some n\<rparr>)"
    "block w es = Blocked w (es\<lparr>evSetMutex := Some n\<rparr>)"
  using locking(2-4) [OF es_okD(2) [OF assms] refl]
  by (simp_all add: return_fail_def return_done_def block_def)

lemma wait_for_time:
  "wait_time (wait_for w t) = unat t" "ulRemainingMilliSecondsToWait (wait_for w t) < 1000"
  "wtDestination (wait_for w t) = wtDestination w" "wtInitial (wait_for w t) = wtInitial w"
  "ulMilliSecondsToWait (wait_for w t) = ulMilliSecondsToWait w" "wtIn (wait_for w t) = wtIn w"
proof -
  have m: "t - t div 1000 * 1000 = t mod 1000" by (simp add: minus_div_mult_eq_mod)
  have "unat (t mod 1000) = unat t mod 1000" "unat (t div 1000) = unat t div 1000"
    by (simp_all add: unat_mod unat_div)
  then show "wait_time (wait_for w t) = unat t" by (simp add: wait_for_def wait_time_def m)
  show "ulRemainingMilliSecondsToWait (wait_for w t) < 1000"
    by (simp add: wait_for_def m word_less_nat_alt unat_mod)
qed (simp_all add: wait_for_def)

text \<open>The turn of the second loop in terms of the queue.\<close>

lemma second_loop_cases:
  assumes ok: "es_ok hash (Suc n) es" and w: "waiter_ok es w d"
  obtains "es_queues es d = Some []"
      "second_loop b w clock es = Some (Returned (EventsSetErrors EVSET_EVENTSSET_NOEVENTSFOUND) (wtEvent w) None
         (es\<lparr>evSetMutex := Some n\<rparr>))"
  | x p q where "es_queues es d = Some ((x, p) # q)" "clock = None"
      "second_loop b w clock es = Some (Returned (ClockErrors TOOLS_DATETIME_NOWLOCALINMILLISECS_FAILED) (Some p) None
         (es\<lparr>evSetMutex := Some n\<rparr>))"
  | x p q now where "es_queues es d = Some ((x, p) # q)" "clock = Some now" "now < x"
      "\<not> bConditionVariablesToBeUsed es \<or> \<not> b \<or> sint (lRemainingTimeInMilliSecs w now) \<le> 0"
      "second_loop b w clock es = Some (Returned (EventsSetErrors EVSET_EVENTSSET_EVENTNOTEXPIREDYET) (Some p) None
         (es\<lparr>evSetMutex := Some n\<rparr>))"
  | x p q now t where "es_queues es d = Some ((x, p) # q)" "clock = Some now" "now < x" "bConditionVariablesToBeUsed es" "b"
      "0 < sint (lRemainingTimeInMilliSecs w now)"
      "t = x - now \<and> sint t \<le> sint (lRemainingTimeInMilliSecs w now) \<or>
       t = lRemainingTimeInMilliSecs w now \<and> sint t < sint (x - now)"
      "second_loop b w clock es = Some (Blocked (wait_for (w\<lparr>wtIn := SecondLoop, wtEvent := Some p\<rparr>) t)
         (es\<lparr>evSetMutex := Some n\<rparr>))"
  | x p q now es' where "es_queues es d = Some ((x, p) # q)" "clock = Some now" "x \<le> now"
      "second_loop b w clock es = Some (Returned NoError (Some p) None es')"
      "es_ok hash n es'" "same_events es es'" "es_queues es' = (es_queues es)(d \<mapsto> q)"
proof -
  have i: "destination_index es d = Some (wtDestination w)" using w by (simp add: waiter_ok_def)
  obtain de where de: "destination_at es (wtDestination w) = Some de" "destination_ok es d de"
      "es_queues es d = Some (emEventsMultiMap de)"
    by (rule es_ok_lookup [OF ok i])
  note ret = return_ok [OF ok]
  show thesis
  proof (cases "emEventsMultiMap de")
    case Nil
    then show thesis using that(1) de ret by (simp add: second_loop_def)
  next
    case (Cons xp q)
    obtain x p where xp: "xp = (x, p)" by (cases xp)
    then have q: "es_queues es d = Some ((x, p) # q)" using de(3) Cons by simp
    obtain ev where ev: "event_at es p = Some ev" "getExpirationLocalDateTimeInMilliSecs ev = Inr x"
      using es_queue_event [OF ok q, of x p] event_is_get(2) by fastforce
    have run: "second_loop b w clock es = Some (case clock of
        None \<Rightarrow> return_fail (ClockErrors TOOLS_DATETIME_NOWLOCALINMILLISECS_FAILED) (Some p) es
      | Some now \<Rightarrow> if now < x then
          if \<not> bConditionVariablesToBeUsed es \<or> \<not> b
          then return_fail (EventsSetErrors EVSET_EVENTSSET_EVENTNOTEXPIREDYET) (Some p) es
          else if sint (lRemainingTimeInMilliSecs w now) \<le> 0
          then return_fail (EventsSetErrors EVSET_EVENTSSET_EVENTNOTEXPIREDYET) (Some p) es
          else block (wait_for (w\<lparr>wtIn := SecondLoop, wtEvent := Some p\<rparr>)
            (if sint (x - now) \<le> sint (lRemainingTimeInMilliSecs w now) then x - now
             else lRemainingTimeInMilliSecs w now)) es
        else return_done (Some p) None (es\<lparr>destinationHeap := (destinationHeap es)[wtDestination w :=
          Some (de\<lparr>emEventsMultiMap := mm_erase 0 (emEventsMultiMap de)\<rparr>)]\<rparr>))"
      using de(1) Cons xp ev by (simp add: second_loop_def Let_def split: option.split)
    show thesis
    proof (cases clock)
      case None
      then show thesis using that(2) [OF q] run ret by simp
    next
      case (Some now)
      let ?r = "lRemainingTimeInMilliSecs w now"
      consider "now < x" "\<not> bConditionVariablesToBeUsed es \<or> \<not> b \<or> sint ?r \<le> 0"
        | "now < x" "bConditionVariablesToBeUsed es" "b" "0 < sint ?r" | "x \<le> now" by fastforce
      then show thesis
      proof cases
        case 1
        then show thesis using that(3) [OF q Some] run Some ret by auto
      next
        case 2
        then show thesis
          using that(4) [OF q Some, of "if sint (x - now) \<le> sint ?r then x - now else ?r"] run Some ret by auto
      next
        case 3
        note er = erase_ok [OF ok i de(1,2), of 0]
        have e: "mm_erase 0 (emEventsMultiMap de) = q" using Cons by (simp add: mm_erase_def)
        have r: "second_loop b w clock es = Some (Returned NoError (Some p) None
            ((es\<lparr>destinationHeap := (destinationHeap es)[wtDestination w :=
              Some (de\<lparr>emEventsMultiMap := mm_erase 0 (emEventsMultiMap de)\<rparr>)]\<rparr>)\<lparr>evSetMutex := Some n\<rparr>))"
          unfolding run return_done_def er(1) using Some linorder_not_less [THEN iffD2, OF 3] by simp
        show thesis by (rule that(5) [OF q Some 3 r er(2,3)]) (use er(4) e in simp)
      qed
    qed
  qed
qed

end
