(* ===== verification/EventsSetBlocking.thy ===== *)
theory EventsSetBlocking
  imports EventsSetOps
begin

text \<open>
  The waiting calls of \<open>EventsSet\<close> on an initialised set: every step of a call from its start or
  after a wait, whatever the other threads did in between.
\<close>

section \<open>What a step promises\<close>

text \<open>
  \<open>es\<close> is the set before the step. A call that succeeds took the head of the queue of \<open>d\<close>, which had
  expired; a call that fails or blocks left the queues as they were; the mutex is free again.
\<close>

definition step_ok ::
  "(char list \<Rightarrow> int) \<Rightarrow> char list \<Rightarrow> 64 word option \<Rightarrow> events_set \<Rightarrow> outcome \<Rightarrow> bool" where
  "step_ok hash d clock es out =
     (case out of
        Returned e p b es' \<Rightarrow>
          es_ok hash 0 es' \<and> same_events es es' \<and>
          (if e = NoError
           then \<exists>x k q now. clock = Some now \<and> es_queues es d = Some ((x, k) # q) \<and> p = Some k \<and> x \<le> now \<and>
                  es_queues es' = (es_queues es)(d \<mapsto> q)
           else es_queues es' = es_queues es)
      | Blocked w es' \<Rightarrow>
          es_ok hash 0 es' \<and> same_events es es' \<and> es_queues es' = es_queues es \<and> waiter_ok es' w d \<and>
          wtIn w \<noteq> GetFirst)"

text \<open>The same for \<open>getFirstEvent\<close>, which never changes a queue.\<close>

definition peek_ok ::
  "(char list \<Rightarrow> int) \<Rightarrow> char list \<Rightarrow> 64 word option \<Rightarrow> events_set \<Rightarrow> outcome \<Rightarrow> bool" where
  "peek_ok hash d clock es out =
     (case out of
        Returned e p b es' \<Rightarrow>
          es_ok hash 0 es' \<and> same_events es es' \<and> es_queues es' = es_queues es \<and>
          (e = NoError \<longrightarrow> (\<exists>x k q now. clock = Some now \<and> es_queues es d = Some ((x, k) # q) \<and> p = Some k \<and>
             b = Some (x \<le> now)))
      | Blocked w es' \<Rightarrow>
          es_ok hash 0 es' \<and> same_events es es' \<and> es_queues es' = es_queues es \<and> waiter_ok es' w d \<and>
          wtIn w = GetFirst)"

lemma unlocked:
  assumes "es_ok hash 0 es"
  defines "es1 \<equiv> es\<lparr>evSetMutex := Some (Suc 0)\<rparr>"
  shows "es_ok hash (Suc 0) es1" "es_queues es1 = es_queues es" "es1\<lparr>evSetMutex := Some 0\<rparr> = es"
    "snd (es_lock es) = es1" "es_enter es = Inr es1" "destination_index es1 = destination_index es"
    "same_events es1 es' = same_events es es'" "waiter_ok es1 w d = waiter_ok es w d"
  using es_ok_mutex [OF assms(1), of "Suc 0"] locking(1) [OF es_okD(2) [OF assms(1)]]
    es_enter_ok [OF assms(1)] es_okD(2) [OF assms(1)]
  by (simp_all add: es1_def same_events_def waiter_ok_def)

lemma wtIn_wait_for: "wtIn (wait_for w t) = wtIn w"
  by (simp add: wait_for_def)

section \<open>Steps of getAndRemoveFirstEvent\<close>

lemma second_loop_step:
  assumes ok: "es_ok hash 0 es" and w: "waiter_ok es w d"
  shows "\<exists>out. second_loop b w clock (es\<lparr>evSetMutex := Some (Suc 0)\<rparr>) = Some out \<and> step_ok hash d clock es out"
proof -
  note u = unlocked [OF ok]
  have w1: "waiter_ok (es\<lparr>evSetMutex := Some (Suc 0)\<rparr>) w d" using w u(8) by simp
  show ?thesis
  proof (cases rule: second_loop_cases [OF u(1) w1, of b clock])
    case 1
    then show ?thesis using ok u(3) by (simp add: step_ok_def)
  next
    case (2 x p q)
    then show ?thesis using ok u(3) by (simp add: step_ok_def)
  next
    case (3 x p q now)
    then show ?thesis using ok u(3) by (simp add: step_ok_def)
  next
    case (4 x p q now t)
    then show ?thesis using ok w u(3) by (simp add: step_ok_def waiter_ok_def wait_for_def)
  next
    case (5 x p q now es')
    then show ?thesis using u(7) by (simp add: step_ok_def)
  qed
qed

lemma wait_again_step:
  assumes ok: "es_ok hash 0 es" and w: "waiter_ok es w d" "wtIn w \<noteq> GetFirst"
  shows "step_ok hash d clock es (wait_again w clock (es\<lparr>evSetMutex := Some (Suc 0)\<rparr>))"
  using ok w return_ok [OF unlocked(1) [OF ok]] unlocked(3) [OF ok]
  by (auto simp: wait_again_def step_ok_def waiter_ok_def wait_for_def Let_def split: option.split)

text \<open>A wait of the operating system fails with an error code.\<close>

definition wait_result_ok :: "wait_result \<Rightarrow> bool" where
  "wait_result_ok r \<longleftrightarrow> r \<noteq> WaitFailed NoError"

lemma resume_step:
  assumes ok: "es_ok hash 0 es" and w: "waiter_ok es w d" "wtIn w \<noteq> GetFirst" and r: "wait_result_ok r"
  shows "\<exists>out. resume w r clock es = Some out \<and> step_ok hash d clock es out"
proof -
  note u = unlocked [OF ok]
  let ?es = "es\<lparr>evSetMutex := Some (Suc 0)\<rparr>"
  obtain de where de: "destination_at ?es (wtDestination w) = Some de"
    using es_okD(4) [OF u(1), of d "wtDestination w"] w(1) by (auto simp: waiter_ok_def)
  obtain out where out: "second_loop True w clock ?es = Some out" "step_ok hash d clock es out"
    using second_loop_step [OF ok w(1)] by blast
  note again = wait_again_step [OF ok w, of clock]
  consider e where "r = WaitFailed e" "e \<noteq> NoError" | "wtIn w = FirstLoop" "r = Signalled \<or> r = TimedOut"
    | "wtIn w = SecondLoop" "r = Signalled \<or> r = TimedOut"
    using w(2) r by (cases r; cases "wtIn w") (auto simp: wait_result_ok_def)
  then show ?thesis
  proof cases
    case (1 e)
    then show ?thesis using u(3,4) w(2) ok return_ok [OF u(1)] by (cases "wtIn w") (simp_all add: resume_defs step_ok_def Let_def)
  next
    case 2
    then show ?thesis using u(4) de out again by (auto simp: resume_defs Let_def)
  next
    case 3
    then show ?thesis using u(4) out by (auto simp: resume_defs Let_def)
  qed
qed

lemma getAndRemoveFirstEvent_step:
  assumes ok: "es_ok hash 0 es" and b: "Buffer_holds dst d" and c: "blk \<Longrightarrow> clock0 \<noteq> None"
  shows "\<exists>out. getAndRemoveFirstEvent hash es (Some dst) False blk secs ms clock0 clock = Some out \<and>
           step_ok hash d clock es out"
proof -
  note u = unlocked [OF ok] and ret = return_ok [OF unlocked(1) [OF ok]]
  let ?es = "es\<lparr>evSetMutex := Some (Suc 0)\<rparr>"
  have key: "c_str (Buffer_str dst) = Some d" using b by (simp add: Buffer_str_def Buffer_holdsD)
  note look = lookup_destination [OF u(1), of d]
  have start: "\<not> (blk \<and> clock0 = None)" using c by auto
  show ?thesis
  proof (cases "destination_index es d")
    case None
    then show ?thesis
      using start u(3,5) key look ok ret by (simp add: getAndRemoveFirstEvent_def step_ok_def)
  next
    case (Some i)
    define w where "w = \<lparr>wtIn = FirstLoop, wtDestination = i,
      wtInitial = (case clock0 of Some t \<Rightarrow> t | None \<Rightarrow> 0), ulMilliSecondsToWait = secs * 1000 + ms,
      ulRemainingSecondsToWait = secs, ulRemainingMilliSecondsToWait = ms, wtEvent = None\<rparr>"
    have w: "waiter_ok es w d" "wtIn w \<noteq> GetFirst" using Some by (simp_all add: waiter_ok_def w_def)
    obtain de where de: "destination_at ?es i = Some de" using es_okD(4) [OF u(1), of d i] Some by auto
    obtain out where out: "second_loop blk w clock ?es = Some out" "step_ok hash d clock es out"
      using second_loop_step [OF ok w(1)] by blast
    have "getAndRemoveFirstEvent hash es (Some dst) False blk secs ms clock0 clock =
      (if emEventsMultiMap de = [] then
         if bConditionVariablesToBeUsed ?es \<and> blk then Some (block w ?es)
         else Some (return_fail (EventsSetErrors EVSET_EVENTSSET_NOEVENTSFOUND) None ?es)
       else second_loop blk w clock ?es)"
      using u(5) key look de Some by (simp add: getAndRemoveFirstEvent_def w_def start del: de_Morgan_conj not_None_eq)
    then show ?thesis using out ret ok w u(3) by (auto simp: step_ok_def)
  qed
qed


section \<open>Steps of getFirstEvent\<close>

lemma first_event_found_step:
  assumes ok: "es_ok hash 0 es" and w: "waiter_ok es w d"
    and de: "destination_at es (wtDestination w) = Some de" "emEventsMultiMap de \<noteq> []"
  shows "\<exists>out. first_event_found w clock (es\<lparr>evSetMutex := Some (Suc 0)\<rparr>) = Some out \<and> peek_ok hash d clock es out"
proof -
  note u = unlocked [OF ok] and ret = return_ok [OF unlocked(1) [OF ok]]
  have i: "destination_index es d = Some (wtDestination w)" using w by (simp add: waiter_ok_def)
  have q: "es_queues es d = Some (emEventsMultiMap de)" using i de(1) by (simp add: es_queues_def)
  obtain x p r where c: "emEventsMultiMap de = (x, p) # r" using de(2) by (cases "emEventsMultiMap de") auto
  obtain ev where ev: "event_at es p = Some ev" "getExpirationLocalDateTimeInMilliSecs ev = Inr x"
    using es_queue_event [OF ok q, of x p] c event_is_get(2) by fastforce
  have "first_event_found w clock (es\<lparr>evSetMutex := Some (Suc 0)\<rparr>) = Some (case clock of
      None \<Rightarrow> Returned (ClockErrors TOOLS_DATETIME_NOWLOCALINMILLISECS_FAILED) (Some p) None es
    | Some now \<Rightarrow> Returned NoError (Some p) (Some (x \<le> now)) es)"
    using de(1) c ev ret u(3) by (simp add: first_event_found_def not_less split: option.split)
  then show ?thesis using ok q c by (auto simp: peek_ok_def split: option.split)
qed

lemma getFirstEvent_step:
  assumes ok: "es_ok hash 0 es" and b: "Buffer_holds dst d"
  shows "\<exists>out. getFirstEvent hash es (Some dst) False blk secs ms clock = Some out \<and> peek_ok hash d clock es out"
proof -
  note u = unlocked [OF ok] and ret = return_ok [OF unlocked(1) [OF ok]]
  let ?es = "es\<lparr>evSetMutex := Some (Suc 0)\<rparr>"
  have key: "c_str (Buffer_str dst) = Some d" using b by (simp add: Buffer_str_def Buffer_holdsD)
  note look = lookup_destination [OF u(1), of d]
  show ?thesis
  proof (cases "destination_index es d")
    case None
    then show ?thesis using u(3,5) key look ok ret by (simp add: getFirstEvent_def peek_ok_def)
  next
    case (Some i)
    define w where "w = \<lparr>wtIn = GetFirst, wtDestination = i, wtInitial = 0, ulMilliSecondsToWait = 0,
      ulRemainingSecondsToWait = secs, ulRemainingMilliSecondsToWait = ms, wtEvent = None\<rparr>"
    have w: "waiter_ok es w d" "wtIn w = GetFirst" using Some by (simp_all add: waiter_ok_def w_def)
    obtain de where de: "destination_at ?es i = Some de" using es_okD(4) [OF u(1), of d i] Some by auto
    have run: "getFirstEvent hash es (Some dst) False blk secs ms clock =
      (if emEventsMultiMap de = [] then
         if bConditionVariablesToBeUsed ?es \<and> blk then Some (block w ?es)
         else Some (return_fail (EventsSetErrors EVSET_EVENTSSET_NOEVENTSFOUND) None ?es)
       else first_event_found w clock ?es)"
      using u(5) key look de Some by (simp add: getFirstEvent_def w_def)
    show ?thesis
    proof (cases "emEventsMultiMap de = []")
      case True
      then show ?thesis using run ret ok w u(3) by (auto simp: peek_ok_def)
    next
      case False
      then show ?thesis using run first_event_found_step [OF ok w(1), of de clock] de by (auto simp: w_def)
    qed
  qed
qed

lemma resume_first_step:
  assumes ok: "es_ok hash 0 es" and w: "waiter_ok es w d" "wtIn w = GetFirst" and r: "wait_result_ok r"
  shows "\<exists>out. resume w r clock es = Some out \<and> peek_ok hash d clock es out"
proof -
  note u = unlocked [OF ok] and ret = return_ok [OF unlocked(1) [OF ok]]
  let ?es = "es\<lparr>evSetMutex := Some (Suc 0)\<rparr>"
  obtain de where de: "destination_at ?es (wtDestination w) = Some de"
    using es_okD(4) [OF u(1), of d "wtDestination w"] w(1) by (auto simp: waiter_ok_def)
  show ?thesis
  proof (cases r)
    case Signalled
    then show ?thesis
      using first_event_found_step [OF ok w(1), of de clock] de w(2) u ok ret
      by (cases "emEventsMultiMap de = []") (auto simp: resume_defs peek_ok_def Let_def)
  qed (use r w(2) u ok ret in \<open>auto simp: resume_defs peek_ok_def wait_result_ok_def Let_def\<close>)
qed

section \<open>The time a call waits\<close>

lemma sint_shift: "sint (w :: 64 word) = (uint w + 2 ^ 63) mod 2 ^ 64 - 2 ^ 63"
  by (simp add: sint_uint signed_take_bit_eq_take_bit_shift take_bit_eq_mod)

lemma uint_range: "0 \<le> uint (w :: 64 word)" "uint w < 2 ^ 64"
  using unsigned_less [of w] by simp_all

lemma sint_small: "uint (w :: 64 word) < 2 ^ 63 \<Longrightarrow> sint w = uint w"
  unfolding sint_shift using uint_range [of w] by simp

lemma sint_pos:
  assumes "0 \<le> sint (w :: 64 word)"
  shows "sint w = uint w"
proof (cases "uint w < 2 ^ 63")
  case False
  have "(uint w + 2 ^ 63) mod 2 ^ 64 = (uint w + 2 ^ 63 - 2 ^ 64) mod 2 ^ 64"
    by (rule minus_mod_self2 [symmetric])
  also have "\<dots> = uint w + 2 ^ 63 - 2 ^ 64" using False uint_range [of w] by (intro mod_pos_pos_trivial) auto
  finally show ?thesis using assms uint_range [of w] unfolding sint_shift by simp
qed (rule sint_small)

text \<open>
  Times as numbers: the clock does not go back and the waiting time asked for is below \<open>2 ^ 63\<close>
  milliseconds. Then the time left is what the caller asked for less what has passed.
\<close>

lemma uint_diff: "(a :: 64 word) \<le> b \<Longrightarrow> uint (b - a) = uint b - uint a"
  by (simp add: uint_sub_if' word_le_def)

lemma remaining_time:
  assumes "wtInitial w \<le> now" "uint (ulMilliSecondsToWait w) < 2 ^ 63" "uint now < 2 ^ 63"
  shows "sint (lRemainingTimeInMilliSecs w now) =
    uint (ulMilliSecondsToWait w) - (uint now - uint (wtInitial w))"
proof -
  let ?W = "ulMilliSecondsToWait w" and ?e = "now - wtInitial w"
  note e = uint_diff [OF assms(1)]
  have le: "uint (wtInitial w) \<le> uint now" using assms(1) by (simp add: word_le_def)
  have s: "sint ?W = uint ?W" "sint ?e = uint ?e"
    using sint_small [of ?W] sint_small [of ?e] assms(2,3) e uint_range(1) [of "wtInitial w"] by linarith+
  then have "- (2 ^ 63) \<le> sint ?W - sint ?e" "sint ?W - sint ?e < 2 ^ 63"
    using assms(2,3) e le uint_range(1) [of "wtInitial w"] uint_range(1) [of ?W] by linarith+
  then have "sint (?W - ?e) = sint ?W - sint ?e"
    by (simp add: sint_word_diff signed_take_bit_int_eq_self)
  then show ?thesis using s e by (simp add: lRemainingTimeInMilliSecs_def)
qed


text \<open>How a step of \<open>getAndRemoveFirstEvent\<close> gets to block, and what it passes to \<open>timedWait\<close>.\<close>

lemma resume_blocks:
  assumes ok: "es_ok hash 0 es" and w: "waiter_ok es w d" "wtIn w \<noteq> GetFirst"
    and run: "resume w r (Some now) es = Some (Blocked w' es')"
  shows "\<exists>t. wait_time w' = unat t \<and> ulRemainingMilliSecondsToWait w' < 1000 \<and> wtInitial w' = wtInitial w \<and>
    ulMilliSecondsToWait w' = ulMilliSecondsToWait w \<and> 0 < sint (lRemainingTimeInMilliSecs w now) \<and>
    (t = lRemainingTimeInMilliSecs w now \<or>
     (\<exists>x p q. es_queues es d = Some ((x, p) # q) \<and> now < x \<and> t = x - now \<and>
        sint t \<le> sint (lRemainingTimeInMilliSecs w now)))"
proof -
  note u = unlocked [OF ok] and ret = return_ok [OF unlocked(1) [OF ok]]
  let ?es = "es\<lparr>evSetMutex := Some (Suc 0)\<rparr>"
  have w1: "waiter_ok ?es w d" using w(1) u(8) by simp
  consider "second_loop True w (Some now) ?es = Some (Blocked w' es')"
    | "wait_again w (Some now) ?es = Blocked w' es'"
    using run w(2) u(4) ret
    by (cases r; cases "wtIn w") (auto simp: resume_defs Let_def bind_eq_Some split: if_splits)
  then show ?thesis
  proof cases
    case 1
    then show ?thesis
      by (cases rule: second_loop_cases [OF u(1) w1, of True "Some now"]) (auto simp: wait_for_time u(2))
  next
    case 2
    then show ?thesis
      using ret by (auto simp: wait_again_def Let_def wait_for_time split: if_splits)
  qed
qed

lemma resume_within:
  assumes ok: "es_ok hash 0 es" and w: "waiter_ok es w d" "wtIn w \<noteq> GetFirst"
    and run: "resume w r (Some now) es = Some (Blocked w' es')"
    and t: "wtInitial w \<le> now" "uint (ulMilliSecondsToWait w) < 2 ^ 63" "uint now < 2 ^ 63"
    and q: "\<forall>(x, p) \<in> set (the_queue (es_queues es d)). uint x < 2 ^ 63"
  shows "0 < wait_time w'"
    "uint now + int (wait_time w') \<le> uint (wtInitial w) + uint (ulMilliSecondsToWait w)"
proof -
  let ?r = "lRemainingTimeInMilliSecs w now"
  obtain t where t: "wait_time w' = unat t" "0 < sint ?r"
      "t = ?r \<or> (\<exists>x p q. es_queues es d = Some ((x, p) # q) \<and> now < x \<and> t = x - now \<and> sint t \<le> sint ?r)"
    using resume_blocks [OF ok w run] by blast
  have "0 < uint t \<and> uint t \<le> sint ?r"
  proof (cases "t = ?r")
    case True
    then show ?thesis using t(2) sint_pos [of ?r] by simp
  next
    case False
    then obtain x p qs where x: "es_queues es d = Some ((x, p) # qs)" "now < x" "t = x - now" "sint t \<le> sint ?r"
      using t(3) by blast
    have ut: "uint t = uint x - uint now" using x(2,3) uint_diff [of now x] by simp
    have "uint x < 2 ^ 63" using q x(1) by (simp add: the_queue_def)
    then have "sint t = uint t" using ut uint_range(1) [of now] by (intro sint_small) linarith
    then show ?thesis using x(2,4) ut by (simp add: word_less_def)
  qed
  moreover have "sint ?r = uint (ulMilliSecondsToWait w) - (uint now - uint (wtInitial w))"
    by (rule remaining_time [OF assms(5-7)])
  moreover have "int (wait_time w') = uint t" using t(1) by simp
  ultimately show "0 < wait_time w'"
    "uint now + int (wait_time w') \<le> uint (wtInitial w) + uint (ulMilliSecondsToWait w)"
    by linarith+
qed

end
