(* ===== verification/EventsSetSystem.thy ===== *)
theory EventsSetSystem
  imports EventsSetBlocking
begin

text \<open>
  Threads that share one initialised \<open>EventsSet\<close>: every interleaving of the calls, each cut at its
  waits. The clients own the events: they may change an event that is in no queue.
\<close>

section \<open>The system\<close>

text \<open>Beside the set and the blocked calls, what was put in, taken and deleted so far, by destination.\<close>

record es_system =
  sysSet :: events_set
  sysBlocked :: "(char list \<times> waiter) list"
  sysAdded :: "char list \<Rightarrow> (64 word \<times> nat) multiset"
  sysTaken :: "char list \<Rightarrow> (64 word \<times> nat) multiset"
  sysDeleted :: "char list \<Rightarrow> (64 word \<times> nat) multiset"

definition note_in :: "(char list \<Rightarrow> 'a multiset) \<Rightarrow> char list \<Rightarrow> 'a \<Rightarrow> char list \<Rightarrow> 'a multiset" where
  "note_in f d x = f(d := add_mset x (f d))"

text \<open>A finished step of \<open>getAndRemoveFirstEvent\<close>: the head that is gone was taken.\<close>

definition head_of :: "events_set \<Rightarrow> char list \<Rightarrow> 64 word \<times> nat" where
  "head_of es d = hd (the_queue (es_queues es d))"

definition after_return :: "es_system \<Rightarrow> char list \<Rightarrow> lib_error \<Rightarrow> events_set \<Rightarrow> es_system" where
  "after_return s d e es' =
     s\<lparr>sysSet := es', sysTaken := (if e = NoError then note_in (sysTaken s) d (head_of (sysSet s) d) else sysTaken s)\<rparr>"

inductive sys_step :: "(char list \<Rightarrow> int) \<Rightarrow> es_system \<Rightarrow> es_system \<Rightarrow> bool" for hash where
  add: "event_at (sysSet s) p = Some ev \<Longrightarrow> event_is ev d x \<Longrightarrow>
    maxLength (pesmEventsSetHashMap (sysSet s)) < 2 ^ 30 \<Longrightarrow>
    addEvent hash (sysSet s) (Some p) = Some (e, es') \<Longrightarrow>
    sys_step hash s (s\<lparr>sysSet := es',
      sysAdded := (if e = NoError then note_in (sysAdded s) d (x, p) else sysAdded s)\<rparr>)"
| destination: "c_str src = Some d \<Longrightarrow> maxLength (pesmEventsSetHashMap (sysSet s)) < 2 ^ 30 \<Longrightarrow>
    addDestination hash (sysSet s) (Some src) = Some (e, es') \<Longrightarrow>
    sys_step hash s (s\<lparr>sysSet := es'\<rparr>)"
| delete: "event_at (sysSet s) p = Some ev \<Longrightarrow> event_is ev d x \<Longrightarrow>
    deleteEvent hash (sysSet s) (Some p) = Some (e, es') \<Longrightarrow>
    sys_step hash s (s\<lparr>sysSet := es',
      sysDeleted := (if e = NoError
        then note_in (sysDeleted s) d (the_queue (es_queues (sysSet s) d) ! the (mm_find x (the_queue (es_queues (sysSet s) d))))
        else sysDeleted s)\<rparr>)"
| take_returns: "Buffer_holds dst d \<Longrightarrow> (blk \<Longrightarrow> clock0 \<noteq> None) \<Longrightarrow>
    getAndRemoveFirstEvent hash (sysSet s) (Some dst) False blk secs ms clock0 clock = Some (Returned e p b es') \<Longrightarrow>
    sys_step hash s (after_return s d e es')"
| take_blocks: "Buffer_holds dst d \<Longrightarrow> (blk \<Longrightarrow> clock0 \<noteq> None) \<Longrightarrow>
    getAndRemoveFirstEvent hash (sysSet s) (Some dst) False blk secs ms clock0 clock = Some (Blocked w es') \<Longrightarrow>
    sys_step hash s (s\<lparr>sysSet := es', sysBlocked := (d, w) # sysBlocked s\<rparr>)"
| peek_returns: "Buffer_holds dst d \<Longrightarrow>
    getFirstEvent hash (sysSet s) (Some dst) False blk secs ms clock = Some (Returned e p b es') \<Longrightarrow>
    sys_step hash s (s\<lparr>sysSet := es'\<rparr>)"
| peek_blocks: "Buffer_holds dst d \<Longrightarrow>
    getFirstEvent hash (sysSet s) (Some dst) False blk secs ms clock = Some (Blocked w es') \<Longrightarrow>
    sys_step hash s (s\<lparr>sysSet := es', sysBlocked := (d, w) # sysBlocked s\<rparr>)"
| wake_returns: "i < length (sysBlocked s) \<Longrightarrow> sysBlocked s ! i = (d, w) \<Longrightarrow> wait_result_ok r \<Longrightarrow>
    resume w r clock (sysSet s) = Some (Returned e p b es') \<Longrightarrow>
    sys_step hash s ((if wtIn w = GetFirst then s\<lparr>sysSet := es'\<rparr> else after_return s d e es')
      \<lparr>sysBlocked := take i (sysBlocked s) @ drop (Suc i) (sysBlocked s)\<rparr>)"
| wake_blocks: "i < length (sysBlocked s) \<Longrightarrow> sysBlocked s ! i = (d, w) \<Longrightarrow> wait_result_ok r \<Longrightarrow>
    resume w r clock (sysSet s) = Some (Blocked w' es') \<Longrightarrow>
    sys_step hash s (s\<lparr>sysSet := es', sysBlocked := (sysBlocked s)[i := (d, w')]\<rparr>)"
| client: "(\<And>d q k p. es_queues (sysSet s) d = Some q \<Longrightarrow> (k, p) \<in> set q \<Longrightarrow> deref heap p = event_at (sysSet s) p) \<Longrightarrow>
    sys_step hash s (s\<lparr>sysSet := (sysSet s)\<lparr>evHeap := heap\<rparr>\<rparr>)"

inductive_cases sys_stepE: "sys_step hash s s'"

section \<open>Invariant\<close>

text \<open>Nothing gets lost or is delivered twice: what was added is in the queue, was taken or was deleted.\<close>

definition conserved :: "es_system \<Rightarrow> bool" where
  "conserved s \<longleftrightarrow> (\<forall>d. sysAdded s d =
     mset (the_queue (es_queues (sysSet s) d)) + sysTaken s d + sysDeleted s d)"

definition sys_ok :: "(char list \<Rightarrow> int) \<Rightarrow> es_system \<Rightarrow> bool" where
  "sys_ok hash s \<longleftrightarrow> es_ok hash 0 (sysSet s) \<and> (\<forall>(d, w) \<in> set (sysBlocked s). waiter_ok (sysSet s) w d) \<and> conserved s"

lemma waiters_kept:
  assumes "\<forall>(d, w) \<in> set ws. waiter_ok es w d" "same_events es es'"
  shows "\<forall>(d, w) \<in> set ws. waiter_ok es' w d"
  using assms by (auto simp: waiter_ok_def same_events_def map_le_def dom_def; fastforce)

text \<open>One lemma for the bookkeeping of a step that keeps, grows or shrinks the queue of one destination.\<close>

lemma mm_insert_mset: "mset (mm_insert k v q) = add_mset (k, v) (mset q)"
  by (induction k v q rule: mm_insert.induct) auto

lemma mm_erase_mset: "j < length q \<Longrightarrow> mset q = add_mset (q ! j) (mset (mm_erase j q))"
proof -
  assume j: "j < length q"
  have "q = take j q @ q ! j # drop (Suc j) q" using j by (rule id_take_nth_drop)
  then have "mset q = mset (take j q @ q ! j # drop (Suc j) q)" by (rule arg_cong)
  then show ?thesis by (simp add: mm_erase_def)
qed

lemma conserved_same:
  "conserved s \<Longrightarrow> es_queues es' = es_queues (sysSet s) \<Longrightarrow>
   sysAdded s' = sysAdded s \<Longrightarrow> sysTaken s' = sysTaken s \<Longrightarrow> sysDeleted s' = sysDeleted s \<Longrightarrow> sysSet s' = es' \<Longrightarrow> conserved s'"
  by (simp add: conserved_def)

lemma conserved_take:
  assumes "conserved s" "es_queues (sysSet s) d = Some ((x, k) # q)"
    "es_queues es' = (es_queues (sysSet s))(d \<mapsto> q)"
  shows "conserved (after_return s d NoError es')"
  using assms by (auto simp: conserved_def after_return_def note_in_def head_of_def the_queue_def)

text \<open>Every call returns or blocks, and keeps the invariant.\<close>

lemma step_ok_returned:
  assumes "sys_ok hash s" "step_ok hash d clock (sysSet s) (Returned e p b es')"
    and "set ws \<subseteq> set (sysBlocked s)"
  shows "sys_ok hash ((after_return s d e es')\<lparr>sysBlocked := ws\<rparr>)"
proof -
  have es: "es_ok hash 0 es'" "same_events (sysSet s) es'"
    using assms(2) by (simp_all add: step_ok_def)
  have w: "\<forall>(d, w) \<in> set ws. waiter_ok (sysSet s) w d" using assms(1,3) unfolding sys_ok_def by blast
  have "conserved (after_return s d e es')"
  proof (cases "e = NoError")
    case True
    then obtain x k q where "es_queues (sysSet s) d = Some ((x, k) # q)"
        "es_queues es' = (es_queues (sysSet s))(d \<mapsto> q)"
      using assms(2) by (auto simp: step_ok_def)
    then show ?thesis using conserved_take [of s d x k q es'] assms(1) True by (simp add: sys_ok_def)
  next
    case False
    then show ?thesis
      using assms conserved_same [of s es' "after_return s d e es'"] by (simp add: sys_ok_def step_ok_def after_return_def)
  qed
  then show ?thesis
    using es waiters_kept [OF w es(2)] by (simp add: sys_ok_def after_return_def conserved_def)
qed

lemma queues_kept:
  assumes "sys_ok hash s" "es_ok hash 0 es'" "same_events (sysSet s) es'" "es_queues es' = es_queues (sysSet s)"
    and "\<forall>(d, w) \<in> set ws. waiter_ok es' w d \<or> (d, w) \<in> set (sysBlocked s)"
  shows "sys_ok hash (s\<lparr>sysSet := es', sysBlocked := ws\<rparr>)"
proof -
  have "\<forall>(d, w) \<in> set (sysBlocked s). waiter_ok es' w d"
    by (rule waiters_kept [OF _ assms(3)]) (use assms(1) in \<open>simp add: sys_ok_def\<close>)
  then have "\<forall>(d, w) \<in> set ws. waiter_ok es' w d" using assms(5) by blast
  then show ?thesis using assms(1,2,4) by (simp add: sys_ok_def conserved_def)
qed


section \<open>Every step keeps it\<close>

lemma conserved_add:
  assumes "conserved s" "es_queues es' = (es_queues (sysSet s))(d \<mapsto> mm_insert x p (the_queue (es_queues (sysSet s) d)))"
  shows "conserved (s\<lparr>sysSet := es', sysAdded := note_in (sysAdded s) d (x, p)\<rparr>)"
  using assms by (auto simp: conserved_def note_in_def the_queue_def mm_insert_mset)

lemma conserved_delete:
  assumes "conserved s" "es_queues (sysSet s) d = Some q" "mm_find x q = Some j"
    "es_queues es' = (es_queues (sysSet s))(d \<mapsto> mm_erase j q)"
  shows "conserved (s\<lparr>sysSet := es', sysDeleted := note_in (sysDeleted s) d (q ! j)\<rparr>)"
  using assms mm_erase_mset [of j q] mm_find_Some [OF assms(3)]
  by (auto simp: conserved_def note_in_def the_queue_def)

text \<open>The calls that do not wait: the blocked ones stay.\<close>

lemma sys_okI:
  assumes "sys_ok hash s" "es_ok hash 0 es'" "same_events (sysSet s) es'" "conserved s'"
    "sysSet s' = es'" "sysBlocked s' = sysBlocked s"
  shows "sys_ok hash s'"
proof -
  have "\<forall>(d, w) \<in> set (sysBlocked s). waiter_ok es' w d"
    by (rule waiters_kept [OF _ assms(3)]) (use assms(1) in \<open>simp add: sys_ok_def\<close>)
  then show ?thesis using assms by (simp add: sys_ok_def)
qed

lemma add_keeps:
  assumes ok: "sys_ok hash s" and ev: "event_at (sysSet s) p = Some ev" "event_is ev d x"
    and room: "maxLength (pesmEventsSetHashMap (sysSet s)) < 2 ^ 30"
    and run: "addEvent hash (sysSet s) (Some p) = Some (e, es')"
  shows "sys_ok hash (s\<lparr>sysSet := es',
    sysAdded := (if e = NoError then note_in (sysAdded s) d (x, p) else sysAdded s)\<rparr>)"
proof -
  have es: "es_ok hash 0 (sysSet s)" "conserved s" using ok by (simp_all add: sys_ok_def)
  have r: "e = NoError" "es_ok hash 0 es'" "same_events (sysSet s) es'"
    "es_queues es' = (es_queues (sysSet s))(d \<mapsto> mm_insert x p (the_queue (es_queues (sysSet s) d)))"
    using addEvent_ok [OF es(1) room ev] run by auto
  show ?thesis
    by (rule sys_okI [OF ok r(2,3)]) (use conserved_add [OF es(2) r(4)] r(1) in simp_all)
qed

lemma destination_keeps:
  assumes ok: "sys_ok hash s" and src: "c_str src = Some d"
    and room: "maxLength (pesmEventsSetHashMap (sysSet s)) < 2 ^ 30"
    and run: "addDestination hash (sysSet s) (Some src) = Some (e, es')"
  shows "sys_ok hash (s\<lparr>sysSet := es'\<rparr>)"
proof -
  have es: "es_ok hash 0 (sysSet s)" "conserved s" using ok by (simp_all add: sys_ok_def)
  have r: "es_ok hash 0 es'" "same_events (sysSet s) es'"
    "es_queues es' = (if es_queues (sysSet s) d = None then (es_queues (sysSet s))(d \<mapsto> []) else es_queues (sysSet s))"
    using addDestination_ok [OF es(1) room src] run by auto
  have "the_queue (es_queues es' d') = the_queue (es_queues (sysSet s) d')" for d'
    using r(3) by (simp add: the_queue_def)
  then have "conserved (s\<lparr>sysSet := es'\<rparr>)" using es(2) by (simp add: conserved_def)
  then show ?thesis by (intro sys_okI [OF ok r(1,2)]) simp_all
qed

lemma delete_keeps:
  assumes ok: "sys_ok hash s" and ev: "event_at (sysSet s) p = Some ev" "event_is ev d x"
    and run: "deleteEvent hash (sysSet s) (Some p) = Some (e, es')"
  shows "sys_ok hash (s\<lparr>sysSet := es', sysDeleted := (if e = NoError
    then note_in (sysDeleted s) d (the_queue (es_queues (sysSet s) d) ! the (mm_find x (the_queue (es_queues (sysSet s) d))))
    else sysDeleted s)\<rparr>)"
proof -
  have es: "es_ok hash 0 (sysSet s)" "conserved s" using ok by (simp_all add: sys_ok_def)
  have r: "e = fst (delete_spec (es_queues (sysSet s)) d x)" "es_ok hash 0 es'" "same_events (sysSet s) es'"
    "es_queues es' = snd (delete_spec (es_queues (sysSet s)) d x)"
    using deleteEvent_ok [OF es(1) ev] run by auto
  consider "e \<noteq> NoError" "es_queues es' = es_queues (sysSet s)"
    | q j where "e = NoError" "es_queues (sysSet s) d = Some q" "mm_find x q = Some j"
        "es_queues es' = (es_queues (sysSet s))(d \<mapsto> mm_erase j q)"
    using r(1,4) by (auto simp: delete_spec_def split: option.splits)
  then show ?thesis
  proof cases
    case 1
    show ?thesis
      by (rule sys_okI [OF ok r(2,3)]) (use 1 es(2) in \<open>simp_all add: conserved_def\<close>)
  next
    case (2 q j)
    show ?thesis
      by (rule sys_okI [OF ok r(2,3)])
         (use conserved_delete [OF es(2) 2(2,3,4)] 2 in \<open>simp_all add: the_queue_def\<close>)
  qed
qed

lemma client_keeps:
  assumes ok: "sys_ok hash s"
    and heap: "\<And>d q k p. es_queues (sysSet s) d = Some q \<Longrightarrow> (k, p) \<in> set q \<Longrightarrow> deref heap p = event_at (sysSet s) p"
  shows "sys_ok hash (s\<lparr>sysSet := (sysSet s)\<lparr>evHeap := heap\<rparr>\<rparr>)"
proof -
  let ?es = "(sysSet s)\<lparr>evHeap := heap\<rparr>"
  have es: "es_ok hash 0 (sysSet s)" using ok by (simp add: sys_ok_def)
  have "\<exists>de. destination_at (sysSet s) i = Some de \<and> destination_ok ?es d de" if i: "destination_index (sysSet s) d = Some i" for d i
  proof -
    obtain de where de: "destination_at (sysSet s) i = Some de" "destination_ok (sysSet s) d de"
        "es_queues (sysSet s) d = Some (emEventsMultiMap de)"
      by (rule es_ok_lookup [OF es i])
    have "destination_ok ?es d de"
      using de(2) heap [OF de(3)] by (fastforce simp: destination_ok_def)
    then show ?thesis using de(1) by blast
  qed
  then have "es_ok hash 0 ?es" using es by (simp add: es_ok_def)
  moreover have "es_queues ?es = es_queues (sysSet s)" by (simp add: fun_eq_iff es_queues_def)
  ultimately show ?thesis using ok by (auto simp: sys_ok_def conserved_def waiter_ok_def)
qed

lemma in_without: "set (take i xs @ drop (Suc i) xs) \<subseteq> set xs"
  by (auto dest: in_set_takeD in_set_dropD)

lemma sys_step_keeps:
  assumes "sys_step hash s s'" "sys_ok hash s"
  shows "sys_ok hash s'"
  using assms
proof (induction rule: sys_step.induct)
  case (add s p ev d x e es')
  then show ?case using add_keeps by blast
next
  case (destination src d s e es')
  then show ?case using destination_keeps by blast
next
  case (delete s p ev d x e es')
  then show ?case using delete_keeps by blast
next
  case (take_returns dst d blk clock0 s secs ms clock e p b es')
  then have "step_ok hash d clock (sysSet s) (Returned e p b es')"
    using getAndRemoveFirstEvent_step [of hash "sysSet s" dst d blk clock0 secs ms clock] by (auto simp: sys_ok_def)
  then show ?case
    using step_ok_returned [OF take_returns(4), of d clock e p b es' "sysBlocked s"] by (simp add: after_return_def)
next
  case (take_blocks dst d blk clock0 s secs ms clock w es')
  then have "step_ok hash d clock (sysSet s) (Blocked w es')"
    using getAndRemoveFirstEvent_step [of hash "sysSet s" dst d blk clock0 secs ms clock] by (auto simp: sys_ok_def)
  then show ?case by (intro queues_kept take_blocks(4)) (auto simp: step_ok_def)
next
  case (peek_returns dst d s blk secs ms clock e p b es')
  then have "peek_ok hash d clock (sysSet s) (Returned e p b es')"
    using getFirstEvent_step [of hash "sysSet s" dst d blk secs ms clock] by (auto simp: sys_ok_def)
  then show ?case
    using queues_kept [OF peek_returns(3), of es' "sysBlocked s"] by (auto simp: peek_ok_def)
next
  case (peek_blocks dst d s blk secs ms clock w es')
  then have "peek_ok hash d clock (sysSet s) (Blocked w es')"
    using getFirstEvent_step [of hash "sysSet s" dst d blk secs ms clock] by (auto simp: sys_ok_def)
  then show ?case by (intro queues_kept peek_blocks(3)) (auto simp: peek_ok_def)
next
  case (wake_returns i s d w r clock e p b es')
  have w: "es_ok hash 0 (sysSet s)" "waiter_ok (sysSet s) w d"
    using wake_returns(1,2,5) nth_mem [of i "sysBlocked s"] by (auto simp: sys_ok_def)
  show ?case
  proof (cases "wtIn w = GetFirst")
    case True
    then have "peek_ok hash d clock (sysSet s) (Returned e p b es')"
      using resume_first_step [OF w True wake_returns(3), of clock] wake_returns(4) by auto
    then show ?thesis
      using True queues_kept [OF wake_returns(5), of es' "take i (sysBlocked s) @ drop (Suc i) (sysBlocked s)"]
        in_without [of i "sysBlocked s"] by (auto simp: peek_ok_def)
  next
    case False
    then have "step_ok hash d clock (sysSet s) (Returned e p b es')"
      using resume_step [OF w False wake_returns(3), of clock] wake_returns(4) by auto
    then show ?thesis
      using False step_ok_returned [OF wake_returns(5) _ in_without] by simp
  qed
next
  case (wake_blocks i s d w r clock w' es')
  have w: "es_ok hash 0 (sysSet s)" "waiter_ok (sysSet s) w d"
    using wake_blocks(1,2,5) nth_mem [of i "sysBlocked s"] by (auto simp: sys_ok_def)
  have "es_ok hash 0 es' \<and> same_events (sysSet s) es' \<and> es_queues es' = es_queues (sysSet s) \<and> waiter_ok es' w' d"
    using resume_first_step [OF w _ wake_blocks(3), of clock] resume_step [OF w _ wake_blocks(3), of clock] wake_blocks(4)
    by (cases "wtIn w = GetFirst") (auto simp: peek_ok_def step_ok_def)
  then show ?case
    using set_update_subset_insert [of "sysBlocked s" i "(d, w')"]
    by (intro queues_kept wake_blocks(5)) auto
next
  case (client s heap)
  then show ?case using client_keeps by blast
qed

text \<open>The states the threads can reach.\<close>

definition sys_start :: "events_set \<Rightarrow> es_system" where
  "sys_start es = \<lparr>sysSet = es, sysBlocked = [], sysAdded = (\<lambda>d. {#}), sysTaken = (\<lambda>d. {#}), sysDeleted = (\<lambda>d. {#})\<rparr>"

inductive sys_reach :: "(char list \<Rightarrow> int) \<Rightarrow> events_set \<Rightarrow> es_system \<Rightarrow> bool" for hash es where
  start: "sys_reach hash es (sys_start es)"
| step: "sys_reach hash es s \<Longrightarrow> sys_step hash s s' \<Longrightarrow> sys_reach hash es s'"

lemma sys_reach_ok:
  assumes "sys_reach hash es s" "es_ok hash 0 es" "\<forall>d. es_queues es d = None"
  shows "sys_ok hash s"
  using assms(1)
proof induction
  case start
  show ?case using assms(2,3) by (simp add: sys_ok_def sys_start_def conserved_def the_queue_def)
qed (rule sys_step_keeps)

end
