(* ===== verification/EventsSetPool.thy ===== *)
theory EventsSetPool
  imports EventsSetSystem
begin

text \<open>
  The pool of free events of \<open>EventsSet\<close>, and its life cycle: \<open>init\<close>, \<open>finish\<close> and \<open>init\<close> again.
\<close>

section \<open>The pool\<close>

abbreviation free_events :: "events_set \<Rightarrow> nat list" where
  "free_events es \<equiv> vFreeEvents (petiEventTypeInfo es ! 0)"

text \<open>\<open>used\<close> are the events of type 0 the clients have.\<close>

definition pool_ok :: "events_set \<Rightarrow> nat list \<Rightarrow> bool" where
  "pool_ok es used \<longleftrightarrow>
     mtFreeEvents es = Some 0 \<and> 0 < ulNumberOfDifferentEventTypeToManage es \<and>
     length (petiEventTypeInfo es) = ulNumberOfDifferentEventTypeToManage es \<and>
     distinct (free_events es @ used) \<and> (\<forall>p \<in> set (free_events es @ used). p < length (evHeap es))"

lemma pool_enter_ok:
  assumes "pool_ok es used"
  shows "pool_enter 0 es = Inr (es\<lparr>mtFreeEvents := Some 1\<rparr>)"
  using assms by (simp add: pool_enter_def PMutex_lock_def pool_ok_def)

lemma pool_done_1: "mtFreeEvents es = Some (Suc 0) \<Longrightarrow> pool_done es = (NoError, es\<lparr>mtFreeEvents := Some 0\<rparr>)"
  by (simp add: pool_done_def PMutex_unLock_def)

text \<open>A new block lies behind all events there are.\<close>

lemma pool_refill_ok:
  assumes "pool_ok es used"
  defines "es1 \<equiv> es\<lparr>mtFreeEvents := Some 1\<rparr>"
  obtains es2 where "pool_refill allocateMoreFreeUserEvents 0 es1 = (NoError, es2)"
    "pool_ok (es2\<lparr>mtFreeEvents := Some 0\<rparr>) used" "free_events es2 \<noteq> []" "mtFreeEvents es2 = Some (Suc 0)"
    "\<exists>new. evHeap es2 = evHeap es @ new" "es2 = es1\<lparr>evHeap := evHeap es2, petiEventTypeInfo := petiEventTypeInfo es2\<rparr>"
proof (cases "free_events es = []")
  case False
  then show thesis using that [of es1] assms by (simp add: pool_refill_def pool_ok_def)
next
  case True
  let ?n = EVSET_DEFAULTNUMBEROFNEWFREEEVENTSALLOCATED
  let ?ti = "(petiEventTypeInfo es ! 0)\<lparr>
    ulPreAllocatedEventsNumber := ulPreAllocatedEventsNumber (petiEventTypeInfo es ! 0) + ?n,
    vPointersToAllocatedEvents := vPointersToAllocatedEvents (petiEventTypeInfo es ! 0) @ [length (evHeap es)],
    vFreeEvents := [length (evHeap es) ..< length (evHeap es) + ?n]\<rparr>"
  let ?es = "es1\<lparr>evHeap := evHeap es @ new_events ?n, petiEventTypeInfo := (petiEventTypeInfo es)[0 := ?ti]\<rparr>"
  have ti: "allocateMoreFreeUserEvents 0 (evHeap es) (petiEventTypeInfo es ! 0) = (NoError, evHeap es @ new_events ?n, ?ti)"
    using True by (simp_all add: allocateMoreFreeUserEvents_def EVSET_EVENTTYPE_EVENTIDENTIFIER_def Let_def)
  have n: "0 < ?n" by (simp add: EVSET_DEFAULTNUMBEROFNEWFREEEVENTSALLOCATED_def)
  have len: "0 < length (petiEventTypeInfo es)" using assms(1) by (simp add: pool_ok_def)
  have run: "pool_refill allocateMoreFreeUserEvents 0 es1 = (NoError, ?es)"
    using True n by (simp add: pool_refill_def es1_def ti)
  have free: "free_events ?es = [length (evHeap es) ..< length (evHeap es) + ?n]" using len by simp
  have "pool_ok (?es\<lparr>mtFreeEvents := Some 0\<rparr>) used"
    using assms(1) free True by (force simp: pool_ok_def es1_def new_events_def)
  then show thesis using that [OF run] free n by (simp add: es1_def)
qed

lemma getFreeEvent_ok:
  assumes "pool_ok es used"
  shows "\<exists>p es'. getFreeEvent es 0 = (NoError, Some p, es') \<and> pool_ok es' (p # used) \<and> p \<notin> set used \<and>
    (free_events es \<noteq> [] \<longrightarrow> p = hd (free_events es)) \<and> (\<exists>new. evHeap es' = evHeap es @ new)"
proof -
  obtain es2 where r: "pool_refill allocateMoreFreeUserEvents 0 (es\<lparr>mtFreeEvents := Some 1\<rparr>) = (NoError, es2)"
    "pool_ok (es2\<lparr>mtFreeEvents := Some 0\<rparr>) used" "free_events es2 \<noteq> []" "mtFreeEvents es2 = Some (Suc 0)"
    "\<exists>new. evHeap es2 = evHeap es @ new"
    by (rule pool_refill_ok [OF assms])
  obtain p fr where fr: "free_events es2 = p # fr" using r(3) by (cases "free_events es2") auto
  let ?es = "es2\<lparr>petiEventTypeInfo := (petiEventTypeInfo es2)[0 := (petiEventTypeInfo es2 ! 0)
    \<lparr>vFreeEvents := fr\<rparr>], mtFreeEvents := Some 0\<rparr>"
  have len: "0 < length (petiEventTypeInfo es2)" using r(2) by (simp add: pool_ok_def)
  have "getFreeEvent es 0 = (NoError, Some p, ?es)"
    using pool_enter_ok [OF assms] r(1,4) fr pool_done_1
    by (simp add: getFreeEvent_def getFreeEvent_with_def Let_def)
  moreover have "pool_ok ?es (p # used)" "p \<notin> set used"
    using r(2) len fr by (auto simp: pool_ok_def)
  moreover have "free_events es \<noteq> [] \<Longrightarrow> p = hd (free_events es)"
    using r(1) fr by (auto simp: pool_refill_def)
  ultimately show ?thesis using r(5) by auto
qed

lemma releaseEvent_ok:
  assumes "pool_ok es used" "p \<in> set used"
  shows "\<exists>es'. releaseEvent es 0 p = (NoError, es') \<and> pool_ok es' (remove1 p used) \<and>
    free_events es' = free_events es @ [p] \<and> evHeap es' = evHeap es"
proof -
  let ?es = "es\<lparr>petiEventTypeInfo := (petiEventTypeInfo es)[0 := (petiEventTypeInfo es ! 0)
    \<lparr>vFreeEvents := free_events es @ [p]\<rparr>], mtFreeEvents := Some 0\<rparr>"
  have len: "0 < length (petiEventTypeInfo es)" using assms(1) by (simp add: pool_ok_def)
  have "releaseEvent es 0 p = (NoError, ?es)"
    using pool_enter_ok [OF assms(1)] assms(1)
    by (simp add: releaseEvent_def pool_done_def PMutex_unLock_def Let_def pool_ok_def)
  moreover have "pool_ok ?es (remove1 p used)"
    using assms len by (auto simp: pool_ok_def)
  ultimately show ?thesis using len by auto
qed

text \<open>Types above 0 are left to the classes that override the virtual methods.\<close>

lemma getFreeEvent_other:
  assumes "pool_ok es used" "0 < k" "vFreeEvents (petiEventTypeInfo es ! k) = []"
  shows "fst (getFreeEvent es k) = EventsSetErrors (if k < ulNumberOfDifferentEventTypeToManage es
    then EVSET_EVENTSSET_UNKNOWNEVENTTYPE else EVSET_EVENTSSET_EVENTTYPEOVERCOMENUMBEROFDIFFERENTEVENTTYPES)"
  using assms by (auto simp: getFreeEvent_def getFreeEvent_with_def pool_enter_def pool_fail_def pool_refill_def
      PMutex_lock_def PMutex_unLock_def allocateMoreFreeUserEvents_def EVSET_EVENTTYPE_EVENTIDENTIFIER_def
      pool_ok_def Let_def)

section \<open>Clients of the pool\<close>

text \<open>A history of calls: the events handed out and not given back, last first. Only an event a
  client has is given back.\<close>

datatype pool_op = GetFree | Release nat

fun pool_step :: "pool_op \<Rightarrow> events_set \<times> nat list \<Rightarrow> (events_set \<times> nat list) option" where
  "pool_step GetFree (es, used) =
     (case getFreeEvent es 0 of
        (NoError, Some p, es') \<Rightarrow> Some (es', p # used)
      | _ \<Rightarrow> None)"
| "pool_step (Release p) (es, used) =
     (case releaseEvent es 0 p of
        (NoError, es') \<Rightarrow> Some (es', remove1 p used)
      | _ \<Rightarrow> None)"

fun pool_run :: "pool_op list \<Rightarrow> events_set \<times> nat list \<Rightarrow> (events_set \<times> nat list) option" where
  "pool_run [] s = Some s"
| "pool_run (c # cs) s = Option.bind (pool_step c s) (pool_run cs)"

fun pool_calls_ok :: "pool_op list \<Rightarrow> events_set \<times> nat list \<Rightarrow> bool" where
  "pool_calls_ok [] s \<longleftrightarrow> True"
| "pool_calls_ok (c # cs) s \<longleftrightarrow>
     (case c of GetFree \<Rightarrow> True | Release p \<Rightarrow> p \<in> set (snd s)) \<and>
     (case pool_step c s of Some s' \<Rightarrow> pool_calls_ok cs s' | None \<Rightarrow> True)"

lemma pool_run_ok:
  "pool_ok es used \<Longrightarrow> pool_calls_ok cs (es, used) \<Longrightarrow>
   \<exists>es' used'. pool_run cs (es, used) = Some (es', used') \<and> pool_ok es' used' \<and> distinct used'"
proof (induction cs arbitrary: es used)
  case Nil
  then show ?case by (simp add: pool_ok_def)
next
  case (Cons c cs)
  show ?case
  proof (cases c)
    case GetFree
    obtain p es' where "getFreeEvent es 0 = (NoError, Some p, es')" "pool_ok es' (p # used)"
      using getFreeEvent_ok [OF Cons.prems(1)] by blast
    then show ?thesis using Cons.IH [of es' "p # used"] Cons.prems(2) GetFree by simp
  next
    case (Release p)
    then have "p \<in> set used" using Cons.prems(2) by simp
    then obtain es' where "releaseEvent es 0 p = (NoError, es')" "pool_ok es' (remove1 p used)"
      using releaseEvent_ok [OF Cons.prems(1)] by blast
    then show ?thesis using Cons.IH [of es' "remove1 p used"] Cons.prems(2) Release by simp
  qed
qed


section \<open>Life cycle\<close>

lemma EventsSet_init_ok:
  assumes "essEventsSetStatus es = EVSET_EVENTSSETBUILDED" "evSetMutex es = None" "mtFreeEvents es = None" "0 < n"
  shows "\<exists>es'. EventsSet_init es b n = Some (NoError, es') \<and> es_ok hash 0 es' \<and> (\<forall>d. es_queues es' d = None) \<and>
    pool_ok es' [] \<and> bConditionVariablesToBeUsed es' = b \<and> evHeap es' = evHeap es"
proof -
  obtain t :: "(char list, nat) my_hash_map" where t: "hash_map_ctor 100 = Some t" "hm_wf hash t" "hm_map t = Map.empty"
    using hash_map_ctor_ok [of 100 hash] by auto
  let ?es = "es\<lparr>ulNumberOfDifferentEventTypeToManage := n, bConditionVariablesToBeUsed := b,
    petiEventTypeInfo := replicate n \<lparr>vPointersToAllocatedEvents = [], vFreeEvents = [], ulPreAllocatedEventsNumber = 0\<rparr>,
    mtFreeEvents := Some 0, evSetMutex := Some 0, pesmEventsSetHashMap := t,
    essEventsSetStatus := EVSET_EVENTSSETINITIALIZED\<rparr>"
  have "EventsSet_init es b n = Some (NoError, ?es)"
    using assms t(1) by (simp add: EventsSet_init_def PMutex_init_def Let_def)
  moreover have "es_ok hash 0 ?es" "\<forall>d. es_queues ?es d = None" "pool_ok ?es []"
    using t(2,3) assms(4) by (simp_all add: es_ok_def es_queues_def pool_ok_def)
  ultimately show ?thesis by auto
qed

text \<open>\<open>init\<close> on a new object does not depend on what its storage held, nor on the hash functor.\<close>

lemma EventsSet_ctor_init:
  "0 < n \<Longrightarrow> \<exists>es'. EventsSet_init (EventsSet_ctor junk) b n = Some (NoError, es') \<and> es_ok hash 0 es' \<and>
     (\<forall>d. es_queues es' d = None) \<and> pool_ok es' []"
  using EventsSet_init_ok [of "EventsSet_ctor junk" n b hash] by (auto simp: EventsSet_ctor_def)

lemma delete_destinations_eq:
  "\<exists>h. delete_destinations items es = es\<lparr>destinationHeap := h\<rparr> \<and>
     (\<forall>i. deref h i = (if i \<in> snd ` set items then None else destination_at es i))"
proof (induction items arbitrary: es)
  case Nil
  show ?case by (intro exI [of _ "destinationHeap es"]) (simp add: delete_destinations_def)
next
  case (Cons a items)
  obtain key j where a: "a = (key, j)" by (cases a)
  let ?es = "es\<lparr>destinationHeap := (destinationHeap es)[j := None]\<rparr>"
  have eq: "delete_destinations (a # items) es = delete_destinations items ?es"
    by (simp add: delete_destinations_def a)
  have at: "destination_at ?es i = (if i = j then None else destination_at es i)" for i
    by (simp add: deref_def)
  obtain h where h: "delete_destinations items ?es = ?es\<lparr>destinationHeap := h\<rparr>"
    "\<forall>i. deref h i = (if i \<in> snd ` set items then None else destination_at ?es i)"
    using Cons.IH by blast
  show ?case
  proof (intro exI [of _ h] conjI)
    show "delete_destinations (a # items) es = es\<lparr>destinationHeap := h\<rparr>" using h(1) unfolding eq by simp
  qed (use h(2) at a in auto)
qed

text \<open>The pools: only the heap of the events and the pools change.\<close>

lemma delete_pools_eq:
  "\<exists>heap tis. fold delete_pool ks es = es\<lparr>evHeap := heap, petiEventTypeInfo := tis\<rparr>"
proof (induction ks arbitrary: es)
  case Nil
  show ?case by (intro exI [of _ "evHeap es"] exI [of _ "petiEventTypeInfo es"]) simp
next
  case (Cons k ks)
  obtain heap tis where "fold delete_pool ks (delete_pool k es) = (delete_pool k es)\<lparr>evHeap := heap, petiEventTypeInfo := tis\<rparr>"
    using Cons.IH by blast
  moreover have "\<exists>heap tis. delete_pool k es = es\<lparr>evHeap := heap, petiEventTypeInfo := tis\<rparr>"
    unfolding delete_pool_def Let_def by blast
  ultimately have "fold delete_pool (k # ks) es = es\<lparr>evHeap := heap, petiEventTypeInfo := tis\<rparr>" by auto
  then show ?case by blast
qed

lemma EventsSet_finish_ok:
  assumes "es_ok hash 0 es" "pool_ok es used"
  shows "\<exists>es'. EventsSet_finish es = (NoError, es') \<and> essEventsSetStatus es' = EVSET_EVENTSSETBUILDED \<and>
    evSetMutex es' = None \<and> mtFreeEvents es' = None \<and>
    (\<forall>d i. destination_index es d = Some i \<longrightarrow> destination_at es' i = None)"
proof -
  let ?t = "pesmEventsSetHashMap es"
  let ?es1 = "es\<lparr>evSetMutex := Some (Suc 0)\<rparr>"
  obtain h where h: "delete_destinations (for_each ?t) ?es1 = ?es1\<lparr>destinationHeap := h\<rparr>"
    "\<forall>i. deref h i = (if i \<in> snd ` set (for_each ?t) then None else destination_at ?es1 i)"
    using delete_destinations_eq by blast
  have m: "evSetMutex es = Some 0" "mtFreeEvents es = Some 0" "essEventsSetStatus es = EVSET_EVENTSSETINITIALIZED"
    using es_okD(1,2) [OF assms(1)] assms(2) by (simp_all add: pool_ok_def)
  let ?es4 = "es\<lparr>destinationHeap := h, pesmEventsSetHashMap := hash_map_clear ?t, evSetMutex := None, mtFreeEvents := Some (Suc 0)\<rparr>"
  obtain heap tis where p: "fold delete_pool [0..<ulNumberOfDifferentEventTypeToManage es] ?es4 =
      ?es4\<lparr>evHeap := heap, petiEventTypeInfo := tis\<rparr>"
    using delete_pools_eq by blast
  let ?es' = "?es4\<lparr>evHeap := heap, petiEventTypeInfo := [], mtFreeEvents := None, essEventsSetStatus := EVSET_EVENTSSETBUILDED\<rparr>"
  have lk: "snd (es_lock es) = ?es1" using locking(1) [OF m(1)] by simp
  have un: "snd (es_unlock (?es1\<lparr>destinationHeap := h, pesmEventsSetHashMap := hash_map_clear ?t\<rparr>)) =
      ?es1\<lparr>destinationHeap := h, pesmEventsSetHashMap := hash_map_clear ?t, evSetMutex := Some 0\<rparr>"
    using locking(2) [of "?es1\<lparr>destinationHeap := h, pesmEventsSetHashMap := hash_map_clear ?t\<rparr>" "Suc 0" 0] by simp
  have "EventsSet_finish es = (NoError, ?es')"
    unfolding EventsSet_finish_def Let_def lk using m h(1) un p
    by (simp add: PMutex_finish_def PMutex_lock_def PMutex_unLock_def)
  moreover have "destination_at ?es' i = None" if i: "destination_index es d = Some i" for d i
  proof -
    have "(d, i) \<in> set (cell_items (cells ?t))" using i by (simp add: hm_map_def map_of_SomeD)
    then have "i \<in> snd ` set (for_each ?t)" using for_each_eq [OF es_okD(3) [OF assms(1)]] by force
    then show ?thesis using h(2) by simp
  qed
  ultimately show ?thesis by auto
qed

end
