(* ===== verification/EventsSetProps.thy ===== *)
theory EventsSetProps
  imports EventsSetPool
begin

text \<open>
  The properties of \<open>EventsSet\<close>, each with a witness, and the calls that do not do what the class
  promises.
\<close>

section \<open>A set with one destination\<close>

definition buffer_hash :: "char list \<Rightarrow> int" where
  "buffer_hash = BufferHasher (\<lambda>i. 0)"

definition one_queue :: "(64 word, nat) multimap \<Rightarrow> event option list \<Rightarrow> events_set" where
  "one_queue q heap = \<lparr>essEventsSetStatus = EVSET_EVENTSSETINITIALIZED, evSetMutex = Some 0,
     bConditionVariablesToBeUsed = True,
     pesmEventsSetHashMap = \<lparr>maxLength = 4, currentLength = 1, numDeletedCells = 0, maxLengthTIMESresizeRatio = 2,
       cells = [VALID_CELL ''a'' 0, EMPTY_CELL, EMPTY_CELL, EMPTY_CELL]\<rparr>,
     mtFreeEvents = Some 0, ulNumberOfDifferentEventTypeToManage = 1,
     petiEventTypeInfo = [\<lparr>vPointersToAllocatedEvents = [], vFreeEvents = [], ulPreAllocatedEventsNumber = 0\<rparr>],
     destinationHeap = [Some \<lparr>emEventsMultiMap = q, cdAddedEvent = Some 0, bDestination = buffer_of ''a''\<rparr>],
     evHeap = heap\<rparr>"

lemma one_queue_table: "hm_wf buffer_hash (pesmEventsSetHashMap (one_queue q heap))"
proof -
  let ?t = "pesmEventsSetHashMap (one_queue q heap)"
  have path: "on_probe_path buffer_hash ?t ''a'' 0"
    unfolding on_probe_path_def
    by (intro exI [of _ 0]) (simp add: probe_0 [symmetric] first_location_def buffer_hash_def BufferHasher_def)
  have "cells ?t ! i = VALID_CELL k v \<Longrightarrow> i = 0 \<and> k = ''a''" if "i < 4" for i k v
    using that by (auto simp: one_queue_def less_Suc_eq numeral_eq_Suc)
  then have "\<forall>i<maxLength ?t. \<forall>k v. cells ?t ! i = VALID_CELL k v \<longrightarrow> on_probe_path buffer_hash ?t k i"
    using path by (fastforce simp: one_queue_def)
  moreover have "\<exists>n. maxLength ?t = 2 ^ n" by (intro exI [of _ 2]) (simp add: one_queue_def)
  ultimately show ?thesis
    by (simp add: hm_wf_def table_ok_def one_queue_def n_valid_def n_deleted_def cell_keys_def)
qed

lemma one_queue_index: "destination_index (one_queue q heap) = [''a'' \<mapsto> 0]"
  by (simp add: hm_map_def one_queue_def)

lemma one_queue_queues: "es_queues (one_queue q heap) = [''a'' \<mapsto> q]"
  by (auto simp: fun_eq_iff es_queues_def one_queue_index) (simp_all add: one_queue_def deref_def)

lemma one_queue_ok:
  assumes "mm_sorted q" "\<forall>(k, p) \<in> set q. p < length heap \<and> heap ! p = Some (event_of ''a'' k)"
  shows "es_ok buffer_hash 0 (one_queue q heap)"
proof -
  have "event_is (event_of ''a'' k) ''a'' k" for k by (rule event_of_is) simp
  then have d: "destination_ok (one_queue q heap) ''a'' \<lparr>emEventsMultiMap = q, cdAddedEvent = Some 0, bDestination = buffer_of ''a''\<rparr>"
    using assms buffer_of_holds [of "''a''"] by (fastforce simp: destination_ok_def one_queue_def deref_def)
  have "destination_at (one_queue q heap) 0 =
      Some \<lparr>emEventsMultiMap = q, cdAddedEvent = Some 0, bDestination = buffer_of ''a''\<rparr>"
    by (simp add: one_queue_def deref_def)
  then have "\<forall>d i. destination_index (one_queue q heap) d = Some i \<longrightarrow>
      (\<exists>de. destination_at (one_queue q heap) i = Some de \<and> destination_ok (one_queue q heap) d de)"
    using d unfolding one_queue_index by simp
  moreover have "\<forall>d d' i. destination_index (one_queue q heap) d = Some i \<longrightarrow>
      destination_index (one_queue q heap) d' = Some i \<longrightarrow> d = d'"
    unfolding one_queue_index by simp
  moreover have "essEventsSetStatus (one_queue q heap) = EVSET_EVENTSSETINITIALIZED \<and> evSetMutex (one_queue q heap) = Some 0"
    by (simp add: one_queue_def)
  ultimately show ?thesis using one_queue_table unfolding es_ok_def by blast
qed

lemma one_queue_room: "maxLength (pesmEventsSetHashMap (one_queue q heap)) < 2 ^ 30"
  by (simp add: one_queue_def)

lemma one_queue_event: "p < length heap \<Longrightarrow> event_at (one_queue q heap) p = heap ! p"
  by (simp add: one_queue_def deref_def)

section \<open>Producing and consuming\<close>


definition new_set :: "event option list \<Rightarrow> events_set" where
  "new_set heap = snd (the (EventsSet_init (EventsSet_ctor (one_queue [] heap)) True 1))"

lemma new_set_ok:
  "es_ok hash 0 (new_set heap)" "\<forall>d. es_queues (new_set heap) d = None" "pool_ok (new_set heap) []"
  "evHeap (new_set heap) = heap" "maxLength (pesmEventsSetHashMap (new_set heap)) < 2 ^ 30"
proof -
  obtain es where es: "EventsSet_init (EventsSet_ctor (one_queue [] heap)) True 1 = Some (NoError, es)" "es_ok hash 0 es"
      "\<forall>d. es_queues es d = None" "pool_ok es []" "evHeap es = heap"
    using EventsSet_init_ok [of "EventsSet_ctor (one_queue [] heap)" 1 True hash]
    by (auto simp: EventsSet_ctor_def one_queue_def)
  then show "es_ok hash 0 (new_set heap)" "\<forall>d. es_queues (new_set heap) d = None" "pool_ok (new_set heap) []"
    "evHeap (new_set heap) = heap" by (simp_all add: new_set_def)
  have "RoundUpToPowerOfTwo 100 = Some (128 :: nat)"
    using RoundUpToPowerOfTwo_eq [of 7 100] by simp
  then have "hash_map_ctor 100 = Some \<lparr>maxLength = 128, currentLength = 0, numDeletedCells = 0,
      maxLengthTIMESresizeRatio = 64, cells = replicate 128 (EMPTY_CELL :: (char list, nat) cell)\<rparr>"
    by (simp add: hash_map_ctor_def)
  then show "maxLength (pesmEventsSetHashMap (new_set heap)) < 2 ^ 30"
    by (simp add: new_set_def EventsSet_init_def EventsSet_ctor_def one_queue_def PMutex_init_def)
qed



text \<open>C21: \<open>addEvent\<close> puts the event in the queue of its destination (made when missing), in the
  order of the expirations and behind the events with the same one; no other destination changes;
  when the event is the new head, exactly one more signal is sent to that destination.\<close>

theorem addEvent_correct:
  assumes "es_ok hash 0 es" "maxLength (pesmEventsSetHashMap es) < 2 ^ 30"
    "event_at es p = Some ev" "event_is ev d x"
  defines "q \<equiv> the_queue (es_queues es d)"
  shows "\<exists>es' q'. addEvent hash es (Some p) = Some (NoError, es') \<and> es_ok hash 0 es' \<and>
    es_queues es' = (es_queues es)(d \<mapsto> q') \<and>
    sorted (map fst q') \<and> mset q' = add_mset (x, p) (mset q) \<and> with_key x q' = with_key x q @ [(x, p)] \<and>
    (bConditionVariablesToBeUsed es \<longrightarrow> hd q' = (x, p) \<longrightarrow> x \<notin> fst ` set q \<longrightarrow>
       es_signals es' d = Some (Suc (case es_signals es d of Some m \<Rightarrow> m | None \<Rightarrow> 0)))"
proof -
  have sq: "mm_sorted q"
    using es_queue_sorted [OF assms(1), of d] by (cases "es_queues es d") (auto simp: q_def the_queue_def mm_sorted_def)
  obtain es' where r: "addEvent hash es (Some p) = Some (NoError, es')" "es_ok hash 0 es'"
    "es_queues es' = (es_queues es)(d \<mapsto> mm_insert x p q)"
    "bConditionVariablesToBeUsed es \<longrightarrow> wakes x q \<longrightarrow>
       es_signals es' d = Some (Suc (case es_signals es d of Some m \<Rightarrow> m | None \<Rightarrow> 0))"
    using addEvent_ok [OF assms(1-4)] unfolding q_def by blast
  have "hd (mm_insert x p q) = (x, p) \<longrightarrow> x \<notin> fst ` set q \<longrightarrow> wakes x q"
    by (cases q) (auto simp: wakes_def split: if_splits)
  moreover have "sorted (map fst (mm_insert x p q))" using mm_insert_sorted [OF sq] by (simp add: mm_sorted_def)
  moreover have "with_key x (mm_insert x p q) = with_key x q @ [(x, p)]" using mm.ins_law [OF sq, of x p] by simp
  moreover have "mset (mm_insert x p q) = add_mset (x, p) (mset q)" by (rule mm.ins_mset [OF sq])
  ultimately show ?thesis using r by blast
qed

text \<open>Two events with the same expiration and one that is earlier.\<close>

definition sample_events :: "event option list" where
  "sample_events = [Some (event_of ''a'' 7), Some (event_of ''a'' 7), Some (event_of ''a'' 3)]"

lemma sample_set:
  "es_ok buffer_hash 0 (one_queue [(7, 0)] sample_events)"
  "es_ok buffer_hash 0 (one_queue [(7, 0), (7, 1)] sample_events)"
  "es_ok buffer_hash 0 (one_queue [(3, 2), (7, 0)] sample_events)"
  "es_ok buffer_hash 0 (one_queue [] sample_events)"
  "event_is (event_of ''a'' 7) ''a'' 7" "event_is (event_of ''a'' 3) ''a'' 3"
  "event_at (one_queue q sample_events) 1 = Some (event_of ''a'' 7)"
  "event_at (one_queue q sample_events) 2 = Some (event_of ''a'' 3)"
  by (auto intro!: one_queue_ok simp: mm_sorted_def sample_events_def event_of_is one_queue_event)

theorem addEvent_correct_witness:
  "\<exists>es' q'. addEvent buffer_hash (one_queue [(7, 0)] sample_events) (Some 2) = Some (NoError, es') \<and>
     es_queues es' ''a'' = Some q' \<and> mset q' = {#(3, 2), (7, 0)#} \<and> sorted (map fst q')"
  using addEvent_correct [OF sample_set(1) one_queue_room sample_set(8) sample_set(6)]
  by (fastforce simp: one_queue_queues the_queue_def)

text \<open>A call of \<open>getAndRemoveFirstEvent\<close> that succeeds without waiting removes the head of the
  queue of its destination: an event that has expired, that no other event of the queue precedes, and
  that was added first among those with its expiration. Nothing else changes.\<close>

theorem getAndRemoveFirstEvent_takes_earliest:
  assumes "es_ok hash 0 es" "Buffer_holds dst d"
    "getAndRemoveFirstEvent hash es (Some dst) False blk secs ms clock0 clock = Some (Returned NoError p b es')"
  shows "\<exists>x k q now. clock = Some now \<and> x \<le> now \<and> p = Some k \<and> es_queues es d = Some ((x, k) # q) \<and>
    (\<forall>(x', k') \<in> set q. x \<le> x') \<and> es_queues es' = (es_queues es)(d \<mapsto> q) \<and> es_ok hash 0 es' \<and> evHeap es' = evHeap es"
proof -
  have "blk \<Longrightarrow> clock0 \<noteq> None"
    using assms(3) by (cases clock0) (auto simp: getAndRemoveFirstEvent_def)
  then have st: "step_ok hash d clock es (Returned NoError p b es')"
    using getAndRemoveFirstEvent_step [OF assms(1,2), of blk clock0 secs ms clock] assms(3) by auto
  then obtain x k q now where r: "clock = Some now" "es_queues es d = Some ((x, k) # q)" "p = Some k" "x \<le> now"
      "es_queues es' = (es_queues es)(d \<mapsto> q)"
    by (auto simp: step_ok_def)
  have "\<forall>(x', k') \<in> set q. x \<le> x'"
    using es_queue_sorted [OF assms(1) r(2)] by (auto simp: mm_sorted_def)
  then show ?thesis using r st by (auto simp: step_ok_def same_events_def)
qed

lemma sample_take:
  "getAndRemoveFirstEvent buffer_hash (one_queue [(3, 2), (7, 0)] sample_events) (Some (buffer_of ''a'')) False
     False 0 0 None (Some 5) =
   Some (Returned NoError (Some 2) None (one_queue [(7, 0)] sample_events))"
proof -
  have f: "hash_map_find buffer_hash (pesmEventsSetHashMap (one_queue q h)) ''a'' = Some (Some 0)" for q h
    using hm.find_law [OF one_queue_table] one_queue_index [of q h] by simp
  have k: "c_str (Buffer_str (buffer_of ''a'')) = Some ''a''" by (simp add: Buffer_str_def buffer_of_def lit_def)
  have e: "getExpirationLocalDateTimeInMilliSecs (event_of ''a'' 3) = Inr 3"
    using event_is_get(2) [OF sample_set(6)] .
  show ?thesis
    using f [of "[(3, 2), (7, 0)]" sample_events] k e
    by (simp add: getAndRemoveFirstEvent_def es_enter_def es_lock_def PMutex_lock_def second_loop_def one_queue_def deref_def
        sample_events_def return_done_def es_done_def es_unlock_def PMutex_unLock_def mm_erase_def)
qed

theorem getAndRemoveFirstEvent_takes_earliest_witness:
  "\<exists>x q. es_queues (one_queue [(3, 2), (7, 0)] sample_events) ''a'' = Some ((x, 2) # q) \<and> x \<le> 5 \<and>
     es_queues (one_queue [(7, 0)] sample_events) ''a'' = Some q"
  using getAndRemoveFirstEvent_takes_earliest [OF sample_set(3) buffer_of_holds sample_take] by auto


text \<open>C20: the same for a call that waited: whatever the other threads did while it was blocked, and
  also when it was woken without reason or by an event that another thread took meanwhile, it
  removes the earliest event of its destination, and only one that has expired.\<close>

theorem resume_takes_earliest:
  assumes "es_ok hash 0 es" "waiter_ok es w d" "wtIn w \<noteq> GetFirst" "wait_result_ok r"
    "resume w r clock es = Some (Returned NoError p b es')"
  shows "\<exists>x k q now. clock = Some now \<and> x \<le> now \<and> p = Some k \<and> es_queues es d = Some ((x, k) # q) \<and>
    (\<forall>(x', k') \<in> set q. x \<le> x') \<and> es_queues es' = (es_queues es)(d \<mapsto> q) \<and> es_ok hash 0 es'"
proof -
  have st: "step_ok hash d clock es (Returned NoError p b es')"
    using resume_step [OF assms(1-4), of clock] assms(5) by auto
  then obtain x k q now where r: "clock = Some now" "es_queues es d = Some ((x, k) # q)" "p = Some k" "x \<le> now"
      "es_queues es' = (es_queues es)(d \<mapsto> q)"
    by (auto simp: step_ok_def)
  have "\<forall>(x', k') \<in> set q. x \<le> x'"
    using es_queue_sorted [OF assms(1) r(2)] by (auto simp: mm_sorted_def)
  then show ?thesis using r st by (auto simp: step_ok_def)
qed

definition sample_waiter :: waiter where
  "sample_waiter = \<lparr>wtIn = FirstLoop, wtDestination = 0, wtInitial = 1000, ulMilliSecondsToWait = 2500,
     ulRemainingSecondsToWait = 2, ulRemainingMilliSecondsToWait = 500, wtEvent = None\<rparr>"

lemma sample_waiter_ok: "waiter_ok (one_queue q heap) sample_waiter ''a''"
  using one_queue_index [of q heap] by (simp add: waiter_ok_def sample_waiter_def)

lemma sample_resume:
  "resume sample_waiter Signalled (Some 1200) (one_queue [(3, 2), (7, 0)] sample_events) =
   Some (Returned NoError (Some 2) None (one_queue [(7, 0)] sample_events))"
  "resume sample_waiter Signalled (Some 1200) (one_queue [] sample_events) =
   Some (Blocked (wait_for sample_waiter 2300) (one_queue [] sample_events))"
  using event_is_get(2) [OF sample_set(6)]
  by (simp_all add: resume_defs sample_waiter_def es_lock_def PMutex_lock_def second_loop_def one_queue_def deref_def
      sample_events_def return_done_def es_done_def es_unlock_def PMutex_unLock_def mm_erase_def wait_again_def
      lRemainingTimeInMilliSecs_def block_def)

theorem resume_takes_earliest_witness:
  "\<exists>x q. es_queues (one_queue [(3, 2), (7, 0)] sample_events) ''a'' = Some ((x, 2) # q) \<and> x \<le> 1200 \<and>
     es_queues (one_queue [(7, 0)] sample_events) ''a'' = Some q"
  using resume_takes_earliest [OF sample_set(3) sample_waiter_ok _ _ sample_resume(1)]
  by (auto simp: sample_waiter_def wait_result_ok_def)

text \<open>C26: a thread woken by the signal, or in its wait for the expiration of the head, gets the event
  at once when the head has expired by then.\<close>

theorem resume_delivers:
  assumes "es_ok hash 0 es" "waiter_ok es w d" "wtIn w = SecondLoop \<or> wtIn w = FirstLoop \<and> r = Signalled"
    "r = Signalled \<or> r = TimedOut" "es_queues es d = Some ((x, k) # q)" "x \<le> now"
  shows "\<exists>es'. resume w r (Some now) es = Some (Returned NoError (Some k) None es') \<and> es_queues es' = (es_queues es)(d \<mapsto> q)"
proof -
  note u = unlocked [OF assms(1)]
  let ?es = "es\<lparr>evSetMutex := Some (Suc 0)\<rparr>"
  have w1: "waiter_ok ?es w d" using assms(2) u(8) by simp
  obtain de where de: "destination_at ?es (wtDestination w) = Some de" "emEventsMultiMap de = (x, k) # q"
    using es_ok_lookup [OF assms(1), of d "wtDestination w"] assms(2,5) by (force simp: waiter_ok_def)
  have "resume w r (Some now) es = second_loop True w (Some now) ?es"
    using assms(3,4) u(4) de by (auto simp: resume_defs Let_def)
  moreover have "\<exists>es'. second_loop True w (Some now) ?es = Some (Returned NoError (Some k) None es') \<and>
      es_queues es' = (es_queues es)(d \<mapsto> q)"
    using assms(5,6) u(2)
    by (cases rule: second_loop_cases [OF u(1) w1, of True "Some now"]) auto
  ultimately show ?thesis by simp
qed

theorem resume_delivers_witness:
  "\<exists>es'. resume sample_waiter Signalled (Some 1200) (one_queue [(3, 2), (7, 0)] sample_events) =
     Some (Returned NoError (Some 2) None es') \<and> es_queues es' = [''a'' \<mapsto> [(7, 0)]]"
  using resume_delivers [OF sample_set(3) sample_waiter_ok, of Signalled 3 2 "[(7, 0)]" 1200]
  by (simp add: sample_waiter_def one_queue_queues)

text \<open>C25: a call that blocks again waits for a positive time that ends before its deadline, and splits
  it into seconds and less than 1000 milliseconds; so, once the deadline has passed, it returns
  whatever wakes it.\<close>

theorem resume_keeps_deadline:
  assumes "es_ok hash 0 es" "waiter_ok es w d" "wtIn w \<noteq> GetFirst"
    "resume w r (Some now) es = Some (Blocked w' es')"
    "wtInitial w \<le> now" "uint (ulMilliSecondsToWait w) < 2 ^ 63" "uint now < 2 ^ 63"
    "\<forall>(x, p) \<in> set (the_queue (es_queues es d)). uint x < 2 ^ 63"
  shows "0 < wait_time w' \<and> ulRemainingMilliSecondsToWait w' < 1000 \<and>
    uint now + int (wait_time w') \<le> uint (wtInitial w) + uint (ulMilliSecondsToWait w) \<and>
    wtInitial w' = wtInitial w \<and> ulMilliSecondsToWait w' = ulMilliSecondsToWait w"
  using resume_within [OF assms] resume_blocks [OF assms(1-4)] by auto

theorem resume_keeps_deadline_witness:
  "0 < wait_time (wait_for sample_waiter 2300) \<and>
   uint (1200 :: 64 word) + int (wait_time (wait_for sample_waiter 2300)) \<le> 3500"
  using resume_keeps_deadline [OF sample_set(4) sample_waiter_ok _ sample_resume(2)]
  by (simp add: one_queue_queues the_queue_def) (simp add: sample_waiter_def)

text \<open>\<open>getFirstEvent\<close> leaves the queues as they are; when it gives an event, it is the earliest,
  and the flag says whether it has expired.\<close>

theorem getFirstEvent_peeks:
  assumes "es_ok hash 0 es" "Buffer_holds dst d"
  shows "\<exists>out. getFirstEvent hash es (Some dst) False blk secs ms clock = Some out \<and>
    (case out of
       Returned e p b es' \<Rightarrow> es_queues es' = es_queues es \<and> es_ok hash 0 es' \<and>
         (e = NoError \<longrightarrow> (\<exists>x k q now. clock = Some now \<and> es_queues es d = Some ((x, k) # q) \<and>
            p = Some k \<and> b = Some (x \<le> now)))
     | Blocked w es' \<Rightarrow> es_queues es' = es_queues es \<and> es_ok hash 0 es')"
  using getFirstEvent_step [OF assms, of blk secs ms clock] by (fastforce simp: peek_ok_def split: outcome.splits)

lemma sample_peek:
  "getFirstEvent buffer_hash (one_queue [(3, 2), (7, 0)] sample_events) (Some (buffer_of ''a'')) False
     True 1 0 (Some 2) =
   Some (Returned NoError (Some 2) (Some False) (one_queue [(3, 2), (7, 0)] sample_events))"
proof -
  have f: "hash_map_find buffer_hash (pesmEventsSetHashMap (one_queue q h)) ''a'' = Some (Some 0)" for q h
    using hm.find_law [OF one_queue_table] one_queue_index [of q h] by simp
  have k: "c_str (Buffer_str (buffer_of ''a'')) = Some ''a''" by (simp add: Buffer_str_def buffer_of_def lit_def)
  show ?thesis
    using f [of "[(3, 2), (7, 0)]" sample_events] k event_is_get(2) [OF sample_set(6)]
    by (simp add: getFirstEvent_def es_enter_def es_lock_def PMutex_lock_def first_event_found_def one_queue_def deref_def
        sample_events_def return_done_def es_done_def es_unlock_def PMutex_unLock_def)
qed

theorem getFirstEvent_peeks_witness:
  "\<exists>x q. es_queues (one_queue [(3, 2), (7, 0)] sample_events) ''a'' = Some ((x, 2) # q) \<and> \<not> x \<le> 2"
proof -
  have "Buffer_holds (buffer_of ''a'') ''a''" by (rule buffer_of_holds) simp
  from getFirstEvent_peeks [OF sample_set(3) this, of True 1 0 "Some 2"] show ?thesis
    unfolding sample_peek by auto
qed

text \<open>\<open>addDestination\<close> makes an empty queue for a new destination and refuses one that is there,
  without touching the others.\<close>

theorem addDestination_correct:
  assumes "es_ok hash 0 es" "maxLength (pesmEventsSetHashMap es) < 2 ^ 30" "c_str src = Some d"
  shows "\<exists>e es'. addDestination hash es (Some src) = Some (e, es') \<and> es_ok hash 0 es' \<and>
    (if es_queues es d = None then e = NoError \<and> es_queues es' = (es_queues es)(d \<mapsto> [])
     else e = EventsSetErrors EVSET_EVENTSSET_DESTINATIONALREADYADDED \<and> es_queues es' = es_queues es)"
  using addDestination_ok [OF assms] by auto

theorem addDestination_correct_witness:
  "\<exists>es'. addDestination buffer_hash (one_queue [(7, 0)] sample_events) (Some (lit ''b'')) = Some (NoError, es') \<and>
     es_queues es' = [''a'' \<mapsto> [(7, 0)], ''b'' \<mapsto> []]"
proof -
  have "c_str (lit ''b'') = Some ''b''" by (simp add: lit_def)
  from addDestination_correct [OF sample_set(1) one_queue_room this] show ?thesis
    by (auto simp: one_queue_queues)
qed

section \<open>Deleting an event\<close>

text \<open>When no two events of a destination have the same expiration, \<open>deleteEvent\<close> removes exactly
  its event.\<close>

theorem deleteEvent_unique:
  assumes "es_ok hash 0 es" "event_at es p = Some ev" "event_is ev d x"
    "es_queues es d = Some q" "(x, p) \<in> set q" "distinct (map fst q)"
  shows "\<exists>es'. deleteEvent hash es (Some p) = Some (NoError, es') \<and> es_ok hash 0 es' \<and>
    es_queues es' = (es_queues es)(d \<mapsto> filter (\<lambda>kp. kp \<noteq> (x, p)) q)"
proof -
  obtain j where j: "mm_find x q = Some j"
    using assms(5) mm_find_None [of x q] by (cases "mm_find x q") (auto simp: with_key_def filter_empty_conv)
  note f = mm_find_Some [OF j]
  obtain i where i: "i < length q" "q ! i = (x, p)" using assms(5) by (metis in_set_conv_nth)
  have "i = j" using assms(6) f i nth_eq_iff_index_eq [of "map fst q" i j] by simp
  then have qj: "q = take j q @ (x, p) # drop (Suc j) q" using f i id_take_nth_drop [of j q] by simp
  have "(x, p) \<notin> set (take j q) \<and> (x, p) \<notin> set (drop (Suc j) q)"
  proof -
    have "distinct (map fst (take j q @ (x, p) # drop (Suc j) q))" using assms(6) qj by simp
    then show ?thesis by force
  qed
  then have "filter (\<lambda>kp. kp \<noteq> (x, p)) (take j q @ (x, p) # drop (Suc j) q) = mm_erase j q"
    by (auto simp: mm_erase_def intro!: arg_cong2 [where f = append] filter_True)
  then have "filter (\<lambda>kp. kp \<noteq> (x, p)) q = mm_erase j q" using qj by simp
  then show ?thesis using deleteEvent_ok [OF assms(1-3)] assms(4) j by (auto simp: delete_spec_def)
qed

theorem deleteEvent_unique_witness:
  "\<exists>es'. deleteEvent buffer_hash (one_queue [(3, 2), (7, 0)] sample_events) (Some 2) = Some (NoError, es') \<and>
     es_queues es' = [''a'' \<mapsto> [(7, 0)]]"
  using deleteEvent_unique [OF sample_set(3) sample_set(8,6), of "[(3, 2), (7, 0)]"]
  by (auto simp: one_queue_queues)

text \<open>But it looks for the expiration only: among events with the same expiration, which
  \<open>addEvent\<close> accepts, it removes the one that was added first, whichever it was asked to remove.\<close>

theorem deleteEvent_deletes_another:
  assumes "es_ok hash 0 es" "event_at es p = Some ev" "event_is ev d x"
    "es_queues es d = Some q" "with_key x q = (x, p') # r" "p' \<noteq> p"
  shows "\<exists>es' q'. deleteEvent hash es (Some p) = Some (NoError, es') \<and> es_queues es' = (es_queues es)(d \<mapsto> q') \<and>
    with_key x q' = r \<and> mset q = add_mset (x, p') (mset q')"
proof -
  obtain j where j: "mm_find x q = Some j"
    using assms(5) mm_find_None [of x q] by (cases "mm_find x q") auto
  note f = mm_find_Some [OF j]
  have qj: "q = take j q @ q ! j # drop (Suc j) q" using f by (simp add: id_take_nth_drop)
  have "with_key x (take j q) = []"
    using f by (fastforce simp: with_key_def filter_empty_conv in_set_conv_nth)
  moreover have "with_key x q = with_key x (take j q) @ with_key x (q ! j # drop (Suc j) q)"
    by (subst qj) (simp add: with_key_def)
  ultimately have w: "q ! j = (x, p')" "with_key x (drop (Suc j) q) = r"
    using assms(5) f by (auto simp: with_key_def)
  have "with_key x (mm_erase j q) = r"
    using w(2) \<open>with_key x (take j q) = []\<close> by (simp add: mm_erase_def with_key_def)
  moreover have "mset q = add_mset (x, p') (mset (mm_erase j q))" using mm_erase_mset [of j q] f w(1) by simp
  ultimately show ?thesis using deleteEvent_ok [OF assms(1-3)] assms(4) j by (auto simp: delete_spec_def)
qed

theorem deleteEvent_deletes_another_witness:
  "\<exists>es'. deleteEvent buffer_hash (one_queue [(7, 0), (7, 1)] sample_events) (Some 1) = Some (NoError, es') \<and>
     es_queues es' = [''a'' \<mapsto> [(7, 1)]]"
proof -
  obtain es' q' where r: "deleteEvent buffer_hash (one_queue [(7, 0), (7, 1)] sample_events) (Some 1) = Some (NoError, es')"
    "es_queues es' = [''a'' \<mapsto> q']" "mset [(7, 0), (7, 1)] = add_mset (7, 0) (mset q')"
    using deleteEvent_deletes_another [OF sample_set(2) sample_set(7,5), of "[(7, 0), (7, 1)]" 0 "[(7, 1)]"]
    by (auto simp: one_queue_queues with_key_def)
  then have "q' = [(7, 1)]" by (simp add: add_mset_commute)
  then show ?thesis using r by auto
qed

section \<open>The pool and the life cycle\<close>

text \<open>The pool never runs dry and never hands out an event that a client still has, for any
  sequence of requests and returns in which clients return only what they have.\<close>

theorem pool_exclusive:
  assumes "pool_ok es []" "pool_calls_ok cs (es, [])"
  shows "\<exists>es' used. pool_run cs (es, []) = Some (es', used) \<and> distinct used \<and> pool_ok es' used"
  using pool_run_ok [OF assms] by blast

theorem pool_exclusive_witness:
  "\<exists>es' used. pool_run [GetFree, GetFree] (new_set [], []) = Some (es', used) \<and> distinct used \<and> pool_ok es' used"
  using pool_exclusive [OF new_set_ok(3), of "[GetFree, GetFree]"] by (simp split: option.split)

text \<open>\<open>finish\<close> deletes every destination and both mutexes, and the object can be initialised
  again; it then holds no event.\<close>

theorem finish_init:
  assumes "es_ok hash 0 es" "pool_ok es used" "0 < n"
  shows "\<exists>es1 es2. EventsSet_finish es = (NoError, es1) \<and>
    (\<forall>d i. destination_index es d = Some i \<longrightarrow> destination_at es1 i = None) \<and>
    EventsSet_init es1 b n = Some (NoError, es2) \<and> es_ok hash 0 es2 \<and> (\<forall>d. es_queues es2 d = None) \<and> pool_ok es2 []"
proof -
  obtain es1 where f: "EventsSet_finish es = (NoError, es1)" "essEventsSetStatus es1 = EVSET_EVENTSSETBUILDED"
    "evSetMutex es1 = None" "mtFreeEvents es1 = None"
    "\<forall>d i. destination_index es d = Some i \<longrightarrow> destination_at es1 i = None"
    using EventsSet_finish_ok [OF assms(1,2)] by blast
  then show ?thesis using EventsSet_init_ok [OF f(2-4) assms(3), of b hash] by blast
qed

theorem finish_init_witness:
  "\<exists>es1 es2. EventsSet_finish (new_set []) = (NoError, es1) \<and> EventsSet_init es1 False 3 = Some (NoError, es2) \<and>
     pool_ok es2 []"
  using finish_init [OF new_set_ok(1) [where heap = "[]" and hash = buffer_hash]
      new_set_ok(3) [where heap = "[]"], where n = 3 and b = False] by fastforce

text \<open>Before \<open>init\<close> and after \<open>finish\<close> every call that needs the set is refused and changes nothing.\<close>

theorem calls_refused:
  assumes "evSetMutex es = None" "event_at es p = Some ev" "event_is ev d x"
  shows "addEvent hash es (Some p) = Some (PThreadErrors THREADLIB_PMUTEX_LOCK_FAILED, es) \<and>
    deleteEvent hash es (Some p) = Some (PThreadErrors THREADLIB_PMUTEX_LOCK_FAILED, es) \<and>
    addDestination hash es (Some src) = Some (PThreadErrors THREADLIB_PMUTEX_LOCK_FAILED, es) \<and>
    getFirstEvent hash es (Some dst) False blk secs ms clock =
      Some (Returned (PThreadErrors THREADLIB_PMUTEX_LOCK_FAILED) None None es) \<and>
    getAndRemoveFirstEvent hash es (Some dst) False False secs ms clock0 clock =
      Some (Returned (PThreadErrors THREADLIB_PMUTEX_LOCK_FAILED) None None es)"
proof -
  have "es_enter es = Inl (PThreadErrors THREADLIB_PMUTEX_LOCK_FAILED, es)"
    using assms(1) by (simp add: es_enter_def es_lock_def PMutex_lock_def)
  then show ?thesis
    using assms(2) event_is_get [OF assms(3)]
    by (simp add: addEvent_def deleteEvent_def addDestination_def getFirstEvent_def getAndRemoveFirstEvent_def)
qed

theorem calls_refused_witness:
  "deleteEvent buffer_hash ((one_queue [] sample_events)\<lparr>evSetMutex := None\<rparr>) (Some 2) =
     Some (PThreadErrors THREADLIB_PMUTEX_LOCK_FAILED, (one_queue [] sample_events)\<lparr>evSetMutex := None\<rparr>)"
  using calls_refused [of "(one_queue [] sample_events)\<lparr>evSetMutex := None\<rparr>" 2 "event_of ''a'' 3" "''a''" 3]
    sample_set(8) [of "[]"] sample_set(6) by simp

end
