(* ===== verification/PCondition.thy ===== *)
theory PCondition
  imports Prelude
begin

text \<open>
  \<open>PCondition:: timedWait\<close> of \<open>PThread/src/PCondition.cpp\<close>: the absolute time it hands to
  \<^verbatim>\<open>pthread_cond_timedwait\<close>. The clock gives the seconds and the milliseconds within the second;
  \<^verbatim>\<open>unsigned long\<close> and \<^verbatim>\<open>time_t\<close> have 64 bits.
\<close>

record timespec =
  tv_sec :: "64 word"
  tv_nsec :: "64 word"

definition timedWait_waitTime :: "64 word \<Rightarrow> 64 word \<Rightarrow> 64 word \<Rightarrow> 64 word \<Rightarrow> timespec" where
  "timedWait_waitTime ullNowUTCInSecs ulLocalAdditionalMilliSecs ulSeconds ulAdditionalMilliSeconds =
     (if ulAdditionalMilliSeconds + ulLocalAdditionalMilliSecs \<ge> 1000
      then \<lparr>tv_sec = ullNowUTCInSecs + ulSeconds + 1,
            tv_nsec = (ulAdditionalMilliSeconds + ulLocalAdditionalMilliSecs - 1000) * 1000000\<rparr>
      else \<lparr>tv_sec = ullNowUTCInSecs + ulSeconds,
            tv_nsec = (ulAdditionalMilliSeconds + ulLocalAdditionalMilliSecs) * 1000000\<rparr>)"

text \<open>POSIX wants the nanoseconds below one second and fails with \<^verbatim>\<open>EINVAL\<close> otherwise.\<close>

definition valid_timespec :: "timespec \<Rightarrow> bool" where
  "valid_timespec t \<longleftrightarrow> unat (tv_nsec t) < 1000000000"

definition timespec_nanos :: "timespec \<Rightarrow> nat" where
  "timespec_nanos t = unat (tv_sec t) * 1000000000 + unat (tv_nsec t)"

lemma unat_million: "unat (a :: 64 word) < 2 ^ 33 \<Longrightarrow> unat (a * 1000000) = unat a * 1000000"
  by (simp add: unat_word_ariths(2))

lemma waitTime_unat:
  fixes ms lms :: "64 word"
  assumes "unat ms + unat lms < 2 ^ 32"
  shows "unat (ms + lms) = unat ms + unat lms" "unat ((ms + lms) * 1000000) = (unat ms + unat lms) * 1000000"
    "1000 \<le> unat ms + unat lms \<Longrightarrow> unat ((ms + lms - 1000) * 1000000) = (unat ms + unat lms - 1000) * 1000000"
proof -
  show s: "unat (ms + lms) = unat ms + unat lms" using assms by (simp add: unat_word_ariths)
  then have "unat (ms + lms) < 2 ^ 33" using assms by simp
  from unat_million [OF this] show "unat ((ms + lms) * 1000000) = (unat ms + unat lms) * 1000000"
    unfolding s .
  assume "1000 \<le> unat ms + unat lms"
  then have d: "unat (ms + lms - 1000) = unat ms + unat lms - 1000"
    using s by (simp add: unat_sub word_le_nat_alt)
  then have "unat (ms + lms - 1000) < 2 ^ 33" using assms by simp
  from unat_million [OF this] show "unat ((ms + lms - 1000) * 1000000) = (unat ms + unat lms - 1000) * 1000000"
    unfolding d .
qed

text \<open>For less than 1000 additional milliseconds the absolute time is valid, and is now plus the
  time asked for.\<close>

theorem timedWait_waitTime_correct:
  assumes "unat ms < 1000" "unat lms < 1000" "unat now + unat secs + 1 < 2 ^ 64"
  shows "valid_timespec (timedWait_waitTime now lms secs ms) \<and>
    timespec_nanos (timedWait_waitTime now lms secs ms) =
      (unat now * 1000 + unat lms + unat secs * 1000 + unat ms) * 1000000"
proof -
  have small: "unat ms + unat lms < 2 ^ 32" using assms(1,2) by simp
  note w = waitTime_unat [OF small]
  have s: "unat (now + secs) = unat now + unat secs" "unat (now + secs + 1) = unat now + unat secs + 1"
    using assms(3) by (simp_all add: unat_word_ariths)
  show ?thesis
  proof (cases "1000 \<le> unat ms + unat lms")
    case True
    then have "1000 \<le> ms + lms" using w(1) by (simp add: word_le_nat_alt)
    then have t: "timedWait_waitTime now lms secs ms = \<lparr>tv_sec = now + secs + 1, tv_nsec = (ms + lms - 1000) * 1000000\<rparr>"
      by (simp add: timedWait_waitTime_def)
    show ?thesis
      unfolding t valid_timespec_def timespec_nanos_def timespec.select_convs w(3) [OF True] s
      using assms(1,2) True by (simp add: algebra_simps)
  next
    case False
    then have "\<not> 1000 \<le> ms + lms" using w(1) by (simp add: word_le_nat_alt)
    then have t: "timedWait_waitTime now lms secs ms = \<lparr>tv_sec = now + secs, tv_nsec = (ms + lms) * 1000000\<rparr>"
      by (simp add: timedWait_waitTime_def)
    show ?thesis
      unfolding t valid_timespec_def timespec_nanos_def timespec.select_convs w(2) s
      using False by (simp add: algebra_simps)
  qed
qed

theorem timedWait_waitTime_correct_witness:
  "valid_timespec (timedWait_waitTime 1700000000 700 2 500) \<and>
   timespec_nanos (timedWait_waitTime 1700000000 700 2 500) = 1700000003200 * 1000000"
  using timedWait_waitTime_correct [of 500 700 1700000000 2] by simp

text \<open>The seconds are carried once only, so that 2000 additional milliseconds or more give a time
  that \<^verbatim>\<open>pthread_cond_timedwait\<close> refuses.\<close>

theorem timedWait_waitTime_invalid:
  assumes "2000 \<le> unat ms" "unat ms < 1000000000" "unat lms < 1000"
  shows "\<not> valid_timespec (timedWait_waitTime now lms secs ms)"
proof -
  have small: "unat ms + unat lms < 2 ^ 32" using assms(2,3) by simp
  have ge: "1000 \<le> unat ms + unat lms" using assms(1) by simp
  then have "1000 \<le> ms + lms" using waitTime_unat(1) [OF small] by (simp add: word_le_nat_alt)
  then have t: "tv_nsec (timedWait_waitTime now lms secs ms) = (ms + lms - 1000) * 1000000"
    by (simp add: timedWait_waitTime_def)
  show ?thesis
    unfolding t valid_timespec_def waitTime_unat(3) [OF small ge] using assms(1) by simp
qed

theorem timedWait_waitTime_invalid_witness: "\<not> valid_timespec (timedWait_waitTime 1700000000 0 0 2500)"
  using timedWait_waitTime_invalid [of 2500 0] by simp

end
