(* ===== verification/DateTime.thy ===== *)
theory DateTime
  imports DateText Errors "HOL-Library.Signed_Division"
begin

text \<open>
  The static functions of \<open>Tools/src/DateTime.cpp\<close> in their non Windows, reentrant build. The reading of
  \<open>gettimeofday\<close> and the time zone are arguments; an \<open>unsigned long\<close> is an integer with its reduction
  modulo \<open>2 ^ 64\<close> written out, an exception is \<open>Inl\<close> with its message.
\<close>

section \<open>Integer conversions\<close>

text \<open>Conversion to \<open>int\<close>, \<open>int64_t\<close> and \<open>unsigned long\<close>.\<close>

definition to_int :: "int \<Rightarrow> int" where
  "to_int v = (v + 2 ^ 31) mod 2 ^ 32 - 2 ^ 31"

definition to_int64 :: "int \<Rightarrow> int" where
  "to_int64 v = (v + 2 ^ 63) mod 2 ^ 64 - 2 ^ 63"

definition to_ulong :: "int \<Rightarrow> int" where
  "to_ulong v = v mod 2 ^ 64"

lemma to_int_id [simp]: "- (2 ^ 31) \<le> v \<Longrightarrow> v < 2 ^ 31 \<Longrightarrow> to_int v = v"
  by (simp add: to_int_def)

lemma to_int64_id [simp]: "- (2 ^ 63) \<le> v \<Longrightarrow> v < 2 ^ 63 \<Longrightarrow> to_int64 v = v"
  by (simp add: to_int64_def)

lemma to_ulong_id [simp]: "0 \<le> v \<Longrightarrow> v < 2 ^ 64 \<Longrightarrow> to_ulong v = v"
  by (simp add: to_ulong_def)

section \<open>The clock\<close>

text \<open>What \<open>gettimeofday\<close> gives: seconds, microseconds and \<open>tz_minuteswest\<close>.\<close>

record timeofday =
  tv_sec :: int
  tv_usec :: int
  tz_minuteswest :: int

definition nowUTC :: "timeofday \<Rightarrow> int \<times> int \<times> int" where
  "nowUTC tv = (to_ulong (tv_sec tv), to_ulong (tv_usec tv sdiv 1000), (tz_minuteswest tv sdiv 60) * -1)"

definition nowUTCInMilliSecs :: "timeofday \<Rightarrow> int \<times> int" where
  "nowUTCInMilliSecs tv =
     (case nowUTC tv of (secs, msecs, tz) \<Rightarrow> (to_ulong (to_ulong (secs * 1000) + msecs), tz))"

definition nowLocalInMilliSecs :: "timeofday \<Rightarrow> int" where
  "nowLocalInMilliSecs tv = (case nowUTCInMilliSecs tv of (utc, tz) \<Rightarrow> to_ulong (utc + tz * 3600 * 1000))"

definition convertFromUTCToLocal :: "zone \<Rightarrow> int \<Rightarrow> lib_error + tm" where
  "convertFromUTCToLocal z t =
     (case localtime_r z t of None \<Rightarrow> Inl (ClockErrors TOOLS_DATETIME_CONVERTFROMUTCTOLOCAL_FAILED)
      | Some x \<Rightarrow> Inr x)"

definition get_tm_LocalTime :: "zone \<Rightarrow> timeofday option \<Rightarrow> lib_error + (tm \<times> int)" where
  "get_tm_LocalTime z now =
     (case now of None \<Rightarrow> Inl (ClockErrors TOOLS_DATETIME_GET_TM_LOCALTIME_FAILED)
      | Some tv \<Rightarrow>
          (case convertFromUTCToLocal z (tv_sec tv) of
             Inl _ \<Rightarrow> Inl (ClockErrors TOOLS_DATETIME_CONVERTFROMUTCTOLOCAL_FAILED)
           | Inr x \<Rightarrow> Inr (x, to_ulong (tv_usec tv sdiv 1000))))"

definition convertFromLocalToUTC :: "zone \<Rightarrow> tm \<Rightarrow> int" where
  "convertFromLocalToUTC z x = mktime z x"

definition convertFromLocalToUTC_tm :: "zone \<Rightarrow> tm \<Rightarrow> tm" where
  "convertFromLocalToUTC_tm z x = gmtime_r (convertFromLocalToUTC z x)"

definition getTimeZoneInformation :: "timeofday option \<Rightarrow> lib_error + int" where
  "getTimeZoneInformation now =
     (case now of None \<Rightarrow> Inl (ClockErrors TOOLS_GETTIMEOFDAY_FAILED)
      | Some tv \<Rightarrow> Inr ((tz_minuteswest tv sdiv 60) * -1))"

text \<open>The formats 1 and 2 of \<open>nowLocalTime\<close>.\<close>

definition nowLocalTime :: "zone \<Rightarrow> timeofday option \<Rightarrow> nat \<Rightarrow> nat \<Rightarrow> lib_error + char list" where
  "nowLocalTime z now bufferSize textFormat =
     (if (textFormat = 1 \<and> bufferSize \<le> 20) \<or> (textFormat = 2 \<and> bufferSize \<le> 11) \<or>
         (textFormat \<noteq> 1 \<and> textFormat \<noteq> 2)
      then Inl (ClockErrors TOOLS_DATETIME_ACTIVATION_WRONG)
      else case get_tm_LocalTime z now of
             Inl _ \<Rightarrow> Inl (ClockErrors TOOLS_DATETIME_GET_TM_LOCALTIME_FAILED)
           | Inr (x, _) \<Rightarrow>
               if textFormat = 1
               then Inr (print_lu 4 (tm_year x + 1900) @ ''-'' @ print_lu 2 (tm_mon x + 1) @ ''-'' @
                         print_lu 2 (tm_mday x) @ '' '' @ print_lu 2 (tm_hour x) @ '':'' @
                         print_lu 2 (tm_min x) @ '':'' @ print_lu 2 (tm_sec x))
               else Inr (print_lu 4 (tm_year x + 1900) @ ''_'' @ print_lu 2 (tm_mon x + 1) @ ''_'' @
                         print_lu 2 (tm_mday x)))"

section \<open>Arithmetic on dates\<close>

text \<open>Year, month, day, hour, minutes and seconds, all \<open>unsigned long\<close>.\<close>

type_synonym date = "int \<times> int \<times> int \<times> int \<times> int \<times> int"

definition tm_of_date :: "date \<Rightarrow> int \<Rightarrow> tm" where
  "tm_of_date c isdst =
     (case c of (y, mo, d, h, mi, s) \<Rightarrow>
        \<lparr>tm_year = to_int y - 1900, tm_mon = to_int mo - 1, tm_mday = to_int d, tm_hour = to_int h,
         tm_min = to_int mi, tm_sec = to_int s, tm_wday = 0, tm_isdst = to_int isdst\<rparr>)"

definition addSeconds :: "zone \<Rightarrow> date \<Rightarrow> int \<Rightarrow> int \<Rightarrow> lib_error + (date \<times> bool)" where
  "addSeconds z src srcDst secondsToAdd =
     (if secondsToAdd = 0 then Inr (src, srcDst \<noteq> 0)
      else case convertFromUTCToLocal z (mktime z (tm_of_date src srcDst) + secondsToAdd) of
             Inl _ \<Rightarrow> Inl (ClockErrors TOOLS_DATETIME_CONVERTFROMUTCTOLOCAL_FAILED)
           | Inr x \<Rightarrow> Inr ((to_ulong (tm_year x + 1900), to_ulong (tm_mon x + 1), to_ulong (tm_mday x),
                           to_ulong (tm_hour x), to_ulong (tm_min x), to_ulong (tm_sec x)), tm_isdst x = 1))"

definition convertFromLocalDateTimeToLocalInSecs ::
  "zone \<Rightarrow> timeofday option \<Rightarrow> date \<Rightarrow> int \<Rightarrow> lib_error + int" where
  "convertFromLocalDateTimeToLocalInSecs z now src isdst =
     (let utc = convertFromLocalToUTC z (tm_of_date src isdst)
      in case getTimeZoneInformation now of
           Inl _ \<Rightarrow> Inl (ClockErrors TOOLS_DATETIME_CONVERTFROMLOCALTOUTC_FAILED)
         | Inr tz \<Rightarrow> Inr (to_ulong (to_ulong utc + to_ulong (to_ulong tz * 3600))))"

definition isLeapYear :: "int \<Rightarrow> bool \<Rightarrow> bool" where
  "isLeapYear ulYear b =
     (let b1 = (if ulYear mod 4 \<noteq> 0 then False else b);
          b2 = (if ulYear mod 400 = 0 then True else b1);
          b3 = (if ulYear mod 100 = 0 then False else b2)
      in True)"

definition piDaysInMonths :: "int list" where
  "piDaysInMonths = [31, 28, 31, 30, 31, 30, 31, 31, 30, 31, 30, 31]"

definition getLastDayOfMonth :: "int \<Rightarrow> int \<Rightarrow> bool \<Rightarrow> lib_error + int" where
  "getLastDayOfMonth ulYear ulMonth junk =
     (if ulMonth \<le> 0 \<or> ulMonth > 12 then Inl (ClockErrors TOOLS_DATETIME_ACTIVATION_WRONG)
      else let bIsLeapYear = isLeapYear ulYear junk;
               days = piDaysInMonths ! nat (ulMonth - 1)
           in Inr (if ulMonth = 2 \<and> bIsLeapYear then days + 1 else days))"

section \<open>Dates as strings\<close>

text \<open>\<^verbatim>\<open>%0Nd\<close> of an \<open>int\<close>.\<close>

definition print_d :: "nat \<Rightarrow> int \<Rightarrow> char list" where
  "print_d w v = (if v < 0 then CHR ''-'' # pad0 (w - 1) (nat (- v)) else pad0 w (nat v))"

definition date_time_text :: "tm \<Rightarrow> char list" where
  "date_time_text x =
     print_d 4 (tm_year x + 1900) @ ''-'' @ print_d 2 (tm_mon x + 1) @ ''-'' @ print_d 2 (tm_mday x) @ ''T'' @
     print_d 2 (tm_hour x) @ '':'' @ print_d 2 (tm_min x) @ '':'' @ print_d 2 (tm_sec x)"

definition utcToUtcString :: "int \<Rightarrow> char list" where
  "utcToUtcString utc = date_time_text (gmtime_r utc) @ ''Z''"

definition utcToLocalString :: "zone \<Rightarrow> int \<Rightarrow> char list option" where
  "utcToLocalString z utc = map_option date_time_text (localtime_r z utc)"

definition seconds_format :: "directive list" where
  "seconds_format = [Lu 4, Lit CHR ''-'', Lu 2, Lit CHR ''-'', Lu 2, Lit CHR ''T'',
     Lu 2, Lit CHR '':'', Lu 2, Lit CHR '':'', Lu 2]"

definition sscanf_failed :: "char list \<Rightarrow> int list \<Rightarrow> char list" where
  "sscanf_failed sDate vs =
     ''Field has a wrong format (sscanf failed), sDate: '' @ sDate @ '', sscanfReturn: '' @
     decimal_of_nat (length vs)"

definition timegm_of_fields :: "int list \<Rightarrow> int" where
  "timegm_of_fields vs =
     timegm (tm_of_date (vs ! 0, vs ! 1, vs ! 2, vs ! 3, vs ! 4, vs ! 5) 0)"

definition sDateSecondsToUtc :: "char list \<Rightarrow> char list + int" where
  "sDateSecondsToUtc sDate =
     (let vs = sscanf (seconds_format @ [Lit CHR ''Z'']) (takeWhile (\<lambda>c. c \<noteq> NUL) sDate)
      in if length vs \<noteq> 6 then Inl (sscanf_failed sDate vs) else Inr (timegm_of_fields vs))"

text \<open>
  The sign of the offset is pasted into the format, where a percent sign starts a directive (here
  \<^verbatim>\<open>%%\<close>, then the letters of the next one), a blank matches blanks and the terminator ends it.
\<close>

definition sign_directives :: "char \<Rightarrow> directive list" where
  "sign_directives c =
     (if c = NUL then [] else
      if c = CHR ''%'' then [Lit CHR ''%'', Lit CHR ''2'', Lit CHR ''l'', Lit CHR ''u'', Lu 2]
      else [if isspace c then White else Lit c, Lu 2, Lu 2])"

definition sDateMilliSecondsToUtc :: "char list \<Rightarrow> char list + int" where
  "sDateMilliSecondsToUtc sDate =
     (let text = takeWhile (\<lambda>c. c \<noteq> NUL) sDate;
          prefix = seconds_format @ [Lit CHR ''.'', Lu 3];
          result = (\<lambda>vs sign h m.
             let utc = to_int64 (to_int64 (timegm_of_fields vs * 1000) + vs ! 6);
                 shift = to_ulong ((h * 3600 + m * 60) * 1000)
             in to_int64 (if sign = CHR ''+'' then utc - shift else utc + shift))
      in if length sDate = 28
         then let sign = sDate ! 23; vs = sscanf (prefix @ sign_directives sign) text
              in if length vs \<noteq> 9 then Inl (sscanf_failed sDate vs) else Inr (result vs sign (vs ! 7) (vs ! 8))
         else if length sDate = 24
         then let vs = sscanf (prefix @ [Lit CHR ''Z'']) text
              in if length vs \<noteq> 7 then Inl (sscanf_failed sDate vs) else Inr (result vs CHR ''+'' 0 0)
         else Inl (''Wrong date format, sDate: '' @ sDate))"

end
