(* ===== verification/DateTimeProps.thy ===== *)
theory DateTimeProps
  imports DateTime
begin

text \<open>Properties of \<open>DateTime\<close>: dates print and scan back, seconds add up, months end where they should.\<close>

section \<open>Printing and scanning\<close>

lemma print_d_fits: "fits w v \<Longrightarrow> w \<le> 19 \<Longrightarrow> print_d w v = print_lu w v"
proof -
  assume a: "fits w v" "w \<le> 19"
  have "(10::int) ^ w \<le> 10 ^ 19" using a by (intro power_increasing) auto
  then have "v mod 2 ^ 64 = v" using a by (intro mod_pos_pos_trivial) (auto simp: fits_def)
  then show ?thesis using a by (simp add: print_d_def print_lu_def fits_def)
qed

lemma tm_of_date_fields:
  assumes "fits 4 y" "fits 2 mo" "fits 2 d" "fits 2 h" "fits 2 mi" "fits 2 s"
  shows "tm_of_date (y, mo, d, h, mi, s) 0 = \<lparr>tm_year = y - 1900, tm_mon = mo - 1, tm_mday = d,
    tm_hour = h, tm_min = mi, tm_sec = s, tm_wday = 0, tm_isdst = 0\<rparr>"
  using assms by (simp add: tm_of_date_def fits_def)

definition fields_of :: "int \<Rightarrow> int list" where
  "fields_of t = [tm_year (gmtime_r t) + 1900, tm_mon (gmtime_r t) + 1, tm_mday (gmtime_r t),
     tm_hour (gmtime_r t), tm_min (gmtime_r t), tm_sec (gmtime_r t)]"

lemma instant_fits:
  assumes "in_years t"
  shows "fits 4 (tm_year (gmtime_r t) + 1900)" "fits 2 (tm_mon (gmtime_r t) + 1)" "fits 2 (tm_mday (gmtime_r t))"
    "fits 2 (tm_hour (gmtime_r t))" "fits 2 (tm_min (gmtime_r t))" "fits 2 (tm_sec (gmtime_r t))"
  using tm_text_fits [OF assms, of 0] by (simp_all add: date_fits_def del: gmtime_r_fields)

lemma timegm_fields_of:
  assumes "in_years t"
  shows "timegm_of_fields (fields_of t @ vs) = t"
proof -
  have "timegm_of_fields (fields_of t @ vs) = timegm (gmtime_r t)"
    using instant_fits [OF assms]
    by (simp add: timegm_of_fields_def fields_of_def tm_of_date_fields timegm_def del: gmtime_r_fields timegm_gmtime_r)
  then show ?thesis by simp
qed

text \<open>Scanning the fields of a printed date and whatever follows.\<close>

lemma scan_date_time_text:
  assumes "in_years t"
  shows "sscanf (seconds_format @ f) (date_time_text (gmtime_r t) @ r) = fields_of t @ sscanf f r"
  using instant_fits [OF assms]
  by (simp add: seconds_format_def date_time_text_def fields_of_def print_d_fits fits_scan del: gmtime_r_fields)

lemma date_time_text_props:
  assumes "in_years t"
  shows "length (date_time_text (gmtime_r t)) = 19" "NUL \<notin> set (date_time_text (gmtime_r t))"
  using instant_fits [OF assms]
  by (simp_all add: date_time_text_def print_d_fits fits_text del: gmtime_r_fields)

lemma takeWhile_no_NUL: "NUL \<notin> set s \<Longrightarrow> takeWhile (\<lambda>c. c \<noteq> NUL) s = s"
  by (auto intro: takeWhile_eq_all_conv [THEN iffD2])

text \<open>C23: an instant printed by \<open>utcToUtcString\<close> is read back by \<open>sDateSecondsToUtc\<close>, in every second
  of the years 0 to 9999.\<close>

theorem sDateSecondsToUtc_utcToUtcString:
  assumes "in_years t"
  shows "sDateSecondsToUtc (utcToUtcString t) = Inr t"
proof -
  have "takeWhile (\<lambda>c. c \<noteq> NUL) (utcToUtcString t) = date_time_text (gmtime_r t) @ ''Z''"
    unfolding utcToUtcString_def using date_time_text_props [OF assms] by (intro takeWhile_no_NUL) simp
  then have "sscanf (seconds_format @ [Lit CHR ''Z'']) (takeWhile (\<lambda>c. c \<noteq> NUL) (utcToUtcString t)) = fields_of t"
    using scan_date_time_text [OF assms] by simp
  then show ?thesis
    using timegm_fields_of [OF assms, of "[]"] by (simp add: sDateSecondsToUtc_def Let_def fields_of_def)
qed

theorem sDateSecondsToUtc_utcToUtcString_witness:
  "sDateSecondsToUtc (utcToUtcString 951782400) = Inr 951782400"
  by (rule sDateSecondsToUtc_utcToUtcString) (rule in_yearsI; simp)

text \<open>\<open>sDateMilliSecondsToUtc\<close> reads a local date with milliseconds and its offset from UTC
  (\<^verbatim>\<open>+hhmm\<close> or \<^verbatim>\<open>-hhmm\<close>) as the instant in milliseconds since the epoch.\<close>

theorem sDateMilliSecondsToUtc_offset:
  assumes "in_years (t + off)" "0 \<le> ms" "ms < 1000" "0 \<le> h" "h < 100" "0 \<le> m" "m < 100"
    and "(sign = CHR ''+'' \<and> off = h * 3600 + m * 60) \<or> (sign = CHR ''-'' \<and> off = - (h * 3600 + m * 60))"
    and "\<bar>t\<bar> < 2 ^ 50"
  shows "sDateMilliSecondsToUtc (date_time_text (gmtime_r (t + off)) @ ''.'' @ print_lu 3 ms @
      sign # print_lu 2 h @ print_lu 2 m) = Inr (1000 * t + ms)"
proof -
  let ?s = "date_time_text (gmtime_r (t + off)) @ ''.'' @ print_lu 3 ms @ sign # print_lu 2 h @ print_lu 2 m"
  have fit: "fits 3 ms" "fits 2 h" "fits 2 m" using assms by (simp_all add: fits_def)
  note d = date_time_text_props [OF assms(1)]
  have len: "length ?s = 28" using d fit fits_text by simp
  have nul: "NUL \<notin> set ?s" using d fit fits_text assms(8) by auto
  have sgn: "?s ! 23 = sign" using d fit fits_text [of 3 ms] by (simp add: nth_append)
  have dirs: "sign_directives sign = [Lit sign, Lu 2, Lu 2]"
    using assms(8) by (auto simp: sign_directives_def isspace_def)
  have m': "scan_lu 2 (print_lu 2 m) = Some (m, [])" using fits_scan [of 2 m "[]"] fit by simp
  have vs: "sscanf (seconds_format @ [Lit CHR ''.'', Lu 3] @ [Lit sign, Lu 2, Lu 2]) ?s =
      fields_of (t + off) @ [ms, h, m]"
    unfolding scan_date_time_text [OF assms(1)] using fit m' by (simp add: fits_scan)
  have idx: "(fields_of (t + off) @ [ms, h, m]) ! 6 = ms" "(fields_of (t + off) @ [ms, h, m]) ! 7 = h"
    "(fields_of (t + off) @ [ms, h, m]) ! 8 = m" "length (fields_of (t + off) @ [ms, h, m]) = 9"
    by (simp_all add: fields_of_def)
  have off: "\<bar>off\<bar> < 2 ^ 20" using assms by auto
  have w: "to_int64 ((t + off) * 1000) = (t + off) * 1000"
    "to_int64 ((t + off) * 1000 + ms) = (t + off) * 1000 + ms"
    "to_ulong ((h * 3600 + m * 60) * 1000) = (h * 3600 + m * 60) * 1000"
    "to_int64 (1000 * t + ms) = 1000 * t + ms"
    using assms off by (auto intro!: to_int64_id to_ulong_id)
  have "(if sign = CHR ''+'' then (t + off) * 1000 + ms - (h * 3600 + m * 60) * 1000
      else (t + off) * 1000 + ms + (h * 3600 + m * 60) * 1000) = 1000 * t + ms"
    using assms(8) by auto
  then have "to_int64 (if sign = CHR ''+'' then (t + off) * 1000 + ms - (h * 3600 + m * 60) * 1000
      else (t + off) * 1000 + ms + (h * 3600 + m * 60) * 1000) = 1000 * t + ms"
    by (simp only: w(4))
  then show ?thesis
    unfolding sDateMilliSecondsToUtc_def Let_def takeWhile_no_NUL [OF nul] len sgn dirs append_assoc vs
      timegm_fields_of [OF assms(1)] idx w
    by (simp only: if_True if_False simp_thms)
qed

theorem sDateMilliSecondsToUtc_offset_witness:
  "sDateMilliSecondsToUtc (date_time_text (gmtime_r (1614350475 + 3600)) @ ''.'' @ print_lu 3 477 @
     CHR ''+'' # print_lu 2 1 @ print_lu 2 0) = Inr 1614350475477"
  using sDateMilliSecondsToUtc_offset [of 1614350475 3600 477 1 0 "CHR ''+''"] in_yearsI [of "1614350475 + 3600"]
  by simp

text \<open>\<open>getLastDayOfMonth\<close> gives the length of the month in the civil calendar, except that
  February has 29 days in every year, because \<open>isLeapYear\<close> ends by answering true.\<close>

theorem getLastDayOfMonth_correct_but_February:
  assumes "1 \<le> mo" "mo \<le> 12"
  shows "getLastDayOfMonth y mo junk = Inr (if mo = 2 then 29 else days_in_month y (mo - 1))"
  using month_cases [of "mo - 1"] assms
  by (auto simp: getLastDayOfMonth_def isLeapYear_def piDaysInMonths_def days_in_month_def)

theorem getLastDayOfMonth_correct_but_February_witness:
  "getLastDayOfMonth 2023 2 False = Inr 29 \<and> days_in_month 2023 1 = 28"
  using getLastDayOfMonth_correct_but_February [of 2 2023 False] by (simp add: days_in_month_def leap_def)

section \<open>Adding seconds\<close>

definition date_of_instant :: "int \<Rightarrow> date" where
  "date_of_instant t = (tm_year (gmtime_r t) + 1900, tm_mon (gmtime_r t) + 1, tm_mday (gmtime_r t),
     tm_hour (gmtime_r t), tm_min (gmtime_r t), tm_sec (gmtime_r t))"

lemma tm_of_date_of_instant:
  assumes "in_years t"
  shows "timegm (tm_of_date (date_of_instant t) isdst) = t"
proof -
  have "timegm (tm_of_date (date_of_instant t) isdst) = timegm (gmtime_r t)"
    using instant_fits [OF assms]
    by (simp add: tm_of_date_def date_of_instant_def timegm_def fits_def del: gmtime_r_fields timegm_gmtime_r)
  then show ?thesis by simp
qed

text \<open>In a fixed zone \<open>addSeconds\<close> moves a local date by that many seconds, in both directions and
  across months and leap years; a date that claims daylight saving is read \<open>shift\<close> seconds earlier.
  It does not even look at the date when it adds nothing.\<close>

lemma addSeconds_zero: "addSeconds z c dst 0 = Inr (c, dst \<noteq> 0)"
  by (simp add: addSeconds_def)

lemma addSeconds_fixed_zone:
  assumes "n \<noteq> 0" "in_years (t + off)" "k = (if d then shift else 0)" "in_years (t + off + n - k)"
  shows "addSeconds (fixed_zone off shift) (date_of_instant (t + off)) (if d then 1 else 0) n =
    Inr (date_of_instant (t + off + n - k), False)"
proof -
  have "to_ulong v = v" if "fits w v" "w \<le> 4" for v w
  proof -
    have "(10::int) ^ w \<le> 10 ^ 4" using that by (intro power_increasing) auto
    then show ?thesis using that by (intro to_ulong_id) (auto simp: fits_def)
  qed
  note ulong = instant_fits [OF assms(4), THEN this]
  have dst: "tm_isdst (tm_of_date c (if d then 1 else 0)) = (if d then 1 else 0)" for c
    by (cases c) (simp add: tm_of_date_def)
  have "mktime (fixed_zone off shift) (tm_of_date (date_of_instant (t + off)) (if d then 1 else 0)) = t - k"
    using tm_of_date_of_instant [OF assms(2)] assms(3) by (simp add: fixed_zone_def dst)
  moreover have "gmtime_r (t - k + n + off) = gmtime_r (t + off + n - k)" by (simp add: algebra_simps)
  ultimately have "addSeconds (fixed_zone off shift) (date_of_instant (t + off)) (if d then 1 else 0) n =
      (let x = gmtime_r (t + off + n - k) in
       Inr ((to_ulong (tm_year x + 1900), to_ulong (tm_mon x + 1), to_ulong (tm_mday x),
          to_ulong (tm_hour x), to_ulong (tm_min x), to_ulong (tm_sec x)), tm_isdst x = 1))"
    using assms(1)
    by (simp add: addSeconds_def convertFromUTCToLocal_def fixed_zone_def Let_def del: gmtime_r_fields)
  then show ?thesis
    using ulong by (simp add: Let_def date_of_instant_def del: gmtime_r_fields(1-4))
qed

end
