(* ===== verification/Schedule.thy ===== *)
theory Schedule
  imports DateTime
begin

text \<open>
  Calendar schedules of \<open>Scheduler/src/Times.cpp\<close>: the text
  \<^verbatim>\<open>year month monthday weekday hour minute second\<close>, each field a star, a number, a range
  \<^verbatim>\<open>a-b\<close> or a list \<^verbatim>\<open>a,b,...\<close>. First the checks of \<open>Times::init\<close>, which answer the error or
  \<open>None\<close>; then the search of \<open>updateNextCalendarExpirationDateTime\<close>. The code repeats the same
  three branches (list, range, single value) in every field; here they are one definition each.
\<close>

section \<open>Fields\<close>

abbreviation comma :: char where "comma \<equiv> CHR '',''"

abbreviation dash :: char where "dash \<equiv> CHR ''-''"

text \<open>One round of the loops over a list: the number before the next comma and the rest behind it.\<close>

definition next_number :: "char list \<Rightarrow> char list \<times> char list" where
  "next_number p = (takeWhile (\<lambda>c. c \<noteq> comma) p, drop 1 (dropWhile (\<lambda>c. c \<noteq> comma) p))"

lemma next_number_length: "next_number p = (n, q) \<Longrightarrow> q \<noteq> [] \<Longrightarrow> length q < length p"
proof -
  assume "next_number p = (n, q)" "q \<noteq> []"
  moreover have "length (dropWhile (\<lambda>c. c \<noteq> comma) p) \<le> length p" by (rule length_dropWhile_le)
  ultimately show ?thesis by (cases "dropWhile (\<lambda>c. c \<noteq> comma) p") (auto simp: next_number_def)
qed

text \<open>The numbers that the loop meets, up to the end of the field.\<close>

function list_values :: "char list \<Rightarrow> int list" where
  "list_values p =
     (case next_number p of (n, q) \<Rightarrow> atol n # (if q = [] then [] else list_values q))"
  by auto

termination
  by (relation "measure length") (auto dest: next_number_length [OF sym])

declare list_values.simps [simp del]

definition range_values :: "char list \<Rightarrow> int \<times> int" where
  "range_values tok = (atol (takeWhile (\<lambda>c. c \<noteq> dash) tok), atol (drop 1 (dropWhile (\<lambda>c. c \<noteq> dash) tok)))"

definition is_star :: "char list \<Rightarrow> bool" where
  "is_star tok \<longleftrightarrow> take 1 tok = ''*''"

section \<open>The checks of init\<close>

type_synonym check = "scheduler_error option"

definition first_error :: "check \<Rightarrow> check \<Rightarrow> check" where
  "first_error a b = (case a of Some e \<Rightarrow> Some e | None \<Rightarrow> b)"

text \<open>A field with values from \<open>lo\<close> to \<open>hi\<close>. The errors of a range always name the month.\<close>

definition check_list :: "int \<Rightarrow> int \<Rightarrow> char list \<Rightarrow> char list \<Rightarrow> check" where
  "check_list lo hi name tok =
     map_option (\<lambda>v. SCH_SCHEDULEFIELDRANGE_WRONG v name) (find (\<lambda>v. v < lo \<or> hi < v) (list_values tok))"

definition check_range :: "int \<Rightarrow> int \<Rightarrow> char list \<Rightarrow> check" where
  "check_range lo hi tok =
     (case range_values tok of (lValueFrom, lValueTo) \<Rightarrow>
        if lValueFrom < lo \<or> lValueTo < lValueFrom then Some (SCH_SCHEDULEFIELDRANGE_WRONG lValueFrom ''month'')
        else if hi < lValueTo then Some (SCH_SCHEDULEFIELDRANGE_WRONG lValueTo ''month'')
        else None)"

definition check_single :: "int \<Rightarrow> int \<Rightarrow> char list \<Rightarrow> char list \<Rightarrow> check" where
  "check_single lo hi name tok =
     (if is_star tok then None
      else if atol tok < lo \<or> hi < atol tok then Some (SCH_SCHEDULEFIELDRANGE_WRONG (atol tok) name)
      else None)"

definition check_field :: "int \<Rightarrow> int \<Rightarrow> char list \<Rightarrow> char list \<Rightarrow> check" where
  "check_field lo hi name tok =
     (if comma \<in> set tok then check_list lo hi name tok
      else if dash \<in> set tok then check_range lo hi tok
      else check_single lo hi name tok)"

definition check_month :: "char list \<Rightarrow> check" where
  "check_month tok = check_field 1 12 ''month'' tok"

text \<open>\<open>lMonth\<close> is \<open>-1\<close> unless the month is a single number.\<close>

definition month_number :: "char list \<Rightarrow> int" where
  "month_number tok = (if comma \<in> set tok \<or> dash \<in> set tok \<or> is_star tok then - 1 else atol tok)"

definition monthday_february :: "char list" where
  "monthday_february = ''monthday (with '' @ [CHR 0x27] @ ''*'' @ [CHR 0x27] @ '' as year and february as month)''"

text \<open>The guard against schedules that never fire: any year, February, and only days that February lacks.\<close>

definition wrong_february :: "int \<Rightarrow> check" where
  "wrong_february v = Some (SCH_SCHEDULEFIELDRANGE_WRONG v monthday_february)"

definition check_monthday_list :: "bool \<Rightarrow> char list \<Rightarrow> check" where
  "check_monthday_list february tok =
     first_error (check_list 1 31 ''monthday'' tok)
       (if february \<and> \<not> (\<exists>v \<in> set (list_values tok). v \<le> 30) then wrong_february (last (list_values tok)) else None)"

definition check_monthday_range :: "bool \<Rightarrow> char list \<Rightarrow> check" where
  "check_monthday_range february tok =
     first_error (check_range 1 31 tok)
       (if february \<and> range_values tok = (30, 31) then wrong_february 30 else None)"

definition check_monthday_single :: "bool \<Rightarrow> char list \<Rightarrow> check" where
  "check_monthday_single february tok =
     first_error (check_single 1 31 ''monthday'' tok)
       (if \<not> is_star tok \<and> february \<and> atol tok = 30 then wrong_february 30 else None)"

definition check_monthday :: "char list \<Rightarrow> int \<Rightarrow> char list \<Rightarrow> check" where
  "check_monthday year lMonth tok =
     (let february = (year = ''*'' \<and> lMonth = 2)
      in if comma \<in> set tok then check_monthday_list february tok
         else if dash \<in> set tok then check_monthday_range february tok
         else check_monthday_single february tok)"

definition check_weekday :: "char list \<Rightarrow> check" where
  "check_weekday tok = check_field 0 6 ''weekday'' tok"

definition check_hour :: "char list \<Rightarrow> check" where
  "check_hour tok = check_field 0 23 ''hour'' tok"

definition check_minute :: "char list \<Rightarrow> check" where
  "check_minute tok = check_field 0 59 ''minute'' tok"

definition check_second :: "char list \<Rightarrow> check" where
  "check_second tok = check_field 0 59 ''second'' tok"

text \<open>Take the next token of the schedule, or answer that the schedule is wrong.\<close>

definition next_token :: "char list \<Rightarrow> (char list \<Rightarrow> char list \<Rightarrow> check) \<Rightarrow> check" where
  "next_token s f = (case strtok CHR '' '' s of None \<Rightarrow> Some SCH_CALENDARSCHEDULE_WRONG | Some (t, r) \<Rightarrow> f t r)"

definition check_ranges :: "char list \<Rightarrow> check" where
  "check_ranges s =
     next_token s (\<lambda>year r. next_token r (\<lambda>month r. first_error (check_month month)
       (next_token r (\<lambda>monthday r. first_error (check_monthday year (month_number month) monthday)
         (next_token r (\<lambda>weekday r. first_error (check_weekday weekday)
           (next_token r (\<lambda>hour r. first_error (check_hour hour)
             (next_token r (\<lambda>minute r. first_error (check_minute minute)
               (next_token r (\<lambda>second r. check_second second))))))))))))"

definition check_characters :: "char list \<Rightarrow> check" where
  "check_characters s =
     (if \<exists>c \<in> set s. \<not> isdigit c \<and> c \<noteq> CHR ''*'' \<and> c \<noteq> comma \<and> c \<noteq> dash \<and> c \<noteq> CHR '' '' then Some SCH_ACTIVATION_WRONG
      else if length (filter (\<lambda>c. c = CHR '' '') s) \<noteq> 6 then Some SCH_ACTIVATION_WRONG
      else None)"

definition SCH_MAXSCHEDULELENGTH :: nat where
  "SCH_MAXSCHEDULELENGTH = 256 + 1"

definition check_schedule :: "char list \<Rightarrow> check" where
  "check_schedule s =
     (if SCH_MAXSCHEDULELENGTH - 1 < length s then Some SCH_ACTIVATION_WRONG
      else first_error (check_characters s) (check_ranges s))"

section \<open>The search for the next expiration\<close>

definition list_matches :: "char list \<Rightarrow> int \<Rightarrow> bool" where
  "list_matches tok v \<longleftrightarrow> v \<in> set (list_values tok)"

definition range_matches :: "char list \<Rightarrow> int \<Rightarrow> bool" where
  "range_matches tok v \<longleftrightarrow> (case range_values tok of (lValueFrom, lValueTo) \<Rightarrow> lValueFrom \<le> v \<and> v \<le> lValueTo)"

definition field_matches :: "char list \<Rightarrow> int \<Rightarrow> bool" where
  "field_matches tok v \<longleftrightarrow>
     (if comma \<in> set tok then list_matches tok v
      else if dash \<in> set tok then range_matches tok v
      else is_star tok \<or> atol tok = v)"

datatype year_verdict = YearValid | YearPast | YearLater

definition year_of_list :: "char list \<Rightarrow> int \<Rightarrow> year_verdict" where
  "year_of_list tok y =
     (if list_matches tok y then YearValid
      else if foldl max (- 1) (list_values tok) < y then YearPast else YearLater)"

definition year_of_range :: "char list \<Rightarrow> int \<Rightarrow> year_verdict" where
  "year_of_range tok y =
     (if range_matches tok y then YearValid
      else if snd (range_values tok) < y then YearPast else YearLater)"

definition year_of_single :: "char list \<Rightarrow> int \<Rightarrow> year_verdict" where
  "year_of_single tok y =
     (if is_star tok \<or> atol tok = y then YearValid
      else if atol tok < y then YearPast else YearLater)"

definition check_year :: "char list \<Rightarrow> int \<Rightarrow> year_verdict" where
  "check_year tok y =
     (if comma \<in> set tok then year_of_list tok y
      else if dash \<in> set tok then year_of_range tok y
      else year_of_single tok y)"

text \<open>The days: the two fields add up unless one of them is a star.\<close>

definition star_field :: "char list \<Rightarrow> bool" where
  "star_field tok \<longleftrightarrow> comma \<notin> set tok \<and> dash \<notin> set tok \<and> is_star tok"

definition day_matches :: "char list \<Rightarrow> char list \<Rightarrow> tm \<Rightarrow> bool" where
  "day_matches monthday weekday x \<longleftrightarrow>
     (let addMonthDay = (\<not> field_matches monthday (tm_mday x));
          addWeekDay = (\<not> field_matches weekday (tm_wday x))
      in if star_field monthday \<and> star_field weekday then True
         else if \<not> star_field monthday \<and> star_field weekday then \<not> addMonthDay
         else if star_field monthday \<and> \<not> star_field weekday then \<not> addWeekDay
         else \<not> (addMonthDay \<and> addWeekDay))"

text \<open>The jumps of the search. Each goes through \<open>mktime\<close> and \<open>localtime_r\<close>.\<close>

definition next_year :: "zone \<Rightarrow> tm \<Rightarrow> tm option" where
  "next_year z x =
     localtime_r z (mktime z (x\<lparr>tm_year := tm_year x + 1, tm_mon := 0, tm_mday := 1, tm_hour := 0, tm_min := 0,
       tm_sec := 0, tm_isdst := - 1\<rparr>))"

definition next_month :: "zone \<Rightarrow> tm \<Rightarrow> tm option" where
  "next_month z x =
     (let x1 = (if tm_mon x = 11 then x\<lparr>tm_mon := 0, tm_year := tm_year x + 1\<rparr> else x\<lparr>tm_mon := tm_mon x + 1\<rparr>)
      in localtime_r z (mktime z (x1\<lparr>tm_mday := 1, tm_hour := 0, tm_min := 0, tm_sec := 0, tm_isdst := - 1\<rparr>)))"

text \<open>The next day is 24 hours later; an hour lost or won by daylight saving is put right.\<close>

definition next_day :: "zone \<Rightarrow> tm \<Rightarrow> tm option" where
  "next_day z x =
     (let t = mktime z (x\<lparr>tm_hour := 0, tm_min := 0, tm_sec := 0, tm_isdst := - 1\<rparr>) + 60 * 60 * 24
      in case localtime_r z t of
           None \<Rightarrow> None
         | Some x' \<Rightarrow>
             if tm_hour x' = 0 then Some x'
             else if tm_hour x' = 23 then localtime_r z (t + 60 * 60)
             else if tm_hour x' = 1 then localtime_r z (t - 60 * 60)
             else None)"

definition next_hour :: "zone \<Rightarrow> tm \<Rightarrow> tm option" where
  "next_hour z x =
     (let t = mktime z (x\<lparr>tm_min := 0, tm_sec := 0, tm_isdst := - 1\<rparr>) + 60 * 60
      in case localtime_r z t of
           None \<Rightarrow> None
         | Some x' \<Rightarrow> if tm_hour x = tm_hour x' then localtime_r z (t + 60 * 60) else Some x')"

definition next_minute :: "zone \<Rightarrow> tm \<Rightarrow> tm option" where
  "next_minute z x = localtime_r z (mktime z (x\<lparr>tm_sec := 0, tm_isdst := - 1\<rparr>) + 60)"

definition next_second :: "zone \<Rightarrow> tm \<Rightarrow> tm option" where
  "next_second z x = localtime_r z (mktime z (x\<lparr>tm_isdst := - 1\<rparr>) + 1)"

text \<open>One round of the loop.\<close>

datatype round_result = Failed scheduler_error | Found | Again tm

definition again :: "tm option \<Rightarrow> round_result" where
  "again r = (case r of None \<Rightarrow> Failed SCH_LOCALTIME_R_FAILED | Some x \<Rightarrow> Again x)"

definition token :: "char list \<Rightarrow> (char list \<Rightarrow> char list \<Rightarrow> round_result) \<Rightarrow> round_result" where
  "token s f = (case strtok CHR '' '' s of None \<Rightarrow> Failed SCH_CALENDARSCHEDULE_WRONG | Some (t, r) \<Rightarrow> f t r)"

definition second_round :: "zone \<Rightarrow> char list \<Rightarrow> tm \<Rightarrow> round_result" where
  "second_round z r x =
     token r (\<lambda>second r. if \<not> field_matches second (tm_sec x) then again (next_second z x) else Found)"

definition minute_round :: "zone \<Rightarrow> char list \<Rightarrow> tm \<Rightarrow> round_result" where
  "minute_round z r x =
     token r (\<lambda>minute r. if \<not> field_matches minute (tm_min x) then again (next_minute z x) else second_round z r x)"

definition clock_round :: "zone \<Rightarrow> char list \<Rightarrow> tm \<Rightarrow> round_result" where
  "clock_round z r x =
     token r (\<lambda>hour r. if \<not> field_matches hour (tm_hour x) then again (next_hour z x) else minute_round z r x)"

definition day_round :: "zone \<Rightarrow> char list \<Rightarrow> tm \<Rightarrow> round_result" where
  "day_round z r x =
     token r (\<lambda>monthday r. token r (\<lambda>weekday r.
       if \<not> day_matches monthday weekday x then again (next_day z x) else clock_round z r x))"

definition date_round :: "zone \<Rightarrow> char list \<Rightarrow> tm \<Rightarrow> round_result" where
  "date_round z r x =
     token r (\<lambda>month r. if \<not> field_matches month (tm_mon x + 1) then again (next_month z x) else day_round z r x)"

lemmas clock_round_defs = clock_round_def minute_round_def second_round_def

lemmas date_round_defs = date_round_def day_round_def

lemmas check_year_defs = check_year_def year_of_list_def year_of_range_def year_of_single_def

definition calendar_round :: "zone \<Rightarrow> char list \<Rightarrow> tm \<Rightarrow> round_result" where
  "calendar_round z s x =
     token s (\<lambda>year r.
       case check_year year (tm_year x + 1900) of
         YearPast \<Rightarrow> Failed SCH_REACHED_LASTTIMEOUT
       | YearLater \<Rightarrow> again (next_year z x)
       | YearValid \<Rightarrow> date_round z r x)"

text \<open>The loop; \<open>None\<close> is a search that never ends.\<close>

partial_function (option) calendar_loop :: "zone \<Rightarrow> char list \<Rightarrow> tm \<Rightarrow> (scheduler_error + tm) option" where
  "calendar_loop z s x =
     (case calendar_round z s x of
        Failed e \<Rightarrow> Some (Inl e)
      | Found \<Rightarrow> Some (Inr x)
      | Again x' \<Rightarrow> calendar_loop z s x')"

end
