(* ===== verification/Times.thy ===== *)
theory Times
  imports Schedule PMutex
begin

text \<open>
  The class \<open>Times\<close> of \<open>Scheduler/src/Times.cpp\<close>, a clock with a periodic or a calendar schedule. The
  character arrays of the object are texts; writing one that does not fit the array is \<open>None\<close>, as is a
  search that never ends. The time zone and the reading of the clock are arguments. Output arguments
  are the middle component of a result, \<open>None\<close> while they are not written.
\<close>

datatype times_type = SCH_TYPE_PERIODIC | SCH_TYPE_CALENDAR

datatype times_status = SCHTIMES_BUILDED | SCHTIMES_INITIALIZED | SCHTIMES_STARTED

record times =
  mtTimesMutex :: mutex
  schTimesStatus :: times_status
  ttTimesType :: times_type
  pClassName :: "char list"
  ulPeriodInMilliSeconds :: int
  pCalendarSchedule :: "char list"
  bNextDaylightSavingTime :: bool
  pNextExpirationDateTime :: "char list"
  bCurrentDaylightSavingTime :: bool
  pCurrentExpirationDateTime :: "char list"

definition SCH_MAXCLASSNAMELENGTH :: nat where
  "SCH_MAXCLASSNAMELENGTH = 256 + 1"

definition SCH_MAXDATELENGTH :: nat where
  "SCH_MAXDATELENGTH = 24 + 1"

section \<open>Life cycle\<close>

definition Times_ctor :: "times \<Rightarrow> times" where
  "Times_ctor junk = junk\<lparr>schTimesStatus := SCHTIMES_BUILDED\<rparr>"

text \<open>The end of both \<open>init\<close>s: the mutex and the class name.\<close>

definition Times_init_name :: "times \<Rightarrow> char list option \<Rightarrow> lib_error \<times> times" where
  "Times_init_name ti name =
     (case PMutex_init (mtTimesMutex ti) of
        (NoError, m) \<Rightarrow>
          (case name of
             None \<Rightarrow> (NoError, ti\<lparr>mtTimesMutex := m, pClassName := [], schTimesStatus := SCHTIMES_INITIALIZED\<rparr>)
           | Some n \<Rightarrow>
               if SCH_MAXCLASSNAMELENGTH - 1 < length n
               then (SchedulerErrors SCH_CLASSNAME_TOOLONG, ti\<lparr>mtTimesMutex := snd (PMutex_finish m)\<rparr>)
               else (NoError, ti\<lparr>mtTimesMutex := m, pClassName := n, schTimesStatus := SCHTIMES_INITIALIZED\<rparr>))
      | _ \<Rightarrow> (PThreadErrors THREADLIB_PMUTEX_INIT_FAILED, ti))"

definition Times_init_periodic :: "times \<Rightarrow> int \<Rightarrow> char list option \<Rightarrow> lib_error \<times> times" where
  "Times_init_periodic ti period name =
     (if schTimesStatus ti \<noteq> SCHTIMES_BUILDED then (SchedulerErrors SCH_OPERATION_NOTALLOWED, ti)
      else Times_init_name (ti\<lparr>ulPeriodInMilliSeconds := period, ttTimesType := SCH_TYPE_PERIODIC,
             pCurrentExpirationDateTime := [], pNextExpirationDateTime := []\<rparr>) name)"

definition Times_init_calendar :: "times \<Rightarrow> char list option \<Rightarrow> char list option \<Rightarrow> lib_error \<times> times" where
  "Times_init_calendar ti schedule name =
     (if schTimesStatus ti \<noteq> SCHTIMES_BUILDED then (SchedulerErrors SCH_OPERATION_NOTALLOWED, ti)
      else case schedule of
             None \<Rightarrow> (SchedulerErrors SCH_ACTIVATION_WRONG, ti)
           | Some s \<Rightarrow>
               (case check_schedule s of
                  Some e \<Rightarrow> (SchedulerErrors e, ti)
                | None \<Rightarrow>
                    Times_init_name (ti\<lparr>pCalendarSchedule := s, ttTimesType := SCH_TYPE_CALENDAR,
                      pCurrentExpirationDateTime := [], pNextExpirationDateTime := []\<rparr>) name))"

definition Times_finish :: "times \<Rightarrow> lib_error \<times> times" where
  "Times_finish ti =
     (if schTimesStatus ti = SCHTIMES_BUILDED then (SchedulerErrors SCH_OPERATION_NOTALLOWED, ti)
      else case PMutex_finish (mtTimesMutex ti) of
             (NoError, m) \<Rightarrow> (NoError, ti\<lparr>mtTimesMutex := m, schTimesStatus := SCHTIMES_BUILDED\<rparr>)
           | _ \<Rightarrow> (PThreadErrors THREADLIB_PMUTEX_FINISH_FAILED, ti))"

section \<open>The mutex around an operation\<close>

definition lock_failed :: lib_error where
  "lock_failed = PThreadErrors THREADLIB_PMUTEX_LOCK_FAILED"

definition Times_release :: "lib_error \<Rightarrow> times \<Rightarrow> lib_error \<times> times" where
  "Times_release e ti =
     (case PMutex_unLock (mtTimesMutex ti) of
        (NoError, m) \<Rightarrow> (e, ti\<lparr>mtTimesMutex := m\<rparr>)
      | _ \<Rightarrow> (if e = NoError then PThreadErrors THREADLIB_PMUTEX_UNLOCK_FAILED else e, ti))"

text \<open>Lock, check the status, compute, unlock: the shape of the operations that give a value.\<close>

definition Times_query ::
  "times \<Rightarrow> bool \<Rightarrow> bool \<Rightarrow> (times \<Rightarrow> (lib_error \<times> 'a option) option) \<Rightarrow> (lib_error \<times> 'a option \<times> times) option" where
  "Times_query ti allowed nonnull f =
     (case PMutex_lock (mtTimesMutex ti) of
        (NoError, m) \<Rightarrow>
          (let ti1 = ti\<lparr>mtTimesMutex := m\<rparr>;
               release = (\<lambda>e v. case Times_release e ti1 of (e', ti2) \<Rightarrow> Some (e', v, ti2))
           in if \<not> allowed then release (SchedulerErrors SCH_OPERATION_NOTALLOWED) None
              else if \<not> nonnull then release (SchedulerErrors SCH_ACTIVATION_WRONG) None
              else case f ti1 of None \<Rightarrow> None | Some (e, v) \<Rightarrow> release e v)
      | _ \<Rightarrow> Some (lock_failed, None, ti))"

definition Times_isStarted :: "times \<Rightarrow> bool \<Rightarrow> (lib_error \<times> bool option \<times> times) option" where
  "Times_isStarted ti nonnull =
     Times_query ti (schTimesStatus ti \<noteq> SCHTIMES_BUILDED) nonnull
       (\<lambda>t. Some (NoError, Some (schTimesStatus t = SCHTIMES_STARTED)))"

text \<open>
  Expired: the next expiration is not after the local time, as texts. While one of the two dates is
  in daylight saving time and the other is not, texts cannot be compared.
\<close>

definition Times_isExpiredTime ::
  "zone \<Rightarrow> timeofday option \<Rightarrow> times \<Rightarrow> bool \<Rightarrow> (lib_error \<times> bool option \<times> times) option" where
  "Times_isExpiredTime z now ti nonnull =
     Times_query ti (schTimesStatus ti = SCHTIMES_STARTED) nonnull
       (\<lambda>t. case get_tm_LocalTime z now of
              Inl _ \<Rightarrow> Some (ClockErrors TOOLS_DATETIME_GET_TM_LOCALTIME_FAILED, None)
            | Inr (x, ms) \<Rightarrow>
                if tm_isdst x = 1 \<and> bCurrentDaylightSavingTime t \<and> \<not> bNextDaylightSavingTime t
                then Some (NoError, Some False)
                else if tm_isdst x = 0 \<and> bCurrentDaylightSavingTime t \<and> bNextDaylightSavingTime t
                then Some (NoError, Some True)
                else if SCH_MAXDATELENGTH \<le> length (tm_text x ms) then None
                else Some (NoError, Some (text_le (pNextExpirationDateTime t) (tm_text x ms))))"

definition Times_getClassName :: "times \<Rightarrow> bool \<Rightarrow> (lib_error \<times> char list option \<times> times) option" where
  "Times_getClassName ti nonnull =
     Times_query ti (schTimesStatus ti \<noteq> SCHTIMES_BUILDED) nonnull (\<lambda>t. Some (NoError, Some (pClassName t)))"

definition Times_getNextExpirationDateTime :: "times \<Rightarrow> bool \<Rightarrow> (lib_error \<times> char list option \<times> times) option" where
  "Times_getNextExpirationDateTime ti nonnull =
     Times_query ti (schTimesStatus ti = SCHTIMES_STARTED) nonnull
       (\<lambda>t. Some (NoError, Some (pNextExpirationDateTime t)))"

section \<open>The next expiration\<close>

text \<open>The first six values that \<open>sscanf\<close> read, as a date.\<close>

definition date_of_values :: "int list \<Rightarrow> date" where
  "date_of_values vs = (vs ! 0, vs ! 1, vs ! 2, vs ! 3, vs ! 4, vs ! 5)"

definition print_date :: "date \<Rightarrow> int \<Rightarrow> char list" where
  "print_date c ms = (case c of (y, mo, d, h, mi, s) \<Rightarrow> date_text y mo d h mi s ms)"

definition addMilliSecondsToDateTime ::
  "zone \<Rightarrow> char list \<Rightarrow> int \<Rightarrow> int \<Rightarrow> lib_error + (char list \<times> bool)" where
  "addMilliSecondsToDateTime z current isdst ulMilliSeconds =
     (let vs = sscanf date_format current
      in if length vs \<noteq> 7 then Inl (SchedulerErrors SCH_SSCANF_FAILED)
         else let total = to_ulong (vs ! 6 + ulMilliSeconds);
                  ulSecondsToAdd = total div 1000;
                  ulNextMilliSeconds = total - ulSecondsToAdd * 1000
              in case addSeconds z (date_of_values vs) isdst (to_int64 ulSecondsToAdd) of
                   Inl _ \<Rightarrow> Inl (ClockErrors TOOLS_DATETIME_ADDSECONDS_FAILED)
                 | Inr (c, dst) \<Rightarrow> Inr (print_date c ulNextMilliSeconds, dst))"

definition updateNextPeriodicExpirationDateTime :: "zone \<Rightarrow> times \<Rightarrow> (lib_error \<times> times) option" where
  "updateNextPeriodicExpirationDateTime z ti =
     (case addMilliSecondsToDateTime z (pCurrentExpirationDateTime ti)
             (if bCurrentDaylightSavingTime ti then 1 else 0) (ulPeriodInMilliSeconds ti) of
        Inl _ \<Rightarrow> Some (SchedulerErrors SCH_TIMES_ADDSECONDSTODATETIME_FAILED, ti)
      | Inr (text, dst) \<Rightarrow>
          if SCH_MAXDATELENGTH \<le> length text then None
          else Some (NoError, ti\<lparr>bNextDaylightSavingTime := dst, pNextExpirationDateTime := text\<rparr>))"

text \<open>The fields of the current expiration, through \<open>mktime\<close> and \<open>localtime_r\<close>, one second later.\<close>

definition calendar_begin :: "zone \<Rightarrow> int list \<Rightarrow> int \<Rightarrow> tm option" where
  "calendar_begin z vs isdst =
     (case localtime_r z (mktime z (tm_of_date (date_of_values vs) isdst)) of
        None \<Rightarrow> None
      | Some x \<Rightarrow> localtime_r z (mktime z x + 1))"

definition updateNextCalendarExpirationDateTime :: "zone \<Rightarrow> times \<Rightarrow> (lib_error \<times> times) option" where
  "updateNextCalendarExpirationDateTime z ti =
     (let vs = sscanf date_format (pCurrentExpirationDateTime ti)
      in if length vs \<noteq> 7 then Some (SchedulerErrors SCH_SSCANF_FAILED, ti)
         else case calendar_begin z vs (if bCurrentDaylightSavingTime ti then 1 else 0) of
                None \<Rightarrow> Some (SchedulerErrors SCH_LOCALTIME_R_FAILED, ti)
              | Some x \<Rightarrow>
                  (case calendar_loop z (pCalendarSchedule ti) x of
                     None \<Rightarrow> None
                   | Some (Inl e) \<Rightarrow> Some (SchedulerErrors e, ti)
                   | Some (Inr y) \<Rightarrow>
                       if SCH_MAXDATELENGTH \<le> length (tm_text y (vs ! 6)) then None
                       else Some (NoError, ti\<lparr>bNextDaylightSavingTime := (tm_isdst y \<noteq> 0),
                              pNextExpirationDateTime := tm_text y (vs ! 6)\<rparr>)))"

definition updateNextByType :: "zone \<Rightarrow> times \<Rightarrow> (lib_error \<times> times) option" where
  "updateNextByType z ti =
     (if ttTimesType ti = SCH_TYPE_PERIODIC then updateNextPeriodicExpirationDateTime z ti
      else updateNextCalendarExpirationDateTime z ti)"

definition Times_updateNextExpirationDateTime :: "zone \<Rightarrow> times \<Rightarrow> (lib_error \<times> times) option" where
  "Times_updateNextExpirationDateTime z ti =
     (case PMutex_lock (mtTimesMutex ti) of
        (NoError, m) \<Rightarrow>
          (let ti1 = ti\<lparr>mtTimesMutex := m\<rparr>
           in if schTimesStatus ti1 \<noteq> SCHTIMES_STARTED
              then Some (Times_release (SchedulerErrors SCH_OPERATION_NOTALLOWED) ti1)
              else case updateNextByType z
                          (ti1\<lparr>bCurrentDaylightSavingTime := bNextDaylightSavingTime ti1,
                               pCurrentExpirationDateTime := pNextExpirationDateTime ti1\<rparr>) of
                     None \<Rightarrow> None
                   | Some (e, ti2) \<Rightarrow>
                       Some (Times_release e
                         (if e = SchedulerErrors SCH_REACHED_LASTTIMEOUT
                          then ti2\<lparr>schTimesStatus := SCHTIMES_INITIALIZED\<rparr> else ti2)))
      | _ \<Rightarrow> Some (lock_failed, ti))"

section \<open>Start and stop\<close>

text \<open>
  The current expiration that \<open>start\<close> begins from. For a given date the daylight saving flag is the
  \<^verbatim>\<open>-1\<close> that is passed to \<open>addSeconds\<close>, stored into a \<open>bool\<close>.
\<close>

definition Times_start_current ::
  "zone \<Rightarrow> timeofday option \<Rightarrow> char list option \<Rightarrow> (lib_error + (bool \<times> char list))" where
  "Times_start_current z now pStartDateTime =
     (case pStartDateTime of
        Some text \<Rightarrow>
          (let vs = sscanf date_format text
           in if length vs \<noteq> 7 then Inl (SchedulerErrors SCH_SSCANF_FAILED)
              else case addSeconds z (date_of_values vs) (- 1) 0 of
                     Inl _ \<Rightarrow> Inl (ClockErrors TOOLS_DATETIME_ADDSECONDS_FAILED)
                   | Inr (c, dst) \<Rightarrow> Inr (dst, print_date c (vs ! 6)))
      | None \<Rightarrow>
          (case get_tm_LocalTime z now of
             Inl _ \<Rightarrow> Inl (ClockErrors TOOLS_DATETIME_GET_TM_LOCALTIME_FAILED)
           | Inr (x, ms) \<Rightarrow> Inr (tm_isdst x = 1, tm_text x ms)))"

text \<open>A periodic object turns errors into its own; the end of a calendar is passed on.\<close>

definition start_error :: "times \<Rightarrow> lib_error \<Rightarrow> lib_error" where
  "start_error ti e =
     (if ttTimesType ti = SCH_TYPE_PERIODIC
      then (if e = NoError \<or> e = SchedulerErrors SCH_REACHED_LASTTIMEOUT then NoError
            else SchedulerErrors SCH_TIMES_UPDATENEXTPERIODICEXPIRATIONDATETIME_FAILED)
      else e)"

definition Times_start :: "zone \<Rightarrow> timeofday option \<Rightarrow> times \<Rightarrow> char list option \<Rightarrow> (lib_error \<times> times) option" where
  "Times_start z now ti pStartDateTime =
     (case PMutex_lock (mtTimesMutex ti) of
        (NoError, m) \<Rightarrow>
          (let ti1 = ti\<lparr>mtTimesMutex := m\<rparr>
           in if schTimesStatus ti1 \<noteq> SCHTIMES_INITIALIZED
              then Some (Times_release (SchedulerErrors SCH_OPERATION_NOTALLOWED) ti1)
              else case Times_start_current z now pStartDateTime of
                     Inl e \<Rightarrow> Some (Times_release e ti1)
                   | Inr (dst, text) \<Rightarrow>
                       if SCH_MAXDATELENGTH \<le> length text then None
                       else (case updateNextByType z (ti1\<lparr>bCurrentDaylightSavingTime := dst,
                                                         pCurrentExpirationDateTime := text\<rparr>) of
                               None \<Rightarrow> None
                             | Some (e, ti2) \<Rightarrow>
                                 if start_error ti2 e \<noteq> NoError then Some (Times_release (start_error ti2 e) ti2)
                                 else (case Times_release NoError ti2 of
                                         (NoError, ti3) \<Rightarrow> Some (NoError, ti3\<lparr>schTimesStatus := SCHTIMES_STARTED\<rparr>)
                                       | r \<Rightarrow> Some r)))
      | _ \<Rightarrow> Some (lock_failed, ti))"

definition Times_stop :: "times \<Rightarrow> lib_error \<times> times" where
  "Times_stop ti =
     (case PMutex_lock (mtTimesMutex ti) of
        (NoError, m) \<Rightarrow>
          (let ti1 = ti\<lparr>mtTimesMutex := m\<rparr>
           in if schTimesStatus ti1 \<noteq> SCHTIMES_STARTED
              then Times_release (SchedulerErrors SCH_OPERATION_NOTALLOWED) ti1
              else Times_release NoError (ti1\<lparr>schTimesStatus := SCHTIMES_INITIALIZED\<rparr>))
      | _ \<Rightarrow> (lock_failed, ti))"

end
