(* ===== verification/ScheduleSpec.thy ===== *)
theory ScheduleSpec
  imports Schedule
begin

text \<open>
  What a schedule means, and that the search finds it. A schedule of seven fields \<open>matches\<close> an
  instant when the fields of the instant do. In a zone without daylight saving each round of the
  search either stops at a matching instant, or jumps forward over instants that do not match, or
  gives up when no later instant matches (\<open>calendar_round_cases\<close>). From this follow the three
  outcomes of the loop.
\<close>

section \<open>Months\<close>

text \<open>The first day of month \<open>k\<close>, counted from January of year 0.\<close>

definition month_start :: "int \<Rightarrow> int" where
  "month_start k = days_of_civil 0 k 1"

definition month_index :: "int \<Rightarrow> int" where
  "month_index n = (case civil_of_days n of (y, m, d) \<Rightarrow> 12 * y + m)"

lemma days_of_civil_month_start: "days_of_civil y m d = month_start (12 * y + m) + (d - 1)"
proof -
  have "(12 * y + m) div 12 = y + m div 12" "(12 * y + m) mod 12 = m mod 12"
    using div_mult_self2 [of 12 m y] mod_mult_self2 [of m 12 y] by (simp_all add: ac_simps)
  then show ?thesis by (simp add: month_start_def days_of_civil_def Let_def)
qed

lemma month_start_Suc: "month_start (k + 1) = month_start k + days_in_month (k div 12) (k mod 12)"
proof (cases "k mod 12 = 11")
  case True
  have k: "k = 12 * (k div 12) + 11" using mult_div_mod_eq [of 12 k] True by linarith
  have "k + 1 = 12 * (k div 12 + 1) + 0" using k by simp
  then have "(k + 1) div 12 = k div 12 + 1" "(k + 1) mod 12 = 0"
    using int_div_pos_eq [of "k + 1" 12 "k div 12 + 1" 0] int_mod_pos_eq [of "k + 1" 12 "k div 12 + 1" 0] by simp_all
  then show ?thesis
    using True days_in_year [of "k div 12"] days_before_year_Suc [of "k div 12"]
    by (simp add: month_start_def days_of_civil_def Let_def)
next
  case False
  have r: "0 \<le> k mod 12" "k mod 12 < 11" using False pos_mod_bound [of 12 k] pos_mod_sign [of 12 k] by linarith+
  have "k + 1 = 12 * (k div 12) + (k mod 12 + 1)" using mult_div_mod_eq [of 12 k] by linarith
  then have "(k + 1) div 12 = k div 12" "(k + 1) mod 12 = k mod 12 + 1"
    using int_div_pos_eq [of "k + 1" 12 "k div 12" "k mod 12 + 1"] int_mod_pos_eq [of "k + 1" 12 "k div 12" "k mod 12 + 1"] r
    by simp_all
  then show ?thesis
    using days_before_month_Suc [OF r, of "k div 12"] by (simp add: month_start_def days_of_civil_def Let_def)
qed

lemma month_start_mono: "a \<le> b \<Longrightarrow> month_start a \<le> month_start b"
proof (induction b rule: int_ge_induct)
  case (step i)
  then show ?case using days_in_month_bounds(1) [of "i div 12" "i mod 12"] by (simp add: month_start_Suc)
qed simp

lemma month_index_bounds: "month_start (month_index n) \<le> n" "n < month_start (month_index n + 1)"
proof -
  obtain y m d where c: "civil_of_days n = (y, m, d)" by (cases "civil_of_days n")
  note v = civil_of_days_valid [OF c]
  have k: "month_index n = 12 * y + m" by (simp add: month_index_def c)
  have "12 * y + m = 12 * y + m" ..
  from int_div_pos_eq [OF this v(1,2)] int_mod_pos_eq [OF this v(1,2)]
  have "(12 * y + m) div 12 = y" "(12 * y + m) mod 12 = m" .
  moreover have "month_start (12 * y + m) + (d - 1) = n" using v(5) by (simp add: days_of_civil_month_start)
  ultimately show "month_start (month_index n) \<le> n" "n < month_start (month_index n + 1)"
    using v by (simp_all add: k month_start_Suc)
qed

lemma month_index_less: "n < month_start k \<Longrightarrow> month_index n < k"
  using month_index_bounds(1) [of n] month_start_mono [of k "month_index n"] by linarith

lemma month_index_ge: "month_start k \<le> n \<Longrightarrow> k \<le> month_index n"
  using month_index_bounds(2) [of n] month_start_mono [of "month_index n + 1" k] by linarith

lemma month_index_mono: "n \<le> n' \<Longrightarrow> month_index n \<le> month_index n'"
  using month_index_bounds(1) [of n] by (intro month_index_ge) linarith

text \<open>Year and month of an instant, through the index of its month.\<close>

definition month_of :: "int \<Rightarrow> int" where
  "month_of t = month_index (t div 86400)"

lemma month_of_fields:
  "month_of t = 12 * (tm_year (gmtime_r t) + 1900) + tm_mon (gmtime_r t)"
  "tm_year (gmtime_r t) + 1900 = month_of t div 12" "tm_mon (gmtime_r t) = month_of t mod 12"
proof -
  obtain y m d where c: "civil_of_days (t div 86400) = (y, m, d)" by (cases "civil_of_days (t div 86400)")
  note v = civil_of_days_valid [OF c] and g = gmtime_r_date [OF c]
  have k: "month_of t = 12 * y + m" by (simp add: month_of_def month_index_def c)
  then show "month_of t = 12 * (tm_year (gmtime_r t) + 1900) + tm_mon (gmtime_r t)" by (simp add: g)
  show "tm_year (gmtime_r t) + 1900 = month_of t div 12" using int_div_pos_eq [OF k v(1,2)] by (simp add: g)
  show "tm_mon (gmtime_r t) = month_of t mod 12" using int_mod_pos_eq [OF k v(1,2)] by (simp add: g)
qed

lemma month_of_mono: "t \<le> u \<Longrightarrow> month_of t \<le> month_of u"
  unfolding month_of_def by (intro month_index_mono zdiv_mono1) auto

lemma month_of_less: "t < 86400 * month_start k \<Longrightarrow> month_of t < k"
  unfolding month_of_def using div_bounds(1) [of 86400 t] by (intro month_index_less) linarith

lemma month_start_after: "t < 86400 * month_start (month_of t + 1)"
  using month_index_bounds(2) [of "t div 86400"] div_bounds(2) [of 86400 t] unfolding month_of_def by linarith

lemma year_of_mono: "t \<le> u \<Longrightarrow> tm_year (gmtime_r t) \<le> tm_year (gmtime_r u)"
  using zdiv_mono1 [OF month_of_mono, of t u 12] month_of_fields(2) [of t] month_of_fields(2) [of u] by linarith

section \<open>The jumps without daylight saving\<close>

lemma fixed_zone_go:
  "tm_isdst x \<le> 0 \<Longrightarrow>
    localtime_r (fixed_zone off shift) (mktime (fixed_zone off shift) x + k) = Some (gmtime_r (timegm x + k))"
  "tm_isdst x \<le> 0 \<Longrightarrow>
    localtime_r (fixed_zone off shift) (mktime (fixed_zone off shift) x) = Some (gmtime_r (timegm x))"
  by (simp_all add: fixed_zone_def algebra_simps)

lemma days_of_gmtime_r:
  "days_of_civil (tm_year (gmtime_r t) + 1900) (tm_mon (gmtime_r t)) (tm_mday (gmtime_r t)) = t div 86400"
proof -
  obtain y m d where c: "civil_of_days (t div 86400) = (y, m, d)" by (cases "civil_of_days (t div 86400)")
  show ?thesis using civil_of_days_valid(5) [OF c] by (simp add: gmtime_r_date [OF c])
qed

lemma next_year_fixed:
  "next_year (fixed_zone off shift) (gmtime_r t) =
    Some (gmtime_r (86400 * month_start (12 * (tm_year (gmtime_r t) + 1900 + 1))))"
proof -
  have "days_of_civil (y + 1901) 0 1 = month_start (12 * (y + 1901))" for y
    using days_of_civil_month_start [of "y + 1901" 0 1] by simp
  then show ?thesis
    by (simp add: next_year_def fixed_zone_go timegm_def ac_simps del: gmtime_r_fields)
qed

lemma next_month_fixed:
  "next_month (fixed_zone off shift) (gmtime_r t) = Some (gmtime_r (86400 * month_start (month_of t + 1)))"
proof -
  have "days_of_civil (1901 + y) 0 1 = month_start (12 * (y + 1900) + 11 + 1)"
    "days_of_civil (y + 1900) (m + 1) 1 = month_start (12 * (y + 1900) + m + 1)" for y m
    using days_of_civil_month_start [of "1901 + y" 0 1] days_of_civil_month_start [of "y + 1900" "m + 1" 1]
    by (simp_all add: algebra_simps)
  then show ?thesis
    by (simp add: next_month_def fixed_zone_go timegm_def Let_def month_of_fields(1) mult.commute [of _ 86400]
        del: gmtime_r_fields)
qed

lemma same_quotient: "0 < c \<Longrightarrow> t \<le> v \<Longrightarrow> v < c * (t div c + 1) \<Longrightarrow> v div c = t div (c::int)"
proof -
  assume c: "0 < c" and a: "t \<le> v" "v < c * (t div c + 1)"
  have "c * (t div c) \<le> t" using div_bounds(1) [OF c] .
  then have "v = c * (t div c) + (v - c * (t div c))" "0 \<le> v - c * (t div c)" using a by simp_all
  moreover have "v - c * (t div c) < c" using a(2) by (simp add: distrib_left)
  ultimately show ?thesis by (rule int_div_pos_eq)
qed

lemma next_day_fixed:
  "next_day (fixed_zone off shift) (gmtime_r t) = Some (gmtime_r (86400 * (t div 86400 + 1)))"
proof -
  have "timegm (gmtime_r t\<lparr>tm_hour := 0, tm_min := 0, tm_sec := 0, tm_isdst := - 1\<rparr>) = 86400 * (t div 86400)"
    by (simp add: timegm_def days_of_gmtime_r del: gmtime_r_fields)
  moreover have "86400 * (t div 86400 + 1) div 3600 mod 24 = 0"
  proof -
    have "86400 * (t div 86400 + 1) div 3600 = 24 * (t div 86400 + 1)"
      by (rule int_div_pos_eq [where r = 0]) simp_all
    then show ?thesis by simp
  qed
  ultimately show ?thesis
    by (simp add: next_day_def Let_def fixed_zone_go distrib_left)
qed

lemma next_hour_fixed:
  "next_hour (fixed_zone off shift) (gmtime_r t) = Some (gmtime_r (3600 * (t div 3600 + 1)))"
proof -
  have e: "timegm (gmtime_r t\<lparr>tm_min := 0, tm_sec := 0, tm_isdst := - 1\<rparr>) = 3600 * (t div 3600)"
  proof -
    have "timegm (gmtime_r t\<lparr>tm_min := 0, tm_sec := 0, tm_isdst := - 1\<rparr>) =
        86400 * (t div 86400) + 3600 * (t div 3600 mod 24)"
      by (simp add: timegm_def days_of_gmtime_r del: gmtime_r_fields(2-5))
    also have "\<dots> = 3600 * (24 * (t div 3600 div 24) + t div 3600 mod 24)"
      by (simp only: zdiv_zmult2_eq [symmetric] distrib_left) simp
    also have "\<dots> = 3600 * (t div 3600)" by (simp only: mult_div_mod_eq)
    finally show ?thesis .
  qed
  have h: "3600 * (t div 3600 + 1) div 3600 = t div 3600 + 1" by (rule nonzero_mult_div_cancel_left) simp
  have there: "localtime_r (fixed_zone off shift)
      (mktime (fixed_zone off shift) (gmtime_r t\<lparr>tm_min := 0, tm_sec := 0, tm_isdst := - 1\<rparr>) + 60 * 60) =
    Some (gmtime_r (3600 * (t div 3600 + 1)))"
    by (subst fixed_zone_go(1)) (simp_all only: e distrib_left mult_1_right, simp_all)
  have "q mod 24 \<noteq> (q + 1) mod 24" for q :: int by presburger
  then have "tm_hour (gmtime_r t) \<noteq> tm_hour (gmtime_r (3600 * (t div 3600 + 1)))"
    by (simp only: gmtime_r_fields h not_False_eq_True)
  then show ?thesis by (simp only: next_hour_def Let_def there option.case if_False)
qed

lemma next_minute_fixed:
  "next_minute (fixed_zone off shift) (gmtime_r t) = Some (gmtime_r (60 * (t div 60 + 1)))"
proof -
  have "timegm (gmtime_r t\<lparr>tm_sec := 0, tm_isdst := - 1\<rparr>) = timegm (gmtime_r t) - tm_sec (gmtime_r t)"
    by (simp add: timegm_def del: gmtime_r_fields timegm_gmtime_r)
  also have "\<dots> = 60 * (t div 60)" by (simp add: minus_mod_eq_mult_div)
  finally show ?thesis by (simp add: next_minute_def fixed_zone_go distrib_left)
qed

lemma next_second_fixed:
  "next_second (fixed_zone off shift) (gmtime_r t) = Some (gmtime_r (t + 1))"
proof -
  have "timegm (gmtime_r t\<lparr>tm_isdst := - 1\<rparr>) = timegm (gmtime_r t)"
    by (simp add: timegm_def del: gmtime_r_fields timegm_gmtime_r)
  then show ?thesis by (simp add: next_second_def fixed_zone_go)
qed

section \<open>What a schedule means\<close>

fun take_tokens :: "nat \<Rightarrow> char list \<Rightarrow> char list list option" where
  "take_tokens 0 s = Some []"
| "take_tokens (Suc n) s =
     (case strtok CHR '' '' s of None \<Rightarrow> None | Some (t, r) \<Rightarrow> map_option ((#) t) (take_tokens n r))"

definition fields_match :: "char list list \<Rightarrow> tm \<Rightarrow> bool" where
  "fields_match toks x \<longleftrightarrow>
     field_matches (toks ! 0) (tm_year x + 1900) \<and> field_matches (toks ! 1) (tm_mon x + 1) \<and>
     day_matches (toks ! 2) (toks ! 3) x \<and> field_matches (toks ! 4) (tm_hour x) \<and>
     field_matches (toks ! 5) (tm_min x) \<and> field_matches (toks ! 6) (tm_sec x)"

text \<open>The schedule fires at the local second \<open>t\<close>.\<close>

definition matches :: "char list \<Rightarrow> int \<Rightarrow> bool" where
  "matches s t \<longleftrightarrow> (case take_tokens 7 s of None \<Rightarrow> False | Some toks \<Rightarrow> fields_match toks (gmtime_r t))"

lemma take_tokens_7:
  assumes "take_tokens 7 s = Some toks"
  obtains r1 r2 r3 r4 r5 r6 r7 where
    "strtok CHR '' '' s = Some (toks ! 0, r1)" "strtok CHR '' '' r1 = Some (toks ! 1, r2)"
    "strtok CHR '' '' r2 = Some (toks ! 2, r3)" "strtok CHR '' '' r3 = Some (toks ! 3, r4)"
    "strtok CHR '' '' r4 = Some (toks ! 4, r5)" "strtok CHR '' '' r5 = Some (toks ! 5, r6)"
    "strtok CHR '' '' r6 = Some (toks ! 6, r7)"
  using assms by (auto simp: eval_nat_numeral split: option.splits)

lemma foldl_max_ge: "a \<le> foldl max a vs" "v \<in> set vs \<Longrightarrow> v \<le> foldl max (a::int) vs"
proof (induction vs arbitrary: a)
  case (Cons w vs)
  {
    case 1
    show ?case using Cons.IH(1) [of "max a w"] by simp
  next
    case 2
    then show ?case using Cons.IH(1) [of "max a w"] Cons.IH(2) [of "max a w"] by auto
  }
qed simp_all

lemma check_year_valid: "check_year tok y = YearValid \<longleftrightarrow> field_matches tok y"
  by (auto simp: check_year_defs field_matches_def)

lemma check_year_past: "check_year tok y = YearPast \<Longrightarrow> y \<le> y' \<Longrightarrow> \<not> field_matches tok y'"
  using foldl_max_ge(2) [of y' "list_values tok" "- 1"]
  by (auto simp: check_year_defs field_matches_def list_matches_def range_matches_def
      split: if_splits prod.splits)

text \<open>A year that is not a star is over some day.\<close>

definition last_year :: "char list \<Rightarrow> int" where
  "last_year tok =
     (if comma \<in> set tok then foldl max (- 1) (list_values tok)
      else if dash \<in> set tok then snd (range_values tok) else atol tok)"

lemma check_year_over: "\<not> star_field tok \<Longrightarrow> last_year tok < y \<Longrightarrow> check_year tok y = YearPast"
  using foldl_max_ge(2) [of y "list_values tok" "- 1"]
  by (cases "comma \<in> set tok"; cases "dash \<in> set tok")
    (auto simp: check_year_defs last_year_def star_field_def list_matches_def range_matches_def split: prod.splits)

lemma check_year_star: "star_field tok \<Longrightarrow> check_year tok y = YearValid"
  by (simp add: check_year_defs star_field_def)

text \<open>Instants with equal fields match alike.\<close>

lemma day_matches_same_day: "same_day t u \<Longrightarrow> day_matches a b (gmtime_r u) = day_matches a b (gmtime_r t)"
  by (simp only: day_matches_def same_day_fields)

section \<open>One round\<close>

text \<open>A round leads from \<open>t\<close> to the result, without passing an instant that matches.\<close>

definition leads :: "(int \<Rightarrow> bool) \<Rightarrow> int \<Rightarrow> round_result \<Rightarrow> bool" where
  "leads fires t r \<longleftrightarrow>
     (case r of
        Found \<Rightarrow> fires t
      | Again x \<Rightarrow> (\<exists>t'. x = gmtime_r t' \<and> t < t' \<and> (\<forall>v. t \<le> v \<longrightarrow> v < t' \<longrightarrow> \<not> fires v))
      | Failed e \<Rightarrow> e = SCH_REACHED_LASTTIMEOUT \<and> (\<forall>v. t \<le> v \<longrightarrow> \<not> fires v))"

lemma leads_again:
  assumes "j = Some (gmtime_r t')" "t < t'" "\<And>v. t \<le> v \<Longrightarrow> v < t' \<Longrightarrow> \<not> fires v"
  shows "leads fires t (again j)"
  using assms by (auto simp: leads_def again_def)

lemma below_next: "0 < c \<Longrightarrow> t < c * (t div c + (1::int))"
  using div_bounds(2) [of c t] by (simp add: distrib_left)

lemma clock_round_leads:
  assumes tok: "strtok CHR '' '' r4 = Some (hour, r5)" "strtok CHR '' '' r5 = Some (minute, r6)"
      "strtok CHR '' '' r6 = Some (second, r7)"
    and fires: "\<And>v. same_day t v \<Longrightarrow> fires v \<longleftrightarrow> field_matches hour (tm_hour (gmtime_r v)) \<and>
      field_matches minute (tm_min (gmtime_r v)) \<and> field_matches second (tm_sec (gmtime_r v))"
  shows "leads fires t (clock_round (fixed_zone off shift) r4 (gmtime_r t))"
proof -
  let ?Z = "fixed_zone off shift"
  note tokd = token_def tok option.case prod.case
  have day: "same_day t v" if "v div 3600 = t div 3600" for v
  proof -
    have "v div 3600 div 24 = t div 3600 div 24" using that by simp
    then show ?thesis by (simp add: same_day_def zdiv_zmult2_eq [symmetric])
  qed
  have hour: "v div 3600 = t div 3600" if "v div 60 = t div 60" for v
  proof -
    have "v div 60 div 60 = t div 60 div 60" using that by simp
    then show ?thesis by (simp add: zdiv_zmult2_eq [symmetric])
  qed
  consider "\<not> field_matches hour (tm_hour (gmtime_r t))"
    | "field_matches hour (tm_hour (gmtime_r t))" "\<not> field_matches minute (tm_min (gmtime_r t))"
    | "field_matches hour (tm_hour (gmtime_r t))" "field_matches minute (tm_min (gmtime_r t))"
      "\<not> field_matches second (tm_sec (gmtime_r t))"
    | "field_matches hour (tm_hour (gmtime_r t))" "field_matches minute (tm_min (gmtime_r t))"
      "field_matches second (tm_sec (gmtime_r t))" by blast
  then show ?thesis
  proof cases
    case 1
    have "leads fires t (again (next_hour ?Z (gmtime_r t)))"
    proof (rule leads_again [OF next_hour_fixed below_next])
      fix v
      assume "t \<le> v" "v < 3600 * (t div 3600 + 1)"
      then have "v div 3600 = t div 3600" by (intro same_quotient) auto
      then show "\<not> fires v" using 1 fires [OF day] by simp
    qed simp
    then show ?thesis using 1 by (simp add: clock_round_defs tokd del: gmtime_r_fields)
  next
    case 2
    have "leads fires t (again (next_minute ?Z (gmtime_r t)))"
    proof (rule leads_again [OF next_minute_fixed below_next])
      fix v
      assume "t \<le> v" "v < 60 * (t div 60 + 1)"
      then have "v div 60 = t div 60" by (intro same_quotient) auto
      then show "\<not> fires v" using 2 fires [OF day [OF hour]] by simp
    qed simp
    then show ?thesis using 2 by (simp add: clock_round_defs tokd del: gmtime_r_fields)
  next
    case 3
    have "leads fires t (again (next_second ?Z (gmtime_r t)))"
    proof (rule leads_again [OF next_second_fixed])
      fix v
      assume "t \<le> v" "v < t + 1"
      then have "v = t" by simp
      then show "\<not> fires v" using 3 fires [of t] by (simp add: same_day_def)
    qed simp
    then show ?thesis using 3 by (simp add: clock_round_defs tokd del: gmtime_r_fields)
  next
    case 4
    then show ?thesis
      using fires [of t] by (simp add: clock_round_defs tokd leads_def same_day_def del: gmtime_r_fields)
  qed
qed

lemma date_round_leads:
  assumes tok: "strtok CHR '' '' r1 = Some (month, r2)" "strtok CHR '' '' r2 = Some (monthday, r3)"
      "strtok CHR '' '' r3 = Some (weekday, r4)" "strtok CHR '' '' r4 = Some (hour, r5)"
      "strtok CHR '' '' r5 = Some (minute, r6)" "strtok CHR '' '' r6 = Some (second, r7)"
    and fires: "\<And>v. tm_year (gmtime_r v) = tm_year (gmtime_r t) \<Longrightarrow> fires v \<longleftrightarrow>
      field_matches month (tm_mon (gmtime_r v) + 1) \<and> day_matches monthday weekday (gmtime_r v) \<and>
      field_matches hour (tm_hour (gmtime_r v)) \<and> field_matches minute (tm_min (gmtime_r v)) \<and>
      field_matches second (tm_sec (gmtime_r v))"
  shows "leads fires t (date_round (fixed_zone off shift) r1 (gmtime_r t))"
proof -
  let ?Z = "fixed_zone off shift"
  note tokd = token_def tok option.case prod.case
  consider "\<not> field_matches month (tm_mon (gmtime_r t) + 1)"
    | "field_matches month (tm_mon (gmtime_r t) + 1)" "\<not> day_matches monthday weekday (gmtime_r t)"
    | "field_matches month (tm_mon (gmtime_r t) + 1)" "day_matches monthday weekday (gmtime_r t)" by blast
  then show ?thesis
  proof cases
    case 1
    have "leads fires t (again (next_month ?Z (gmtime_r t)))"
    proof (rule leads_again [OF next_month_fixed month_start_after])
      fix v
      assume v: "t \<le> v" "v < 86400 * month_start (month_of t + 1)"
      then have "month_of v = month_of t" using month_of_mono [OF v(1)] month_of_less [OF v(2)] by simp
      then have "tm_year (gmtime_r v) = tm_year (gmtime_r t)" "tm_mon (gmtime_r v) = tm_mon (gmtime_r t)"
        using month_of_fields(2,3) [of v] month_of_fields(2,3) [of t] by simp_all
      then show "\<not> fires v" using 1 fires by simp
    qed
    then show ?thesis using 1 by (simp add: date_round_defs tokd del: gmtime_r_fields)
  next
    case 2
    have "leads fires t (again (next_day ?Z (gmtime_r t)))"
    proof (rule leads_again [OF next_day_fixed below_next])
      fix v
      assume "t \<le> v" "v < 86400 * (t div 86400 + 1)"
      then have "same_day t v" using same_quotient [of 86400 t v] by (simp add: same_day_def)
      then show "\<not> fires v" using 2 fires [of v] by (simp add: same_day_fields day_matches_same_day)
    qed simp
    then show ?thesis using 2 by (simp add: date_round_defs tokd del: gmtime_r_fields)
  next
    case 3
    have "leads fires t (clock_round ?Z r4 (gmtime_r t))"
    proof (rule clock_round_leads [OF tok(4,5,6)])
      fix v
      assume "same_day t v"
      then show "fires v \<longleftrightarrow> field_matches hour (tm_hour (gmtime_r v)) \<and>
          field_matches minute (tm_min (gmtime_r v)) \<and> field_matches second (tm_sec (gmtime_r v))"
        using 3 fires [of v] by (simp add: same_day_fields day_matches_same_day del: gmtime_r_fields)
    qed
    then show ?thesis using 3 by (simp add: date_round_defs tokd del: gmtime_r_fields)
  qed
qed

lemma calendar_round_leads:
  assumes toks: "take_tokens 7 s = Some toks"
  shows "leads (matches s) t (calendar_round (fixed_zone off shift) s (gmtime_r t))"
proof -
  let ?Z = "fixed_zone off shift"
  obtain r1 r2 r3 r4 r5 r6 r7 where tok:
    "strtok CHR '' '' s = Some (toks ! 0, r1)" "strtok CHR '' '' r1 = Some (toks ! 1, r2)"
    "strtok CHR '' '' r2 = Some (toks ! 2, r3)" "strtok CHR '' '' r3 = Some (toks ! 3, r4)"
    "strtok CHR '' '' r4 = Some (toks ! 4, r5)" "strtok CHR '' '' r5 = Some (toks ! 5, r6)"
    "strtok CHR '' '' r6 = Some (toks ! 6, r7)"
    by (rule take_tokens_7 [OF toks])
  have fires: "matches s v \<longleftrightarrow> fields_match toks (gmtime_r v)" for v by (simp add: matches_def toks)
  note tokd = token_def tok option.case prod.case
  show ?thesis
  proof (cases "check_year (toks ! 0) (tm_year (gmtime_r t) + 1900)")
    case YearPast
    then show ?thesis
      using check_year_past [OF YearPast] year_of_mono [of t]
      by (simp add: calendar_round_def tokd leads_def fires fields_match_def del: gmtime_r_fields)
  next
    case YearLater
    let ?t = "86400 * month_start (12 * (tm_year (gmtime_r t) + 1900 + 1))"
    have mo: "12 * (tm_year (gmtime_r t) + 1900) \<le> month_of t" "month_of t < 12 * (tm_year (gmtime_r t) + 1900 + 1)"
      using month_of_fields(1) [of t] gmtime_r_ranges [of t] by simp_all
    have "leads (matches s) t (again (next_year ?Z (gmtime_r t)))"
    proof (rule leads_again [OF next_year_fixed])
      show "t < ?t"
        using month_start_after [of t] month_start_mono [of "month_of t + 1" "12 * (tm_year (gmtime_r t) + 1900 + 1)"] mo
        by linarith
      fix v
      assume v: "t \<le> v" "v < ?t"
      have "month_of v < 12 * (tm_year (gmtime_r t) + 1900 + 1)" by (rule month_of_less [OF v(2)])
      then have "tm_year (gmtime_r v) < tm_year (gmtime_r t) + 1"
        using month_of_fields(1) [of v] gmtime_r_ranges(1) [of v] by simp
      then have "tm_year (gmtime_r v) = tm_year (gmtime_r t)" using year_of_mono [OF v(1)] by linarith
      then show "\<not> matches s v"
        using YearLater check_year_valid [of "toks ! 0" "tm_year (gmtime_r t) + 1900"]
        by (simp add: fires fields_match_def del: gmtime_r_fields)
    qed
    then show ?thesis using YearLater by (simp add: calendar_round_def tokd)
  next
    case YearValid
    then have year: "field_matches (toks ! 0) (tm_year (gmtime_r t) + 1900)" by (simp add: check_year_valid)
    have "leads (matches s) t (date_round ?Z r1 (gmtime_r t))"
      by (rule date_round_leads [OF tok(2-7)]) (simp add: fires fields_match_def year del: gmtime_r_fields)
    then show ?thesis using YearValid by (simp add: calendar_round_def tokd)
  qed
qed

section \<open>The loop\<close>

text \<open>If a later instant matches, the loop ends at the first one.\<close>

lemma calendar_loop_finds:
  assumes toks: "take_tokens 7 s = Some toks"
    and "t \<le> u" "matches s u" "\<And>v. t \<le> v \<Longrightarrow> v < u \<Longrightarrow> \<not> matches s v"
  shows "calendar_loop (fixed_zone off shift) s (gmtime_r t) = Some (Inr (gmtime_r u))"
  using assms(2-4)
proof (induction "nat (u - t)" arbitrary: t rule: less_induct)
  case less
  note leads = calendar_round_leads [OF toks, of t off shift]
  show ?case
  proof (cases "calendar_round (fixed_zone off shift) s (gmtime_r t)")
    case (Failed e)
    then show ?thesis using leads less.prems by (auto simp: leads_def)
  next
    case Found
    then have "t = u" using leads less.prems by (force simp: leads_def)
    then show ?thesis using Found by (subst calendar_loop.simps) simp
  next
    case (Again x)
    then obtain t' where t': "x = gmtime_r t'" "t < t'" "\<And>v. t \<le> v \<Longrightarrow> v < t' \<Longrightarrow> \<not> matches s v"
      using leads by (auto simp: leads_def)
    have "t' \<le> u" using t'(3) [of u] less.prems by force
    then have "calendar_loop (fixed_zone off shift) s (gmtime_r t') = Some (Inr (gmtime_r u))"
      using less.prems t'(2) by (intro less.hyps) auto
    then show ?thesis using Again t'(1) by (subst calendar_loop.simps) simp
  qed
qed

text \<open>If no later instant matches and the years end, the loop answers that the last timeout is reached.\<close>

lemma calendar_loop_over:
  assumes toks: "take_tokens 7 s = Some toks"
    and year: "\<not> star_field (toks ! 0)" and none: "\<And>v. t \<le> v \<Longrightarrow> \<not> matches s v"
  shows "calendar_loop (fixed_zone off shift) s (gmtime_r t) = Some (Inl SCH_REACHED_LASTTIMEOUT)"
  using none
proof (induction "nat (86400 * month_start (12 * (last_year (toks ! 0) + 1)) - t)" arbitrary: t rule: less_induct)
  case less
  let ?stop = "86400 * month_start (12 * (last_year (toks ! 0) + 1))"
  note leads = calendar_round_leads [OF toks, of t off shift]
  show ?case
  proof (cases "calendar_round (fixed_zone off shift) s (gmtime_r t)")
    case (Failed e)
    then show ?thesis using leads by (subst calendar_loop.simps) (simp add: leads_def)
  next
    case Found
    then show ?thesis using leads less.prems by (auto simp: leads_def)
  next
    case (Again x)
    then obtain t' where t': "x = gmtime_r t'" "t < t'" using leads by (auto simp: leads_def)
    have "t < ?stop"
    proof (rule ccontr)
      assume "\<not> t < ?stop"
      then have "month_start (12 * (last_year (toks ! 0) + 1)) \<le> t div 86400"
        using zdiv_mono1 [of ?stop t 86400] by simp
      then have "12 * (last_year (toks ! 0) + 1) \<le> month_of t" unfolding month_of_def by (rule month_index_ge)
      then have "last_year (toks ! 0) < tm_year (gmtime_r t) + 1900"
        using month_of_fields(1) [of t] gmtime_r_ranges(2) [of t] by simp
      then have "check_year (toks ! 0) (tm_year (gmtime_r t) + 1900) = YearPast" by (rule check_year_over [OF year])
      moreover obtain r where "strtok CHR '' '' s = Some (toks ! 0, r)" using take_tokens_7 [OF toks] by metis
      ultimately show False using Again by (simp add: calendar_round_def token_def)
    qed
    then have "calendar_loop (fixed_zone off shift) s (gmtime_r t') = Some (Inl SCH_REACHED_LASTTIMEOUT)"
      using less.prems t'(2) by (intro less.hyps) auto
    then show ?thesis using Again t'(1) by (subst calendar_loop.simps) simp
  qed
qed

text \<open>If no later instant matches and any year will do, the loop never ends.\<close>

lemma again_not_past [simp]: "again j \<noteq> Failed SCH_REACHED_LASTTIMEOUT"
  by (simp add: again_def split: option.split)

lemma date_round_not_past: "date_round z r x \<noteq> Failed SCH_REACHED_LASTTIMEOUT"
  by (auto simp: date_round_defs clock_round_defs token_def split: option.split)

lemma calendar_loop_diverges:
  assumes toks: "take_tokens 7 s = Some toks"
    and year: "star_field (toks ! 0)" and none: "\<And>v. t \<le> v \<Longrightarrow> \<not> matches s v"
  shows "calendar_loop (fixed_zone off shift) s (gmtime_r t) = None"
proof -
  have "\<exists>t'. t < t' \<and> calendar_round (fixed_zone off shift) s (gmtime_r t) = Again (gmtime_r t')"
    if "\<And>v. t \<le> v \<Longrightarrow> \<not> matches s v" for t
  proof -
    note leads = calendar_round_leads [OF toks, of t off shift]
    obtain r where "strtok CHR '' '' s = Some (toks ! 0, r)" using take_tokens_7 [OF toks] by metis
    then have "calendar_round (fixed_zone off shift) s (gmtime_r t) \<noteq> Failed SCH_REACHED_LASTTIMEOUT"
      using date_round_not_past by (simp add: calendar_round_def token_def check_year_star [OF year])
    then show ?thesis
      using leads that by (cases "calendar_round (fixed_zone off shift) s (gmtime_r t)") (auto simp: leads_def)
  qed
  note steps = this
  let ?Z = "fixed_zone off shift"
  define never where "never x \<longleftrightarrow> (\<exists>t. x = gmtime_r t \<and> (\<forall>v. t \<le> v \<longrightarrow> \<not> matches s v))" for x
  have "z = ?Z \<and> w = s \<longrightarrow> \<not> never x" if "calendar_loop z w x = Some y" for z w x y
    using that
  proof (rule calendar_loop.raw_induct [where P = "\<lambda>z w x y. z = ?Z \<and> w = s \<longrightarrow> \<not> never x" and
        xa = "((z, w), x)", unfolded prod.case, rotated])
    fix f :: "zone \<Rightarrow> char list \<Rightarrow> tm \<Rightarrow> (scheduler_error + tm) option" and z w x y
    assume IH: "\<And>z w x y. f z w x = Some y \<Longrightarrow> z = ?Z \<and> w = s \<longrightarrow> \<not> never x"
      and body: "(case calendar_round z w x of Failed e \<Rightarrow> Some (Inl e) | Found \<Rightarrow> Some (Inr x)
                  | Again x' \<Rightarrow> f z w x') = Some y"
    show "z = ?Z \<and> w = s \<longrightarrow> \<not> never x"
    proof (intro impI notI)
      assume e: "z = ?Z \<and> w = s" and "never x"
      then obtain t where t: "x = gmtime_r t" "\<And>v. t \<le> v \<Longrightarrow> \<not> matches s v" by (auto simp: never_def)
      obtain t' where t': "t < t'" "calendar_round ?Z s (gmtime_r t) = Again (gmtime_r t')" using steps [OF t(2)] by blast
      then have "f ?Z s (gmtime_r t') = Some y" using body e t(1) by simp
      moreover have "never (gmtime_r t')" using t(2) t'(1) unfolding never_def by force
      ultimately show False using IH by blast
    qed
  qed
  moreover have "never (gmtime_r t)" using none unfolding never_def by blast
  ultimately show ?thesis by (cases "calendar_loop ?Z s (gmtime_r t)") auto
qed

end
