(* ===== verification/TimesSpec.thy ===== *)
theory TimesSpec
  imports Times ScheduleSpec DateTimeProps
begin

text \<open>
  The library behind the properties of \<open>Times\<close>: the well-formedness invariant \<open>times_ok\<close>, the text of
  an instant given in milliseconds since the epoch, and what each update of the next expiration does
  to it in a zone without daylight saving.
\<close>

section \<open>The invariant\<close>

text \<open>Between two calls the mutex exists and is free exactly when the object is initialised, and every
  text fits its array.\<close>

definition times_ok :: "times \<Rightarrow> bool" where
  "times_ok ti \<longleftrightarrow>
     mtTimesMutex ti = (if schTimesStatus ti = SCHTIMES_BUILDED then None else Some 0) \<and>
     length (pClassName ti) < SCH_MAXCLASSNAMELENGTH \<and>
     length (pCalendarSchedule ti) < SCH_MAXSCHEDULELENGTH \<and>
     length (pNextExpirationDateTime ti) < SCH_MAXDATELENGTH \<and>
     length (pCurrentExpirationDateTime ti) < SCH_MAXDATELENGTH"

text \<open>The calls of the public interface.\<close>

datatype times_call =
    InitPeriodic int "char list option"
  | InitCalendar "char list option" "char list option"
  | Finish
  | Start "timeofday option" "char list option"
  | Stop
  | IsStarted bool
  | IsExpiredTime "timeofday option" bool
  | GetClassName bool
  | GetNextExpirationDateTime bool
  | UpdateNextExpirationDateTime

fun times_do :: "zone \<Rightarrow> times_call \<Rightarrow> times \<Rightarrow> (lib_error \<times> times) option" where
  "times_do z (InitPeriodic p n) ti = Some (Times_init_periodic ti p n)"
| "times_do z (InitCalendar s n) ti = Some (Times_init_calendar ti s n)"
| "times_do z Finish ti = Some (Times_finish ti)"
| "times_do z (Start now d) ti = Times_start z now ti d"
| "times_do z Stop ti = Some (Times_stop ti)"
| "times_do z (IsStarted nn) ti = map_option (\<lambda>(e, _, t). (e, t)) (Times_isStarted ti nn)"
| "times_do z (IsExpiredTime now nn) ti = map_option (\<lambda>(e, _, t). (e, t)) (Times_isExpiredTime z now ti nn)"
| "times_do z (GetClassName nn) ti = map_option (\<lambda>(e, _, t). (e, t)) (Times_getClassName ti nn)"
| "times_do z (GetNextExpirationDateTime nn) ti =
     map_option (\<lambda>(e, _, t). (e, t)) (Times_getNextExpirationDateTime ti nn)"
| "times_do z UpdateNextExpirationDateTime ti = Times_updateNextExpirationDateTime z ti"

text \<open>A sequence of calls; errors do not stop it.\<close>

fun times_calls :: "zone \<Rightarrow> times_call list \<Rightarrow> times \<Rightarrow> times option" where
  "times_calls z [] ti = Some ti"
| "times_calls z (c # cs) ti = Option.bind (times_do z c ti) (\<lambda>(_, ti'). times_calls z cs ti')"

text \<open>What a calendar update leaves alone, and what it keeps.\<close>

definition updated :: "times \<Rightarrow> times \<Rightarrow> bool" where
  "updated ti ti' \<longleftrightarrow> (\<exists>b s. ti' = ti\<lparr>bNextDaylightSavingTime := b, pNextExpirationDateTime := s\<rparr> \<and>
     (s = pNextExpirationDateTime ti \<or> length s < SCH_MAXDATELENGTH))"

lemma updated_refl: "updated ti ti"
  unfolding updated_def
  by (intro exI [of _ "bNextDaylightSavingTime ti"] exI [of _ "pNextExpirationDateTime ti"]) simp

lemma updatedI: "length s < SCH_MAXDATELENGTH \<Longrightarrow>
    updated ti (ti\<lparr>bNextDaylightSavingTime := b, pNextExpirationDateTime := s\<rparr>)"
  unfolding updated_def by blast

lemma updateNextByType_updated: "updateNextByType z ti = Some (e, ti') \<Longrightarrow> updated ti ti'"
  unfolding updateNextByType_def updateNextPeriodicExpirationDateTime_def updateNextCalendarExpirationDateTime_def
  by (auto simp: Let_def updated_refl intro!: updatedI split: if_splits sum.splits option.splits prod.splits)

lemma Times_release_eq:
  "mtTimesMutex ti = Some (Suc d) \<Longrightarrow> Times_release e ti = (e, ti\<lparr>mtTimesMutex := Some d\<rparr>)"
  by (simp add: Times_release_def)

lemma times_ok_lock:
  assumes "times_ok ti"
  shows "PMutex_lock (mtTimesMutex ti) = (if schTimesStatus ti = SCHTIMES_BUILDED
    then (PThreadErrors THREADLIB_OPERATIONNOTALLOWED, None) else (NoError, Some (Suc 0)))"
  using assms by (simp add: times_ok_def)

lemma times_unlocked: "mtTimesMutex ti = m \<Longrightarrow> ti\<lparr>mtTimesMutex := m\<rparr> = ti"
  by (cases ti) simp

text \<open>A query leaves the object as it found it.\<close>

lemma Times_query_same:
  assumes "times_ok ti" "Times_query ti allowed nn f = Some (e, v, ti')"
  shows "ti' = ti"
proof -
  have m: "mtTimesMutex ti = Some 0" if "schTimesStatus ti \<noteq> SCHTIMES_BUILDED"
    using assms(1) that by (simp add: times_ok_def)
  show ?thesis
    using assms(2) times_ok_lock [OF assms(1)] times_unlocked [OF m]
    by (cases "schTimesStatus ti = SCHTIMES_BUILDED")
      (auto simp: Times_query_def Let_def Times_release_eq split: if_splits option.splits)
qed

section \<open>The text of an instant\<close>

definition local_text :: "int \<Rightarrow> int \<Rightarrow> char list" where
  "local_text off T = tm_text (gmtime_r (T div 1000 + off)) (T mod 1000)"

text \<open>The instants whose local year has four digits.\<close>

definition four_digits :: "int \<Rightarrow> int \<Rightarrow> bool" where
  "four_digits off T \<longleftrightarrow> in_years (T div 1000 + off)"

lemma four_digitsI:
  assumes "- 62167219200000 \<le> T + 1000 * off" "T + 1000 * off < 253402300800000"
  shows "four_digits off T"
proof -
  have e: "(T + 1000 * off) div 1000 = T div 1000 + off" by simp
  have "- 62167219200 \<le> (T + 1000 * off) div 1000"
    using zdiv_mono1 [OF assms(1), of 1000] by simp
  moreover have "(T + 1000 * off) div 1000 \<le> 253402300799"
    using zdiv_mono1 [of "T + 1000 * off" 253402300799999 1000] assms(2) by simp
  ultimately show ?thesis unfolding four_digits_def e [symmetric] by (intro in_yearsI) linarith+
qed

lemma local_text_fits:
  assumes "four_digits off T"
  shows "length (local_text off T) < SCH_MAXDATELENGTH" "NUL \<notin> set (local_text off T)"
proof -
  have "0 \<le> T mod 1000" "T mod 1000 < 10000" using pos_mod_bound [of 1000 T] by simp_all
  note f = tm_text_fits [OF assms [unfolded four_digits_def] this]
  show "length (local_text off T) < SCH_MAXDATELENGTH" "NUL \<notin> set (local_text off T)"
    using date_text_length [OF f] date_text_no_NUL [OF f]
    by (simp_all only: local_text_def tm_text_def SCH_MAXDATELENGTH_def) simp
qed

lemma scan_local_text:
  assumes "four_digits off T"
  shows "sscanf date_format (local_text off T) = fields_of (T div 1000 + off) @ [T mod 1000]"
proof -
  have "0 \<le> T mod 1000" "T mod 1000 < 10000" using pos_mod_bound [of 1000 T] by simp_all
  note f = tm_text_fits [OF assms [unfolded four_digits_def] this]
  show ?thesis
    using scan_date_text [OF f] by (simp only: local_text_def tm_text_def fields_of_def append.simps)
qed

lemma values_of_fields:
  "length (fields_of t @ [ms]) = 7" "(fields_of t @ [ms]) ! 6 = ms"
  "date_of_values (fields_of t @ [ms]) = date_of_instant t"
  by (simp_all add: fields_of_def date_of_values_def date_of_instant_def)

lemma print_date_of_instant: "print_date (date_of_instant t) ms = tm_text (gmtime_r t) ms"
  by (simp add: print_date_def date_of_instant_def tm_text_def)

text \<open>Local texts are ordered as the instants.\<close>

lemma text_le_local_text:
  assumes "four_digits off T" "four_digits off U"
  shows "text_le (local_text off T) (local_text off U) \<longleftrightarrow> T \<le> U"
proof -
  have r: "0 \<le> T mod 1000" "T mod 1000 < 1000" "0 \<le> U mod 1000" "U mod 1000 < 1000" by simp_all
  have e: "1000 * (a div 1000 + off) + a mod 1000 = a + 1000 * off" for a :: int
    using mult_div_mod_eq [of 1000 a] by (simp add: distrib_left)
  show ?thesis
    unfolding local_text_def text_le_instants [OF assms [unfolded four_digits_def] r] e by simp
qed

section \<open>Adding milliseconds\<close>

text \<open>A period of at least one second, or without a carry, added to the text of an instant.\<close>

lemma addMilliSeconds_local_text:
  assumes "four_digits off T" "0 \<le> p" "p < 2 ^ 63"
    and k: "k = (if d \<and> 1000 \<le> T mod 1000 + p then shift else 0)" "four_digits off (T + p - 1000 * k)"
  shows "addMilliSecondsToDateTime (fixed_zone off shift) (local_text off T) (if d then 1 else 0) p =
    Inr (local_text off (T + p - 1000 * k), d \<and> T mod 1000 + p < 1000)"
proof -
  let ?ms = "T mod 1000" and ?t = "T div 1000"
  let ?n = "(?ms + p) div 1000"
  have ms: "0 \<le> ?ms" "?ms < 1000" by simp_all
  have w: "to_ulong (?ms + p) = ?ms + p" using ms assms(2,3) by (intro to_ulong_id) auto
  have n: "0 \<le> ?n" using ms assms(2) by (intro pos_imp_zdiv_nonneg_iff [THEN iffD2]) auto
  have "?n \<le> (?ms + p)" using div_bounds(1) [of 1000 "?ms + p"] n by simp
  then have "to_int64 ?n = ?n" using n ms assms(3) div_bounds(1) [of 1000 "?ms + p"] by (intro to_int64_id) auto
  have carry: "?n = 0 \<longleftrightarrow> ?ms + p < 1000"
    using n div_bounds [of 1000 "?ms + p"] ms assms(2) by (auto intro: div_pos_pos_trivial)
  have rest: "?ms + p - ?n * 1000 = (T + p - 1000 * k) mod 1000" "(T + p - 1000 * k) div 1000 = ?t + ?n - k"
  proof -
    have T: "T + p - 1000 * k = 1000 * (?t - k) + (?ms + p)" using mult_div_mod_eq [of 1000 T] by (simp add: algebra_simps)
    show "?ms + p - ?n * 1000 = (T + p - 1000 * k) mod 1000"
      unfolding T by (simp only: minus_div_mult_eq_mod mod_mult_self4)
    show "(T + p - 1000 * k) div 1000 = ?t + ?n - k" unfolding T by simp
  qed
  have printed: "print_date (date_of_instant (?t + off + ?n - k)) (?ms + p - ?n * 1000) = local_text off (T + p - 1000 * k)"
    unfolding print_date_of_instant rest local_text_def by (simp add: algebra_simps)
  have "addSeconds (fixed_zone off shift) (date_of_instant (?t + off)) (if d then 1 else 0) ?n =
      Inr (date_of_instant (?t + off + ?n - k), d \<and> ?ms + p < 1000)"
  proof (cases "?n = 0")
    case True
    then show ?thesis using carry k(1) addSeconds_zero by simp
  next
    case False
    then have "k = (if d then shift else 0)" using carry k(1) by simp
    moreover have "in_years (?t + off + ?n - k)"
      using k(2) unfolding four_digits_def rest(2) by (simp add: algebra_simps)
    ultimately show ?thesis
      using addSeconds_fixed_zone [OF False assms(1) [unfolded four_digits_def]] carry False by simp
  qed
  then show ?thesis
    unfolding addMilliSecondsToDateTime_def Let_def scan_local_text [OF assms(1)] values_of_fields w
      \<open>to_int64 ?n = ?n\<close>
    by (simp add: printed)
qed

text \<open>Hence one periodic update.\<close>

lemma updateNextPeriodic_local_text:
  assumes "pCurrentExpirationDateTime ti = local_text off T" "ulPeriodInMilliSeconds ti = p"
    and "four_digits off T" "0 \<le> p" "p < 2 ^ 63"
    and "k = (if bCurrentDaylightSavingTime ti \<and> 1000 \<le> T mod 1000 + p then shift else 0)"
      "four_digits off (T + p - 1000 * k)"
  shows "updateNextPeriodicExpirationDateTime (fixed_zone off shift) ti =
    Some (NoError, ti\<lparr>bNextDaylightSavingTime := bCurrentDaylightSavingTime ti \<and> T mod 1000 + p < 1000,
      pNextExpirationDateTime := local_text off (T + p - 1000 * k)\<rparr>)"
  using addMilliSeconds_local_text [OF assms(3-7)] local_text_fits(1) [OF assms(7)] assms(1,2)
  by (simp add: updateNextPeriodicExpirationDateTime_def)

end
