(* ===== verification/TimesProps.thy ===== *)
theory TimesProps
  imports TimesSpec
begin

text \<open>The properties of \<open>Times\<close>.\<close>

section \<open>Well-formedness\<close>

lemma times_ok_init_name:
  assumes "mtTimesMutex ti = None" "schTimesStatus ti = SCHTIMES_BUILDED"
    and "length (pClassName ti) < SCH_MAXCLASSNAMELENGTH" "length (pCalendarSchedule ti) < SCH_MAXSCHEDULELENGTH"
    and "length (pNextExpirationDateTime ti) < SCH_MAXDATELENGTH" "length (pCurrentExpirationDateTime ti) < SCH_MAXDATELENGTH"
    and "Times_init_name ti name = (e, ti')"
  shows "times_ok ti'"
  using assms
  by (auto simp: Times_init_name_def times_ok_def PMutex_init_def PMutex_finish_def SCH_MAXCLASSNAMELENGTH_def
      split: option.splits if_splits)

lemma check_schedule_length: "check_schedule s = None \<Longrightarrow> length s < SCH_MAXSCHEDULELENGTH"
  by (auto simp: check_schedule_def SCH_MAXSCHEDULELENGTH_def split: if_splits)

lemma times_ok_fields:
  assumes "times_ok ti"
  shows "length (pClassName ti) < SCH_MAXCLASSNAMELENGTH" "length (pCalendarSchedule ti) < SCH_MAXSCHEDULELENGTH"
    "length (pNextExpirationDateTime ti) < SCH_MAXDATELENGTH" "length (pCurrentExpirationDateTime ti) < SCH_MAXDATELENGTH"
    "schTimesStatus ti = SCHTIMES_BUILDED \<Longrightarrow> mtTimesMutex ti = None"
    "schTimesStatus ti \<noteq> SCHTIMES_BUILDED \<Longrightarrow> mtTimesMutex ti = Some 0"
  using assms by (auto simp: times_ok_def)

text \<open>After the update inside \<open>start\<close> or \<open>updateNextExpirationDateTime\<close> and the unlocking.\<close>

lemma times_ok_release:
  assumes "times_ok ti" "schTimesStatus ti \<noteq> SCHTIMES_BUILDED" "length s < SCH_MAXDATELENGTH"
    and "updated (ti\<lparr>mtTimesMutex := Some (Suc 0), bCurrentDaylightSavingTime := b,
                    pCurrentExpirationDateTime := s\<rparr>) ti2"
    and "st \<noteq> SCHTIMES_BUILDED"
  shows "times_ok (snd (Times_release e ti2))" "times_ok (snd (Times_release e (ti2\<lparr>schTimesStatus := st\<rparr>)))"
    "times_ok (snd (Times_release e ti2)\<lparr>schTimesStatus := st\<rparr>)" "mtTimesMutex ti2 = Some (Suc 0)"
  using assms times_ok_fields [OF assms(1)] by (auto simp: updated_def Times_release_def times_ok_def)

lemma times_ok_start:
  assumes "times_ok ti" "Times_start z now ti d = Some (e, ti')"
  shows "times_ok ti'"
proof (cases "schTimesStatus ti = SCHTIMES_INITIALIZED")
  case False
  then show ?thesis
    using assms times_ok_fields [OF assms(1)] times_ok_lock [OF assms(1)]
    by (cases "schTimesStatus ti") (auto simp: Times_start_def Let_def Times_release_eq times_unlocked)
next
  case True
  then have m: "mtTimesMutex ti = Some 0" using times_ok_fields(6) [OF assms(1)] by simp
  show ?thesis
  proof (cases "Times_start_current z now d")
    case (Inl e)
    then show ?thesis using assms True m by (auto simp: Times_start_def Let_def Times_release_eq times_unlocked)
  next
    case (Inr c)
    obtain b s where c: "c = (b, s)" by (cases c)
    let ?ti1 = "ti\<lparr>mtTimesMutex := Some (Suc 0), bCurrentDaylightSavingTime := b, pCurrentExpirationDateTime := s\<rparr>"
    obtain e2 ti2 where u: "updateNextByType z ?ti1 = Some (e2, ti2)" and s: "length s < SCH_MAXDATELENGTH"
      using assms(2) True m Inr c by (auto simp: Times_start_def Let_def split: if_splits option.splits)
    note ok = times_ok_release [OF assms(1) _ s updateNextByType_updated [OF u], of SCHTIMES_STARTED]
    have "ti' = snd (Times_release (start_error ti2 e2) ti2) \<or>
        ti' = snd (Times_release NoError ti2)\<lparr>schTimesStatus := SCHTIMES_STARTED\<rparr>"
      using assms(2) True m Inr c u s ok(4)
      by (auto simp: Times_start_def Let_def Times_release_eq split: if_splits)
    then show ?thesis using ok True by auto
  qed
qed

lemma times_ok_update:
  assumes "times_ok ti" "Times_updateNextExpirationDateTime z ti = Some (e, ti')"
  shows "times_ok ti'"
proof (cases "schTimesStatus ti = SCHTIMES_STARTED")
  case False
  then show ?thesis
    using assms times_ok_fields [OF assms(1)] times_ok_lock [OF assms(1)]
    by (cases "schTimesStatus ti")
      (auto simp: Times_updateNextExpirationDateTime_def Let_def Times_release_eq times_unlocked)
next
  case True
  then have m: "mtTimesMutex ti = Some 0" using times_ok_fields(6) [OF assms(1)] by simp
  let ?ti1 = "ti\<lparr>mtTimesMutex := Some (Suc 0), bCurrentDaylightSavingTime := bNextDaylightSavingTime ti,
    pCurrentExpirationDateTime := pNextExpirationDateTime ti\<rparr>"
  obtain e2 ti2 where u: "updateNextByType z ?ti1 = Some (e2, ti2)"
    using assms(2) True m by (auto simp: Times_updateNextExpirationDateTime_def Let_def split: option.splits)
  note ok = times_ok_release [OF assms(1) _ times_ok_fields(3) [OF assms(1)] updateNextByType_updated [OF u],
      of SCHTIMES_INITIALIZED]
  have "ti' = snd (Times_release e2 (ti2\<lparr>schTimesStatus := SCHTIMES_INITIALIZED\<rparr>)) \<or> ti' = snd (Times_release e2 ti2)"
    using assms(2) True m u
    by (cases "e2 = SchedulerErrors SCH_REACHED_LASTTIMEOUT")
      (simp_all add: Times_updateNextExpirationDateTime_def Let_def prod_eq_iff)
  then show ?thesis using ok True by auto
qed

lemma times_ok_stop: "times_ok ti \<Longrightarrow> times_ok (snd (Times_stop ti))"
  using times_ok_lock [of ti]
  by (cases "schTimesStatus ti") (auto simp: Times_stop_def Let_def Times_release_def times_ok_def)

lemma times_ok_finish: "times_ok ti \<Longrightarrow> times_ok (snd (Times_finish ti))"
  by (auto simp: Times_finish_def PMutex_finish_def times_ok_def)

lemma times_ok_do:
  assumes "times_ok ti" "times_do z c ti = Some (e, ti')"
  shows "times_ok ti'"
proof (cases c)
  case (InitPeriodic p n)
  then show ?thesis
    using assms times_ok_fields [OF assms(1)]
    by (auto simp: Times_init_periodic_def SCH_MAXDATELENGTH_def split: if_splits elim!: times_ok_init_name [rotated -1])
next
  case (InitCalendar s n)
  then show ?thesis
    using assms times_ok_fields [OF assms(1)]
    by (auto simp: Times_init_calendar_def SCH_MAXDATELENGTH_def check_schedule_length
        split: if_splits option.splits elim!: times_ok_init_name [rotated -1])
next
  case (Start now d)
  then show ?thesis using assms times_ok_start by simp
next
  case UpdateNextExpirationDateTime
  then show ?thesis using assms times_ok_update by simp
next
  case Finish
  then show ?thesis using assms times_ok_finish [of ti] by simp
next
  case Stop
  then show ?thesis using assms times_ok_stop [of ti] by simp
qed (use assms in \<open>auto simp: Times_isStarted_def Times_isExpiredTime_def Times_getClassName_def
      Times_getNextExpirationDateTime_def dest: Times_query_same [OF assms(1)]\<close>)

definition new_times :: times where
  "new_times = Times_ctor \<lparr>mtTimesMutex = None, schTimesStatus = SCHTIMES_STARTED, ttTimesType = SCH_TYPE_CALENDAR,
     pClassName = ''junk'', ulPeriodInMilliSeconds = 7, pCalendarSchedule = '''', bNextDaylightSavingTime = True,
     pNextExpirationDateTime = '''', bCurrentDaylightSavingTime = True, pCurrentExpirationDateTime = ''''\<rparr>"

lemma new_times_ok: "times_ok new_times"
  by (simp add: new_times_def Times_ctor_def times_ok_def SCH_MAXCLASSNAMELENGTH_def SCH_MAXSCHEDULELENGTH_def
      SCH_MAXDATELENGTH_def)



section \<open>Expiration\<close>

lemma get_tm_LocalTime_fixed:
  assumes "0 \<le> tv_usec tv" "tv_usec tv < 1000000"
  shows "get_tm_LocalTime (fixed_zone off shift) (Some tv) =
    Inr (gmtime_r (tv_sec tv + off), tv_usec tv div 1000)"
proof -
  have "tv_usec tv sdiv 1000 = tv_usec tv div 1000" using assms by (simp add: signed_divide_int_def sgn_if)
  moreover have "to_ulong (tv_usec tv div 1000) = tv_usec tv div 1000"
    using assms zdiv_mono1 [of "tv_usec tv" 1000000 1000] by (intro to_ulong_id) (auto simp: pos_imp_zdiv_nonneg_iff)
  ultimately show ?thesis by (simp add: get_tm_LocalTime_def convertFromUTCToLocal_def fixed_zone_def)
qed

text \<open>The milliseconds since the epoch of a reading of the clock.\<close>

definition now_ms :: "timeofday \<Rightarrow> int" where
  "now_ms tv = 1000 * tv_sec tv + tv_usec tv div 1000"

lemma now_ms_parts:
  assumes "0 \<le> tv_usec tv" "tv_usec tv < 1000000"
  shows "now_ms tv div 1000 = tv_sec tv" "now_ms tv mod 1000 = tv_usec tv div 1000"
proof -
  have "0 \<le> tv_usec tv div 1000" "tv_usec tv div 1000 < 1000"
    using assms zdiv_mono1 [of "tv_usec tv" 999999 1000] by (simp_all add: pos_imp_zdiv_nonneg_iff)
  then show "now_ms tv div 1000 = tv_sec tv" "now_ms tv mod 1000 = tv_usec tv div 1000"
    using int_div_pos_eq [of "now_ms tv" 1000 "tv_sec tv"] int_mod_pos_eq [of "now_ms tv" 1000 "tv_sec tv"]
    by (simp_all add: now_ms_def)
qed

lemma now_text:
  assumes "0 \<le> tv_usec tv" "tv_usec tv < 1000000"
  shows "tm_text (gmtime_r (tv_sec tv + off)) (tv_usec tv div 1000) = local_text off (now_ms tv)"
  by (simp add: local_text_def now_ms_parts [OF assms])

lemma isExpiredTime_fixed_zone:
  assumes "times_ok ti" "schTimesStatus ti = SCHTIMES_STARTED" "\<not> bNextDaylightSavingTime ti"
    and "pNextExpirationDateTime ti = local_text off T" "four_digits off T"
    and "0 \<le> tv_usec tv" "tv_usec tv < 1000000" "four_digits off (now_ms tv)"
  shows "Times_isExpiredTime (fixed_zone off shift) (Some tv) ti True = Some (NoError, Some (T \<le> now_ms tv), ti)"
proof -
  have m: "mtTimesMutex ti = Some 0" using times_ok_fields(6) [OF assms(1)] assms(2) by simp
  have "length (local_text off (now_ms tv)) < SCH_MAXDATELENGTH" using local_text_fits(1) [OF assms(8)] .
  then show ?thesis
    using assms(2-4) m times_unlocked [OF m] text_le_local_text [OF assms(5,8)]
    by (simp add: Times_isExpiredTime_def Times_query_def Let_def Times_release_eq
        get_tm_LocalTime_fixed [OF assms(6,7)] now_text [OF assms(6,7)] del: gmtime_r_fields(1-4))
qed

text \<open>C8: without daylight saving a started object is expired exactly when its next expiration is not
  after the present millisecond, although the code compares the two dates as texts.\<close>

theorem isExpiredTime_iff_reached:
  assumes "times_ok ti" "schTimesStatus ti = SCHTIMES_STARTED" "\<not> bNextDaylightSavingTime ti"
    and "pNextExpirationDateTime ti = local_text off T" "four_digits off T"
    and "0 \<le> tv_usec tv" "tv_usec tv < 1000000" "four_digits off (now_ms tv)"
  shows "Times_isExpiredTime (fixed_zone off shift) (Some tv) ti True = Some (NoError, Some (T \<le> now_ms tv), ti)"
  using assms by (rule isExpiredTime_fixed_zone)

definition started_times :: "int \<Rightarrow> times" where
  "started_times T = new_times\<lparr>mtTimesMutex := Some 0, schTimesStatus := SCHTIMES_STARTED,
     ttTimesType := SCH_TYPE_PERIODIC, ulPeriodInMilliSeconds := 1500, bNextDaylightSavingTime := False,
     pNextExpirationDateTime := local_text 3600 T\<rparr>"

lemma started_times_ok: "four_digits 3600 T \<Longrightarrow> times_ok (started_times T)"
  using local_text_fits(1) [of 3600 T] new_times_ok by (simp add: started_times_def times_ok_def)

theorem isExpiredTime_iff_reached_witness:
  "Times_isExpiredTime (fixed_zone 3600 0) (Some \<lparr>tv_sec = 1614350475, tv_usec = 478000, tz_minuteswest = 0\<rparr>)
     (started_times 1614350475477) True = Some (NoError, Some True, started_times 1614350475477)"
  using isExpiredTime_iff_reached [of "started_times 1614350475477" 3600 1614350475477
      "\<lparr>tv_sec = 1614350475, tv_usec = 478000, tz_minuteswest = 0\<rparr>" 0]
    started_times_ok [of 1614350475477] four_digitsI [of 1614350475477 3600] four_digitsI [of 1614350475478 3600]
  by (simp add: now_ms_def) (simp add: started_times_def)

section \<open>Periodic objects\<close>

fun repeat_update :: "zone \<Rightarrow> nat \<Rightarrow> times \<Rightarrow> times option" where
  "repeat_update z 0 ti = Some ti"
| "repeat_update z (Suc n) ti =
     (case Times_updateNextExpirationDateTime z ti of
        Some (NoError, ti') \<Rightarrow> repeat_update z n ti' | _ \<Rightarrow> None)"

lemma periodic_update:
  assumes "mtTimesMutex ti = Some 0" "schTimesStatus ti = SCHTIMES_STARTED" "ttTimesType ti = SCH_TYPE_PERIODIC"
    and "\<not> bNextDaylightSavingTime ti" "pNextExpirationDateTime ti = local_text off T"
    and "ulPeriodInMilliSeconds ti = p" "0 \<le> p" "p < 2 ^ 63" "four_digits off T" "four_digits off (T + p)"
  shows "Times_updateNextExpirationDateTime (fixed_zone off shift) ti =
    Some (NoError, ti\<lparr>bCurrentDaylightSavingTime := False, pCurrentExpirationDateTime := local_text off T,
      bNextDaylightSavingTime := False, pNextExpirationDateTime := local_text off (T + p)\<rparr>)"
proof -
  let ?ti1 = "ti\<lparr>mtTimesMutex := Some (Suc 0), bCurrentDaylightSavingTime := bNextDaylightSavingTime ti,
    pCurrentExpirationDateTime := pNextExpirationDateTime ti\<rparr>"
  have "updateNextPeriodicExpirationDateTime (fixed_zone off shift) ?ti1 = Some (NoError,
      ?ti1\<lparr>bNextDaylightSavingTime := bCurrentDaylightSavingTime ?ti1 \<and> T mod 1000 + p < 1000,
      pNextExpirationDateTime := local_text off (T + p - 1000 * 0)\<rparr>)"
    by (rule updateNextPeriodic_local_text) (use assms in simp_all)
  then show ?thesis
    using assms(1-5) by (simp add: Times_updateNextExpirationDateTime_def updateNextByType_def Times_release_eq)
qed



end
