(* ===== verification/TimesCalendarProps.thy ===== *)
theory TimesCalendarProps
  imports TimesProps
begin

text \<open>The properties of calendar objects, and of \<open>start\<close>.\<close>

section \<open>Calendar updates\<close>

text \<open>The object fires at the UTC second \<open>t\<close>, in a zone \<open>off\<close> seconds east of UTC.\<close>

definition fires :: "int \<Rightarrow> times \<Rightarrow> int \<Rightarrow> bool" where
  "fires off ti t \<longleftrightarrow> matches (pCalendarSchedule ti) (t + off)"

text \<open>A calendar object that waits for \<open>T\<close>.\<close>

definition calendar_at :: "int \<Rightarrow> int \<Rightarrow> times \<Rightarrow> bool" where
  "calendar_at off T ti \<longleftrightarrow>
     times_ok ti \<and> schTimesStatus ti = SCHTIMES_STARTED \<and> ttTimesType ti = SCH_TYPE_CALENDAR \<and>
     \<not> bNextDaylightSavingTime ti \<and> pNextExpirationDateTime ti = local_text off T \<and> four_digits off T \<and>
     check_schedule (pCalendarSchedule ti) = None"

lemma check_schedule_tokens: "check_schedule s = None \<Longrightarrow> \<exists>toks. take_tokens 7 s = Some toks"
  by (auto simp: check_schedule_def check_ranges_def next_token_def first_error_def eval_nat_numeral
      split: if_splits option.splits)

lemma calendar_begin_fixed:
  assumes "four_digits off T"
  shows "calendar_begin (fixed_zone off shift) (fields_of (T div 1000 + off) @ [ms]) 0 =
    Some (gmtime_r (T div 1000 + off + 1))"
proof -
  have "tm_isdst (tm_of_date c 0) = 0" for c by (cases c) (simp add: tm_of_date_def)
  then show ?thesis
    using assms
    by (simp add: calendar_begin_def values_of_fields fixed_zone_go tm_of_date_of_instant four_digits_def)
qed

lemma updateNextCalendar_fixed:
  assumes "pCurrentExpirationDateTime ti = local_text off T" "four_digits off T" "\<not> bCurrentDaylightSavingTime ti"
  shows "updateNextCalendarExpirationDateTime (fixed_zone off shift) ti =
    (case calendar_loop (fixed_zone off shift) (pCalendarSchedule ti) (gmtime_r (T div 1000 + off + 1)) of
       None \<Rightarrow> None
     | Some (Inl e) \<Rightarrow> Some (SchedulerErrors e, ti)
     | Some (Inr y) \<Rightarrow>
         if SCH_MAXDATELENGTH \<le> length (tm_text y (T mod 1000)) then None
         else Some (NoError, ti\<lparr>bNextDaylightSavingTime := (tm_isdst y \<noteq> 0),
                pNextExpirationDateTime := tm_text y (T mod 1000)\<rparr>))"
  unfolding updateNextCalendarExpirationDateTime_def Let_def assms(1) scan_local_text [OF assms(2)] values_of_fields
  using assms(3) calendar_begin_fixed [OF assms(2), of shift "T mod 1000"] by simp

lemma calendar_loop_from:
  assumes "check_schedule s = None"
  shows "t < u \<Longrightarrow> matches s (u + off) \<Longrightarrow> (\<And>v. t < v \<Longrightarrow> v < u \<Longrightarrow> \<not> matches s (v + off)) \<Longrightarrow>
      calendar_loop (fixed_zone off shift) s (gmtime_r (t + off + 1)) = Some (Inr (gmtime_r (u + off)))"
    and "strtok CHR '' '' s = Some (year, r) \<Longrightarrow> (\<And>v. t < v \<Longrightarrow> \<not> matches s (v + off)) \<Longrightarrow>
      calendar_loop (fixed_zone off shift) s (gmtime_r (t + off + 1)) =
        (if star_field year then None else Some (Inl SCH_REACHED_LASTTIMEOUT))"
proof -
  obtain toks where toks: "take_tokens 7 s = Some toks" using check_schedule_tokens [OF assms] by blast
  have shifted: "\<not> matches s v" if "\<And>v. t < v \<Longrightarrow> P v \<Longrightarrow> \<not> matches s (v + off)" "t + off + 1 \<le> v" "P (v - off)" for v P
    using that(1) [of "v - off"] that(2,3) by simp
  show "calendar_loop (fixed_zone off shift) s (gmtime_r (t + off + 1)) = Some (Inr (gmtime_r (u + off)))"
    if "t < u" "matches s (u + off)" "\<And>v. t < v \<Longrightarrow> v < u \<Longrightarrow> \<not> matches s (v + off)"
    by (rule calendar_loop_finds [OF toks _ that(2)]) (use that shifted [of "\<lambda>v. v < u"] in auto)
  show "calendar_loop (fixed_zone off shift) s (gmtime_r (t + off + 1)) =
        (if star_field year then None else Some (Inl SCH_REACHED_LASTTIMEOUT))"
    if "strtok CHR '' '' s = Some (year, r)" "\<And>v. t < v \<Longrightarrow> \<not> matches s (v + off)"
  proof -
    have "toks ! 0 = year" using take_tokens_7 [OF toks] that(1) by (metis option.inject prod.inject)
    then show ?thesis
      using calendar_loop_over [OF toks] calendar_loop_diverges [OF toks] shifted [of "\<lambda>_. True"] that(2) by auto
  qed
qed


definition calendar_times :: "char list \<Rightarrow> int \<Rightarrow> times" where
  "calendar_times s T = (started_times T)\<lparr>ttTimesType := SCH_TYPE_CALENDAR, pCalendarSchedule := s\<rparr>"

lemma calendar_times_at:
  assumes "four_digits 3600 T" "check_schedule s = None"
  shows "calendar_at 3600 T (calendar_times s T)"
  using assms started_times_ok [OF assms(1)] check_schedule_length [OF assms(2)]
  by (simp add: calendar_at_def calendar_times_def times_ok_def) (simp add: started_times_def)

lemma calendar_times_schedule [simp]: "pCalendarSchedule (calendar_times s T) = s"
  by (simp add: calendar_times_def)

lemma every_half_minute:
  "check_schedule ''* * * * * * 30'' = None"
  "take_tokens 7 ''* * * * * * 30'' = Some [''*'', ''*'', ''*'', ''*'', ''*'', ''*'', ''30'']"
  "matches ''* * * * * * 30'' v \<longleftrightarrow> v mod 60 = 30"
proof -
  show t: "take_tokens 7 ''* * * * * * 30'' = Some [''*'', ''*'', ''*'', ''*'', ''*'', ''*'', ''30'']" by code_simp
  have "atol ''30'' = 30" by code_simp
  then show "matches ''* * * * * * 30'' v \<longleftrightarrow> v mod 60 = 30"
    by (simp add: matches_def t fields_match_def field_matches_def day_matches_def star_field_def is_star_def Let_def)
qed code_simp


lemma calendar_last:
  assumes "calendar_at off T ti" "strtok CHR '' '' (pCalendarSchedule ti) = Some (year, r)" "\<not> star_field year"
    and "\<And>v. T div 1000 < v \<Longrightarrow> \<not> fires off ti v"
  shows "\<exists>ti'. Times_updateNextExpirationDateTime (fixed_zone off shift) ti =
      Some (SchedulerErrors SCH_REACHED_LASTTIMEOUT, ti') \<and> schTimesStatus ti' = SCHTIMES_INITIALIZED \<and> times_ok ti'"
proof -
  note a = assms(1) [unfolded calendar_at_def]
  let ?ti1 = "ti\<lparr>mtTimesMutex := Some (Suc 0), bCurrentDaylightSavingTime := False,
    pCurrentExpirationDateTime := local_text off T\<rparr>"
  have m: "mtTimesMutex ti = Some 0" using a times_ok_fields(6) [of ti] by simp
  have "calendar_loop (fixed_zone off shift) (pCalendarSchedule ti) (gmtime_r (T div 1000 + off + 1)) =
      Some (Inl SCH_REACHED_LASTTIMEOUT)"
    using calendar_loop_from(2) [OF _ assms(2), of "T div 1000" off shift] a assms(3,4) by (simp add: fires_def)
  then have "updateNextCalendarExpirationDateTime (fixed_zone off shift) ?ti1 =
      Some (SchedulerErrors SCH_REACHED_LASTTIMEOUT, ?ti1)"
    using updateNextCalendar_fixed [of ?ti1 off T shift] a by simp
  then have "\<exists>ti'. Times_updateNextExpirationDateTime (fixed_zone off shift) ti =
      Some (SchedulerErrors SCH_REACHED_LASTTIMEOUT, ti') \<and> schTimesStatus ti' = SCHTIMES_INITIALIZED"
    using a m by (simp add: Times_updateNextExpirationDateTime_def updateNextByType_def Times_release_eq)
  then show ?thesis using times_ok_update a by blast
qed

lemma year_2020:
  "check_schedule ''2020 * * * * * *'' = None" "strtok CHR '' '' ''2020 * * * * * *'' = Some (''2020'', ''* * * * * *'')"
  "1609459200 \<le> v \<Longrightarrow> \<not> matches ''2020 * * * * * *'' v"
proof -
  have t: "take_tokens 7 ''2020 * * * * * *'' = Some [''2020'', ''*'', ''*'', ''*'', ''*'', ''*'', ''*'']" by code_simp
  have atol: "atol ''2020'' = 2020" by code_simp
  have "days_of_civil 2021 0 1 = 18628"
    by (simp add: days_of_civil_def days_before_year_def)
  then have "civil_of_days (1609459200 div 86400) = (2021, 0, 1)"
    using civil_of_days_of_civil [of 0 1 2021] by (simp add: days_in_month_def)
  from gmtime_r_date(1) [OF this] have "tm_year (gmtime_r 1609459200) = 121" by simp
  then have "1609459200 \<le> v \<Longrightarrow> 121 \<le> tm_year (gmtime_r v)" using year_of_mono [of 1609459200 v] by simp
  then show "1609459200 \<le> v \<Longrightarrow> \<not> matches ''2020 * * * * * *'' v"
    by (auto simp: matches_def t fields_match_def field_matches_def is_star_def atol)
qed code_simp+

lemma last_of_2020:
  "\<exists>ti'. Times_updateNextExpirationDateTime (fixed_zone 3600 0) (calendar_times ''2020 * * * * * *'' 1609455599000) =
      Some (SchedulerErrors SCH_REACHED_LASTTIMEOUT, ti') \<and> schTimesStatus ti' = SCHTIMES_INITIALIZED \<and> times_ok ti'"
proof (rule calendar_last)
  show "calendar_at 3600 1609455599000 (calendar_times ''2020 * * * * * *'' 1609455599000)"
    by (intro calendar_times_at four_digitsI year_2020(1)) simp_all
  show "strtok CHR '' '' (pCalendarSchedule (calendar_times ''2020 * * * * * *'' 1609455599000)) =
      Some (''2020'', ''* * * * * *'')"
    unfolding calendar_times_schedule by (rule year_2020(2))
  show "\<not> star_field ''2020''" by (simp add: star_field_def is_star_def)
  fix v :: int
  assume "1609455599000 div 1000 < v"
  then have "1609459200 \<le> v + 3600" by simp
  then show "\<not> fires 3600 (calendar_times ''2020 * * * * * *'' 1609455599000) v"
    using year_2020(3) [of "v + 3600"] by (simp add: fires_def calendar_times_def)
qed



section \<open>Start\<close>

lemma Times_start_now:
  assumes "mtTimesMutex ti = Some 0" "schTimesStatus ti = SCHTIMES_INITIALIZED"
    and "0 \<le> tv_usec tv" "tv_usec tv < 1000000" "four_digits off (now_ms tv)"
  shows "Times_start (fixed_zone off shift) (Some tv) ti None =
    (case updateNextByType (fixed_zone off shift) (ti\<lparr>mtTimesMutex := Some (Suc 0),
            bCurrentDaylightSavingTime := False, pCurrentExpirationDateTime := local_text off (now_ms tv)\<rparr>) of
       None \<Rightarrow> None
     | Some (e, ti2) \<Rightarrow>
         if start_error ti2 e \<noteq> NoError then Some (Times_release (start_error ti2 e) ti2)
         else (case Times_release NoError ti2 of
                 (NoError, ti3) \<Rightarrow> Some (NoError, ti3\<lparr>schTimesStatus := SCHTIMES_STARTED\<rparr>)
               | r \<Rightarrow> Some r))"
proof -
  have "Times_start_current (fixed_zone off shift) (Some tv) None = Inr (False, local_text off (now_ms tv))"
    unfolding Times_start_current_def get_tm_LocalTime_fixed [OF assms(3,4)] option.case sum.case prod.case
      now_text [OF assms(3,4)] by simp
  then show ?thesis
    using assms(1,2) local_text_fits(1) [OF assms(5)] by (simp add: Times_start_def Let_def)
qed

lemma february_31:
  "check_schedule ''* 2 31 * 0 0 0'' = None" "strtok CHR '' '' ''* 2 31 * 0 0 0'' = Some (''*'', ''2 31 * 0 0 0'')"
  "\<not> matches ''* 2 31 * 0 0 0'' v"
proof -
  have t: "take_tokens 7 ''* 2 31 * 0 0 0'' = Some [''*'', ''2'', ''31'', ''*'', ''0'', ''0'', ''0'']" by code_simp
  have n: "atol ''2'' = 2" "atol ''31'' = 31" by code_simp+
  have "False" if "tm_mon (gmtime_r v) = 1" "tm_mday (gmtime_r v) = 31"
  proof -
    obtain y m d where c: "civil_of_days (v div 86400) = (y, m, d)" by (cases "civil_of_days (v div 86400)")
    have "m = 1" "d = 31" using that by (simp_all add: gmtime_r_date [OF c])
    then show False using civil_of_days_valid(4) [OF c] by (simp add: days_in_month_def split: if_splits)
  qed
  then show "\<not> matches ''* 2 31 * 0 0 0'' v"
    by (auto simp: matches_def t fields_match_def field_matches_def day_matches_def star_field_def is_star_def Let_def n)
qed code_simp+

text \<open>C37: the guard of \<open>init\<close> against schedules that never fire misses the 31st of February: \<open>init\<close>
  accepts \<^verbatim>\<open>* 2 31 * 0 0 0\<close>, and then \<open>start\<close> never returns, whatever the clock says (as long as
  \<open>localtime_r\<close> can represent the years it visits). The mutex stays locked.\<close>

theorem february_31_hangs:
  assumes "times_ok ti" "schTimesStatus ti = SCHTIMES_BUILDED"
    and "0 \<le> tv_usec tv" "tv_usec tv < 1000000" "four_digits off (now_ms tv)"
  shows "\<exists>ti'. Times_init_calendar ti (Some ''* 2 31 * 0 0 0'') None = (NoError, ti') \<and>
    Times_start (fixed_zone off shift) (Some tv) ti' None = None"
proof -
  let ?s = "''* 2 31 * 0 0 0''"
  let ?ti = "ti\<lparr>pCalendarSchedule := ?s, ttTimesType := SCH_TYPE_CALENDAR, pCurrentExpirationDateTime := [],
    pNextExpirationDateTime := [], mtTimesMutex := Some 0, pClassName := [], schTimesStatus := SCHTIMES_INITIALIZED\<rparr>"
  let ?cur = "?ti\<lparr>mtTimesMutex := Some (Suc 0), bCurrentDaylightSavingTime := False,
    pCurrentExpirationDateTime := local_text off (now_ms tv)\<rparr>"
  have init: "Times_init_calendar ti (Some ?s) None = (NoError, ?ti)"
    using assms(1,2) times_ok_fields(5) [of ti]
    by (simp add: Times_init_calendar_def february_31(1) Times_init_name_def PMutex_init_def)
  have "calendar_loop (fixed_zone off shift) ?s (gmtime_r (now_ms tv div 1000 + off + 1)) = None"
    using calendar_loop_from(2) [OF february_31(1,2)] february_31(3) by (simp add: star_field_def is_star_def)
  then have "updateNextCalendarExpirationDateTime (fixed_zone off shift) ?cur = None"
    using updateNextCalendar_fixed [of ?cur off "now_ms tv" shift] assms(5) by simp
  then have "Times_start (fixed_zone off shift) (Some tv) ?ti None = None"
    using Times_start_now [of ?ti tv off shift] assms(3-5) by (simp add: updateNextByType_def)
  then show ?thesis using init by blast
qed

theorem february_31_hangs_witness:
  "\<exists>ti'. Times_init_calendar new_times (Some ''* 2 31 * 0 0 0'') None = (NoError, ti') \<and>
    Times_start (fixed_zone 0 0) (Some \<lparr>tv_sec = 1614350475, tv_usec = 0, tz_minuteswest = 0\<rparr>) ti' None = None"
  by (rule february_31_hangs [OF new_times_ok]) (auto simp: new_times_def Times_ctor_def now_ms_def intro!: four_digitsI)

text \<open>\<open>start\<close> with a date given as text records that daylight saving time is in effect, whatever the
  date and the zone: the \<^verbatim>\<open>-1\<close> for "unknown" becomes \<open>true\<close>. Where \<open>mktime\<close> then takes \<open>shift\<close> seconds
  off a date in standard time, the first expiration is that much too early.\<close>

theorem start_with_date_shifted:
  assumes "mtTimesMutex ti = Some 0" "schTimesStatus ti = SCHTIMES_INITIALIZED" "ttTimesType ti = SCH_TYPE_PERIODIC"
    and "ulPeriodInMilliSeconds ti = p" "1000 \<le> p" "p < 2 ^ 63"
    and "four_digits off T" "four_digits off (T + p - 1000 * shift)"
  shows "\<exists>ti'. Times_start (fixed_zone off shift) now ti (Some (local_text off T)) = Some (NoError, ti') \<and>
    bCurrentDaylightSavingTime ti' \<and> pCurrentExpirationDateTime ti' = local_text off T \<and>
    pNextExpirationDateTime ti' = local_text off (T + p - 1000 * shift)"
proof -
  let ?ti = "ti\<lparr>mtTimesMutex := Some (Suc 0), bCurrentDaylightSavingTime := True,
    pCurrentExpirationDateTime := local_text off T\<rparr>"
  have "print_date (date_of_instant (T div 1000 + off)) (T mod 1000) = local_text off T"
    by (simp add: print_date_of_instant local_text_def)
  then have "Times_start_current (fixed_zone off shift) now (Some (local_text off T)) = Inr (True, local_text off T)"
    unfolding Times_start_current_def Let_def option.case scan_local_text [OF assms(7)] values_of_fields addSeconds_zero
    by simp
  moreover have "1000 \<le> T mod 1000 + p" using assms(5) pos_mod_sign [of 1000 T] by linarith
  then have "updateNextPeriodicExpirationDateTime (fixed_zone off shift) ?ti = Some (NoError,
      ?ti\<lparr>bNextDaylightSavingTime := False, pNextExpirationDateTime := local_text off (T + p - 1000 * shift)\<rparr>)"
    using updateNextPeriodic_local_text [of ?ti off T p shift shift] assms(3-8) by simp
  ultimately show ?thesis
    using assms(1-3) local_text_fits(1) [OF assms(7)]
    by (simp add: Times_start_def Let_def updateNextByType_def start_error_def Times_release_eq)
qed

theorem start_with_date_shifted_witness:
  "\<exists>ti'. Times_start (fixed_zone 3600 3600) None (started_times 0\<lparr>schTimesStatus := SCHTIMES_INITIALIZED\<rparr>)
       (Some (local_text 3600 1579078800000)) = Some (NoError, ti') \<and>
     bCurrentDaylightSavingTime ti' \<and> pCurrentExpirationDateTime ti' = local_text 3600 1579078800000 \<and>
     pNextExpirationDateTime ti' = local_text 3600 (1579078800000 + 1500 - 1000 * 3600)"
  by (rule start_with_date_shifted) (auto simp: started_times_def intro!: four_digitsI)

end
