(* ===== verification/PosixThread.thy ===== *)
theory PosixThread
  imports PMutex
begin

text \<open>
  The class \<open>PosixThread\<close> of \<open>PThread/src/PosixThread.cpp\<close>: the status of a thread object. Classes that
  derive from it extend the record. The attribute calls of pthreads do not fail; the results of
  \<open>pthread_create\<close> and \<open>pthread_join\<close> are arguments. \<open>run\<close> is what the derived class defines.
\<close>

datatype thread_status =
    THREADLIB_BUILDED
  | THREADLIB_INITIALIZED
  | THREADLIB_STARTED
  | THREADLIB_DETACHED
  | THREADLIB_STARTED_AND_JOINED
  | THREADLIB_INITIALIZEDAGAINAFTERRUNNING

record posix_thread =
  stPThreadStatus :: thread_status
  pPThreadName :: "char list"
  erThreadReturn :: lib_error

definition MAX_PTHREADNAMELENGTH :: nat where
  "MAX_PTHREADNAMELENGTH = 128 + 1"

definition PosixThread_ctor :: "'a posix_thread_scheme \<Rightarrow> 'a posix_thread_scheme" where
  "PosixThread_ctor junk = junk\<lparr>pPThreadName := [], erThreadReturn := NoError, stPThreadStatus := THREADLIB_BUILDED\<rparr>"

text \<open>Most errors are also left in \<open>_erThreadReturn\<close>.\<close>

definition thread_fails :: "thread_error \<Rightarrow> 'a posix_thread_scheme \<Rightarrow> lib_error \<times> 'a posix_thread_scheme" where
  "thread_fails e t = (PThreadErrors e, t\<lparr>erThreadReturn := PThreadErrors e\<rparr>)"

definition setPThreadName ::
  "'a posix_thread_scheme \<Rightarrow> char list option \<Rightarrow> lib_error \<times> 'a posix_thread_scheme" where
  "setPThreadName t name =
     (case name of
        None \<Rightarrow> thread_fails (THREADLIB_PARAMETER_WRONG ''pPThreadName'') t
      | Some n \<Rightarrow>
          if MAX_PTHREADNAMELENGTH - 1 < length n then thread_fails THREADLIB_PTHREAD_SETPTHREADNAME_FAILED t
          else (NoError, t\<lparr>pPThreadName := n\<rparr>))"

definition PosixThread_init ::
  "'a posix_thread_scheme \<Rightarrow> char list option \<Rightarrow> lib_error \<times> 'a posix_thread_scheme" where
  "PosixThread_init t name =
     (if stPThreadStatus t \<noteq> THREADLIB_BUILDED then thread_fails THREADLIB_OPERATIONNOTALLOWED t
      else if name = None then thread_fails (THREADLIB_PARAMETER_WRONG ''pPThreadName'') t
      else case setPThreadName t name of
             (NoError, t') \<Rightarrow> (NoError, t'\<lparr>stPThreadStatus := THREADLIB_INITIALIZED\<rparr>)
           | (_, t') \<Rightarrow> thread_fails THREADLIB_PTHREAD_SETPTHREADNAME_FAILED t')"

definition PosixThread_finish :: "'a posix_thread_scheme \<Rightarrow> lib_error \<times> 'a posix_thread_scheme" where
  "PosixThread_finish t =
     (if stPThreadStatus t \<notin> {THREADLIB_INITIALIZED, THREADLIB_INITIALIZEDAGAINAFTERRUNNING, THREADLIB_DETACHED}
      then thread_fails THREADLIB_OPERATIONNOTALLOWED t
      else (NoError, t\<lparr>stPThreadStatus := THREADLIB_BUILDED\<rparr>))"

definition PosixThread_start ::
  "'a posix_thread_scheme \<Rightarrow> bool \<Rightarrow> bool \<Rightarrow> lib_error \<times> 'a posix_thread_scheme" where
  "PosixThread_start t bToBeDetached created =
     (if stPThreadStatus t \<notin> {THREADLIB_INITIALIZED, THREADLIB_INITIALIZEDAGAINAFTERRUNNING}
      then thread_fails THREADLIB_OPERATIONNOTALLOWED t
      else (let t1 = t\<lparr>erThreadReturn := NoError,
                      stPThreadStatus := (if bToBeDetached then THREADLIB_DETACHED else THREADLIB_STARTED)\<rparr>
            in if created then (NoError, t1)
               else thread_fails THREADLIB_CREATE_FAILED (t1\<lparr>stPThreadStatus := THREADLIB_INITIALIZED\<rparr>)))"

text \<open>
  The end of \<open>runFunction\<close>, after \<open>run\<close> returned \<open>e\<close>; a detached object finishes and deletes itself
  (\<open>None\<close>).
\<close>

definition runFunction_end :: "'a posix_thread_scheme \<Rightarrow> lib_error \<Rightarrow> 'a posix_thread_scheme option" where
  "runFunction_end t e =
     (let t1 = t\<lparr>erThreadReturn := e\<rparr>
      in if stPThreadStatus t1 = THREADLIB_DETACHED then None
         else Some (t1\<lparr>stPThreadStatus := THREADLIB_INITIALIZEDAGAINAFTERRUNNING\<rparr>))"

definition PosixThread_detach :: "'a posix_thread_scheme \<Rightarrow> lib_error \<times> 'a posix_thread_scheme" where
  "PosixThread_detach t =
     (if stPThreadStatus t \<noteq> THREADLIB_STARTED then thread_fails THREADLIB_OPERATIONNOTALLOWED t
      else (NoError, t\<lparr>stPThreadStatus := THREADLIB_DETACHED\<rparr>))"

text \<open>\<open>join\<close> up to \<open>pthread_join\<close>, and what it returns when that ends: the join error and the thread's.\<close>

definition PosixThread_join_begin :: "'a posix_thread_scheme \<Rightarrow> lib_error + 'a posix_thread_scheme" where
  "PosixThread_join_begin t =
     (if stPThreadStatus t \<noteq> THREADLIB_STARTED then Inl (PThreadErrors THREADLIB_OPERATIONNOTALLOWED)
      else Inr (t\<lparr>stPThreadStatus := THREADLIB_STARTED_AND_JOINED\<rparr>))"

definition PosixThread_join_end ::
  "'a posix_thread_scheme \<Rightarrow> bool \<Rightarrow> lib_error \<times> lib_error \<times> 'a posix_thread_scheme" where
  "PosixThread_join_end t joined =
     (if joined then (NoError, erThreadReturn t, t)
      else (PThreadErrors THREADLIB_JOIN_FAILED, erThreadReturn t, t\<lparr>stPThreadStatus := THREADLIB_STARTED\<rparr>))"

definition PosixThread_cancel :: "'a posix_thread_scheme \<Rightarrow> lib_error \<times> 'a posix_thread_scheme" where
  "PosixThread_cancel t =
     (if stPThreadStatus t \<noteq> THREADLIB_STARTED then thread_fails THREADLIB_OPERATIONNOTALLOWED t
      else (NoError, t))"

lemma thread_fails_simps [simp]:
  "fst (thread_fails e t) = PThreadErrors e" "stPThreadStatus (snd (thread_fails e t)) = stPThreadStatus t"
  by (simp_all add: thread_fails_def)

end
