(* ===== verification/Scheduler.thy ===== *)
theory Scheduler
  imports Times PosixThread
begin

text \<open>
  The class \<open>Scheduler\<close> of \<open>Scheduler/src/Scheduler.cpp\<close>, which derives from \<open>PosixThread\<close>. The
  objects it drives live in a store \<open>timesAt\<close>; \<open>_pTimesList\<close> is an array of their addresses, whose
  cells are \<open>None\<close> until they are written. An access outside the array, to such a cell or to an
  object that was deleted makes the operation \<open>None\<close>. \<open>handleTimeOut\<close> is the user's code, a
  function on the whole state and on the state \<open>'w\<close> of the user; a call that locks the (recursive)
  mutex in the same thread only counts.
\<close>

datatype scheduler_status = SCHEDULER_BUILDED | SCHEDULER_INITIALIZED | SCHEDULER_STARTED | SCHEDULER_SUSPENDED

type_synonym address = nat

record scheduler = posix_thread +
  mtSchedulerMutex :: mutex
  schedulerStatus :: scheduler_status
  ulThreadSleepInMilliSecs :: nat
  ulTimesPointerToAllocOnOverflow :: nat
  ulAllocatedTimesPointerNumber :: nat
  pTimesList :: "address option list"
  ulTimesPointerNumber :: nat
  timesAt :: "address \<Rightarrow> times option"

type_synonym 'w handler = "address \<Rightarrow> 'w \<Rightarrow> scheduler \<Rightarrow> (lib_error \<times> 'w \<times> scheduler) option"

section \<open>The mutex\<close>

definition Scheduler_lock :: "scheduler \<Rightarrow> lib_error \<times> scheduler" where
  "Scheduler_lock s =
     (case PMutex_lock (mtSchedulerMutex s) of
        (NoError, m) \<Rightarrow> (NoError, s\<lparr>mtSchedulerMutex := m\<rparr>)
      | _ \<Rightarrow> (PThreadErrors THREADLIB_PMUTEX_LOCK_FAILED, s))"

text \<open>Unlock and return \<open>e\<close>; a failing \<open>unLock\<close> is reported when there is no other error.\<close>

definition Scheduler_release :: "lib_error \<Rightarrow> scheduler \<Rightarrow> lib_error \<times> scheduler" where
  "Scheduler_release e s =
     (case PMutex_unLock (mtSchedulerMutex s) of
        (NoError, m) \<Rightarrow> (e, s\<lparr>mtSchedulerMutex := m\<rparr>)
      | _ \<Rightarrow> (if e = NoError then PThreadErrors THREADLIB_PMUTEX_UNLOCK_FAILED else e, s))"

section \<open>Life cycle\<close>

definition Scheduler_ctor :: "scheduler \<Rightarrow> scheduler" where
  "Scheduler_ctor junk = (PosixThread_ctor junk)\<lparr>schedulerStatus := SCHEDULER_BUILDED\<rparr>"

definition Scheduler_init :: "scheduler \<Rightarrow> nat \<Rightarrow> nat \<Rightarrow> lib_error \<times> scheduler" where
  "Scheduler_init s sleep alloc =
     (if schedulerStatus s \<noteq> SCHEDULER_BUILDED then (SchedulerErrors SCH_OPERATION_NOTALLOWED, s)
      else if alloc < 1 then (SchedulerErrors SCH_ACTIVATION_WRONG, s)
      else case PosixThread_init s (Some []) of
             (NoError, s1) \<Rightarrow>
               (case PMutex_init (mtSchedulerMutex s1) of
                  (NoError, m) \<Rightarrow>
                    (NoError, s1\<lparr>mtSchedulerMutex := m, ulThreadSleepInMilliSecs := sleep,
                       ulTimesPointerToAllocOnOverflow := alloc, ulAllocatedTimesPointerNumber := alloc,
                       ulTimesPointerNumber := 0, pTimesList := replicate alloc None,
                       schedulerStatus := SCHEDULER_INITIALIZED\<rparr>)
                | _ \<Rightarrow> (PThreadErrors THREADLIB_PMUTEX_INIT_FAILED, snd (PosixThread_finish s1)))
           | (_, s1) \<Rightarrow> (PThreadErrors THREADLIB_PTHREAD_INIT_FAILED, s1))"

text \<open>Finish and delete the first \<open>n\<close> objects of the array.\<close>

fun destroy_times :: "address option list \<Rightarrow> nat \<Rightarrow> (address \<Rightarrow> times option) \<Rightarrow> (address \<Rightarrow> times option) option" where
  "destroy_times cells 0 h = Some h"
| "destroy_times (Some p # cells) (Suc n) h =
     (case h p of None \<Rightarrow> None | Some ti \<Rightarrow> destroy_times cells n (h(p := None)))"
| "destroy_times _ (Suc n) h = None"

definition Scheduler_finish :: "scheduler \<Rightarrow> bool \<Rightarrow> (lib_error \<times> scheduler) option" where
  "Scheduler_finish s bDestroyTimes =
     (if schedulerStatus s \<noteq> SCHEDULER_INITIALIZED then Some (SchedulerErrors SCH_OPERATION_NOTALLOWED, s)
      else do {
        s1 \<leftarrow> (if bDestroyTimes
               then do {
                 let s0 = snd (Scheduler_lock s);
                 h \<leftarrow> destroy_times (pTimesList s0) (ulTimesPointerNumber s0) (timesAt s0);
                 Some (snd (Scheduler_release NoError (s0\<lparr>timesAt := h\<rparr>)))
               }
               else Some s);
        let s2 = s1\<lparr>pTimesList := [], mtSchedulerMutex := snd (PMutex_finish (mtSchedulerMutex s1))\<rparr>;
        Some (NoError, (snd (PosixThread_finish s2))\<lparr>schedulerStatus := SCHEDULER_BUILDED\<rparr>)
      })"

text \<open>The calls that change the status: the states they are allowed in and the state they lead to.\<close>

definition change_status :: "scheduler \<Rightarrow> scheduler_status set \<Rightarrow> scheduler_status \<Rightarrow> lib_error \<times> scheduler" where
  "change_status s allowed new =
     (case Scheduler_lock s of
        (NoError, s1) \<Rightarrow>
          if schedulerStatus s1 \<notin> allowed then Scheduler_release (SchedulerErrors SCH_OPERATION_NOTALLOWED) s1
          else Scheduler_release NoError (s1\<lparr>schedulerStatus := new\<rparr>)
      | (e, s1) \<Rightarrow> (e, s1))"

definition Scheduler_start :: "scheduler \<Rightarrow> bool \<Rightarrow> lib_error \<times> scheduler" where
  "Scheduler_start s created =
     (case change_status s {SCHEDULER_INITIALIZED} SCHEDULER_STARTED of
        (NoError, s1) \<Rightarrow> PosixThread_start s1 False created
      | (e, s1) \<Rightarrow> (e, s1))"

definition Scheduler_suspend :: "scheduler \<Rightarrow> lib_error \<times> scheduler" where
  "Scheduler_suspend s = change_status s {SCHEDULER_STARTED} SCHEDULER_SUSPENDED"

definition Scheduler_resume :: "scheduler \<Rightarrow> lib_error \<times> scheduler" where
  "Scheduler_resume s = change_status s {SCHEDULER_SUSPENDED} SCHEDULER_STARTED"

definition Scheduler_cancel :: "scheduler \<Rightarrow> lib_error \<times> scheduler" where
  "Scheduler_cancel s = change_status s {SCHEDULER_STARTED, SCHEDULER_SUSPENDED} SCHEDULER_INITIALIZED"

section \<open>The list of objects\<close>

text \<open>The loop of \<open>getTimesPointerIndex\<close>: the index of the address, or the number of cells searched.\<close>

fun times_index :: "address option list \<Rightarrow> nat \<Rightarrow> address \<Rightarrow> nat option" where
  "times_index cells 0 p = Some 0"
| "times_index (Some q # cells) (Suc n) p = (if q = p then Some 0 else map_option Suc (times_index cells n p))"
| "times_index _ (Suc n) p = None"

definition getTimesPointerIndex :: "scheduler \<Rightarrow> address option \<Rightarrow> (lib_error + nat) option" where
  "getTimesPointerIndex s pTimes =
     (if schedulerStatus s = SCHEDULER_BUILDED then Some (Inl (SchedulerErrors SCH_OPERATION_NOTALLOWED))
      else case pTimes of
             None \<Rightarrow> Some (Inl (SchedulerErrors SCH_ACTIVATION_WRONG))
           | Some p \<Rightarrow>
               map_option (\<lambda>i. if i = ulTimesPointerNumber s then Inl (SchedulerErrors SCH_TIMES_NOTFOUND) else Inr i)
                 (times_index (pTimesList s) (ulTimesPointerNumber s) p))"

text \<open>A larger array with the same first \<open>n\<close> cells.\<close>

definition grow_list :: "scheduler \<Rightarrow> scheduler" where
  "grow_list s =
     (let size = ulAllocatedTimesPointerNumber s + ulTimesPointerToAllocOnOverflow s; n = ulTimesPointerNumber s
      in s\<lparr>ulAllocatedTimesPointerNumber := size,
           pTimesList := take n (pTimesList s) @ replicate (size - n) None\<rparr>)"

definition activeTimes :: "scheduler \<Rightarrow> address option \<Rightarrow> (lib_error \<times> scheduler) option" where
  "activeTimes s pTimes =
     (case Scheduler_lock s of
        (NoError, s1) \<Rightarrow>
          if schedulerStatus s1 = SCHEDULER_BUILDED
          then Some (Scheduler_release (SchedulerErrors SCH_OPERATION_NOTALLOWED) s1)
          else (case pTimes of
                  None \<Rightarrow> Some (Scheduler_release (SchedulerErrors SCH_ACTIVATION_WRONG) s1)
                | Some p \<Rightarrow>
                    (case getTimesPointerIndex s1 pTimes of
                       None \<Rightarrow> None
                     | Some (Inr _) \<Rightarrow> Some (Scheduler_release (SchedulerErrors SCH_SCHEDULER_TIMESALREADYACTIVE) s1)
                     | Some (Inl _) \<Rightarrow>
                         (let s2 = (if ulTimesPointerNumber s1 = ulAllocatedTimesPointerNumber s1
                                    then grow_list s1 else s1);
                              n = ulTimesPointerNumber s2
                          in if length (pTimesList s2) \<le> n then None
                             else Some (Scheduler_release NoError
                                    (s2\<lparr>pTimesList := (pTimesList s2)[n := Some p],
                                        ulTimesPointerNumber := n + 1\<rparr>)))))
      | (e, s1) \<Rightarrow> Some (e, s1))"

text \<open>The loop of \<open>deactiveTimes\<close>: \<open>k\<close> cells behind \<open>i\<close> move one down.\<close>

fun shift_cells :: "nat \<Rightarrow> nat \<Rightarrow> address option list \<Rightarrow> address option list" where
  "shift_cells 0 i cells = cells"
| "shift_cells (Suc k) i cells = shift_cells k (i + 1) (cells[i := cells ! (i + 1)])"

text \<open>The wrong index is answered before the mutex is locked, but with an \<open>unLock\<close>.\<close>

definition deactiveTimes_index :: "scheduler \<Rightarrow> int \<Rightarrow> (lib_error \<times> scheduler) option" where
  "deactiveTimes_index s i =
     (if i < 0 \<or> i \<ge> int (ulTimesPointerNumber s)
      then Some (Scheduler_release (SchedulerErrors SCH_ACTIVATION_WRONG) s)
      else case Scheduler_lock s of
             (NoError, s1) \<Rightarrow>
               if schedulerStatus s1 = SCHEDULER_BUILDED
               then Some (Scheduler_release (SchedulerErrors SCH_OPERATION_NOTALLOWED) s1)
               else if length (pTimesList s1) < ulTimesPointerNumber s1 then None
               else Some (Scheduler_release NoError
                      (s1\<lparr>pTimesList := shift_cells (ulTimesPointerNumber s1 - (nat i + 1)) (nat i) (pTimesList s1),
                          ulTimesPointerNumber := ulTimesPointerNumber s1 - 1\<rparr>))
           | (e, s1) \<Rightarrow> Some (e, s1))"

definition deactiveTimes :: "scheduler \<Rightarrow> address option \<Rightarrow> (lib_error \<times> scheduler) option" where
  "deactiveTimes s pTimes =
     (if pTimes = None then Some (Scheduler_release (SchedulerErrors SCH_ACTIVATION_WRONG) s)
      else case Scheduler_lock s of
             (NoError, s1) \<Rightarrow>
               if schedulerStatus s1 = SCHEDULER_BUILDED
               then Some (Scheduler_release (SchedulerErrors SCH_OPERATION_NOTALLOWED) s1)
               else (case getTimesPointerIndex s1 pTimes of
                       None \<Rightarrow> None
                     | Some (Inl _) \<Rightarrow>
                         Some (Scheduler_release (SchedulerErrors SCH_SCHEDULER_GETTIMESPOINTERINDEX_FAILED) s1)
                     | Some (Inr i) \<Rightarrow>
                         (case deactiveTimes_index s1 (int i) of
                            None \<Rightarrow> None
                          | Some (NoError, s2) \<Rightarrow> Some (Scheduler_release NoError s2)
                          | Some (_, s2) \<Rightarrow>
                              Some (Scheduler_release (SchedulerErrors SCH_SCHEDULER_DEACTIVETIMES_FAILED) s2)))
           | (e, s1) \<Rightarrow> Some (e, s1))"

definition getTimesNumber :: "scheduler \<Rightarrow> bool \<Rightarrow> lib_error \<times> nat option \<times> scheduler" where
  "getTimesNumber s nonnull =
     (case Scheduler_lock s of
        (NoError, s1) \<Rightarrow>
          (if schedulerStatus s1 = SCHEDULER_BUILDED
           then (case Scheduler_release (SchedulerErrors SCH_OPERATION_NOTALLOWED) s1 of (e, s2) \<Rightarrow> (e, None, s2))
           else if \<not> nonnull
           then (case Scheduler_release (SchedulerErrors SCH_ACTIVATION_WRONG) s1 of (e, s2) \<Rightarrow> (e, None, s2))
           else (case Scheduler_release NoError s1 of (e, s2) \<Rightarrow> (e, Some (ulTimesPointerNumber s1), s2)))
      | (e, s1) \<Rightarrow> (e, None, s1))"

definition getTimes :: "scheduler \<Rightarrow> nat \<Rightarrow> bool \<Rightarrow> (lib_error \<times> address option \<times> scheduler) option" where
  "getTimes s i nonnull =
     (case Scheduler_lock s of
        (NoError, s1) \<Rightarrow>
          (if schedulerStatus s1 = SCHEDULER_BUILDED
           then (case Scheduler_release (SchedulerErrors SCH_OPERATION_NOTALLOWED) s1 of (e, s2) \<Rightarrow> Some (e, None, s2))
           else if ulTimesPointerNumber s1 \<le> i \<or> \<not> nonnull
           then (case Scheduler_release (SchedulerErrors SCH_ACTIVATION_WRONG) s1 of (e, s2) \<Rightarrow> Some (e, None, s2))
           else if length (pTimesList s1) \<le> i \<or> pTimesList s1 ! i = None then None
           else (case Scheduler_release NoError s1 of (e, s2) \<Rightarrow> Some (e, pTimesList s1 ! i, s2)))
      | (e, s1) \<Rightarrow> Some (e, None, s1))"

definition getSchedulerStatus :: "scheduler \<Rightarrow> lib_error \<times> scheduler_status option \<times> scheduler" where
  "getSchedulerStatus s =
     (case Scheduler_lock s of
        (NoError, s1) \<Rightarrow> (case Scheduler_release NoError s1 of (e, s2) \<Rightarrow> (e, Some (schedulerStatus s1), s2))
      | (e, s1) \<Rightarrow> (e, None, s1))"

section \<open>The scan\<close>

text \<open>Either \<open>handleTimes\<close> returns from inside the loop, or the loop goes on; the flag says that the
  object at the index was deactivated.\<close>

type_synonym 'w visit = "(lib_error \<times> 'w \<times> scheduler) + (bool \<times> 'w \<times> scheduler)"

definition leave :: "scheduler_error \<Rightarrow> 'w \<Rightarrow> scheduler \<Rightarrow> 'w visit" where
  "leave e w s = (case Scheduler_release (SchedulerErrors e) s of (e', s') \<Rightarrow> Inl (e', w, s'))"

definition set_times :: "scheduler \<Rightarrow> address \<Rightarrow> times \<Rightarrow> scheduler" where
  "set_times s p ti = s\<lparr>timesAt := (timesAt s)(p := Some ti)\<rparr>"

text \<open>Deactivate the object at the index and continue with \<open>f\<close>.\<close>

definition drop_index :: "scheduler \<Rightarrow> nat \<Rightarrow> 'w \<Rightarrow> (scheduler \<Rightarrow> 'w visit option) \<Rightarrow> 'w visit option" where
  "drop_index s i w f =
     (case deactiveTimes_index s (int i) of
        None \<Rightarrow> None
      | Some (NoError, s') \<Rightarrow> f s'
      | Some (_, s') \<Rightarrow> Some (leave SCH_SCHEDULER_DEACTIVETIMES_FAILED w s'))"

text \<open>An object whose \<open>handleTimeOut\<close> fails is deactivated, unless it was already.\<close>

definition call_handleTimeOut ::
  "'w handler \<Rightarrow> nat \<Rightarrow> address \<Rightarrow> bool \<Rightarrow> 'w \<Rightarrow> scheduler \<Rightarrow> 'w visit option" where
  "call_handleTimeOut handler i p bIsTimesDeactived w s =
     (if timesAt s p = None then None
      else case handler p w s of
             None \<Rightarrow> None
           | Some (e, w', s') \<Rightarrow>
               if e \<noteq> NoError \<and> \<not> bIsTimesDeactived then drop_index s' i w' (\<lambda>s''. Some (Inr (True, w', s'')))
               else Some (Inr (bIsTimesDeactived, w', s')))"

definition visit_expired :: "zone \<Rightarrow> 'w handler \<Rightarrow> nat \<Rightarrow> address \<Rightarrow> times \<Rightarrow> 'w \<Rightarrow> scheduler \<Rightarrow> 'w visit option" where
  "visit_expired z handler i p ti w s =
     (case Times_updateNextExpirationDateTime z ti of
        None \<Rightarrow> None
      | Some (e, ti') \<Rightarrow>
          (let s' = set_times s p ti'
           in if e = NoError then call_handleTimeOut handler i p False w s'
              else if e = SchedulerErrors SCH_REACHED_LASTTIMEOUT
              then drop_index s' i w (call_handleTimeOut handler i p True w)
              else Some (leave SCH_TIMES_UPDATENEXTEXPIRATIONDATETIME_FAILED w s')))"

definition visit_started ::
  "zone \<Rightarrow> timeofday option \<Rightarrow> 'w handler \<Rightarrow> nat \<Rightarrow> address \<Rightarrow> times \<Rightarrow> 'w \<Rightarrow> scheduler \<Rightarrow> 'w visit option" where
  "visit_started z now handler i p ti w s =
     (case Times_isExpiredTime z now ti True of
        None \<Rightarrow> None
      | Some (e, bIsExpired, ti') \<Rightarrow>
          (let s' = set_times s p ti'
           in if e \<noteq> NoError then Some (leave SCH_TIMES_ISEXPIREDTIME_FAILED w s')
              else if bIsExpired = Some True then visit_expired z handler i p ti' w s'
              else Some (Inr (False, w, s'))))"

definition visit_times ::
  "zone \<Rightarrow> timeofday option \<Rightarrow> 'w handler \<Rightarrow> nat \<Rightarrow> 'w \<Rightarrow> scheduler \<Rightarrow> 'w visit option" where
  "visit_times z now handler i w s =
     (if length (pTimesList s) \<le> i then None
      else case pTimesList s ! i of
             None \<Rightarrow> None
           | Some p \<Rightarrow>
               (case timesAt s p of
                  None \<Rightarrow> None
                | Some ti \<Rightarrow>
                    (case Times_isStarted ti True of
                       None \<Rightarrow> None
                     | Some (e, bIsStarted, ti') \<Rightarrow>
                         (let s' = set_times s p ti'
                          in if e \<noteq> NoError then Some (leave SCH_TIMES_ISSTARTED_FAILED w s')
                             else if bIsStarted = Some True then visit_started z now handler i p ti' w s'
                             else Some (Inr (False, w, s'))))))"

text \<open>The clock is read once in each visit; \<open>k\<close> counts the visits. A scan need not end when the
  user's code adds objects.\<close>

partial_function (option) handle_loop ::
  "zone \<Rightarrow> (nat \<Rightarrow> timeofday option) \<Rightarrow> 'w handler \<Rightarrow> nat \<Rightarrow> nat \<Rightarrow> 'w \<Rightarrow> scheduler \<Rightarrow>
   (lib_error \<times> 'w \<times> scheduler) option" where
  "handle_loop z clock handler k i w s =
     (if i < ulTimesPointerNumber s
      then (case visit_times z (clock k) handler i w s of
              None \<Rightarrow> None
            | Some (Inl r) \<Rightarrow> Some r
            | Some (Inr v) \<Rightarrow>
                handle_loop z clock handler (k + 1) (if fst v then i else i + 1) (fst (snd v)) (snd (snd v)))
      else Some (case Scheduler_release NoError s of (e, s') \<Rightarrow> (e, w, s')))"

definition handleTimes ::
  "zone \<Rightarrow> (nat \<Rightarrow> timeofday option) \<Rightarrow> 'w handler \<Rightarrow> 'w \<Rightarrow> scheduler \<Rightarrow> (lib_error \<times> 'w \<times> scheduler) option" where
  "handleTimes z clock handler w s =
     (case Scheduler_lock s of
        (NoError, s1) \<Rightarrow> handle_loop z clock handler 0 0 w s1
      | (e, s1) \<Rightarrow> Some (e, w, s1))"

section \<open>The thread\<close>

text \<open>What \<open>run\<close> does between two sleeps: it reads the status under the mutex, and then scans, only sleeps
  or returns (\<open>Inl\<close>) the error that it also leaves in the thread.\<close>

definition run_returns :: "lib_error \<Rightarrow> 'w \<Rightarrow> scheduler \<Rightarrow> (lib_error \<times> 'w \<times> scheduler) + ('w \<times> scheduler)" where
  "run_returns e w s = Inl (e, w, s\<lparr>erThreadReturn := e\<rparr>)"

definition run_round ::
  "zone \<Rightarrow> (nat \<Rightarrow> timeofday option) \<Rightarrow> 'w handler \<Rightarrow> 'w \<Rightarrow> scheduler \<Rightarrow>
   ((lib_error \<times> 'w \<times> scheduler) + ('w \<times> scheduler)) option" where
  "run_round z clock handler w s =
     (case getSchedulerStatus s of
        (NoError, Some st, s1) \<Rightarrow>
          if st = SCHEDULER_STARTED
          then (case handleTimes z clock handler w s1 of
                  None \<Rightarrow> None
                | Some (NoError, w', s2) \<Rightarrow> Some (Inr (w', s2))
                | Some (_, w', s2) \<Rightarrow> Some (run_returns (SchedulerErrors SCH_SCHEDULER_HANDLETIMES_FAILED) w' s2))
          else if st = SCHEDULER_SUSPENDED then Some (Inr (w, s1))
          else Some (Inl (erThreadReturn s1, w, s1))
      | (e, _, s1) \<Rightarrow> Some (run_returns e w s1))"

text \<open>The sleep between two rounds, in seconds and microseconds.\<close>

definition run_sleep :: "scheduler \<Rightarrow> nat \<times> nat" where
  "run_sleep s =
     (let secs = ulThreadSleepInMilliSecs s div 1000
      in (secs, (ulThreadSleepInMilliSecs s - secs * 1000) * 1000))"

end
