(* ===== verification/SchedulerSpec.thy ===== *)
theory SchedulerSpec
  imports Scheduler Simulation
begin

text \<open>
  The library behind the properties of \<open>Scheduler\<close>: the list of active objects that the array of
  pointers stands for, what every operation does to it, and a specification of the public calls on
  that list, which the scheduler simulates.
\<close>

section \<open>The list and its invariant\<close>

definition actives :: "scheduler \<Rightarrow> address list" where
  "actives s = map the (take (ulTimesPointerNumber s) (pTimesList s))"

definition sched_wf :: "scheduler \<Rightarrow> bool" where
  "sched_wf s \<longleftrightarrow>
     ulTimesPointerNumber s \<le> ulAllocatedTimesPointerNumber s \<and>
     length (pTimesList s) = ulAllocatedTimesPointerNumber s \<and>
     1 \<le> ulTimesPointerToAllocOnOverflow s \<and>
     take (ulTimesPointerNumber s) (pTimesList s) = map Some (actives s) \<and>
     distinct (actives s)"

text \<open>Only the array, its size and the number of objects may differ.\<close>

definition same_but_list :: "scheduler \<Rightarrow> scheduler \<Rightarrow> bool" where
  "same_but_list s s' \<longleftrightarrow>
     (\<exists>m cells n. s' = s\<lparr>ulAllocatedTimesPointerNumber := m, pTimesList := cells, ulTimesPointerNumber := n\<rparr>)"

lemma same_but_list_fields:
  assumes "same_but_list s s'"
  shows "mtSchedulerMutex s' = mtSchedulerMutex s" "schedulerStatus s' = schedulerStatus s"
    "timesAt s' = timesAt s" "stPThreadStatus s' = stPThreadStatus s"
    "ulTimesPointerToAllocOnOverflow s' = ulTimesPointerToAllocOnOverflow s"
  using assms by (auto simp: same_but_list_def)

lemma same_but_listI [simp]:
  "same_but_list s (s\<lparr>ulAllocatedTimesPointerNumber := m, pTimesList := cells, ulTimesPointerNumber := n\<rparr>)"
  unfolding same_but_list_def by blast

lemma sched_wf_length: "sched_wf s \<Longrightarrow> length (actives s) = ulTimesPointerNumber s"
  by (simp add: actives_def sched_wf_def)

lemma sched_wf_cell:
  assumes "sched_wf s" "i < length (actives s)"
  shows "i < length (pTimesList s)" "pTimesList s ! i = Some (actives s ! i)"
proof -
  have n: "i < ulTimesPointerNumber s" using assms sched_wf_length by simp
  then show "i < length (pTimesList s)" using assms(1) by (simp add: sched_wf_def)
  have "take (ulTimesPointerNumber s) (pTimesList s) ! i = map Some (actives s) ! i"
    using assms(1) by (simp add: sched_wf_def)
  then show "pTimesList s ! i = Some (actives s ! i)" using n assms(2) by simp
qed

text \<open>The list and the invariant only depend on the four fields.\<close>

lemma actives_cong:
  "ulTimesPointerNumber s' = ulTimesPointerNumber s \<Longrightarrow> pTimesList s' = pTimesList s \<Longrightarrow> actives s' = actives s"
  by (simp add: actives_def)

lemma actives_simps [simp]:
  "actives (s\<lparr>mtSchedulerMutex := m\<rparr>) = actives s" "actives (s\<lparr>schedulerStatus := st\<rparr>) = actives s"
  "actives (s\<lparr>timesAt := h\<rparr>) = actives s" "actives (s\<lparr>stPThreadStatus := th\<rparr>) = actives s"
  "actives (s\<lparr>erThreadReturn := e\<rparr>) = actives s" "actives (s\<lparr>pPThreadName := nm\<rparr>) = actives s"
  by (simp_all add: actives_def)

lemma sched_wf_simps [simp]:
  "sched_wf (s\<lparr>mtSchedulerMutex := m\<rparr>) = sched_wf s" "sched_wf (s\<lparr>schedulerStatus := st\<rparr>) = sched_wf s"
  "sched_wf (s\<lparr>timesAt := h\<rparr>) = sched_wf s" "sched_wf (s\<lparr>stPThreadStatus := th\<rparr>) = sched_wf s"
  "sched_wf (s\<lparr>erThreadReturn := e\<rparr>) = sched_wf s" "sched_wf (s\<lparr>pPThreadName := nm\<rparr>) = sched_wf s"
  by (simp_all add: sched_wf_def)

section \<open>The mutex\<close>

lemma Scheduler_lock_Some [simp]:
  "mtSchedulerMutex s = Some d \<Longrightarrow> Scheduler_lock s = (NoError, s\<lparr>mtSchedulerMutex := Some (Suc d)\<rparr>)"
  by (simp add: Scheduler_lock_def)

lemma Scheduler_release_Suc [simp]:
  "mtSchedulerMutex s = Some (Suc d) \<Longrightarrow> Scheduler_release e s = (e, s\<lparr>mtSchedulerMutex := Some d\<rparr>)"
  by (simp add: Scheduler_release_def)

lemma Scheduler_release_0 [simp]:
  "mtSchedulerMutex s = Some 0 \<Longrightarrow> e \<noteq> NoError \<Longrightarrow> Scheduler_release e s = (e, s)"
  "mtSchedulerMutex s = Some 0 \<Longrightarrow>
     Scheduler_release NoError s = (PThreadErrors THREADLIB_PMUTEX_UNLOCK_FAILED, s)"
  by (simp_all add: Scheduler_release_def PMutex_unLock_def)

lemma mutex_idle [simp]: "mtSchedulerMutex s = m \<Longrightarrow> s\<lparr>mtSchedulerMutex := m\<rparr> = s"
  by (cases s) simp

section \<open>Searching, adding and removing\<close>

definition position :: "'a \<Rightarrow> 'a list \<Rightarrow> nat" where
  "position x xs = length (takeWhile (\<lambda>y. y \<noteq> x) xs)"

lemma position_simps [simp]:
  "position x [] = 0" "position x (y # ys) = (if y = x then 0 else Suc (position x ys))"
  by (simp_all add: position_def)

lemma position_less_iff: "position x xs < length xs \<longleftrightarrow> x \<in> set xs"
  by (induction xs) auto

lemma position_eq_iff: "position x xs = length xs \<longleftrightarrow> x \<notin> set xs"
  by (induction xs) auto

lemma nth_position: "x \<in> set xs \<Longrightarrow> xs ! position x xs = x"
  by (induction xs) auto

lemma times_index_eq: "times_index (map Some xs @ cs) (length xs) p = Some (position p xs)"
  by (induction xs) simp_all

lemma wf_cells:
  assumes "sched_wf s"
  shows "pTimesList s = map Some (actives s) @ drop (ulTimesPointerNumber s) (pTimesList s)"
proof -
  have "take (ulTimesPointerNumber s) (pTimesList s) = map Some (actives s)"
    using assms by (simp add: sched_wf_def)
  then show ?thesis using append_take_drop_id [of "ulTimesPointerNumber s" "pTimesList s"] by simp
qed

lemma getTimesPointerIndex_wf:
  assumes "sched_wf s" "schedulerStatus s \<noteq> SCHEDULER_BUILDED"
  shows "getTimesPointerIndex s (Some p) =
    Some (if p \<in> set (actives s) then Inr (position p (actives s)) else Inl (SchedulerErrors SCH_TIMES_NOTFOUND))"
proof -
  have "times_index (pTimesList s) (ulTimesPointerNumber s) p = Some (position p (actives s))"
    using times_index_eq [of "actives s" "drop (ulTimesPointerNumber s) (pTimesList s)" p]
    by (simp only: wf_cells [OF assms(1), symmetric] sched_wf_length [OF assms(1)])
  then show ?thesis
    using assms(2) position_eq_iff [of p "actives s"]
    by (simp add: getTimesPointerIndex_def sched_wf_length [OF assms(1)])
qed

text \<open>Replacing the array by one that starts with the cells of \<open>xs\<close>.\<close>

lemma new_list:
  assumes "take (length xs) cells = map Some xs" "length cells = sz" "length xs \<le> sz" "distinct xs"
    and "1 \<le> ulTimesPointerToAllocOnOverflow s"
    and "s' = s\<lparr>ulAllocatedTimesPointerNumber := sz, pTimesList := cells, ulTimesPointerNumber := length xs\<rparr>"
  shows "sched_wf s' \<and> actives s' = xs \<and> same_but_list s s'"
  using assms by (auto simp: sched_wf_def actives_def same_but_list_def comp_def)

lemma grow_list_wf:
  assumes "sched_wf s"
  shows "sched_wf (grow_list s)" "actives (grow_list s) = actives s" "same_but_list s (grow_list s)"
    "ulTimesPointerNumber (grow_list s) = ulTimesPointerNumber s"
    "ulAllocatedTimesPointerNumber (grow_list s) =
       ulAllocatedTimesPointerNumber s + ulTimesPointerToAllocOnOverflow s"
proof -
  let ?size = "ulAllocatedTimesPointerNumber s + ulTimesPointerToAllocOnOverflow s"
  let ?n = "ulTimesPointerNumber s"
  have n: "length (actives s) = ?n" using sched_wf_length [OF assms] .
  have t: "take ?n (pTimesList s) = map Some (actives s)" using assms by (simp add: sched_wf_def)
  have "grow_list s = s\<lparr>ulAllocatedTimesPointerNumber := ?size,
      pTimesList := take ?n (pTimesList s) @ replicate (?size - ?n) None, ulTimesPointerNumber := length (actives s)\<rparr>"
    by (simp add: grow_list_def Let_def n)
  then have "sched_wf (grow_list s) \<and> actives (grow_list s) = actives s \<and> same_but_list s (grow_list s)"
    using assms n by (intro new_list) (simp_all add: t, simp_all add: sched_wf_def)
  then show "sched_wf (grow_list s)" "actives (grow_list s) = actives s" "same_but_list s (grow_list s)" by auto
qed (simp_all add: grow_list_def Let_def)

lemma append_cell:
  assumes "sched_wf s" "ulTimesPointerNumber s < ulAllocatedTimesPointerNumber s" "p \<notin> set (actives s)"
    and "s' = s\<lparr>pTimesList := (pTimesList s)[ulTimesPointerNumber s := Some p],
                ulTimesPointerNumber := ulTimesPointerNumber s + 1\<rparr>"
  shows "sched_wf s' \<and> actives s' = actives s @ [p] \<and> same_but_list s s'"
proof -
  let ?n = "ulTimesPointerNumber s"
  have n: "length (actives s) = ?n" using sched_wf_length [OF assms(1)] .
  have t: "take ?n (pTimesList s) = map Some (actives s)" and l: "?n < length (pTimesList s)"
    using assms(1,2) by (simp_all add: sched_wf_def)
  show ?thesis
  proof (rule new_list)
    show "take (length (actives s @ [p])) ((pTimesList s)[?n := Some p]) = map Some (actives s @ [p])"
      using l by (simp add: n t take_Suc_conv_app_nth)
    show "s' = s\<lparr>ulAllocatedTimesPointerNumber := ulAllocatedTimesPointerNumber s,
        pTimesList := (pTimesList s)[?n := Some p], ulTimesPointerNumber := length (actives s @ [p])\<rparr>"
      using assms(4) by (simp add: n)
  qed (use assms n in \<open>simp_all add: sched_wf_def\<close>)
qed

lemma length_shift_cells [simp]: "length (shift_cells k i cells) = length cells"
  by (induction k i cells rule: shift_cells.induct) simp_all

lemma shift_cells_eq:
  "i + k < length cells \<Longrightarrow>
     shift_cells k i cells = take i cells @ take k (drop (Suc i) cells) @ drop (i + k) cells"
proof (induction k i cells rule: shift_cells.induct)
  case (1 i cells)
  then show ?case by simp
next
  case (2 k i cells)
  have l: "Suc i < length cells" using "2.prems" by simp
  have u: "take (Suc k) (drop (Suc i) cells) = cells ! Suc i # take k (drop (Suc (Suc i)) cells)"
    using l by (simp add: Cons_nth_drop_Suc [symmetric])
  have "shift_cells (Suc k) i cells =
      take (i + 1) (cells[i := cells ! (i + 1)]) @ take k (drop (Suc (i + 1)) cells) @ drop (i + 1 + k) cells"
    using 2 by simp
  also have "take (i + 1) (cells[i := cells ! (i + 1)]) = take i cells @ [cells ! Suc i]"
    using l by (simp add: take_Suc_conv_app_nth)
  finally show ?case by (simp add: u)
qed

definition without :: "nat \<Rightarrow> 'a list \<Rightarrow> 'a list" where
  "without i xs = take i xs @ drop (Suc i) xs"

lemma without_length: "i < length xs \<Longrightarrow> length (without i xs) = length xs - 1"
  by (simp add: without_def)

lemma without_append [simp]: "without (length xs) (xs @ y # ys) = xs @ ys"
  by (simp add: without_def)

lemma without_distinct: "distinct xs \<Longrightarrow> distinct (without i xs)"
  using distinct_append [of "take i xs" "drop i xs"] set_drop_subset_set_drop [of i "Suc i" xs]
  by (auto simp: without_def)

lemma remove_cell:
  assumes "sched_wf s" "i < length (actives s)"
    and "s' = s\<lparr>pTimesList := shift_cells (ulTimesPointerNumber s - (i + 1)) i (pTimesList s),
                ulTimesPointerNumber := ulTimesPointerNumber s - 1\<rparr>"
  shows "sched_wf s' \<and> actives s' = without i (actives s) \<and> same_but_list s s'"
proof -
  let ?n = "ulTimesPointerNumber s" and ?c = "pTimesList s"
  have n: "length (actives s) = ?n" using sched_wf_length [OF assms(1)] .
  have t: "take ?n ?c = map Some (actives s)" and l: "?n \<le> length ?c"
    using assms(1) by (simp_all add: sched_wf_def)
  have i: "i < ?n" using assms(2) n by simp
  have c: "shift_cells (?n - (i + 1)) i ?c = take i ?c @ take (?n - (i + 1)) (drop (Suc i) ?c) @ drop (?n - 1) ?c"
    using i l by (simp add: shift_cells_eq)
  have "take (?n - 1) (shift_cells (?n - (i + 1)) i ?c) = take i (take ?n ?c) @ drop (Suc i) (take ?n ?c)"
  proof -
    obtain m where m: "?n = Suc (i + m)" using i less_imp_Suc_add by blast
    then have "min (length ?c) i = i" "min (length ?c - Suc i) m = m" using l by auto
    moreover have "shift_cells m i ?c = take i ?c @ take m (drop (Suc i) ?c) @ drop (i + m) ?c"
      using m l by (intro shift_cells_eq) simp
    ultimately show ?thesis by (simp add: m drop_take)
  qed
  then have first: "take (length (without i (actives s))) (shift_cells (?n - (i + 1)) i ?c) =
      map Some (without i (actives s))"
    using assms(2) by (simp add: t without_length n) (simp add: without_def take_map drop_map)
  show ?thesis
  proof (rule new_list [OF first])
    show "length (shift_cells (?n - (i + 1)) i ?c) = ulAllocatedTimesPointerNumber s"
      using assms(1) by (simp add: sched_wf_def)
    show "s' = s\<lparr>ulAllocatedTimesPointerNumber := ulAllocatedTimesPointerNumber s,
        pTimesList := shift_cells (?n - (i + 1)) i ?c, ulTimesPointerNumber := length (without i (actives s))\<rparr>"
      using assms(2,3) by (simp add: without_length n)
  qed (use assms n in \<open>simp_all add: sched_wf_def without_length without_distinct le_diff_conv trans_le_add1\<close>)
qed

section \<open>The operations\<close>

lemma relock:
  "same_but_list (s\<lparr>mtSchedulerMutex := m\<rparr>) s' \<Longrightarrow> mtSchedulerMutex s = d \<Longrightarrow> same_but_list s (s'\<lparr>mtSchedulerMutex := d\<rparr>)"
  by (cases s) (auto simp: same_but_list_def)

lemma same_but_list_refl [simp]: "same_but_list s s"
  by (cases s) (auto simp: same_but_list_def)

lemma same_but_list_trans: "same_but_list s s1 \<Longrightarrow> same_but_list s1 s2 \<Longrightarrow> same_but_list s s2"
  unfolding same_but_list_def [of s s1] same_but_list_def [of s1 s2] by (elim exE) simp

text \<open>An operation on a list object that holds the mutex \<open>d\<close> times already.\<close>

definition list_becomes :: "scheduler \<Rightarrow> address list \<Rightarrow> scheduler \<Rightarrow> bool" where
  "list_becomes s xs s' \<longleftrightarrow> sched_wf s' \<and> actives s' = xs \<and> same_but_list s s'"

lemma list_becomes_relock:
  "list_becomes (s\<lparr>mtSchedulerMutex := m\<rparr>) xs s' \<Longrightarrow> mtSchedulerMutex s = d \<Longrightarrow>
     list_becomes s xs (s'\<lparr>mtSchedulerMutex := d\<rparr>)"
  by (auto simp: list_becomes_def relock)

lemma list_becomes_mutex:
  "list_becomes (s\<lparr>mtSchedulerMutex := m\<rparr>) xs s' \<Longrightarrow> mtSchedulerMutex s' = m"
  by (auto simp: list_becomes_def dest: same_but_list_fields(1))

lemma activeTimes_new:
  assumes "sched_wf s" "mtSchedulerMutex s = Some d" "schedulerStatus s \<noteq> SCHEDULER_BUILDED"
    and "p \<notin> set (actives s)"
  shows "\<exists>s'. activeTimes s (Some p) = Some (NoError, s') \<and> list_becomes s (actives s @ [p]) s'"
proof -
  let ?s1 = "s\<lparr>mtSchedulerMutex := Some (Suc d)\<rparr>"
  define s2 where "s2 = (if ulTimesPointerNumber ?s1 = ulAllocatedTimesPointerNumber ?s1 then grow_list ?s1 else ?s1)"
  have w1: "sched_wf ?s1" using assms(1) by simp
  note g = grow_list_wf [OF w1]
  have s2: "sched_wf s2" "actives s2 = actives s" "same_but_list ?s1 s2"
    "ulTimesPointerNumber s2 < ulAllocatedTimesPointerNumber s2"
    using g w1 by (auto simp: s2_def sched_wf_def)
  define s3 where "s3 = s2\<lparr>pTimesList := (pTimesList s2)[ulTimesPointerNumber s2 := Some p],
      ulTimesPointerNumber := ulTimesPointerNumber s2 + 1\<rparr>"
  have "sched_wf s3 \<and> actives s3 = actives s2 @ [p] \<and> same_but_list s2 s3"
    using s2 assms(4) by (intro append_cell) (simp_all add: s3_def)
  then have s3: "list_becomes ?s1 (actives s @ [p]) s3"
    using s2 same_but_list_trans [OF s2(3)] by (simp add: list_becomes_def)
  have l: "ulTimesPointerNumber s2 < length (pTimesList s2)" using s2 by (simp add: sched_wf_def)
  have "activeTimes s (Some p) = Some (Scheduler_release NoError s3)"
    using assms getTimesPointerIndex_wf [OF w1] l
    by (simp add: activeTimes_def Let_def s3_def s2_def)
  then show ?thesis
    using list_becomes_mutex [OF s3] list_becomes_relock [OF s3 assms(2)] by auto
qed

lemma activeTimes_again:
  assumes "sched_wf s" "mtSchedulerMutex s = Some d" "schedulerStatus s \<noteq> SCHEDULER_BUILDED"
    and "p \<in> set (actives s)"
  shows "activeTimes s (Some p) = Some (SchedulerErrors SCH_SCHEDULER_TIMESALREADYACTIVE, s)"
  using assms getTimesPointerIndex_wf [of "s\<lparr>mtSchedulerMutex := Some (Suc d)\<rparr>" p]
  by (simp add: activeTimes_def)

lemma deactiveTimes_index_wf:
  assumes "sched_wf s" "mtSchedulerMutex s = Some d" "schedulerStatus s \<noteq> SCHEDULER_BUILDED"
    and "i < length (actives s)"
  shows "\<exists>s'. deactiveTimes_index s (int i) = Some (NoError, s') \<and> list_becomes s (without i (actives s)) s'"
proof -
  let ?s1 = "s\<lparr>mtSchedulerMutex := Some (Suc d)\<rparr>"
  have n: "i < ulTimesPointerNumber s" using assms(4) sched_wf_length [OF assms(1)] by simp
  define s2 where "s2 = ?s1\<lparr>pTimesList := shift_cells (ulTimesPointerNumber ?s1 - (i + 1)) i (pTimesList ?s1),
      ulTimesPointerNumber := ulTimesPointerNumber ?s1 - 1\<rparr>"
  have "sched_wf s2 \<and> actives s2 = without i (actives ?s1) \<and> same_but_list ?s1 s2"
    using assms by (intro remove_cell) (simp_all add: s2_def)
  then have s2: "list_becomes ?s1 (without i (actives s)) s2" by (simp add: list_becomes_def)
  have "deactiveTimes_index s (int i) = Some (Scheduler_release NoError s2)"
    using assms n by (simp add: deactiveTimes_index_def s2_def sched_wf_def)
  then show ?thesis
    using list_becomes_mutex [OF s2] list_becomes_relock [OF s2 assms(2)] by auto
qed

lemma deactiveTimes_wf:
  assumes "sched_wf s" "mtSchedulerMutex s = Some d" "schedulerStatus s \<noteq> SCHEDULER_BUILDED"
    and "p \<in> set (actives s)"
  shows "\<exists>s'. deactiveTimes s (Some p) = Some (NoError, s') \<and>
    list_becomes s (without (position p (actives s)) (actives s)) s'"
proof -
  let ?s1 = "s\<lparr>mtSchedulerMutex := Some (Suc d)\<rparr>"
  have i: "position p (actives s) < length (actives s)" using assms(4) by (simp add: position_less_iff)
  obtain s2 where s2: "deactiveTimes_index ?s1 (int (position p (actives s))) = Some (NoError, s2)"
      "list_becomes ?s1 (without (position p (actives s)) (actives s)) s2"
    using deactiveTimes_index_wf [of ?s1 "Suc d" "position p (actives s)"] assms(1,3) i by auto
  have "deactiveTimes s (Some p) = Some (Scheduler_release NoError s2)"
    using assms s2(1) getTimesPointerIndex_wf [of ?s1 p] by (simp add: deactiveTimes_def)
  then show ?thesis
    using list_becomes_mutex [OF s2(2)] list_becomes_relock [OF s2(2) assms(2)] by auto
qed

lemma deactiveTimes_absent:
  assumes "sched_wf s" "mtSchedulerMutex s = Some d" "schedulerStatus s \<noteq> SCHEDULER_BUILDED"
    and "p \<notin> set (actives s)"
  shows "deactiveTimes s (Some p) = Some (SchedulerErrors SCH_SCHEDULER_GETTIMESPOINTERINDEX_FAILED, s)"
  using assms getTimesPointerIndex_wf [of "s\<lparr>mtSchedulerMutex := Some (Suc d)\<rparr>" p]
  by (simp add: deactiveTimes_def)

text \<open>Without an object, and with a wrong index, the mutex is unlocked although nothing locked it: between two
  calls that fails and is harmless, but inside a handler it gives up a lock of the scan.\<close>

lemma deactiveTimes_None:
  "mtSchedulerMutex s = Some (Suc d) \<Longrightarrow>
     deactiveTimes s None = Some (SchedulerErrors SCH_ACTIVATION_WRONG, s\<lparr>mtSchedulerMutex := Some d\<rparr>)"
  "mtSchedulerMutex s = Some 0 \<Longrightarrow> deactiveTimes s None = Some (SchedulerErrors SCH_ACTIVATION_WRONG, s)"
  by (simp_all add: deactiveTimes_def)

lemma deactiveTimes_wrong_index:
  "mtSchedulerMutex s = Some 0 \<Longrightarrow> i < 0 \<or> i \<ge> int (ulTimesPointerNumber s) \<Longrightarrow>
     deactiveTimes_index s i = Some (SchedulerErrors SCH_ACTIVATION_WRONG, s)"
  by (auto simp: deactiveTimes_index_def)

end
