(* ===== verification/SchedulerRefine.thy ===== *)
theory SchedulerRefine
  imports SchedulerSpec
begin

text \<open>
  The public calls between \<open>init\<close> and \<open>finish\<close>, as a user makes them while no scan runs, and their
  specification on the status of the scheduler, the status of its thread and the list of active
  objects.
\<close>

datatype sched_call =
    ActiveTimes "address option"
  | DeactiveTimes "address option"
  | DeactiveTimesAt int
  | GetTimesNumber bool
  | GetTimes nat bool
  | GetTimesPointerIndex "address option"
  | StartScheduler bool
  | Suspend
  | Resume
  | CancelScheduler
  | GetSchedulerStatus

text \<open>What the caller sees: the error, and a number, an index or an address.\<close>

type_synonym answer = "lib_error \<times> nat option \<times> scheduler_status option"

fun sched_exec :: "sched_call \<Rightarrow> scheduler \<Rightarrow> (answer \<times> scheduler) option" where
  "sched_exec (ActiveTimes p) s = map_option (\<lambda>(e, s'). ((e, None, None), s')) (activeTimes s p)"
| "sched_exec (DeactiveTimes p) s = map_option (\<lambda>(e, s'). ((e, None, None), s')) (deactiveTimes s p)"
| "sched_exec (DeactiveTimesAt i) s = map_option (\<lambda>(e, s'). ((e, None, None), s')) (deactiveTimes_index s i)"
| "sched_exec (GetTimesNumber nn) s = (case getTimesNumber s nn of (e, n, s') \<Rightarrow> Some ((e, n, None), s'))"
| "sched_exec (GetTimes i nn) s = map_option (\<lambda>(e, p, s'). ((e, p, None), s')) (getTimes s i nn)"
| "sched_exec (GetTimesPointerIndex p) s =
     map_option (\<lambda>r. (case r of Inl e \<Rightarrow> (e, None, None) | Inr i \<Rightarrow> (NoError, Some i, None), s))
       (getTimesPointerIndex s p)"
| "sched_exec (StartScheduler created) s = (case Scheduler_start s created of (e, s') \<Rightarrow> Some ((e, None, None), s'))"
| "sched_exec Suspend s = (case Scheduler_suspend s of (e, s') \<Rightarrow> Some ((e, None, None), s'))"
| "sched_exec Resume s = (case Scheduler_resume s of (e, s') \<Rightarrow> Some ((e, None, None), s'))"
| "sched_exec CancelScheduler s = (case Scheduler_cancel s of (e, s') \<Rightarrow> Some ((e, None, None), s'))"
| "sched_exec GetSchedulerStatus s = (case getSchedulerStatus s of (e, st, s') \<Rightarrow> Some ((e, None, st), s'))"

type_synonym sched_abs = "scheduler_status \<times> thread_status \<times> address list"

definition answers :: "lib_error \<Rightarrow> sched_abs \<Rightarrow> answer \<times> sched_abs" where
  "answers e a = ((e, None, None), a)"

fun sched_spec :: "sched_call \<Rightarrow> sched_abs \<Rightarrow> answer \<times> sched_abs" where
  "sched_spec (ActiveTimes None) a = answers (SchedulerErrors SCH_ACTIVATION_WRONG) a"
| "sched_spec (ActiveTimes (Some p)) (st, th, xs) =
     (if p \<in> set xs then answers (SchedulerErrors SCH_SCHEDULER_TIMESALREADYACTIVE) (st, th, xs)
      else answers NoError (st, th, xs @ [p]))"
| "sched_spec (DeactiveTimes None) a = answers (SchedulerErrors SCH_ACTIVATION_WRONG) a"
| "sched_spec (DeactiveTimes (Some p)) (st, th, xs) =
     (if p \<in> set xs then answers NoError (st, th, without (position p xs) xs)
      else answers (SchedulerErrors SCH_SCHEDULER_GETTIMESPOINTERINDEX_FAILED) (st, th, xs))"
| "sched_spec (DeactiveTimesAt i) (st, th, xs) =
     (if 0 \<le> i \<and> i < int (length xs) then answers NoError (st, th, without (nat i) xs)
      else answers (SchedulerErrors SCH_ACTIVATION_WRONG) (st, th, xs))"
| "sched_spec (GetTimesNumber nn) (st, th, xs) =
     (if nn then ((NoError, Some (length xs), None), (st, th, xs))
      else answers (SchedulerErrors SCH_ACTIVATION_WRONG) (st, th, xs))"
| "sched_spec (GetTimes i nn) (st, th, xs) =
     (if nn \<and> i < length xs then ((NoError, Some (xs ! i), None), (st, th, xs))
      else answers (SchedulerErrors SCH_ACTIVATION_WRONG) (st, th, xs))"
| "sched_spec (GetTimesPointerIndex None) a = answers (SchedulerErrors SCH_ACTIVATION_WRONG) a"
| "sched_spec (GetTimesPointerIndex (Some p)) (st, th, xs) =
     (if p \<in> set xs then ((NoError, Some (position p xs), None), (st, th, xs))
      else answers (SchedulerErrors SCH_TIMES_NOTFOUND) (st, th, xs))"
| "sched_spec (StartScheduler created) (st, th, xs) =
     (if st \<noteq> SCHEDULER_INITIALIZED then answers (SchedulerErrors SCH_OPERATION_NOTALLOWED) (st, th, xs)
      else if th \<notin> {THREADLIB_INITIALIZED, THREADLIB_INITIALIZEDAGAINAFTERRUNNING}
      then answers (PThreadErrors THREADLIB_OPERATIONNOTALLOWED) (SCHEDULER_STARTED, th, xs)
      else if created then answers NoError (SCHEDULER_STARTED, THREADLIB_STARTED, xs)
      else answers (PThreadErrors THREADLIB_CREATE_FAILED) (SCHEDULER_STARTED, THREADLIB_INITIALIZED, xs))"
| "sched_spec Suspend (st, th, xs) =
     (if st = SCHEDULER_STARTED then answers NoError (SCHEDULER_SUSPENDED, th, xs)
      else answers (SchedulerErrors SCH_OPERATION_NOTALLOWED) (st, th, xs))"
| "sched_spec Resume (st, th, xs) =
     (if st = SCHEDULER_SUSPENDED then answers NoError (SCHEDULER_STARTED, th, xs)
      else answers (SchedulerErrors SCH_OPERATION_NOTALLOWED) (st, th, xs))"
| "sched_spec CancelScheduler (st, th, xs) =
     (if st \<in> {SCHEDULER_STARTED, SCHEDULER_SUSPENDED} then answers NoError (SCHEDULER_INITIALIZED, th, xs)
      else answers (SchedulerErrors SCH_OPERATION_NOTALLOWED) (st, th, xs))"
| "sched_spec GetSchedulerStatus (st, th, xs) = ((NoError, None, Some st), (st, th, xs))"

definition sched_rel :: "scheduler \<Rightarrow> sched_abs \<Rightarrow> bool" where
  "sched_rel s a \<longleftrightarrow>
     sched_wf s \<and> mtSchedulerMutex s = Some 0 \<and> schedulerStatus s \<noteq> SCHEDULER_BUILDED \<and>
     a = (schedulerStatus s, stPThreadStatus s, actives s)"

definition any_call :: "sched_call \<Rightarrow> sched_abs \<Rightarrow> bool" where
  "any_call c a = True"

lemma sched_relI:
  "sched_wf s \<Longrightarrow> mtSchedulerMutex s = Some 0 \<Longrightarrow> schedulerStatus s \<noteq> SCHEDULER_BUILDED \<Longrightarrow>
     sched_rel s (schedulerStatus s, stPThreadStatus s, actives s)"
  by (simp add: sched_rel_def)

lemma list_becomes_rel:
  "sched_rel s (st, th, xs) \<Longrightarrow> list_becomes s ys s' \<Longrightarrow> sched_rel s' (st, th, ys)"
  by (auto simp: sched_rel_def list_becomes_def dest: same_but_list_fields)

lemma sched_relD:
  assumes "sched_rel s (st, th, xs)"
  shows "sched_wf s" "mtSchedulerMutex s = Some 0" "schedulerStatus s \<noteq> SCHEDULER_BUILDED"
    "schedulerStatus s = st" "stPThreadStatus s = th" "actives s = xs" "ulTimesPointerNumber s = length xs"
  using assms sched_wf_length [of s] by (auto simp: sched_rel_def)

text \<open>The calls that change the list.\<close>

lemma sched_list_calls:
  assumes "sched_rel s a" "c \<in> {ActiveTimes p, DeactiveTimes p, DeactiveTimesAt i}"
  shows "\<exists>s'. sched_exec c s = Some (fst (sched_spec c a), s') \<and> sched_rel s' (snd (sched_spec c a))"
proof -
  obtain st th xs where a: "a = (st, th, xs)" by (cases a)
  note r = assms(1) [unfolded a] and d = sched_relD [OF assms(1) [unfolded a]]
  consider "c = ActiveTimes p" | "c = DeactiveTimes p" | "c = DeactiveTimesAt i" using assms(2) by blast
  then show ?thesis
  proof cases
    case 1
    show ?thesis
    proof (cases p)
      case None
      then show ?thesis using 1 r d by (simp add: a answers_def activeTimes_def)
    next
      case (Some q)
      then show ?thesis
        using 1 r d activeTimes_again [OF d(1-3), of q] activeTimes_new [OF d(1-3), of q]
        by (cases "q \<in> set xs") (auto simp: a answers_def intro: list_becomes_rel)
    qed
  next
    case 2
    show ?thesis
    proof (cases p)
      case None
      then show ?thesis using 2 r deactiveTimes_None(2) [OF d(2)] by (simp add: a answers_def)
    next
      case (Some q)
      then show ?thesis
        using 2 r d deactiveTimes_absent [OF d(1-3), of q] deactiveTimes_wf [OF d(1-3), of q]
        by (cases "q \<in> set xs") (auto simp: a answers_def intro: list_becomes_rel)
    qed
  next
    case 3
    show ?thesis
    proof (cases "0 \<le> i \<and> i < int (length xs)")
      case True
      then have n: "nat i < length (actives s)" "int (nat i) = i" using d(6) by auto
      show ?thesis
        using 3 True deactiveTimes_index_wf [OF d(1-3) n(1)] n(2) list_becomes_rel [OF r]
        by (auto simp: a answers_def d(6))
    next
      case False
      then show ?thesis
        using 3 r deactiveTimes_wrong_index [OF d(2), of i] d(7) by (auto simp: a answers_def)
    qed
  qed
qed

lemma change_status_idle:
  assumes "mtSchedulerMutex s = Some 0"
  shows "change_status s allowed new =
    (if schedulerStatus s \<in> allowed then (NoError, s\<lparr>schedulerStatus := new\<rparr>)
     else (SchedulerErrors SCH_OPERATION_NOTALLOWED, s))"
  using assms by (simp add: change_status_def)

text \<open>The calls that change a status, and those that change nothing.\<close>

lemma sched_status_calls:
  assumes "sched_rel s a" "c \<in> {StartScheduler created, Suspend, Resume, CancelScheduler}"
  shows "\<exists>s'. sched_exec c s = Some (fst (sched_spec c a), s') \<and> sched_rel s' (snd (sched_spec c a))"
proof -
  obtain st th xs where a: "a = (st, th, xs)" by (cases a)
  note d = sched_relD [OF assms(1) [unfolded a]]
  show ?thesis
    using assms(2) d
    by (auto simp: a answers_def sched_rel_def change_status_idle Scheduler_start_def Scheduler_suspend_def
        Scheduler_resume_def Scheduler_cancel_def PosixThread_start_def thread_fails_def Let_def)
qed

lemma sched_query_calls:
  assumes "sched_rel s a" "c \<in> {GetTimesNumber nn, GetTimes n nn, GetTimesPointerIndex p, GetSchedulerStatus}"
  shows "\<exists>s'. sched_exec c s = Some (fst (sched_spec c a), s') \<and> sched_rel s' (snd (sched_spec c a))"
proof -
  obtain st th xs where a: "a = (st, th, xs)" by (cases a)
  note d = sched_relD [OF assms(1) [unfolded a]]
  have cell: "n < length xs \<Longrightarrow> n < length (pTimesList s) \<and> pTimesList s ! n = Some (xs ! n)"
    using sched_wf_cell [OF d(1), of n] d(6) by simp
  have idx: "getTimesPointerIndex s (Some q) =
      Some (if q \<in> set xs then Inr (position q xs) else Inl (SchedulerErrors SCH_TIMES_NOTFOUND))" for q
    using getTimesPointerIndex_wf [OF d(1,3), of q] d(6) by simp
  consider "c = GetTimesNumber nn" | "c = GetTimes n nn" | "c = GetTimesPointerIndex p" | "c = GetSchedulerStatus"
    using assms(2) by blast
  then show ?thesis
  proof cases
    case 3
    then show ?thesis
      using assms(1) d idx by (cases p) (auto simp: a answers_def getTimesPointerIndex_def [of s None])
  qed (use assms(1) d cell in \<open>auto simp: a answers_def getTimesNumber_def getTimes_def getSchedulerStatus_def\<close>)
qed

interpretation sched: simulation sched_exec sched_spec sched_rel any_call
proof
  fix s a c assume "sched_rel s a"
  then show "\<exists>s'. sched_exec c s = Some (fst (sched_spec c a), s') \<and> sched_rel s' (snd (sched_spec c a))"
    using sched_list_calls [of s a c] sched_status_calls [of s a c] sched_query_calls [of s a c]
    by (cases c) simp_all
qed

lemma any_calls [simp]: "ops_ok any_call sched_spec cs a"
  by (induction cs arbitrary: a) (simp_all add: any_call_def)

lemma init_rel:
  assumes "Scheduler_init s0 sleep alloc = (NoError, s)"
  shows "sched_rel s (SCHEDULER_INITIALIZED, THREADLIB_INITIALIZED, [])" "timesAt s = timesAt s0"
  using assms
  by (auto simp: Scheduler_init_def sched_rel_def sched_wf_def actives_def PosixThread_init_def setPThreadName_def
      thread_fails_def PMutex_init_def split: if_splits option.splits)

end
