(* ===== verification/SchedulerScan.thy ===== *)
theory SchedulerScan
  imports SchedulerRefine TimesProps
begin

text \<open>
  The scan of \<open>handleTimes\<close> against what each object does by itself: whether it fires, and what it
  becomes.
\<close>

section \<open>The reaction of one object\<close>

datatype reaction = Idle | Fires bool

text \<open>The flag says that this was the last time-out. A failing call of the object has no reaction.\<close>

definition reaction :: "zone \<Rightarrow> timeofday option \<Rightarrow> times \<Rightarrow> (reaction \<times> times) option" where
  "reaction z now ti =
     (case Times_isStarted ti True of
        Some (NoError, Some started, t1) \<Rightarrow>
          if \<not> started then Some (Idle, t1)
          else (case Times_isExpiredTime z now t1 True of
                  Some (NoError, Some expired, t2) \<Rightarrow>
                    if \<not> expired then Some (Idle, t2)
                    else (case Times_updateNextExpirationDateTime z t2 of
                            Some (e, t3) \<Rightarrow>
                              if e = NoError then Some (Fires False, t3)
                              else if e = SchedulerErrors SCH_REACHED_LASTTIMEOUT then Some (Fires True, t3)
                              else None
                          | None \<Rightarrow> None)
                | _ \<Rightarrow> None)
      | _ \<Rightarrow> None)"

lemma reaction_cases:
  assumes "reaction z now ti = Some (r, ti')"
  obtains
    "Times_isStarted ti True = Some (NoError, Some False, ti')" "r = Idle"
  | t1 where "Times_isStarted ti True = Some (NoError, Some True, t1)"
      "Times_isExpiredTime z now t1 True = Some (NoError, Some False, ti')" "r = Idle"
  | t1 t2 where "Times_isStarted ti True = Some (NoError, Some True, t1)"
      "Times_isExpiredTime z now t1 True = Some (NoError, Some True, t2)"
      "Times_updateNextExpirationDateTime z t2 = Some (NoError, ti')" "r = Fires False"
  | t1 t2 where "Times_isStarted ti True = Some (NoError, Some True, t1)"
      "Times_isExpiredTime z now t1 True = Some (NoError, Some True, t2)"
      "Times_updateNextExpirationDateTime z t2 = Some (SchedulerErrors SCH_REACHED_LASTTIMEOUT, ti')" "r = Fires True"
  using assms by (auto simp: reaction_def split: option.splits prod.splits lib_error.splits if_splits bool.splits)

text \<open>An object that fires for the last time, or whose handler fails, leaves the list.\<close>

definition leaves :: "(address \<Rightarrow> lib_error) \<Rightarrow> address \<times> reaction \<times> times \<Rightarrow> bool" where
  "leaves herr v = (case v of (p, r, _) \<Rightarrow> r = Fires True \<or> r = Fires False \<and> herr p \<noteq> NoError)"

definition fired :: "(address \<times> reaction \<times> 'o) list \<Rightarrow> address list" where
  "fired vs = map fst (filter (\<lambda>(_, r, _). r \<noteq> Idle) vs)"

definition kept :: "(address \<Rightarrow> lib_error) \<Rightarrow> (address \<times> reaction \<times> times) list \<Rightarrow> address list" where
  "kept herr vs = map fst (filter (\<lambda>v. \<not> leaves herr v) vs)"

section \<open>One visit\<close>

text \<open>The state during a scan.\<close>

definition scanning :: "scheduler \<Rightarrow> address list \<Rightarrow> (address \<Rightarrow> times option) \<Rightarrow> bool" where
  "scanning s xs h \<longleftrightarrow>
     sched_wf s \<and> mtSchedulerMutex s = Some 1 \<and> schedulerStatus s \<noteq> SCHEDULER_BUILDED \<and>
     actives s = xs \<and> timesAt s = h"

lemma scanning_set_times: "scanning s xs h \<Longrightarrow> scanning (set_times s p ti) xs (h(p \<mapsto> ti))"
  by (simp add: scanning_def set_times_def)

lemma set_times_twice [simp]: "set_times (set_times s p ti) p ti' = set_times s p ti'"
  by (simp add: set_times_def)

lemma drop_index_scanning:
  assumes "scanning s (pre @ p # post) h"
  shows "\<exists>s'. drop_index s (length pre) w f = f s' \<and> scanning s' (pre @ post) h \<and>
    schedulerStatus s' = schedulerStatus s"
proof -
  obtain s' where "deactiveTimes_index s (int (length pre)) = Some (NoError, s')"
      "list_becomes s (pre @ post) s'"
    using assms deactiveTimes_index_wf [of s 1 "length pre"] by (auto simp: scanning_def)
  moreover from this(2) have "same_but_list s s'" by (simp add: list_becomes_def)
  ultimately show ?thesis
    using assms by (intro exI [of _ s']) (simp add: drop_index_def scanning_def list_becomes_def same_but_list_fields)
qed

text \<open>A handler that leaves the scheduler alone: its error and what it does to the user's state.\<close>

definition leaves_alone :: "'w handler \<Rightarrow> (address \<Rightarrow> lib_error) \<Rightarrow> (address \<Rightarrow> 'w \<Rightarrow> 'w) \<Rightarrow> bool" where
  "leaves_alone handler herr hw \<longleftrightarrow> (\<forall>p w s. handler p w s = Some (herr p, hw p w, s))"

text \<open>Up to the handler, whatever that does.\<close>

lemma visit_fires:
  assumes "scanning s (pre @ p # post) h" "h p = Some ti" "reaction z now ti = Some (Fires False, ti')"
  shows "visit_times z now handler (length pre) w s =
    call_handleTimeOut handler (length pre) p False w (set_times s p ti')"
proof -
  have "sched_wf s" "actives s = pre @ p # post" "timesAt s p = Some ti"
    using assms(1,2) by (simp_all add: scanning_def)
  then have "\<not> length (pTimesList s) \<le> length pre" "pTimesList s ! length pre = Some p" "timesAt s p = Some ti"
    using sched_wf_cell [of s "length pre"] by simp_all
  then show ?thesis
    by (cases rule: reaction_cases [OF assms(3)])
      (simp_all add: visit_times_def visit_started_def visit_expired_def Let_def)
qed

lemma visit_times_scanning:
  assumes "scanning s (pre @ p # post) h" "h p = Some ti" "reaction z now ti = Some (r, ti')"
    and "leaves_alone handler herr hw"
  shows "\<exists>s'. visit_times z now handler (length pre) w s =
      Some (Inr (leaves herr (p, r, ti'), if r = Idle then w else hw p w, s')) \<and>
    scanning s' (pre @ (if leaves herr (p, r, ti') then post else p # post)) (h(p \<mapsto> ti'))"
proof -
  have wf: "sched_wf s" and a: "actives s = pre @ p # post" and h: "timesAt s p = Some ti"
    using assms(1,2) by (simp_all add: scanning_def)
  have cell: "\<not> length (pTimesList s) \<le> length pre" "pTimesList s ! length pre = Some p"
    using sched_wf_cell [OF wf, of "length pre"] a by simp_all
  let ?s = "set_times s p ti'"
  have s: "scanning ?s (pre @ p # post) (h(p \<mapsto> ti'))" using scanning_set_times [OF assms(1)] .
  have some: "timesAt ?s p = Some ti'" by (simp add: set_times_def)
  have handler: "handler p w t = Some (herr p, hw p w, t)" for t
    using assms(4) by (simp add: leaves_alone_def)
  note v = cell h visit_times_def visit_started_def visit_expired_def leaves_def
  from assms(3) show ?thesis
  proof (cases rule: reaction_cases)
    case 3
    obtain s' where s': "drop_index ?s (length pre) (hw p w) (\<lambda>t. Some (Inr (True, hw p w, t))) = Some (Inr (True, hw p w, s'))"
        "scanning s' (pre @ post) (h(p \<mapsto> ti'))"
      using drop_index_scanning [OF s, of "hw p w" "\<lambda>t. Some (Inr (True, hw p w, t))"] by auto
    have "visit_times z now handler (length pre) w s = call_handleTimeOut handler (length pre) p False w ?s"
      using visit_fires [OF assms(1,2)] assms(3) 3(4) by simp
    also have "\<dots> = (if herr p = NoError then Some (Inr (False, hw p w, ?s)) else Some (Inr (True, hw p w, s')))"
      using s'(1) by (simp add: call_handleTimeOut_def handler some)
    finally show ?thesis using 3(4) s s'(2) by (simp add: leaves_def)
  next
    case 4
    obtain s' where s': "drop_index ?s (length pre) w (call_handleTimeOut handler (length pre) p True w) =
        call_handleTimeOut handler (length pre) p True w s'" "scanning s' (pre @ post) (h(p \<mapsto> ti'))"
      using drop_index_scanning [OF s, of w "call_handleTimeOut handler (length pre) p True w"] by auto
    have "timesAt s' p = Some ti'" using s'(2) by (simp add: scanning_def)
    then have "call_handleTimeOut handler (length pre) p True w s' = Some (Inr (True, hw p w, s'))"
      by (simp add: call_handleTimeOut_def handler)
    moreover have "visit_times z now handler (length pre) w s =
        drop_index ?s (length pre) w (call_handleTimeOut handler (length pre) p True w)"
      using 4 by (simp add: v Let_def)
    ultimately show ?thesis using 4(4) s' by (simp add: leaves_def)
  qed (use s in \<open>simp_all add: v Let_def\<close>)
qed

section \<open>The whole scan\<close>

text \<open>What the remaining objects are and do, from the visit \<open>k\<close> on.\<close>

definition reacts :: "zone \<Rightarrow> (nat \<Rightarrow> timeofday option) \<Rightarrow> nat \<Rightarrow> (address \<Rightarrow> times option) \<Rightarrow>
    (address \<times> reaction \<times> times) list \<Rightarrow> bool" where
  "reacts z clock k h vs \<longleftrightarrow>
     (\<forall>j < length vs. \<exists>ti. h (fst (vs ! j)) = Some ti \<and> reaction z (clock (k + j)) ti = Some (snd (vs ! j)))"

lemma reacts_Cons:
  "reacts z clock k h (v # vs) \<longleftrightarrow>
     (\<exists>ti. h (fst v) = Some ti \<and> reaction z (clock k) ti = Some (snd v)) \<and> reacts z clock (Suc k) h vs"
  by (auto simp: reacts_def less_Suc_eq_0_disj)

lemma reacts_upd: "p \<notin> fst ` set vs \<Longrightarrow> reacts z clock k (h(p \<mapsto> ti)) vs = reacts z clock k h vs"
  unfolding reacts_def by (metis (mono_tags, lifting) fun_upd_apply image_eqI nth_mem)

definition objects_after :: "(address \<times> reaction \<times> times) list \<Rightarrow> address \<Rightarrow> times option" where
  "objects_after vs = map_of (map (\<lambda>(p, _, t). (p, t)) vs)"

lemma objects_after_Cons: "p \<notin> fst ` set vs \<Longrightarrow> h(p \<mapsto> t) ++ objects_after vs = h ++ objects_after ((p, r, t) # vs)"
  by (subst map_add_upd_left) (force simp: objects_after_def dest!: map_of_SomeD, simp add: objects_after_def)

lemma handle_loop_scan:
  assumes "scanning s (pre @ map fst vs) h" "reacts z clock k h vs" "leaves_alone handler herr hw"
  shows "\<exists>s'. handle_loop z clock handler k (length pre) w s = Some (NoError, fold hw (fired vs) w, s') \<and>
    sched_wf s' \<and> mtSchedulerMutex s' = Some 0 \<and> actives s' = pre @ kept herr vs \<and>
    timesAt s' = h ++ objects_after vs"
  using assms(1,2)
proof (induction vs arbitrary: pre h k w s)
  case Nil
  then have "ulTimesPointerNumber s = length pre" "mtSchedulerMutex s = Some (Suc 0)"
    using sched_wf_length [of s] by (auto simp: scanning_def)
  then show ?case
    using Nil by (subst handle_loop.simps) (simp add: scanning_def fired_def kept_def objects_after_def)
next
  case (Cons v vs)
  obtain p r ti' where v: "v = (p, r, ti')" by (cases v)
  have n: "length pre < ulTimesPointerNumber s"
    using Cons.prems(1) sched_wf_length [of s] by (auto simp: scanning_def)
  have a: "actives s = pre @ p # map fst vs" and "sched_wf s"
    using Cons.prems(1) by (simp_all add: scanning_def v)
  then have "distinct (actives s)" by (simp only: sched_wf_def)
  then have p: "p \<notin> fst ` set vs" by (simp add: a)
  obtain ti where ti: "h p = Some ti" "reaction z (clock k) ti = Some (r, ti')" "reacts z clock (Suc k) h vs"
    using Cons.prems(2) by (auto simp: reacts_Cons v)
  let ?w = "if r = Idle then w else hw p w" and ?l = "leaves herr v"
  let ?pre = "if ?l then pre else pre @ [p]"
  have sc: "scanning s (pre @ p # map fst vs) h" using Cons.prems(1) by (simp add: v)
  obtain s1 where s1: "visit_times z (clock k) handler (length pre) w s = Some (Inr (?l, ?w, s1))"
      "scanning s1 (?pre @ map fst vs) (h(p \<mapsto> ti'))"
    using visit_times_scanning [OF sc ti(1) ti(2) assms(3), of w] by (cases ?l) (auto simp: v)
  have loop: "handle_loop z clock handler k (length pre) w s =
      handle_loop z clock handler (Suc k) (length ?pre) ?w s1"
    using n s1(1) by (subst handle_loop.simps) simp
  have "fold hw (fired (v # vs)) w = fold hw (fired vs) ?w" "pre @ kept herr (v # vs) = ?pre @ kept herr vs"
    by (simp_all add: fired_def kept_def v)
  then show ?case
    using Cons.IH [OF s1(2), of "Suc k" ?w] ti(3) reacts_upd [OF p] objects_after_Cons [OF p, of h ti' r]
    by (simp only: loop v)
qed

lemma handleTimes_scan:
  assumes "sched_wf s" "mtSchedulerMutex s = Some 0" "schedulerStatus s \<noteq> SCHEDULER_BUILDED"
    and "map fst vs = actives s" "reacts z clock 0 (timesAt s) vs" "leaves_alone handler herr hw"
  shows "\<exists>s'. handleTimes z clock handler w s = Some (NoError, fold hw (fired vs) w, s') \<and>
    sched_wf s' \<and> mtSchedulerMutex s' = Some 0 \<and> actives s' = kept herr vs \<and>
    timesAt s' = timesAt s ++ objects_after vs"
proof -
  have "scanning (s\<lparr>mtSchedulerMutex := Some 1\<rparr>) ([] @ map fst vs) (timesAt s)"
    using assms(1-4) by (simp add: scanning_def)
  from handle_loop_scan [OF this assms(5,6)] show ?thesis using assms(2) by (simp add: handleTimes_def)
qed

end
