(* ===== verification/SchedulerProps.thy ===== *)
theory SchedulerProps
  imports SchedulerScan
begin

text \<open>The properties of \<open>Scheduler\<close>.\<close>

section \<open>The public calls\<close>

definition new_scheduler :: scheduler where
  "new_scheduler = Scheduler_ctor \<lparr>stPThreadStatus = THREADLIB_DETACHED, pPThreadName = ''junk'', erThreadReturn = NoError,
     mtSchedulerMutex = None, schedulerStatus = SCHEDULER_SUSPENDED, ulThreadSleepInMilliSecs = 3,
     ulTimesPointerToAllocOnOverflow = 0, ulAllocatedTimesPointerNumber = 9, pTimesList = [], ulTimesPointerNumber = 4,
     timesAt = (\<lambda>_. None)\<rparr>"

text \<open>C6: between \<open>init\<close> and \<open>finish\<close> every sequence of calls on a scheduler gives the answers of a list of
  distinct objects that grows at its end: an object is found exactly when it was activated and not
  deactivated since, whatever size the array started with, and the invariant of the array holds.\<close>

theorem scheduler_calls_refine:
  assumes "Scheduler_init s0 sleep alloc = (NoError, s)"
  shows "\<exists>s'. run_ops sched_exec cs s =
      Some (fst (run_spec sched_spec cs (SCHEDULER_INITIALIZED, THREADLIB_INITIALIZED, [])), s') \<and>
    sched_rel s' (snd (run_spec sched_spec cs (SCHEDULER_INITIALIZED, THREADLIB_INITIALIZED, [])))"
  using sched.run [OF init_rel(1) [OF assms] any_calls] .

theorem scheduler_calls_refine_witness:
  "\<exists>s'. run_ops sched_exec [ActiveTimes (Some 7), ActiveTimes (Some 9), ActiveTimes (Some 7), DeactiveTimes (Some 7), GetTimes 0 True]
     (snd (Scheduler_init new_scheduler 1000 1)) =
   Some ([(NoError, None, None), (NoError, None, None), (SchedulerErrors SCH_SCHEDULER_TIMESALREADYACTIVE, None, None),
     (NoError, None, None), (NoError, Some 9, None)], s')"
proof -
  have "Scheduler_init new_scheduler 1000 1 = (NoError, snd (Scheduler_init new_scheduler 1000 1))"
    by (simp add: new_scheduler_def Scheduler_ctor_def PosixThread_ctor_def Scheduler_init_def PosixThread_init_def
        setPThreadName_def PMutex_init_def MAX_PTHREADNAMELENGTH_def)
  from scheduler_calls_refine [OF this, of "[ActiveTimes (Some 7), ActiveTimes (Some 9), ActiveTimes (Some 7),
      DeactiveTimes (Some 7), GetTimes 0 True]"]
  show ?thesis by (auto simp: answers_def without_def)
qed

text \<open>A started scheduler with the given objects, for the witnesses.\<close>

definition running :: "address list \<Rightarrow> (address \<Rightarrow> times option) \<Rightarrow> scheduler" where
  "running xs h = new_scheduler\<lparr>stPThreadStatus := THREADLIB_STARTED, mtSchedulerMutex := Some 0,
     schedulerStatus := SCHEDULER_STARTED, ulTimesPointerToAllocOnOverflow := 2,
     ulAllocatedTimesPointerNumber := length xs, pTimesList := map Some xs,
     ulTimesPointerNumber := length xs, timesAt := h\<rparr>"

lemma running_simps [simp]:
  "mtSchedulerMutex (running xs h) = Some 0" "schedulerStatus (running xs h) = SCHEDULER_STARTED"
  "stPThreadStatus (running xs h) = THREADLIB_STARTED" "timesAt (running xs h) = h" "actives (running xs h) = xs"
  "distinct xs \<Longrightarrow> sched_wf (running xs h)"
  by (simp_all add: running_def actives_def sched_wf_def comp_def)

section \<open>The scan\<close>



text \<open>A started periodic object whose next expiration is at \<open>T\<close>.\<close>

definition periodic_at :: "int \<Rightarrow> int \<Rightarrow> int \<Rightarrow> times \<Rightarrow> bool" where
  "periodic_at off p T ti \<longleftrightarrow>
     times_ok ti \<and> schTimesStatus ti = SCHTIMES_STARTED \<and> ttTimesType ti = SCH_TYPE_PERIODIC \<and>
     \<not> bNextDaylightSavingTime ti \<and> ulPeriodInMilliSeconds ti = p \<and>
     pNextExpirationDateTime ti = local_text off T \<and> four_digits off T"

lemma isStarted_started:
  assumes "times_ok ti" "schTimesStatus ti = SCHTIMES_STARTED"
  shows "Times_isStarted ti True = Some (NoError, Some True, ti)"
proof -
  have m: "mtTimesMutex ti = Some 0" using times_ok_fields(6) [OF assms(1)] assms(2) by simp
  show ?thesis
    using assms m times_unlocked [OF m] by (simp add: Times_isStarted_def Times_query_def Let_def Times_release_eq)
qed

lemma reaction_periodic:
  assumes "periodic_at off p T ti" "0 \<le> p" "p < 2 ^ 63" "four_digits off (T + p)"
    and "0 \<le> tv_usec tv" "tv_usec tv < 1000000" "four_digits off (now_ms tv)"
  shows "\<exists>ti'. reaction (fixed_zone off shift) (Some tv) ti =
      Some (if T \<le> now_ms tv then Fires False else Idle, ti') \<and>
    periodic_at off p (if T \<le> now_ms tv then T + p else T) ti'"
proof -
  have ok: "times_ok ti" "schTimesStatus ti = SCHTIMES_STARTED" "ttTimesType ti = SCH_TYPE_PERIODIC"
    "\<not> bNextDaylightSavingTime ti" "pNextExpirationDateTime ti = local_text off T"
    "ulPeriodInMilliSeconds ti = p" "four_digits off T"
    using assms(1) by (simp_all add: periodic_at_def)
  have m: "mtTimesMutex ti = Some 0" using times_ok_fields(6) [OF ok(1)] ok(2) by simp
  note e = isStarted_started [OF ok(1,2)]
    isExpiredTime_fixed_zone [OF ok(1,2,4,5,7) assms(5-7), of shift]
  note u = periodic_update [OF m ok(2-6) assms(2,3) ok(7) assms(4), of shift]
  have "times_ok (ti\<lparr>bCurrentDaylightSavingTime := False, pCurrentExpirationDateTime := local_text off T,
      bNextDaylightSavingTime := False, pNextExpirationDateTime := local_text off (T + p)\<rparr>)"
    using ok(1) local_text_fits(1) [OF ok(7)] local_text_fits(1) [OF assms(4)] by (simp add: times_ok_def)
  then show ?thesis
    using assms(1,4) ok e u by (cases "T \<le> now_ms tv") (simp_all add: reaction_def periodic_at_def)
qed


lemma started_times_periodic: "four_digits 3600 T \<Longrightarrow> periodic_at 3600 1500 T (started_times T)"
  using started_times_ok [of T] by (simp add: periodic_at_def) (simp add: started_times_def)

definition noon :: timeofday where
  "noon = \<lparr>tv_sec = 1614350475, tv_usec = 478000, tz_minuteswest = 0\<rparr>"

lemma noon_simps: "0 \<le> tv_usec noon" "tv_usec noon < 1000000" "now_ms noon = 1614350475478"
  by (simp_all add: noon_def now_ms_def)

text \<open>Two objects, the first of which is not due.\<close>

definition due_at :: "address \<Rightarrow> int" where
  "due_at a = (if a = 4 then 1614350475479 else 1614350475478)"


section \<open>Handlers that call the scheduler\<close>

text \<open>A handler that deactivates the object it was called for, and one that calls \<open>deactiveTimes (NULL)\<close>.\<close>

definition self_deactivating :: "address list handler" where
  "self_deactivating p w s =
     (case deactiveTimes s (Some p) of None \<Rightarrow> None | Some (e, s') \<Rightarrow> Some (e, w @ [p], s'))"

definition null_deactivating :: "address list handler" where
  "null_deactivating p w s =
     (case deactiveTimes s None of None \<Rightarrow> None | Some (_, s') \<Rightarrow> Some (NoError, w @ [p], s'))"

lemma scanning_start:
  "sched_wf s \<Longrightarrow> schedulerStatus s \<noteq> SCHEDULER_BUILDED \<Longrightarrow>
     scanning (s\<lparr>mtSchedulerMutex := Some (Suc 0)\<rparr>) (actives s) (timesAt s)"
  by (simp add: scanning_def)

lemma handle_loop_end:
  "\<not> i < ulTimesPointerNumber s \<Longrightarrow>
     handle_loop z clock handler k i w s = Some (case Scheduler_release NoError s of (e, s') \<Rightarrow> (e, w, s'))"
  by (subst handle_loop.simps) simp

lemma handle_loop_next:
  "i < ulTimesPointerNumber s \<Longrightarrow> visit_times z (clock k) handler i w s = Some (Inr (b, w', s')) \<Longrightarrow>
     handle_loop z clock handler k i w s = handle_loop z clock handler (Suc k) (if b then i else i + 1) w' s'"
  by (subst handle_loop.simps) simp

lemma number_of_actives: "sched_wf s \<Longrightarrow> actives s = xs \<Longrightarrow> ulTimesPointerNumber s = length xs"
  using sched_wf_length [of s] by simp

text \<open>C38: when a handler deactivates its own object, the scan steps over the object behind it: with two
  active objects the second is not even asked whether it is due, and its handler does not run.\<close>

theorem self_deactivation_skips_next:
  assumes "sched_wf s" "mtSchedulerMutex s = Some 0" "schedulerStatus s \<noteq> SCHEDULER_BUILDED"
    and "actives s = [p, q]" "timesAt s p = Some ti" "reaction z (clock 0) ti = Some (Fires False, ti')"
  shows "\<exists>s'. handleTimes z clock self_deactivating w s = Some (NoError, w @ [p], s') \<and> actives s' = [q] \<and>
    timesAt s' = (timesAt s)(p \<mapsto> ti')"
proof -
  let ?s1 = "s\<lparr>mtSchedulerMutex := Some (Suc 0)\<rparr>" and ?s2 = "set_times (s\<lparr>mtSchedulerMutex := Some (Suc 0)\<rparr>) p ti'"
  have sc: "scanning ?s1 ([] @ p # [q]) (timesAt s)" using scanning_start [OF assms(1,3)] assms(4) by simp
  have pq: "p \<noteq> q" using assms(1,4) by (auto simp: sched_wf_def)
  have w2: "sched_wf ?s2" "actives ?s2 = [p, q]" using assms(1,4) by (simp_all add: set_times_def)
  obtain s3 where s3: "deactiveTimes ?s2 (Some p) = Some (NoError, s3)" "list_becomes ?s2 [q] s3"
    using deactiveTimes_wf [OF w2(1), of "Suc 0" p] w2(2) assms(3) by (auto simp: set_times_def without_def)
  have "visit_times z (clock 0) self_deactivating 0 w ?s1 = Some (Inr (False, w @ [p], s3))"
    using visit_fires [OF sc assms(5,6), of self_deactivating w] s3(1)
    by (simp add: call_handleTimeOut_def self_deactivating_def set_times_def)
  from handle_loop_next [where k = 0 and clock = clock, OF _ this]
  have "handle_loop z clock self_deactivating 0 0 w ?s1 = handle_loop z clock self_deactivating (Suc 0) 1 (w @ [p]) s3"
    using number_of_actives [OF assms(1,4)] by simp
  moreover have s3': "sched_wf s3" "actives s3 = [q]" "mtSchedulerMutex s3 = Some (Suc 0)"
      "timesAt s3 = (timesAt s)(p \<mapsto> ti')"
    using s3(2) same_but_list_fields [of ?s2 s3] by (simp_all add: list_becomes_def set_times_def)
  ultimately show ?thesis
    using number_of_actives [OF s3'(1,2)] assms(2) by (simp add: handleTimes_def handle_loop_end)
qed

lemma started_times_fires:
  "\<exists>ti'. reaction (fixed_zone 3600 0) (Some noon) (started_times 1614350475478) = Some (Fires False, ti')"
proof -
  have "four_digits 3600 (now_ms noon)" "four_digits 3600 1614350475478" "four_digits 3600 (1614350475478 + 1500)"
    by (auto simp: noon_simps intro!: four_digitsI)
  then show ?thesis
    using reaction_periodic [OF started_times_periodic _ _ _ noon_simps(1,2), of 1614350475478 0]
    by (auto simp: noon_simps)
qed

theorem self_deactivation_skips_next_witness:
  "\<exists>s'. handleTimes (fixed_zone 3600 0) (\<lambda>_. Some noon) self_deactivating []
     (running [4, 2] (\<lambda>_. Some (started_times 1614350475478))) = Some (NoError, [4], s') \<and> actives s' = [2]"
proof -
  obtain ti' where "reaction (fixed_zone 3600 0) (Some noon) (started_times 1614350475478) = Some (Fires False, ti')"
    using started_times_fires by blast
  then show ?thesis
    using self_deactivation_skips_next [of "running [4, 2] (\<lambda>_. Some (started_times 1614350475478))" 4 2
        "started_times 1614350475478" "fixed_zone 3600 0" "\<lambda>_. Some noon" ti' "[]"] by auto
qed

text \<open>\<open>deactiveTimes (NULL)\<close> in a handler unlocks the mutex that the scan holds, so that the scan fails
  when it unlocks it itself and the thread of the scheduler ends.\<close>

theorem null_deactivation_ends_thread:
  assumes "sched_wf s" "mtSchedulerMutex s = Some 0" "schedulerStatus s = SCHEDULER_STARTED"
    and "actives s = [p]" "timesAt s p = Some ti" "reaction z (clock 0) ti = Some (Fires False, ti')"
  shows "\<exists>s'. run_round z clock null_deactivating w s =
    Some (Inl (SchedulerErrors SCH_SCHEDULER_HANDLETIMES_FAILED, w @ [p], s'))"
proof -
  let ?s1 = "s\<lparr>mtSchedulerMutex := Some (Suc 0)\<rparr>"
  let ?s3 = "set_times s p ti'"
  have sc: "scanning ?s1 ([] @ p # []) (timesAt s)" using scanning_start [OF assms(1)] assms(3,4) by simp
  have "deactiveTimes (set_times ?s1 p ti') None = Some (SchedulerErrors SCH_ACTIVATION_WRONG, ?s3)"
    using deactiveTimes_None(1) [of "set_times ?s1 p ti'" 0] assms(2) by (cases s) (simp add: set_times_def)
  then have "visit_times z (clock 0) null_deactivating 0 w ?s1 = Some (Inr (False, w @ [p], ?s3))"
    using visit_fires [OF sc assms(5,6), of null_deactivating w] by (simp add: call_handleTimeOut_def null_deactivating_def set_times_def)
  from handle_loop_next [where k = 0 and clock = clock, OF _ this]
  have "handle_loop z clock null_deactivating 0 0 w ?s1 =
      handle_loop z clock null_deactivating (Suc 0) 1 (w @ [p]) ?s3"
    using number_of_actives [OF assms(1,4)] by simp
  moreover have "ulTimesPointerNumber ?s3 = 1" "mtSchedulerMutex ?s3 = Some 0"
    using number_of_actives [OF assms(1,4)] assms(2) by (simp_all add: set_times_def)
  ultimately have "handleTimes z clock null_deactivating w s =
      Some (PThreadErrors THREADLIB_PMUTEX_UNLOCK_FAILED, w @ [p], ?s3)"
    using assms(2) by (simp add: handleTimes_def handle_loop_end)
  then show ?thesis using assms(2,3) by (simp add: run_round_def getSchedulerStatus_def run_returns_def)
qed

theorem null_deactivation_ends_thread_witness:
  "\<exists>s'. run_round (fixed_zone 3600 0) (\<lambda>_. Some noon) null_deactivating []
     (running [4] (\<lambda>_. Some (started_times 1614350475478))) =
   Some (Inl (SchedulerErrors SCH_SCHEDULER_HANDLETIMES_FAILED, [4], s'))"
proof -
  obtain ti' where "reaction (fixed_zone 3600 0) (Some noon) (started_times 1614350475478) = Some (Fires False, ti')"
    using started_times_fires by blast
  then show ?thesis
    using null_deactivation_ends_thread [of "running [4] (\<lambda>_. Some (started_times 1614350475478))" 4
        "started_times 1614350475478" "fixed_zone 3600 0" "\<lambda>_. Some noon" ti' "[]"] by auto
qed

section \<open>Stopping\<close>

text \<open>A scheduler that is cancelled and finished before its thread was joined reports success, but can
  never be initialised again, not even after the thread has ended: \<open>finish\<close> ignores that the thread
  could not be finished.\<close>

theorem finish_before_join_is_final:
  assumes "mtSchedulerMutex s = Some 0" "schedulerStatus s = SCHEDULER_STARTED" "stPThreadStatus s = THREADLIB_STARTED"
    and "Scheduler_cancel s = (NoError, s1)" "Scheduler_finish s1 False = Some (e, s2)"
    and "runFunction_end s2 r = Some s3"
  shows "e = NoError \<and>
    (\<forall>t \<in> {s2, s3}. \<forall>sleep alloc. 1 \<le> alloc \<longrightarrow>
       fst (Scheduler_init t sleep alloc) = PThreadErrors THREADLIB_PTHREAD_INIT_FAILED) \<and>
    (\<forall>t \<in> {s2, s3}. Scheduler_finish t False = Some (SchedulerErrors SCH_OPERATION_NOTALLOWED, t))"
proof -
  have s1: "s1 = s\<lparr>schedulerStatus := SCHEDULER_INITIALIZED\<rparr>"
    using assms(1,2,4) by (simp add: Scheduler_cancel_def change_status_idle)
  have s2: "e = NoError" "schedulerStatus s2 = SCHEDULER_BUILDED" "stPThreadStatus s2 = THREADLIB_STARTED"
    using assms(3,5) by (auto simp: s1 Scheduler_finish_def PosixThread_finish_def Let_def)
  have s3: "schedulerStatus s3 = SCHEDULER_BUILDED" "stPThreadStatus s3 = THREADLIB_INITIALIZEDAGAINAFTERRUNNING"
    using assms(6) s2 by (auto simp: runFunction_end_def Let_def)
  have "fst (Scheduler_init t sleep alloc) = PThreadErrors THREADLIB_PTHREAD_INIT_FAILED"
    if "schedulerStatus t = SCHEDULER_BUILDED" "stPThreadStatus t \<noteq> THREADLIB_BUILDED" "1 \<le> alloc" for t sleep alloc
    using that by (simp add: Scheduler_init_def PosixThread_init_def thread_fails_def)
  then show ?thesis using s2 s3 by (auto simp: Scheduler_finish_def)
qed

theorem finish_before_join_is_final_witness:
  "\<exists>s1 s2 s3. Scheduler_cancel (running [] (\<lambda>_. None)) = (NoError, s1) \<and> Scheduler_finish s1 False = Some (NoError, s2) \<and>
     runFunction_end s2 NoError = Some s3 \<and>
     fst (Scheduler_init s3 1000 20) = PThreadErrors THREADLIB_PTHREAD_INIT_FAILED"
proof -
  obtain s1 where s1: "Scheduler_cancel (running [] (\<lambda>_. None)) = (NoError, s1)"
      "schedulerStatus s1 = SCHEDULER_INITIALIZED" "stPThreadStatus s1 = THREADLIB_STARTED"
    by (simp add: Scheduler_cancel_def change_status_idle)
  obtain e s2 where s2: "Scheduler_finish s1 False = Some (e, s2)" "stPThreadStatus s2 = THREADLIB_STARTED"
    using s1(2,3) by (simp add: Scheduler_finish_def PosixThread_finish_def Let_def)
  obtain s3 where s3: "runFunction_end s2 NoError = Some s3" using s2(2) by (simp add: runFunction_end_def)
  show ?thesis
    using finish_before_join_is_final [OF _ _ _ s1(1) s2(1) s3] s1(1) s2(1) s3 by auto
qed

end
