(* ===== verification/Times2.thy ===== *)
theory Times2
  imports Times
begin

text \<open>
  The class \<open>Times2\<close> of \<open>Scheduler/src/Times2.cpp\<close>, the variant of \<open>Times\<close> for \<open>Scheduler2\<close>: it is initialised by
  its constructors, throws exceptions where \<open>Times\<close> returns most of its errors, and says by a flag that the
  last timeout is reached. Every operation runs under a \<^verbatim>\<open>lock_guard\<close>, so it is one step and an exception
  releases the mutex. The text of the schedule is checked and searched by the same code as in \<open>Times\<close>
  (theory \<open>Schedule\<close>).
\<close>

section \<open>State\<close>

datatype times_status2 = SCHTIMES2_INITIALIZED | SCHTIMES2_STARTED

record times2 =
  schTimesStatus2 :: times_status2
  ttTimesType2 :: times_type
  className2 :: string
  ulPeriodInMilliSeconds2 :: int
  pCalendarSchedule2 :: "char list"
  bNextDaylightSavingTime2 :: bool
  pNextExpirationDateTime2 :: "char list"
  bCurrentDaylightSavingTime2 :: bool
  pCurrentExpirationDateTime2 :: "char list"

text \<open>The texts of the exceptions.\<close>

datatype runtime_error =
    Wrong_parameter
  | Sscanf_failed
  | Localtime_r_failed
  | Strtok_r_failed
  | Update_failed
  | Times_not_found
  | Not_started
  | Not_suspended
  | Already_stopped

text \<open>An operation throws (\<open>Inl\<close>) or returns (\<open>Inr\<close>).\<close>

section \<open>The constructors\<close>

text \<open>\<open>junk\<close> is the storage of the object: the members that the constructors leave alone.\<close>

definition Times2_new :: "times2 \<Rightarrow> string \<Rightarrow> times2" where
  "Times2_new t className = t\<lparr>pCurrentExpirationDateTime2 := [], pNextExpirationDateTime2 := [],
     className2 := className, schTimesStatus2 := SCHTIMES2_INITIALIZED\<rparr>"

definition Times2_periodic :: "times2 \<Rightarrow> int \<Rightarrow> string \<Rightarrow> times2" where
  "Times2_periodic junk period className =
     Times2_new (junk\<lparr>ulPeriodInMilliSeconds2 := period, ttTimesType2 := SCH_TYPE_PERIODIC\<rparr>) className"

definition Times2_calendar :: "times2 \<Rightarrow> string \<Rightarrow> string \<Rightarrow> runtime_error + times2" where
  "Times2_calendar junk schedule className =
     (case check_schedule schedule of
        Some _ \<Rightarrow> Inl Wrong_parameter
      | None \<Rightarrow> Inr (Times2_new (junk\<lparr>pCalendarSchedule2 := schedule, ttTimesType2 := SCH_TYPE_CALENDAR\<rparr>) className))"

section \<open>Queries\<close>

definition Times2_isStarted :: "times2 \<Rightarrow> bool" where
  "Times2_isStarted t = (schTimesStatus2 t = SCHTIMES2_STARTED)"

text \<open>A failure of the clock is ignored and leaves the date uninitialised (\<open>None\<close>); the status is not checked.\<close>

definition Times2_isExpiredTime :: "zone \<Rightarrow> timeofday option \<Rightarrow> times2 \<Rightarrow> bool option" where
  "Times2_isExpiredTime z now t =
     (case get_tm_LocalTime z now of
        Inl _ \<Rightarrow> None
      | Inr (x, ms) \<Rightarrow>
          if tm_isdst x = 1 \<and> bCurrentDaylightSavingTime2 t \<and> \<not> bNextDaylightSavingTime2 t then Some False
          else if tm_isdst x = 0 \<and> bCurrentDaylightSavingTime2 t \<and> bNextDaylightSavingTime2 t then Some True
          else if SCH_MAXDATELENGTH \<le> length (tm_text x ms) then None
          else Some (text_le (pNextExpirationDateTime2 t) (tm_text x ms)))"

definition Times2_getClassName :: "times2 \<Rightarrow> string" where
  "Times2_getClassName t = className2 t"

definition Times2_getNextExpirationDateTime :: "times2 \<Rightarrow> bool \<Rightarrow> lib_error \<times> char list option" where
  "Times2_getNextExpirationDateTime t nonnull =
     (if schTimesStatus2 t \<noteq> SCHTIMES2_STARTED then (SchedulerErrors SCH_OPERATION_NOTALLOWED, None)
      else if \<not> nonnull then (SchedulerErrors SCH_ACTIVATION_WRONG, None)
      else (NoError, Some (pNextExpirationDateTime2 t)))"

section \<open>The next expiration\<close>

definition addMilliSecondsToDateTime2 ::
  "zone \<Rightarrow> char list \<Rightarrow> int \<Rightarrow> int \<Rightarrow> lib_error + (char list \<times> bool)" where
  "addMilliSecondsToDateTime2 z current isdst ulMilliSeconds =
     (let vs = sscanf date_format current
      in if length vs \<noteq> 7 then Inl (SchedulerErrors SCH_SSCANF_FAILED)
         else let ulSecondsToAdd = to_ulong (vs ! 6 + ulMilliSeconds) div 1000;
                  ulNextMilliSeconds = to_ulong (to_ulong (vs ! 6 + ulMilliSeconds) - to_ulong (ulSecondsToAdd * 1000))
              in case addSeconds z (date_of_values vs) isdst (to_int64 ulSecondsToAdd) of
                   Inl _ \<Rightarrow> Inl (ClockErrors TOOLS_DATETIME_ADDSECONDS_FAILED)
                 | Inr (c, dst) \<Rightarrow> Inr (print_date c ulNextMilliSeconds, dst))"

definition updateNextPeriodicExpirationDateTime2 :: "zone \<Rightarrow> times2 \<Rightarrow> (lib_error \<times> times2) option" where
  "updateNextPeriodicExpirationDateTime2 z t =
     (case addMilliSecondsToDateTime2 z (pCurrentExpirationDateTime2 t)
             (if bCurrentDaylightSavingTime2 t then 1 else 0) (ulPeriodInMilliSeconds2 t) of
        Inl _ \<Rightarrow> Some (SchedulerErrors SCH_TIMES_ADDSECONDSTODATETIME_FAILED, t)
      | Inr (text, dst) \<Rightarrow>
          if SCH_MAXDATELENGTH \<le> length text then None
          else Some (NoError, t\<lparr>bNextDaylightSavingTime2 := dst, pNextExpirationDateTime2 := text\<rparr>))"

text \<open>The exceptions of the search.\<close>

definition search_error :: "scheduler_error \<Rightarrow> runtime_error" where
  "search_error e = (if e = SCH_CALENDARSCHEDULE_WRONG then Strtok_r_failed else Localtime_r_failed)"

text \<open>Returns the flag \<open>lastTimeout\<close>.\<close>

definition updateNextCalendarExpirationDateTime2 :: "zone \<Rightarrow> times2 \<Rightarrow> (runtime_error + bool \<times> times2) option" where
  "updateNextCalendarExpirationDateTime2 z t =
     (let vs = sscanf date_format (pCurrentExpirationDateTime2 t)
      in if length vs \<noteq> 7 then Some (Inl Sscanf_failed)
         else case calendar_begin z vs (if bCurrentDaylightSavingTime2 t then 1 else 0) of
                None \<Rightarrow> Some (Inl Localtime_r_failed)
              | Some x \<Rightarrow>
                  (case calendar_loop z (pCalendarSchedule2 t) x of
                     None \<Rightarrow> None
                   | Some (Inl e) \<Rightarrow>
                       if e = SCH_REACHED_LASTTIMEOUT then Some (Inr (True, t)) else Some (Inl (search_error e))
                   | Some (Inr y) \<Rightarrow>
                       if SCH_MAXDATELENGTH \<le> length (tm_text y (vs ! 6)) then None
                       else Some (Inr (False, t\<lparr>bNextDaylightSavingTime2 := (tm_isdst y \<noteq> 0),
                              pNextExpirationDateTime2 := tm_text y (vs ! 6)\<rparr>))))"

text \<open>The results: what is thrown or returned (with \<open>lastTimeout\<close>, when it is written), and the object.\<close>

definition Times2_updateNextExpirationDateTime ::
  "zone \<Rightarrow> times2 \<Rightarrow> ((runtime_error + lib_error \<times> bool option) \<times> times2) option" where
  "Times2_updateNextExpirationDateTime z t =
     (if schTimesStatus2 t \<noteq> SCHTIMES2_STARTED
      then Some (Inr (SchedulerErrors SCH_OPERATION_NOTALLOWED, None), t)
      else let t1 = t\<lparr>bCurrentDaylightSavingTime2 := bNextDaylightSavingTime2 t,
                      pCurrentExpirationDateTime2 := pNextExpirationDateTime2 t\<rparr>
           in if ttTimesType2 t = SCH_TYPE_PERIODIC
              then map_option (\<lambda>(e, t2). (Inr (e, Some False), t2)) (updateNextPeriodicExpirationDateTime2 z t1)
              else map_option (\<lambda>r. case r of
                     Inl x \<Rightarrow> (Inl x, t1)
                   | Inr (lastTimeout, t2) \<Rightarrow> (Inr (NoError, Some lastTimeout),
                       if lastTimeout then t2\<lparr>schTimesStatus2 := SCHTIMES2_INITIALIZED\<rparr> else t2))
                     (updateNextCalendarExpirationDateTime2 z t1))"

section \<open>Start and stop\<close>

text \<open>The current expiration that \<open>start\<close> begins from. The flag is stored by \<open>addSeconds\<close>.\<close>

definition Times2_start_current ::
  "zone \<Rightarrow> timeofday option \<Rightarrow> char list option \<Rightarrow> (lib_error + (bool \<times> char list))" where
  "Times2_start_current z now pStartDateTime =
     (case pStartDateTime of
        Some text \<Rightarrow>
          (let vs = sscanf date_format text
           in if length vs \<noteq> 7 then Inl (SchedulerErrors SCH_SSCANF_FAILED)
              else case addSeconds z (date_of_values vs) (- 1) 0 of
                     Inl _ \<Rightarrow> Inl (ClockErrors TOOLS_DATETIME_ADDSECONDS_FAILED)
                   | Inr (c, dst) \<Rightarrow> Inr (dst, print_date c (vs ! 6)))
      | None \<Rightarrow>
          (case get_tm_LocalTime z now of
             Inl _ \<Rightarrow> Inl (ClockErrors TOOLS_DATETIME_GET_TM_LOCALTIME_FAILED)
           | Inr (x, ms) \<Rightarrow> Inr (tm_isdst x = 1, tm_text x ms)))"

definition Times2_start ::
  "zone \<Rightarrow> timeofday option \<Rightarrow> times2 \<Rightarrow> char list option \<Rightarrow> ((runtime_error + lib_error) \<times> times2) option" where
  "Times2_start z now t pStartDateTime =
     (if schTimesStatus2 t \<noteq> SCHTIMES2_INITIALIZED then Some (Inr (SchedulerErrors SCH_OPERATION_NOTALLOWED), t)
      else case Times2_start_current z now pStartDateTime of
             Inl e \<Rightarrow> Some (Inr e, t)
           | Inr (dst, text) \<Rightarrow>
               if SCH_MAXDATELENGTH \<le> length text then None
               else let t1 = t\<lparr>bCurrentDaylightSavingTime2 := dst, pCurrentExpirationDateTime2 := text\<rparr>
                    in if ttTimesType2 t = SCH_TYPE_PERIODIC
                       then map_option (\<lambda>(e, t2).
                              if e \<noteq> NoError
                              then (Inr (SchedulerErrors SCH_TIMES_UPDATENEXTPERIODICEXPIRATIONDATETIME_FAILED), t2)
                              else (Inr NoError, t2\<lparr>schTimesStatus2 := SCHTIMES2_STARTED\<rparr>))
                              (updateNextPeriodicExpirationDateTime2 z t1)
                       else map_option (\<lambda>r. case r of
                              Inl x \<Rightarrow> (Inl x, t1)
                            | Inr (_, t2) \<Rightarrow> (Inr NoError, t2\<lparr>schTimesStatus2 := SCHTIMES2_STARTED\<rparr>))
                              (updateNextCalendarExpirationDateTime2 z t1))"

definition Times2_stop :: "times2 \<Rightarrow> lib_error \<times> times2" where
  "Times2_stop t =
     (if schTimesStatus2 t \<noteq> SCHTIMES2_STARTED then (SchedulerErrors SCH_OPERATION_NOTALLOWED, t)
      else (NoError, t\<lparr>schTimesStatus2 := SCHTIMES2_INITIALIZED\<rparr>))"

end
