(* ===== verification/Scheduler2.thy ===== *)
theory Scheduler2
  imports Times2
begin

text \<open>
  The class \<open>Scheduler2\<close> of \<open>Scheduler/src/Scheduler2.cpp\<close>. The shared pointers of the vector \<open>_timesList\<close> are
  addresses of \<open>times2At\<close> (or null); an object that is in the vector, or is being handled, exists. Every
  public call runs under a \<^verbatim>\<open>lock_guard\<close> of the recursive mutex, which an exception releases, so a call is
  one step; only \<open>deactiveTimes\<close> by index tests the index before it locks, and is two steps.
  \<open>handleTimeOut\<close> is the user's code, a function on the whole state and on the state \<open>'w\<close> of the user.
\<close>

section \<open>State\<close>

datatype scheduler_status2 = SCHEDULER2_INITIALIZED | SCHEDULER2_STARTED | SCHEDULER2_SUSPENDED

type_synonym times_ref = "nat option"

record scheduler2 =
  ulThreadSleepInMilliSecs2 :: nat
  schedulerStatus2 :: scheduler_status2
  timesList :: "times_ref list"
  times2At :: "nat \<Rightarrow> times2 option"

text \<open>The handler says whether it throws.\<close>

type_synonym 'w handler2 = "nat \<Rightarrow> 'w \<Rightarrow> scheduler2 \<Rightarrow> (bool \<times> 'w \<times> scheduler2) option"

definition Scheduler2_ctor :: "nat \<Rightarrow> (nat \<Rightarrow> times2 option) \<Rightarrow> scheduler2" where
  "Scheduler2_ctor ulThreadSleepInMilliSecs h = \<lparr>ulThreadSleepInMilliSecs2 = ulThreadSleepInMilliSecs,
     schedulerStatus2 = SCHEDULER2_INITIALIZED, timesList = [], times2At = h\<rparr>"

section \<open>Status\<close>

definition Scheduler2_suspend :: "scheduler2 \<Rightarrow> runtime_error option \<times> scheduler2" where
  "Scheduler2_suspend s =
     (if schedulerStatus2 s \<noteq> SCHEDULER2_STARTED then (Some Not_started, s)
      else (None, s\<lparr>schedulerStatus2 := SCHEDULER2_SUSPENDED\<rparr>))"

definition Scheduler2_resume :: "scheduler2 \<Rightarrow> runtime_error option \<times> scheduler2" where
  "Scheduler2_resume s =
     (if schedulerStatus2 s \<noteq> SCHEDULER2_SUSPENDED then (Some Not_suspended, s)
      else (None, s\<lparr>schedulerStatus2 := SCHEDULER2_STARTED\<rparr>))"

definition Scheduler2_cancel :: "scheduler2 \<Rightarrow> runtime_error option \<times> scheduler2" where
  "Scheduler2_cancel s =
     (if schedulerStatus2 s = SCHEDULER2_INITIALIZED then (Some Already_stopped, s)
      else (None, s\<lparr>schedulerStatus2 := SCHEDULER2_INITIALIZED\<rparr>))"

section \<open>The list of objects\<close>

text \<open>The loop of \<open>getTimesPointerIndex\<close>.\<close>

fun pointer_index :: "times_ref list \<Rightarrow> times_ref \<Rightarrow> nat" where
  "pointer_index [] p = 0"
| "pointer_index (q # qs) p = (if q = p then 0 else Suc (pointer_index qs p))"

definition getTimesPointerIndex2 :: "scheduler2 \<Rightarrow> times_ref \<Rightarrow> runtime_error + nat" where
  "getTimesPointerIndex2 s pTimes =
     (let i = pointer_index (timesList s) pTimes
      in if i = length (timesList s) then Inl Times_not_found else Inr i)"

text \<open>\<open>activeTimes\<close> searches the object, but does not use the answer.\<close>

definition activeTimes2 :: "scheduler2 \<Rightarrow> times_ref \<Rightarrow> lib_error \<times> scheduler2" where
  "activeTimes2 s pTimes = (NoError, s\<lparr>timesList := timesList s @ [pTimes]\<rparr>)"

text \<open>The two steps of \<open>deactiveTimes\<close> by index. Erasing behind the end has no defined result.\<close>

definition index_in_list :: "scheduler2 \<Rightarrow> int \<Rightarrow> bool" where
  "index_in_list s i \<longleftrightarrow> \<not> (i < 0 \<or> i \<ge> int (length (timesList s)))"

definition erase_times :: "scheduler2 \<Rightarrow> nat \<Rightarrow> scheduler2 option" where
  "erase_times s i =
     (if i < length (timesList s) then Some (s\<lparr>timesList := take i (timesList s) @ drop (Suc i) (timesList s)\<rparr>) else None)"

text \<open>Both steps, in a thread that has locked the mutex before.\<close>

definition deactiveTimes2_index :: "scheduler2 \<Rightarrow> int \<Rightarrow> (runtime_error option \<times> scheduler2) option" where
  "deactiveTimes2_index s i =
     (if \<not> index_in_list s i then Some (Some Wrong_parameter, s)
      else map_option (Pair None) (erase_times s (nat i)))"

definition deactiveTimes2 :: "scheduler2 \<Rightarrow> times_ref \<Rightarrow> ((runtime_error + lib_error) \<times> scheduler2) option" where
  "deactiveTimes2 s pTimes =
     (case getTimesPointerIndex2 s pTimes of
        Inl x \<Rightarrow> Some (Inl x, s)
      | Inr i \<Rightarrow>
          map_option (\<lambda>(x, s'). (case x of Some e \<Rightarrow> Inl e | None \<Rightarrow> Inr NoError, s')) (deactiveTimes2_index s (int i)))"

definition getTimesNumber2 :: "scheduler2 \<Rightarrow> nat" where
  "getTimesNumber2 s = length (timesList s)"

definition getTimes2 :: "scheduler2 \<Rightarrow> nat \<Rightarrow> runtime_error + times_ref" where
  "getTimes2 s i = (if i \<ge> length (timesList s) then Inl Wrong_parameter else Inr (timesList s ! i))"

section \<open>The scan\<close>

text \<open>Either an exception leaves \<open>handleTimes\<close>, or the loop goes on; the flag says that the object at the
  index was deactivated.\<close>

type_synonym 'w visit2 = "(runtime_error \<times> 'w \<times> scheduler2) + (bool \<times> 'w \<times> scheduler2)"

definition set_times2 :: "scheduler2 \<Rightarrow> nat \<Rightarrow> times2 \<Rightarrow> scheduler2" where
  "set_times2 s p t = s\<lparr>times2At := (times2At s)(p := Some t)\<rparr>"

definition drop_index2 :: "scheduler2 \<Rightarrow> nat \<Rightarrow> 'w \<Rightarrow> (scheduler2 \<Rightarrow> 'w visit2 option) \<Rightarrow> 'w visit2 option" where
  "drop_index2 s i w f =
     (case deactiveTimes2_index s (int i) of
        None \<Rightarrow> None
      | Some (None, s') \<Rightarrow> f s'
      | Some (Some x, s') \<Rightarrow> Some (Inl (x, w, s')))"

text \<open>An exception of the user's code deactivates the object at the index, unless that was done before.\<close>

definition call_handleTimeOut2 :: "'w handler2 \<Rightarrow> nat \<Rightarrow> nat \<Rightarrow> bool \<Rightarrow> 'w \<Rightarrow> scheduler2 \<Rightarrow> 'w visit2 option" where
  "call_handleTimeOut2 handler i p bIsTimesDeactived w s =
     (case handler p w s of
        None \<Rightarrow> None
      | Some (threw, w', s') \<Rightarrow>
          if threw \<and> \<not> bIsTimesDeactived then drop_index2 s' i w' (\<lambda>s''. Some (Inr (True, w', s'')))
          else Some (Inr (bIsTimesDeactived, w', s')))"

definition visit_expired2 :: "zone \<Rightarrow> 'w handler2 \<Rightarrow> nat \<Rightarrow> nat \<Rightarrow> times2 \<Rightarrow> 'w \<Rightarrow> scheduler2 \<Rightarrow> 'w visit2 option" where
  "visit_expired2 z handler i p t w s =
     (case Times2_updateNextExpirationDateTime z t of
        None \<Rightarrow> None
      | Some (Inl x, t') \<Rightarrow> Some (Inl (x, w, set_times2 s p t'))
      | Some (Inr (e, lastTimeout), t') \<Rightarrow>
          if e \<noteq> NoError then Some (Inl (Update_failed, w, set_times2 s p t'))
          else if lastTimeout = Some True
          then drop_index2 (set_times2 s p t') i w (call_handleTimeOut2 handler i p True w)
          else call_handleTimeOut2 handler i p False w (set_times2 s p t'))"

definition visit_times2 ::
  "zone \<Rightarrow> timeofday option \<Rightarrow> 'w handler2 \<Rightarrow> nat \<Rightarrow> 'w \<Rightarrow> scheduler2 \<Rightarrow> 'w visit2 option" where
  "visit_times2 z now handler i w s =
     (case timesList s ! i of
        None \<Rightarrow> None
      | Some p \<Rightarrow>
          (case times2At s p of
             None \<Rightarrow> None
           | Some t \<Rightarrow>
               if Times2_isStarted t
               then (case Times2_isExpiredTime z now t of
                       None \<Rightarrow> None
                     | Some bIsExpired \<Rightarrow>
                         if bIsExpired then visit_expired2 z handler i p t w s else Some (Inr (False, w, s)))
               else Some (Inr (False, w, s))))"

text \<open>The clock is read once in each visit; \<open>k\<close> counts the visits.\<close>

partial_function (option) handle_loop2 ::
  "zone \<Rightarrow> (nat \<Rightarrow> timeofday option) \<Rightarrow> 'w handler2 \<Rightarrow> nat \<Rightarrow> nat \<Rightarrow> 'w \<Rightarrow> scheduler2 \<Rightarrow>
   (runtime_error option \<times> 'w \<times> scheduler2) option" where
  "handle_loop2 z clock handler k i w s =
     (if i < length (timesList s)
      then (case visit_times2 z (clock k) handler i w s of
              None \<Rightarrow> None
            | Some (Inl (x, w', s')) \<Rightarrow> Some (Some x, w', s')
            | Some (Inr v) \<Rightarrow>
                handle_loop2 z clock handler (k + 1) (if fst v then i else i + 1) (fst (snd v)) (snd (snd v)))
      else Some (None, w, s))"

definition handleTimes2 ::
  "zone \<Rightarrow> (nat \<Rightarrow> timeofday option) \<Rightarrow> 'w handler2 \<Rightarrow> 'w \<Rightarrow> scheduler2 \<Rightarrow> (runtime_error option \<times> 'w \<times> scheduler2) option" where
  "handleTimes2 z clock handler w s = handle_loop2 z clock handler 0 0 w s"

section \<open>The thread\<close>

text \<open>\<open>operator ()\<close> begins by starting the scheduler. Between two sleeps it works with the status \<open>st\<close> that it read
  under the mutex: it scans, only goes on, or returns (\<open>Inl\<close>). An exception of the scan leaves the thread,
  which ends the process.\<close>

definition run2_begin :: "scheduler2 \<Rightarrow> scheduler_status2 \<times> scheduler2" where
  "run2_begin s = (SCHEDULER2_STARTED, s\<lparr>schedulerStatus2 := SCHEDULER2_STARTED\<rparr>)"

definition run2_round ::
  "zone \<Rightarrow> (nat \<Rightarrow> timeofday option) \<Rightarrow> 'w handler2 \<Rightarrow> scheduler_status2 \<Rightarrow> 'w \<Rightarrow> scheduler2 \<Rightarrow>
   ((runtime_error option \<times> 'w \<times> scheduler2) + ('w \<times> scheduler2)) option" where
  "run2_round z clock handler st w s =
     (if st = SCHEDULER2_STARTED
      then (case handleTimes2 z clock handler w s of
              None \<Rightarrow> None
            | Some (Some x, w', s') \<Rightarrow> Some (Inl (Some x, w', s'))
            | Some (None, w', s') \<Rightarrow> Some (Inr (w', s')))
      else if st = SCHEDULER2_SUSPENDED then Some (Inr (w, s))
      else Some (Inl (None, w, s)))"

end
