(* ===== verification/Times2Props.thy ===== *)
theory Times2Props
  imports Times2 TimesCalendarProps
begin

text \<open>
  \<open>Times2\<close> against \<open>Times\<close>: a \<open>Times2\<close> is a \<open>Times\<close> without its mutex (\<open>times2_of\<close>), whose expirations are the
  same; the two differ in what they do with the errors.
\<close>

section \<open>The same object\<close>

definition times2_of :: "times \<Rightarrow> times2" where
  "times2_of ti = \<lparr>schTimesStatus2 = (if schTimesStatus ti = SCHTIMES_STARTED then SCHTIMES2_STARTED else SCHTIMES2_INITIALIZED),
     ttTimesType2 = ttTimesType ti, className2 = pClassName ti, ulPeriodInMilliSeconds2 = ulPeriodInMilliSeconds ti,
     pCalendarSchedule2 = pCalendarSchedule ti, bNextDaylightSavingTime2 = bNextDaylightSavingTime ti,
     pNextExpirationDateTime2 = pNextExpirationDateTime ti, bCurrentDaylightSavingTime2 = bCurrentDaylightSavingTime ti,
     pCurrentExpirationDateTime2 = pCurrentExpirationDateTime ti\<rparr>"

lemma times2_of_simps [simp]:
  "schTimesStatus2 (times2_of ti) = SCHTIMES2_STARTED \<longleftrightarrow> schTimesStatus ti = SCHTIMES_STARTED"
  "schTimesStatus2 (times2_of ti) = SCHTIMES2_INITIALIZED \<longleftrightarrow> schTimesStatus ti \<noteq> SCHTIMES_STARTED"
  "ttTimesType2 (times2_of ti) = ttTimesType ti" "ulPeriodInMilliSeconds2 (times2_of ti) = ulPeriodInMilliSeconds ti"
  "pCalendarSchedule2 (times2_of ti) = pCalendarSchedule ti"
  "bNextDaylightSavingTime2 (times2_of ti) = bNextDaylightSavingTime ti"
  "pNextExpirationDateTime2 (times2_of ti) = pNextExpirationDateTime ti"
  "bCurrentDaylightSavingTime2 (times2_of ti) = bCurrentDaylightSavingTime ti"
  "pCurrentExpirationDateTime2 (times2_of ti) = pCurrentExpirationDateTime ti"
  by (simp_all add: times2_of_def)

lemma times2_of_updates [simp]:
  "(times2_of ti)\<lparr>bNextDaylightSavingTime2 := b\<rparr> = times2_of (ti\<lparr>bNextDaylightSavingTime := b\<rparr>)"
  "(times2_of ti)\<lparr>pNextExpirationDateTime2 := s\<rparr> = times2_of (ti\<lparr>pNextExpirationDateTime := s\<rparr>)"
  "(times2_of ti)\<lparr>bCurrentDaylightSavingTime2 := b\<rparr> = times2_of (ti\<lparr>bCurrentDaylightSavingTime := b\<rparr>)"
  "(times2_of ti)\<lparr>pCurrentExpirationDateTime2 := s\<rparr> = times2_of (ti\<lparr>pCurrentExpirationDateTime := s\<rparr>)"
  "(times2_of ti)\<lparr>schTimesStatus2 := SCHTIMES2_STARTED\<rparr> = times2_of (ti\<lparr>schTimesStatus := SCHTIMES_STARTED\<rparr>)"
  "(times2_of ti)\<lparr>schTimesStatus2 := SCHTIMES2_INITIALIZED\<rparr> = times2_of (ti\<lparr>schTimesStatus := SCHTIMES_INITIALIZED\<rparr>)"
  "times2_of (ti\<lparr>mtTimesMutex := m\<rparr>) = times2_of ti"
  by (simp_all add: times2_of_def)

lemma addMilliSecondsToDateTime2_eq: "addMilliSecondsToDateTime2 z s d p = addMilliSecondsToDateTime z s d p"
proof -
  have "to_ulong (v - to_ulong (v div 1000 * 1000)) = v - v div 1000 * 1000" if "0 \<le> v" "v < 2 ^ 64" for v
  proof -
    have d: "v div 1000 * 1000 = v - v mod 1000" by (rule minus_mod_eq_div_mult [symmetric])
    have m: "0 \<le> v mod 1000" "v mod 1000 < 1000" "v mod 1000 \<le> v" using that(1) by (simp_all add: zmod_le_nonneg_dividend)
    have "to_ulong (v - v mod 1000) = v - v mod 1000" unfolding to_ulong_def using that m by (intro mod_pos_pos_trivial) linarith+
    moreover have "to_ulong (v mod 1000) = v mod 1000" unfolding to_ulong_def using that m by (intro mod_pos_pos_trivial) linarith+
    ultimately show ?thesis unfolding d by simp
  qed
  moreover have "0 \<le> to_ulong x" "to_ulong x < 2 ^ 64" for x by (simp_all add: to_ulong_def)
  ultimately show ?thesis by (simp only: addMilliSecondsToDateTime2_def addMilliSecondsToDateTime_def Let_def)
qed

lemma updateNextPeriodic2_eq:
  "updateNextPeriodicExpirationDateTime2 z (times2_of ti) =
     map_option (\<lambda>(e, t). (e, times2_of t)) (updateNextPeriodicExpirationDateTime z ti)"
  by (simp add: updateNextPeriodicExpirationDateTime2_def updateNextPeriodicExpirationDateTime_def
      addMilliSecondsToDateTime2_eq split: sum.splits)

section \<open>The search\<close>

definition search_errors :: "scheduler_error set" where
  "search_errors = {SCH_CALENDARSCHEDULE_WRONG, SCH_LOCALTIME_R_FAILED, SCH_REACHED_LASTTIMEOUT}"

lemma calendar_round_errors: "calendar_round z s x = Failed e \<Longrightarrow> e \<in> search_errors"
  by (auto simp: calendar_round_def date_round_defs clock_round_defs token_def again_def search_errors_def
      split: option.splits if_splits year_verdict.splits)

lemma calendar_loop_result: "calendar_loop z s x = Some r \<Longrightarrow> r = Inl e \<longrightarrow> e \<in> search_errors"
  by (erule calendar_loop.raw_induct [where P = "\<lambda>z s x r. r = Inl e \<longrightarrow> e \<in> search_errors" and xa = "((z, s), x)",
        unfolded prod.case, rotated])
    (auto split: round_result.splits dest: calendar_round_errors)

lemma calendar_loop_errors: "calendar_loop z s x = Some (Inl e) \<Longrightarrow> e \<in> search_errors"
  using calendar_loop_result by blast

text \<open>What \<open>Times2\<close> makes of the answers of \<open>Times\<close>.\<close>

definition calendar_answer :: "lib_error \<Rightarrow> runtime_error + bool" where
  "calendar_answer e =
     (if e = NoError then Inr False
      else if e = SchedulerErrors SCH_REACHED_LASTTIMEOUT then Inr True
      else if e = SchedulerErrors SCH_SSCANF_FAILED then Inl Sscanf_failed
      else if e = SchedulerErrors SCH_CALENDARSCHEDULE_WRONG then Inl Strtok_r_failed
      else Inl Localtime_r_failed)"

lemma updateNextCalendar2_eq:
  "updateNextCalendarExpirationDateTime2 z (times2_of ti) =
     map_option (\<lambda>(e, t). map_sum id (\<lambda>b. (b, times2_of t)) (calendar_answer e)) (updateNextCalendarExpirationDateTime z ti)"
proof -
  have "calendar_answer (SchedulerErrors e) = (if e = SCH_REACHED_LASTTIMEOUT then Inr True else Inl (search_error e))"
    if "calendar_loop z (pCalendarSchedule ti) x = Some (Inl e)" for x e
    using calendar_loop_errors [OF that] by (auto simp: search_errors_def calendar_answer_def search_error_def)
  then show ?thesis
    unfolding updateNextCalendarExpirationDateTime2_def updateNextCalendarExpirationDateTime_def Let_def
    by (auto simp: calendar_answer_def split: option.splits sum.splits)
qed

text \<open>The exception leaves the object with its new current expiration.\<close>

lemma updateNextCalendar_same:
  "updateNextCalendarExpirationDateTime z ti = Some (e, ti') \<Longrightarrow> e \<noteq> NoError \<Longrightarrow> ti' = ti"
  by (auto simp: updateNextCalendarExpirationDateTime_def Let_def split: if_splits option.splits sum.splits)

section \<open>Updates\<close>

definition update_answer :: "times_type \<Rightarrow> lib_error \<Rightarrow> runtime_error + lib_error \<times> bool option" where
  "update_answer ty e =
     (if ty = SCH_TYPE_PERIODIC then Inr (e, Some False)
      else map_sum id (\<lambda>last_timeout. (NoError, Some last_timeout)) (calendar_answer e))"

lemma Times_update_idle:
  assumes "mtTimesMutex ti = Some 0" "schTimesStatus ti = SCHTIMES_STARTED"
  shows "Times_updateNextExpirationDateTime z ti =
    map_option (\<lambda>(e, t). (e, (if e = SchedulerErrors SCH_REACHED_LASTTIMEOUT then t\<lparr>schTimesStatus := SCHTIMES_INITIALIZED\<rparr> else t)\<lparr>mtTimesMutex := Some 0\<rparr>))
      (updateNextByType z (ti\<lparr>mtTimesMutex := Some (Suc 0), bCurrentDaylightSavingTime := bNextDaylightSavingTime ti,
         pCurrentExpirationDateTime := pNextExpirationDateTime ti\<rparr>))"
proof -
  have m: "mtTimesMutex t' = mtTimesMutex t" if "updateNextByType z t = Some (e, t')" for t t' e
    using updateNextByType_updated [OF that] by (auto simp: updated_def)
  show ?thesis
    using assms by (auto simp: Times_updateNextExpirationDateTime_def Let_def Times_release_eq split: option.splits dest!: m)
qed

lemma Times2_update_of:
  assumes "mtTimesMutex ti = Some 0" "schTimesStatus ti = SCHTIMES_STARTED"
  shows "Times2_updateNextExpirationDateTime z (times2_of ti) =
    map_option (\<lambda>(e, ti'). (update_answer (ttTimesType ti) e, times2_of ti')) (Times_updateNextExpirationDateTime z ti)"
proof -
  let ?t = "ti\<lparr>mtTimesMutex := Some (Suc 0), bCurrentDaylightSavingTime := bNextDaylightSavingTime ti,
    pCurrentExpirationDateTime := pNextExpirationDateTime ti\<rparr>"
  have t: "(times2_of ti)\<lparr>bCurrentDaylightSavingTime2 := bNextDaylightSavingTime ti,
      pCurrentExpirationDateTime2 := pNextExpirationDateTime ti\<rparr> = times2_of ?t" by (simp add: times2_of_def)
  have p: "e \<noteq> SchedulerErrors SCH_REACHED_LASTTIMEOUT" if "updateNextPeriodicExpirationDateTime z t0 = Some (e, t')" for e t0 t'
    using that by (auto simp: updateNextPeriodicExpirationDateTime_def split: sum.splits if_splits)
  have c: "calendar_answer e = Inl x \<Longrightarrow> t' = t0" if "updateNextCalendarExpirationDateTime z t0 = Some (e, t')" for e t0 t' x
    using updateNextCalendar_same [OF that] by (auto simp: calendar_answer_def split: if_splits)
  have r: "calendar_answer e = Inr b \<longleftrightarrow> e = NoError \<and> \<not> b \<or> e = SchedulerErrors SCH_REACHED_LASTTIMEOUT \<and> b" for e b
    by (auto simp: calendar_answer_def)
  note simps = assms(2) Times_update_idle [OF assms] Times2_updateNextExpirationDateTime_def Let_def t
    updateNextPeriodic2_eq updateNextCalendar2_eq updateNextByType_def update_answer_def
  have new: "times2_of (t'\<lparr>mtTimesMutex := m\<rparr>) = times2_of t'" for t' m by simp
  have init: "(times2_of t')\<lparr>schTimesStatus2 := SCHTIMES2_INITIALIZED\<rparr> =
      times2_of (t'\<lparr>schTimesStatus := SCHTIMES_INITIALIZED\<rparr>)" for t' by simp
  show ?thesis
  proof (cases "updateNextByType z ?t")
    case None
    then show ?thesis by (simp add: simps split: if_splits del: times2_of_updates)
  next
    case (Some r)
    obtain e t' where e: "r = (e, t')" by (cases r)
    show ?thesis
    proof (cases "ttTimesType ti = SCH_TYPE_PERIODIC")
      case True
      then have "e \<noteq> SchedulerErrors SCH_REACHED_LASTTIMEOUT" using p Some e by (simp add: updateNextByType_def)
      then show ?thesis using Some True by (simp add: simps e new del: times2_of_updates)
    next
      case False
      then have u: "updateNextCalendarExpirationDateTime z ?t = Some (e, t')" using Some e by (simp add: updateNextByType_def)
      show ?thesis
      proof (cases "calendar_answer e")
        case (Inl x)
        then have "e \<noteq> SchedulerErrors SCH_REACHED_LASTTIMEOUT" by (auto simp: calendar_answer_def)
        moreover have "times2_of (t'\<lparr>mtTimesMutex := Some 0\<rparr>) = times2_of ?t"
          unfolding c [OF u Inl] by (simp add: times2_of_def)
        ultimately show ?thesis using Some False u Inl by (simp add: simps e del: times2_of_updates)
      next
        case (Inr b)
        then have "e = NoError \<and> \<not> b \<or> e = SchedulerErrors SCH_REACHED_LASTTIMEOUT \<and> b" using r by simp
        then show ?thesis using Some False u Inr by (auto simp: simps e new init simp del: times2_of_updates)
      qed
    qed
  qed
qed



end
