(* ===== verification/Scheduler2Props.thy ===== *)
theory Scheduler2Props
  imports Scheduler2 Times2Props SchedulerProps
begin

text \<open>
  The scan of \<open>Scheduler2\<close>, against the scan of \<open>Scheduler\<close>, and where its exceptions end it.
\<close>

section \<open>The reaction of one object\<close>

definition reaction2 :: "zone \<Rightarrow> timeofday option \<Rightarrow> times2 \<Rightarrow> (reaction \<times> times2) option" where
  "reaction2 z now t =
     (if \<not> Times2_isStarted t then Some (Idle, t)
      else case Times2_isExpiredTime z now t of
             None \<Rightarrow> None
           | Some False \<Rightarrow> Some (Idle, t)
           | Some True \<Rightarrow>
               (case Times2_updateNextExpirationDateTime z t of
                  Some (Inr (NoError, Some b), t') \<Rightarrow> Some (Fires b, t')
                | _ \<Rightarrow> None))"

text \<open>The object reacts as the \<open>Times\<close> with the same members.\<close>

lemma isExpired2_eq:
  assumes "mtTimesMutex ti = Some 0" "Times_isExpiredTime z now ti True = Some (NoError, Some b, ti')"
  shows "Times2_isExpiredTime z now (times2_of ti) = Some b \<and> ti' = ti"
proof -
  have "ti\<lparr>mtTimesMutex := Some 0\<rparr> = ti" using assms(1) by (cases ti) simp
  then show ?thesis
    using assms by (auto simp: Times_isExpiredTime_def Times_query_def Let_def Times_release_eq Times2_isExpiredTime_def
        split: if_splits option.splits sum.splits)
qed

lemma isStarted2_eq:
  assumes "mtTimesMutex ti = Some 0" "Times_isStarted ti True = Some (NoError, Some b, ti')"
  shows "Times2_isStarted (times2_of ti) = b \<and> ti' = ti"
proof -
  have "ti\<lparr>mtTimesMutex := Some 0\<rparr> = ti" using assms(1) by (cases ti) simp
  then show ?thesis
    using assms by (auto simp: Times_isStarted_def Times_query_def Let_def Times_release_eq Times2_isStarted_def split: if_splits)
qed

lemma update2_eq:
  assumes "mtTimesMutex ti = Some 0" "schTimesStatus ti = SCHTIMES_STARTED"
    and "Times_updateNextExpirationDateTime z ti = Some (e, ti')" "e = NoError \<and> \<not> b \<or> e = SchedulerErrors SCH_REACHED_LASTTIMEOUT \<and> b"
  shows "Times2_updateNextExpirationDateTime z (times2_of ti) = Some (Inr (NoError, Some b), times2_of ti')"
proof -
  have "b \<Longrightarrow> ttTimesType ti = SCH_TYPE_CALENDAR"
    using assms(3,4) by (cases "ttTimesType ti")
      (auto simp: Times_update_idle [OF assms(1,2)] updateNextByType_def updateNextPeriodicExpirationDateTime_def
        split: sum.splits if_splits)
  then show ?thesis
    using Times2_update_of [OF assms(1,2), of z] assms(3,4) by (auto simp: update_answer_def calendar_answer_def)
qed

lemma reaction2_of:
  assumes "mtTimesMutex ti = Some 0" "reaction z now ti = Some (r, ti')"
  shows "reaction2 z now (times2_of ti) = Some (r, times2_of ti')"
  using assms(2)
proof (cases rule: reaction_cases)
  case 1
  then show ?thesis using isStarted2_eq [OF assms(1)] by (auto simp: reaction2_def)
next
  case (2 t1)
  then have t1: "Times2_isStarted (times2_of ti)" "t1 = ti" using isStarted2_eq [OF assms(1)] by auto
  then show ?thesis using isExpired2_eq [OF assms(1), of z now False ti'] 2 by (simp add: reaction2_def)
next
  case (3 t1 t2)
  then have t1: "Times2_isStarted (times2_of ti)" "t1 = ti" using isStarted2_eq [OF assms(1)] by auto
  then have t2: "Times2_isExpiredTime z now (times2_of ti) = Some True" "t2 = ti" using isExpired2_eq [OF assms(1)] 3 by auto
  have "schTimesStatus ti = SCHTIMES_STARTED" using t1(1) by (simp add: Times2_isStarted_def)
  then show ?thesis using update2_eq [OF assms(1), of z NoError ti' False] t1 t2 3 by (simp add: reaction2_def)
next
  case (4 t1 t2)
  then have t1: "Times2_isStarted (times2_of ti)" "t1 = ti" using isStarted2_eq [OF assms(1)] by auto
  then have t2: "Times2_isExpiredTime z now (times2_of ti) = Some True" "t2 = ti" using isExpired2_eq [OF assms(1)] 4 by auto
  have "schTimesStatus ti = SCHTIMES_STARTED" using t1(1) by (simp add: Times2_isStarted_def)
  then show ?thesis using update2_eq [OF assms(1), of z _ ti' True] t1 t2 4 by (simp add: reaction2_def)
qed

section \<open>The scan\<close>

text \<open>A handler that leaves the scheduler alone: whether it throws, and what it does to the user's state.\<close>

definition leaves_alone2 :: "'w handler2 \<Rightarrow> (nat \<Rightarrow> bool) \<Rightarrow> (nat \<Rightarrow> 'w \<Rightarrow> 'w) \<Rightarrow> bool" where
  "leaves_alone2 handler threw hw \<longleftrightarrow> (\<forall>p w s. handler p w s = Some (threw p, hw p w, s))"

definition with_list :: "scheduler2 \<Rightarrow> nat list \<Rightarrow> (nat \<Rightarrow> times2 option) \<Rightarrow> scheduler2" where
  "with_list s ps h = s\<lparr>timesList := map Some ps, times2At := h\<rparr>"

lemma with_list_simps [simp]:
  "timesList (with_list s ps h) = map Some ps" "times2At (with_list s ps h) = h"
  "set_times2 (with_list s ps h) p t = with_list s ps (h(p \<mapsto> t))"
  by (simp_all add: with_list_def set_times2_def)

lemma drop_index2_with_list:
  "drop_index2 (with_list s (pre @ p # post) h) (length pre) w f = f (with_list s (pre @ post) h)"
  by (cases s) (simp add: drop_index2_def deactiveTimes2_index_def index_in_list_def erase_times_def with_list_def)

definition leaves2 :: "(nat \<Rightarrow> bool) \<Rightarrow> nat \<times> reaction \<times> 'o \<Rightarrow> bool" where
  "leaves2 threw v = (case v of (p, r, _) \<Rightarrow> r = Fires True \<or> r = Fires False \<and> threw p)"

lemma visit_times2_with_list:
  assumes "h p = Some t" "reaction2 z now t = Some (r, t')" "leaves_alone2 handler threw hw"
  shows "visit_times2 z now handler (length pre) w (with_list s (pre @ p # post) h) =
    Some (Inr (leaves2 threw (p, r, t'), if r = Idle then w else hw p w,
      with_list s (pre @ (if leaves2 threw (p, r, t') then post else p # post)) (h(p \<mapsto> t'))))"
proof -
  have handler: "handler p w s' = Some (threw p, hw p w, s')" for s' using assms(3) by (simp add: leaves_alone2_def)
  show ?thesis
    using assms(1,2) by (auto simp: reaction2_def visit_times2_def visit_expired2_def leaves2_def nth_append fun_upd_idem
        drop_index2_with_list call_handleTimeOut2_def handler split: if_splits option.splits bool.splits sum.splits lib_error.splits)
qed

definition kept2 :: "(nat \<Rightarrow> bool) \<Rightarrow> (nat \<times> reaction \<times> 'o) list \<Rightarrow> nat list" where
  "kept2 threw vs = map fst (filter (\<lambda>v. \<not> leaves2 threw v) vs)"

definition objects_after2 :: "(nat \<times> reaction \<times> 'o) list \<Rightarrow> nat \<Rightarrow> 'o option" where
  "objects_after2 vs = map_of (map (\<lambda>(p, _, t). (p, t)) vs)"

definition reacts2 :: "zone \<Rightarrow> (nat \<Rightarrow> timeofday option) \<Rightarrow> nat \<Rightarrow> (nat \<Rightarrow> times2 option) \<Rightarrow>
    (nat \<times> reaction \<times> times2) list \<Rightarrow> bool" where
  "reacts2 z clock k h vs \<longleftrightarrow>
     (\<forall>j < length vs. \<exists>t. h (fst (vs ! j)) = Some t \<and> reaction2 z (clock (k + j)) t = Some (snd (vs ! j)))"

lemma reacts2_Cons:
  "reacts2 z clock k h (v # vs) \<longleftrightarrow>
     (\<exists>t. h (fst v) = Some t \<and> reaction2 z (clock k) t = Some (snd v)) \<and> reacts2 z clock (Suc k) h vs"
  by (auto simp: reacts2_def less_Suc_eq_0_disj)

lemma reacts2_upd: "p \<notin> fst ` set vs \<Longrightarrow> reacts2 z clock k (h(p \<mapsto> t)) vs = reacts2 z clock k h vs"
  unfolding reacts2_def by (metis (mono_tags, lifting) fun_upd_apply image_eqI nth_mem)

lemma objects_after2_Cons: "p \<notin> fst ` set vs \<Longrightarrow> h(p \<mapsto> t) ++ objects_after2 vs = h ++ objects_after2 ((p, r, t) # vs)"
  by (subst map_add_upd_left) (force simp: objects_after2_def dest!: map_of_SomeD, simp add: objects_after2_def)

lemma handle_loop2_scan:
  assumes "distinct (map fst vs)" "reacts2 z clock k h vs" "leaves_alone2 handler threw hw"
  shows "handle_loop2 z clock handler k (length pre) w (with_list s (pre @ map fst vs) h) =
    Some (None, fold hw (fired vs) w, with_list s (pre @ kept2 threw vs) (h ++ objects_after2 vs))"
  using assms(1,2)
proof (induction vs arbitrary: pre h k w)
  case Nil
  then show ?case by (subst handle_loop2.simps) (simp add: fired_def kept2_def objects_after2_def)
next
  case (Cons v vs)
  obtain p r t' where v: "v = (p, r, t')" by (cases v)
  have p: "p \<notin> fst ` set vs" "distinct (map fst vs)" using Cons.prems(1) by (auto simp: v)
  obtain t where t: "h p = Some t" "reaction2 z (clock k) t = Some (r, t')" "reacts2 z clock (Suc k) h vs"
    using Cons.prems(2) by (auto simp: reacts2_Cons v)
  let ?w = "if r = Idle then w else hw p w" and ?pre = "if leaves2 threw v then pre else pre @ [p]"
  have "handle_loop2 z clock handler k (length pre) w (with_list s (pre @ map fst (v # vs)) h) =
      handle_loop2 z clock handler (Suc k) (length ?pre) ?w (with_list s (?pre @ map fst vs) (h(p \<mapsto> t')))"
    using visit_times2_with_list [where h = h, OF t(1,2) assms(3), of pre w s "map fst vs"] by (subst handle_loop2.simps) (simp add: v)
  moreover have "fold hw (fired (v # vs)) w = fold hw (fired vs) ?w" "pre @ kept2 threw (v # vs) = ?pre @ kept2 threw vs"
    by (simp_all add: fired_def kept2_def v)
  ultimately show ?case
    using Cons.IH [of "Suc k" "h(p \<mapsto> t')" ?pre ?w] p t(3) reacts2_upd [OF p(1)] objects_after2_Cons [OF p(1), of h t' r]
    by (simp only: v)
qed

section \<open>The two schedulers\<close>

lemma reacts2_of:
  assumes "reacts z clock k h vs" "\<And>p ti. h p = Some ti \<Longrightarrow> p \<in> fst ` set vs \<Longrightarrow> mtTimesMutex ti = Some 0"
  shows "reacts2 z clock k (map_option times2_of \<circ> h) (map (\<lambda>(p, r, t). (p, r, times2_of t)) vs)"
  unfolding reacts2_def
proof (intro allI impI)
  fix j assume "j < length (map (\<lambda>(p, r, t). (p, r, times2_of t)) vs)"
  then have j: "j < length vs" by simp
  obtain p r t where v: "vs ! j = (p, r, t)" by (cases "vs ! j")
  obtain ti where ti: "h p = Some ti" "reaction z (clock (k + j)) ti = Some (r, t)"
    using assms(1) j v by (auto simp: reacts_def)
  have "p \<in> fst ` set vs" using j v by (metis fst_conv image_eqI nth_mem)
  then show "\<exists>t. (map_option times2_of \<circ> h) (fst (map (\<lambda>(p, r, t). (p, r, times2_of t)) vs ! j)) = Some t \<and>
      reaction2 z (clock (k + j)) t = Some (snd (map (\<lambda>(p, r, t). (p, r, times2_of t)) vs ! j))"
    using reaction2_of [OF assms(2) ti(2)] ti(1) j v by simp
qed


definition two_times :: "address \<Rightarrow> times option" where
  "two_times = (\<lambda>_. Some (started_times 1614350475478))"

definition two_times2 :: scheduler2 where
  "two_times2 = \<lparr>ulThreadSleepInMilliSecs2 = 3, schedulerStatus2 = SCHEDULER2_STARTED, timesList = [Some 4, Some 2],
     times2At = map_option times2_of \<circ> two_times\<rparr>"


section \<open>Exceptions\<close>

lemma text_le_empty: "text_le [] t"
proof (cases t)
  case (Cons c s)
  have "0 \<le> (of_char c :: int)" by (metis of_nat_of_char of_nat_0_le_iff)
  then show ?thesis using Cons by (simp add: text_le_def lit_def)
qed simp

text \<open>A handler that deactivates its own object and then throws.\<close>

definition self_throwing :: "nat list handler2" where
  "self_throwing p w s = (case deactiveTimes2 s (Some p) of None \<Rightarrow> None | Some (_, s') \<Rightarrow> Some (True, w @ [p], s'))"

text \<open>When a handler deactivates its own object and then throws, the scan deactivates the object at the index
  once more, which is the next one: it leaves the scheduler without having been visited. When there is no next
  one, the exception of that deactivation leaves the scan and ends the thread.\<close>

theorem throwing_handler_deactivates_next:
  assumes "times2At s p = Some t" "reaction2 z (clock 0) t = Some (Fires False, t')"
  shows "(p \<noteq> q \<and> timesList s = [Some p, Some q] \<longrightarrow>
      handleTimes2 z clock self_throwing w s = Some (None, w @ [p], s\<lparr>timesList := [], times2At := (times2At s)(p \<mapsto> t')\<rparr>)) \<and>
    (timesList s = [Some p] \<longrightarrow>
      run2_round z clock self_throwing SCHEDULER2_STARTED w s =
        Some (Inl (Some Wrong_parameter, w @ [p], s\<lparr>timesList := [], times2At := (times2At s)(p \<mapsto> t')\<rparr>)))"
proof -
  let ?s = "set_times2 s p t'"
  have visit: "visit_times2 z (clock 0) self_throwing 0 w s = call_handleTimeOut2 self_throwing 0 p False w ?s"
    if "timesList s = Some p # rest" for rest
    using assms that by (auto simp: reaction2_def visit_times2_def visit_expired2_def
        split: if_splits option.splits bool.splits sum.splits lib_error.splits)
  note call = call_handleTimeOut2_def self_throwing_def deactiveTimes2_def getTimesPointerIndex2_def Let_def
    deactiveTimes2_index_def index_in_list_def erase_times_def drop_index2_def set_times2_def
  have two: "handleTimes2 z clock self_throwing w s = Some (None, w @ [p], s\<lparr>timesList := [], times2At := (times2At s)(p \<mapsto> t')\<rparr>)"
    if "p \<noteq> q" "timesList s = [Some p, Some q]"
  proof -
    have "call_handleTimeOut2 self_throwing 0 p False w ?s =
        Some (Inr (True, w @ [p], s\<lparr>timesList := [], times2At := (times2At s)(p \<mapsto> t')\<rparr>))"
      using that by (cases s) (simp add: call)
    then show ?thesis
      using visit [OF that(2)] that(2) unfolding handleTimes2_def
      by (subst handle_loop2.simps) (simp add: handle_loop2.simps)
  qed
  have one: "handleTimes2 z clock self_throwing w s = Some (Some Wrong_parameter, w @ [p], s\<lparr>timesList := [], times2At := (times2At s)(p \<mapsto> t')\<rparr>)"
    if "timesList s = [Some p]"
  proof -
    have "call_handleTimeOut2 self_throwing 0 p False w ?s =
        Some (Inl (Wrong_parameter, w @ [p], s\<lparr>timesList := [], times2At := (times2At s)(p \<mapsto> t')\<rparr>))"
      using that by (cases s) (simp add: call)
    then show ?thesis
      using visit [OF that] that unfolding handleTimes2_def by (subst handle_loop2.simps) simp
  qed
  show ?thesis using two one by (simp add: run2_round_def)
qed

theorem throwing_handler_deactivates_next_witness:
  "\<exists>s'. handleTimes2 (fixed_zone 3600 0) (\<lambda>_. Some noon) self_throwing [] two_times2 = Some (None, [4], s') \<and> timesList s' = []"
proof -
  obtain ti' where r: "reaction (fixed_zone 3600 0) (Some noon) (started_times 1614350475478) = Some (Fires False, ti')"
    using started_times_fires by blast
  have "reaction2 (fixed_zone 3600 0) (Some noon) (times2_of (started_times 1614350475478)) = Some (Fires False, times2_of ti')"
    using reaction2_of [OF _ r] by (simp add: started_times_def)
  then show ?thesis
    using throwing_handler_deactivates_next [of two_times2 4 "times2_of (started_times 1614350475478)" "fixed_zone 3600 0"
        "\<lambda>_. Some noon" "times2_of ti'" 2 "[]"]
    by (simp add: two_times2_def two_times_def)
qed



end
