(* ===== verification/EventsFactory.thy ===== *)
theory EventsFactory
  imports Prelude
begin

text \<open>
  The objects \<open>Event2\<close> and the pools of \<open>EventsFactory\<close> of \<open>MultiEventsSet/src\<close>. A
  \<^verbatim>\<open>shared_ptr\<close> is the index of its object in the list of the events made so far; all events of a type
  are of the class its clients ask for. A time point is a number of nanoseconds, \<^verbatim>\<open>long\<close> values stay
  in their range, and an exception is the left side of a result, beside the state it leaves. Every call
  holds the recursive mutex from its first to its last step.
\<close>

section \<open>Events\<close>

record event2 =
  eventKey :: "int \<times> int"
  source :: string
  destination :: string
  expirationTimePoint :: int
  startProcessingTime :: int

text \<open>The members the constructor leaves: the key is zero, the strings are empty, the times are the epoch.\<close>

definition Event2_ctor :: event2 where
  "Event2_ctor = \<lparr>eventKey = (0, 0), source = [], destination = [], expirationTimePoint = 0, startProcessingTime = 0\<rparr>"

definition getEventKey :: "event2 \<Rightarrow> int \<times> int" where
  "getEventKey e = eventKey e"

definition setEventKey :: "int \<times> int \<Rightarrow> event2 \<Rightarrow> event2" where
  "setEventKey k e = e\<lparr>eventKey := k\<rparr>"

definition getDestination :: "event2 \<Rightarrow> string" where
  "getDestination e = destination e"

definition setDestination :: "string \<Rightarrow> event2 \<Rightarrow> event2" where
  "setDestination d e = e\<lparr>destination := d\<rparr>"

definition setSource :: "string \<Rightarrow> event2 \<Rightarrow> event2" where
  "setSource d e = e\<lparr>source := d\<rparr>"

definition setStartProcessingTime :: "int \<Rightarrow> event2 \<Rightarrow> event2" where
  "setStartProcessingTime t e = e\<lparr>startProcessingTime := t\<rparr>"

definition getExpirationTimePoint :: "event2 \<Rightarrow> int" where
  "getExpirationTimePoint e = expirationTimePoint e"

definition setExpirationTimePoint :: "int \<Rightarrow> event2 \<Rightarrow> event2" where
  "setExpirationTimePoint t e = e\<lparr>expirationTimePoint := t\<rparr>"

type_synonym events = "event2 list"

definition event_ref :: "events \<Rightarrow> nat \<Rightarrow> event2 option" where
  "event_ref evs p = (if p < length evs then Some (evs ! p) else None)"

section \<open>The factory\<close>

record event_type_info2 =
  eventTypeIdentifier :: int
  blockEventsNumber :: int
  maxEventsNumberToBeAllocated :: int
  currentEventsNumber :: int
  freeEvents :: "nat list"
  usedEvents :: "(int \<times> int) \<Rightarrow> nat option"

type_synonym factory = "int \<Rightarrow> event_type_info2 option"

datatype factory_error =
    EventTypeAlreadyPresent int
  | ErrorAddingEventType int
  | NoMoreEvents int int int
  | EventTypeNotFound int
  | EventNotFound int int

definition defaultBlockEventsNumber :: int where
  "defaultBlockEventsNumber = 50"

definition defaultMaxEventsNumberToBeAllocated :: int where
  "defaultMaxEventsNumberToBeAllocated = 10000"

definition EventsFactory_ctor :: factory where
  "EventsFactory_ctor = (\<lambda>_. None)"

definition addEventType :: "int \<Rightarrow> int \<Rightarrow> int \<Rightarrow> factory \<Rightarrow> factory_error option \<times> factory" where
  "addEventType ident blockNumber maxNumber f =
     (if f ident \<noteq> None then (Some (EventTypeAlreadyPresent ident), f)
      else (None, f(ident \<mapsto> \<lparr>eventTypeIdentifier = ident, blockEventsNumber = blockNumber,
              maxEventsNumberToBeAllocated = maxNumber, currentEventsNumber = 0,
              freeEvents = [], usedEvents = (\<lambda>_. None)\<rparr>)))"

text \<open>The loop that makes a block of events.\<close>

function make_block :: "int \<Rightarrow> event_type_info2 \<Rightarrow> events \<Rightarrow> event_type_info2 \<times> events" where
  "make_block eventIndex ti evs =
     (if eventIndex < blockEventsNumber ti
      then make_block (eventIndex + 1)
             (ti\<lparr>freeEvents := freeEvents ti @ [length evs], currentEventsNumber := currentEventsNumber ti + 1\<rparr>)
             (evs @ [setEventKey (eventTypeIdentifier ti, currentEventsNumber ti) Event2_ctor])
      else (ti, evs))"
  by pat_completeness auto

termination
  by (relation "measure (\<lambda>(i, ti, _). nat (blockEventsNumber ti - i))") auto

declare make_block.simps [simp del]

text \<open>\<open>front\<close> of an empty deque has no defined result (\<open>None\<close>).\<close>

definition hand_out :: "int \<Rightarrow> int \<Rightarrow> event_type_info2 \<Rightarrow> factory \<Rightarrow> events \<Rightarrow>
    ((factory_error + nat) \<times> factory \<times> events) option" where
  "hand_out ident now ti f evs =
     (case freeEvents ti of
        [] \<Rightarrow> None
      | p # free \<Rightarrow> do {
          e \<leftarrow> event_ref evs p;
          let e' = setStartProcessingTime now e;
          Some (Inr p,
            f(ident \<mapsto> ti\<lparr>freeEvents := free, usedEvents := (usedEvents ti)(getEventKey e' :=
                 (case usedEvents ti (getEventKey e') of None \<Rightarrow> Some p | Some q \<Rightarrow> Some q))\<rparr>),
            evs[p := e'])
        })"

definition getFreeEvent2 :: "int \<Rightarrow> int \<Rightarrow> factory \<Rightarrow> events \<Rightarrow> ((factory_error + nat) \<times> factory \<times> events) option" where
  "getFreeEvent2 ident now f evs =
     (let f1 = (if f ident = None
                then snd (addEventType ident defaultBlockEventsNumber defaultMaxEventsNumberToBeAllocated f) else f)
      in case f1 ident of
           None \<Rightarrow> Some (Inl (ErrorAddingEventType ident), f1, evs)
         | Some ti \<Rightarrow>
             if freeEvents ti = []
             then if currentEventsNumber ti + blockEventsNumber ti \<ge> maxEventsNumberToBeAllocated ti
                  then Some (Inl (NoMoreEvents (currentEventsNumber ti) (blockEventsNumber ti)
                               (maxEventsNumberToBeAllocated ti)), f1, evs)
                  else (let (ti', evs') = make_block 0 ti evs in hand_out ident now ti' f1 evs')
             else hand_out ident now ti f1 evs)"

definition releaseEvent2 :: "nat \<Rightarrow> factory \<Rightarrow> events \<Rightarrow> (factory_error option \<times> factory) option" where
  "releaseEvent2 p f evs = do {
     e \<leftarrow> event_ref evs p;
     let (ident, n) = getEventKey e;
     (case f ident of
        None \<Rightarrow> Some (Some (EventTypeNotFound ident), f)
      | Some ti \<Rightarrow>
          (case usedEvents ti (ident, n) of
             None \<Rightarrow> Some (Some (EventNotFound ident n), f)
           | Some _ \<Rightarrow> Some (None, f(ident \<mapsto> ti\<lparr>freeEvents := freeEvents ti @ [p],
                                usedEvents := (usedEvents ti)((ident, n) := None)\<rparr>))))
   }"

end
