(* ===== verification/MultiEventsSet.thy ===== *)
theory MultiEventsSet
  imports EventQueue EventsFactory
begin

text \<open>
  The class \<open>MultiEventsSet\<close> of \<open>MultiEventsSet/src\<close>: one ordered queue of events per destination. A
  call runs with the mutex from its first step to its end, except while it waits for the condition of
  its destination: there it is cut, and continues in \<open>mes_resume\<close>. Destinations are never removed, so the
  \<^verbatim>\<open>shared_ptr\<close> a waiting call keeps is the queue of its destination. Times are nanoseconds, durations of
  the callers milliseconds.
\<close>

section \<open>State\<close>

record multi_events_set =
  multiEventsSetHashMap :: "string \<Rightarrow> (int, nat) multimap option"
  eventsFactory :: factory

datatype mes_error =
    ErrorAddingDestination string
  | DestinationNotFound string
  | EventWasNotFound int
  | DestinationAlreadyPresent string

definition MultiEventsSet_ctor :: multi_events_set where
  "MultiEventsSet_ctor = \<lparr>multiEventsSetHashMap = (\<lambda>_. None), eventsFactory = EventsFactory_ctor\<rparr>"

definition addDestination2 :: "string \<Rightarrow> multi_events_set \<Rightarrow> mes_error option \<times> multi_events_set" where
  "addDestination2 d m =
     (if multiEventsSetHashMap m d \<noteq> None then (Some (DestinationAlreadyPresent d), m)
      else (None, m\<lparr>multiEventsSetHashMap := (multiEventsSetHashMap m)(d \<mapsto> [])\<rparr>))"

definition set_queue :: "string \<Rightarrow> (int, nat) multimap \<Rightarrow> multi_events_set \<Rightarrow> multi_events_set" where
  "set_queue d q m = m\<lparr>multiEventsSetHashMap := (multiEventsSetHashMap m)(d \<mapsto> q)\<rparr>"

section \<open>Adding and deleting\<close>

text \<open>The right side says whether the condition of the destination is notified.\<close>

definition addEvent2 :: "nat \<Rightarrow> events \<Rightarrow> multi_events_set \<Rightarrow> ((mes_error + bool) \<times> multi_events_set) option" where
  "addEvent2 p evs m = do {
     event \<leftarrow> event_ref evs p;
     let d = getDestination event;
     let t = getExpirationTimePoint event;
     (case multiEventsSetHashMap m d of
        None \<Rightarrow> Some (Inl (ErrorAddingDestination d), m)
      | Some q \<Rightarrow> do {
          headExpiration \<leftarrow> (case q of
             [] \<Rightarrow> Some None
           | (_, h) # _ \<Rightarrow> do { headEvent \<leftarrow> event_ref evs h; Some (Some (getExpirationTimePoint headEvent)) });
          Some (Inr (case headExpiration of None \<Rightarrow> True | Some th \<Rightarrow> t < th), set_queue d (mm_insert t p q) m)
        })
   }"

text \<open>The search in \<^verbatim>\<open>equal_range\<close> of the expiration for the event with the same key.\<close>

fun find_event :: "events \<Rightarrow> int \<Rightarrow> int \<times> int \<Rightarrow> (int, nat) multimap \<Rightarrow> nat option option" where
  "find_event evs t k [] = Some None"
| "find_event evs t k ((t', p) # q) =
     (if t' = t
      then do {
        e \<leftarrow> event_ref evs p;
        if getEventKey e = k then Some (Some 0) else map_option (map_option Suc) (find_event evs t k q)
      }
      else map_option (map_option Suc) (find_event evs t k q))"

definition deleteEvent2 :: "nat \<Rightarrow> events \<Rightarrow> multi_events_set \<Rightarrow> (mes_error option \<times> multi_events_set) option" where
  "deleteEvent2 p evs m = do {
     event \<leftarrow> event_ref evs p;
     let d = getDestination event;
     (case multiEventsSetHashMap m d of
        None \<Rightarrow> Some (Some (DestinationNotFound d), m)
      | Some q \<Rightarrow> do {
          found \<leftarrow> find_event evs (getExpirationTimePoint event) (getEventKey event) q;
          (case found of
             None \<Rightarrow> Some (Some (EventWasNotFound (getExpirationTimePoint event)), m)
           | Some i \<Rightarrow> Some (None, set_queue d (mm_erase i q) m))
        })
   }"

section \<open>The calls that wait\<close>

datatype mes_call = GetFirst2 | TakeFirst2

text \<open>A call that waits: for how many milliseconds, and whether in the loop of \<open>getAndRemoveFirstEvent\<close>.\<close>

record mes_waiter =
  mwCall :: mes_call
  mwDestination :: string
  mwMilliSecondsToBlock :: int
  mwInitialTimePoint :: int
  mwInLoop :: bool
  mwWait :: int

text \<open>A call that returns gives the exception, no event or an event, and for \<open>getFirstEvent\<close> the flag
  \<open>eventExpired\<close>.\<close>

datatype mes_outcome =
    Mes_returns "mes_error + nat option" "bool option" multi_events_set
  | Mes_waits mes_waiter multi_events_set

abbreviation mes_queue :: "multi_events_set \<Rightarrow> string \<Rightarrow> (int, nat) multimap" where
  "mes_queue m d \<equiv> (case multiEventsSetHashMap m d of None \<Rightarrow> [] | Some q \<Rightarrow> q)"

text \<open>\<^verbatim>\<open>duration_cast\<close> to milliseconds cuts towards zero.\<close>

definition to_millis :: "int \<Rightarrow> int" where
  "to_millis ns = (if 0 \<le> ns then ns div 1000000 else - ((- ns) div 1000000))"

definition first_event_of :: "multi_events_set \<Rightarrow> events \<Rightarrow> string \<Rightarrow> int \<Rightarrow> mes_outcome option" where
  "first_event_of m evs d now =
     (case mes_queue m d of
        [] \<Rightarrow> None
      | (_, p) # _ \<Rightarrow> do {
          event \<leftarrow> event_ref evs p;
          Some (Mes_returns (Inr (Some p)) (Some (\<not> now < getExpirationTimePoint event)) m)
        })"

definition getFirstEvent2 :: "multi_events_set \<Rightarrow> events \<Rightarrow> string \<Rightarrow> bool \<Rightarrow> int \<Rightarrow> int \<Rightarrow> mes_outcome option" where
  "getFirstEvent2 m evs d blocking ms now =
     (case multiEventsSetHashMap m d of
        None \<Rightarrow> Some (Mes_returns (Inl (ErrorAddingDestination d)) None m)
      | Some q \<Rightarrow>
          if q = []
          then if blocking
               then Some (Mes_waits \<lparr>mwCall = GetFirst2, mwDestination = d, mwMilliSecondsToBlock = ms,
                      mwInitialTimePoint = 0, mwInLoop = False, mwWait = ms\<rparr> m)
               else Some (Mes_returns (Inr None) None m)
          else first_event_of m evs d now)"

text \<open>The loop of \<open>getAndRemoveFirstEvent\<close>. The call reads the clock \<open>clock\<close>, the next reading is the one with the
  number \<open>i\<close>; \<^verbatim>\<open>wait_for\<close> with a predicate only waits while the predicate is false. A loop that never
  ends is \<open>None\<close>; the number of the readings is given back.\<close>

partial_function (option) mes_take_loop ::
  "(nat \<Rightarrow> int) \<Rightarrow> nat \<Rightarrow> multi_events_set \<Rightarrow> events \<Rightarrow> string \<Rightarrow> bool \<Rightarrow> int \<Rightarrow> int \<Rightarrow> (mes_outcome \<times> nat) option" where
  "mes_take_loop clock i m evs d blocking ms initial =
     (case mes_queue m d of
        [] \<Rightarrow> Some (Mes_returns (Inr None) None m, i)
      | (_, p) # q \<Rightarrow> do {
          event \<leftarrow> event_ref evs p;
          let now = clock i;
          let t = getExpirationTimePoint event;
          if now < t
          then if blocking
               then let remaining = ms - to_millis (now - initial)
                    in if remaining \<le> 0 then Some (Mes_returns (Inr None) None m, i + 1)
                       else let remaining' = (if t - now \<le> remaining * 1000000 then to_millis (t - now) else remaining)
                            in if mes_queue m d \<noteq> [] then mes_take_loop clock (i + 1) m evs d blocking ms initial
                               else Some (Mes_waits \<lparr>mwCall = TakeFirst2, mwDestination = d, mwMilliSecondsToBlock = ms,
                                      mwInitialTimePoint = initial, mwInLoop = True, mwWait = remaining'\<rparr> m, i + 1)
               else Some (Mes_returns (Inr None) None m, i + 1)
          else Some (Mes_returns (Inr (Some p)) None (set_queue d q m), i + 1)
        })"

text \<open>The first reading of the clock is \<open>initialTimePoint\<close>.\<close>

definition getAndRemoveFirstEvent2 ::
  "(nat \<Rightarrow> int) \<Rightarrow> multi_events_set \<Rightarrow> events \<Rightarrow> string \<Rightarrow> bool \<Rightarrow> int \<Rightarrow> (mes_outcome \<times> nat) option" where
  "getAndRemoveFirstEvent2 clock m evs d blocking ms =
     (let initial = clock 0
      in case multiEventsSetHashMap m d of
           None \<Rightarrow> Some (Mes_returns (Inl (ErrorAddingDestination d)) None m, 1)
         | Some q \<Rightarrow>
             if q = []
             then if blocking
                  then Some (Mes_waits \<lparr>mwCall = TakeFirst2, mwDestination = d, mwMilliSecondsToBlock = ms,
                         mwInitialTimePoint = initial, mwInLoop = False, mwWait = ms\<rparr> m, 1)
                  else Some (Mes_returns (Inr None) None m, 1)
             else mes_take_loop clock 1 m evs d blocking ms initial)"

text \<open>A waiting call that has the mutex again: it was notified, woken without reason, or its time is over
  (\<open>timed_out\<close>). \<^verbatim>\<open>wait_for\<close> looks at its predicate; it waits on when it is false and time is left. (The
  exceptions for a queue that is empty behind a true predicate are never thrown.)\<close>

definition mes_resume ::
  "mes_waiter \<Rightarrow> bool \<Rightarrow> (nat \<Rightarrow> int) \<Rightarrow> multi_events_set \<Rightarrow> events \<Rightarrow> mes_outcome option" where
  "mes_resume w timed_out clock m evs =
     (let d = mwDestination w; predicate = mes_queue m d \<noteq> []
      in if \<not> predicate \<and> \<not> timed_out then Some (Mes_waits w m)
         else if mwInLoop w
         then map_option fst (mes_take_loop clock 0 m evs d True (mwMilliSecondsToBlock w) (mwInitialTimePoint w))
         else if \<not> predicate then Some (Mes_returns (Inr None) None m)
         else if mwCall w = GetFirst2 then first_event_of m evs d (clock 0)
         else map_option fst (mes_take_loop clock 0 m evs d True (mwMilliSecondsToBlock w) (mwInitialTimePoint w)))"

end
