(* ===== verification/EventsFactoryProps.thy ===== *)
theory EventsFactoryProps
  imports EventsFactory
begin

text \<open>
  The pools of \<open>EventsFactory\<close>: every event made is free or handed out, never both, its key is
  its own, and the number of events of a type stays below the maximum.
\<close>

section \<open>Invariant\<close>

text \<open>Only the keys of the events matter: \<open>ks ! p\<close> is the key of the event \<open>p\<close>.\<close>

definition of_type :: "int \<Rightarrow> (int \<times> int) list \<Rightarrow> nat set" where
  "of_type ident ks = {p. p < length ks \<and> fst (ks ! p) = ident}"

definition limits_ok :: "event_type_info2 \<Rightarrow> bool" where
  "limits_ok ti \<longleftrightarrow> 0 < blockEventsNumber ti \<and> 0 \<le> currentEventsNumber ti \<and>
     (currentEventsNumber ti = 0 \<or> currentEventsNumber ti < maxEventsNumberToBeAllocated ti)"

text \<open>The events of a type that are handed out.\<close>

definition used :: "event_type_info2 \<Rightarrow> nat set" where
  "used ti = ran (usedEvents ti)"

definition type_ok :: "int \<Rightarrow> event_type_info2 \<Rightarrow> (int \<times> int) list \<Rightarrow> bool" where
  "type_ok ident ti ks \<longleftrightarrow> eventTypeIdentifier ti = ident \<and> limits_ok ti \<and> distinct (freeEvents ti) \<and>
     set (freeEvents ti) \<union> used ti = of_type ident ks \<and> set (freeEvents ti) \<inter> used ti = {} \<and>
     (\<forall>k p. usedEvents ti k = Some p \<longrightarrow> ks ! p = k) \<and>
     (\<forall>p\<in>of_type ident ks. 0 \<le> snd (ks ! p) \<and> snd (ks ! p) < currentEventsNumber ti) \<and>
     int (card (of_type ident ks)) = currentEventsNumber ti"

definition factory_ok :: "factory \<Rightarrow> (int \<times> int) list \<Rightarrow> bool" where
  "factory_ok f ks \<longleftrightarrow> distinct ks \<and> (\<forall>ident ti. f ident = Some ti \<longrightarrow> type_ok ident ti ks) \<and>
     (\<forall>k\<in>set ks. f (fst k) \<noteq> None)"

text \<open>The events that are handed out.\<close>

definition handed :: "factory \<Rightarrow> nat set" where
  "handed f = {p. \<exists>ident ti. f ident = Some ti \<and> p \<in> used ti}"

definition keys :: "events \<Rightarrow> (int \<times> int) list" where
  "keys evs = map eventKey evs"

lemma keys_nth: "p < length evs \<Longrightarrow> keys evs ! p = eventKey (evs ! p)"
  by (simp add: keys_def)

lemma keys_length [simp]: "length (keys evs) = length evs"
  by (simp add: keys_def)

lemma factory_ok_ctor: "factory_ok EventsFactory_ctor []"
  by (simp add: factory_ok_def EventsFactory_ctor_def)

section \<open>Adding a type\<close>

lemma of_type_empty: "\<forall>k\<in>set ks. fst k \<noteq> ident \<Longrightarrow> of_type ident ks = {}"
  by (auto simp: of_type_def)

lemma factory_ok_upd: "factory_ok f ks \<Longrightarrow> type_ok ident ti ks \<Longrightarrow> factory_ok (f(ident \<mapsto> ti)) ks"
  by (simp add: factory_ok_def)

lemma handed_new: "f ident = None \<Longrightarrow> used ti = {} \<Longrightarrow> handed (f(ident \<mapsto> ti)) = handed f"
  unfolding handed_def by (simp add: fun_upd_apply) (metis emptyE option.distinct(1) option.inject)

lemma addEventType_ok:
  assumes "factory_ok f ks" "addEventType ident blockNumber maxNumber f = (e, f')" "0 < blockNumber"
  shows "factory_ok f' ks" "handed f' = handed f"
proof -
  have "of_type ident ks = {}" if "f ident = None"
    using assms(1) that by (intro of_type_empty) (auto simp: factory_ok_def)
  then have "type_ok ident \<lparr>eventTypeIdentifier = ident, blockEventsNumber = blockNumber,
      maxEventsNumberToBeAllocated = maxNumber, currentEventsNumber = 0, freeEvents = [], usedEvents = (\<lambda>_. None)\<rparr> ks"
    if "f ident = None"
    using that assms(3) by (simp add: type_ok_def limits_ok_def used_def)
  then show "factory_ok f' ks"
    using assms(1,2) factory_ok_upd by (auto simp: addEventType_def split: if_splits)
  show "handed f' = handed f"
    using assms(2) handed_new by (auto simp: addEventType_def used_def split: if_splits)
qed

section \<open>Making a block\<close>

definition new_keys :: "int \<Rightarrow> int \<Rightarrow> nat \<Rightarrow> (int \<times> int) list" where
  "new_keys ident n k = map (\<lambda>j. (ident, n + int j)) [0..<k]"

lemma new_keys_Suc: "new_keys ident n (Suc k) = (ident, n) # new_keys ident (n + 1) k"
  by (simp add: new_keys_def map_upt_Suc add.assoc del: upt_Suc)

lemma make_block_eq:
  assumes "k = nat (blockEventsNumber ti - i)"
  shows "\<exists>evs'. make_block i ti evs =
      (ti\<lparr>freeEvents := freeEvents ti @ [length evs..<length evs + k], currentEventsNumber := currentEventsNumber ti + int k\<rparr>,
       evs @ evs') \<and> keys evs' = new_keys (eventTypeIdentifier ti) (currentEventsNumber ti) k"
  using assms
proof (induction k arbitrary: i ti evs)
  case 0
  then show ?case by (subst make_block.simps) (simp add: keys_def new_keys_def)
next
  case (Suc k)
  let ?e = "setEventKey (eventTypeIdentifier ti, currentEventsNumber ti) Event2_ctor"
  let ?ti = "ti\<lparr>freeEvents := freeEvents ti @ [length evs], currentEventsNumber := currentEventsNumber ti + 1\<rparr>"
  have "k = nat (blockEventsNumber ?ti - (i + 1))" using Suc.prems by simp
  from Suc.IH [OF this, of "evs @ [?e]"] obtain evs' where
    "make_block (i + 1) ?ti (evs @ [?e]) = (?ti\<lparr>freeEvents := freeEvents ?ti @ [length evs + 1..<length evs + 1 + k],
       currentEventsNumber := currentEventsNumber ?ti + int k\<rparr>, (evs @ [?e]) @ evs')"
    "keys evs' = new_keys (eventTypeIdentifier ti) (currentEventsNumber ti + 1) k"
    by auto
  moreover have "i < blockEventsNumber ti" using Suc.prems by simp
  moreover have "length evs # [Suc (length evs)..<Suc (length evs + k)] = [length evs..<Suc (length evs + k)]"
    by (simp add: upt_conv_Cons)
  ultimately show ?case
    by (subst make_block.simps) (auto simp: new_keys_Suc keys_def setEventKey_def intro!: exI [of _ "?e # evs'"])
qed

lemma nth_append_keys: "p \<in> of_type ident ks \<Longrightarrow> (ks @ ks') ! p = ks ! p"
  by (simp add: of_type_def nth_append)

lemma of_type_other: "\<forall>k\<in>set ks'. fst k \<noteq> ident \<Longrightarrow> of_type ident (ks @ ks') = of_type ident ks"
  by (auto simp: of_type_def nth_append) (metis add_diff_inverse_nat nat_add_left_cancel_less nth_mem)

lemma of_type_same:
  assumes "\<forall>k\<in>set ks'. fst k = ident"
  shows "of_type ident (ks @ ks') = of_type ident ks \<union> {length ks..<length ks + length ks'}"
proof -
  have new: "fst (ks' ! i) = ident" if "i < length ks'" for i using assms that by simp
  show ?thesis
  proof (rule set_eqI)
    fix p
    show "p \<in> of_type ident (ks @ ks') \<longleftrightarrow> p \<in> of_type ident ks \<union> {length ks..<length ks + length ks'}"
      using new [of "p - length ks"] by (cases "p < length ks") (auto simp: of_type_def nth_append less_diff_conv2)
  qed
qed

lemma type_ok_other:
  assumes "type_ok ident ti ks" "\<forall>k\<in>set ks'. fst k \<noteq> ident"
  shows "type_ok ident ti (ks @ ks')"
proof -
  have "(ks @ ks') ! p = ks ! p" if "p \<in> of_type ident ks" for p using that by (rule nth_append_keys)
  moreover have "p \<in> of_type ident ks" if "usedEvents ti k = Some p" for p k
    using assms(1) that unfolding type_ok_def used_def by (blast intro: ranI)
  ultimately show ?thesis using assms by (simp add: type_ok_def of_type_other)
qed

lemma new_keys_props:
  "\<forall>k\<in>set (new_keys ident n k). fst k = ident" "length (new_keys ident n k) = k" "distinct (new_keys ident n k)"
  "i < k \<Longrightarrow> new_keys ident n k ! i = (ident, n + int i)"
  by (auto simp: new_keys_def distinct_map inj_on_def)

lemma type_ok_block:
  assumes "type_ok ident ti ks" "freeEvents ti = []" "currentEventsNumber ti + int k < maxEventsNumberToBeAllocated ti"
  defines "ks' \<equiv> ks @ new_keys ident (currentEventsNumber ti) k"
  shows "type_ok ident (ti\<lparr>freeEvents := [length ks..<length ks + k], currentEventsNumber := currentEventsNumber ti + int k\<rparr>) ks'"
proof -
  note n = new_keys_props [where ident = ident and n = "currentEventsNumber ti" and k = k]
  have t: "of_type ident ks' = of_type ident ks \<union> {length ks..<length ks + k}"
    using of_type_same [OF n(1), of ks] n(2) by (simp add: ks'_def)
  have old: "ks' ! p = ks ! p" if "p \<in> of_type ident ks" for p using that nth_append_keys ks'_def by blast
  have new: "ks' ! p = (ident, currentEventsNumber ti + int (p - length ks))" if "p \<in> {length ks..<length ks + k}" for p
    using that n(4) [of "p - length ks"] by (auto simp: ks'_def nth_append)
  have used: "used ti = of_type ident ks" using assms(1,2) by (simp add: type_ok_def)
  have disj: "of_type ident ks \<inter> {length ks..<length ks + k} = {}" by (auto simp: of_type_def)
  have "finite (of_type ident ks)" by (simp add: of_type_def)
  then have "int (card (of_type ident ks')) = currentEventsNumber ti + int k"
    using assms(1) t disj by (simp add: card_Un_disjoint type_ok_def)
  moreover have "\<forall>p\<in>of_type ident ks'. 0 \<le> snd (ks' ! p) \<and> snd (ks' ! p) < currentEventsNumber ti + int k"
  proof
    fix p assume "p \<in> of_type ident ks'"
    then have "p \<in> of_type ident ks \<or> p \<in> {length ks..<length ks + k}" using t by blast
    then show "0 \<le> snd (ks' ! p) \<and> snd (ks' ! p) < currentEventsNumber ti + int k"
      using assms(1) old [of p] new [of p] by (fastforce simp: type_ok_def limits_ok_def)
  qed
  moreover have "\<forall>k p. usedEvents ti k = Some p \<longrightarrow> ks' ! p = k"
    using assms(1) used old unfolding type_ok_def used_def by (metis ranI)
  ultimately show ?thesis
    using assms(1,3) t used disj by (auto simp: type_ok_def limits_ok_def used_def)
qed

lemma factory_ok_block:
  assumes "factory_ok f ks" "f ident = Some ti" "freeEvents ti = []"
    and "currentEventsNumber ti + int k < maxEventsNumberToBeAllocated ti"
  defines "ks' \<equiv> ks @ new_keys ident (currentEventsNumber ti) k"
  shows "factory_ok (f(ident \<mapsto> ti\<lparr>freeEvents := [length ks..<length ks + k], currentEventsNumber := currentEventsNumber ti + int k\<rparr>)) ks'"
proof -
  note n = new_keys_props [where ident = ident and n = "currentEventsNumber ti" and k = k]
  have ti: "type_ok ident ti ks" using assms(1,2) by (simp add: factory_ok_def)
  have "set ks \<inter> set (new_keys ident (currentEventsNumber ti) k) = {}"
  proof -
    have False if x: "x \<in> set ks" "x \<in> set (new_keys ident (currentEventsNumber ti) k)" for x
    proof -
      obtain p where p: "p < length ks" "ks ! p = x" using x(1) by (metis in_set_conv_nth)
      have "fst x = ident" "currentEventsNumber ti \<le> snd x" using x(2) by (auto simp: new_keys_def)
      then show False using ti p by (auto simp: type_ok_def of_type_def)
    qed
    then show ?thesis by blast
  qed
  then have "distinct ks'" using assms(1) n(3) by (simp add: ks'_def factory_ok_def)
  moreover have "type_ok j tj ks'" if "f j = Some tj" "j \<noteq> ident" for j tj
    using type_ok_other [of j tj ks] that assms(1) n(1) by (auto simp: ks'_def factory_ok_def)
  moreover have "f (fst k) \<noteq> None" if "k \<in> set ks'" for k
    using that assms(1,2) n(1) by (auto simp: ks'_def factory_ok_def)
  ultimately show ?thesis
    using type_ok_block [OF ti assms(3,4)] by (auto simp: factory_ok_def ks'_def)
qed

section \<open>Handing out and taking back\<close>

lemma used_of_type: "type_ok ident ti ks \<Longrightarrow> used ti \<subseteq> of_type ident ks"
  unfolding type_ok_def by blast

lemma used_apart:
  assumes "factory_ok f ks" "f i = Some ti" "f j = Some tj" "p \<in> used ti" "p \<in> used tj"
  shows "i = j"
proof -
  have "p \<in> of_type i ks" "p \<in> of_type j ks" using assms used_of_type by (fastforce simp: factory_ok_def)+
  then show ?thesis by (simp add: of_type_def)
qed

lemma handed_in:
  assumes "factory_ok f ks" "f ident = Some ti" "p \<in> of_type ident ks"
  shows "p \<in> handed f \<longleftrightarrow> p \<in> used ti"
proof
  assume "p \<in> handed f"
  then obtain j tj where j: "f j = Some tj" "p \<in> used tj" by (auto simp: handed_def)
  then have "p \<in> of_type j ks" using assms(1) used_of_type by (fastforce simp: factory_ok_def)
  then have "j = ident" using assms(3) by (simp add: of_type_def)
  then show "p \<in> used ti" using j assms(2) by simp
next
  assume "p \<in> used ti"
  then show "p \<in> handed f" using assms(2) by (auto simp: handed_def)
qed

lemma handed_upd:
  assumes "factory_ok f ks" "f ident = Some ti"
  shows "handed (f(ident \<mapsto> ti')) = (handed f - used ti) \<union> used ti'"
proof (rule set_eqI)
  fix p
  show "p \<in> handed (f(ident \<mapsto> ti')) \<longleftrightarrow> p \<in> (handed f - used ti) \<union> used ti'"
    using used_apart [OF assms(1,2)] assms(2) unfolding handed_def
    by (simp add: fun_upd_apply) (metis option.inject)
qed

lemma key_inj: "factory_ok f ks \<Longrightarrow> p < length ks \<Longrightarrow> q < length ks \<Longrightarrow> ks ! p = ks ! q \<Longrightarrow> p = q"
  by (simp add: factory_ok_def nth_eq_iff_index_eq)

lemma used_iff:
  assumes "factory_ok f ks" "f ident = Some ti" "p \<in> of_type ident ks"
  shows "usedEvents ti (ks ! p) = (if p \<in> used ti then Some p else None)"
proof -
  have ti: "type_ok ident ti ks" using assms by (simp add: factory_ok_def)
  have "q = p" if q: "usedEvents ti (ks ! p) = Some q" for q
  proof -
    have "q \<in> of_type ident ks" using ti q used_of_type unfolding used_def by (meson ranI subsetD)
    moreover have "ks ! q = ks ! p" using ti q unfolding type_ok_def by blast
    ultimately show ?thesis using key_inj [OF assms(1)] assms(3) by (simp add: of_type_def)
  qed
  moreover have "usedEvents ti (ks ! p) = Some p" if "p \<in> used ti"
    using that ti unfolding type_ok_def used_def ran_def by blast
  ultimately show ?thesis unfolding used_def by (cases "usedEvents ti (ks ! p)") (auto intro: ranI)
qed

lemma hand_out_ok:
  assumes "factory_ok (f(ident \<mapsto> ti)) (keys evs)" "freeEvents ti \<noteq> []"
  shows "\<exists>p f' evs'. hand_out ident now ti f evs = Some (Inr p, f', evs') \<and> keys evs' = keys evs \<and>
    factory_ok f' (keys evs) \<and> p < length evs \<and> fst (eventKey (evs ! p)) = ident \<and>
    p \<notin> handed (f(ident \<mapsto> ti)) \<and> handed f' = insert p (handed (f(ident \<mapsto> ti)))"
proof -
  let ?f = "f(ident \<mapsto> ti)"
  obtain p free where free: "freeEvents ti = p # free" using assms(2) by (cases "freeEvents ti") auto
  have ti: "type_ok ident ti (keys evs)" using assms(1) by (simp add: factory_ok_def)
  have p: "p \<in> of_type ident (keys evs)" "p \<notin> used ti" "p \<notin> set free"
    using ti free by (auto simp: type_ok_def)
  have len: "p < length evs" "keys evs ! p = eventKey (evs ! p)" using p(1) by (simp_all add: of_type_def keys_nth)
  have none: "usedEvents ti (eventKey (evs ! p)) = None"
    using used_iff [OF assms(1) _ p(1)] p(2) len(2) by simp
  let ?ti = "ti\<lparr>freeEvents := free, usedEvents := (usedEvents ti)(eventKey (evs ! p) \<mapsto> p)\<rparr>"
  have ran: "used ?ti = insert p (used ti)" using none by (simp add: used_def ran_map_upd)
  have "type_ok ident ?ti (keys evs)"
    using ti free p ran len(2) by (auto simp: type_ok_def limits_ok_def)
  then have "factory_ok (?f(ident \<mapsto> ?ti)) (keys evs)" using factory_ok_upd [OF assms(1)] by blast
  moreover have "keys (evs[p := setStartProcessingTime now (evs ! p)]) = keys evs"
    by (simp add: keys_def map_update setStartProcessingTime_def)
      (metis keys_def len list_update_id map_update)
  moreover have "hand_out ident now ti f evs = Some (Inr p, f(ident \<mapsto> ?ti), evs[p := setStartProcessingTime now (evs ! p)])"
    using free none len by (simp add: hand_out_def event_ref_def getEventKey_def setStartProcessingTime_def Let_def)
  moreover have "handed (?f(ident \<mapsto> ?ti)) = insert p (handed ?f)"
    using handed_upd [OF assms(1), of ident ti ?ti] ran by (auto simp: handed_def)
  moreover have "p \<notin> handed ?f" using handed_in [OF assms(1) _ p(1)] p(2) by simp
  ultimately show ?thesis using len p(1) by (auto simp: of_type_def)
qed

lemma releaseEvent2_ok:
  assumes "factory_ok f (keys evs)" "p < length evs"
  shows "\<exists>e f'. releaseEvent2 p f evs = Some (e, f') \<and> factory_ok f' (keys evs) \<and>
    (e = None \<longleftrightarrow> p \<in> handed f) \<and> handed f' = handed f - {p} \<and> (e \<noteq> None \<longrightarrow> f' = f)"
proof -
  obtain ident n where key: "eventKey (evs ! p) = (ident, n)" by (cases "eventKey (evs ! p)")
  then have k: "keys evs ! p = (ident, n)" using assms(2) by (simp add: keys_nth)
  then have "(ident, n) \<in> set (keys evs)" using assms(2) by (metis keys_length nth_mem)
  then obtain ti where ti: "f ident = Some ti" using assms(1) by (fastforce simp: factory_ok_def)
  have ok: "type_ok ident ti (keys evs)" using assms(1) ti by (simp add: factory_ok_def)
  have p: "p \<in> of_type ident (keys evs)" using assms(2) k by (simp add: of_type_def)
  note use = used_iff [OF assms(1) ti p, unfolded k]
  have h: "p \<in> handed f \<longleftrightarrow> p \<in> used ti" using handed_in [OF assms(1) ti p] .
  show ?thesis
  proof (cases "p \<in> used ti")
    case False
    then show ?thesis using use h key assms ti by (auto simp: releaseEvent2_def event_ref_def getEventKey_def)
  next
    case True
    let ?ti = "ti\<lparr>freeEvents := freeEvents ti @ [p], usedEvents := (usedEvents ti)((ident, n) := None)\<rparr>"
    have ran: "used ?ti = used ti - {p}"
    proof -
      have key_of: "keys evs ! q = k'" if "usedEvents ti k' = Some q" for k' q
        using ok that unfolding type_ok_def by blast
      have "q \<in> used ?ti \<longleftrightarrow> q \<in> used ti - {p}" for q
      proof
        assume "q \<in> used ?ti"
        then obtain k' where k': "k' \<noteq> (ident, n)" "usedEvents ti k' = Some q"
          by (auto simp: used_def ran_def split: if_splits)
        then have "q \<noteq> p" using key_of [OF k'(2)] k by auto
        then show "q \<in> used ti - {p}" using k'(2) by (auto simp: used_def intro: ranI)
      next
        assume q: "q \<in> used ti - {p}"
        then obtain k' where k': "usedEvents ti k' = Some q" by (auto simp: used_def ran_def)
        then have "k' \<noteq> (ident, n)" using q use True by auto
        then show "q \<in> used ?ti" using k' by (auto simp: used_def intro: ranI)
      qed
      then show ?thesis by blast
    qed
    have p_free: "p \<notin> set (freeEvents ti)" using ok True by (auto simp: type_ok_def)
    have "usedEvents ti k' = Some q" if "usedEvents ?ti k' = Some q" for k' q
      using that by (simp split: if_splits)
    then have "keys evs ! q = k'" if "usedEvents ?ti k' = Some q" for k' q
      using ok that unfolding type_ok_def by blast
    moreover have "set (freeEvents ?ti) \<union> used ?ti = of_type ident (keys evs)" "set (freeEvents ?ti) \<inter> used ?ti = {}"
      using ok True p_free ran by (auto simp: type_ok_def)
    moreover have "distinct (freeEvents ?ti)" "limits_ok ?ti" using ok p_free by (auto simp: type_ok_def limits_ok_def)
    ultimately have "type_ok ident ?ti (keys evs)" using ok by (simp add: type_ok_def)
    then have "factory_ok (f(ident \<mapsto> ?ti)) (keys evs)" using factory_ok_upd [OF assms(1)] by blast
    moreover have "used ti \<subseteq> handed f" using ti by (auto simp: handed_def)
    then have "handed (f(ident \<mapsto> ?ti)) = handed f - {p}"
      using True unfolding handed_upd [OF assms(1) ti] ran by blast
    moreover have "releaseEvent2 p f evs = Some (None, f(ident \<mapsto> ?ti))"
      using use True key assms ti by (simp add: releaseEvent2_def event_ref_def getEventKey_def)
    ultimately show ?thesis using h True by blast
  qed
qed

text \<open>The pool of a type that is asked for: what there is, or a new one with the default sizes.\<close>

definition pool_of :: "int \<Rightarrow> factory \<Rightarrow> event_type_info2" where
  "pool_of ident f = (case f ident of Some ti \<Rightarrow> ti | None \<Rightarrow>
     \<lparr>eventTypeIdentifier = ident, blockEventsNumber = 50, maxEventsNumberToBeAllocated = 10000,
      currentEventsNumber = 0, freeEvents = [], usedEvents = (\<lambda>_. None)\<rparr>)"

definition exhausted :: "event_type_info2 \<Rightarrow> bool" where
  "exhausted ti \<longleftrightarrow> freeEvents ti = [] \<and> maxEventsNumberToBeAllocated ti \<le> currentEventsNumber ti + blockEventsNumber ti"

lemma with_pool:
  assumes "factory_ok f ks"
  shows "factory_ok (f(ident \<mapsto> pool_of ident f)) ks" "handed (f(ident \<mapsto> pool_of ident f)) = handed f"
proof -
  have "factory_ok (f(ident \<mapsto> pool_of ident f)) ks \<and> handed (f(ident \<mapsto> pool_of ident f)) = handed f"
  proof (cases "f ident")
    case None
    then show ?thesis
      using addEventType_ok [OF assms, of ident 50 10000 None] by (simp add: addEventType_def pool_of_def)
  next
    case (Some ti)
    then have "f(ident \<mapsto> pool_of ident f) = f" by (simp add: pool_of_def fun_upd_idem)
    then show ?thesis using assms by simp
  qed
  then show "factory_ok (f(ident \<mapsto> pool_of ident f)) ks" "handed (f(ident \<mapsto> pool_of ident f)) = handed f" by auto
qed

lemma getFreeEvent2_eq:
  fixes f :: factory and ident :: int
  defines "f1 \<equiv> f(ident \<mapsto> pool_of ident f)" and "ti \<equiv> pool_of ident f"
  shows "getFreeEvent2 ident now f evs =
    (if exhausted ti then Some (Inl (NoMoreEvents (currentEventsNumber ti) (blockEventsNumber ti) (maxEventsNumberToBeAllocated ti)), f1, evs)
     else if freeEvents ti = [] then (let (ti', evs') = make_block 0 ti evs in hand_out ident now ti' f1 evs')
     else hand_out ident now ti f1 evs)"
proof -
  have "(if f ident = None then snd (addEventType ident defaultBlockEventsNumber defaultMaxEventsNumberToBeAllocated f) else f) = f1"
    by (auto simp: f1_def pool_of_def addEventType_def defaultBlockEventsNumber_def
        defaultMaxEventsNumberToBeAllocated_def fun_upd_idem split: option.split)
  moreover have "f1 ident = Some ti" by (simp add: f1_def ti_def)
  ultimately show ?thesis by (auto simp: getFreeEvent2_def exhausted_def Let_def)
qed

lemma hand_out_upd: "hand_out ident now ti (f(ident \<mapsto> tj)) evs = hand_out ident now ti f evs"
  by (simp add: hand_out_def split: list.split)

lemma getFreeEvent2_ok:
  assumes "factory_ok f (keys evs)"
  shows "\<exists>r f' evs'. getFreeEvent2 ident now f evs = Some (r, f', evs') \<and> factory_ok f' (keys evs') \<and>
    length evs \<le> length evs' \<and>
    (case r of
       Inl e \<Rightarrow> exhausted (pool_of ident f) \<and> evs' = evs \<and> handed f' = handed f
     | Inr p \<Rightarrow> \<not> exhausted (pool_of ident f) \<and> p < length evs' \<and> fst (eventKey (evs' ! p)) = ident \<and>
         p \<notin> handed f \<and> handed f' = insert p (handed f))"
proof -
  let ?ti = "pool_of ident f" and ?f = "f(ident \<mapsto> pool_of ident f)"
  note w = with_pool [OF assms, of ident]
  have ok: "type_ok ident ?ti (keys evs)" using w(1) by (simp add: factory_ok_def)
  have fst_keys: "fst (eventKey (evs2 ! p)) = ident"
    if "keys evs2 = keys evs1" "p < length evs1" "fst (eventKey (evs1 ! p)) = ident" for evs1 evs2 :: events and p
    using that by (metis keys_length keys_nth)
  show ?thesis
  proof (cases "exhausted ?ti")
    case True
    then show ?thesis using w by (simp add: getFreeEvent2_eq)
  next
    case not_ex: False
    show ?thesis
    proof (cases "freeEvents ?ti = []")
      case True
      define k where "k = nat (blockEventsNumber ?ti)"
      have k: "0 < k" "int k = blockEventsNumber ?ti" using ok by (auto simp: k_def type_ok_def limits_ok_def)
      let ?ti' = "?ti\<lparr>freeEvents := [length evs..<length evs + k], currentEventsNumber := currentEventsNumber ?ti + int k\<rparr>"
      obtain new where new: "make_block 0 ?ti evs = (?ti', evs @ new)" "keys new = new_keys ident (currentEventsNumber ?ti) k"
        using make_block_eq [of k ?ti 0 evs] True ok by (auto simp: k_def type_ok_def)
      have ks: "keys (evs @ new) = keys evs @ new_keys ident (currentEventsNumber ?ti) k" using new(2) by (simp add: keys_def)
      have "currentEventsNumber ?ti + int k < maxEventsNumberToBeAllocated ?ti"
        using not_ex True k(2) by (auto simp: exhausted_def)
      from factory_ok_block [where ident = ident, OF w(1) _ True this]
      have f': "factory_ok (?f(ident \<mapsto> ?ti')) (keys (evs @ new))" using ks by simp
      have "used ?ti' = used ?ti" by (simp add: used_def)
      moreover have "used ?ti \<subseteq> handed ?f" by (auto simp: handed_def)
      ultimately have h: "handed (?f(ident \<mapsto> ?ti')) = handed f"
        using handed_upd [OF w(1), of ident ?ti ?ti'] w(2) by auto
      have "freeEvents ?ti' \<noteq> []" using k(1) by simp
      from hand_out_ok [OF f' this, of now] obtain p f2 evs2 where
        "hand_out ident now ?ti' ?f (evs @ new) = Some (Inr p, f2, evs2)" "keys evs2 = keys (evs @ new)"
        "factory_ok f2 (keys (evs @ new))" "p < length (evs @ new)" "fst (eventKey ((evs @ new) ! p)) = ident"
        "p \<notin> handed f" "handed f2 = insert p (handed f)"
        unfolding h by blast
      moreover from this have "length evs2 = length (evs @ new)" by (metis keys_length)
      ultimately show ?thesis
        using not_ex True new(1) fst_keys [of evs2 "evs @ new" p] by (simp add: getFreeEvent2_eq Let_def)
    next
      case False
      from hand_out_ok [of ?f ident ?ti evs now] w(1) False obtain p f2 evs2 where
        "hand_out ident now ?ti ?f evs = Some (Inr p, f2, evs2)" "keys evs2 = keys evs"
        "factory_ok f2 (keys evs)" "p < length evs" "fst (eventKey (evs ! p)) = ident"
        "p \<notin> handed ?f" "handed f2 = insert p (handed ?f)" by auto
      moreover from this have "length evs2 = length evs" by (metis keys_length)
      ultimately show ?thesis
        using not_ex False w(2) fst_keys [of evs2 evs p] by (simp add: getFreeEvent2_eq)
    qed
  qed
qed

section \<open>Clients\<close>

text \<open>A client adds types, asks for events, gives them back (possibly twice, or ones it never got) and
  changes what is not their key.\<close>

datatype factory_op = AddType int int int | GetEvent int int | Release nat | ChangeEvent nat string string int

text \<open>Beside the factory and the events, the events the clients hold, the latest first.\<close>

type_synonym factory_system = "factory \<times> events \<times> nat list"

fun factory_step :: "factory_op \<Rightarrow> factory_system \<Rightarrow> factory_system option" where
  "factory_step (AddType ident b m) (f, evs, held) = Some (snd (addEventType ident b m f), evs, held)"
| "factory_step (GetEvent ident now) (f, evs, held) =
     (case getFreeEvent2 ident now f evs of
        None \<Rightarrow> None
      | Some (Inl e, f', evs') \<Rightarrow> Some (f', evs', held)
      | Some (Inr p, f', evs') \<Rightarrow> Some (f', evs', p # held))"
| "factory_step (Release p) (f, evs, held) =
     (if p < length evs then
        (case releaseEvent2 p f evs of
           None \<Rightarrow> None
         | Some (Some e, f') \<Rightarrow> Some (f', evs, held)
         | Some (None, f') \<Rightarrow> Some (f', evs, remove1 p held))
      else Some (f, evs, held))"
| "factory_step (ChangeEvent p d s t) (f, evs, held) =
     Some (f, (case event_ref evs p of None \<Rightarrow> evs
                 | Some e \<Rightarrow> evs[p := setExpirationTimePoint t (setSource s (setDestination d e))]), held)"

fun factory_run :: "factory_op list \<Rightarrow> factory_system \<Rightarrow> factory_system option" where
  "factory_run [] s = Some s"
| "factory_run (x # xs) s = (case factory_step x s of None \<Rightarrow> None | Some s' \<Rightarrow> factory_run xs s')"

fun blocks_positive :: "factory_op \<Rightarrow> bool" where
  "blocks_positive (AddType _ b _) = (0 < b)"
| "blocks_positive _ = True"

definition factory_inv :: "factory_system \<Rightarrow> bool" where
  "factory_inv = (\<lambda>(f, evs, held). factory_ok f (keys evs) \<and> distinct held \<and> set held = handed f)"

lemma factory_step_inv:
  assumes "factory_inv s" "blocks_positive x"
  shows "\<exists>s'. factory_step x s = Some s' \<and> factory_inv s'"
proof (cases s)
  case (fields f evs held)
  then have ok: "factory_ok f (keys evs)" and h: "distinct held" "set held = handed f"
    using assms(1) by (auto simp: factory_inv_def)
  show ?thesis
  proof (cases x)
    case (AddType ident b m)
    then show ?thesis
      using addEventType_ok [OF ok, of ident b m "fst (addEventType ident b m f)" "snd (addEventType ident b m f)"]
        fields h assms(2) by (simp add: factory_inv_def)
  next
    case (GetEvent ident now)
    obtain r f' evs' where g: "getFreeEvent2 ident now f evs = Some (r, f', evs')" "factory_ok f' (keys evs')"
      "case r of Inl e \<Rightarrow> exhausted (pool_of ident f) \<and> evs' = evs \<and> handed f' = handed f
       | Inr p \<Rightarrow> \<not> exhausted (pool_of ident f) \<and> p < length evs' \<and> fst (eventKey (evs' ! p)) = ident \<and>
         p \<notin> handed f \<and> handed f' = insert p (handed f)"
      using getFreeEvent2_ok [OF ok, of ident now] by blast
    then show ?thesis using GetEvent fields h by (cases r) (simp_all add: factory_inv_def)
  next
    case (Release p)
    show ?thesis
    proof (cases "p < length evs")
      case True
      obtain e f' where "releaseEvent2 p f evs = Some (e, f')" "factory_ok f' (keys evs)"
        "e = None \<longleftrightarrow> p \<in> handed f" "handed f' = handed f - {p}"
        using releaseEvent2_ok [OF ok True] by blast
      then show ?thesis using Release True fields h by (cases e) (auto simp: factory_inv_def set_remove1_eq)
    qed (use Release fields assms(1) in simp)
  next
    case (ChangeEvent p d s t)
    have "keys (evs[p := setExpirationTimePoint t (setSource s (setDestination d (evs ! p)))]) = keys evs" if "p < length evs"
      using that by (simp add: keys_def map_update setExpirationTimePoint_def setSource_def setDestination_def)
        (metis list_update_id map_update)
    then show ?thesis using ChangeEvent fields assms(1) by (simp add: factory_inv_def event_ref_def)
  qed
qed

lemma factory_run_inv:
  "factory_inv s \<Longrightarrow> list_all blocks_positive ops \<Longrightarrow> \<exists>s'. factory_run ops s = Some s' \<and> factory_inv s'"
proof (induction ops arbitrary: s)
  case (Cons x ops)
  then show ?case using factory_step_inv [of s x] by fastforce
qed simp



section \<open>The size of a pool\<close>

lemma hand_out_counts:
  assumes "hand_out ident now ti f evs = Some (Inr p, f', evs')"
  shows "\<exists>tj. f' ident = Some tj \<and> blockEventsNumber tj = blockEventsNumber ti \<and>
    maxEventsNumberToBeAllocated tj = maxEventsNumberToBeAllocated ti \<and> currentEventsNumber tj = currentEventsNumber ti \<and>
    Suc (length (freeEvents tj)) = length (freeEvents ti)"
  using assms by (auto simp: hand_out_def Let_def bind_eq_Some split: list.splits)

lemma getFreeEvent2_counts:
  assumes "factory_ok f (keys evs)" "f ident = Some ti"
  shows "\<exists>r f' evs' tj. getFreeEvent2 ident now f evs = Some (r, f', evs') \<and> factory_ok f' (keys evs') \<and>
    f' ident = Some tj \<and> blockEventsNumber tj = blockEventsNumber ti \<and>
    maxEventsNumberToBeAllocated tj = maxEventsNumberToBeAllocated ti \<and>
    (case r of
       Inl e \<Rightarrow> exhausted ti \<and> tj = ti
     | Inr p \<Rightarrow> \<not> exhausted ti \<and>
         currentEventsNumber tj = currentEventsNumber ti + (if freeEvents ti = [] then blockEventsNumber ti else 0) \<and>
         int (length (freeEvents tj)) = int (length (freeEvents ti)) - 1 + (if freeEvents ti = [] then blockEventsNumber ti else 0))"
proof -
  obtain r f' evs' where g: "getFreeEvent2 ident now f evs = Some (r, f', evs')" "factory_ok f' (keys evs')"
    using getFreeEvent2_ok [OF assms(1), of ident now] by blast
  have pool: "pool_of ident f = ti" "f(ident \<mapsto> ti) = f" using assms(2) by (simp_all add: pool_of_def fun_upd_idem)
  have ok: "0 < blockEventsNumber ti" using assms by (auto simp: factory_ok_def type_ok_def limits_ok_def)
  show ?thesis
  proof (cases "exhausted ti")
    case True
    then show ?thesis using g pool assms(2) by (auto simp: getFreeEvent2_eq)
  next
    case not_ex: False
    show ?thesis
    proof (cases "freeEvents ti = []")
      case True
      define k where "k = nat (blockEventsNumber ti)"
      obtain new where new: "make_block 0 ti evs = (ti\<lparr>freeEvents := [length evs..<length evs + k],
          currentEventsNumber := currentEventsNumber ti + int k\<rparr>, evs @ new)"
        using make_block_eq [of k ti 0 evs] True by (auto simp: k_def)
      have h: "hand_out ident now (ti\<lparr>freeEvents := [length evs..<length evs + k],
          currentEventsNumber := currentEventsNumber ti + int k\<rparr>) f (evs @ new) = Some (r, f', evs')"
        using g(1) pool not_ex True new by (simp add: getFreeEvent2_eq Let_def)
      then obtain p where r: "r = Inr p" by (auto simp: hand_out_def Let_def bind_eq_Some split: list.splits)
      show ?thesis
        using hand_out_counts [OF h [unfolded r]] g not_ex True r ok by (auto simp: k_def)
    next
      case False
      then have h: "hand_out ident now ti f evs = Some (r, f', evs')"
        using g(1) pool not_ex by (simp add: getFreeEvent2_eq)
      then obtain p where r: "r = Inr p" by (auto simp: hand_out_def Let_def bind_eq_Some split: list.splits)
      show ?thesis using hand_out_counts [OF h [unfolded r]] g not_ex False r by auto
    qed
  qed
qed

lemma le_div_iff_int:
  assumes "0 < (b :: int)"
  shows "k \<le> x div b \<longleftrightarrow> k * b \<le> x"
proof
  assume "k \<le> x div b"
  then have "k * b \<le> (x div b) * b" using assms by (simp add: mult_right_mono)
  also have "\<dots> \<le> x" using minus_mod_eq_div_mult [of x b] pos_mod_sign [OF assms, of x] by linarith
  finally show "k * b \<le> x" .
next
  assume "k * b \<le> x"
  then show "k \<le> x div b" using zdiv_mono1 [of "k * b" x b] assms by simp
qed

lemma pool_arith:
  assumes "0 < (b :: int)" "b dvd c"
  shows "m \<le> c + b \<longleftrightarrow> b * ((m - 1) div b) \<le> c"
proof -
  obtain j where j: "c = b * j" using assms(2) by (auto elim: dvdE)
  have "m \<le> c + b \<longleftrightarrow> \<not> (j + 1) * b \<le> m - 1" using j by (auto simp: algebra_simps)
  also have "\<dots> \<longleftrightarrow> (m - 1) div b \<le> j" using le_div_iff_int [OF assms(1), of "j + 1" "m - 1"] by linarith
  also have "\<dots> \<longleftrightarrow> b * ((m - 1) div b) \<le> c" using j assms(1) by simp
  finally show ?thesis .
qed

lemma pool_run:
  assumes "factory_ok f (keys evs)" "f ident = Some ti" "blockEventsNumber ti = b" "maxEventsNumberToBeAllocated ti = m"
    and "0 < b" "1 \<le> m" "b dvd currentEventsNumber ti" "int (length held) + int (length (freeEvents ti)) = currentEventsNumber ti"
    and "currentEventsNumber ti \<le> b * ((m - 1) div b)"
  shows "\<exists>f' evs' held'. factory_run (replicate n (GetEvent ident now)) (f, evs, held) = Some (f', evs', held') \<and>
    int (length held') = min (int (length held) + int n) (b * ((m - 1) div b))"
  using assms
proof (induction n arbitrary: f evs held ti)
  case 0
  then show ?case by simp
next
  case (Suc n)
  let ?L = "b * ((m - 1) div b)"
  obtain r f' evs' tj where g: "getFreeEvent2 ident now f evs = Some (r, f', evs')" "factory_ok f' (keys evs')"
    "f' ident = Some tj" "blockEventsNumber tj = b" "maxEventsNumberToBeAllocated tj = m"
    "case r of
       Inl e \<Rightarrow> exhausted ti \<and> tj = ti
     | Inr p \<Rightarrow> \<not> exhausted ti \<and>
         currentEventsNumber tj = currentEventsNumber ti + (if freeEvents ti = [] then blockEventsNumber ti else 0) \<and>
         int (length (freeEvents tj)) = int (length (freeEvents ti)) - 1 + (if freeEvents ti = [] then blockEventsNumber ti else 0)"
    using getFreeEvent2_counts [OF Suc.prems(1,2), of now] Suc.prems(3,4) by auto
  have limit: "m \<le> currentEventsNumber ti + b \<longleftrightarrow> ?L \<le> currentEventsNumber ti"
    using pool_arith [OF Suc.prems(5,7)] .
  show ?case
  proof (cases r)
    case (Inl e)
    then have ex: "exhausted ti" "tj = ti" using g(6) by auto
    then have full: "int (length held) = ?L"
      using Suc.prems(3,4,8,9) limit by (simp add: exhausted_def)
    from Suc.IH [OF g(2,3,4,5) Suc.prems(5,6), of held] Suc.prems(7,8,9) ex
    obtain f2 evs2 held2 where
      "factory_run (replicate n (GetEvent ident now)) (f', evs', held) = Some (f2, evs2, held2)"
      "int (length held2) = min (int (length held) + int n) ?L" by auto
    then show ?thesis using g(1) Inl full by simp
  next
    case (Inr p)
    have "currentEventsNumber tj \<le> ?L"
    proof (cases "freeEvents ti = []")
      case True
      then have "\<not> m \<le> currentEventsNumber ti + b" using g(6) Inr Suc.prems(3,4) by (simp add: exhausted_def)
      then have "currentEventsNumber ti + b \<le> m - 1" by simp
      moreover obtain j where j: "currentEventsNumber ti = b * j" using Suc.prems(7) by (auto elim: dvdE)
      ultimately have "j + 1 \<le> (m - 1) div b" using le_div_iff_int [OF Suc.prems(5), of "j + 1"] by (simp add: algebra_simps)
      then have "b * (j + 1) \<le> ?L" using Suc.prems(5) by simp
      then show ?thesis using g(6) Inr True j Suc.prems(3) by (simp add: algebra_simps)
    next
      case False
      then show ?thesis using g(6) Inr Suc.prems(9) by simp
    qed
    moreover have "int (length (p # held)) + int (length (freeEvents tj)) = currentEventsNumber tj"
      using g(6) Inr Suc.prems(8) by simp
    moreover have "b dvd currentEventsNumber tj" using g(6) Inr Suc.prems(3,7) by simp
    ultimately obtain f2 evs2 held2 where r2:
      "factory_run (replicate n (GetEvent ident now)) (f', evs', p # held) = Some (f2, evs2, held2)"
      "int (length held2) = min (int (length (p # held)) + int n) ?L"
      using Suc.IH [OF g(2,3,4,5) Suc.prems(5,6), of "p # held"] by blast
    then show ?thesis using g(1) Inr by simp
  qed
qed

text \<open>From a new pool with blocks of \<open>b\<close> events and the maximum \<open>m\<close> the clients get
  \<open>b * ((m - 1) div b)\<close> events and no more: a block that would exactly reach the maximum is refused, so the maximum
  itself is never allocated, and a pool whose maximum is one block never gives an event.\<close>

theorem EventsFactory_pool_size:
  assumes "factory_ok f (keys evs)" "f ident = None" "0 < b" "1 \<le> m"
  shows "\<exists>f' evs' held. factory_run (AddType ident b m # replicate n (GetEvent ident now)) (f, evs, []) = Some (f', evs', held) \<and>
    int (length held) = min (int n) (b * ((m - 1) div b))"
proof -
  let ?f = "snd (addEventType ident b m f)"
  have ok: "factory_ok ?f (keys evs)" using addEventType_ok(1) [OF assms(1) _ assms(3)] by (metis prod.collapse)
  have "0 \<le> b * ((m - 1) div b)" using assms(3,4) by (simp add: pos_imp_zdiv_nonneg_iff)
  then show ?thesis
    using pool_run [OF ok, of ident _ b m "[]" n now] assms(2,3,4) by (simp add: addEventType_def)
qed

theorem EventsFactory_pool_size_witness:
  "\<exists>f' evs' held. factory_run (AddType 1 50 50 # replicate 1 (GetEvent 1 0)) (EventsFactory_ctor, [], []) = Some (f', evs', held) \<and>
    length held = 0"
proof -
  have "factory_ok EventsFactory_ctor (keys [])" using factory_ok_ctor by (simp add: keys_def)
  from EventsFactory_pool_size [OF this, of 1 50 50 1 0] show ?thesis by (simp add: EventsFactory_ctor_def)
qed

end
