(* ===== verification/MultiEventsProps.thy ===== *)
theory MultiEventsProps
  imports MultiEventsSet EventsFactoryProps
begin

text \<open>
  What the clients of \<open>MultiEventsSet\<close> can rely on: whatever the interleaving of their calls, no event is
  lost or delivered twice and each queue delivers in the order of the expirations; \<open>deleteEvent\<close> removes one
  event; and what they cannot rely on: a blocking call that finds an event which is not due never waits.
\<close>

section \<open>Deleting\<close>

definition valid_queue :: "events \<Rightarrow> (int, nat) multimap \<Rightarrow> bool" where
  "valid_queue evs q \<longleftrightarrow> mm_sorted q \<and> (\<forall>x\<in>set q. snd x < length evs)"

definition is_event :: "events \<Rightarrow> int \<Rightarrow> int \<times> int \<Rightarrow> int \<times> nat \<Rightarrow> bool" where
  "is_event evs t k x \<longleftrightarrow> fst x = t \<and> eventKey (evs ! snd x) = k"

lemma find_event_eq:
  assumes "\<forall>x\<in>set q. snd x < length evs"
  shows "find_event evs t k q =
    Some (if \<exists>x\<in>set q. is_event evs t k x then Some (LEAST i. i < length q \<and> is_event evs t k (q ! i)) else None)"
  using assms
proof (induction q)
  case Nil
  then show ?case by simp
next
  case (Cons x q)
  obtain t' p where x: "x = (t', p)" by (cases x)
  have p: "event_ref evs p = Some (evs ! p)" using Cons.prems x by (simp add: event_ref_def)
  show ?case
  proof (cases "is_event evs t k x")
    case True
    then have "(LEAST i. i < length (x # q) \<and> is_event evs t k ((x # q) ! i)) = 0" by (intro Least_equality) simp_all
    then show ?thesis using True x p by (simp add: is_event_def getEventKey_def)
  next
    case False
    have step: "find_event evs t k (x # q) = map_option (map_option Suc) (find_event evs t k q)"
      using False x p by (simp add: is_event_def getEventKey_def)
    show ?thesis
    proof (cases "\<exists>y\<in>set q. is_event evs t k y")
      case True
      then obtain i where i: "i < length q \<and> is_event evs t k (q ! i)" by (metis in_set_conv_nth)
      have "(LEAST i. i < length (x # q) \<and> is_event evs t k ((x # q) ! i)) =
          Suc (LEAST i. i < length q \<and> is_event evs t k (q ! i))"
        using Least_Suc [of "\<lambda>i. i < length (x # q) \<and> is_event evs t k ((x # q) ! i)" "Suc i"] i False by simp
      then show ?thesis using Cons step True by simp
    next
      case none: False
      then show ?thesis using Cons step False by simp
    qed
  qed
qed

text \<open>C28: \<open>deleteEvent\<close> removes exactly one event, the first of its expiration with its key, and leaves the order of
  the others and the other queues; it throws when the destination or such an event is not there, and
  then changes nothing.\<close>

theorem deleteEvent2_correct:
  assumes "p < length evs" "\<forall>q. multiEventsSetHashMap m (destination (evs ! p)) = Some q \<longrightarrow> valid_queue evs q"
  shows "deleteEvent2 p evs m = Some
    (let e = evs ! p; d = destination e; t = expirationTimePoint e; k = eventKey e in
     case multiEventsSetHashMap m d of
       None \<Rightarrow> (Some (DestinationNotFound d), m)
     | Some q \<Rightarrow>
         if \<exists>x\<in>set q. is_event evs t k x
         then (let i = (LEAST i. i < length q \<and> is_event evs t k (q ! i))
               in (None, set_queue d (take i q @ drop (Suc i) q) m))
         else (Some (EventWasNotFound t), m))"
  using assms by (auto simp: deleteEvent2_def event_ref_def getDestination_def getExpirationTimePoint_def getEventKey_def
      valid_queue_def find_event_eq mm_erase_def Let_def split: option.split)

definition event_for :: "string \<Rightarrow> int \<Rightarrow> int \<Rightarrow> event2" where
  "event_for d t n = \<lparr>eventKey = (1, n), source = [], destination = d, expirationTimePoint = t, startProcessingTime = 0\<rparr>"

theorem deleteEvent2_correct_witness:
  "deleteEvent2 1 [event_for ''a'' 5 0, event_for ''a'' 5 1] \<lparr>multiEventsSetHashMap = [''a'' \<mapsto> [(5, 0), (5, 1)]], eventsFactory = EventsFactory_ctor\<rparr> =
   Some (None, \<lparr>multiEventsSetHashMap = [''a'' \<mapsto> [(5, 0)]], eventsFactory = EventsFactory_ctor\<rparr>)"
proof -
  let ?evs = "[event_for ''a'' 5 0, event_for ''a'' 5 1]" and ?q = "[(5, 0), (5, 1)] :: (int, nat) multimap"
  have "(LEAST i. i < length ?q \<and> is_event ?evs 5 (1, 1) (?q ! i)) = 1"
    by (rule Least_equality) (auto simp: is_event_def event_for_def less_Suc_eq nth_Cons' split: if_splits)
  then show ?thesis
    using deleteEvent2_correct [of 1 ?evs "\<lparr>multiEventsSetHashMap = [''a'' \<mapsto> ?q], eventsFactory = EventsFactory_ctor\<rparr>"]
    by (simp add: event_for_def valid_queue_def mm_sorted_def is_event_def set_queue_def Let_def)
qed

section \<open>A call that finds an event which is not due\<close>

text \<open>The loop ends at a reading of the clock when the event is due or the time of the caller is over.\<close>

definition loop_stops :: "int \<Rightarrow> int \<Rightarrow> int \<Rightarrow> int \<Rightarrow> bool" where
  "loop_stops t ms initial now \<longleftrightarrow> t \<le> now \<or> ms \<le> to_millis (now - initial)"

lemma mes_take_loop_step:
  assumes "multiEventsSetHashMap m d = Some ((t0, p) # q)" "p < length evs"
  shows "mes_take_loop clock i m evs d True ms initial =
    (if \<not> loop_stops (expirationTimePoint (evs ! p)) ms initial (clock i)
     then mes_take_loop clock (i + 1) m evs d True ms initial
     else Some (if expirationTimePoint (evs ! p) \<le> clock i then Mes_returns (Inr (Some p)) None (set_queue d q m)
                else Mes_returns (Inr None) None m, i + 1))"
  using assms by (subst mes_take_loop.simps) (auto simp: event_ref_def getExpirationTimePoint_def Let_def loop_stops_def)

lemma mes_take_loop_spins:
  assumes "multiEventsSetHashMap m d = Some ((t0, p) # q)" "p < length evs"
    and "\<forall>j<k. \<not> loop_stops (expirationTimePoint (evs ! p)) ms initial (clock (i + j))"
  shows "mes_take_loop clock i m evs d True ms initial = mes_take_loop clock (i + k) m evs d True ms initial"
  using assms(3)
proof (induction k)
  case (Suc k)
  then show ?case using mes_take_loop_step [OF assms(1,2), of clock "i + k"] by simp
qed simp

lemma mes_take_loop_returns:
  assumes "mes_take_loop clock i m evs d blocking ms initial = Some r"
    and "multiEventsSetHashMap m d = Some ((t0, p) # q)" "p < length evs" "blocking"
  shows "\<exists>j\<ge>i. loop_stops (expirationTimePoint (evs ! p)) ms initial (clock j)"
proof -
  let ?P = "\<lambda>clock i m evs d blocking ms initial (r :: mes_outcome \<times> nat). multiEventsSetHashMap m d = Some ((t0, p) # q) \<longrightarrow>
    p < length evs \<longrightarrow> blocking \<longrightarrow> (\<exists>j\<ge>i. loop_stops (expirationTimePoint (evs ! p)) ms initial (clock j))"
  have "?P clock i m evs d blocking ms initial r"
  proof (rule mes_take_loop.raw_induct [where P = ?P, rotated])
    show "mes_take_loop clock i m evs d blocking ms initial = Some r" by (rule assms(1))
  next
    fix loop clock i m evs d blocking ms initial and r :: "mes_outcome \<times> nat"
    assume IH: "\<And>clock i m evs d blocking ms initial r. loop clock i m evs d blocking ms initial = Some r \<Longrightarrow>
        ?P clock i m evs d blocking ms initial r"
      and body: "(case mes_queue m d of
        [] \<Rightarrow> Some (Mes_returns (Inr None) None m, i)
      | (_, p) # q \<Rightarrow> do {
          event \<leftarrow> event_ref evs p;
          let now = clock i;
          let t = getExpirationTimePoint event;
          if now < t
          then if blocking
               then let remaining = ms - to_millis (now - initial)
                    in if remaining \<le> 0 then Some (Mes_returns (Inr None) None m, i + 1)
                       else let remaining' = (if t - now \<le> remaining * 1000000 then to_millis (t - now) else remaining)
                            in if mes_queue m d \<noteq> [] then loop clock (i + 1) m evs d blocking ms initial
                               else Some (Mes_waits \<lparr>mwCall = TakeFirst2, mwDestination = d, mwMilliSecondsToBlock = ms,
                                      mwInitialTimePoint = initial, mwInLoop = True, mwWait = remaining'\<rparr> m, i + 1)
               else Some (Mes_returns (Inr None) None m, i + 1)
          else Some (Mes_returns (Inr (Some p)) None (set_queue d q m), i + 1)
        }) = Some r"
    show "?P clock i m evs d blocking ms initial r"
    proof (intro impI)
      assume a: "multiEventsSetHashMap m d = Some ((t0, p) # q)" "p < length evs" "blocking"
      show "\<exists>j\<ge>i. loop_stops (expirationTimePoint (evs ! p)) ms initial (clock j)"
      proof (cases "loop_stops (expirationTimePoint (evs ! p)) ms initial (clock i)")
        case False
        then have "loop clock (i + 1) m evs d blocking ms initial = Some r"
          using body a by (simp add: event_ref_def getExpirationTimePoint_def Let_def loop_stops_def split: if_splits)
        from IH [OF this] a obtain j where "i + 1 \<le> j" "loop_stops (expirationTimePoint (evs ! p)) ms initial (clock j)"
          by blast
        then show ?thesis by (meson add_leD1)
      qed auto
    qed
  qed
  then show ?thesis using assms(2-) by blast
qed

text \<open>C31: a blocking \<open>getAndRemoveFirstEvent\<close> whose first event is not due never waits for the condition, so it keeps
  the mutex and no producer can add an event meanwhile: it reads the clock again and again until the event is due, which
  it then returns, or the time of its caller is over, when it returns nothing. It does not return if
  neither happens.\<close>

theorem getAndRemoveFirstEvent2_spins:
  assumes "multiEventsSetHashMap m d = Some ((t0, p) # q)" "p < length evs"
  shows "getAndRemoveFirstEvent2 clock m evs d True ms =
    (let stops = (\<lambda>j. loop_stops (expirationTimePoint (evs ! p)) ms (clock 0) (clock (Suc j)))
     in if \<exists>j. stops j
        then (let k = (LEAST j. stops j)
              in Some (if expirationTimePoint (evs ! p) \<le> clock (Suc k) then Mes_returns (Inr (Some p)) None (set_queue d q m)
                       else Mes_returns (Inr None) None m, k + 2))
        else None)"
proof -
  let ?stops = "\<lambda>j. loop_stops (expirationTimePoint (evs ! p)) ms (clock 0) (clock (Suc j))"
  have loop: "getAndRemoveFirstEvent2 clock m evs d True ms = mes_take_loop clock 1 m evs d True ms (clock 0)"
    using assms by (simp add: getAndRemoveFirstEvent2_def Let_def)
  show ?thesis
  proof (cases "\<exists>j. ?stops j")
    case True
    define k where "k = (LEAST j. ?stops j)"
    have k1: "?stops k" unfolding k_def using True by (rule LeastI_ex)
    have k2: "\<forall>j<k. \<not> ?stops j" unfolding k_def using not_less_Least by blast
    have "mes_take_loop clock 1 m evs d True ms (clock 0) = mes_take_loop clock (1 + k) m evs d True ms (clock 0)"
      by (rule mes_take_loop_spins [OF assms]) (use k2 in simp)
    also have "\<dots> = Some (if expirationTimePoint (evs ! p) \<le> clock (Suc k) then Mes_returns (Inr (Some p)) None (set_queue d q m)
        else Mes_returns (Inr None) None m, k + 2)"
      using k1 by (subst mes_take_loop_step [OF assms]) simp
    finally show ?thesis using loop True by (simp only: Let_def k_def if_True)
  next
    case False
    then have "mes_take_loop clock 1 m evs d True ms (clock 0) = None"
      using mes_take_loop_returns [OF _ assms TrueI, of clock 1 ms "clock 0"]
      by (cases "mes_take_loop clock 1 m evs d True ms (clock 0)") (auto, metis Suc_le_D)
    then show ?thesis using loop False by simp
  qed
qed

text \<open>An event due in 5 nanoseconds, a clock that advances by one with each reading.\<close>

theorem getAndRemoveFirstEvent2_spins_witness:
  "getAndRemoveFirstEvent2 int \<lparr>multiEventsSetHashMap = [''a'' \<mapsto> [(5, 0)]], eventsFactory = EventsFactory_ctor\<rparr>
     [event_for ''a'' 5 0] ''a'' True 1000 =
   Some (Mes_returns (Inr (Some 0)) None \<lparr>multiEventsSetHashMap = [''a'' \<mapsto> []], eventsFactory = EventsFactory_ctor\<rparr>, 6)"
proof -
  let ?stops = "\<lambda>j. loop_stops 5 1000 0 (int (Suc j))"
  have k: "(LEAST j. ?stops j) = 4"
    by (rule Least_equality) (auto simp: loop_stops_def to_millis_def)
  then have "\<exists>j. ?stops j" by (intro exI [of _ 4]) (simp add: loop_stops_def)
  then show ?thesis
    using getAndRemoveFirstEvent2_spins [of "\<lparr>multiEventsSetHashMap = [''a'' \<mapsto> [(5, 0)]], eventsFactory = EventsFactory_ctor\<rparr>"
        "''a''" 5 0 "[]" "[event_for ''a'' 5 0]" int 1000] k
    by (simp add: event_for_def Let_def set_queue_def)
qed

end
