(* ===== verification/MultiEventsSystem.thy ===== *)
theory MultiEventsSystem
  imports MultiEventsProps
begin

text \<open>
  Threads that share one \<open>MultiEventsSet\<close>: every interleaving of their calls, each cut where it waits. The
  clients own the events and may change them at any time, also while they are in a queue.
\<close>

section \<open>The system\<close>

text \<open>Beside the set, the events and the waiting calls: what was added, taken and deleted so far.\<close>

record mes_system =
  msSet :: multi_events_set
  msEvents :: events
  msWaiting :: "mes_waiter list"
  msAdded :: "string \<Rightarrow> (int \<times> nat) multiset"
  msTaken :: "string \<Rightarrow> (int \<times> nat) multiset"
  msDeleted :: "string \<Rightarrow> (int \<times> nat) multiset"

definition note_event :: "(string \<Rightarrow> 'a multiset) \<Rightarrow> string \<Rightarrow> 'a \<Rightarrow> string \<Rightarrow> 'a multiset" where
  "note_event f d x = f(d := add_mset x (f d))"

text \<open>The end of a step of a call: it returns, and may have taken an event, or it waits.\<close>

fun after_call :: "mes_system \<Rightarrow> mes_call \<Rightarrow> string \<Rightarrow> mes_outcome \<Rightarrow> mes_system" where
  "after_call s call d (Mes_returns (Inr (Some p)) b m) = s\<lparr>msSet := m,
     msTaken := (if call = TakeFirst2 then note_event (msTaken s) d (fst (hd (mes_queue (msSet s) d)), p) else msTaken s)\<rparr>"
| "after_call s call d (Mes_returns _ b m) = s\<lparr>msSet := m\<rparr>"
| "after_call s call d (Mes_waits w m) = s\<lparr>msSet := m, msWaiting := w # msWaiting s\<rparr>"

text \<open>The pair that \<open>deleteEvent\<close> removes for an event.\<close>

definition deleted_pair :: "events \<Rightarrow> multi_events_set \<Rightarrow> event2 \<Rightarrow> int \<times> nat" where
  "deleted_pair evs m e =
     mes_queue m (destination e) ! the (the (find_event evs (expirationTimePoint e) (eventKey e) (mes_queue m (destination e))))"

inductive mes_step :: "mes_system \<Rightarrow> mes_system \<Rightarrow> bool" where
  add: "addEvent2 p (msEvents s) (msSet s) = Some (r, m) \<Longrightarrow> e = msEvents s ! p \<Longrightarrow>
    mes_step s (s\<lparr>msSet := m, msAdded := (case r of Inl _ \<Rightarrow> msAdded s
      | Inr _ \<Rightarrow> note_event (msAdded s) (destination e) (expirationTimePoint e, p))\<rparr>)"
| new_destination: "addDestination2 d (msSet s) = (r, m) \<Longrightarrow> mes_step s (s\<lparr>msSet := m\<rparr>)"
| delete: "deleteEvent2 p (msEvents s) (msSet s) = Some (r, m) \<Longrightarrow> e = msEvents s ! p \<Longrightarrow>
    mes_step s (s\<lparr>msSet := m, msDeleted := (case r of Some _ \<Rightarrow> msDeleted s
      | None \<Rightarrow> note_event (msDeleted s) (destination e) (deleted_pair (msEvents s) (msSet s) e))\<rparr>)"
| take_first: "getAndRemoveFirstEvent2 clock (msSet s) (msEvents s) d blocking ms = Some (out, n) \<Longrightarrow>
    mes_step s (after_call s TakeFirst2 d out)"
| look_first: "getFirstEvent2 (msSet s) (msEvents s) d blocking ms now = Some out \<Longrightarrow>
    mes_step s (after_call s GetFirst2 d out)"
| wake: "i < length (msWaiting s) \<Longrightarrow> w = msWaiting s ! i \<Longrightarrow>
    mes_resume w timed_out clock (msSet s) (msEvents s) = Some out \<Longrightarrow>
    mes_step s (after_call (s\<lparr>msWaiting := take i (msWaiting s) @ drop (Suc i) (msWaiting s)\<rparr>) (mwCall w) (mwDestination w) out)"
| client: "length (msEvents s) \<le> length evs \<Longrightarrow>
    mes_step s (s\<lparr>msEvents := evs, msSet := (msSet s)\<lparr>eventsFactory := f\<rparr>\<rparr>)"

inductive_cases mes_stepE: "mes_step s s'"

section \<open>Invariant\<close>

definition set_ok :: "events \<Rightarrow> multi_events_set \<Rightarrow> bool" where
  "set_ok evs m \<longleftrightarrow> (\<forall>d. valid_queue evs (mes_queue m d))"

definition accounted :: "mes_system \<Rightarrow> bool" where
  "accounted s \<longleftrightarrow> (\<forall>d. msAdded s d = mset (mes_queue (msSet s) d) + msTaken s d + msDeleted s d)"

text \<open>In the loop only \<open>getAndRemoveFirstEvent\<close> waits.\<close>

definition waiter_fits :: "mes_waiter \<Rightarrow> bool" where
  "waiter_fits w \<longleftrightarrow> (mwInLoop w \<longrightarrow> mwCall w = TakeFirst2)"

definition system_ok :: "mes_system \<Rightarrow> bool" where
  "system_ok s \<longleftrightarrow> set_ok (msEvents s) (msSet s) \<and> accounted s \<and> (\<forall>w\<in>set (msWaiting s). waiter_fits w)"

lemma mes_queue_set_queue: "mes_queue (set_queue d q m) d' = (if d' = d then q else mes_queue m d')"
  by (simp add: set_queue_def)

lemma set_ok_set_queue: "set_ok evs m \<Longrightarrow> valid_queue evs q \<Longrightarrow> set_ok evs (set_queue d q m)"
  by (simp add: set_ok_def set_queue_def)

lemma valid_queue_insert: "valid_queue evs q \<Longrightarrow> p < length evs \<Longrightarrow> valid_queue evs (mm_insert t p q)"
  by (auto simp: valid_queue_def mm_insert_sorted mm_insert_set)

lemma valid_queue_erase: "valid_queue evs q \<Longrightarrow> valid_queue evs (mm_erase i q)"
  using mm_erase_sorted [of q i] by (auto simp: valid_queue_def mm_erase_def dest: in_set_takeD in_set_dropD)

lemma valid_queue_tl: "valid_queue evs (x # q) \<Longrightarrow> valid_queue evs q"
  by (auto simp: valid_queue_def mm_sorted_def)

lemma mm_insert_count: "mset (mm_insert k v q) = add_mset (k, v) (mset q)"
  by (induction k v q rule: mm_insert.induct) auto

lemma mm_erase_count: "j < length q \<Longrightarrow> mset q = add_mset (q ! j) (mset (mm_erase j q))"
proof -
  assume "j < length q"
  then have "q = take j q @ q ! j # drop (Suc j) q" by (rule id_take_nth_drop)
  then have "mset q = mset (take j q @ q ! j # drop (Suc j) q)" by (rule arg_cong)
  then show ?thesis by (simp add: mm_erase_def)
qed

section \<open>What the calls give\<close>

text \<open>The outcomes a step of a call may have at the destination \<open>d\<close>.\<close>

definition outcome_ok :: "multi_events_set \<Rightarrow> mes_call \<Rightarrow> string \<Rightarrow> mes_outcome \<Rightarrow> bool" where
  "outcome_ok m call d out \<longleftrightarrow>
     (\<exists>r b. out = Mes_returns r b m \<and> (call = TakeFirst2 \<longrightarrow> (\<forall>p. r \<noteq> Inr (Some p)))) \<or>
     (\<exists>t p q b. call = TakeFirst2 \<and> mes_queue m d = (t, p) # q \<and> out = Mes_returns (Inr (Some p)) b (set_queue d q m)) \<or>
     (\<exists>w. out = Mes_waits w m \<and> waiter_fits w \<and> mwCall w = call \<and> mwDestination w = d)"

lemma outcome_returns: "(call = TakeFirst2 \<Longrightarrow> \<forall>p. r \<noteq> Inr (Some p)) \<Longrightarrow> outcome_ok m call d (Mes_returns r b m)"
  by (auto simp: outcome_ok_def)

lemma outcome_takes: "mes_queue m d = (t, p) # q \<Longrightarrow> outcome_ok m TakeFirst2 d (Mes_returns (Inr (Some p)) b (set_queue d q m))"
  by (auto simp: outcome_ok_def)

lemma outcome_waits: "waiter_fits w \<Longrightarrow> mwCall w = call \<Longrightarrow> mwDestination w = d \<Longrightarrow> outcome_ok m call d (Mes_waits w m)"
  by (auto simp: outcome_ok_def)

lemma mes_take_loop_outcome:
  "mes_take_loop clock i m evs d blocking ms initial = Some r \<Longrightarrow> outcome_ok m TakeFirst2 d (fst r)"
proof (erule mes_take_loop.raw_induct [rotated])
qed (fastforce simp: Let_def bind_eq_Some waiter_fits_def split: list.splits prod.splits if_splits
    intro: outcome_returns outcome_takes outcome_waits)

lemma first_event_of_outcome: "first_event_of m evs d now = Some out \<Longrightarrow> outcome_ok m GetFirst2 d out"
  by (auto simp: first_event_of_def bind_eq_Some split: list.splits intro: outcome_returns)

lemma getAndRemoveFirstEvent2_outcome:
  "getAndRemoveFirstEvent2 clock m evs d blocking ms = Some (out, n) \<Longrightarrow> outcome_ok m TakeFirst2 d out"
  by (auto simp: getAndRemoveFirstEvent2_def Let_def waiter_fits_def split: option.splits if_splits
      intro: outcome_returns outcome_waits dest: mes_take_loop_outcome)

lemma getFirstEvent2_outcome:
  "getFirstEvent2 m evs d blocking ms now = Some out \<Longrightarrow> outcome_ok m GetFirst2 d out"
  by (auto simp: getFirstEvent2_def waiter_fits_def split: option.splits if_splits
      intro: outcome_returns outcome_waits dest: first_event_of_outcome)

lemma mes_resume_outcome:
  assumes "mes_resume w timed_out clock m evs = Some out" "waiter_fits w"
  shows "outcome_ok m (mwCall w) (mwDestination w) out"
proof (cases "mwCall w")
  case GetFirst2
  then show ?thesis
    using assms by (auto simp: mes_resume_def waiter_fits_def Let_def split: if_splits
        intro: outcome_returns outcome_waits dest: first_event_of_outcome)
next
  case TakeFirst2
  then show ?thesis
    using assms by (auto simp: mes_resume_def Let_def split: if_splits
        intro: outcome_returns outcome_waits dest: mes_take_loop_outcome)
qed

section \<open>Every step keeps the invariant\<close>

lemma accounted_same:
  "accounted s \<Longrightarrow> (\<And>d. mes_queue (msSet s') d = mes_queue (msSet s) d) \<Longrightarrow> msAdded s' = msAdded s \<Longrightarrow>
   msTaken s' = msTaken s \<Longrightarrow> msDeleted s' = msDeleted s \<Longrightarrow> accounted s'"
  by (simp add: accounted_def)

lemma after_call_ok:
  assumes "system_ok s" "outcome_ok (msSet s) call d out"
  shows "system_ok (after_call s call d out)"
  using assms(2) unfolding outcome_ok_def
proof (elim disjE exE conjE)
  fix r b assume "out = Mes_returns r b (msSet s)" "call = TakeFirst2 \<longrightarrow> (\<forall>p. r \<noteq> Inr (Some p))"
  then have "after_call s call d out = s"
    by (cases "(s, call, d, out)" rule: after_call.cases) auto
  then show ?thesis using assms(1) by simp
next
  fix t p q b assume o: "call = TakeFirst2" "mes_queue (msSet s) d = (t, p) # q" "out = Mes_returns (Inr (Some p)) b (set_queue d q (msSet s))"
  have "valid_queue (msEvents s) ((t, p) # q)" using assms(1) o(2) by (metis set_ok_def system_ok_def)
  then have "set_ok (msEvents s) (set_queue d q (msSet s))"
    using assms(1) valid_queue_tl by (blast intro: set_ok_set_queue dest: system_ok_def [THEN iffD1])
  moreover have "accounted (after_call s call d out)"
    using assms(1) o unfolding system_ok_def accounted_def
    by (simp add: mes_queue_set_queue note_event_def)
  ultimately show ?thesis using assms(1) o by (simp add: system_ok_def)
next
  fix w assume "out = Mes_waits w (msSet s)" "waiter_fits w"
  then show ?thesis using assms(1) by (simp add: system_ok_def accounted_def)
qed

lemma add_ok:
  assumes "system_ok s" "addEvent2 p (msEvents s) (msSet s) = Some (r, m)"
  shows "system_ok (s\<lparr>msSet := m, msAdded := (case r of Inl _ \<Rightarrow> msAdded s
      | Inr _ \<Rightarrow> note_event (msAdded s) (destination (msEvents s ! p)) (expirationTimePoint (msEvents s ! p), p))\<rparr>)"
proof -
  let ?d = "destination (msEvents s ! p)" and ?t = "expirationTimePoint (msEvents s ! p)"
  have p: "p < length (msEvents s)" using assms(2) by (auto simp: addEvent2_def event_ref_def split: if_splits)
  show ?thesis
  proof (cases r)
    case (Inl e)
    then have "m = msSet s"
      using assms(2) by (auto simp: addEvent2_def bind_eq_Some Let_def split: option.splits)
    then show ?thesis using assms(1) Inl by simp
  next
    case (Inr n)
    then obtain q where q: "multiEventsSetHashMap (msSet s) ?d = Some q" "m = set_queue ?d (mm_insert ?t p q) (msSet s)"
      using assms(2) p by (auto simp: addEvent2_def event_ref_def bind_eq_Some Let_def getDestination_def
          getExpirationTimePoint_def split: option.splits)
    have "valid_queue (msEvents s) q" using assms(1) q(1) by (auto simp: system_ok_def set_ok_def dest: spec [of _ ?d])
    then have "set_ok (msEvents s) m"
      using q(2) valid_queue_insert [OF _ p] assms(1) by (simp add: set_ok_set_queue system_ok_def)
    then show ?thesis
      using assms(1) Inr q by (simp add: system_ok_def accounted_def note_event_def mes_queue_set_queue mm_insert_count)
  qed
qed

lemma delete_ok:
  assumes "system_ok s" "deleteEvent2 p (msEvents s) (msSet s) = Some (r, m)" "e = msEvents s ! p"
  shows "system_ok (s\<lparr>msSet := m, msDeleted := (case r of Some _ \<Rightarrow> msDeleted s
      | None \<Rightarrow> note_event (msDeleted s) (destination e) (deleted_pair (msEvents s) (msSet s) e))\<rparr>)"
proof -
  have p: "p < length (msEvents s)" using assms(2) by (auto simp: deleteEvent2_def event_ref_def split: if_splits)
  show ?thesis
  proof (cases r)
    case (Some x)
    then have "m = msSet s"
      using assms(2) by (auto simp: deleteEvent2_def bind_eq_Some Let_def split: option.splits)
    then show ?thesis using assms(1) Some by simp
  next
    case None
    then obtain q i where q: "multiEventsSetHashMap (msSet s) (destination e) = Some q"
      "find_event (msEvents s) (expirationTimePoint e) (eventKey e) q = Some (Some i)"
      "m = set_queue (destination e) (mm_erase i q) (msSet s)"
      using assms(2,3) p by (auto simp: deleteEvent2_def event_ref_def bind_eq_Some Let_def getDestination_def
          getExpirationTimePoint_def getEventKey_def split: option.splits)
    have v: "valid_queue (msEvents s) q" using assms(1) q(1) by (auto simp: system_ok_def set_ok_def dest: spec [of _ "destination e"])
    have "i < length q"
    proof -
      let ?P = "\<lambda>i. i < length q \<and> is_event (msEvents s) (expirationTimePoint e) (eventKey e) (q ! i)"
      have ex: "\<exists>x\<in>set q. is_event (msEvents s) (expirationTimePoint e) (eventKey e) x" and i: "i = (LEAST i. ?P i)"
        using q(2) v find_event_eq [of q "msEvents s" "expirationTimePoint e" "eventKey e"]
        by (auto simp: valid_queue_def split: if_splits)
      then have "\<exists>i. ?P i" by (metis in_set_conv_nth)
      then show ?thesis using i LeastI_ex [of ?P] by blast
    qed
    note c = mm_erase_count [OF this]
    have "set_ok (msEvents s) m"
      using q(3) v valid_queue_erase assms(1) by (simp add: set_ok_set_queue system_ok_def)
    moreover have "deleted_pair (msEvents s) (msSet s) e = q ! i" using q(1,2) by (simp add: deleted_pair_def)
    ultimately show ?thesis
      using assms(1) None q(1,3) c by (simp add: system_ok_def accounted_def note_event_def mes_queue_set_queue)
  qed
qed

lemma addDestination2_ok:
  assumes "system_ok s" "addDestination2 d (msSet s) = (r, m)"
  shows "system_ok (s\<lparr>msSet := m\<rparr>)"
proof -
  have "mes_queue m d' = mes_queue (msSet s) d'" for d'
    using assms(2) by (auto simp: addDestination2_def split: if_splits)
  then show ?thesis using assms(1) by (simp add: system_ok_def accounted_def set_ok_def)
qed

lemma client_ok:
  assumes "system_ok s" "length (msEvents s) \<le> length evs"
  shows "system_ok (s\<lparr>msEvents := evs, msSet := (msSet s)\<lparr>eventsFactory := f\<rparr>\<rparr>)"
proof -
  have "valid_queue evs q" if "valid_queue (msEvents s) q" for q
    using that assms(2) by (auto simp: valid_queue_def)
  then show ?thesis using assms(1) by (simp add: system_ok_def accounted_def set_ok_def)
qed

lemma wake_ok:
  assumes "system_ok s" "i < length (msWaiting s)" "w = msWaiting s ! i"
    and "mes_resume w timed_out clock (msSet s) (msEvents s) = Some out"
  shows "system_ok (after_call (s\<lparr>msWaiting := take i (msWaiting s) @ drop (Suc i) (msWaiting s)\<rparr>)
    (mwCall w) (mwDestination w) out)"
proof (rule after_call_ok)
  show "system_ok (s\<lparr>msWaiting := take i (msWaiting s) @ drop (Suc i) (msWaiting s)\<rparr>)"
    using assms(1) by (auto simp: system_ok_def accounted_def dest: in_set_takeD in_set_dropD)
  have "waiter_fits w" using assms(1-3) by (simp add: system_ok_def)
  then show "outcome_ok (msSet (s\<lparr>msWaiting := take i (msWaiting s) @ drop (Suc i) (msWaiting s)\<rparr>)) (mwCall w) (mwDestination w) out"
    using mes_resume_outcome [OF assms(4)] by simp
qed

lemma mes_step_ok: "mes_step s s' \<Longrightarrow> system_ok s \<Longrightarrow> system_ok s'"
  by (induction rule: mes_step.induct)
    (auto intro: add_ok delete_ok addDestination2_ok client_ok wake_ok after_call_ok
      getAndRemoveFirstEvent2_outcome getFirstEvent2_outcome)

section \<open>Reachable systems\<close>

definition mes_start :: "events \<Rightarrow> mes_system" where
  "mes_start evs = \<lparr>msSet = MultiEventsSet_ctor, msEvents = evs, msWaiting = [], msAdded = (\<lambda>_. {#}),
     msTaken = (\<lambda>_. {#}), msDeleted = (\<lambda>_. {#})\<rparr>"

inductive mes_reach :: "mes_system \<Rightarrow> bool" where
  start: "mes_reach (mes_start evs)"
| step: "mes_reach s \<Longrightarrow> mes_step s s' \<Longrightarrow> mes_reach s'"

lemma mes_reach_ok: "mes_reach s \<Longrightarrow> system_ok s"
proof (induction rule: mes_reach.induct)
  case (start evs)
  then show ?case
    by (simp add: mes_start_def MultiEventsSet_ctor_def system_ok_def set_ok_def accounted_def valid_queue_def mm_sorted_def)
next
  case (step s s')
  then show ?case using mes_step_ok by blast
qed

text \<open>C9: However the calls of several threads on one \<open>MultiEventsSet\<close> interleave (each cut where it waits for a condition,
  with waits that end by a notification, without reason or when their time is over, and with clients that change
  their events at any time), no pair of an expiration and an event is lost, doubled or moved to another
  destination: what was ever added to a destination is what its queue holds, what was taken from it and what was
  deleted from it, with multiplicities. Each queue stays ordered by the expirations its events were added with.\<close>

theorem MultiEventsSet_conserves:
  assumes "mes_reach s"
  shows "msAdded s d = mset (mes_queue (msSet s) d) + msTaken s d + msDeleted s d \<and>
    sorted (map fst (mes_queue (msSet s) d)) \<and> (\<forall>x\<in>set (mes_queue (msSet s) d). snd x < length (msEvents s))"
proof -
  have "system_ok s" using assms by (rule mes_reach_ok)
  then have "accounted s" "valid_queue (msEvents s) (mes_queue (msSet s) d)"
    by (simp_all add: system_ok_def set_ok_def)
  then show ?thesis by (simp add: accounted_def valid_queue_def mm_sorted_def)
qed

definition two_events :: events where
  "two_events = [event_for ''a'' 5 0, event_for ''a'' 3 1]"

text \<open>Two events are added, and the one that expires first is taken.\<close>

definition two_added :: multi_events_set where
  "two_added = \<lparr>multiEventsSetHashMap = [''a'' \<mapsto> [(3, 1), (5, 0)]], eventsFactory = EventsFactory_ctor\<rparr>"

definition first_taken :: mes_system where
  "first_taken = \<lparr>msSet = \<lparr>multiEventsSetHashMap = [''a'' \<mapsto> [(5, 0)]], eventsFactory = EventsFactory_ctor\<rparr>,
     msEvents = two_events, msWaiting = [], msAdded = (\<lambda>_. {#})(''a'' := {#(3, 1), (5, 0)#}),
     msTaken = (\<lambda>_. {#})(''a'' := {#(3, 1)#}), msDeleted = (\<lambda>_. {#})\<rparr>"

lemma mes_reach_addDestination2:
  "mes_reach s \<Longrightarrow> addDestination2 d (msSet s) = (r, m) \<Longrightarrow> s' = s\<lparr>msSet := m\<rparr> \<Longrightarrow> mes_reach s'"
  using mes_reach.step mes_step.new_destination by blast

lemma mes_reach_addEvent2:
  "mes_reach s \<Longrightarrow> addEvent2 p (msEvents s) (msSet s) = Some (Inr b, m) \<Longrightarrow> e = msEvents s ! p \<Longrightarrow>
   s' = s\<lparr>msSet := m, msAdded := note_event (msAdded s) (destination e) (expirationTimePoint e, p)\<rparr> \<Longrightarrow> mes_reach s'"
  using mes_reach.step mes_step.add [of p s "Inr b" m e] by simp

lemma mes_reach_take_first:
  "mes_reach s \<Longrightarrow> getAndRemoveFirstEvent2 clock (msSet s) (msEvents s) d blocking ms = Some (out, n) \<Longrightarrow>
   s' = after_call s TakeFirst2 d out \<Longrightarrow> mes_reach s'"
  using mes_reach.step mes_step.take_first by blast

lemma first_taken_reached: "mes_reach first_taken"
proof -
  let ?start = "mes_start two_events" and ?m1 = "MultiEventsSet_ctor\<lparr>multiEventsSetHashMap := [''a'' \<mapsto> []]\<rparr>"
  let ?m2 = "MultiEventsSet_ctor\<lparr>multiEventsSetHashMap := [''a'' \<mapsto> [(5, 0)]]\<rparr>"
  have "mes_reach (?start\<lparr>msSet := ?m1\<rparr>)"
    by (rule mes_reach_addDestination2 [OF mes_reach.start, where d = "''a''" and r = None])
      (auto simp: mes_start_def MultiEventsSet_ctor_def addDestination2_def)
  then have "mes_reach (?start\<lparr>msSet := ?m2, msAdded := (\<lambda>_. {#})(''a'' := {#(5, 0)#})\<rparr>)"
    by (rule mes_reach_addEvent2 [where p = 0 and b = True])
      (auto simp: mes_start_def MultiEventsSet_ctor_def addEvent2_def event_ref_def two_events_def event_for_def
        getDestination_def getExpirationTimePoint_def set_queue_def note_event_def)
  then have "mes_reach (?start\<lparr>msSet := two_added, msAdded := (\<lambda>_. {#})(''a'' := {#(3, 1), (5, 0)#})\<rparr>)"
    by (rule mes_reach_addEvent2 [where p = 1 and b = True])
      (auto simp: mes_start_def MultiEventsSet_ctor_def addEvent2_def event_ref_def two_events_def event_for_def
        getDestination_def getExpirationTimePoint_def set_queue_def note_event_def two_added_def)
  then show ?thesis
    by (rule mes_reach_take_first [where clock = "\<lambda>_. 4" and d = "''a''" and blocking = False and ms = 0 and n = 2])
      (auto simp: mes_start_def two_added_def getAndRemoveFirstEvent2_def mes_take_loop.simps event_ref_def two_events_def
        event_for_def getExpirationTimePoint_def set_queue_def note_event_def first_taken_def)
qed

theorem MultiEventsSet_conserves_witness:
  "{#(3, 1), (5, 0)#} = mset (mes_queue (msSet first_taken) ''a'') + {#(3, 1)#} + msDeleted first_taken ''a'' \<and>
   mes_queue (msSet first_taken) ''a'' = [(5, 0)]"
  using MultiEventsSet_conserves [OF first_taken_reached, of "''a''"] by (simp add: first_taken_def)

end
