(* ===== verification/MergeSort.thy ===== *)
theory MergeSort
  imports Prelude "HOL-Library.Multiset"
begin

text \<open>
  The template \<open>MergeSort\<close> of \<open>Tools/src/MergeSort.h\<close>. An array is a list, an access outside it is \<open>None\<close>;
  \<open>dflt\<close> is what the default constructor of the elements makes. Both directions are the same code up to
  the comparison \<open>cmp\<close>, which is \<^verbatim>\<open>operator <\<close> or \<^verbatim>\<open>operator >\<close> of the elements. The contract of
  that comparison is the locale \<open>weak_order\<close>.
\<close>

section \<open>Arrays\<close>

definition array_read :: "'a list \<Rightarrow> int \<Rightarrow> 'a option" where
  "array_read xs i = (if 0 \<le> i \<and> i < int (length xs) then Some (xs ! nat i) else None)"

definition array_write :: "'a list \<Rightarrow> int \<Rightarrow> 'a \<Rightarrow> 'a list option" where
  "array_write xs i x = (if 0 \<le> i \<and> i < int (length xs) then Some (xs[nat i := x]) else None)"

section \<open>Merging\<close>

text \<open>Both indices run to their last index; equal elements are taken from the second part.\<close>

function merge_loop ::
  "('a \<Rightarrow> 'a \<Rightarrow> bool) \<Rightarrow> 'a list \<Rightarrow> int \<Rightarrow> int \<Rightarrow> int \<Rightarrow> int \<Rightarrow> 'a list \<Rightarrow> int \<Rightarrow> (int \<times> int \<times> 'a list \<times> int) option"
where
  "merge_loop cmp xs lIndex1 lLastIndex1 lIndex2 lLastIndex2 merged m =
     (if lIndex1 \<le> lLastIndex1 \<and> lIndex2 \<le> lLastIndex2
      then do {
        x \<leftarrow> array_read xs lIndex1;
        y \<leftarrow> array_read xs lIndex2;
        if cmp x y
        then do {
          merged' \<leftarrow> array_write merged m x;
          merge_loop cmp xs (lIndex1 + 1) lLastIndex1 lIndex2 lLastIndex2 merged' (m + 1)
        }
        else do {
          merged' \<leftarrow> array_write merged m y;
          merge_loop cmp xs lIndex1 lLastIndex1 (lIndex2 + 1) lLastIndex2 merged' (m + 1)
        }
      }
      else Some (lIndex1, lIndex2, merged, m))"
  by pat_completeness auto

termination
  by (relation "measure (\<lambda>(_, _, i1, l1, i2, l2, _). nat (l1 + 1 - i1) + nat (l2 + 1 - i2))") auto

declare merge_loop.simps [simp del]

text \<open>The loops behind it, one for each part.\<close>

function merge_rest :: "'a list \<Rightarrow> int \<Rightarrow> int \<Rightarrow> 'a list \<Rightarrow> int \<Rightarrow> ('a list \<times> int) option" where
  "merge_rest xs lIndex lLastIndex merged m =
     (if lIndex \<le> lLastIndex
      then do {
        x \<leftarrow> array_read xs lIndex;
        merged' \<leftarrow> array_write merged m x;
        merge_rest xs (lIndex + 1) lLastIndex merged' (m + 1)
      }
      else Some (merged, m))"
  by pat_completeness auto

termination
  by (relation "measure (\<lambda>(_, i, l, _). nat (l + 1 - i))") auto

declare merge_rest.simps [simp del]

definition mergeAscending ::
  "('a \<Rightarrow> 'a \<Rightarrow> bool) \<Rightarrow> 'a list \<Rightarrow> int \<Rightarrow> int \<Rightarrow> int \<Rightarrow> int \<Rightarrow> 'a list \<Rightarrow> ('a list \<times> int) option" where
  "mergeAscending cmp xs lFirstIndex1 lLastIndex1 lFirstIndex2 lLastIndex2 merged = do {
     (i1, i2, merged1, m1) \<leftarrow> merge_loop cmp xs lFirstIndex1 lLastIndex1 lFirstIndex2 lLastIndex2 merged 0;
     (merged2, m2) \<leftarrow> merge_rest xs i1 lLastIndex1 merged1 m1;
     (merged3, _) \<leftarrow> merge_rest xs i2 lLastIndex2 merged2 m2;
     Some (merged3, (lLastIndex1 - lFirstIndex1 + 1) + (lLastIndex2 - lFirstIndex2 + 1))
   }"

function copyBuffers :: "'a list \<Rightarrow> int \<Rightarrow> int \<Rightarrow> 'a list \<Rightarrow> int \<Rightarrow> int \<Rightarrow> 'a list option" where
  "copyBuffers src lSrcIndex lSrcLastIndex dest lDestIndex lDestLastIndex =
     (if lSrcIndex \<le> lSrcLastIndex
      then if lDestIndex \<le> lDestLastIndex
           then do {
             x \<leftarrow> array_read src lSrcIndex;
             dest' \<leftarrow> array_write dest lDestIndex x;
             copyBuffers src (lSrcIndex + 1) lSrcLastIndex dest' (lDestIndex + 1) lDestLastIndex
           }
           else copyBuffers src (lSrcIndex + 1) lSrcLastIndex dest lDestIndex lDestLastIndex
      else Some dest)"
  by pat_completeness auto

termination
  by (relation "measure (\<lambda>(_, i, l, _). nat (l + 1 - i))") auto

declare copyBuffers.simps [simp del]

section \<open>Sorting\<close>

text \<open>The sum of the indices is not negative when it is halved.\<close>

function mergeSortAscendingInternal :: "('a \<Rightarrow> 'a \<Rightarrow> bool) \<Rightarrow> 'a \<Rightarrow> 'a list \<Rightarrow> int \<Rightarrow> int \<Rightarrow> 'a list option" where
  "mergeSortAscendingInternal cmp dflt xs lFirstIndex lLastIndex =
     (if lFirstIndex \<ge> lLastIndex then Some xs
      else let lMiddleIndex = (lFirstIndex + lLastIndex) div 2 in do {
        xs1 \<leftarrow> mergeSortAscendingInternal cmp dflt xs lFirstIndex lMiddleIndex;
        xs2 \<leftarrow> mergeSortAscendingInternal cmp dflt xs1 (lMiddleIndex + 1) lLastIndex;
        (pTSortedElements, n) \<leftarrow> mergeAscending cmp xs2 lFirstIndex lMiddleIndex (lMiddleIndex + 1) lLastIndex
          (replicate (nat (lLastIndex + 1)) dflt);
        copyBuffers pTSortedElements 0 (n - 1) xs2 lFirstIndex lLastIndex
      })"
  by pat_completeness auto

termination
  by (relation "measure (\<lambda>(_, _, _, f, l). nat (l - f))") auto

declare mergeSortAscendingInternal.simps [simp del]

definition mergeSortAscending :: "('a \<Rightarrow> 'a \<Rightarrow> bool) \<Rightarrow> 'a \<Rightarrow> 'a list \<Rightarrow> 'a list option" where
  "mergeSortAscending lt dflt xs = mergeSortAscendingInternal lt dflt xs 0 (int (length xs) - 1)"

text \<open>The descending variants, written out by the code a second time with the other operator.\<close>

definition mergeDescending ::
  "('a \<Rightarrow> 'a \<Rightarrow> bool) \<Rightarrow> 'a list \<Rightarrow> int \<Rightarrow> int \<Rightarrow> int \<Rightarrow> int \<Rightarrow> 'a list \<Rightarrow> ('a list \<times> int) option" where
  "mergeDescending gt xs lFirstIndex1 lLastIndex1 lFirstIndex2 lLastIndex2 merged = do {
     (i1, i2, merged1, m1) \<leftarrow> merge_loop gt xs lFirstIndex1 lLastIndex1 lFirstIndex2 lLastIndex2 merged 0;
     (merged2, m2) \<leftarrow> merge_rest xs i1 lLastIndex1 merged1 m1;
     (merged3, _) \<leftarrow> merge_rest xs i2 lLastIndex2 merged2 m2;
     Some (merged3, (lLastIndex1 - lFirstIndex1 + 1) + (lLastIndex2 - lFirstIndex2 + 1))
   }"

function mergeSortDescendingInternal :: "('a \<Rightarrow> 'a \<Rightarrow> bool) \<Rightarrow> 'a \<Rightarrow> 'a list \<Rightarrow> int \<Rightarrow> int \<Rightarrow> 'a list option" where
  "mergeSortDescendingInternal gt dflt xs lFirstIndex lLastIndex =
     (if lFirstIndex \<ge> lLastIndex then Some xs
      else let lMiddleIndex = (lFirstIndex + lLastIndex) div 2 in do {
        xs1 \<leftarrow> mergeSortDescendingInternal gt dflt xs lFirstIndex lMiddleIndex;
        xs2 \<leftarrow> mergeSortDescendingInternal gt dflt xs1 (lMiddleIndex + 1) lLastIndex;
        (pTSortedElements, n) \<leftarrow> mergeDescending gt xs2 lFirstIndex lMiddleIndex (lMiddleIndex + 1) lLastIndex
          (replicate (nat (lLastIndex + 1)) dflt);
        copyBuffers pTSortedElements 0 (n - 1) xs2 lFirstIndex lLastIndex
      })"
  by pat_completeness auto

termination
  by (relation "measure (\<lambda>(_, _, _, f, l). nat (l - f))") auto

declare mergeSortDescendingInternal.simps [simp del]

definition mergeSortDescending :: "('a \<Rightarrow> 'a \<Rightarrow> bool) \<Rightarrow> 'a \<Rightarrow> 'a list \<Rightarrow> 'a list option" where
  "mergeSortDescending gt dflt xs = mergeSortDescendingInternal gt dflt xs 0 (int (length xs) - 1)"

lemma mergeDescending_eq: "mergeDescending = mergeAscending"
  by (intro ext) (simp add: mergeDescending_def mergeAscending_def)

lemma mergeSortDescendingInternal_eq:
  "mergeSortDescendingInternal gt dflt xs f l = mergeSortAscendingInternal gt dflt xs f l"
proof (induction gt dflt xs f l rule: mergeSortDescendingInternal.induct)
  case (1 gt dflt xs f l)
  then show ?case
    by (subst mergeSortDescendingInternal.simps, subst mergeSortAscendingInternal.simps)
      (simp add: Let_def mergeDescending_eq cong: if_cong Option.bind_cong)
qed

lemma mergeSortAscendingInternal_step:
  assumes "f < l" "mid = (f + l) div 2"
    and "mergeSortAscendingInternal cmp dflt xs f mid = Some xs1"
    and "mergeSortAscendingInternal cmp dflt xs1 (mid + 1) l = Some xs2"
    and "mergeAscending cmp xs2 f mid (mid + 1) l (replicate (nat (l + 1)) dflt) = Some (merged, n)"
  shows "mergeSortAscendingInternal cmp dflt xs f l = copyBuffers merged 0 (n - 1) xs2 f l"
  using assms by (subst mergeSortAscendingInternal.simps) (simp add: Let_def)

section \<open>The loops on lists\<close>

lemma array_read_nat [simp]: "i < length xs \<Longrightarrow> array_read xs (int i) = Some (xs ! i)"
  by (simp add: array_read_def)

lemma array_write_end [simp]:
  "array_write (xs @ y # ys) (int (length xs)) x = Some (xs @ x # ys)"
  by (simp add: array_write_def)

fun merged :: "('a \<Rightarrow> 'a \<Rightarrow> bool) \<Rightarrow> 'a list \<Rightarrow> 'a list \<Rightarrow> 'a list" where
  "merged cmp [] ys = ys"
| "merged cmp xs [] = xs"
| "merged cmp (x # xs) (y # ys) =
     (if cmp x y then x # merged cmp xs (y # ys) else y # merged cmp (x # xs) ys)"

lemma merged_Nil2 [simp]: "merged cmp xs [] = xs"
  by (cases xs) simp_all

lemma merged_length [simp]: "length (merged cmp xs ys) = length xs + length ys"
  by (induction cmp xs ys rule: merged.induct) simp_all

lemma merged_mset [simp]: "mset (merged cmp xs ys) = mset xs + mset ys"
  by (induction cmp xs ys rule: merged.induct) simp_all

lemma merged_set [simp]: "set (merged cmp xs ys) = set xs \<union> set ys"
  by (induction cmp xs ys rule: merged.induct) auto

text \<open>The array holds \<open>zs\<close> from the index \<open>i\<close> on, up to the last index.\<close>

definition holds :: "'a list \<Rightarrow> int \<Rightarrow> int \<Rightarrow> 'a list \<Rightarrow> bool" where
  "holds xs i ub zs \<longleftrightarrow>
     0 \<le> i \<and> ub + 1 \<le> int (length xs) \<and> ub + 1 = i + int (length zs) \<and> zs = take (length zs) (drop (nat i) xs)"

lemma holds_Nil: "holds xs i ub [] \<Longrightarrow> ub < i"
  by (simp add: holds_def)

lemma holds_Cons:
  assumes "holds xs i ub (z # zs)"
  shows "i \<le> ub" "array_read xs i = Some z" "holds xs (i + 1) ub zs"
proof -
  have i: "0 \<le> i" "i < int (length xs)" "i \<le> ub" using assms by (auto simp: holds_def)
  have d: "drop (nat i) xs = xs ! nat i # drop (Suc (nat i)) xs" using i by (simp add: Cons_nth_drop_Suc)
  have z: "z = xs ! nat i" "zs = take (length zs) (drop (Suc (nat i)) xs)"
    using assms d by (simp_all add: holds_def)
  show "i \<le> ub" using i(3) .
  show "array_read xs i = Some z" using i z(1) by (simp add: array_read_def)
  have "nat (i + 1) = Suc (nat i)" using i(1) by simp
  then show "holds xs (i + 1) ub zs" using assms z(2) by (simp add: holds_def)
qed

lemma merge_rest_eq:
  assumes "holds xs i ub zs" "length zs \<le> length room"
  shows "merge_rest xs i ub (out @ room) (int (length out)) =
    Some (out @ zs @ drop (length zs) room, int (length out + length zs))"
  using assms
proof (induction zs arbitrary: i out room)
  case Nil
  then show ?case using holds_Nil [of xs i ub] by (subst merge_rest.simps) simp
next
  case (Cons z zs)
  obtain r rs where room: "room = r # rs" using Cons.prems(2) by (cases room) simp_all
  note h = holds_Cons [OF Cons.prems(1)]
  have "merge_rest xs i ub (out @ room) (int (length out)) =
      merge_rest xs (i + 1) ub ((out @ [z]) @ rs) (int (length (out @ [z])))"
    using h(1,2) by (subst merge_rest.simps) (simp add: room add.commute)
  then show ?case using Cons.IH [OF h(3), of rs "out @ [z]"] Cons.prems(2) by (simp add: room)
qed

lemma merge_parts_eq:
  assumes "holds xs i1 l1 as" "holds xs i2 l2 bs" "length as + length bs \<le> length room"
  shows "do {
      (j1, j2, buf1, m1) \<leftarrow> merge_loop cmp xs i1 l1 i2 l2 (out @ room) (int (length out));
      (buf2, m2) \<leftarrow> merge_rest xs j1 l1 buf1 m1;
      merge_rest xs j2 l2 buf2 m2
    } = Some (out @ merged cmp as bs @ drop (length as + length bs) room, int (length out + length as + length bs))"
  using assms
proof (induction cmp as bs arbitrary: i1 i2 out room rule: merged.induct)
  case (1 cmp bs)
  then show ?case
    using merge_rest_eq [OF 1(2), of room out] holds_Nil [OF 1(1)]
    by (subst merge_loop.simps, subst merge_rest.simps) simp
next
  case (2 cmp a as)
  have "merge_rest xs i2 l2 buf m = Some (buf, m)" for buf m
    using holds_Nil [OF 2(2)] by (subst merge_rest.simps) simp
  then show ?case
    using merge_rest_eq [OF 2(1), of room out] holds_Nil [OF 2(2)] 2(3)
    by (subst merge_loop.simps) simp
next
  case (3 cmp a as b bs)
  obtain r rs where room: "room = r # rs" using "3.prems"(3) by (cases room) simp_all
  note ha = holds_Cons [OF "3.prems"(1)] and hb = holds_Cons [OF "3.prems"(2)]
  show ?case
  proof (cases "cmp a b")
    case True
    have "merge_loop cmp xs i1 l1 i2 l2 (out @ room) (int (length out)) =
        merge_loop cmp xs (i1 + 1) l1 i2 l2 ((out @ [a]) @ rs) (int (length (out @ [a])))"
      using ha(1,2) hb(1,2) True by (subst merge_loop.simps) (simp add: room add.commute)
    then show ?thesis
      using "3.IH"(1) [OF True ha(3) "3.prems"(2), of rs "out @ [a]"] "3.prems"(3) True by (simp add: room)
  next
    case False
    have "merge_loop cmp xs i1 l1 i2 l2 (out @ room) (int (length out)) =
        merge_loop cmp xs i1 l1 (i2 + 1) l2 ((out @ [b]) @ rs) (int (length (out @ [b])))"
      using ha(1,2) hb(1,2) False by (subst merge_loop.simps) (simp add: room add.commute)
    then show ?thesis
      using "3.IH"(2) [OF False "3.prems"(1) hb(3), of rs "out @ [b]"] "3.prems"(3) False by (simp add: room)
  qed
qed

lemma mergeAscending_eq:
  assumes "holds xs f1 l1 as" "holds xs f2 l2 bs" "length as + length bs \<le> length room"
  shows "mergeAscending cmp xs f1 l1 f2 l2 room =
    Some (merged cmp as bs @ drop (length as + length bs) room, int (length as + length bs))"
proof -
  have n: "(l1 - f1 + 1) + (l2 - f2 + 1) = int (length as + length bs)" using assms(1,2) by (simp add: holds_def)
  show ?thesis
    using merge_parts_eq [OF assms, of cmp "[]"]
    by (auto simp: mergeAscending_def n bind_eq_Some case_prod_unfold)
qed

lemma copyBuffers_eq:
  assumes "length zs = length old"
  shows "copyBuffers (before @ zs @ rest) (int (length before)) (int (length before + length zs) - 1) (pre @ old @ post)
      (int (length pre)) (int (length pre + length old) - 1) = Some (pre @ zs @ post)"
  using assms
proof (induction zs arbitrary: before old pre)
  case Nil
  then show ?case by (subst copyBuffers.simps) simp
next
  case (Cons z zs)
  obtain o1 os where old: "old = o1 # os" "length zs = length os" using Cons.prems by (cases old) simp_all
  have "copyBuffers (before @ (z # zs) @ rest) (int (length before)) (int (length before + length (z # zs)) - 1)
      (pre @ old @ post) (int (length pre)) (int (length pre + length old) - 1) =
    copyBuffers ((before @ [z]) @ zs @ rest) (int (length (before @ [z]))) (int (length (before @ [z]) + length zs) - 1)
      ((pre @ [z]) @ os @ post) (int (length (pre @ [z]))) (int (length (pre @ [z]) + length os) - 1)"
    by (subst copyBuffers.simps) (simp add: old(1) add.commute add.left_commute nth_append)
  then show ?case using Cons.IH [OF old(2), of "before @ [z]" "pre @ [z]"] by simp
qed

end
