(* ===== verification/MergeSortProps.thy ===== *)
theory MergeSortProps
  imports MergeSort
begin

text \<open>
  What the merge sort does for any comparison that is a strict weak order (the locale \<open>weak_order\<close>):
  it never leaves the arrays, and the result is ordered, has the same elements, and has equal elements
  in the reverse of their order. These three facts determine it.
\<close>

section \<open>The contract of the comparison\<close>

locale weak_order =
  fixes cmp :: "'a \<Rightarrow> 'a \<Rightarrow> bool"
  assumes asym: "cmp x y \<Longrightarrow> \<not> cmp y x"
    and split: "cmp x z \<Longrightarrow> cmp x y \<or> cmp y z"
begin

definition ordered :: "'a list \<Rightarrow> bool" where
  "ordered xs \<longleftrightarrow> sorted_wrt (\<lambda>x y. \<not> cmp y x) xs"

definition same_rank :: "'a \<Rightarrow> 'a \<Rightarrow> bool" where
  "same_rank x y \<longleftrightarrow> \<not> cmp x y \<and> \<not> cmp y x"

lemma merged_ordered: "ordered xs \<Longrightarrow> ordered ys \<Longrightarrow> ordered (merged cmp xs ys)"
  unfolding ordered_def
proof (induction c \<equiv> "cmp" xs ys rule: merged.induct)
  case (3 x xs y ys)
  have "z \<in> set (merged cmp us vs) \<longleftrightarrow> z \<in> set us \<or> z \<in> set vs" for z us vs
    by (metis Un_iff merged_mset set_mset_mset set_mset_union)
  then show ?case
    using 3 asym split by (cases "cmp x y") (simp_all, blast+)
qed simp_all

text \<open>Elements of one rank come out with those of the second part first.\<close>

lemma merged_rank:
  "ordered xs \<Longrightarrow> ordered ys \<Longrightarrow>
     filter (same_rank v) (merged cmp xs ys) = filter (same_rank v) ys @ filter (same_rank v) xs"
proof (induction xs arbitrary: ys)
  case Nil
  then show ?case by simp
next
  case (Cons x xs)
  note outer = Cons
  show ?case
    using Cons.prems(2)
  proof (induction ys)
    case Nil
    then show ?case by simp
  next
    case (Cons y ys)
    show ?case
    proof (cases "cmp x y")
      case True
      have "filter (same_rank v) (y # ys) = []" if "same_rank v x"
        using that True Cons.prems asym split by (auto simp: filter_empty_conv ordered_def same_rank_def; blast)
      then show ?thesis
        using True outer(1) [of "y # ys"] outer(2) Cons.prems by (auto simp: ordered_def)
    next
      case False
      then show ?thesis using Cons by (auto simp: ordered_def)
    qed
  qed
qed

text \<open>The specification of the sort.\<close>

definition sort_of :: "'a list \<Rightarrow> 'a list \<Rightarrow> bool" where
  "sort_of xs ys \<longleftrightarrow> ordered ys \<and> mset ys = mset xs \<and> (\<forall>v. filter (same_rank v) ys = rev (filter (same_rank v) xs))"

lemma sort_of_length: "sort_of xs ys \<Longrightarrow> length ys = length xs"
  unfolding sort_of_def using mset_eq_length by blast

lemma sort_of_merged:
  assumes "sort_of as as'" "sort_of bs bs'"
  shows "sort_of (as @ bs) (merged cmp as' bs')"
  using assms merged_ordered merged_rank by (simp add: sort_of_def)

lemma sort_of_short: "length xs \<le> 1 \<Longrightarrow> sort_of xs xs"
  by (cases xs) (simp_all add: sort_of_def ordered_def)

lemma holds_middle: "holds (pre @ zs @ post) (int (length pre)) (int (length pre + length zs) - 1) zs"
  by (simp add: holds_def)

text \<open>The recursion on the part of the array between the indices.\<close>

lemma mergeSortInternal_sorts:
  "\<exists>ys. mergeSortAscendingInternal cmp dflt (pre @ xs @ post) (int (length pre)) (int (length pre + length xs) - 1) =
     Some (pre @ ys @ post) \<and> sort_of xs ys"
proof (induction xs arbitrary: pre post rule: length_induct)
  case (1 xs)
  let ?f = "int (length pre)" and ?l = "int (length pre + length xs) - 1"
  show ?case
  proof (cases "length xs \<le> 1")
    case True
    then show ?thesis by (subst mergeSortAscendingInternal.simps) (simp add: sort_of_short)
  next
    case False
    define k where "k = (length xs + 1) div 2"
    define as where "as = take k xs"
    define bs where "bs = drop k xs"
    have k: "0 < k" "k < length xs" using False by (auto simp: k_def)
    have xs: "xs = as @ bs" "length as = k" "length as < length xs" "length bs < length xs"
      using k by (simp_all add: as_def bs_def)
    have mid: "(?f + ?l) div 2 = int (length pre + length as) - 1"
    proof -
      have "?f + ?l = 2 * int (length pre) + (int (length xs) - 1)" by simp
      then have "(?f + ?l) div 2 = int (length pre) + (int (length xs) - 1) div 2" by simp
      moreover have "(int (length xs) - 1) div 2 = int k - 1" by (simp add: k_def zdiv_int)
      ultimately show ?thesis using xs(2) by simp
    qed
    obtain as' where as': "mergeSortAscendingInternal cmp dflt (pre @ as @ bs @ post) ?f
        (int (length pre + length as) - 1) = Some (pre @ as' @ bs @ post)" "sort_of as as'"
      using 1 xs(3) by (metis append.assoc)
    note la = sort_of_length [OF as'(2)]
    obtain bs' where bs': "mergeSortAscendingInternal cmp dflt ((pre @ as') @ bs @ post) (int (length (pre @ as')))
        (int (length (pre @ as') + length bs) - 1) = Some ((pre @ as') @ bs' @ post)" "sort_of bs bs'"
      using 1 xs(4) by blast
    note lb = sort_of_length [OF bs'(2)]
    let ?arr = "pre @ as' @ bs' @ post" and ?room = "replicate (nat (?l + 1)) dflt"
    have "mergeAscending cmp ?arr ?f (int (length pre + length as) - 1) (int (length pre + length as)) ?l ?room =
        Some (merged cmp as' bs' @ drop (length as' + length bs') ?room, int (length as' + length bs'))"
    proof (rule mergeAscending_eq)
      show "holds ?arr ?f (int (length pre + length as) - 1) as'"
        using holds_middle [of pre as' "bs' @ post"] la by simp
      show "holds ?arr (int (length pre + length as)) ?l bs'"
        using holds_middle [of "pre @ as'" bs' post] la lb xs(1) by (simp add: add.assoc)
      show "length as' + length bs' \<le> length ?room" using la lb xs(1) by simp
    qed
    moreover have "copyBuffers (merged cmp as' bs' @ drop (length as' + length bs') ?room) 0
        (int (length as' + length bs') - 1) ?arr ?f ?l = Some (pre @ merged cmp as' bs' @ post)"
      using copyBuffers_eq [of "merged cmp as' bs'" "as' @ bs'" "[]" "drop (length as' + length bs') ?room" pre post]
        la lb xs(1) by (simp add: add.assoc)
    ultimately have "mergeSortAscendingInternal cmp dflt (pre @ xs @ post) ?f ?l = Some (pre @ merged cmp as' bs' @ post)"
      using as'(1) bs'(1) la xs(1) mid False
      by (subst mergeSortAscendingInternal_step [where mid = "int (length pre + length as) - 1"]) (simp_all add: add.assoc)
    moreover have "sort_of xs (merged cmp as' bs')" using sort_of_merged [OF as'(2) bs'(2)] xs(1) by simp
    ultimately show ?thesis by blast
  qed
qed

lemma mergeSort_sorts:
  "\<exists>ys. mergeSortAscendingInternal cmp dflt xs 0 (int (length xs) - 1) = Some ys \<and> sort_of xs ys"
  using mergeSortInternal_sorts [of dflt "[]" xs "[]"] by simp

end

section \<open>The two directions\<close>

interpretation ascending: weak_order "\<lambda>x y. f x < (f y :: 'k :: linorder)" for f
  by unfold_locales auto

interpretation descending: weak_order "\<lambda>x y. (f y :: 'k :: linorder) < f x" for f
  by unfold_locales auto

lemma ascending_rank: "weak_order.same_rank (\<lambda>x y. f x < (f y :: 'k :: linorder)) v = (\<lambda>x. f v = f x)"
  by (auto simp: fun_eq_iff ascending.same_rank_def)

lemma descending_rank: "weak_order.same_rank (\<lambda>x y. (f y :: 'k :: linorder) < f x) v = (\<lambda>x. f v = f x)"
  by (auto simp: fun_eq_iff descending.same_rank_def)

lemma ascending_sort_key:
  assumes "weak_order.sort_of (\<lambda>x y. f x < (f y :: 'k :: linorder)) xs ys"
  shows "ys = sort_key f (rev xs)"
proof (rule properties_for_sort_key [symmetric])
  show "mset ys = mset (rev xs)" using assms by (simp add: ascending.sort_of_def)
  show "sorted (map f ys)"
    using assms by (simp add: ascending.sort_of_def ascending.ordered_def sorted_map not_less)
  show "filter (\<lambda>x. f k = f x) ys = filter (\<lambda>x. f k = f x) (rev xs)" if "k \<in> set ys" for k
    using assms by (simp add: ascending.sort_of_def ascending_rank rev_filter)
qed

lemma descending_sort_key:
  assumes "weak_order.sort_of (\<lambda>x y. (f y :: 'k :: linorder) < f x) xs ys"
  shows "ys = rev (sort_key f xs)"
proof -
  have "sort_key f xs = rev ys"
  proof (rule properties_for_sort_key)
    show "mset (rev ys) = mset xs" using assms by (simp add: descending.sort_of_def)
    have "sorted_wrt (\<lambda>x y. f y \<le> f x) ys"
      using assms by (simp add: descending.sort_of_def descending.ordered_def not_less)
    then show "sorted (map f (rev ys))" by (simp add: sorted_map sorted_wrt_rev)
    show "filter (\<lambda>x. f k = f x) (rev ys) = filter (\<lambda>x. f k = f x) xs" if "k \<in> set (rev ys)" for k
      using assms by (simp add: descending.sort_of_def descending_rank flip: rev_filter)
  qed
  then show ?thesis by simp
qed

text \<open>C10: for elements that are compared by a key the merge sort returns without leaving its arrays, and
  gives what the stable sort of the library gives on the reversed array (ascending), or the reversed
  stable sort (descending): the elements are ordered, none is lost, and equal elements end up in the
  reverse of their order.\<close>

theorem mergeSort_sorts_by_key:
  "mergeSortAscending (\<lambda>x y. f x < (f y :: 'k :: linorder)) dflt xs = Some (sort_key f (rev xs)) \<and>
   mergeSortDescending (\<lambda>x y. f y < f x) dflt xs = Some (rev (sort_key f xs))"
  using ascending.mergeSort_sorts [of f dflt xs] descending.mergeSort_sorts [of f dflt xs]
  by (auto simp: mergeSortAscending_def mergeSortDescending_def mergeSortDescendingInternal_eq
      dest: ascending_sort_key descending_sort_key)

end
