(* ===== verification/Convert.thy ===== *)
theory Convert
  imports CText
begin

unbundle bit_operations_syntax

text \<open>
  The static functions of \<open>Convert\<close> (\<open>Tools/src/Convert.cpp\<close>). A \<open>string\<close> is its list of bytes, the
  buffers of the base 16 functions are blocks of the C memory (\<open>Prelude\<close>), the exception of a wrong
  argument is \<open>None\<close> of the outer option of a \<open>result\<close>. The accumulators \<open>val\<close> are 32-bit and wrap, a
  right shift of them is arithmetic; a plain \<^verbatim>\<open>char\<close> is signed.
\<close>

section \<open>Base 64\<close>

definition base64_chars :: string where
  "base64_chars = ''ABCDEFGHIJKLMNOPQRSTUVWXYZabcdefghijklmnopqrstuvwxyz0123456789+/''"

definition base64_char :: "32 word \<Rightarrow> char" where
  "base64_char w = base64_chars ! unat (w AND 0x3F)"

text \<open>The loop that writes the complete groups of six bits.\<close>

function base64_emit :: "32 word \<Rightarrow> int \<Rightarrow> string \<Rightarrow> int \<times> string" where
  "base64_emit val valb out =
     (if valb \<ge> 0 then base64_emit val (valb - 6) (out @ [base64_char (signed_drop_bit (nat valb) val)])
      else (valb, out))"
  by pat_completeness auto

termination
  by (relation "measure (\<lambda>(_, valb, _). nat (valb + 1))") auto

declare base64_emit.simps [simp del]

fun base64_encode_loop :: "32 word \<Rightarrow> int \<Rightarrow> string \<Rightarrow> string \<Rightarrow> 32 word \<times> int \<times> string" where
  "base64_encode_loop val valb out [] = (val, valb, out)"
| "base64_encode_loop val valb out (c # s) =
     (let val' = push_bit 8 val + of_char c;
          (valb', out') = base64_emit val' (valb + 8) out
      in base64_encode_loop val' valb' out' s)"

function base64_pad :: "string \<Rightarrow> string" where
  "base64_pad out = (if length out mod 4 \<noteq> 0 then base64_pad (out @ ''='') else out)"
  by pat_completeness auto

termination
proof (relation "measure (\<lambda>out. (4 - length out mod 4) mod 4)")
  fix out :: string
  assume "length out mod 4 \<noteq> 0"
  then have "length out mod 4 \<in> {1, 2, 3}" by auto
  then show "(out @ ''='', out) \<in> measure (\<lambda>out. (4 - length out mod 4) mod 4)"
    by (auto simp: mod_Suc)
qed simp

declare base64_pad.simps [simp del]

definition base64_encode :: "string \<Rightarrow> string" where
  "base64_encode s =
     (let (val, valb, out) = base64_encode_loop 0 (- 6) [] s;
          out' = (if valb > - 6
                  then out @ [base64_char (signed_drop_bit (nat (valb + 8)) (push_bit 8 val))] else out)
      in base64_pad out')"

text \<open>The second overload, on \<open>length\<close> bytes from a pointer.\<close>

function base64_encode_bytes_loop ::
  "mem \<Rightarrow> int \<Rightarrow> int \<Rightarrow> 32 word \<Rightarrow> int \<Rightarrow> string \<Rightarrow> (32 word \<times> int \<times> string) option" where
  "base64_encode_bytes_loop m inIndex len val valb out =
     (if inIndex < len then do {
        c \<leftarrow> mem_read m (nat inIndex);
        let val' = push_bit 8 val + of_char c;
        let (valb', out') = base64_emit val' (valb + 8) out;
        base64_encode_bytes_loop m (inIndex + 1) len val' valb' out'
      } else Some (val, valb, out))"
  by pat_completeness auto

termination
  by (relation "measure (\<lambda>(_, i, n, _). nat (n - i))") auto

declare base64_encode_bytes_loop.simps [simp del]

definition base64_encode_bytes :: "mem \<Rightarrow> int \<Rightarrow> string option" where
  "base64_encode_bytes m len = do {
     (val, valb, out) \<leftarrow> base64_encode_bytes_loop m 0 len 0 (- 6) [];
     let out' = (if valb > - 6
                 then out @ [base64_char (signed_drop_bit (nat (valb + 8)) (push_bit 8 val))] else out);
     Some (base64_pad out')
   }"

text \<open>Decoding: the table \<open>T\<close> and the loop, which stops at the first byte outside the alphabet.\<close>

definition base64_table :: "int list" where
  "base64_table = foldl (\<lambda>T i. T[of_char (base64_chars ! i) := int i]) (replicate 256 (- 1)) [0..<64]"

fun base64_decode_loop :: "32 word \<Rightarrow> int \<Rightarrow> string \<Rightarrow> string \<Rightarrow> string" where
  "base64_decode_loop val valb out [] = out"
| "base64_decode_loop val valb out (c # s) =
     (if base64_table ! of_char c = - 1 then out
      else let val' = push_bit 6 val + word_of_int (base64_table ! of_char c);
               valb' = valb + 6
           in if valb' \<ge> 0
              then base64_decode_loop val' (valb' - 8)
                     (out @ [char_of (unat (signed_drop_bit (nat valb') val' AND 0xFF))]) s
              else base64_decode_loop val' valb' out s)"

definition base64_decode :: "string \<Rightarrow> string" where
  "base64_decode s = base64_decode_loop 0 (- 8) [] s"

section \<open>Base 16\<close>

datatype convert_error = Invalid_argument

text \<open>What a function that fills a buffer gives: \<open>None\<close> when it leaves one of its blocks, the exception,
  or the block behind the pointer afterwards.\<close>

type_synonym filled = "(convert_error + mem) option"

text \<open>\<^verbatim>\<open>sprintf (p, "%02X", v)\<close> of an \<open>unsigned int\<close>: at least two digits and the terminator.\<close>

definition hex_digit :: "int \<Rightarrow> char" where
  "hex_digit n = ''0123456789ABCDEF'' ! nat n"

function hex_of_int :: "int \<Rightarrow> string" where
  "hex_of_int n = (if n < 16 then [hex_digit n] else hex_of_int (n div 16) @ [hex_digit (n mod 16)])"
  by pat_completeness auto

termination
  by (relation "measure nat") auto

declare hex_of_int.simps [simp del]

definition print_02X :: "int \<Rightarrow> string" where
  "print_02X v = (let s = hex_of_int v in replicate (2 - length s) CHR ''0'' @ s)"

definition sprintf_02X :: "mem \<Rightarrow> nat \<Rightarrow> int \<Rightarrow> mem option" where
  "sprintf_02X dst off v = splice dst off (lit (print_02X v))"

definition memset0 :: "mem \<Rightarrow> nat \<Rightarrow> mem option" where
  "memset0 dst n = splice dst 0 (replicate n (Some NUL))"

text \<open>\<^verbatim>\<open>strtol (s, NULL, 16)\<close>.\<close>

definition isxdigit :: "char \<Rightarrow> bool" where
  "isxdigit c \<longleftrightarrow> isdigit c \<or> c \<in> set ''abcdefABCDEF''"

definition xdigit_value :: "char \<Rightarrow> int" where
  "xdigit_value c =
     (if isdigit c then of_char c - 48 else if of_char c < (97::int) then of_char c - 55 else of_char c - 87)"

definition strtol16 :: "string \<Rightarrow> int" where
  "strtol16 s =
     (let s1 = dropWhile isspace s;
          s2 = (if s1 \<noteq> [] \<and> (hd s1 = CHR ''-'' \<or> hd s1 = CHR ''+'') then tl s1 else s1);
          s3 = (case s2 of
                  x # y # z # r \<Rightarrow> if x = CHR ''0'' \<and> (y = CHR ''x'' \<or> y = CHR ''X'') \<and> isxdigit z then z # r else s2
                | _ \<Rightarrow> s2);
          n = foldl (\<lambda>v c. 16 * v + xdigit_value c) 0 (takeWhile isxdigit s3)
      in max (- (2 ^ 63)) (min (2 ^ 63 - 1) (if take 1 s1 = ''-'' then - n else n)))"

text \<open>A plain \<^verbatim>\<open>char\<close> given to \<open>%X\<close>: it is extended with its sign to an \<open>int\<close>, whose bits are printed.\<close>

definition promoted_char :: "char \<Rightarrow> int" where
  "promoted_char c = (let v = of_char c in if v < 128 then v else 2 ^ 32 + v - 256)"

function binaryToBase16_loop :: "mem \<Rightarrow> nat \<Rightarrow> nat \<Rightarrow> mem \<Rightarrow> nat \<Rightarrow> mem option" where
  "binaryToBase16_loop src ulSrcIndex n dst ulDestIndex =
     (if ulSrcIndex < n then do {
        c \<leftarrow> mem_read src ulSrcIndex;
        dst' \<leftarrow> sprintf_02X dst ulDestIndex (of_char c);
        binaryToBase16_loop src (ulSrcIndex + 1) n dst' (ulDestIndex + 2)
      } else Some dst)"
  by pat_completeness auto

termination
  by (relation "measure (\<lambda>(_, i, n, _). n - i)") auto

declare binaryToBase16_loop.simps [simp del]

text \<open>The sizes are \<open>unsigned long\<close>; a pointer may be \<open>NULL\<close> (\<open>None\<close>).\<close>

definition binaryToBase16 :: "mem option \<Rightarrow> nat \<Rightarrow> mem option \<Rightarrow> nat \<Rightarrow> filled" where
  "binaryToBase16 pucSrcBinaryData ulSrcBinaryDataSize pDestBase16Data ulDestBase16DataSize =
     (case (pucSrcBinaryData, pDestBase16Data) of
        (Some src, Some dst) \<Rightarrow>
          if (int ulSrcBinaryDataSize * 2 + 1) mod 2 ^ 64 \<noteq> int ulDestBase16DataSize then Some (Inl Invalid_argument)
          else do {
            dst' \<leftarrow> memset0 dst ulDestBase16DataSize;
            map_option Inr (binaryToBase16_loop src 0 ulSrcBinaryDataSize dst' 0)
          }
      | _ \<Rightarrow> Some (Inl Invalid_argument))"

text \<open>The loop of both decoders: two digits at a time through \<open>pBuffer\<close>, the value cut to a byte.\<close>

function fromBase16_loop :: "mem \<Rightarrow> nat \<Rightarrow> nat \<Rightarrow> mem \<Rightarrow> nat \<Rightarrow> mem option" where
  "fromBase16_loop src ulSrcIndex ulSrcEnd dst ulDestIndex =
     (if ulSrcIndex < ulSrcEnd then do {
        c0 \<leftarrow> mem_read src ulSrcIndex;
        c1 \<leftarrow> mem_read src (ulSrcIndex + 1);
        s \<leftarrow> c_str [Some c0, Some c1, Some NUL, None, None];
        dst' \<leftarrow> mem_write dst ulDestIndex (char_of (strtol16 s mod 256));
        fromBase16_loop src (ulSrcIndex + 2) ulSrcEnd dst' (ulDestIndex + 1)
      } else Some dst)"
  by pat_completeness auto

termination
  by (relation "measure (\<lambda>(_, i, n, _). n - i)") auto

declare fromBase16_loop.simps [simp del]

definition base16ToBinary :: "mem option \<Rightarrow> nat \<Rightarrow> mem option \<Rightarrow> nat \<Rightarrow> filled" where
  "base16ToBinary pSrcBase16Data ulSrcBase16DataSize pucDestBinaryData ulDestBinaryDataSize =
     (case (pucDestBinaryData, pSrcBase16Data) of
        (Some dst, Some src) \<Rightarrow>
          if (int ulDestBinaryDataSize * 2 + 1) mod 2 ^ 64 \<noteq> int ulSrcBase16DataSize then Some (Inl Invalid_argument)
          else do {
            dst' \<leftarrow> memset0 dst ulDestBinaryDataSize;
            map_option Inr (fromBase16_loop src 0 (ulSrcBase16DataSize - 1) dst' 0)
          }
      | _ \<Rightarrow> Some (Inl Invalid_argument))"

function stringToBase16_loop :: "mem \<Rightarrow> nat \<Rightarrow> nat \<Rightarrow> mem \<Rightarrow> nat \<Rightarrow> mem option" where
  "stringToBase16_loop src ulSrcIndex n dst ulDestIndex =
     (if ulSrcIndex < n then do {
        c \<leftarrow> mem_read src ulSrcIndex;
        dst' \<leftarrow> sprintf_02X dst ulDestIndex (promoted_char c);
        stringToBase16_loop src (ulSrcIndex + 1) n dst' (ulDestIndex + 2)
      } else Some dst)"
  by pat_completeness auto

termination
  by (relation "measure (\<lambda>(_, i, n, _). n - i)") auto

declare stringToBase16_loop.simps [simp del]

definition stringToBase16 :: "mem option \<Rightarrow> mem option \<Rightarrow> nat \<Rightarrow> filled" where
  "stringToBase16 pSrcStringData pDestBase16Data ulDestBase16DataSize =
     (case (pSrcStringData, pDestBase16Data) of
        (Some src, Some dst) \<Rightarrow> do {
          n \<leftarrow> strlen src;
          if int ulDestBase16DataSize < (int n * 2 + 1) mod 2 ^ 64 then Some (Inl Invalid_argument)
          else do {
            dst' \<leftarrow> memset0 dst ulDestBase16DataSize;
            map_option Inr (stringToBase16_loop src 0 n dst' 0)
          }
        }
      | _ \<Rightarrow> Some (Inl Invalid_argument))"

definition base16ToString :: "mem option \<Rightarrow> mem option \<Rightarrow> nat \<Rightarrow> filled" where
  "base16ToString pSrcBase16Data pDestStringData ulDestStringDataSize =
     (case (pDestStringData, pSrcBase16Data) of
        (Some dst, Some src) \<Rightarrow> do {
          n \<leftarrow> strlen src;
          if n = 0 \<or> ulDestStringDataSize < n div 2 + 1 then Some (Inl Invalid_argument)
          else do {
            dst' \<leftarrow> memset0 dst ulDestStringDataSize;
            map_option Inr (fromBase16_loop src 0 (n - 1) dst' 0)
          }
        }
      | _ \<Rightarrow> Some (Inl Invalid_argument))"

end
