(* ===== verification/ConvertProps.thy ===== *)
theory ConvertProps
  imports Convert
begin

text \<open>
  What the conversions compute. Base 64 is compared with the definition of the encoding on whole groups
  of three bytes, and decoding it gives the bytes back; the base 16 functions are compared with the text
  of two digits per byte.
\<close>

section \<open>Base 64 on groups of three bytes\<close>

fun sextets :: "string \<Rightarrow> nat list" where
  "sextets [] = []"
| "sextets [a] = [of_char a div 4, of_char a mod 4 * 16]"
| "sextets [a, b] = [of_char a div 4, of_char a mod 4 * 16 + of_char b div 16, of_char b mod 16 * 4]"
| "sextets (a # b # c # s) =
     [of_char a div 4, of_char a mod 4 * 16 + of_char b div 16, of_char b mod 16 * 4 + of_char c div 64, of_char c mod 64]
     @ sextets s"

text \<open>The encoded text: the digits, and one sign of equality for each byte the last group misses.\<close>

definition base64_spec :: "string \<Rightarrow> string" where
  "base64_spec s = map ((!) base64_chars) (sextets s) @ replicate ((2 * length s) mod 3) CHR ''=''"

lemma of_char_word32 [simp]: "unat (of_char c :: 32 word) = of_char c"
proof -
  have "(of_char c :: 32 word) = word_of_nat (of_char c)" by (simp only: of_nat_of_char)
  moreover have "(of_char c :: nat) < 2 ^ 32" by (rule less_le_trans [OF nat_of_char_less_256]) simp
  ultimately show ?thesis by (simp add: unat_of_nat)
qed

lemma unat_signed_drop_bit_mask:
  assumes "k + n \<le> 32"
  shows "unat (signed_drop_bit k (w :: 32 word) AND mask n) = unat w div 2 ^ k mod 2 ^ n"
proof -
  have "signed_drop_bit k w AND mask n = drop_bit k w AND mask n"
    using assms by (intro bit_word_eqI) (auto simp: bit_simps)
  then have "unat (signed_drop_bit k w AND mask n) = unat (take_bit n (drop_bit k w))"
    by (simp only: take_bit_eq_mask)
  also have "\<dots> = take_bit n (drop_bit k (unat w))"
    by (simp only: unsigned_take_bit_eq unat_drop_bit_eq)
  finally show ?thesis by (simp only: take_bit_eq_mod drop_bit_eq_div)
qed

lemma base64_char_eq:
  assumes "k \<le> 26"
  shows "base64_char (signed_drop_bit k w) = base64_chars ! (unat w div 2 ^ k mod 64)"
  using unat_signed_drop_bit_mask [of k 6 w] assms by (simp add: base64_char_def mask_eq_exp_minus_1)

lemma unat_shift_in:
  "unat (push_bit 8 w + v :: 32 word) = (unat w * 256 + unat v) mod 2 ^ 32"
  "unat (push_bit 6 w + v :: 32 word) = (unat w * 64 + unat v) mod 2 ^ 32"
  by (simp_all add: unat_word_ariths push_bit_eq_mult mod_simps)

section \<open>Encoding\<close>

lemma base64_emit_1:
  assumes "valb < 0"
  shows "base64_emit val valb out = (valb, out)"
  using assms by (subst base64_emit.simps) simp

lemma base64_emit_2:
  assumes "0 \<le> valb" "valb < 6"
  shows "base64_emit val valb out = (valb - 6, out @ [base64_chars ! (unat val div 2 ^ nat valb mod 64)])"
  using assms by (subst base64_emit.simps) (simp add: base64_emit_1 base64_char_eq)

lemma base64_emit_3:
  "base64_emit val 6 out = (- 6, out @ [base64_chars ! (unat val div 64 mod 64), base64_chars ! (unat val mod 64)])"
  by (subst base64_emit.simps) (simp add: base64_emit_2 base64_char_eq)

lemma mod_mod_2_32:
  assumes "k + n \<le> 32"
  shows "(x mod 2 ^ 32) div 2 ^ k mod 2 ^ n = x div 2 ^ k mod (2 ^ n :: nat)"
proof -
  have "take_bit n (drop_bit k (take_bit 32 x)) = take_bit n (drop_bit k x)"
    using assms by (simp add: drop_bit_take_bit)
  then show ?thesis by (simp only: take_bit_eq_mod drop_bit_eq_div)
qed

text \<open>What the accumulator holds: the bits shifted in so far, modulo its width.\<close>

definition holds_bits :: "32 word \<Rightarrow> nat \<Rightarrow> bool" where
  "holds_bits w x \<longleftrightarrow> unat w = x mod 2 ^ 32"

lemma holds_bits_shift:
  "holds_bits w x \<Longrightarrow> holds_bits (push_bit 8 w + of_char c) (x * 256 + of_char c)"
  "holds_bits w x \<Longrightarrow> holds_bits (push_bit 6 w + v) (x * 64 + unat v)"
  unfolding holds_bits_def unat_shift_in by (metis mod_add_left_eq mod_mult_left_eq of_char_word32)+

lemma holds_bits_self: "\<exists>x. holds_bits w x"
  by (rule exI [of _ "unat w"]) (use unsigned_less [of w, where 'a = nat] in \<open>simp add: holds_bits_def\<close>)

lemma holds_bits_read: "holds_bits w x \<Longrightarrow> k + n \<le> 32 \<Longrightarrow> unat w div 2 ^ k mod 2 ^ n = x div 2 ^ k mod 2 ^ n"
  by (simp only: holds_bits_def mod_mod_2_32)

lemma holds_bits_digit:
  assumes "holds_bits w x" "x = (p * 64 + q) * 2 ^ k + r" "r < 2 ^ k" "q < 64" "k \<le> 26"
  shows "unat w div 2 ^ k mod 64 = q"
proof -
  have "x div 2 ^ k = p * 64 + q" using assms by (simp add: div_mult_self3)
  then show ?thesis using holds_bits_read [OF assms(1), of k 6] assms by simp
qed

text \<open>One group of three bytes, whatever the accumulator held before.\<close>

lemma base64_encode_loop_group:
  "\<exists>val'. base64_encode_loop val (- 6) out (a # b # c # s) =
     base64_encode_loop val' (- 6) (out @ map ((!) base64_chars) (sextets [a, b, c])) s"
proof -
  obtain x where x: "holds_bits val x" using holds_bits_self by blast
  define u v w where "u = (of_char a :: nat)" and "v = (of_char b :: nat)" and "w = (of_char c :: nat)"
  have b: "u < 256" "v < 256" "w < 256" by (simp_all add: u_def v_def w_def)
  let ?v1 = "push_bit 8 val + of_char a" let ?v2 = "push_bit 8 ?v1 + of_char b" let ?v3 = "push_bit 8 ?v2 + of_char c"
  have 1: "holds_bits ?v1 (x * 256 + u)" using x holds_bits_shift(1) u_def by blast
  then have 2: "holds_bits ?v2 ((x * 256 + u) * 256 + v)" using holds_bits_shift(1) v_def by blast
  then have 3: "holds_bits ?v3 (((x * 256 + u) * 256 + v) * 256 + w)" using holds_bits_shift(1) w_def by blast
  note e = mult_div_mod_eq [of 4 u] mult_div_mod_eq [of 16 v] mult_div_mod_eq [of 64 w]
  have "unat ?v1 div 2 ^ 2 mod 64 = u div 4"
    by (rule holds_bits_digit [OF 1, of x _ 2 "u mod 4"]) (use e in \<open>simp; linarith\<close>, use b in \<open>simp; linarith?\<close>, use e b in \<open>simp; linarith?\<close>, simp)
  moreover have "unat ?v2 div 2 ^ 4 mod 64 = u mod 4 * 16 + v div 16"
    by (rule holds_bits_digit [OF 2, of "x * 64 + u div 4" _ 4 "v mod 16"]) (use e in \<open>simp; linarith\<close>, use b in \<open>simp; linarith?\<close>, use e b in \<open>simp; linarith?\<close>, simp)
  moreover have "unat ?v3 div 2 ^ 6 mod 64 = v mod 16 * 4 + w div 64"
    by (rule holds_bits_digit [OF 3, of "x * 4096 + u * 16 + v div 16" _ 6 "w mod 64"]) (use e in \<open>simp; linarith\<close>, use b in \<open>simp; linarith?\<close>, use e b in \<open>simp; linarith?\<close>, simp)
  moreover have "unat ?v3 div 2 ^ 0 mod 64 = w mod 64"
    by (rule holds_bits_digit [OF 3, of "x * 262144 + u * 1024 + v * 4 + w div 64" _ 0 0]) (use e in \<open>simp; linarith\<close>, use b in \<open>simp; linarith?\<close>, use e b in \<open>simp; linarith?\<close>, simp)
  ultimately have "base64_encode_loop val (- 6) out (a # b # c # s) =
     base64_encode_loop ?v3 (- 6) (out @ map ((!) base64_chars) [u div 4, u mod 4 * 16 + v div 16, v mod 16 * 4 + w div 64, w mod 64]) s"
    by (simp add: Let_def base64_emit_2 base64_emit_3)
  then show ?thesis by (auto simp: u_def v_def w_def)
qed

lemma holds_bits_zero: "holds_bits w x \<Longrightarrow> holds_bits (push_bit 8 w) (x * 256)"
  using unat_shift_in(1) [of w 0] by (simp add: holds_bits_def mod_simps)

text \<open>What the function adds behind the loop.\<close>

definition base64_flush :: "32 word \<times> int \<times> string \<Rightarrow> string" where
  "base64_flush = (\<lambda>(val, valb, out).
     if valb > - 6 then out @ [base64_char (signed_drop_bit (nat (valb + 8)) (push_bit 8 val))] else out)"

lemma base64_encode_one:
  "base64_flush (base64_encode_loop val (- 6) out [a]) = out @ map ((!) base64_chars) (sextets [a])"
proof -
  obtain x where x: "holds_bits val x" using holds_bits_self by blast
  define u where "u = (of_char a :: nat)"
  have b: "u < 256" by (simp add: u_def)
  have 1: "holds_bits (push_bit 8 val + of_char a) (x * 256 + u)" using x holds_bits_shift(1) u_def by blast
  note 2 = holds_bits_zero [OF 1]
  note e = mult_div_mod_eq [of 4 u]
  have "unat (push_bit 8 val + of_char a) div 2 ^ 2 mod 64 = u div 4"
    by (rule holds_bits_digit [OF 1, of x _ 2 "u mod 4"]) ((use e b in linarith) | simp)+
  moreover have "unat (push_bit 8 (push_bit 8 val + of_char a)) div 2 ^ 4 mod 64 = u mod 4 * 16"
    by (rule holds_bits_digit [OF 2, of "x * 64 + u div 4" _ 4 0]) ((use e b in linarith) | simp)+
  ultimately show ?thesis
    by (simp add: Let_def base64_emit_2 base64_flush_def base64_char_eq u_def)
qed

lemma base64_encode_two:
  "base64_flush (base64_encode_loop val (- 6) out [a, b]) = out @ map ((!) base64_chars) (sextets [a, b])"
proof -
  obtain x where x: "holds_bits val x" using holds_bits_self by blast
  define u v where "u = (of_char a :: nat)" and "v = (of_char b :: nat)"
  have b: "u < 256" "v < 256" by (simp_all add: u_def v_def)
  let ?v1 = "push_bit 8 val + of_char a" let ?v2 = "push_bit 8 ?v1 + of_char b"
  have 1: "holds_bits ?v1 (x * 256 + u)" using x holds_bits_shift(1) u_def by blast
  then have 2: "holds_bits ?v2 ((x * 256 + u) * 256 + v)" using holds_bits_shift(1) v_def by blast
  note 3 = holds_bits_zero [OF 2]
  note e = mult_div_mod_eq [of 4 u] mult_div_mod_eq [of 16 v]
  have "unat ?v1 div 2 ^ 2 mod 64 = u div 4"
    by (rule holds_bits_digit [OF 1, of x _ 2 "u mod 4"]) ((use e b in linarith) | simp)+
  moreover have "unat ?v2 div 2 ^ 4 mod 64 = u mod 4 * 16 + v div 16"
    by (rule holds_bits_digit [OF 2, of "x * 64 + u div 4" _ 4 "v mod 16"]) ((use e b in linarith) | simp)+
  moreover have "unat (push_bit 8 ?v2) div 2 ^ 6 mod 64 = v mod 16 * 4"
    by (rule holds_bits_digit [OF 3, of "x * 4096 + u * 16 + v div 16" _ 6 0]) ((use e b in linarith) | simp)+
  ultimately show ?thesis
    by (simp add: Let_def base64_emit_2 base64_flush_def base64_char_eq u_def v_def)
qed

lemma base64_encode_loop_sextets:
  "base64_flush (base64_encode_loop val (- 6) out s) = out @ map ((!) base64_chars) (sextets s)"
proof (induction s arbitrary: val out rule: sextets.induct)
  case 1
  then show ?case by (simp add: base64_flush_def)
next
  case (4 a b c s)
  obtain val' where "base64_encode_loop val (- 6) out (a # b # c # s) =
      base64_encode_loop val' (- 6) (out @ map ((!) base64_chars) (sextets [a, b, c])) s"
    using base64_encode_loop_group by blast
  then show ?case by (simp only: 4) simp
qed (rule base64_encode_one base64_encode_two)+

lemma sextets_length: "(4 - length (sextets s) mod 4) mod 4 = 2 * length s mod 3"
proof (induction s rule: sextets.induct)
  case (4 a b c s)
  have "2 * length (a # b # c # s) mod 3 = (2 * length s + 2 * 3) mod 3" by (simp add: add.commute)
  also have "\<dots> = 2 * length s mod 3" by (rule mod_mult_self1)
  finally show ?case using 4 by simp
qed simp_all

lemma replicate_23: "replicate 2 c = [c, c]" "replicate 3 c = [c, c, c]"
  by (simp_all add: numeral_eq_Suc)

lemma base64_pad_step:
  "length out mod 4 = 0 \<Longrightarrow> base64_pad out = out"
  "length out mod 4 \<noteq> 0 \<Longrightarrow> base64_pad out = base64_pad (out @ ''='')"
  by (subst base64_pad.simps, simp)+

lemma base64_pad_eq: "base64_pad out = out @ replicate ((4 - length out mod 4) mod 4) CHR ''=''"
proof -
  have three: "base64_pad t = t @ ''=''" if "length t mod 4 = 3" for t
    using that base64_pad_step(2) [of t] base64_pad_step(1) [of "t @ ''=''"] by (simp add: mod_Suc)
  have two: "base64_pad t = t @ ''==''" if "length t mod 4 = 2" for t
    using that base64_pad_step(2) [of t] three [of "t @ ''=''"] by (simp add: mod_Suc)
  have one: "base64_pad t = t @ ''===''" if "length t mod 4 = 1" for t
    using that base64_pad_step(2) [of t] two [of "t @ ''=''"] by (simp add: mod_Suc)
  have "length out mod 4 < 4" by simp
  then have "length out mod 4 = 0 \<or> length out mod 4 = 1 \<or> length out mod 4 = 2 \<or> length out mod 4 = 3" by linarith
  then show ?thesis
  proof (elim disjE)
    assume h: "length out mod 4 = 0"
    then show ?thesis by (simp only: base64_pad_step(1) [OF h]) simp
  next
    assume h: "length out mod 4 = 1"
    show ?thesis by (simp only: h one [OF h]) (simp add: replicate_23)
  next
    assume h: "length out mod 4 = 2"
    show ?thesis by (simp only: h two [OF h]) (simp add: replicate_23)
  next
    assume h: "length out mod 4 = 3"
    show ?thesis by (simp only: h three [OF h]) simp
  qed
qed

lemma base64_encode_eq_spec: "base64_encode s = base64_spec s"
proof -
  have "base64_encode s = base64_pad (base64_flush (base64_encode_loop 0 (- 6) [] s))"
    by (simp add: base64_encode_def base64_flush_def Let_def split: prod.split)
  then show ?thesis
    by (simp add: base64_encode_loop_sextets base64_pad_eq sextets_length base64_spec_def)
qed

section \<open>Decoding\<close>

lemma foldl_table_length: "length (foldl (\<lambda>T i. T[f i := g i]) T is) = length T"
  by (induction "is" arbitrary: T) simp_all

lemma foldl_table_other: "k \<notin> f ` set is \<Longrightarrow> foldl (\<lambda>T i. T[f i := g i]) T is ! k = T ! k"
  by (induction "is" arbitrary: T) simp_all

lemma foldl_table_entry:
  "inj_on f (set is) \<Longrightarrow> i \<in> set is \<Longrightarrow> f i < length T \<Longrightarrow> foldl (\<lambda>T i. T[f i := g i]) T is ! f i = g i"
proof (induction "is" arbitrary: T)
  case (Cons a as)
  then show ?case by (cases "i \<in> set as") (auto simp: foldl_table_other)
qed simp

definition base64_codes :: "nat list" where
  "base64_codes = [65..<91] @ [97..<123] @ [48..<58] @ [43, 47]"

lemma base64_chars_codes: "map of_char base64_chars = base64_codes"
  by (simp add: base64_chars_def base64_codes_def upt_rec_numeral)

lemma base64_chars_length: "length base64_chars = 64"
  by (simp add: base64_chars_def)

lemma base64_chars_nth: "i < 64 \<Longrightarrow> of_char (base64_chars ! i) = base64_codes ! i"
  by (metis base64_chars_codes base64_chars_length nth_map)

lemma base64_codes_distinct: "distinct base64_codes" "length base64_codes = 64" "61 \<notin> set base64_codes"
  by (auto simp: base64_codes_def)

lemma base64_table_chars:
  assumes "i < 64"
  shows "base64_table ! of_char (base64_chars ! i) = int i"
  unfolding base64_table_def
proof (rule foldl_table_entry)
  show "inj_on (\<lambda>i. of_char (base64_chars ! i) :: nat) (set [0..<64])"
    using base64_codes_distinct by (auto simp: inj_on_def base64_chars_nth nth_eq_iff_index_eq)
qed (use assms in simp_all)

lemma base64_table_pad: "base64_table ! 61 = - 1"
proof -
  have "(61 :: nat) \<notin> (\<lambda>i. of_char (base64_chars ! i)) ` set [0..<64]"
    using base64_codes_distinct(2,3) by (auto simp: base64_chars_nth) (metis nth_mem)
  then show ?thesis unfolding base64_table_def by (simp add: foldl_table_other)
qed

declare base64_decode_loop.simps(2) [simp del]

lemma holds_bits_byte:
  assumes "holds_bits w x" "x = (p * 256 + q) * 2 ^ k + r" "r < 2 ^ k" "q < 256" "k \<le> 24"
  shows "unat (signed_drop_bit k w AND 0xFF) = q"
proof -
  have "x div 2 ^ k = p * 256 + q" using assms by (simp add: div_mult_self3)
  then show ?thesis
    using holds_bits_read [OF assms(1), of k 8] unat_signed_drop_bit_mask [of k 8 w] assms
    by (simp add: mask_eq_exp_minus_1)
qed

lemma base64_decode_step:
  assumes "d < 64"
  shows "base64_decode_loop val valb out (base64_chars ! d # s) =
    (let val' = push_bit 6 val + word_of_nat d
     in if valb + 6 \<ge> 0
        then base64_decode_loop val' (valb - 2) (out @ [char_of (unat (signed_drop_bit (nat (valb + 6)) val' AND 0xFF))]) s
        else base64_decode_loop val' (valb + 6) out s)"
  using assms by (simp add: base64_table_chars Let_def base64_decode_loop.simps(2))

lemma holds_bits_digit_in:
  "holds_bits w x \<Longrightarrow> d < 64 \<Longrightarrow> holds_bits (push_bit 6 w + word_of_nat d) (x * 64 + d)"
  using holds_bits_shift(2) [of w x "word_of_nat d"] by (simp add: unat_of_nat)

text \<open>Two, three and four digits from the start of a group.\<close>

lemma base64_decode_group:
  fixes d1 d2 d3 d4 :: nat
  assumes "d1 < 64" "d2 < 64"
  defines "b1 \<equiv> d1 * 4 + d2 div 16" and "b2 \<equiv> d2 mod 16 * 16 + d3 div 4" and "b3 \<equiv> d3 mod 4 * 64 + d4"
  shows "\<exists>val2. base64_decode_loop val (- 8) out (map ((!) base64_chars) [d1, d2] @ s) =
       base64_decode_loop val2 (- 4) (out @ map char_of [b1]) s"
    and "d3 < 64 \<Longrightarrow> \<exists>val3. base64_decode_loop val (- 8) out (map ((!) base64_chars) [d1, d2, d3] @ s) =
       base64_decode_loop val3 (- 6) (out @ map char_of [b1, b2]) s"
    and "d3 < 64 \<Longrightarrow> d4 < 64 \<Longrightarrow> \<exists>val4. base64_decode_loop val (- 8) out (map ((!) base64_chars) [d1, d2, d3, d4] @ s) =
       base64_decode_loop val4 (- 8) (out @ map char_of [b1, b2, b3]) s"
proof -
  obtain x where x: "holds_bits val x" using holds_bits_self by blast
  let ?v1 = "push_bit 6 val + word_of_nat d1" let ?v2 = "push_bit 6 ?v1 + word_of_nat d2"
  let ?v3 = "push_bit 6 ?v2 + word_of_nat d3" let ?v4 = "push_bit 6 ?v3 + word_of_nat d4"
  have h2: "holds_bits ?v2 ((x * 64 + d1) * 64 + d2)" using x assms holds_bits_digit_in by blast
  note e = mult_div_mod_eq [of 16 d2] mult_div_mod_eq [of 4 d3]
  have 1: "unat (signed_drop_bit 4 ?v2 AND 0xFF) = b1"
    by (rule holds_bits_byte [OF h2, of x _ 4 "d2 mod 16"]) ((use e assms in linarith) | simp)+
  show "\<exists>val2. base64_decode_loop val (- 8) out (map ((!) base64_chars) [d1, d2] @ s) =
       base64_decode_loop val2 (- 4) (out @ map char_of [b1]) s"
    using assms(1,2) 1 by (auto simp: base64_decode_step Let_def)
  assume d3: "d3 < 64"
  have h3: "holds_bits ?v3 (((x * 64 + d1) * 64 + d2) * 64 + d3)" using h2 d3 holds_bits_digit_in by blast
  have 2: "unat (signed_drop_bit 2 ?v3 AND 0xFF) = b2"
    by (rule holds_bits_byte [OF h3, of "x * 256 + d1 * 4 + d2 div 16" _ 2 "d3 mod 4"]) ((use e assms d3 in linarith) | simp)+
  show "\<exists>val3. base64_decode_loop val (- 8) out (map ((!) base64_chars) [d1, d2, d3] @ s) =
       base64_decode_loop val3 (- 6) (out @ map char_of [b1, b2]) s"
    using assms(1,2) d3 1 2 by (auto simp: base64_decode_step Let_def)
  assume d4: "d4 < 64"
  have h4: "holds_bits ?v4 ((((x * 64 + d1) * 64 + d2) * 64 + d3) * 64 + d4)" using h3 d4 holds_bits_digit_in by blast
  have 3: "unat (signed_drop_bit 0 ?v4 AND 0xFF) = b3"
    by (rule holds_bits_byte [OF h4, of "x * 65536 + d1 * 1024 + d2 * 16 + d3 div 4" _ 0 0]) ((use e assms d3 d4 in linarith) | simp)+
  show "\<exists>val4. base64_decode_loop val (- 8) out (map ((!) base64_chars) [d1, d2, d3, d4] @ s) =
       base64_decode_loop val4 (- 8) (out @ map char_of [b1, b2, b3]) s"
    using assms(1,2) d3 d4 1 2 3 by (auto simp: base64_decode_step Let_def)
qed

lemma base64_decode_stop: "base64_decode_loop val valb out (replicate k CHR ''='') = out"
  by (cases k) (simp_all add: base64_table_pad base64_decode_loop.simps(2))

lemma sextets_back:
  fixes u v w :: nat
  assumes "u < 256" "v < 256" "w < 256"
  shows "u div 4 * 4 + (u mod 4 * 16 + v div 16) div 16 = u"
    and "(u mod 4 * 16 + v div 16) mod 16 * 16 + (v mod 16 * 4 + w div 64) div 4 = v"
    and "(v mod 16 * 4 + w div 64) mod 4 * 64 + w mod 64 = w"
    and "u div 4 < 64" "u mod 4 * 16 + v div 16 < 64" "v mod 16 * 4 + w div 64 < 64" "w mod 64 < 64"
proof -
  have d: "v div 16 < 16" "w div 64 < 4" "u mod 4 < 4" "v mod 16 < 16" using assms by simp_all
  show "u div 4 * 4 + (u mod 4 * 16 + v div 16) div 16 = u"
    using d by simp
  show "(u mod 4 * 16 + v div 16) mod 16 * 16 + (v mod 16 * 4 + w div 64) div 4 = v"
    using d by simp
  show "(v mod 16 * 4 + w div 64) mod 4 * 64 + w mod 64 = w"
    using d by simp
  show "u div 4 < 64" using assms by simp
  show "u mod 4 * 16 + v div 16 < 64" "v mod 16 * 4 + w div 64 < 64" using d by linarith+
qed simp

lemma base64_decode_loop_sextets:
  "base64_decode_loop val (- 8) out (map ((!) base64_chars) (sextets s) @ replicate ((2 * length s) mod 3) CHR ''='') = out @ s"
proof (induction s arbitrary: val out rule: sextets.induct)
  case 1
  then show ?case by simp
next
  case (2 a)
  have a: "(of_char a :: nat) < 256" by simp
  note b = sextets_back [OF a zero_less_numeral zero_less_numeral]
  obtain val2 where "base64_decode_loop val (- 8) out (map ((!) base64_chars) [of_char a div 4, of_char a mod 4 * 16] @ ''=='')
      = base64_decode_loop val2 (- 4) (out @ map char_of [of_char a div 4 * 4 + of_char a mod 4 * 16 div 16]) ''==''"
    using base64_decode_group(1) [OF b(4), where ?d2.0 = "of_char a mod 4 * 16" and val = val and out = out and s = "''==''"] b(5) by auto
  then show ?case using base64_decode_stop [of val2 "- 4" _ 2] b(1) by (simp add: replicate_23)
next
  case (3 a b)
  have "(of_char a :: nat) < 256" "(of_char b :: nat) < 256" by simp_all
  note e = sextets_back [OF this zero_less_numeral]
  obtain val3 where "base64_decode_loop val (- 8) out (map ((!) base64_chars) (sextets [a, b]) @ ''='')
      = base64_decode_loop val3 (- 6) (out @ [a, b]) ''=''"
    using base64_decode_group(2) [OF e(4,5), where ?d3.0 = "of_char b mod 16 * 4" and val = val and out = out and s = "''=''"] e by auto
  then show ?case using base64_decode_stop [of val3 "- 6" _ 1] by simp
next
  case (4 a b c s)
  have "(of_char a :: nat) < 256" "(of_char b :: nat) < 256" "(of_char c :: nat) < 256" by simp_all
  note e = sextets_back [OF this]
  let ?r = "map ((!) base64_chars) (sextets s) @ replicate ((2 * length s) mod 3) CHR ''=''"
  obtain val4 where "base64_decode_loop val (- 8) out (map ((!) base64_chars) (sextets [a, b, c]) @ ?r)
      = base64_decode_loop val4 (- 8) (out @ [a, b, c]) ?r"
    using base64_decode_group(3) [OF e(4,5,6,7), where val = val and out = out and s = ?r] e by auto
  moreover have "2 * length (a # b # c # s) mod 3 = 2 * length s mod 3"
    using mod_mult_self1 [of "2 * length s" 2 3] by (simp add: add.commute)
  ultimately show ?case using 4 by simp
qed

lemma base64_decode_encode: "base64_decode (base64_encode s) = s"
  by (simp add: base64_encode_eq_spec base64_spec_def base64_decode_def base64_decode_loop_sextets)

text \<open>C11: \<open>base64_encode\<close>, which shifts the bytes through a 32-bit accumulator that overflows, gives the
  base 64 text of every string of bytes, of any length, with its padding.\<close>

theorem base64_encode_correct: "base64_encode s = base64_spec s"
  by (rule base64_encode_eq_spec)

text \<open>C12: \<open>base64_decode\<close> gives back what \<open>base64_encode\<close> was given, for every string of bytes.\<close>

theorem base64_roundtrip: "base64_decode (base64_encode s) = s"
  by (rule base64_decode_encode)

section \<open>The overload on bytes\<close>

lemma mem_read_written: "i < length s \<Longrightarrow> mem_read (map Some s @ r) i = Some (s ! i)"
  by (simp add: mem_read_def nth_append)

lemma base64_encode_bytes_loop_eq:
  "i \<le> length s \<Longrightarrow> base64_encode_bytes_loop (map Some s @ r) (int i) (int (length s)) val valb out =
     Some (base64_encode_loop val valb out (drop i s))"
proof (induction "length s - i" arbitrary: i val valb out)
  case 0
  then show ?case by (subst base64_encode_bytes_loop.simps) simp
next
  case (Suc k)
  then have i: "i < length s" by simp
  then have "drop i s = s ! i # drop (Suc i) s" by (rule Cons_nth_drop_Suc [symmetric])
  moreover have "base64_encode_bytes_loop (map Some s @ r) (int i + 1) (int (length s)) val' valb' out' =
      Some (base64_encode_loop val' valb' out' (drop (Suc i) s))" for val' valb' out'
    using Suc(1) [of "Suc i"] Suc(2) i by (simp add: add.commute)
  ultimately show ?case
    using i by (subst base64_encode_bytes_loop.simps)
      (simp add: mem_read_written Let_def split: prod.split del: of_nat_Suc)
qed

lemma base64_encode_bytes_eq:
  "base64_encode_bytes (map Some s @ r) (int (length s)) = Some (base64_encode s)"
  using base64_encode_bytes_loop_eq [of 0 s r 0 "- 6" "[]"]
  by (simp add: base64_encode_bytes_def base64_encode_def Let_def split: prod.split)

section \<open>Base 16\<close>

text \<open>Two digits for a byte.\<close>

definition hex_byte :: "nat \<Rightarrow> string" where
  "hex_byte n = [hex_digit (int n div 16), hex_digit (int n mod 16)]"

definition hex_text :: "string \<Rightarrow> string" where
  "hex_text s = concat (map (\<lambda>c. hex_byte (of_char c)) s)"

lemma hex_text_simps [simp]: "hex_text [] = []" "hex_text (c # s) = hex_byte (of_char c) @ hex_text s"
  "hex_text (s @ t) = hex_text s @ hex_text t"
  by (simp_all add: hex_text_def)

lemma hex_byte_length [simp]: "length (hex_byte n) = 2"
  by (simp add: hex_byte_def)

lemma hex_text_length [simp]: "length (hex_text s) = 2 * length s"
  by (induction s) simp_all

lemma hex_of_int_small: "n < 16 \<Longrightarrow> hex_of_int n = [hex_digit n]"
  by (subst hex_of_int.simps) simp

lemma print_02X_byte:
  assumes "0 \<le> v" "v < 256"
  shows "print_02X v = hex_byte (nat v)"
proof (cases "v < 16")
  case True
  then show ?thesis
    using assms by (simp add: print_02X_def hex_of_int_small hex_byte_def) (simp add: hex_digit_def)
next
  case False
  then show ?thesis
    using assms by (subst print_02X_def, subst hex_of_int.simps) (simp add: hex_of_int_small hex_byte_def)
qed

lemma int_of_char [simp]: "int (of_char c) = of_char c" "nat (of_char c) = of_char c"
proof -
  show "int (of_char c) = of_char c" by (rule of_nat_of_char)
  then show "nat (of_char c) = of_char c" by (metis nat_int)
qed

lemma of_char_bounds [simp]: "0 \<le> (of_char c :: int)" "of_char c < (256 :: int)"
proof -
  have "0 \<le> int (of_char c)" "int (of_char c) < 256" using nat_of_char_less_256 [of c] by linarith+
  then show "0 \<le> (of_char c :: int)" "of_char c < (256 :: int)" by simp_all
qed

lemma of_char_nibbles [simp]: "0 \<le> (of_char c div 16 :: int)" "of_char c div 16 < (16 :: int)"
  using of_char_bounds [of c] by linarith+

lemma print_02X_of_char: "print_02X (of_char c) = hex_byte (of_char c)"
  by (simp add: print_02X_byte)

lemma hex_digits:
  assumes "0 \<le> n" "n < 16"
  shows "isxdigit (hex_digit n)" "xdigit_value (hex_digit n) = n" "hex_digit n \<noteq> NUL" "\<not> isspace (hex_digit n)"
    "hex_digit n \<notin> {CHR ''-'', CHR ''+'', CHR ''x'', CHR ''X''}"
proof -
  have "\<forall>i \<in> {0..<16}. isxdigit (hex_digit i) \<and> xdigit_value (hex_digit i) = i \<and> hex_digit i \<noteq> NUL \<and>
     \<not> isspace (hex_digit i) \<and> hex_digit i \<notin> {CHR ''-'', CHR ''+'', CHR ''x'', CHR ''X''}"
    by code_simp
  then show "isxdigit (hex_digit n)" "xdigit_value (hex_digit n) = n" "hex_digit n \<noteq> NUL" "\<not> isspace (hex_digit n)"
    "hex_digit n \<notin> {CHR ''-'', CHR ''+'', CHR ''x'', CHR ''X''}"
    using assms by auto
qed

lemma strtol16_hex_byte:
  assumes "n < 256"
  shows "strtol16 (hex_byte n) = int n"
proof -
  have "0 \<le> int n div 16" "int n div 16 < 16" "0 \<le> int n mod 16" "int n mod 16 < 16" using assms by simp_all
  then show ?thesis
    using hex_digits [of "int n div 16"] hex_digits [of "int n mod 16"] assms
    by (simp add: strtol16_def hex_byte_def Let_def)
qed

text \<open>A write into the block behind what is already there.\<close>

lemma splice_append:
  "splice (pre @ tail) (length pre) cs =
     (if length cs \<le> length tail then Some (pre @ cs @ drop (length cs) tail) else None)"
  by (simp add: splice_def)

lemma mem_read_next: "mem_read (pre @ x # r) (length pre) = x"
  by (simp add: mem_read_def)

lemma fresh_block_0: "fresh_block 0 = []"
  by (simp add: fresh_block_def)

lemma mem_write_next: "mem_write (pre @ x # r) (length pre) c = Some (pre @ Some c # r)"
  by (simp add: mem_write_def)

lemma binaryToBase16_loop_eq:
  "length tail = 2 * length t + 1 \<Longrightarrow> (t = [] \<longrightarrow> tail = [Some NUL]) \<Longrightarrow>
   binaryToBase16_loop (map Some (p @ t) @ r) (length p) (length (p @ t)) (map Some (hex_text p) @ tail @ rest) (2 * length p) =
     Some (lit (hex_text (p @ t)) @ rest)"
proof (induction t arbitrary: p tail)
  case Nil
  then show ?case by (subst binaryToBase16_loop.simps) (simp add: lit_def)
next
  case (Cons c t)
  let ?tail = "Some NUL # drop 3 tail"
  have "mem_read (map Some (p @ c # t) @ r) (length p) = Some c"
    using mem_read_next [of "map Some p" "Some c" "map Some t @ r"] by simp
  moreover have "sprintf_02X (map Some (hex_text p) @ tail @ rest) (2 * length p) (of_char c) =
      Some (map Some (hex_text (p @ [c])) @ ?tail @ rest)"
    using splice_append [of "map Some (hex_text p)" "tail @ rest" "lit (hex_byte (of_char c))"] Cons.prems
    by (simp add: sprintf_02X_def print_02X_of_char) (simp add: lit_def)
  moreover have "binaryToBase16_loop (map Some ((p @ [c]) @ t) @ r) (length (p @ [c])) (length ((p @ [c]) @ t))
      (map Some (hex_text (p @ [c])) @ ?tail @ rest) (2 * length (p @ [c])) = Some (lit (hex_text ((p @ [c]) @ t)) @ rest)"
    by (rule Cons.IH) (use Cons.prems in auto)
  ultimately show ?case by (subst binaryToBase16_loop.simps) simp
qed

lemma binaryToBase16_eq:
  assumes "2 * int (length s) + 1 < 2 ^ 64" "2 * length s + 1 \<le> length dst"
  shows "binaryToBase16 (Some (map Some s @ r)) (length s) (Some dst) (2 * length s + 1) =
    Some (Inr (lit (hex_text s) @ drop (2 * length s + 1) dst))"
proof -
  have "memset0 dst (2 * length s + 1) = Some (replicate (2 * length s + 1) (Some NUL) @ drop (2 * length s + 1) dst)"
    using assms by (simp add: memset0_def splice_def)
  moreover have "(int (length s) * 2 + 1) mod 2 ^ 64 = int (2 * length s + 1)" using assms by simp
  ultimately show ?thesis
    using binaryToBase16_loop_eq [of "replicate (2 * length s + 1) (Some NUL)" s "[]" r "drop (2 * length s + 1) dst", OF length_replicate]
    by (simp add: binaryToBase16_def)
qed

text \<open>The decoders.\<close>

lemma fromBase16_loop_eq:
  assumes "length t \<le> length tail" "2 * length (p @ t) - 1 \<le> e" "e \<le> 2 * length (p @ t)"
  shows "fromBase16_loop (map Some (hex_text (p @ t)) @ r) (2 * length p) e (map Some p @ tail) (length p) =
     Some (map Some (p @ t) @ drop (length t) tail)"
  using assms
proof (induction t arbitrary: p tail)
  case Nil
  then show ?case by (subst fromBase16_loop.simps) simp
next
  case (Cons c t)
  obtain x tail' where tail: "tail = x # tail'" using Cons.prems by (cases tail) auto
  let ?d = "hex_digit (of_char c div 16)" and ?e = "hex_digit (of_char c mod 16)"
  let ?src = "map Some (hex_text (p @ c # t)) @ r"
  have src: "?src = map Some (hex_text p) @ Some ?d # Some ?e # map Some (hex_text t) @ r"
    by (simp add: hex_byte_def)
  have "mem_read ?src (2 * length p) = Some ?d"
    unfolding src using mem_read_next [of "map Some (hex_text p)"] by simp
  moreover have "mem_read ?src (2 * length p + 1) = Some ?e"
    unfolding src using mem_read_next [of "map Some (hex_text p @ [?d])"] by simp
  moreover have "c_str [Some ?d, Some ?e, Some NUL, None, None] = Some (hex_byte (of_char c))"
    using hex_digits(3) [of "of_char c div 16"] hex_digits(3) [of "of_char c mod 16"] by (simp add: hex_byte_def)
  moreover have "strtol16 (hex_byte (of_char c)) = of_char c"
    by (simp add: strtol16_hex_byte)
  moreover have "mem_write (map Some p @ tail) (length p) c = Some (map Some (p @ [c]) @ tail')"
    using mem_write_next [of "map Some p"] by (simp add: tail)
  moreover have "fromBase16_loop (map Some (hex_text ((p @ [c]) @ t)) @ r) (2 * length (p @ [c])) e
      (map Some (p @ [c]) @ tail') (length (p @ [c])) = Some (map Some ((p @ [c]) @ t) @ drop (length t) tail')"
    by (rule Cons.IH) (use Cons.prems tail in auto)
  moreover have "2 * length p < e" using Cons.prems by simp
  ultimately show ?case by (subst fromBase16_loop.simps) (simp add: tail)
qed

lemma base16ToBinary_eq:
  assumes "2 * int (length s) + 1 < 2 ^ 64" "length s \<le> length dst"
  shows "base16ToBinary (Some (lit (hex_text s) @ r)) (2 * length s + 1) (Some dst) (length s) =
    Some (Inr (map Some s @ drop (length s) dst))"
proof -
  have "memset0 dst (length s) = Some (replicate (length s) (Some NUL) @ drop (length s) dst)"
    using assms by (simp add: memset0_def splice_def)
  moreover have "(int (length s) * 2 + 1) mod 2 ^ 64 = int (2 * length s + 1)" using assms by simp
  ultimately show ?thesis
    using fromBase16_loop_eq [of s "replicate (length s) (Some NUL) @ drop (length s) dst" "[]" "2 * length s" "Some NUL # r"]
    by (simp add: base16ToBinary_def lit_def del: of_nat_Suc)
qed

text \<open>What \<open>binaryToBase16\<close> writes into a buffer of the documented size is the text of two digits per
  byte with its terminator, nothing behind it is touched, and \<open>base16ToBinary\<close> turns it back into the bytes.\<close>

theorem binaryToBase16_roundtrip:
  assumes "2 * int (length s) + 1 < 2 ^ 64" "2 * length s + 1 \<le> length dst" "length s \<le> length dst2"
  shows "binaryToBase16 (Some (map Some s @ r)) (length s) (Some dst) (2 * length s + 1) =
      Some (Inr (lit (hex_text s) @ drop (2 * length s + 1) dst)) \<and>
    base16ToBinary (Some (lit (hex_text s) @ drop (2 * length s + 1) dst)) (2 * length s + 1) (Some dst2) (length s) =
      Some (Inr (map Some s @ drop (length s) dst2))"
  using binaryToBase16_eq base16ToBinary_eq assms by blast

theorem binaryToBase16_roundtrip_witness:
  "base16ToBinary (Some (lit ''FE00'')) 5 (Some (fresh_block 2)) 2 = Some (Inr [Some (CHR 0xFE), Some (CHR 0x00)])"
  using binaryToBase16_roundtrip [of "[CHR 0xFE, CHR 0x00]" "fresh_block 5" "fresh_block 2" "[]"]
  by (simp add: hex_byte_def hex_digit_def fresh_block_0 flip: numeral_2_eq_2)

section \<open>Base 16 of a plain string\<close>

definition ascii :: "char \<Rightarrow> bool" where
  "ascii c \<longleftrightarrow> (of_char c :: int) < 128"

text \<open>What stays of the text of a character: of the eight digits of a negative one, the first two.\<close>

definition shown :: "string \<Rightarrow> string" where
  "shown s = concat (map (\<lambda>c. if ascii c then hex_byte (of_char c) else ''FF'') s)"

lemma shown_simps [simp]: "shown [] = []" "shown (c # s) = (if ascii c then hex_byte (of_char c) else ''FF'') @ shown s"
  "shown (s @ t) = shown s @ shown t"
  by (simp_all add: shown_def)

lemma shown_length [simp]: "length (shown s) = 2 * length s"
  by (induction s) simp_all

lemma shown_ascii: "list_all ascii s \<Longrightarrow> shown s = hex_text s"
  by (induction s) simp_all

lemma print_02X_promoted_ascii: "ascii c \<Longrightarrow> print_02X (promoted_char c) = hex_byte (of_char c)"
  by (simp add: promoted_char_def ascii_def Let_def print_02X_of_char)

lemma hex_of_int_big: "16 \<le> n \<Longrightarrow> hex_of_int n = hex_of_int (n div 16) @ [hex_digit (n mod 16)]"
  by (subst hex_of_int.simps) simp

lemma hex_of_promoted:
  assumes "128 \<le> v" "v < 256"
  shows "hex_of_int (4294967040 + v) = ''FFFFFF'' @ [hex_digit (v div 16), hex_digit (v mod 16)]"
proof -
  have d: "(4294967040 + v) div 16 = 268435440 + v div 16" "(4294967040 + v) mod 16 = v mod 16"
    using mod_add_left_eq [of 4294967040 16 v] by (simp_all add: div_plus_div_distrib_dvd_left)
  have e: "(268435440 + v div 16) div 16 = 16777215" "(268435440 + v div 16) mod 16 = v div 16"
    using assms mod_add_left_eq [of 268435440 16 "v div 16"] by (simp_all add: div_plus_div_distrib_dvd_left)
  have "hex_of_int (4294967040 + v) = hex_of_int (268435440 + v div 16) @ [hex_digit (v mod 16)]"
    using hex_of_int_big [of "4294967040 + v"] assms by (simp only: d)
  also have "hex_of_int (268435440 + v div 16) = hex_of_int 16777215 @ [hex_digit (v div 16)]"
    using hex_of_int_big [of "268435440 + v div 16"] assms by (simp only: e)
  also have "hex_of_int 16777215 = ''FFFFFF''"
    by (simp add: hex_of_int_big hex_of_int_small hex_digit_def)
  finally show ?thesis by simp
qed

lemma print_02X_promoted_negative:
  assumes "\<not> ascii c"
  shows "print_02X (promoted_char c) = ''FFFFFF'' @ hex_byte (of_char c)"
proof -
  have v: "promoted_char c = 4294967040 + of_char c" "128 \<le> (of_char c :: int)"
    using assms by (simp_all add: promoted_char_def ascii_def Let_def)
  show ?thesis using hex_of_promoted [OF v(2)] by (simp add: print_02X_def v(1) hex_byte_def)
qed

lemma stringToBase16_loop_eq:
  "length tail = 2 * length t + 1 \<Longrightarrow> (t = [] \<longrightarrow> tail = [Some NUL]) \<Longrightarrow>
   stringToBase16_loop (map Some (p @ t) @ r) (length p) (length (p @ t)) (map Some (shown p) @ tail) (2 * length p) =
     (if list_all ascii (drop (length t - 3) t) then Some (lit (shown (p @ t))) else None)"
proof (induction t arbitrary: p tail)
  case Nil
  then show ?case by (subst stringToBase16_loop.simps) (simp add: lit_def)
next
  case (Cons c t)
  have read: "mem_read (map Some (p @ c # t) @ r) (length p) = Some c"
    using mem_read_next [of "map Some p" "Some c" "map Some t @ r"] by simp
  note stored = splice_append [of "map Some (shown p)" tail]
  have step: "stringToBase16_loop (map Some (p @ c # t) @ r) (length p) (length (p @ c # t)) (map Some (shown p) @ tail) (2 * length p) =
      (if list_all ascii (drop (length t - 3) t) then Some (lit (shown (p @ c # t))) else None)"
    if "sprintf_02X (map Some (shown p) @ tail) (2 * length p) (promoted_char c) = Some (map Some (shown (p @ [c])) @ tail')"
      "length tail' = 2 * length t + 1" "t = [] \<longrightarrow> tail' = [Some NUL]" for tail'
    using Cons.IH [of tail' "p @ [c]"] that read by (subst stringToBase16_loop.simps) simp
  show ?case
  proof (cases "ascii c")
    case True
    have "sprintf_02X (map Some (shown p) @ tail) (2 * length p) (promoted_char c) =
        Some (map Some (shown (p @ [c])) @ Some NUL # drop 3 tail)"
      using stored [of "lit (hex_byte (of_char c))"] Cons.prems True
      by (simp add: sprintf_02X_def print_02X_promoted_ascii) (simp add: lit_def)
    moreover have "list_all ascii (drop (length (c # t) - 3) (c # t)) = list_all ascii (drop (length t - 3) t)"
      using True by (cases "length t < 3") (simp_all add: drop_Cons')
    ultimately show ?thesis using step [of "Some NUL # drop 3 tail"] Cons.prems by auto
  next
    case False
    let ?w = "lit (''FFFFFF'' @ hex_byte (of_char c))"
    have w: "sprintf_02X (map Some (shown p) @ tail) (2 * length p) (promoted_char c) =
        splice (map Some (shown p) @ tail) (2 * length p) ?w"
      using False by (simp add: sprintf_02X_def print_02X_promoted_negative)
    show ?thesis
    proof (cases "length t < 3")
      case True
      then have "sprintf_02X (map Some (shown p) @ tail) (2 * length p) (promoted_char c) = None"
        using w stored [of ?w] Cons.prems by simp
      then show ?thesis using True False read by (subst stringToBase16_loop.simps) simp
    next
      case long: False
      then have "sprintf_02X (map Some (shown p) @ tail) (2 * length p) (promoted_char c) =
          Some (map Some (shown (p @ [c])) @ drop 2 ?w @ drop 9 tail)"
        using w stored [of ?w] Cons.prems False by simp (simp add: lit_def)
      moreover have "drop (length (c # t) - 3) (c # t) = drop (length t - 3) t"
        using long by (simp add: drop_Cons')
      moreover have "t \<noteq> []" using long by auto
      ultimately show ?thesis using step [of "drop 2 ?w @ drop 9 tail"] Cons.prems long False by auto
    qed
  qed
qed

lemma stringToBase16_eq:
  assumes "NUL \<notin> set s" "length dst = 2 * length s + 1" "2 * int (length s) + 1 < 2 ^ 64"
  shows "stringToBase16 (Some (lit s @ r)) (Some dst) (2 * length s + 1) =
    (if list_all ascii (drop (length s - 3) s) then Some (Inr (lit (shown s))) else None)"
proof -
  have "memset0 dst (2 * length s + 1) = Some (replicate (2 * length s + 1) (Some NUL))"
    using assms by (simp add: memset0_def splice_def)
  moreover have "\<not> int (2 * length s + 1) < (int (length s) * 2 + 1) mod 2 ^ 64" using assms by simp
  moreover have "lit s @ r = map Some s @ Some NUL # r" by (simp add: lit_def)
  ultimately show ?thesis
    using stringToBase16_loop_eq [of "replicate (2 * length s + 1) (Some NUL)" s "[]" "Some NUL # r", OF length_replicate]
      strlen_eq [OF c_str_lit_append [OF assms(1), of r]]
    by (simp add: stringToBase16_def)
qed

text \<open>C30: into a buffer of the documented size \<open>stringToBase16\<close> writes outside exactly when one of the last
  three characters is not ASCII, because such a character is printed with eight digits; a character before
  them that is not ASCII does not overrun the buffer but appears as \<^verbatim>\<open>FF\<close> whatever it is.\<close>

theorem stringToBase16_exact_buffer:
  assumes "NUL \<notin> set s" "length dst = 2 * length s + 1" "2 * int (length s) + 1 < 2 ^ 64"
  shows "stringToBase16 (Some (lit s @ r)) (Some dst) (2 * length s + 1) =
    (if list_all ascii (drop (length s - 3) s) then Some (Inr (lit (shown s))) else None)"
  using stringToBase16_eq assms by blast

theorem stringToBase16_exact_buffer_witness:
  "stringToBase16 (Some (lit ''caff'' @ [])) (Some (fresh_block 9)) 9 = Some (Inr (lit ''63616666'')) \<and>
   stringToBase16 (Some (lit [CHR ''c'', CHR 0xE9] @ [])) (Some (fresh_block 5)) 5 = None"
proof -
  have "shown ''caff'' = ''63616666''" by (simp add: shown_def ascii_def hex_byte_def hex_digit_def)
  then show ?thesis
    using stringToBase16_exact_buffer [of "''caff''" "fresh_block 9" "[]"]
      stringToBase16_exact_buffer [of "[CHR ''c'', CHR 0xE9]" "fresh_block 5" "[]"]
    by (simp add: ascii_def)
qed

lemma base16ToString_eq:
  assumes "s \<noteq> []" "length s < k" "k \<le> length dst"
  shows "base16ToString (Some (lit (hex_text s) @ r)) (Some dst) k =
    Some (Inr (lit s @ replicate (k - length s - 1) (Some NUL) @ drop k dst))"
proof -
  have nz: "NUL \<notin> set (hex_text s)"
  proof (induction s)
    case (Cons c s)
    then show ?case
      using hex_digits(3) [of "of_char c div 16"] hex_digits(3) [of "of_char c mod 16"] by (simp add: hex_byte_def)
  qed simp
  have "k = length s + Suc (k - length s - 1)" using assms by simp
  then have r: "replicate k (Some NUL) = replicate (length s) (Some NUL) @ Some NUL # replicate (k - length s - 1) (Some NUL)"
    by (metis replicate_add replicate_Suc)
  have "memset0 dst k = Some (replicate k (Some NUL) @ drop k dst)"
    using assms by (simp add: memset0_def splice_def)
  moreover have "fromBase16_loop (lit (hex_text s) @ r) 0 (2 * length s - 1) (replicate k (Some NUL) @ drop k dst) 0 =
      Some (lit s @ replicate (k - length s - 1) (Some NUL) @ drop k dst)"
    using fromBase16_loop_eq [of s "replicate k (Some NUL) @ drop k dst" "[]" "2 * length s - 1" "Some NUL # r"] assms r
    by (simp add: lit_def)
  ultimately show ?thesis
    using strlen_eq [OF c_str_lit_append [OF nz, of r]] assms by (simp add: base16ToString_def)
qed

lemma lit_Nil: "lit [] = [Some NUL]"
  by (simp add: lit_def)

text \<open>An ASCII string that was converted with \<open>stringToBase16\<close> comes back from \<open>base16ToString\<close>, with
  terminators up to the size of its buffer; the text of the empty string is the exception, it is refused
  as a wrong argument.\<close>

theorem base16_string_roundtrip:
  assumes "NUL \<notin> set s" "list_all ascii s" "length dst = 2 * length s + 1" "2 * int (length s) + 1 < 2 ^ 64"
    and "length s < k" "k \<le> length dst2"
  shows "stringToBase16 (Some (lit s @ r)) (Some dst) (2 * length s + 1) = Some (Inr (lit (hex_text s))) \<and>
    base16ToString (Some (lit (hex_text s))) (Some dst2) k =
      (if s = [] then Some (Inl Invalid_argument)
       else Some (Inr (lit s @ replicate (k - length s - 1) (Some NUL) @ drop k dst2)))"
proof
  have "list_all ascii (drop (length s - 3) s)"
    using assms(2) by (metis append_take_drop_id list_all_append)
  moreover have "memset0 dst (2 * length s + 1) = Some (replicate (2 * length s + 1) (Some NUL))"
    using assms by (simp add: memset0_def splice_def)
  ultimately show "stringToBase16 (Some (lit s @ r)) (Some dst) (2 * length s + 1) = Some (Inr (lit (hex_text s)))"
    using stringToBase16_eq [OF assms(1,3,4)] shown_ascii [OF assms(2)] by simp
  show "base16ToString (Some (lit (hex_text s))) (Some dst2) k =
      (if s = [] then Some (Inl Invalid_argument)
       else Some (Inr (lit s @ replicate (k - length s - 1) (Some NUL) @ drop k dst2)))"
  proof (cases "s = []")
    case True
    then show ?thesis by (simp add: base16ToString_def strlen_def lit_Nil)
  next
    case False
    then show ?thesis using base16ToString_eq [OF False assms(5,6), of "[]"] by simp
  qed
qed

theorem base16_string_roundtrip_witness:
  "base16ToString (Some (lit ''6F6B'')) (Some (fresh_block 3)) 3 = Some (Inr (lit ''ok''))"
proof -
  have "hex_text ''ok'' = ''6F6B''" by (simp add: hex_byte_def hex_digit_def)
  then show ?thesis
    using base16_string_roundtrip [of "''ok''" "fresh_block 5" 3 "fresh_block 3" "[]"]
    by (simp add: ascii_def fresh_block_0)
qed

end
