(* ===== verification/StringTokenizer.thy ===== *)
theory StringTokenizer
  imports BufferCore
begin

text \<open>
  The class \<open>StringTokenizer\<close> of \<open>Tools/src/StringTokenizer.cpp\<close> (the variant with \<^verbatim>\<open>strtok_r\<close>). The
  object holds three blocks of its own and the position \<open>_pLastToken\<close> that \<^verbatim>\<open>strtok_r\<close> keeps, and the
  tokens it hands out point into one of these blocks, so the memory is explicit here: a heap of blocks
  that are allocated and deleted. A use of a deleted block is \<open>None\<close>, as every access outside a block.
\<close>

section \<open>The heap\<close>

type_synonym ptr = "nat \<times> nat"

record c_heap =
  cells :: "nat \<Rightarrow> mem option"
  next_address :: nat

definition new_block :: "nat \<Rightarrow> c_heap \<Rightarrow> nat \<times> c_heap" where
  "new_block n h =
     (next_address h, h\<lparr>cells := (cells h)(next_address h \<mapsto> fresh_block n), next_address := next_address h + 1\<rparr>)"

definition delete_block :: "nat \<Rightarrow> c_heap \<Rightarrow> c_heap option" where
  "delete_block a h = (case cells h a of None \<Rightarrow> None | Some _ \<Rightarrow> Some (h\<lparr>cells := (cells h)(a := None)\<rparr>))"

definition store_block :: "nat \<Rightarrow> mem \<Rightarrow> c_heap \<Rightarrow> c_heap" where
  "store_block a m h = h\<lparr>cells := (cells h)(a \<mapsto> m)\<rparr>"

text \<open>The string a pointer shows.\<close>

definition string_at :: "c_heap \<Rightarrow> ptr \<Rightarrow> string option" where
  "string_at h p = do { m \<leftarrow> cells h (fst p); c_str (drop (snd p) m) }"

section \<open>The function strtok_r\<close>

text \<open>In one block: the position of the token, if any, and the position to continue from. The character
  behind the token is overwritten by the terminator.\<close>

definition strtok_mem :: "mem \<Rightarrow> nat \<Rightarrow> char set \<Rightarrow> (mem \<times> nat option \<times> nat) option" where
  "strtok_mem m off delims = do {
     s \<leftarrow> c_str (drop off m);
     let first = off + length (takeWhile (\<lambda>c. c \<in> delims) s);
     let rest = dropWhile (\<lambda>c. c \<in> delims) s;
     let behind = first + length (takeWhile (\<lambda>c. c \<notin> delims) rest);
     if rest = [] then Some (m, None, off + length s)
     else if dropWhile (\<lambda>c. c \<notin> delims) rest = [] then Some (m, Some first, behind)
     else do { m' \<leftarrow> mem_write m behind NUL; Some (m', Some first, behind + 1) }
   }"

text \<open>\<open>None\<close> as first argument is the null pointer, which continues from \<open>save\<close>.\<close>

definition strtok_r :: "c_heap \<Rightarrow> ptr option \<Rightarrow> char set \<Rightarrow> ptr option \<Rightarrow> (c_heap \<times> ptr option \<times> ptr) option" where
  "strtok_r h start delims save = do {
     p \<leftarrow> (case start of Some p \<Rightarrow> Some p | None \<Rightarrow> save);
     m \<leftarrow> cells h (fst p);
     (m', t, s) \<leftarrow> strtok_mem m (snd p) delims;
     Some (store_block (fst p) m' h, map_option (Pair (fst p)) t, (fst p, s))
   }"

section \<open>The object\<close>

datatype string_tokenizer_status = TOOLS_STRINGTOKENIZER_BUILDED | TOOLS_STRINGTOKENIZER_INITIALIZED

record string_tokenizer =
  stsStringTokenizerStatus :: string_tokenizer_status
  pInitialBuffer :: nat
  pBufferCopy :: nat
  pDefaultDelimits :: nat
  bIsFirstNextToken :: bool
  pLastToken :: "ptr option"

text \<open>The constructor sets the status only; \<open>init\<close> sets the other members but \<open>_pLastToken\<close>, which stays
  indeterminate (\<open>None\<close>) until the first call of \<^verbatim>\<open>strtok_r\<close>.\<close>

definition StringTokenizer_ctor :: "string_tokenizer \<Rightarrow> string_tokenizer" where
  "StringTokenizer_ctor st = st\<lparr>stsStringTokenizerStatus := TOOLS_STRINGTOKENIZER_BUILDED\<rparr>"

text \<open>The copy constructor assigns member by member, the pointers included.\<close>

definition StringTokenizer_copy_ctor :: "string_tokenizer \<Rightarrow> string_tokenizer" where
  "StringTokenizer_copy_ctor st = st"

definition StringTokenizer_init ::
  "string_tokenizer \<Rightarrow> c_heap \<Rightarrow> mem option \<Rightarrow> int \<Rightarrow> mem option \<Rightarrow> (tools_error \<times> string_tokenizer \<times> c_heap) option" where
  "StringTokenizer_init st h buffer lBufferLength delims =
     (case (delims, buffer) of
        (Some d, Some b) \<Rightarrow>
          if lBufferLength < 0 \<and> lBufferLength \<noteq> - 1 then Some (TOOLS_ACTIVATION_WRONG, st, h)
          else if stsStringTokenizerStatus st \<noteq> TOOLS_STRINGTOKENIZER_BUILDED
          then Some (TOOLS_OPERATION_NOTALLOWED, st, h)
          else do {
            ulBufferLength \<leftarrow> (if lBufferLength = - 1 then strlen b else Some (nat lBufferLength));
            let (a1, h1) = new_block (ulBufferLength + 1) h;
            m1 \<leftarrow> strncpy (fresh_block (ulBufferLength + 1)) 0 b ulBufferLength;
            m1' \<leftarrow> mem_write m1 ulBufferLength NUL;
            let h1' = store_block a1 m1' h1;
            n \<leftarrow> strlen d;
            let (a2, h2) = new_block (n + 1) h1';
            m2 \<leftarrow> strcpy (fresh_block (n + 1)) 0 d;
            let h2' = store_block a2 m2 h2;
            let (a3, h3) = new_block (ulBufferLength + 1) h2';
            m3 \<leftarrow> strcpy (fresh_block (ulBufferLength + 1)) 0 m1';
            let h3' = store_block a3 m3 h3;
            Some (errNoError,
              st\<lparr>pInitialBuffer := a1, pDefaultDelimits := a2, pBufferCopy := a3, bIsFirstNextToken := True,
                 stsStringTokenizerStatus := TOOLS_STRINGTOKENIZER_INITIALIZED\<rparr>, h3')
          }
      | _ \<Rightarrow> Some (TOOLS_ACTIVATION_WRONG, st, h))"

definition StringTokenizer_finish ::
  "string_tokenizer \<Rightarrow> c_heap \<Rightarrow> (tools_error \<times> string_tokenizer \<times> c_heap) option" where
  "StringTokenizer_finish st h =
     (if stsStringTokenizerStatus st \<noteq> TOOLS_STRINGTOKENIZER_INITIALIZED
      then Some (TOOLS_OPERATION_NOTALLOWED, st, h)
      else do {
        h1 \<leftarrow> delete_block (pBufferCopy st) h;
        h2 \<leftarrow> delete_block (pDefaultDelimits st) h1;
        h3 \<leftarrow> delete_block (pInitialBuffer st) h2;
        Some (errNoError, st\<lparr>stsStringTokenizerStatus := TOOLS_STRINGTOKENIZER_BUILDED\<rparr>, h3)
      })"

text \<open>The destructor finishes the object if it is initialised.\<close>

definition StringTokenizer_dtor :: "string_tokenizer \<Rightarrow> c_heap \<Rightarrow> c_heap option" where
  "StringTokenizer_dtor st h =
     (if stsStringTokenizerStatus st = TOOLS_STRINGTOKENIZER_INITIALIZED
      then do { (e, st', h') \<leftarrow> StringTokenizer_finish st h; Some h' }
      else Some h)"

text \<open>\<open>nextToken\<close>; \<open>pCurrentDelimits\<close> is \<open>None\<close> for the null pointer. The pointer it stores is the third
  component of the result.\<close>

definition nextToken ::
  "string_tokenizer \<Rightarrow> c_heap \<Rightarrow> mem option \<Rightarrow> (tools_error \<times> string_tokenizer \<times> ptr option \<times> c_heap) option" where
  "nextToken st h pCurrentDelimits =
     (if stsStringTokenizerStatus st \<noteq> TOOLS_STRINGTOKENIZER_INITIALIZED
      then Some (TOOLS_OPERATION_NOTALLOWED, st, None, h)
      else do {
        d \<leftarrow> (case pCurrentDelimits of
               None \<Rightarrow> string_at h (pDefaultDelimits st, 0)
             | Some d \<Rightarrow> c_str d);
        (h', t, s) \<leftarrow>
          (if bIsFirstNextToken st then strtok_r h (Some (pBufferCopy st, 0)) (set d) (pLastToken st)
           else strtok_r h None (set d) (pLastToken st));
        let st' = st\<lparr>pLastToken := Some s, bIsFirstNextToken := False\<rparr>;
        Some (if t = None then TOOLS_STRINGTOKENIZER_NOMORETOKEN else errNoError, st', t, h')
      })"

section \<open>Counting\<close>

lemma strtok_mem_parts:
  assumes "c_str (drop off m) = Some str"
    and "str = a @ b @ e" "takeWhile (\<lambda>c. c \<in> d) str = a" "takeWhile (\<lambda>c. c \<notin> d) (b @ e) = b"
  shows "strtok_mem m off d =
     (if b @ e = [] then Some (m, None, off + length a)
      else if e = [] then Some (m, Some (off + length a), off + length a + length b)
      else Some (m[off + length a + length b := Some NUL], Some (off + length a), off + length a + length b + 1))"
proof -
  have 1: "dropWhile (\<lambda>c. c \<in> d) str = b @ e"
    using assms(2,3) by (metis append_same_eq takeWhile_dropWhile_id same_append_eq)
  have 2: "dropWhile (\<lambda>c. c \<notin> d) (b @ e) = e"
    using assms(4) by (metis same_append_eq takeWhile_dropWhile_id)
  have "Suc (length str) \<le> length m - off" using c_str_length [OF assms(1)] by simp
  then have l: "off + length a + length b + length e < length m" using assms(2) by simp
  have "strtok_mem m off d =
     (if b @ e = [] then Some (m, None, off + length str)
      else if e = [] then Some (m, Some (off + length a), off + length a + length b)
      else do { m' \<leftarrow> mem_write m (off + length a + length b) NUL; Some (m', Some (off + length a), off + length a + length b + 1) })"
    by (simp only: strtok_mem_def assms(1,3,4) 1 2 Let_def Option.bind.simps)
  then show ?thesis using l assms(2) by (cases "b @ e = []") (simp_all add: mem_write_def)
qed

lemma strtok_parts_exist:
  obtains a b e where "str = a @ b @ e" "takeWhile (\<lambda>c. c \<in> d) str = a" "takeWhile (\<lambda>c. c \<notin> d) (b @ e) = b"
    "b = [] \<longrightarrow> e = []" "set a \<subseteq> d" "set b \<inter> d = {}" "e = [] \<or> hd e \<in> d"
proof -
  let ?a = "takeWhile (\<lambda>c. c \<in> d) str" and ?r = "dropWhile (\<lambda>c. c \<in> d) str"
  let ?b = "takeWhile (\<lambda>c. c \<notin> d) ?r" and ?e = "dropWhile (\<lambda>c. c \<notin> d) ?r"
  have "takeWhile (\<lambda>c. c \<notin> d) r = [] \<longrightarrow> dropWhile (\<lambda>c. c \<notin> d) r = []" if "r \<noteq> [] \<longrightarrow> hd r \<notin> d" for r
    using that by (cases r) simp_all
  then have 1: "?b = [] \<longrightarrow> ?e = []" using hd_dropWhile [of "\<lambda>c. c \<in> d" str] by blast
  have 2: "?e = [] \<or> hd ?e \<in> d" using hd_dropWhile [of "\<lambda>c. c \<notin> d" ?r] by blast
  have 3: "str = ?a @ ?b @ ?e" "takeWhile (\<lambda>c. c \<notin> d) (?b @ ?e) = ?b" by (simp_all only: takeWhile_dropWhile_id)
  have 4: "set ?a \<subseteq> d" "set ?b \<inter> d = {}" by (auto dest: set_takeWhileD)
  show thesis by (rule that [OF 3(1) refl 3(2) 1 4 2])
qed

lemma strtok_mem_progress:
  assumes "strtok_mem m off d = Some (m', Some t, s)"
  shows "length m' = length m" "off < s" "s \<le> length m"
proof -
  obtain str where str: "c_str (drop off m) = Some str"
    using assms by (auto simp: strtok_mem_def bind_eq_Some)
  obtain a b e where p: "str = a @ b @ e" "takeWhile (\<lambda>c. c \<in> d) str = a" "takeWhile (\<lambda>c. c \<notin> d) (b @ e) = b"
    "b = [] \<longrightarrow> e = []" "set a \<subseteq> d" "set b \<inter> d = {}" "e = [] \<or> hd e \<in> d"
    by (rule strtok_parts_exist [of str d])
  have "off + length a + length b + length e < length m"
    using c_str_length [OF str] p(1) by simp
  then show "length m' = length m" "off < s" "s \<le> length m"
    using assms p(4) by (auto simp: strtok_mem_parts [OF str p(1,2,3)] split: if_splits)
qed

text \<open>The loop of \<open>countTokens\<close> from a position of its local buffer: the number of tokens, the buffer
  and the position \<^verbatim>\<open>strtok_r\<close> has reached.\<close>

function count_loop :: "mem \<Rightarrow> nat \<Rightarrow> char set \<Rightarrow> nat \<Rightarrow> (nat \<times> nat) option" where
  "count_loop m off delims n =
     (case strtok_mem m off delims of
        None \<Rightarrow> None
      | Some (m', None, s) \<Rightarrow> Some (n, s)
      | Some (m', Some _, s) \<Rightarrow> count_loop m' s delims (n + 1))"
  by pat_completeness auto

termination
proof (relation "measure (\<lambda>(m, off, _). Suc (length m) - off)")
  fix m :: mem and off :: nat and delims :: "char set" and n :: nat and m' :: mem and y s z x t
  assume "strtok_mem m off delims = Some x" "(m', y) = x" "(z, s) = y" "z = Some t"
  then have "length m' = length m" "off < s" "s \<le> length m" using strtok_mem_progress by blast+
  then show "((m', s, delims, n + 1), m, off, delims, n) \<in> measure (\<lambda>(m, off, _). Suc (length m) - off)" by simp
qed simp

declare count_loop.simps [simp del]

definition countTokens :: "string_tokenizer \<Rightarrow> c_heap \<Rightarrow> (tools_error \<times> string_tokenizer \<times> nat option \<times> c_heap) option" where
  "countTokens st h =
     (if stsStringTokenizerStatus st \<noteq> TOOLS_STRINGTOKENIZER_INITIALIZED
      then Some (TOOLS_OPERATION_NOTALLOWED, st, None, h)
      else do {
        initial \<leftarrow> cells h (pInitialBuffer st);
        n \<leftarrow> strlen initial;
        let (pLocalBuffer, h1) = new_block (n + 1) h;
        local_copy \<leftarrow> strcpy (fresh_block (n + 1)) 0 initial;
        d \<leftarrow> string_at h1 (pDefaultDelimits st, 0);
        (k, s) \<leftarrow> count_loop local_copy 0 (set d) 0;
        h2 \<leftarrow> delete_block pLocalBuffer h1;
        Some (errNoError, st\<lparr>pLastToken := Some (pLocalBuffer, s)\<rparr>, Some k, h2)
      })"

end
