(* ===== verification/TokenizerProps.thy ===== *)
theory TokenizerProps
  imports StringTokenizer
begin

text \<open>
  What \<open>StringTokenizer\<close> gives: the maximal runs of characters that are not delimiters, one after the
  other, through pointers that stay valid; and where it breaks: counting in the middle of an iteration,
  and copying an object.
\<close>

section \<open>The tokens of a text\<close>

fun split_at :: "char set \<Rightarrow> string \<Rightarrow> string list" where
  "split_at d [] = [[]]"
| "split_at d (c # s) =
     (if c \<in> d then [] # split_at d s
      else case split_at d s of [] \<Rightarrow> [[c]] | t # ts \<Rightarrow> (c # t) # ts)"

definition tokens_of :: "char set \<Rightarrow> string \<Rightarrow> string list" where
  "tokens_of d s = filter (\<lambda>t. t \<noteq> []) (split_at d s)"

lemma split_at_delims: "set a \<subseteq> d \<Longrightarrow> split_at d (a @ s) = replicate (length a) [] @ split_at d s"
  by (induction a) auto

lemma split_at_nonempty: "split_at d s \<noteq> []"
  by (cases s) (auto split: list.split)

lemma split_at_run: "set b \<inter> d = {} \<Longrightarrow> split_at d (b @ s) = (case split_at d s of t # ts \<Rightarrow> (b @ t) # ts)"
proof (induction b)
  case Nil
  then show ?case using split_at_nonempty [of d s] by (cases "split_at d s") auto
next
  case (Cons c b)
  then show ?case using split_at_nonempty [of d s] by (cases "split_at d s") auto
qed

lemma tokens_of_parts:
  assumes "set a \<subseteq> d" "set b \<inter> d = {}" "e = [] \<or> hd e \<in> d" "b = [] \<longrightarrow> e = []"
  shows "tokens_of d (a @ b @ e) = (if b = [] then [] else b # tokens_of d (tl e))"
proof (cases e)
  case Nil
  then show ?thesis using assms split_at_run [of b d "[]"] by (auto simp: tokens_of_def split_at_delims)
next
  case (Cons c e')
  then show ?thesis using assms split_at_run [of b d e] by (auto simp: tokens_of_def split_at_delims)
qed

lemma tokens_of_Nil [simp]: "tokens_of d [] = []"
  by (simp add: tokens_of_def)

section \<open>One step in a block\<close>

lemma c_str_drop_update:
  assumes "c_str (drop q m) = Some u" "q + length u < i"
  shows "c_str (drop q (m[i := x])) = Some u"
proof -
  obtain r where r: "drop q m = lit u @ r" "NUL \<notin> set u" using assms(1) c_str_iff by blast
  have "drop q (m[i := x]) = (lit u @ r)[i - q := x]" using assms(2) r by (simp add: drop_update_swap)
  moreover have "\<not> i - q < Suc (length u)" using assms(2) by simp
  ultimately have "drop q (m[i := x]) = lit u @ r[i - q - length (lit u) := x]" by (simp add: list_update_append)
  then show ?thesis using r(2) by simp
qed

lemma drop_add: "drop off m = x @ y \<Longrightarrow> drop (off + length x) m = y"
  by (metis add.commute append_eq_conv_conj drop_drop)

lemma strtok_mem_none:
  assumes "c_str (drop off m) = Some s" "tokens_of d s = []"
  shows "strtok_mem m off d = Some (m, None, off + length s) \<and> c_str (drop (off + length s) m) = Some []"
proof -
  obtain a b e where p: "s = a @ b @ e" "takeWhile (\<lambda>c. c \<in> d) s = a" "takeWhile (\<lambda>c. c \<notin> d) (b @ e) = b"
    "b = [] \<longrightarrow> e = []" "set a \<subseteq> d" "set b \<inter> d = {}" "e = [] \<or> hd e \<in> d"
    by (rule strtok_parts_exist [of s d])
  have "b = []" "e = []" using assms(2) p(1,4) tokens_of_parts [OF p(5,6,7,4)] by (auto split: if_splits)
  moreover obtain r where r: "drop off m = lit s @ r" using assms(1) c_str_iff by blast
  then have "drop (off + length s) m = lit [] @ r"
    using drop_add [of off m "map Some s" "lit [] @ r"] by (simp add: lit_def)
  ultimately show ?thesis using strtok_mem_parts [OF assms(1) p(1,2,3)] p(1) by simp
qed

lemma strtok_mem_token:
  assumes "c_str (drop off m) = Some s" "tokens_of d s = t # ts"
  shows "\<exists>m' tk off' s'. strtok_mem m off d = Some (m', Some tk, off') \<and> c_str (drop tk m') = Some t \<and>
    c_str (drop off' m') = Some s' \<and> tokens_of d s' = ts \<and> (tk + length t < off' \<or> s' = []) \<and> off \<le> off' \<and>
    (\<forall>q u. c_str (drop q m) = Some u \<longrightarrow> q + length u < off \<longrightarrow> c_str (drop q m') = Some u)"
proof -
  obtain a b e where p: "s = a @ b @ e" "takeWhile (\<lambda>c. c \<in> d) s = a" "takeWhile (\<lambda>c. c \<notin> d) (b @ e) = b"
    "b = [] \<longrightarrow> e = []" "set a \<subseteq> d" "set b \<inter> d = {}" "e = [] \<or> hd e \<in> d"
    by (rule strtok_parts_exist [of s d])
  have b: "b \<noteq> []" "t = b" "ts = tokens_of d (tl e)"
    using assms(2) p(1) tokens_of_parts [OF p(5,6,7,4)] by (auto split: if_splits)
  obtain r where r: "drop off m = lit s @ r" "NUL \<notin> set s" using assms(1) c_str_iff by blast
  let ?tk = "off + length a" and ?i = "off + length a + length b"
  have off: "off + length s < length m" using c_str_length [OF assms(1)] by simp
  note step = strtok_mem_parts [OF assms(1) p(1,2,3)]
  show ?thesis
  proof (cases e)
    case Nil
    have "drop ?tk m = lit b @ r"
      using drop_add [of off m "map Some a" "lit b @ r"] r(1) p(1) Nil by (simp add: lit_def)
    moreover have "drop ?i m = lit [] @ r"
      using drop_add [of off m "map Some (a @ b)" "lit [] @ r"] r(1) p(1) Nil by (simp add: lit_def add.assoc)
    ultimately have "strtok_mem m off d = Some (m, Some ?tk, ?i) \<and> c_str (drop ?tk m) = Some b \<and> c_str (drop ?i m) = Some []"
      using step Nil b(1) p(1) r(2) by simp
    then show ?thesis using b Nil by (intro exI [of _ m] exI [of _ ?tk] exI [of _ ?i] exI [of _ "[]"]) simp
  next
    case (Cons c e')
    let ?m = "m[?i := Some NUL]"
    have d: "drop off ?m = map Some a @ map Some b @ Some NUL # lit e' @ r"
      using r(1) p(1) Cons off by (simp add: drop_update_swap lit_def list_update_append)
    have "drop ?tk ?m = lit b @ lit e' @ r" using drop_add [OF d] by (simp add: lit_def)
    moreover have "drop (?i + 1) ?m = lit e' @ r"
      using drop_add [of off ?m "map Some a @ map Some b @ [Some NUL]" "lit e' @ r"] d by (simp add: add.assoc)
    ultimately have "strtok_mem m off d = Some (?m, Some ?tk, ?i + 1) \<and> c_str (drop ?tk ?m) = Some b \<and>
        c_str (drop (?i + 1) ?m) = Some e'"
      using step Cons p(1) r(2) by simp
    moreover have "\<forall>q u. c_str (drop q m) = Some u \<longrightarrow> q + length u < off \<longrightarrow> c_str (drop q ?m) = Some u"
      using c_str_drop_update by simp
    ultimately show ?thesis
      using b Cons by (intro exI [of _ ?m] exI [of _ ?tk] exI [of _ "?i + 1"] exI [of _ e']) simp
  qed
qed

text \<open>The loop of \<open>countTokens\<close> counts them.\<close>

lemma count_loop_eq:
  "c_str (drop off m) = Some s \<Longrightarrow> tokens_of d s = ts \<Longrightarrow> \<exists>off'. count_loop m off d n = Some (n + length ts, off')"
proof (induction ts arbitrary: m off s n)
  case Nil
  then show ?case using strtok_mem_none [OF Nil.prems] by (subst count_loop.simps) simp
next
  case (Cons t ts)
  obtain m' tk off' s' where "strtok_mem m off d = Some (m', Some tk, off')" "c_str (drop off' m') = Some s'"
    "tokens_of d s' = ts"
    using strtok_mem_token [OF Cons.prems] by blast
  then show ?case using Cons.IH [of off' m' s' "n + 1"] by (subst count_loop.simps) simp
qed

section \<open>The object\<close>

definition heap_ok :: "c_heap \<Rightarrow> bool" where
  "heap_ok h \<longleftrightarrow> (\<forall>a\<ge>next_address h. cells h a = None)"

text \<open>An initialised tokenizer for \<open>text\<close> and the delimiters \<open>d\<close>.\<close>

definition tokenizer_ok :: "string_tokenizer \<Rightarrow> c_heap \<Rightarrow> string \<Rightarrow> string \<Rightarrow> bool" where
  "tokenizer_ok st h text d \<longleftrightarrow>
     stsStringTokenizerStatus st = TOOLS_STRINGTOKENIZER_INITIALIZED \<and> heap_ok h \<and>
     string_at h (pInitialBuffer st, 0) = Some text \<and> string_at h (pDefaultDelimits st, 0) = Some d \<and>
     cells h (pBufferCopy st) \<noteq> None \<and>
     pBufferCopy st \<noteq> pInitialBuffer st \<and> pBufferCopy st \<noteq> pDefaultDelimits st \<and> pInitialBuffer st \<noteq> pDefaultDelimits st"

text \<open>What is left to split, from the position the next call continues at.\<close>

definition left_at :: "string_tokenizer \<Rightarrow> c_heap \<Rightarrow> nat \<Rightarrow> string \<Rightarrow> bool" where
  "left_at st h off s \<longleftrightarrow>
     (if bIsFirstNextToken st then off = 0 else pLastToken st = Some (pBufferCopy st, off)) \<and>
     string_at h (pBufferCopy st, off) = Some s"

text \<open>A token that was handed out and that no later call changes.\<close>

definition handed_out :: "string_tokenizer \<Rightarrow> c_heap \<Rightarrow> nat \<Rightarrow> string \<Rightarrow> ptr \<Rightarrow> string \<Rightarrow> bool" where
  "handed_out st h off s p u \<longleftrightarrow>
     fst p = pBufferCopy st \<and> string_at h p = Some u \<and> (snd p + length u < off \<or> s = [])"

lemma store_string_at:
  "string_at (store_block a m h) p = (if fst p = a then c_str (drop (snd p) m) else string_at h p)"
  by (simp add: string_at_def store_block_def)

lemma heap_ok_store: "heap_ok h \<Longrightarrow> cells h a \<noteq> None \<Longrightarrow> heap_ok (store_block a m h)"
  by (auto simp: heap_ok_def store_block_def)

lemma tokenizer_ok_store:
  "tokenizer_ok st h text d \<Longrightarrow> tokenizer_ok (st\<lparr>pLastToken := l, bIsFirstNextToken := f\<rparr>) (store_block (pBufferCopy st) m h) text d"
  by (auto simp: tokenizer_ok_def store_string_at heap_ok_store) (auto simp: store_block_def)

lemma string_at_block: "cells h (fst p) = Some m \<Longrightarrow> string_at h p = c_str (drop (snd p) m)"
  by (simp add: string_at_def)

text \<open>\<open>nextToken\<close> is one step in the copy, with the delimiters of the object.\<close>

lemma nextToken_step:
  assumes "tokenizer_ok st h text d" "left_at st h off s" "cells h (pBufferCopy st) = Some m"
    and "strtok_mem m off (set d) = Some (m', t, off')"
  shows "nextToken st h None =
    Some (if t = None then TOOLS_STRINGTOKENIZER_NOMORETOKEN else errNoError,
      st\<lparr>pLastToken := Some (pBufferCopy st, off'), bIsFirstNextToken := False\<rparr>,
      map_option (Pair (pBufferCopy st)) t, store_block (pBufferCopy st) m' h)"
  using assms by (cases t) (auto simp: nextToken_def tokenizer_ok_def left_at_def strtok_r_def split: if_splits)

lemma nextToken_none:
  assumes "tokenizer_ok st h text d" "left_at st h off s" "tokens_of (set d) s = []"
  shows "\<exists>st' h' off'. nextToken st h None = Some (TOOLS_STRINGTOKENIZER_NOMORETOKEN, st', None, h') \<and>
    (\<forall>p. string_at h' p = string_at h p)"
proof -
  obtain m where m: "cells h (pBufferCopy st) = Some m" using assms(1) by (auto simp: tokenizer_ok_def)
  then have "c_str (drop off m) = Some s" using assms(2) by (simp add: left_at_def string_at_def)
  then have "strtok_mem m off (set d) = Some (m, None, off + length s)" using strtok_mem_none assms(3) by blast
  from nextToken_step [OF assms(1,2) m this] show ?thesis
    using m by (auto simp: store_string_at) (simp add: string_at_def)
qed

lemma nextToken_some:
  assumes "tokenizer_ok st h text d" "left_at st h off s" "tokens_of (set d) s = t # ts"
  shows "\<exists>st' h' p off' s'. nextToken st h None = Some (errNoError, st', Some p, h') \<and>
    tokenizer_ok st' h' text d \<and> left_at st' h' off' s' \<and> tokens_of (set d) s' = ts \<and> \<not> bIsFirstNextToken st' \<and>
    handed_out st' h' off' s' p t \<and> (\<forall>q u. handed_out st h off s q u \<longrightarrow> handed_out st' h' off' s' q u)"
proof -
  obtain m where m: "cells h (pBufferCopy st) = Some m" using assms(1) by (auto simp: tokenizer_ok_def)
  then have s: "c_str (drop off m) = Some s" using assms(2) by (simp add: left_at_def string_at_def)
  obtain m' tk off' s' where k: "strtok_mem m off (set d) = Some (m', Some tk, off')" "c_str (drop tk m') = Some t"
    "c_str (drop off' m') = Some s'" "tokens_of (set d) s' = ts" "tk + length t < off' \<or> s' = []" "off \<le> off'"
    "\<forall>q u. c_str (drop q m) = Some u \<longrightarrow> q + length u < off \<longrightarrow> c_str (drop q m') = Some u"
    using strtok_mem_token [OF s assms(3)] by blast
  let ?st = "st\<lparr>pLastToken := Some (pBufferCopy st, off'), bIsFirstNextToken := False\<rparr>"
  let ?h = "store_block (pBufferCopy st) m' h"
  have "s \<noteq> []" using assms(3) by auto
  then have "handed_out ?st ?h off' s' q u" if "handed_out st h off s q u" for q u
    using that k(6,7) m by (auto simp: handed_out_def store_string_at string_at_block)
  moreover have "left_at ?st ?h off' s'" using k(3) by (simp add: left_at_def store_string_at)
  moreover have "handed_out ?st ?h off' s' (pBufferCopy st, tk) t"
    using k(2,5) by (auto simp: handed_out_def store_string_at)
  ultimately show ?thesis
    using nextToken_step [OF assms(1,2) m k(1)] tokenizer_ok_store [OF assms(1)] k(4)
    by (intro exI [of _ ?st] exI [of _ ?h] exI [of _ "(pBufferCopy st, tk)"] exI [of _ off'] exI [of _ s']) simp
qed

text \<open>A client that asks for \<open>n\<close> tokens and keeps the pointers until it is told that there are no more.\<close>

fun nextTokens :: "nat \<Rightarrow> string_tokenizer \<Rightarrow> c_heap \<Rightarrow> (tools_error \<times> ptr list \<times> string_tokenizer \<times> c_heap) option" where
  "nextTokens 0 st h = Some (errNoError, [], st, h)"
| "nextTokens (Suc n) st h = do {
     (e, st', p, h') \<leftarrow> nextToken st h None;
     case p of
       None \<Rightarrow> Some (e, [], st', h')
     | Some p \<Rightarrow> do { (e', ps, st'', h'') \<leftarrow> nextTokens n st' h'; Some (e', p # ps, st'', h'') }
   }"

lemma nextTokens_gives:
  "tokenizer_ok st h text d \<Longrightarrow> left_at st h off s \<Longrightarrow> tokens_of (set d) s = ts \<Longrightarrow> n \<le> length ts \<Longrightarrow>
   \<exists>ps st' h' off' s'. nextTokens n st h = Some (errNoError, ps, st', h') \<and>
     tokenizer_ok st' h' text d \<and> left_at st' h' off' s' \<and> tokens_of (set d) s' = drop n ts \<and>
     (bIsFirstNextToken st' \<longleftrightarrow> bIsFirstNextToken st \<and> n = 0) \<and>
     list_all2 (handed_out st' h' off' s') ps (take n ts) \<and>
     (\<forall>q u. handed_out st h off s q u \<longrightarrow> handed_out st' h' off' s' q u)"
proof (induction n arbitrary: st h off s ts)
  case 0
  then show ?case by auto
next
  case (Suc n)
  then obtain t ts' where ts: "ts = t # ts'" by (cases ts) auto
  obtain st1 h1 p off1 s1 where 1: "nextToken st h None = Some (errNoError, st1, Some p, h1)"
    "tokenizer_ok st1 h1 text d" "left_at st1 h1 off1 s1" "tokens_of (set d) s1 = ts'" "\<not> bIsFirstNextToken st1"
    "handed_out st1 h1 off1 s1 p t" "\<forall>q u. handed_out st h off s q u \<longrightarrow> handed_out st1 h1 off1 s1 q u"
    using nextToken_some [OF Suc.prems(1,2)] Suc.prems(3) ts by blast
  moreover have "n \<le> length ts'" using Suc.prems(4) ts by simp
  then obtain ps st' h' off' s' where 2: "nextTokens n st1 h1 = Some (errNoError, ps, st', h')"
     "tokenizer_ok st' h' text d" "left_at st' h' off' s'" "tokens_of (set d) s' = drop n ts'"
     "bIsFirstNextToken st' \<longleftrightarrow> bIsFirstNextToken st1 \<and> n = 0"
     "list_all2 (handed_out st' h' off' s') ps (take n ts')"
     "\<forall>q u. handed_out st1 h1 off1 s1 q u \<longrightarrow> handed_out st' h' off' s' q u"
    using Suc.IH [OF 1(2,3,4)] by blast
  ultimately show ?case
    using ts by (intro exI [of _ "p # ps"] exI [of _ st'] exI [of _ h'] exI [of _ off'] exI [of _ s'])
      (simp del: split_paired_All)
qed

lemma nextTokens_beyond:
  "tokenizer_ok st h text d \<Longrightarrow> left_at st h off s \<Longrightarrow> tokens_of (set d) s = ts \<Longrightarrow> length ts < n \<Longrightarrow>
   \<exists>ps st' h'. nextTokens n st h = Some (TOOLS_STRINGTOKENIZER_NOMORETOKEN, ps, st', h') \<and>
     list_all2 (\<lambda>p t. string_at h' p = Some t) ps ts \<and>
     (\<forall>q u. handed_out st h off s q u \<longrightarrow> string_at h' q = Some u)"
proof (induction ts arbitrary: n st h off s)
  case Nil
  then obtain n' where "n = Suc n'" by (cases n) auto
  then show ?case using nextToken_none [OF Nil.prems(1,2)] Nil.prems(3) by (auto simp: handed_out_def)
next
  case (Cons t ts)
  then obtain n' where n: "n = Suc n'" by (cases n) auto
  obtain st1 h1 p off1 s1 where 1: "nextToken st h None = Some (errNoError, st1, Some p, h1)"
    "tokenizer_ok st1 h1 text d" "left_at st1 h1 off1 s1" "tokens_of (set d) s1 = ts" 
    "handed_out st1 h1 off1 s1 p t" "\<forall>q u. handed_out st h off s q u \<longrightarrow> handed_out st1 h1 off1 s1 q u"
    using nextToken_some [OF Cons.prems(1,2,3)] by blast
  moreover obtain ps st' h' where "nextTokens n' st1 h1 = Some (TOOLS_STRINGTOKENIZER_NOMORETOKEN, ps, st', h')"
    "list_all2 (\<lambda>p t. string_at h' p = Some t) ps ts" "\<forall>q u. handed_out st1 h1 off1 s1 q u \<longrightarrow> string_at h' q = Some u"
    using Cons.IH [OF 1(2,3,4), of n'] Cons.prems(4) n by auto
  ultimately show ?case
    using n by (intro exI [of _ "p # ps"] exI [of _ st'] exI [of _ h']) (simp del: split_paired_All)
qed

section \<open>Initialisation\<close>

text \<open>The text an initialisation takes: the whole string, or its first \<open>lBufferLength\<close> characters.\<close>

definition init_text :: "string \<Rightarrow> int \<Rightarrow> string" where
  "init_text s n = (if n = - 1 then s else take (nat n) s)"

lemma strncpy_bytes_any:
  assumes "NUL \<notin> set s"
  shows "strncpy_bytes (lit s @ r) n = Some (take n s @ replicate (n - length s) NUL)"
  using strncpy_bytes_eq [OF assms, of n r] strncpy_bytes_short [OF assms, of n r] by (cases "n \<le> length s") simp_all

lemma init_first_block:
  assumes "NUL \<notin> set s"
  shows "do { m \<leftarrow> strncpy (fresh_block (n + 1)) 0 (lit s @ r) n; mem_write m n NUL } =
    Some (lit (take n s) @ replicate (n - length s) (Some NUL))"
proof -
  let ?cs = "take n s @ replicate (n - length s) NUL"
  have l: "length ?cs = n" by simp
  have "strncpy (fresh_block (n + 1)) 0 (lit s @ r) n = Some (map Some ?cs @ [None])"
    using l by (simp add: strncpy_def strncpy_bytes_any [OF assms] splice_def fresh_block_def del: replicate_Suc) simp
  moreover have "mem_write (map Some ?cs @ [None]) n NUL = Some (map Some ?cs @ [Some NUL])"
    using l by (simp add: mem_write_def list_update_append)
  ultimately show ?thesis by (simp add: lit_def replicate_append_same)
qed

lemma take_no_NUL: "NUL \<notin> set s \<Longrightarrow> NUL \<notin> set (take n s)"
  by (meson in_set_takeD)

lemma StringTokenizer_init_ok:
  assumes "heap_ok h" "stsStringTokenizerStatus st = TOOLS_STRINGTOKENIZER_BUILDED"
    and "NUL \<notin> set s" "NUL \<notin> set d" "- 1 \<le> len"
  shows "\<exists>st' h'. StringTokenizer_init st h (Some (lit s @ r)) len (Some (lit d @ r')) = Some (errNoError, st', h') \<and>
    tokenizer_ok st' h' (init_text s len) d \<and> left_at st' h' 0 (init_text s len) \<and> bIsFirstNextToken st'"
proof -
  define n where "n = (if len = - 1 then length s else nat len)"
  have n: "(if len = - 1 then strlen (lit s @ r) else Some (nat len)) = Some n"
    using strlen_eq [OF c_str_lit_append [OF assms(3), of r]] by (simp add: n_def)
  have taken: "init_text s len = take n s" by (simp add: init_text_def n_def)
  define m1 where "m1 = lit (take n s) @ replicate (n - length s) (Some NUL)"
  obtain m0 where m0: "strncpy (fresh_block (n + 1)) 0 (lit s @ r) n = Some m0" "mem_write m0 n NUL = Some m1"
    using init_first_block [OF assms(3), of n r] by (auto simp: bind_eq_Some m1_def)
  have c1: "c_str m1 = Some (take n s)" using take_no_NUL [OF assms(3)] by (simp add: m1_def)
  have c3: "strcpy (fresh_block (n + 1)) 0 m1 = Some (lit (take n s) @ fresh_block (n - length (take n s)))"
    using strcpy_fresh [OF c1, of "n + 1"] by simp
  have cd: "c_str (lit d @ r') = Some d" using assms(4) by simp
  have c2: "strcpy (fresh_block (length d + 1)) 0 (lit d @ r') = Some (lit d)"
    using strcpy_fresh [OF cd, of "length d + 1"] by (simp add: fresh_block_def)
  let ?a = "next_address h"
  let ?h = "\<lparr>cells = (cells h)(?a \<mapsto> m1, ?a + 1 \<mapsto> lit d, ?a + 2 \<mapsto> lit (take n s) @ fresh_block (n - length (take n s))),
    next_address = ?a + 3\<rparr>"
  let ?st = "st\<lparr>pInitialBuffer := ?a, pDefaultDelimits := ?a + 1, pBufferCopy := ?a + 2, bIsFirstNextToken := True,
    stsStringTokenizerStatus := TOOLS_STRINGTOKENIZER_INITIALIZED\<rparr>"
  have h: "c_heap.more h = ()" by simp
  have "StringTokenizer_init st h (Some (lit s @ r)) len (Some (lit d @ r')) = Some (errNoError, ?st, ?h)"
    using assms(2,5) n m0 c2 c3 strlen_eq [OF cd]
    by (simp add: StringTokenizer_init_def new_block_def store_block_def Let_def numeral_2_eq_2 numeral_3_eq_3)
  moreover have "tokenizer_ok ?st ?h (init_text s len) d"
    using assms(1,4) c1 taken by (auto simp: tokenizer_ok_def heap_ok_def string_at_def)
  moreover have "left_at ?st ?h 0 (init_text s len)"
    using take_no_NUL [OF assms(3)] taken by (simp add: left_at_def string_at_def)
  ultimately show ?thesis by (intro exI [of _ ?st] exI [of _ ?h]) simp
qed

section \<open>Properties\<close>

text \<open>C15: after \<open>init\<close> the calls of \<open>nextToken\<close> give the tokens of the text (or of its first
  \<open>lBufferLength\<close> characters) in their order and then report that there are no more; every pointer handed out
  still shows its token after the later calls.\<close>

theorem StringTokenizer_tokens:
  assumes "heap_ok h" "stsStringTokenizerStatus st = TOOLS_STRINGTOKENIZER_BUILDED"
    and "NUL \<notin> set s" "NUL \<notin> set d" "- 1 \<le> len"
  shows "\<exists>st1 h1 e ps st2 h2. StringTokenizer_init st h (Some (lit s @ r)) len (Some (lit d @ r')) = Some (errNoError, st1, h1) \<and>
    nextTokens n st1 h1 = Some (e, ps, st2, h2) \<and>
    map (string_at h2) ps = map Some (take n (tokens_of (set d) (init_text s len))) \<and>
    e = (if n \<le> length (tokens_of (set d) (init_text s len)) then errNoError else TOOLS_STRINGTOKENIZER_NOMORETOKEN)"
proof -
  let ?ts = "tokens_of (set d) (init_text s len)"
  have map: "list_all2 (\<lambda>p t. string_at h2 p = Some t) ps ts \<Longrightarrow> map (string_at h2) ps = map Some ts" for h2 ps ts
    by (induction rule: list_all2_induct) simp_all
  obtain st1 h1 where 1: "StringTokenizer_init st h (Some (lit s @ r)) len (Some (lit d @ r')) = Some (errNoError, st1, h1)"
    "tokenizer_ok st1 h1 (init_text s len) d" "left_at st1 h1 0 (init_text s len)"
    using StringTokenizer_init_ok [OF assms] by blast
  show ?thesis
  proof (cases "n \<le> length ?ts")
    case True
    then obtain ps st2 h2 off' s' where "nextTokens n st1 h1 = Some (errNoError, ps, st2, h2)"
      "list_all2 (handed_out st2 h2 off' s') ps (take n ?ts)"
      using nextTokens_gives [OF 1(2,3) refl] by blast
    moreover from this(2) have "list_all2 (\<lambda>p t. string_at h2 p = Some t) ps (take n ?ts)"
      by (rule list_all2_mono) (simp add: handed_out_def)
    ultimately show ?thesis
      using 1(1) True map by (intro exI [of _ st1] exI [of _ h1] exI [of _ errNoError] exI [of _ ps] exI [of _ st2] exI [of _ h2]) simp
  next
    case False
    then obtain ps st2 h2 where "nextTokens n st1 h1 = Some (TOOLS_STRINGTOKENIZER_NOMORETOKEN, ps, st2, h2)"
      "list_all2 (\<lambda>p t. string_at h2 p = Some t) ps ?ts"
      using nextTokens_beyond [OF 1(2,3) refl, of n] by auto
    then show ?thesis
      using 1(1) False map
      by (intro exI [of _ st1] exI [of _ h1] exI [of _ TOOLS_STRINGTOKENIZER_NOMORETOKEN] exI [of _ ps] exI [of _ st2] exI [of _ h2]) simp
  qed
qed

definition empty_heap :: c_heap where
  "empty_heap = \<lparr>cells = Map.empty, next_address = 0\<rparr>"

definition blank_tokenizer :: string_tokenizer where
  "blank_tokenizer = \<lparr>stsStringTokenizerStatus = TOOLS_STRINGTOKENIZER_BUILDED, pInitialBuffer = 0, pBufferCopy = 0,
     pDefaultDelimits = 0, bIsFirstNextToken = False, pLastToken = None\<rparr>"

lemma blank_ok: "heap_ok empty_heap" "stsStringTokenizerStatus blank_tokenizer = TOOLS_STRINGTOKENIZER_BUILDED"
  by (simp_all add: heap_ok_def empty_heap_def blank_tokenizer_def)

theorem StringTokenizer_tokens_witness:
  "\<exists>st1 h1 ps st2 h2. StringTokenizer_init blank_tokenizer empty_heap (Some (lit '' a,,b '')) (- 1) (Some (lit '' ,'')) = Some (errNoError, st1, h1) \<and>
    nextTokens 3 st1 h1 = Some (TOOLS_STRINGTOKENIZER_NOMORETOKEN, ps, st2, h2) \<and>
    map (string_at h2) ps = [Some ''a'', Some ''b'']"
  using StringTokenizer_tokens [OF blank_ok, of "'' a,,b ''" "'' ,''" "- 1" "[]" "[]" 3]
  by (simp add: init_text_def tokens_of_def)

lemma countTokens_ok:
  assumes "tokenizer_ok st h text d"
  shows "\<exists>s h'. countTokens st h = Some (errNoError, st\<lparr>pLastToken := Some (next_address h, s)\<rparr>,
      Some (length (tokens_of (set d) text)), h') \<and> cells h' (next_address h) = None \<and>
    (\<forall>p. cells h (fst p) \<noteq> None \<longrightarrow> cells h' (fst p) = cells h (fst p))"
proof -
  obtain m where m: "cells h (pInitialBuffer st) = Some m" "c_str m = Some text"
    using assms by (auto simp: tokenizer_ok_def string_at_def bind_eq_Some)
  have fresh: "cells h (next_address h) = None" using assms by (simp add: tokenizer_ok_def heap_ok_def)
  have nz: "NUL \<notin> set text" using c_str_no_NUL [OF m(2)] .
  have copy: "strcpy (fresh_block (length text + 1)) 0 m = Some (lit text)"
    using strcpy_fresh [OF m(2), of "length text + 1"] by (simp add: fresh_block_def)
  have d: "string_at h (pDefaultDelimits st, 0) = Some d" using assms by (simp add: tokenizer_ok_def)
  obtain s where s: "count_loop (lit text) 0 (set d) 0 = Some (length (tokens_of (set d) text), s)"
    using count_loop_eq [of 0 "lit text" "text" "set d" _ 0] nz by auto
  obtain h1 where h1: "new_block (length text + 1) h = (next_address h, h1)"
    "cells h1 = (cells h)(next_address h \<mapsto> fresh_block (length text + 1))"
    by (simp add: new_block_def)
  have "string_at h1 (pDefaultDelimits st, 0) = Some d"
    using d fresh h1(2) by (auto simp: string_at_def)
  moreover have "delete_block (next_address h) h1 = Some (h1\<lparr>cells := (cells h1)(next_address h := None)\<rparr>)"
    using h1(2) by (simp add: delete_block_def)
  moreover have "stsStringTokenizerStatus st = TOOLS_STRINGTOKENIZER_INITIALIZED" using assms by (simp add: tokenizer_ok_def)
  ultimately have "countTokens st h = Some (errNoError, st\<lparr>pLastToken := Some (next_address h, s)\<rparr>,
      Some (length (tokens_of (set d) text)), h1\<lparr>cells := (cells h1)(next_address h := None)\<rparr>)"
    using m copy h1(1) s strlen_eq [OF m(2)] by (simp add: countTokens_def)
  then show ?thesis using fresh h1(2) by auto
qed

text \<open>C32: \<open>countTokens\<close> gives the number of tokens of the whole text wherever the iteration stands, but it
  leaves \<open>_pLastToken\<close> in its deleted local buffer: when a token was already taken, the next \<open>nextToken\<close>
  reads freed memory; only before the first token does the iteration survive a count.\<close>

theorem countTokens_breaks_iteration:
  assumes "heap_ok h" "stsStringTokenizerStatus st = TOOLS_STRINGTOKENIZER_BUILDED"
    and "NUL \<notin> set s" "NUL \<notin> set d" "- 1 \<le> len" "n \<le> length (tokens_of (set d) (init_text s len))"
  shows "\<exists>st1 h1 ps st2 h2 st3 h3.
    StringTokenizer_init st h (Some (lit s @ r)) len (Some (lit d @ r')) = Some (errNoError, st1, h1) \<and>
    nextTokens n st1 h1 = Some (errNoError, ps, st2, h2) \<and>
    countTokens st2 h2 = Some (errNoError, st3, Some (length (tokens_of (set d) (init_text s len))), h3) \<and>
    (nextToken st3 h3 None = None \<longleftrightarrow> 0 < n)"
proof -
  let ?t = "init_text s len"
  obtain st1 h1 where 1: "StringTokenizer_init st h (Some (lit s @ r)) len (Some (lit d @ r')) = Some (errNoError, st1, h1)"
    "tokenizer_ok st1 h1 ?t d" "left_at st1 h1 0 ?t" "bIsFirstNextToken st1"
    using StringTokenizer_init_ok [OF assms(1-5)] by blast
  obtain ps st2 h2 off' s' where 2: "nextTokens n st1 h1 = Some (errNoError, ps, st2, h2)"
    "tokenizer_ok st2 h2 ?t d" "left_at st2 h2 off' s'" "bIsFirstNextToken st2 \<longleftrightarrow> n = 0"
    using nextTokens_gives [OF 1(2,3) refl assms(6)] 1(4) by blast
  obtain k h3 where 3: "countTokens st2 h2 = Some (errNoError, st2\<lparr>pLastToken := Some (next_address h2, k)\<rparr>,
      Some (length (tokens_of (set d) ?t)), h3)" "cells h3 (next_address h2) = None"
    "\<forall>p. cells h2 (fst p) \<noteq> None \<longrightarrow> cells h3 (fst p) = cells h2 (fst p)"
    using countTokens_ok [OF 2(2)] by blast
  let ?st = "st2\<lparr>pLastToken := Some (next_address h2, k)\<rparr>"
  have same: "string_at h3 p = Some u" if "string_at h2 p = Some u" for p u
    using that 3(3) by (auto simp: string_at_def bind_eq_Some)
  have d: "string_at h3 (pDefaultDelimits st2, 0) = Some d" using 2(2) same by (simp add: tokenizer_ok_def)
  have "nextToken ?st h3 None = None \<longleftrightarrow> 0 < n"
  proof (cases "n = 0")
    case False
    then have "\<not> bIsFirstNextToken st2" using 2(4) by simp
    then show ?thesis using False 3(2) d 2(2) by (simp add: nextToken_def strtok_r_def tokenizer_ok_def)
  next
    case True
    then have first: "bIsFirstNextToken st2" using 2(4) by simp
    obtain m where m: "cells h3 (pBufferCopy st2) = Some m" "c_str m = Some s'"
      using same [of "(pBufferCopy st2, 0)" s'] 2(3) first by (auto simp: left_at_def string_at_def bind_eq_Some)
    have "strtok_mem m 0 (set d) \<noteq> None"
      using strtok_mem_none [of 0 m s' "set d"] strtok_mem_token [of 0 m s' "set d"] m(2)
      by (cases "tokens_of (set d) s'") fastforce+
    then show ?thesis using True first m(1) d 2(2) by (auto simp: nextToken_def strtok_r_def tokenizer_ok_def)
  qed
  then show ?thesis
    using 1(1) 2(1) 3(1)
    by (intro exI [of _ st1] exI [of _ h1] exI [of _ ps] exI [of _ st2] exI [of _ h2] exI [of _ ?st] exI [of _ h3]) simp
qed

theorem countTokens_breaks_iteration_witness:
  "\<exists>st1 h1 ps st2 h2 st3 h3.
    StringTokenizer_init blank_tokenizer empty_heap (Some (lit ''a b'')) (- 1) (Some (lit '' '')) = Some (errNoError, st1, h1) \<and>
    nextTokens 1 st1 h1 = Some (errNoError, ps, st2, h2) \<and> countTokens st2 h2 = Some (errNoError, st3, Some 2, h3) \<and>
    nextToken st3 h3 None = None"
  using countTokens_breaks_iteration [OF blank_ok, of "''a b''" "'' ''" "- 1" 1 "[]" "[]"]
  by (simp add: init_text_def tokens_of_def numeral_2_eq_2)

text \<open>An initialised tokenizer is destroyed without error, but a copy of it made by the copy constructor
  holds the same blocks, and destroying the copy as well deletes them a second time.\<close>

theorem StringTokenizer_copy_double_delete:
  assumes "heap_ok h" "stsStringTokenizerStatus st = TOOLS_STRINGTOKENIZER_BUILDED"
    and "NUL \<notin> set s" "NUL \<notin> set d" "- 1 \<le> len"
  shows "\<exists>st1 h1 h2. StringTokenizer_init st h (Some (lit s @ r)) len (Some (lit d @ r')) = Some (errNoError, st1, h1) \<and>
    StringTokenizer_dtor st1 h1 = Some h2 \<and> StringTokenizer_dtor (StringTokenizer_copy_ctor st1) h2 = None"
proof -
  obtain st1 h1 where 1: "StringTokenizer_init st h (Some (lit s @ r)) len (Some (lit d @ r')) = Some (errNoError, st1, h1)"
    "tokenizer_ok st1 h1 (init_text s len) d"
    using StringTokenizer_init_ok [OF assms] by blast
  then obtain x y z where "cells h1 (pBufferCopy st1) = Some x" "cells h1 (pDefaultDelimits st1) = Some y"
    "cells h1 (pInitialBuffer st1) = Some z"
    by (auto simp: tokenizer_ok_def string_at_def bind_eq_Some)
  then show ?thesis
    using 1 by (auto simp: tokenizer_ok_def StringTokenizer_dtor_def StringTokenizer_finish_def StringTokenizer_copy_ctor_def
        delete_block_def)
qed

theorem StringTokenizer_copy_double_delete_witness:
  "\<exists>st1 h1 h2. StringTokenizer_init blank_tokenizer empty_heap (Some (lit ''a b'')) 1 (Some (lit '' '')) = Some (errNoError, st1, h1) \<and>
    StringTokenizer_dtor st1 h1 = Some h2 \<and> StringTokenizer_dtor (StringTokenizer_copy_ctor st1) h2 = None"
  using StringTokenizer_copy_double_delete [OF blank_ok, of "''a b''" "'' ''" 1 "[]" "[]"] by simp

end
