(* ===== verification/CfgArray.thy ===== *)
theory CfgArray
  imports Errors
begin

text \<open>
  Arrays with checked indices, and the loops of the configuration classes over arrays of objects: an object is copied
  into a constructed one, finished, and destroyed with its array. The locale \<open>object_class\<close> is what the loops
  need of the class; it is interpreted for items (\<open>CfgItemSpec\<close>) and sections (\<open>CfgSectionSpec\<close>).
\<close>

section \<open>Arrays and results\<close>

text \<open>Indices are \<^verbatim>\<open>long\<close> and may be negative; an access outside an array has no result.\<close>

definition arr_get :: "'a list \<Rightarrow> int \<Rightarrow> 'a option" where
  "arr_get xs i = (if 0 \<le> i \<and> i < int (length xs) then Some (xs ! nat i) else None)"

definition arr_set :: "'a list \<Rightarrow> int \<Rightarrow> 'a \<Rightarrow> 'a list option" where
  "arr_set xs i x = (if 0 \<le> i \<and> i < int (length xs) then Some (xs[nat i := x]) else None)"

text \<open>What a caller does with a result: return \<open>e\<close> when it is an error, go on otherwise.\<close>

definition or_return :: "('e + 'a) option \<Rightarrow> 'b \<Rightarrow> ('a \<Rightarrow> 'b option) \<Rightarrow> 'b option" where
  "or_return r e f = do { x \<leftarrow> r; (case x of Inl _ \<Rightarrow> Some e | Inr a \<Rightarrow> f a) }"

lemma or_return_simps [simp]:
  "or_return None e f = None" "or_return (Some (Inl x)) e f = Some e" "or_return (Some (Inr a)) e f = f a"
  by (simp_all add: or_return_def)

lemma arr_get_Some [simp]: "arr_get xs i = Some x \<longleftrightarrow> 0 \<le> i \<and> i < int (length xs) \<and> x = xs ! nat i"
  by (auto simp: arr_get_def)

lemma arr_get_int [simp]: "k < length xs \<Longrightarrow> arr_get xs (int k) = Some (xs ! k)"
  by (simp add: arr_get_def)

lemma arr_set_int [simp]: "k < length xs \<Longrightarrow> arr_set xs (int k) x = Some (xs[k := x])"
  by (simp add: arr_set_def)

lemma arr_get_append [simp]: "length p = k \<Longrightarrow> arr_get (p @ x # r) (int k) = Some x"
  by (auto simp: arr_get_def)

lemma arr_set_append [simp]: "length p = k \<Longrightarrow> arr_set (p @ x # r) (int k) y = Some (p @ y # r)"
  by (auto simp: arr_set_def)

lemma arr_negative [simp]: "i < 0 \<Longrightarrow> arr_get xs i = None" "i < 0 \<Longrightarrow> arr_set xs i x = None"
  by (simp_all add: arr_get_def arr_set_def)

text \<open>An array of which the first \<open>n\<close> entries are used.\<close>

lemma used_entries:
  "0 \<le> n \<and> n \<le> int (length xs) \<and> P (take (nat n) xs) \<and> Q (drop (nat n) xs) \<longleftrightarrow>
     (\<exists>ys r. xs = ys @ r \<and> n = int (length ys) \<and> P ys \<and> Q r)"
proof
  assume h: "0 \<le> n \<and> n \<le> int (length xs) \<and> P (take (nat n) xs) \<and> Q (drop (nat n) xs)"
  then have "n = int (length (take (nat n) xs))" by (auto simp: min_def)
  then show "\<exists>ys r. xs = ys @ r \<and> n = int (length ys) \<and> P ys \<and> Q r"
    using h by (metis append_take_drop_id)
qed auto

section \<open>Loops over objects\<close>

text \<open>The first \<open>k\<close> objects of \<open>old\<close> are copied into those of \<open>new\<close>, up to the first copy that fails.\<close>

fun copied_objects ::
  "('a \<Rightarrow> 'a \<Rightarrow> (lib_error \<times> 'a) option) \<Rightarrow> nat \<Rightarrow> 'a list \<Rightarrow> 'a list \<Rightarrow> (lib_error \<times> 'a list) option" where
  "copied_objects copy 0 old new = Some (NoError, new)"
| "copied_objects copy (Suc k) old new = do {
     (e, new1) \<leftarrow> copied_objects copy k old new;
     if e \<noteq> NoError then Some (e, new1)
     else do {
       dst \<leftarrow> arr_get new1 (int k);
       src \<leftarrow> arr_get old (int k);
       (e1, dst1) \<leftarrow> copy dst src;
       new2 \<leftarrow> arr_set new1 (int k) dst1;
       Some (e1, new2)
     }
   }"

fun finish_objects :: "('a \<Rightarrow> (lib_error \<times> 'a) option) \<Rightarrow> 'a list \<Rightarrow> (lib_error list \<times> 'a list) option" where
  "finish_objects finish [] = Some ([], [])"
| "finish_objects finish (x # xs) = do {
     (e, x1) \<leftarrow> finish x;
     (es, xs1) \<leftarrow> finish_objects finish xs;
     Some (e # es, x1 # xs1)
   }"

fun destroy_objects :: "('a \<Rightarrow> 'a option) \<Rightarrow> 'a list \<Rightarrow> unit option" where
  "destroy_objects dtor [] = Some ()"
| "destroy_objects dtor (x # xs) = do { _ \<leftarrow> dtor x; destroy_objects dtor xs }"

definition first_error :: "lib_error list \<Rightarrow> lib_error" where
  "first_error es = (case dropWhile (\<lambda>e. e = NoError) es of [] \<Rightarrow> NoError | e # _ \<Rightarrow> e)"

text \<open>The position of the first object that is found, or the number of objects.\<close>

fun object_index :: "('a \<Rightarrow> bool option) \<Rightarrow> 'a list \<Rightarrow> nat option" where
  "object_index found [] = Some 0"
| "object_index found (x # xs) = do {
     b \<leftarrow> found x;
     if b then Some 0 else map_option Suc (object_index found xs)
   }"

text \<open>The same on a list of abstract objects.\<close>

fun first_index :: "('a \<Rightarrow> bool) \<Rightarrow> 'a list \<Rightarrow> nat" where
  "first_index P [] = 0"
| "first_index P (x # xs) = (if P x then 0 else Suc (first_index P xs))"

lemma first_index_le: "first_index P xs \<le> length xs"
  by (induction xs) auto

lemma first_index_less: "first_index P xs < length xs \<longleftrightarrow> (\<exists>x \<in> set xs. P x)"
  by (induction xs) auto

lemma first_index_holds: "first_index P xs < length xs \<Longrightarrow> P (xs ! first_index P xs)"
  by (induction xs) auto

lemma object_index_ok:
  "(\<And>x. x \<in> set xs \<Longrightarrow> found x = Some (P (f x))) \<Longrightarrow> object_index found xs = Some (first_index P (map f xs))"
  by (induction xs) auto

lemma first_error_none [simp]: "first_error (replicate n NoError) = NoError"
  by (induction n) (simp_all add: first_error_def)

locale object_class =
  fixes good :: "'p \<Rightarrow> bool"
    and copy :: "'p \<Rightarrow> 'a \<Rightarrow> 'a \<Rightarrow> (lib_error \<times> 'a) option"
    and finish :: "'a \<Rightarrow> (lib_error \<times> 'a) option"
    and dtor :: "'a \<Rightarrow> 'a option"
    and built :: "'a \<Rightarrow> bool"
    and wf :: "'a \<Rightarrow> bool"
    and abs :: "'a \<Rightarrow> 'b"
  assumes copy_ok: "good p \<Longrightarrow> built d \<Longrightarrow> wf s \<Longrightarrow> \<exists>d'. copy p d s = Some (NoError, d') \<and> wf d' \<and> abs d' = abs s"
    and finish_ok: "wf s \<Longrightarrow> \<exists>s'. finish s = Some (NoError, s') \<and> built s'"
    and dtor_ok: "built s \<Longrightarrow> \<exists>s'. dtor s = Some s'"
begin

lemma copied_ok:
  assumes "good p" "list_all wf xs" "list_all built new" "k \<le> length xs" "k \<le> length new"
  shows "\<exists>ys. copied_objects (copy p) k (xs @ r) new = Some (NoError, ys @ drop k new) \<and>
    length ys = k \<and> list_all wf ys \<and> map abs ys = map abs (take k xs)"
  using assms(4,5)
proof (induction k)
  case 0
  then show ?case by simp
next
  case (Suc k)
  then obtain ys where ys: "copied_objects (copy p) k (xs @ r) new = Some (NoError, ys @ drop k new)"
      "length ys = k" "list_all wf ys" "map abs ys = map abs (take k xs)" by auto
  obtain d where d: "drop k new = d # drop (Suc k) new" "d \<in> set new"
    using Suc.prems by (metis Cons_nth_drop_Suc Suc_le_eq nth_mem)
  have "built d" "wf (xs ! k)" using d assms(2,3) Suc.prems by (auto simp: list_all_iff)
  then obtain d' where d': "copy p d (xs ! k) = Some (NoError, d')" "wf d'" "abs d' = abs (xs ! k)"
    using copy_ok [OF assms(1)] by blast
  have "k < length xs" using Suc.prems by simp
  then have "copied_objects (copy p) (Suc k) (xs @ r) new = Some (NoError, (ys @ [d']) @ drop (Suc k) new)"
    using ys d d' by (simp add: nth_append list_update_append)
  then show ?case
    using ys d' Suc.prems by (intro exI [of _ "ys @ [d']"]) (simp add: take_Suc_conv_app_nth)
qed

lemma finish_all_ok:
  assumes "list_all wf xs"
  shows "\<exists>ys. finish_objects finish xs = Some (replicate (length xs) NoError, ys) \<and> list_all built ys"
  using assms
proof (induction xs)
  case (Cons x xs)
  then show ?case using finish_ok [of x] by fastforce
qed simp

lemma destroy_all_ok: "list_all built xs \<Longrightarrow> destroy_objects dtor xs = Some ()"
  using dtor_ok by (induction xs) fastforce+

end

end
