(* ===== verification/CfgItem.thy ===== *)
theory CfgItem
  imports PMutex CText CfgArray
begin

text \<open>
  The class \<open>ConfigurationItem\<close> of \<open>Configuration/src/ConfigurationItem.cpp\<close>: a named item of a configuration with
  a comment and an array of values that grows by a fixed number of entries.

  A \<^verbatim>\<open>char *\<close> is \<open>Some\<close> text, or \<open>None\<close> when it is null or indeterminate: the objects own the blocks of their texts, each
  made to measure, and never share them. An access through a null pointer is \<open>None\<close>. The mutexes are not recursive; no call
  locks one twice.
\<close>

section \<open>State\<close>

datatype cfg_item_status = CFGITEM_BUILDED | CFGITEM_INITIALIZED

record configuration_item =
  stCfgItemStatus :: cfg_item_status
  item_bIsCaseSensitive :: bool
  pItemName :: "string option"
  pItemComment :: "string option"
  lBufferToAllocOnOverflow :: int
  pValues :: "string option list"
  lValuesNumber :: int
  lAllocatedBuffersNumber :: int
  configurationItemMutex :: mutex

text \<open>The constructor sets the status; what \<open>init\<close> sets later is indeterminate until then.\<close>

definition ConfigurationItem_ctor :: configuration_item where
  "ConfigurationItem_ctor = \<lparr>stCfgItemStatus = CFGITEM_BUILDED, item_bIsCaseSensitive = False, pItemName = None,
     pItemComment = None, lBufferToAllocOnOverflow = 0, pValues = [], lValuesNumber = 0,
     lAllocatedBuffersNumber = 0, configurationItemMutex = None\<rparr>"

abbreviation item_unready :: "configuration_item \<Rightarrow> bool" where
  "item_unready it \<equiv> stCfgItemStatus it \<noteq> CFGITEM_INITIALIZED"

definition ConfigurationItem_init ::
  "configuration_item \<Rightarrow> string option \<Rightarrow> string option \<Rightarrow> bool \<Rightarrow> int \<Rightarrow> lib_error \<times> configuration_item" where
  "ConfigurationItem_init it name comment bIsCaseSensitive n =
     (if stCfgItemStatus it \<noteq> CFGITEM_BUILDED then (CfgErrors CFG_OPERATIONNOTALLOWED, it)
      else if name = None \<or> comment = None \<or> n < 1 then (CfgErrors CFG_ACTIVATION_WRONG, it)
      else
        let it1 = it\<lparr>item_bIsCaseSensitive := bIsCaseSensitive, lBufferToAllocOnOverflow := n,
                    lValuesNumber := 0, lAllocatedBuffersNumber := n\<rparr>
        in case PMutex_init (configurationItemMutex it1) of
             (NoError, m) \<Rightarrow>
               (NoError, it1\<lparr>configurationItemMutex := m, pItemName := name, pItemComment := comment,
                            pValues := replicate (nat n) None, stCfgItemStatus := CFGITEM_INITIALIZED\<rparr>)
           | (_, m) \<Rightarrow> (PThreadErrors THREADLIB_PMUTEX_INIT_FAILED, it1\<lparr>configurationItemMutex := m\<rparr>))"

text \<open>\<^verbatim>\<open>delete\<close> of the values reads the array up to \<open>_lValuesNumber\<close>; an error of the mutex is dropped.\<close>

definition ConfigurationItem_finish :: "configuration_item \<Rightarrow> (lib_error \<times> configuration_item) option" where
  "ConfigurationItem_finish it =
     (if item_unready it then Some (CfgErrors CFG_OPERATIONNOTALLOWED, it)
      else if int (length (pValues it)) < lValuesNumber it then None
      else Some (NoError, it\<lparr>pValues := [], pItemName := None, pItemComment := None,
             configurationItemMutex := snd (PMutex_finish (configurationItemMutex it)),
             stCfgItemStatus := CFGITEM_BUILDED\<rparr>))"

definition ConfigurationItem_dtor :: "configuration_item \<Rightarrow> configuration_item option" where
  "ConfigurationItem_dtor it =
     (if stCfgItemStatus it = CFGITEM_INITIALIZED then map_option snd (ConfigurationItem_finish it) else Some it)"

section \<open>Names\<close>

definition to_lower :: "char \<Rightarrow> char" where
  "to_lower c = (if 65 \<le> (of_char c :: nat) \<and> (of_char c :: nat) \<le> 90 then char_of ((of_char c :: nat) + 32) else c)"

text \<open>Whether \<open>strcmp\<close> or \<open>strcasecmp\<close> returns 0.\<close>

definition names_equal :: "bool \<Rightarrow> string \<Rightarrow> string \<Rightarrow> bool" where
  "names_equal case_sensitive a b \<longleftrightarrow> (if case_sensitive then a = b else map to_lower a = map to_lower b)"

definition ConfigurationItem_eq :: "configuration_item \<Rightarrow> string option \<Rightarrow> bool option" where
  "ConfigurationItem_eq it name = do {
     a \<leftarrow> pItemName it;
     b \<leftarrow> name;
     Some (names_equal (item_bIsCaseSensitive it) a b)
   }"

section \<open>Values\<close>

text \<open>The new array, filled from the old one.\<close>

fun copied_values :: "nat \<Rightarrow> string option list \<Rightarrow> string option list \<Rightarrow> string option list option" where
  "copied_values 0 old new = Some new"
| "copied_values (Suc k) old new = do {
     new1 \<leftarrow> copied_values k old new;
     p \<leftarrow> arr_get old (int k);
     s \<leftarrow> p;
     arr_set new1 (int k) (Some s)
   }"

definition grow_values :: "configuration_item \<Rightarrow> configuration_item option" where
  "grow_values it =
     (if lValuesNumber it = lAllocatedBuffersNumber it
      then do {
        let n = lAllocatedBuffersNumber it + lBufferToAllocOnOverflow it;
        new \<leftarrow> copied_values (nat (lValuesNumber it)) (pValues it) (replicate (nat n) None);
        Some (it\<lparr>lAllocatedBuffersNumber := n, pValues := new\<rparr>)
      }
      else Some it)"

text \<open>The entries from \<open>idx\<close> on move up, the last one first; the result is the index the loop stops at.\<close>

function shift_values :: "int \<Rightarrow> int \<Rightarrow> string option list \<Rightarrow> (int \<times> string option list) option" where
  "shift_values i idx vs =
     (if idx \<le> i
      then do {
        p \<leftarrow> arr_get vs i;
        s \<leftarrow> p;
        vs1 \<leftarrow> arr_set vs (i + 1) (Some s);
        vs2 \<leftarrow> arr_set vs1 i None;
        shift_values (i - 1) idx vs2
      }
      else Some (i, vs))"
  by pat_completeness auto
termination by (relation "measure (\<lambda>(i, idx, _). nat (i - idx + 1))") auto

declare shift_values.simps [simp del]

definition insertItemValue ::
  "configuration_item \<Rightarrow> string option \<Rightarrow> int \<Rightarrow> (lib_error \<times> configuration_item) option" where
  "insertItemValue it value lValueIndexToInsert =
     (if item_unready it then Some (CfgErrors CFG_OPERATIONNOTALLOWED, it)
      else case value of
        None \<Rightarrow> Some (CfgErrors CFG_ACTIVATION_WRONG, it)
      | Some v \<Rightarrow>
          (case PMutex_lock (configurationItemMutex it) of
             (NoError, m) \<Rightarrow> do {
               it1 \<leftarrow> grow_values (it\<lparr>configurationItemMutex := m\<rparr>);
               (i, vs) \<leftarrow> shift_values (lValuesNumber it1 - 1) lValueIndexToInsert (pValues it1);
               vs1 \<leftarrow> arr_set vs (i + 1) (Some v);
               let it2 = it1\<lparr>pValues := vs1, lValuesNumber := lValuesNumber it1 + 1\<rparr>;
               (case PMutex_unLock (configurationItemMutex it2) of
                  (NoError, m2) \<Rightarrow> Some (NoError, it2\<lparr>configurationItemMutex := m2\<rparr>)
                | (_, m2) \<Rightarrow> Some (PThreadErrors THREADLIB_PMUTEX_UNLOCK_FAILED, it2\<lparr>configurationItemMutex := m2\<rparr>))
             }
           | (_, m) \<Rightarrow> Some (PThreadErrors THREADLIB_PMUTEX_LOCK_FAILED, it\<lparr>configurationItemMutex := m\<rparr>)))"

definition item_appendItemValue :: "configuration_item \<Rightarrow> string option \<Rightarrow> (lib_error \<times> configuration_item) option" where
  "item_appendItemValue it value = insertItemValue it value (lValuesNumber it)"

fun append_values :: "nat \<Rightarrow> int \<Rightarrow> string option list \<Rightarrow> configuration_item \<Rightarrow> (lib_error \<times> configuration_item) option" where
  "append_values 0 i vs it = Some (NoError, it)"
| "append_values (Suc k) i vs it = do {
     v \<leftarrow> arr_get vs i;
     (e, it1) \<leftarrow> item_appendItemValue it v;
     if e \<noteq> NoError then Some (CfgItemErrors CFG_CONFIGURATIONITEM_APPENDITEMVALUE_FAILED, it1)
     else append_values k (i + 1) vs it1
   }"

definition appendItemValues ::
  "configuration_item \<Rightarrow> int \<Rightarrow> string option list option \<Rightarrow> (lib_error \<times> configuration_item) option" where
  "appendItemValues it n values =
     (if item_unready it then Some (CfgErrors CFG_OPERATIONNOTALLOWED, it)
      else if n < 1 then Some (CfgErrors CFG_ACTIVATION_WRONG, it)
      else case values of
        None \<Rightarrow> Some (CfgErrors CFG_ACTIVATION_WRONG, it)
      | Some vs \<Rightarrow> append_values (nat n) 0 vs it)"

definition item_getIsCaseSensitive :: "configuration_item \<Rightarrow> lib_error + bool" where
  "item_getIsCaseSensitive it =
     (if item_unready it then Inl (CfgErrors CFG_OPERATIONNOTALLOWED) else Inr (item_bIsCaseSensitive it))"

text \<open>The caller gives a block that is long enough.\<close>

definition getItemName :: "configuration_item \<Rightarrow> (lib_error + string) option" where
  "getItemName it =
     (if item_unready it then Some (Inl (CfgErrors CFG_OPERATIONNOTALLOWED)) else map_option Inr (pItemName it))"

definition getItemNameLength :: "configuration_item \<Rightarrow> (lib_error + int) option" where
  "getItemNameLength it =
     (if item_unready it then Some (Inl (CfgErrors CFG_OPERATIONNOTALLOWED))
      else map_option (\<lambda>s. Inr (int (length s))) (pItemName it))"

definition getItemComment :: "configuration_item \<Rightarrow> (lib_error + string) option" where
  "getItemComment it =
     (if item_unready it then Some (Inl (CfgErrors CFG_OPERATIONNOTALLOWED)) else map_option Inr (pItemComment it))"

definition getItemCommentLength :: "configuration_item \<Rightarrow> (lib_error + int) option" where
  "getItemCommentLength it =
     (if item_unready it then Some (Inl (CfgErrors CFG_OPERATIONNOTALLOWED))
      else map_option (\<lambda>s. Inr (int (length s))) (pItemComment it))"

definition modifyItemName :: "configuration_item \<Rightarrow> string option \<Rightarrow> lib_error \<times> configuration_item" where
  "modifyItemName it name =
     (if item_unready it then (CfgErrors CFG_OPERATIONNOTALLOWED, it)
      else if name = None then (CfgErrors CFG_ACTIVATION_WRONG, it)
      else case PMutex_lock (configurationItemMutex it) of
        (NoError, m) \<Rightarrow>
          (case PMutex_unLock m of
             (NoError, m2) \<Rightarrow> (NoError, it\<lparr>pItemName := name, configurationItemMutex := m2\<rparr>)
           | (_, m2) \<Rightarrow> (PThreadErrors THREADLIB_PMUTEX_UNLOCK_FAILED, it\<lparr>pItemName := name, configurationItemMutex := m2\<rparr>))
      | (_, m) \<Rightarrow> (PThreadErrors THREADLIB_PMUTEX_LOCK_FAILED, it\<lparr>configurationItemMutex := m\<rparr>))"

definition item_modifyItemComment :: "configuration_item \<Rightarrow> string option \<Rightarrow> lib_error \<times> configuration_item" where
  "item_modifyItemComment it comment =
     (if item_unready it then (CfgErrors CFG_OPERATIONNOTALLOWED, it)
      else if comment = None then (CfgErrors CFG_ACTIVATION_WRONG, it)
      else case PMutex_lock (configurationItemMutex it) of
        (NoError, m) \<Rightarrow>
          (case PMutex_unLock m of
             (NoError, m2) \<Rightarrow> (NoError, it\<lparr>pItemComment := comment, configurationItemMutex := m2\<rparr>)
           | (_, m2) \<Rightarrow> (PThreadErrors THREADLIB_PMUTEX_UNLOCK_FAILED, it\<lparr>pItemComment := comment, configurationItemMutex := m2\<rparr>))
      | (_, m) \<Rightarrow> (PThreadErrors THREADLIB_PMUTEX_LOCK_FAILED, it\<lparr>configurationItemMutex := m\<rparr>))"

definition item_getItemValuesNumber :: "configuration_item \<Rightarrow> lib_error + int" where
  "item_getItemValuesNumber it =
     (if item_unready it then Inl (CfgErrors CFG_OPERATIONNOTALLOWED) else Inr (lValuesNumber it))"

text \<open>Only the upper end of the index is checked.\<close>

definition item_getItemValue :: "configuration_item \<Rightarrow> int \<Rightarrow> int \<Rightarrow> (lib_error + string) option" where
  "item_getItemValue it ulMaxItemValueLength lValueIndex =
     (if item_unready it then Some (Inl (CfgErrors CFG_OPERATIONNOTALLOWED))
      else if lValueIndex \<ge> lValuesNumber it then Some (Inl (CfgErrors CFG_ACTIVATION_WRONG))
      else do {
        p \<leftarrow> arr_get (pValues it) lValueIndex;
        s \<leftarrow> p;
        Some (if int (length s) \<ge> ulMaxItemValueLength
              then Inl (CfgItemErrors CFG_CONFIGURATIONITEM_BUFFERTOOSHORT) else Inr s)
      })"

definition getItemValueLength :: "configuration_item \<Rightarrow> int \<Rightarrow> (lib_error + int) option" where
  "getItemValueLength it lValueIndex =
     (if item_unready it then Some (Inl (CfgErrors CFG_OPERATIONNOTALLOWED))
      else if lValueIndex \<ge> lValuesNumber it then Some (Inl (CfgErrors CFG_ACTIVATION_WRONG))
      else do {
        p \<leftarrow> arr_get (pValues it) lValueIndex;
        s \<leftarrow> p;
        Some (Inr (int (length s)))
      })"

definition item_modifyItemValue ::
  "configuration_item \<Rightarrow> string option \<Rightarrow> int \<Rightarrow> (lib_error \<times> configuration_item) option" where
  "item_modifyItemValue it value lValueIndexToModify =
     (if item_unready it then Some (CfgErrors CFG_OPERATIONNOTALLOWED, it)
      else if value = None \<or> lValueIndexToModify \<ge> lValuesNumber it then Some (CfgErrors CFG_ACTIVATION_WRONG, it)
      else case PMutex_lock (configurationItemMutex it) of
        (NoError, m) \<Rightarrow> do {
          vs \<leftarrow> arr_set (pValues it) lValueIndexToModify value;
          (case PMutex_unLock m of
             (NoError, m2) \<Rightarrow> Some (NoError, it\<lparr>pValues := vs, configurationItemMutex := m2\<rparr>)
           | (_, m2) \<Rightarrow> Some (PThreadErrors THREADLIB_PMUTEX_UNLOCK_FAILED, it\<lparr>pValues := vs, configurationItemMutex := m2\<rparr>))
        }
      | (_, m) \<Rightarrow> Some (PThreadErrors THREADLIB_PMUTEX_LOCK_FAILED, it\<lparr>configurationItemMutex := m\<rparr>))"

section \<open>Copy\<close>

text \<open>When a step fails, what was made of the destination is finished.\<close>

definition failed_copy :: "cfg_item_error \<Rightarrow> configuration_item \<Rightarrow> (lib_error \<times> configuration_item) option" where
  "failed_copy e dst = do { (_, dst1) \<leftarrow> ConfigurationItem_finish dst; Some (CfgItemErrors e, dst1) }"

fun copy_item_values :: "nat \<Rightarrow> int \<Rightarrow> configuration_item \<Rightarrow> configuration_item \<Rightarrow> (lib_error \<times> configuration_item) option" where
  "copy_item_values 0 i dst src = Some (NoError, dst)"
| "copy_item_values (Suc k) i dst src = do {
     n \<leftarrow> getItemValueLength src i;
     (case n of
        Inl _ \<Rightarrow> failed_copy CFG_CONFIGURATIONITEM_GETITEMVALUELENGTH_FAILED dst
      | Inr lItemValueLength \<Rightarrow> do {
          v \<leftarrow> item_getItemValue src (lItemValueLength + 1) i;
          (case v of
             Inl _ \<Rightarrow> failed_copy CFG_CONFIGURATIONITEM_GETITEMVALUE_FAILED dst
           | Inr value \<Rightarrow> do {
               (e, dst1) \<leftarrow> item_appendItemValue dst (Some value);
               if e \<noteq> NoError then failed_copy CFG_CONFIGURATIONITEM_APPENDITEMVALUE_FAILED dst1
               else copy_item_values k (i + 1) dst1 src
             })
        })
   }"

definition ConfigurationItem_copy ::
  "configuration_item \<Rightarrow> configuration_item \<Rightarrow> int \<Rightarrow> (lib_error \<times> configuration_item) option" where
  "ConfigurationItem_copy dst src n =
     (if stCfgItemStatus src \<noteq> CFGITEM_INITIALIZED \<or> stCfgItemStatus dst \<noteq> CFGITEM_BUILDED
      then Some (CfgErrors CFG_OPERATIONNOTALLOWED, dst)
      else
        or_return (Some (item_getIsCaseSensitive src)) (CfgItemErrors CFG_CONFIGURATIONITEM_GETISCASESENSITIVE_FAILED, dst) (\<lambda>bIsCaseSensitive.
        or_return (getItemNameLength src) (CfgItemErrors CFG_CONFIGURATIONITEM_GETITEMNAMELENGTH_FAILED, dst) (\<lambda>_.
        or_return (getItemCommentLength src) (CfgItemErrors CFG_CONFIGURATIONITEM_GETITEMCOMMENTLENGTH_FAILED, dst) (\<lambda>_.
        or_return (getItemName src) (CfgItemErrors CFG_CONFIGURATIONITEM_GETITEMNAME_FAILED, dst) (\<lambda>name.
        or_return (getItemComment src) (CfgItemErrors CFG_CONFIGURATIONITEM_GETITEMCOMMENT_FAILED, dst) (\<lambda>comment.
          (case ConfigurationItem_init dst (Some name) (Some comment) bIsCaseSensitive n of
             (NoError, dst1) \<Rightarrow>
               (case item_getItemValuesNumber src of
                  Inl _ \<Rightarrow> failed_copy CFG_CONFIGURATIONITEM_GETITEMVALUESNUMBER_FAILED dst1
                | Inr nvalues \<Rightarrow> copy_item_values (nat nvalues) 0 dst1 src)
           | (_, dst1) \<Rightarrow> Some (CfgItemErrors CFG_CONFIGURATIONITEM_INIT_FAILED, dst1))))))))"

end
