(* ===== verification/CfgSection.thy ===== *)
theory CfgSection
  imports CfgItem
begin

text \<open>
  The class \<open>ConfigurationSection\<close> of \<open>Configuration/src/ConfigurationSection.cpp\<close>: a named section with a comment, a
  date that may be missing (a null pointer), and an array of items. The array holds objects that are
  constructed with it; an item that is appended is copied into the next one.
\<close>

section \<open>State\<close>

datatype cfg_section_status = CFGSECTION_BUILDED | CFGSECTION_INITIALIZED

record configuration_section =
  stCfgSectionStatus :: cfg_section_status
  section_bIsCaseSensitive :: bool
  pSectionName :: "string option"
  pSectionComment :: "string option"
  pSectionDate :: "string option"
  lCfgItemsToAllocOnOverflow :: int
  pciCfgItems :: "configuration_item list"
  lCfgItemsNumber :: int
  lAllocatedCfgItemNumber :: int
  configurationSectionMutex :: mutex

definition ConfigurationSection_ctor :: configuration_section where
  "ConfigurationSection_ctor = \<lparr>stCfgSectionStatus = CFGSECTION_BUILDED, section_bIsCaseSensitive = False,
     pSectionName = None, pSectionComment = None, pSectionDate = None, lCfgItemsToAllocOnOverflow = 0,
     pciCfgItems = [], lCfgItemsNumber = 0, lAllocatedCfgItemNumber = 0, configurationSectionMutex = None\<rparr>"

abbreviation section_unready :: "configuration_section \<Rightarrow> bool" where
  "section_unready s \<equiv> stCfgSectionStatus s \<noteq> CFGSECTION_INITIALIZED"

definition CFG_SECTIONDATELENGTH :: nat where
  "CFG_SECTIONDATELENGTH = 10 + 1"

text \<open>\<^verbatim>\<open>%4ld/%2ld/%2ld\<close>: a \<^verbatim>\<open>long\<close> is scanned as an unsigned one and taken as signed.\<close>

definition signed_long :: "int \<Rightarrow> int" where
  "signed_long v = (if v < 2 ^ 63 then v else v - 2 ^ 64)"

definition isValidDate :: "string option \<Rightarrow> bool" where
  "isValidDate date =
     (case date of
        None \<Rightarrow> False
      | Some d \<Rightarrow>
          if length d \<noteq> CFG_SECTIONDATELENGTH - 1 then False
          else case map signed_long (sscanf [Lu 4, Lit CHR ''/'', Lu 2, Lit CHR ''/'', Lu 2] d) of
                 [lYear, lMonth, lDay] \<Rightarrow>
                   \<not> (lYear < 1900 \<or> lMonth < 1 \<or> lMonth > 12 \<or> lDay < 1 \<or> lDay > 31)
               | _ \<Rightarrow> False)"

definition ConfigurationSection_init ::
  "configuration_section \<Rightarrow> string option \<Rightarrow> string option \<Rightarrow> string option \<Rightarrow> bool \<Rightarrow> int \<Rightarrow>
     lib_error \<times> configuration_section" where
  "ConfigurationSection_init s name comment date bIsCaseSensitive n =
     (if stCfgSectionStatus s \<noteq> CFGSECTION_BUILDED then (CfgErrors CFG_OPERATIONNOTALLOWED, s)
      else if name = None \<or> comment = None \<or> n < 1 \<or> (date \<noteq> None \<and> \<not> isValidDate date)
      then (CfgErrors CFG_ACTIVATION_WRONG, s)
      else
        let s1 = s\<lparr>section_bIsCaseSensitive := bIsCaseSensitive, lCfgItemsToAllocOnOverflow := n,
                   lCfgItemsNumber := 0, lAllocatedCfgItemNumber := n\<rparr>
        in case PMutex_init (configurationSectionMutex s1) of
             (NoError, m) \<Rightarrow>
               (NoError, s1\<lparr>configurationSectionMutex := m, pSectionName := name, pSectionComment := comment,
                           pSectionDate := date, pciCfgItems := replicate (nat n) ConfigurationItem_ctor,
                           stCfgSectionStatus := CFGSECTION_INITIALIZED\<rparr>)
           | (_, m) \<Rightarrow> (PThreadErrors THREADLIB_PMUTEX_INIT_FAILED, s1\<lparr>configurationSectionMutex := m\<rparr>))"

text \<open>The items are finished one by one and then destroyed with the array.\<close>

definition ConfigurationSection_finish :: "configuration_section \<Rightarrow> (lib_error \<times> configuration_section) option" where
  "ConfigurationSection_finish s =
     (if section_unready s then Some (CfgErrors CFG_OPERATIONNOTALLOWED, s)
      else if int (length (pciCfgItems s)) < lCfgItemsNumber s then None
      else do {
        let n = nat (lCfgItemsNumber s);
        (_, finished) \<leftarrow> finish_objects ConfigurationItem_finish (take n (pciCfgItems s));
        _ \<leftarrow> destroy_objects ConfigurationItem_dtor (finished @ drop n (pciCfgItems s));
        Some (NoError, s\<lparr>pciCfgItems := [], pSectionName := None, pSectionComment := None, pSectionDate := None,
               configurationSectionMutex := snd (PMutex_finish (configurationSectionMutex s)),
               stCfgSectionStatus := CFGSECTION_BUILDED\<rparr>)
      })"

text \<open>The destructor finishes when the object is \<^emph>\<open>not\<close> initialised.\<close>

definition ConfigurationSection_dtor :: "configuration_section \<Rightarrow> configuration_section option" where
  "ConfigurationSection_dtor s =
     (if stCfgSectionStatus s \<noteq> CFGSECTION_INITIALIZED then map_option snd (ConfigurationSection_finish s) else Some s)"

definition ConfigurationSection_eq :: "configuration_section \<Rightarrow> string option \<Rightarrow> bool option" where
  "ConfigurationSection_eq s name = do {
     a \<leftarrow> pSectionName s;
     b \<leftarrow> name;
     Some (names_equal (section_bIsCaseSensitive s) a b)
   }"

section \<open>Name, comment and date\<close>

definition section_getIsCaseSensitive :: "configuration_section \<Rightarrow> lib_error + bool" where
  "section_getIsCaseSensitive s =
     (if section_unready s then Inl (CfgErrors CFG_OPERATIONNOTALLOWED) else Inr (section_bIsCaseSensitive s))"

definition getSectionName :: "configuration_section \<Rightarrow> (lib_error + string) option" where
  "getSectionName s =
     (if section_unready s then Some (Inl (CfgErrors CFG_OPERATIONNOTALLOWED)) else map_option Inr (pSectionName s))"

definition getSectionNameLength :: "configuration_section \<Rightarrow> (lib_error + int) option" where
  "getSectionNameLength s =
     (if section_unready s then Some (Inl (CfgErrors CFG_OPERATIONNOTALLOWED))
      else map_option (\<lambda>t. Inr (int (length t))) (pSectionName s))"

definition getSectionComment :: "configuration_section \<Rightarrow> (lib_error + string) option" where
  "getSectionComment s =
     (if section_unready s then Some (Inl (CfgErrors CFG_OPERATIONNOTALLOWED)) else map_option Inr (pSectionComment s))"

definition getSectionCommentLength :: "configuration_section \<Rightarrow> (lib_error + int) option" where
  "getSectionCommentLength s =
     (if section_unready s then Some (Inl (CfgErrors CFG_OPERATIONNOTALLOWED))
      else map_option (\<lambda>t. Inr (int (length t))) (pSectionComment s))"

text \<open>The caller's block is never null here.\<close>

definition getSectionDate :: "configuration_section \<Rightarrow> lib_error + string" where
  "getSectionDate s =
     (if section_unready s then Inl (CfgErrors CFG_OPERATIONNOTALLOWED)
      else case pSectionDate s of
        None \<Rightarrow> Inl (CfgSectionErrors CFG_CONFIGURATIONSECTIONDATE_NOTFOUND)
      | Some d \<Rightarrow> Inr d)"

text \<open>The two modifying calls on texts, and the part of \<open>modifySectionDate\<close> that runs with the mutex.\<close>

definition section_locked ::
  "(configuration_section \<Rightarrow> lib_error \<times> configuration_section) \<Rightarrow> configuration_section \<Rightarrow> lib_error \<times> configuration_section" where
  "section_locked body s =
     (case PMutex_lock (configurationSectionMutex s) of
        (NoError, m) \<Rightarrow>
          (case body (s\<lparr>configurationSectionMutex := m\<rparr>) of
             (e, s1) \<Rightarrow>
               (case PMutex_unLock (configurationSectionMutex s1) of
                  (NoError, m2) \<Rightarrow> (e, s1\<lparr>configurationSectionMutex := m2\<rparr>)
                | (_, m2) \<Rightarrow>
                    (if e = NoError then PThreadErrors THREADLIB_PMUTEX_UNLOCK_FAILED else e,
                     s1\<lparr>configurationSectionMutex := m2\<rparr>)))
      | (_, m) \<Rightarrow> (PThreadErrors THREADLIB_PMUTEX_LOCK_FAILED, s\<lparr>configurationSectionMutex := m\<rparr>))"

definition modifySectionName :: "configuration_section \<Rightarrow> string option \<Rightarrow> lib_error \<times> configuration_section" where
  "modifySectionName s name =
     (if section_unready s then (CfgErrors CFG_OPERATIONNOTALLOWED, s)
      else if name = None then (CfgErrors CFG_ACTIVATION_WRONG, s)
      else section_locked (\<lambda>s1. (NoError, s1\<lparr>pSectionName := name\<rparr>)) s)"

definition section_modifySectionComment ::
  "configuration_section \<Rightarrow> string option \<Rightarrow> lib_error \<times> configuration_section" where
  "section_modifySectionComment s comment =
     (if section_unready s then (CfgErrors CFG_OPERATIONNOTALLOWED, s)
      else if comment = None then (CfgErrors CFG_ACTIVATION_WRONG, s)
      else section_locked (\<lambda>s1. (NoError, s1\<lparr>pSectionComment := comment\<rparr>)) s)"

definition section_modifySectionDate ::
  "configuration_section \<Rightarrow> string option \<Rightarrow> lib_error \<times> configuration_section" where
  "section_modifySectionDate s date =
     (if section_unready s then (CfgErrors CFG_OPERATIONNOTALLOWED, s)
      else section_locked
        (\<lambda>s1. if date = None then (NoError, s1\<lparr>pSectionDate := None\<rparr>)
              else if \<not> isValidDate date then (CfgErrors CFG_ACTIVATION_WRONG, s1)
              else (NoError, s1\<lparr>pSectionDate := date\<rparr>)) s)"

section \<open>Items\<close>

text \<open>The larger array: the old items are copied into it and then finished.\<close>

definition grow_items :: "configuration_section \<Rightarrow> int \<Rightarrow> (lib_error \<times> configuration_section) option" where
  "grow_items s n =
     (if lCfgItemsNumber s = lAllocatedCfgItemNumber s
      then do {
        let k = lAllocatedCfgItemNumber s + lCfgItemsToAllocOnOverflow s;
        let fresh = replicate (nat k) ConfigurationItem_ctor;
        (e, new) \<leftarrow> copied_objects (\<lambda>dst src. ConfigurationItem_copy dst src n) (nat (lCfgItemsNumber s)) (pciCfgItems s) fresh;
        if e \<noteq> NoError then do {
          _ \<leftarrow> destroy_objects ConfigurationItem_dtor new;
          Some (CfgItemErrors CFG_CONFIGURATIONITEM_COPY_FAILED, s)
        }
        else do {
          (es, old) \<leftarrow> finish_objects ConfigurationItem_finish (take (nat (lCfgItemsNumber s)) (pciCfgItems s));
          let s1 = s\<lparr>pciCfgItems := new, lAllocatedCfgItemNumber := k\<rparr>;
          if first_error es \<noteq> NoError then Some (CfgItemErrors CFG_CONFIGURATIONITEM_FINISH_FAILED, s1)
          else do {
            _ \<leftarrow> destroy_objects ConfigurationItem_dtor (old @ drop (nat (lCfgItemsNumber s)) (pciCfgItems s));
            Some (NoError, s1)
          }
        }
      }
      else Some (NoError, s))"

definition append_copy ::
  "configuration_section \<Rightarrow> configuration_item \<Rightarrow> int \<Rightarrow> (lib_error \<times> configuration_section) option" where
  "append_copy s it n = do {
     (e, s1) \<leftarrow> grow_items s n;
     if e \<noteq> NoError then Some (e, s1)
     else do {
       dst \<leftarrow> arr_get (pciCfgItems s1) (lCfgItemsNumber s1);
       (e1, dst1) \<leftarrow> ConfigurationItem_copy dst it n;
       its \<leftarrow> arr_set (pciCfgItems s1) (lCfgItemsNumber s1) dst1;
       if e1 \<noteq> NoError
       then Some (CfgItemErrors CFG_CONFIGURATIONITEM_COPY_FAILED, s1\<lparr>pciCfgItems := its\<rparr>)
       else Some (NoError, s1\<lparr>pciCfgItems := its, lCfgItemsNumber := lCfgItemsNumber s1 + 1\<rparr>)
     }
   }"

definition section_appendCfgItem ::
  "configuration_section \<Rightarrow> configuration_item option \<Rightarrow> int \<Rightarrow> (lib_error \<times> configuration_section) option" where
  "section_appendCfgItem s item n =
     (if section_unready s then Some (CfgErrors CFG_OPERATIONNOTALLOWED, s)
      else case item of
        None \<Rightarrow> Some (CfgErrors CFG_ACTIVATION_WRONG, s)
      | Some it \<Rightarrow>
          (case PMutex_lock (configurationSectionMutex s) of
             (NoError, m) \<Rightarrow> do {
               (e, s1) \<leftarrow> append_copy (s\<lparr>configurationSectionMutex := m\<rparr>) it n;
               (case PMutex_unLock (configurationSectionMutex s1) of
                  (NoError, m2) \<Rightarrow> Some (e, s1\<lparr>configurationSectionMutex := m2\<rparr>)
                | (_, m2) \<Rightarrow>
                    Some (if e = NoError then PThreadErrors THREADLIB_PMUTEX_UNLOCK_FAILED else e,
                          s1\<lparr>configurationSectionMutex := m2\<rparr>))
             }
           | (_, m) \<Rightarrow> Some (PThreadErrors THREADLIB_PMUTEX_LOCK_FAILED, s\<lparr>configurationSectionMutex := m\<rparr>)))"

definition getCfgItemsNumber :: "configuration_section \<Rightarrow> lib_error + int" where
  "getCfgItemsNumber s =
     (if section_unready s then Inl (CfgErrors CFG_OPERATIONNOTALLOWED) else Inr (lCfgItemsNumber s))"

text \<open>The calls that copy an item fill the object of the caller.\<close>

definition section_getCfgItemByIndex ::
  "configuration_section \<Rightarrow> int \<Rightarrow> configuration_item \<Rightarrow> int \<Rightarrow> (lib_error \<times> configuration_item) option" where
  "section_getCfgItemByIndex s lCfgItemIndex dst n =
     (if section_unready s then Some (CfgErrors CFG_OPERATIONNOTALLOWED, dst)
      else if lCfgItemIndex \<ge> lCfgItemsNumber s then Some (CfgErrors CFG_ACTIVATION_WRONG, dst)
      else do {
        src \<leftarrow> arr_get (pciCfgItems s) lCfgItemIndex;
        (e, dst1) \<leftarrow> ConfigurationItem_copy dst src n;
        Some (if e \<noteq> NoError then CfgItemErrors CFG_CONFIGURATIONITEM_COPY_FAILED else NoError, dst1)
      })"

text \<open>The position of the first item of the name, or the number of items.\<close>

definition search_item :: "configuration_section \<Rightarrow> string option \<Rightarrow> nat option" where
  "search_item s name =
     (if int (length (pciCfgItems s)) < lCfgItemsNumber s then None
      else object_index (\<lambda>it. ConfigurationItem_eq it name) (take (nat (lCfgItemsNumber s)) (pciCfgItems s)))"

definition section_getCfgItemByName ::
  "configuration_section \<Rightarrow> string option \<Rightarrow> configuration_item \<Rightarrow> int \<Rightarrow> (lib_error \<times> configuration_item) option" where
  "section_getCfgItemByName s name dst n =
     (if section_unready s then Some (CfgErrors CFG_OPERATIONNOTALLOWED, dst)
      else do {
        i \<leftarrow> search_item s name;
        if int i < lCfgItemsNumber s
        then do {
          src \<leftarrow> arr_get (pciCfgItems s) (int i);
          (e, dst1) \<leftarrow> ConfigurationItem_copy dst src n;
          Some (if e \<noteq> NoError then CfgItemErrors CFG_CONFIGURATIONITEM_COPY_FAILED else NoError, dst1)
        }
        else Some (CfgSectionErrors CFG_ITEM_NOTFOUND, dst)
      })"

text \<open>The pointer into the array is the position.\<close>

definition getPtrCfgItemByName :: "configuration_section \<Rightarrow> string option \<Rightarrow> (lib_error + nat) option" where
  "getPtrCfgItemByName s name =
     (if section_unready s then Some (Inl (CfgErrors CFG_OPERATIONNOTALLOWED))
      else do {
        i \<leftarrow> search_item s name;
        Some (if int i < lCfgItemsNumber s then Inr i else Inl (CfgSectionErrors CFG_ITEM_NOTFOUND))
      })"

section \<open>Copy\<close>

definition failed_section_copy :: "cfg_section_error \<Rightarrow> configuration_section \<Rightarrow> (lib_error \<times> configuration_section) option" where
  "failed_section_copy e dst = do { (_, dst1) \<leftarrow> ConfigurationSection_finish dst; Some (CfgSectionErrors e, dst1) }"

text \<open>The item on the way is finished after each round, so that the next round copies into it again.\<close>

fun copy_section_items ::
  "nat \<Rightarrow> int \<Rightarrow> configuration_item \<Rightarrow> configuration_section \<Rightarrow> configuration_section \<Rightarrow> int \<Rightarrow>
     (lib_error \<times> configuration_section) option" where
  "copy_section_items 0 i ci dst src n = Some (NoError, dst)"
| "copy_section_items (Suc k) i ci dst src n = do {
     (e, ci1) \<leftarrow> section_getCfgItemByIndex src i ci n;
     if e \<noteq> NoError then failed_section_copy CFG_CONFIGURATIONSECTION_GETCFGITEMBYINDEX_FAILED dst
     else do {
       (e1, dst1) \<leftarrow> section_appendCfgItem dst (Some ci1) n;
       if e1 \<noteq> NoError then do {
         _ \<leftarrow> ConfigurationItem_finish ci1;
         failed_section_copy CFG_CONFIGURATIONSECTION_APPENDCFGITEM_FAILED dst1
       }
       else do {
         (e2, ci2) \<leftarrow> ConfigurationItem_finish ci1;
         if e2 \<noteq> NoError then do {
           (_, dst2) \<leftarrow> ConfigurationSection_finish dst1;
           Some (CfgItemErrors CFG_CONFIGURATIONITEM_FINISH_FAILED, dst2)
         }
         else copy_section_items k (i + 1) ci2 dst1 src n
       }
     }
   }"

definition ConfigurationSection_copy ::
  "configuration_section \<Rightarrow> configuration_section \<Rightarrow> int \<Rightarrow> int \<Rightarrow> (lib_error \<times> configuration_section) option" where
  "ConfigurationSection_copy dst src k n =
     (if stCfgSectionStatus src \<noteq> CFGSECTION_INITIALIZED \<or> stCfgSectionStatus dst \<noteq> CFGSECTION_BUILDED
      then Some (CfgErrors CFG_OPERATIONNOTALLOWED, dst)
      else
        or_return (Some (section_getIsCaseSensitive src)) (CfgSectionErrors CFG_CONFIGURATIONSECTION_GETISCASESENSITIVE_FAILED, dst) (\<lambda>bIsCaseSensitive.
        or_return (getSectionNameLength src) (CfgSectionErrors CFG_CONFIGURATIONSECTION_GETSECTIONNAMELENGTH_FAILED, dst) (\<lambda>_.
        or_return (getSectionCommentLength src) (CfgSectionErrors CFG_CONFIGURATIONSECTION_GETSECTIONCOMMENTLENGTH_FAILED, dst) (\<lambda>_.
        or_return (getSectionName src) (CfgSectionErrors CFG_CONFIGURATIONSECTION_GETSECTIONNAME_FAILED, dst) (\<lambda>name.
        or_return (getSectionComment src) (CfgSectionErrors CFG_CONFIGURATIONSECTION_GETSECTIONCOMMENT_FAILED, dst) (\<lambda>comment.
          (let initialised =
             (case getSectionDate src of
                Inr date \<Rightarrow> Inr (ConfigurationSection_init dst (Some name) (Some comment) (Some date) bIsCaseSensitive k)
              | Inl e \<Rightarrow>
                  if e = CfgSectionErrors CFG_CONFIGURATIONSECTIONDATE_NOTFOUND
                  then Inr (ConfigurationSection_init dst (Some name) (Some comment) None bIsCaseSensitive k)
                  else Inl (CfgSectionErrors CFG_CONFIGURATIONSECTION_GETSECTIONDATE_FAILED))
           in case initialised of
                Inl e \<Rightarrow> Some (e, dst)
              | Inr (NoError, dst1) \<Rightarrow>
                  (case getCfgItemsNumber src of
                     Inl _ \<Rightarrow> failed_section_copy CFG_CONFIGURATIONSECTION_GETCFGITEMSNUMBER_FAILED dst1
                   | Inr items \<Rightarrow> copy_section_items (nat items) 0 ConfigurationItem_ctor dst1 src n)
              | Inr (_, dst1) \<Rightarrow> Some (CfgSectionErrors CFG_CONFIGURATIONSECTION_INIT_FAILED, dst1))))))))"

end
