(* ===== verification/Encrypt.thy ===== *)
theory Encrypt
  imports Prelude
begin

text \<open>
  The class \<open>Encrypt\<close> of \<open>Tools/src/Encrypt.cpp\<close>, the portable variant: each character of a text becomes a mark
  and a character, shifted by 3 when the shifted one is printable. Texts are lists of characters without
  the terminator, buffers are blocks of memory with checked accesses. The functions around openssl are not
  modelled.
\<close>

section \<open>Characters\<close>

text \<open>A plain \<^verbatim>\<open>char\<close> is signed: its value when promoted to \<^verbatim>\<open>int\<close>, and the conversion back.\<close>

definition char_value :: "char \<Rightarrow> int" where
  "char_value c = (let v = of_char c in if v < 128 then v else v - 256)"

definition char_of_value :: "int \<Rightarrow> char" where
  "char_of_value v = char_of (nat (v mod 256))"

definition is_shifted :: "char \<Rightarrow> bool" where
  "is_shifted c \<longleftrightarrow>
     char_value c + 3 \<ge> 32 \<and> char_value c + 3 \<le> 126 \<and>
     char_of_value (char_value c + 3) \<noteq> CHR ''<'' \<and>
     char_of_value (char_value c + 3) \<noteq> CHR ''>'' \<and>
     char_of_value (char_value c + 3) \<noteq> CHR ''='' \<and>
     char_of_value (char_value c + 3) \<noteq> CHR '';''"

section \<open>The functions on buffers\<close>

definition getDecryptedBufferLength :: "string \<Rightarrow> nat" where
  "getDecryptedBufferLength crypted = length crypted div 2"

definition getCryptedBufferLength :: "string \<Rightarrow> nat" where
  "getCryptedBufferLength plain = length plain * 2"

fun encrypt_loop :: "string \<Rightarrow> nat \<Rightarrow> mem \<Rightarrow> mem option" where
  "encrypt_loop [] j m = mem_write m j NUL"
| "encrypt_loop (c # s) j m =
     (if is_shifted c
      then do {
        m1 \<leftarrow> mem_write m j CHR ''1'';
        m2 \<leftarrow> mem_write m1 (j + 1) (char_of_value (char_value c + 3));
        encrypt_loop s (j + 2) m2
      }
      else do {
        m1 \<leftarrow> mem_write m j CHR ''0'';
        m2 \<leftarrow> mem_write m1 (j + 1) c;
        encrypt_loop s (j + 2) m2
      })"

definition encrypt :: "string \<Rightarrow> mem \<Rightarrow> nat \<Rightarrow> (int \<times> mem) option" where
  "encrypt plain buffer ulCryptedBufferLength =
     (if ulCryptedBufferLength \<le> getCryptedBufferLength plain then Some (1, buffer)
      else do { m \<leftarrow> encrypt_loop plain 0 buffer; Some (0, m) })"

text \<open>The loop reads the block of the encrypted text, up to the terminator when the length is odd.\<close>

function decrypt_loop :: "mem \<Rightarrow> nat \<Rightarrow> nat \<Rightarrow> nat \<Rightarrow> mem \<Rightarrow> mem option" where
  "decrypt_loop crypted len i j m =
     (if i < len
      then do {
        mark \<leftarrow> mem_read crypted i;
        c \<leftarrow> mem_read crypted (i + 1);
        m1 \<leftarrow> mem_write m j (if mark = CHR ''1'' then char_of_value (char_value c - 3) else c);
        decrypt_loop crypted len (i + 2) (j + 1) m1
      }
      else mem_write m j NUL)"
  by pat_completeness auto
termination by (relation "measure (\<lambda>(_, len, i, _). len - i)") auto

declare decrypt_loop.simps [simp del]

definition decrypt :: "string \<Rightarrow> mem \<Rightarrow> nat \<Rightarrow> (int \<times> mem) option" where
  "decrypt crypted buffer uDecryptedBufferLength =
     (if uDecryptedBufferLength \<le> getDecryptedBufferLength crypted then Some (1, buffer)
      else do { m \<leftarrow> decrypt_loop (lit crypted) (length crypted) 0 0 buffer; Some (0, m) })"

section \<open>The functions on strings\<close>

text \<open>They allocate a buffer, and throw a \<^verbatim>\<open>runtime_error\<close> (\<open>Inl\<close>) when the function on buffers fails. The text
  of a \<^verbatim>\<open>string\<close> is what its \<open>c_str\<close> shows.\<close>

definition encrypt_string :: "string \<Rightarrow> (string + string) option" where
  "encrypt_string plain = do {
     let n = getCryptedBufferLength plain;
     m0 \<leftarrow> strcpy (fresh_block (n + 1)) 0 (lit []);
     (r, m) \<leftarrow> encrypt plain m0 (n + 1);
     if r \<noteq> 0 then Some (Inl ''Encrypt::encrypt failed'') else do { s \<leftarrow> c_str m; Some (Inr s) }
   }"

definition decrypt_string :: "string \<Rightarrow> (string + string) option" where
  "decrypt_string crypted = do {
     let n = getDecryptedBufferLength crypted;
     m0 \<leftarrow> strcpy (fresh_block (n + 1)) 0 (lit []);
     (r, m) \<leftarrow> decrypt crypted m0 (n + 1);
     if r \<noteq> 0 then Some (Inl ''Encrypt::encrypt failed'') else do { s \<leftarrow> c_str m; Some (Inr s) }
   }"

end
