(* ===== verification/Config.thy ===== *)
theory Config
  imports CfgSection Encrypt
begin

text \<open>
  The class \<open>Config\<close> of \<open>Configuration/src/Config.cpp\<close>: a named array of sections. Most calls look a section up by name, and
  many work on a copy of it that they finish before they return. A local object whose destructor runs without
  a \<open>finish\<close> before it is an error path only, and changes nothing here.
\<close>

section \<open>State\<close>

datatype cfg_status = CFG_BUILDED | CFG_INITIALIZED

datatype security_level = CFG_NOENCRIPTION | CFG_ENCRIPTION

record config =
  stCfgStatus :: cfg_status
  config_bIsCaseSensitive :: bool
  pConfigName :: "string option"
  lCfgSectionsToAllocOnOverflow :: int
  pcsCfgSections :: "configuration_section list"
  lCfgSectionsNumber :: int
  lAllocatedCfgSectionsNumber :: int
  configurationMutex :: mutex

definition Config_ctor :: config where
  "Config_ctor = \<lparr>stCfgStatus = CFG_BUILDED, config_bIsCaseSensitive = False, pConfigName = None,
     lCfgSectionsToAllocOnOverflow = 0, pcsCfgSections = [], lCfgSectionsNumber = 0,
     lAllocatedCfgSectionsNumber = 0, configurationMutex = None\<rparr>"

abbreviation config_unready :: "config \<Rightarrow> bool" where
  "config_unready c \<equiv> stCfgStatus c \<noteq> CFG_INITIALIZED"

definition CFG_MAXCONFIGNAMELENGTH :: nat where
  "CFG_MAXCONFIGNAMELENGTH = 256 + 1"

definition Config_init :: "config \<Rightarrow> string option \<Rightarrow> bool \<Rightarrow> int \<Rightarrow> lib_error \<times> config" where
  "Config_init c name bIsCaseSensitive n =
     (if stCfgStatus c \<noteq> CFG_BUILDED then (CfgErrors CFG_OPERATIONNOTALLOWED, c)
      else if (case name of None \<Rightarrow> True | Some t \<Rightarrow> CFG_MAXCONFIGNAMELENGTH - 1 < length t) \<or> n < 1
      then (CfgErrors CFG_ACTIVATION_WRONG, c)
      else
        let c1 = c\<lparr>config_bIsCaseSensitive := bIsCaseSensitive, lCfgSectionsToAllocOnOverflow := n,
                   lCfgSectionsNumber := 0, lAllocatedCfgSectionsNumber := n\<rparr>
        in case PMutex_init (configurationMutex c1) of
             (NoError, m) \<Rightarrow>
               (NoError, c1\<lparr>configurationMutex := m, pConfigName := name,
                           pcsCfgSections := replicate (nat n) ConfigurationSection_ctor, stCfgStatus := CFG_INITIALIZED\<rparr>)
           | (_, m) \<Rightarrow> (PThreadErrors THREADLIB_PMUTEX_INIT_FAILED, c1\<lparr>configurationMutex := m\<rparr>))"

definition Config_finish :: "config \<Rightarrow> (lib_error \<times> config) option" where
  "Config_finish c =
     (if config_unready c then Some (CfgErrors CFG_OPERATIONNOTALLOWED, c)
      else if int (length (pcsCfgSections c)) < lCfgSectionsNumber c then None
      else do {
        let n = nat (lCfgSectionsNumber c);
        (_, finished) \<leftarrow> finish_objects ConfigurationSection_finish (take n (pcsCfgSections c));
        _ \<leftarrow> destroy_objects ConfigurationSection_dtor (finished @ drop n (pcsCfgSections c));
        Some (NoError, c\<lparr>pcsCfgSections := [], pConfigName := None,
               configurationMutex := snd (PMutex_finish (configurationMutex c)), stCfgStatus := CFG_BUILDED\<rparr>)
      })"

text \<open>As for sections, the destructor finishes when the object is not initialised.\<close>

definition Config_dtor :: "config \<Rightarrow> config option" where
  "Config_dtor c = (if stCfgStatus c \<noteq> CFG_INITIALIZED then map_option snd (Config_finish c) else Some c)"

section \<open>Appending and removing a section\<close>

definition grow_sections :: "config \<Rightarrow> int \<Rightarrow> int \<Rightarrow> (lib_error \<times> config) option" where
  "grow_sections c k n =
     (if lCfgSectionsNumber c = lAllocatedCfgSectionsNumber c
      then do {
        let m = lAllocatedCfgSectionsNumber c + lCfgSectionsToAllocOnOverflow c;
        let fresh = replicate (nat m) ConfigurationSection_ctor;
        (e, new) \<leftarrow> copied_objects (\<lambda>dst src. ConfigurationSection_copy dst src k n)
          (nat (lCfgSectionsNumber c)) (pcsCfgSections c) fresh;
        if e \<noteq> NoError then do {
          (_, finished) \<leftarrow> finish_objects ConfigurationSection_finish new;
          _ \<leftarrow> destroy_objects ConfigurationSection_dtor finished;
          Some (CfgSectionErrors CFG_CONFIGURATIONSECTION_COPY_FAILED, c)
        }
        else do {
          (es, old) \<leftarrow> finish_objects ConfigurationSection_finish (take (nat (lCfgSectionsNumber c)) (pcsCfgSections c));
          let c1 = c\<lparr>pcsCfgSections := new, lAllocatedCfgSectionsNumber := m\<rparr>;
          if first_error es \<noteq> NoError then Some (CfgSectionErrors CFG_CONFIGURATIONSECTION_FINISH_FAILED, c1)
          else do {
            _ \<leftarrow> destroy_objects ConfigurationSection_dtor (old @ drop (nat (lCfgSectionsNumber c)) (pcsCfgSections c));
            Some (NoError, c1)
          }
        }
      }
      else Some (NoError, c))"

definition append_section_copy ::
  "config \<Rightarrow> configuration_section \<Rightarrow> int \<Rightarrow> int \<Rightarrow> (lib_error \<times> config) option" where
  "append_section_copy c s k n = do {
     (e, c1) \<leftarrow> grow_sections c k n;
     if e \<noteq> NoError then Some (e, c1)
     else do {
       dst \<leftarrow> arr_get (pcsCfgSections c1) (lCfgSectionsNumber c1);
       (e1, dst1) \<leftarrow> ConfigurationSection_copy dst s k n;
       ss \<leftarrow> arr_set (pcsCfgSections c1) (lCfgSectionsNumber c1) dst1;
       if e1 \<noteq> NoError
       then Some (CfgSectionErrors CFG_CONFIGURATIONSECTION_COPY_FAILED, c1\<lparr>pcsCfgSections := ss\<rparr>)
       else Some (NoError, c1\<lparr>pcsCfgSections := ss, lCfgSectionsNumber := lCfgSectionsNumber c1 + 1\<rparr>)
     }
   }"

text \<open>The body of a call between \<open>lock\<close> and \<open>unLock\<close>; the error of the body counts before the one of \<open>unLock\<close>.\<close>

definition config_locked :: "(config \<Rightarrow> (lib_error \<times> config) option) \<Rightarrow> config \<Rightarrow> (lib_error \<times> config) option" where
  "config_locked body c =
     (case PMutex_lock (configurationMutex c) of
        (NoError, m) \<Rightarrow> do {
          (e, c1) \<leftarrow> body (c\<lparr>configurationMutex := m\<rparr>);
          (case PMutex_unLock (configurationMutex c1) of
             (NoError, m2) \<Rightarrow> Some (e, c1\<lparr>configurationMutex := m2\<rparr>)
           | (_, m2) \<Rightarrow>
               Some (if e = NoError then PThreadErrors THREADLIB_PMUTEX_UNLOCK_FAILED else e, c1\<lparr>configurationMutex := m2\<rparr>))
        }
      | (_, m) \<Rightarrow> Some (PThreadErrors THREADLIB_PMUTEX_LOCK_FAILED, c\<lparr>configurationMutex := m\<rparr>))"

definition appendCfgSection ::
  "config \<Rightarrow> configuration_section option \<Rightarrow> int \<Rightarrow> int \<Rightarrow> (lib_error \<times> config) option" where
  "appendCfgSection c section k n =
     (if config_unready c then Some (CfgErrors CFG_OPERATIONNOTALLOWED, c)
      else case section of
        None \<Rightarrow> Some (CfgErrors CFG_ACTIVATION_WRONG, c)
      | Some s \<Rightarrow> config_locked (\<lambda>c1. append_section_copy c1 s k n) c)"

definition search_section :: "config \<Rightarrow> string option \<Rightarrow> nat option" where
  "search_section c name =
     (if int (length (pcsCfgSections c)) < lCfgSectionsNumber c then None
      else object_index (\<lambda>s. ConfigurationSection_eq s name) (take (nat (lCfgSectionsNumber c)) (pcsCfgSections c)))"

text \<open>The section at \<open>i\<close> is finished, the last one is copied to its place and finished. When \<open>i\<close> is the last one, source
  and destination of the copy are the same object.\<close>

definition remove_section_at :: "config \<Rightarrow> nat \<Rightarrow> int \<Rightarrow> int \<Rightarrow> (lib_error \<times> config) option" where
  "remove_section_at c i k n = do {
     s \<leftarrow> arr_get (pcsCfgSections c) (int i);
     (e, s1) \<leftarrow> ConfigurationSection_finish s;
     ss1 \<leftarrow> arr_set (pcsCfgSections c) (int i) s1;
     if e \<noteq> NoError then Some (CfgSectionErrors CFG_CONFIGURATIONSECTION_FINISH_FAILED, c\<lparr>pcsCfgSections := ss1\<rparr>)
     else do {
       dst \<leftarrow> arr_get ss1 (int i);
       src \<leftarrow> arr_get ss1 (lCfgSectionsNumber c - 1);
       (e1, dst1) \<leftarrow> ConfigurationSection_copy dst src k n;
       ss2 \<leftarrow> arr_set ss1 (int i) dst1;
       if e1 \<noteq> NoError then Some (CfgSectionErrors CFG_CONFIGURATIONSECTION_COPY_FAILED, c\<lparr>pcsCfgSections := ss2\<rparr>)
       else do {
         last_section \<leftarrow> arr_get ss2 (lCfgSectionsNumber c - 1);
         (e2, last1) \<leftarrow> ConfigurationSection_finish last_section;
         ss3 \<leftarrow> arr_set ss2 (lCfgSectionsNumber c - 1) last1;
         if e2 \<noteq> NoError then Some (CfgSectionErrors CFG_CONFIGURATIONSECTION_FINISH_FAILED, c\<lparr>pcsCfgSections := ss3\<rparr>)
         else Some (NoError, c\<lparr>pcsCfgSections := ss3, lCfgSectionsNumber := lCfgSectionsNumber c - 1\<rparr>)
       }
     }
   }"

definition removeCfgSection :: "config \<Rightarrow> string option \<Rightarrow> int \<Rightarrow> int \<Rightarrow> (lib_error \<times> config) option" where
  "removeCfgSection c name k n =
     (if config_unready c then Some (CfgErrors CFG_OPERATIONNOTALLOWED, c)
      else if name = None then Some (CfgErrors CFG_ACTIVATION_WRONG, c)
      else config_locked (\<lambda>c1. do {
        i \<leftarrow> search_section c1 name;
        if int i = lCfgSectionsNumber c1 then Some (CfgConfigErrors CFG_SECTION_NOTFOUND, c1)
        else remove_section_at c1 i k n
      }) c)"

section \<open>Appending an item and a value\<close>

definition set_section :: "config \<Rightarrow> nat \<Rightarrow> configuration_section \<Rightarrow> config option" where
  "set_section c i s = map_option (\<lambda>ss. c\<lparr>pcsCfgSections := ss\<rparr>) (arr_set (pcsCfgSections c) (int i) s)"

text \<open>A new section gets one item, and is copied to the end of the configuration.\<close>

definition append_section_with ::
  "config \<Rightarrow> configuration_section \<Rightarrow> configuration_item option \<Rightarrow> int \<Rightarrow> int \<Rightarrow> (lib_error \<times> config) option" where
  "append_section_with c s item k n = do {
     (e, s1) \<leftarrow> section_appendCfgItem s item n;
     if e \<noteq> NoError then do {
       _ \<leftarrow> ConfigurationSection_finish s1;
       Some (CfgSectionErrors CFG_CONFIGURATIONSECTION_APPENDCFGITEM_FAILED, c)
     }
     else do {
       (e1, c1) \<leftarrow> appendCfgSection c (Some s1) k n;
       (e2, _) \<leftarrow> ConfigurationSection_finish s1;
       Some (if e1 \<noteq> NoError then CfgSectionErrors CFG_CONFIGURATIONSECTION_APPENDCFGITEM_FAILED
             else if e2 \<noteq> NoError then CfgSectionErrors CFG_CONFIGURATIONSECTION_FINISH_FAILED
             else NoError, c1)
     }
   }"

definition config_appendCfgItem ::
  "config \<Rightarrow> string option \<Rightarrow> configuration_item option \<Rightarrow> int \<Rightarrow> int \<Rightarrow> (lib_error \<times> config) option" where
  "config_appendCfgItem c name item k n =
     (if config_unready c then Some (CfgErrors CFG_OPERATIONNOTALLOWED, c)
      else do {
        i \<leftarrow> search_section c name;
        if int i = lCfgSectionsNumber c
        then (case ConfigurationSection_init ConfigurationSection_ctor name (Some []) None (config_bIsCaseSensitive c) k of
                (NoError, s) \<Rightarrow> append_section_with c s item k n
              | (_, _) \<Rightarrow> Some (CfgSectionErrors CFG_CONFIGURATIONSECTION_INIT_FAILED, c))
        else do {
          s \<leftarrow> arr_get (pcsCfgSections c) (int i);
          (e, s1) \<leftarrow> section_appendCfgItem s item n;
          c1 \<leftarrow> set_section c i s1;
          Some (if e \<noteq> NoError then CfgSectionErrors CFG_CONFIGURATIONSECTION_APPENDCFGITEM_FAILED else NoError, c1)
        }
      })"

text \<open>The local item of one value; \<open>Inl\<close> is the error to return, the item being finished.\<close>

definition item_of_value ::
  "string option \<Rightarrow> string option \<Rightarrow> bool \<Rightarrow> int \<Rightarrow> (lib_error + configuration_item) option" where
  "item_of_value name value bIsCaseSensitive n =
     (case ConfigurationItem_init ConfigurationItem_ctor name (Some []) bIsCaseSensitive n of
        (NoError, it) \<Rightarrow> do {
          (e, it1) \<leftarrow> item_appendItemValue it value;
          if e \<noteq> NoError then do {
            _ \<leftarrow> ConfigurationItem_finish it1;
            Some (Inl (CfgItemErrors CFG_CONFIGURATIONITEM_APPENDITEMVALUE_FAILED))
          }
          else Some (Inr it1)
        }
      | (_, _) \<Rightarrow> Some (Inl (CfgItemErrors CFG_CONFIGURATIONITEM_INIT_FAILED)))"

text \<open>In a section: the value goes to the item of the name, or to a new item of it.\<close>

definition section_append_value ::
  "configuration_section \<Rightarrow> string option \<Rightarrow> string option \<Rightarrow> bool \<Rightarrow> int \<Rightarrow> (lib_error \<times> configuration_section) option" where
  "section_append_value s itemName value bIsCaseSensitive n = do {
     found \<leftarrow> getPtrCfgItemByName s itemName;
     (case found of
        Inl e \<Rightarrow>
          if e \<noteq> CfgSectionErrors CFG_ITEM_NOTFOUND
          then Some (CfgSectionErrors CFG_CONFIGURATIONSECTION_GETPTRCFGITEMBYNAME_FAILED, s)
          else do {
            r \<leftarrow> item_of_value itemName value bIsCaseSensitive n;
            (case r of
               Inl e1 \<Rightarrow> Some (e1, s)
             | Inr it \<Rightarrow> do {
                 (e1, s1) \<leftarrow> section_appendCfgItem s (Some it) n;
                 (e2, _) \<leftarrow> ConfigurationItem_finish it;
                 Some (if e1 \<noteq> NoError then CfgSectionErrors CFG_CONFIGURATIONSECTION_APPENDCFGITEM_FAILED
                       else if e2 \<noteq> NoError then CfgItemErrors CFG_CONFIGURATIONITEM_FINISH_FAILED
                       else NoError, s1)
               })
          }
      | Inr i \<Rightarrow> do {
          it \<leftarrow> arr_get (pciCfgItems s) (int i);
          (e, it1) \<leftarrow> item_appendItemValue it value;
          its \<leftarrow> arr_set (pciCfgItems s) (int i) it1;
          Some (if e \<noteq> NoError then CfgItemErrors CFG_CONFIGURATIONITEM_APPENDITEMVALUE_FAILED else NoError,
                s\<lparr>pciCfgItems := its\<rparr>)
        })
   }"

definition config_appendItemValue ::
  "config \<Rightarrow> string option \<Rightarrow> string option \<Rightarrow> string option \<Rightarrow> int \<Rightarrow> int \<Rightarrow> (lib_error \<times> config) option" where
  "config_appendItemValue c sectionName itemName value k n =
     (if config_unready c then Some (CfgErrors CFG_OPERATIONNOTALLOWED, c)
      else do {
        i \<leftarrow> search_section c sectionName;
        if int i = lCfgSectionsNumber c
        then (case ConfigurationSection_init ConfigurationSection_ctor sectionName (Some []) None
                     (config_bIsCaseSensitive c) k of
                (NoError, s) \<Rightarrow> do {
                  r \<leftarrow> item_of_value itemName value (config_bIsCaseSensitive c) n;
                  (case r of
                     Inl e \<Rightarrow> do { _ \<leftarrow> ConfigurationSection_finish s; Some (e, c) }
                   | Inr it \<Rightarrow> do {
                       (e, c1) \<leftarrow> append_section_with c s (Some it) k n;
                       (e1, _) \<leftarrow> ConfigurationItem_finish it;
                       Some (if e = NoError \<and> e1 \<noteq> NoError then CfgItemErrors CFG_CONFIGURATIONITEM_FINISH_FAILED else e, c1)
                     })
                }
              | (_, _) \<Rightarrow> Some (CfgSectionErrors CFG_CONFIGURATIONSECTION_INIT_FAILED, c))
        else do {
          s \<leftarrow> arr_get (pcsCfgSections c) (int i);
          (e, s1) \<leftarrow> section_append_value s itemName value (config_bIsCaseSensitive c) n;
          c1 \<leftarrow> set_section c i s1;
          Some (e, c1)
        }
      })"

section \<open>Queries\<close>

definition config_getIsCaseSensitive :: "config \<Rightarrow> lib_error + bool" where
  "config_getIsCaseSensitive c =
     (if config_unready c then Inl (CfgErrors CFG_OPERATIONNOTALLOWED) else Inr (config_bIsCaseSensitive c))"

definition getConfigName :: "config \<Rightarrow> (lib_error + string) option" where
  "getConfigName c =
     (if config_unready c then Some (Inl (CfgErrors CFG_OPERATIONNOTALLOWED)) else map_option Inr (pConfigName c))"

definition modifyConfigName :: "config \<Rightarrow> string option \<Rightarrow> (lib_error \<times> config) option" where
  "modifyConfigName c name =
     (if config_unready c then Some (CfgErrors CFG_OPERATIONNOTALLOWED, c)
      else if (case name of None \<Rightarrow> True | Some t \<Rightarrow> CFG_MAXCONFIGNAMELENGTH - 1 < length t)
      then Some (CfgErrors CFG_ACTIVATION_WRONG, c)
      else config_locked (\<lambda>c1. Some (NoError, c1\<lparr>pConfigName := name\<rparr>)) c)"

definition getSectionsNumber :: "config \<Rightarrow> lib_error + int" where
  "getSectionsNumber c =
     (if config_unready c then Inl (CfgErrors CFG_OPERATIONNOTALLOWED) else Inr (lCfgSectionsNumber c))"

definition getCfgSectionByIndex ::
  "config \<Rightarrow> int \<Rightarrow> configuration_section \<Rightarrow> int \<Rightarrow> int \<Rightarrow> (lib_error \<times> configuration_section) option" where
  "getCfgSectionByIndex c i dst k n =
     (if config_unready c then Some (CfgErrors CFG_OPERATIONNOTALLOWED, dst)
      else if i \<ge> lCfgSectionsNumber c then Some (CfgErrors CFG_ACTIVATION_WRONG, dst)
      else do {
        src \<leftarrow> arr_get (pcsCfgSections c) i;
        (e, dst1) \<leftarrow> ConfigurationSection_copy dst src k n;
        Some (if e \<noteq> NoError then CfgSectionErrors CFG_CONFIGURATIONSECTION_COPY_FAILED else NoError, dst1)
      })"

definition getCfgSectionByName ::
  "config \<Rightarrow> string option \<Rightarrow> configuration_section \<Rightarrow> int \<Rightarrow> int \<Rightarrow> (lib_error \<times> configuration_section) option" where
  "getCfgSectionByName c name dst k n =
     (if config_unready c then Some (CfgErrors CFG_OPERATIONNOTALLOWED, dst)
      else do {
        i \<leftarrow> search_section c name;
        if int i < lCfgSectionsNumber c
        then do {
          src \<leftarrow> arr_get (pcsCfgSections c) (int i);
          (e, dst1) \<leftarrow> ConfigurationSection_copy dst src k n;
          Some (if e \<noteq> NoError then CfgSectionErrors CFG_CONFIGURATIONSECTION_COPY_FAILED else NoError, dst1)
        }
        else Some (CfgConfigErrors CFG_SECTION_NOTFOUND, dst)
      })"

text \<open>The overloads that take the section, and the item, by name or by index.\<close>

datatype cfg_key = ByName "string option" | ByIndex int

definition section_of :: "config \<Rightarrow> cfg_key \<Rightarrow> int \<Rightarrow> int \<Rightarrow> (lib_error \<times> configuration_section) option" where
  "section_of c key k n =
     (case key of
        ByName name \<Rightarrow> getCfgSectionByName c name ConfigurationSection_ctor k n
      | ByIndex i \<Rightarrow> getCfgSectionByIndex c i ConfigurationSection_ctor k n)"

definition section_failed :: "cfg_key \<Rightarrow> lib_error" where
  "section_failed key =
     CfgConfigErrors (case key of ByName _ \<Rightarrow> CFG_CONFIG_GETCFGSECTIONBYNAME_FAILED | ByIndex _ \<Rightarrow> CFG_CONFIG_GETCFGSECTIONBYINDEX_FAILED)"

definition item_of :: "configuration_section \<Rightarrow> cfg_key \<Rightarrow> configuration_item \<Rightarrow> int \<Rightarrow> (lib_error \<times> configuration_item) option" where
  "item_of s key dst n =
     (case key of
        ByName name \<Rightarrow> section_getCfgItemByName s name dst n
      | ByIndex i \<Rightarrow> section_getCfgItemByIndex s i dst n)"

definition item_failed :: "cfg_key \<Rightarrow> lib_error" where
  "item_failed key =
     CfgSectionErrors (case key of ByName _ \<Rightarrow> CFG_CONFIGURATIONSECTION_GETCFGITEMBYNAME_FAILED
                                 | ByIndex _ \<Rightarrow> CFG_CONFIGURATIONSECTION_GETCFGITEMBYINDEX_FAILED)"

definition getItemsNumber :: "config \<Rightarrow> cfg_key \<Rightarrow> int \<Rightarrow> int \<Rightarrow> (lib_error + int) option" where
  "getItemsNumber c key k n =
     (if config_unready c then Some (Inl (CfgErrors CFG_OPERATIONNOTALLOWED))
      else do {
        (e, s) \<leftarrow> section_of c key k n;
        if e \<noteq> NoError then Some (Inl (section_failed key))
        else case getCfgItemsNumber s of
          Inl _ \<Rightarrow> Some (Inl (CfgSectionErrors CFG_CONFIGURATIONSECTION_GETCFGITEMSNUMBER_FAILED))
        | Inr m \<Rightarrow> do {
            (e1, _) \<leftarrow> ConfigurationSection_finish s;
            Some (if e1 \<noteq> NoError then Inl (CfgSectionErrors CFG_CONFIGURATIONSECTION_FINISH_FAILED) else Inr m)
          }
      })"

definition config_getCfgItemByIndex ::
  "config \<Rightarrow> cfg_key \<Rightarrow> int \<Rightarrow> configuration_item \<Rightarrow> int \<Rightarrow> int \<Rightarrow> (lib_error \<times> configuration_item) option" where
  "config_getCfgItemByIndex c key i dst k n =
     (if config_unready c then Some (CfgErrors CFG_OPERATIONNOTALLOWED, dst)
      else do {
        (e, s) \<leftarrow> section_of c key k n;
        if e \<noteq> NoError then Some (section_failed key, dst)
        else do {
          (e1, dst1) \<leftarrow> section_getCfgItemByIndex s i dst n;
          (e2, _) \<leftarrow> ConfigurationSection_finish s;
          Some (if e1 \<noteq> NoError then CfgSectionErrors CFG_CONFIGURATIONSECTION_GETCFGITEMBYINDEX_FAILED
                else if e2 \<noteq> NoError then CfgSectionErrors CFG_CONFIGURATIONSECTION_FINISH_FAILED
                else NoError, dst1)
        }
      })"

text \<open>By the name of the section the errors of the calls inside are passed on, by its index they are replaced.\<close>

definition config_getCfgItemByName ::
  "config \<Rightarrow> cfg_key \<Rightarrow> string option \<Rightarrow> configuration_item \<Rightarrow> int \<Rightarrow> int \<Rightarrow> (lib_error \<times> configuration_item) option" where
  "config_getCfgItemByName c key itemName dst k n =
     (if config_unready c then Some (CfgErrors CFG_OPERATIONNOTALLOWED, dst)
      else do {
        (e, s) \<leftarrow> section_of c key k n;
        if e \<noteq> NoError then Some (case key of ByName _ \<Rightarrow> e | ByIndex _ \<Rightarrow> section_failed key, dst)
        else do {
          (e1, dst1) \<leftarrow> section_getCfgItemByName s itemName dst n;
          (e2, _) \<leftarrow> ConfigurationSection_finish s;
          Some (if e1 \<noteq> NoError
                then (case key of ByName _ \<Rightarrow> e1 | ByIndex _ \<Rightarrow> CfgSectionErrors CFG_CONFIGURATIONSECTION_GETCFGITEMBYNAME_FAILED)
                else if e2 \<noteq> NoError then CfgSectionErrors CFG_CONFIGURATIONSECTION_FINISH_FAILED
                else NoError, dst1)
        }
      })"

definition config_getItemValuesNumber ::
  "config \<Rightarrow> cfg_key \<Rightarrow> cfg_key \<Rightarrow> int \<Rightarrow> int \<Rightarrow> (lib_error + int) option" where
  "config_getItemValuesNumber c key ikey k n =
     (if config_unready c then Some (Inl (CfgErrors CFG_OPERATIONNOTALLOWED))
      else do {
        (e, s) \<leftarrow> section_of c key k n;
        if e \<noteq> NoError then Some (Inl (section_failed key))
        else do {
          (e1, it) \<leftarrow> item_of s ikey ConfigurationItem_ctor n;
          if e1 \<noteq> NoError then do { _ \<leftarrow> ConfigurationSection_finish s; Some (Inl (item_failed ikey)) }
          else case item_getItemValuesNumber it of
            Inl _ \<Rightarrow> do {
              _ \<leftarrow> ConfigurationItem_finish it;
              _ \<leftarrow> ConfigurationSection_finish s;
              Some (Inl (CfgItemErrors CFG_CONFIGURATIONITEM_GETITEMVALUESNUMBER_FAILED))
            }
          | Inr m \<Rightarrow> do {
              (e2, _) \<leftarrow> ConfigurationItem_finish it;
              (e3, _) \<leftarrow> ConfigurationSection_finish s;
              Some (if e2 \<noteq> NoError then Inl (CfgItemErrors CFG_CONFIGURATIONITEM_FINISH_FAILED)
                    else if e3 \<noteq> NoError then Inl (CfgSectionErrors CFG_CONFIGURATIONSECTION_FINISH_FAILED)
                    else Inr m)
            }
        }
      })"

text \<open>What \<open>decrypt\<close> makes of a value in a buffer of its own, as in \<open>decrypt_string\<close>.\<close>

definition decrypted_value :: "string \<Rightarrow> (lib_error + string) option" where
  "decrypted_value s = do {
     let m = getDecryptedBufferLength s;
     (r, b) \<leftarrow> decrypt s (fresh_block (m + 1)) (m + 1);
     if r \<noteq> 0 then Some (Inl (CfgErrors CFG_DECRYPT_FAILED)) else do { t \<leftarrow> c_str b; Some (Inr t) }
   }"

definition config_getItemValue ::
  "config \<Rightarrow> string option \<Rightarrow> string option \<Rightarrow> int \<Rightarrow> int \<Rightarrow> security_level \<Rightarrow> int \<Rightarrow> int \<Rightarrow> (lib_error + string) option" where
  "config_getItemValue c sectionName itemName ulMaxItemValueLength lItemValueIndex level k n =
     (if config_unready c then Some (Inl (CfgErrors CFG_OPERATIONNOTALLOWED))
      else do {
        (e, it) \<leftarrow> config_getCfgItemByName c (ByName sectionName) itemName ConfigurationItem_ctor k n;
        if e \<noteq> NoError then Some (Inl e)
        else do {
          r \<leftarrow> item_getItemValue it ulMaxItemValueLength lItemValueIndex;
          (e2, _) \<leftarrow> ConfigurationItem_finish it;
          (case r of
             Inl e1 \<Rightarrow> Some (Inl e1)
           | Inr v \<Rightarrow>
               if e2 \<noteq> NoError then Some (Inl (CfgItemErrors CFG_CONFIGURATIONITEM_FINISH_FAILED))
               else if level = CFG_ENCRIPTION \<and> v \<noteq> [] then decrypted_value v
               else Some (Inr v))
        }
      })"

section \<open>Modifying\<close>

text \<open>A call on the section of a name, and on one of its items; \<open>failing_as\<close> replaces the error of a call.\<close>

definition with_section ::
  "config \<Rightarrow> string option \<Rightarrow> (configuration_section \<Rightarrow> (lib_error \<times> configuration_section) option) \<Rightarrow>
     (lib_error \<times> config) option" where
  "with_section c name f =
     (if config_unready c then Some (CfgErrors CFG_OPERATIONNOTALLOWED, c)
      else do {
        i \<leftarrow> search_section c name;
        if int i = lCfgSectionsNumber c then Some (CfgConfigErrors CFG_SECTION_NOTFOUND, c)
        else do {
          s \<leftarrow> arr_get (pcsCfgSections c) (int i);
          (e, s1) \<leftarrow> f s;
          c1 \<leftarrow> set_section c i s1;
          Some (e, c1)
        }
      })"

definition with_item ::
  "configuration_section \<Rightarrow> string option \<Rightarrow> (configuration_item \<Rightarrow> (lib_error \<times> configuration_item) option) \<Rightarrow>
     (lib_error \<times> configuration_section) option" where
  "with_item s name f = do {
     found \<leftarrow> getPtrCfgItemByName s name;
     (case found of
        Inl _ \<Rightarrow> Some (CfgSectionErrors CFG_CONFIGURATIONSECTION_GETPTRCFGITEMBYNAME_FAILED, s)
      | Inr i \<Rightarrow> do {
          it \<leftarrow> arr_get (pciCfgItems s) (int i);
          (e, it1) \<leftarrow> f it;
          its \<leftarrow> arr_set (pciCfgItems s) (int i) it1;
          Some (e, s\<lparr>pciCfgItems := its\<rparr>)
        })
   }"

definition failing_as :: "lib_error \<Rightarrow> lib_error \<times> 'a \<Rightarrow> lib_error \<times> 'a" where
  "failing_as e r = (if fst r \<noteq> NoError then e else NoError, snd r)"

definition config_modifySectionComment :: "config \<Rightarrow> string option \<Rightarrow> string option \<Rightarrow> (lib_error \<times> config) option" where
  "config_modifySectionComment c name comment =
     with_section c name (\<lambda>s. Some (failing_as
       (CfgSectionErrors CFG_CONFIGURATIONSECTION_MODIFYSECTIONCOMMENT_FAILED) (section_modifySectionComment s comment)))"

definition config_modifySectionDate :: "config \<Rightarrow> string option \<Rightarrow> string option \<Rightarrow> (lib_error \<times> config) option" where
  "config_modifySectionDate c name date =
     with_section c name (\<lambda>s. Some (failing_as
       (CfgSectionErrors CFG_CONFIGURATIONSECTION_MODIFYSECTIONDATE_FAILED) (section_modifySectionDate s date)))"

definition config_modifyItemComment ::
  "config \<Rightarrow> string option \<Rightarrow> string option \<Rightarrow> string option \<Rightarrow> (lib_error \<times> config) option" where
  "config_modifyItemComment c name itemName comment =
     with_section c name (\<lambda>s. with_item s itemName (\<lambda>it. Some (failing_as
       (CfgItemErrors CFG_CONFIGURATIONITEM_MODIFYITEMCOMMENT_FAILED) (item_modifyItemComment it comment))))"

text \<open>With encryption the new value must not be a null pointer.\<close>

definition encrypted_value :: "string \<Rightarrow> (lib_error + string) option" where
  "encrypted_value s = do {
     let m = getCryptedBufferLength s;
     (r, b) \<leftarrow> encrypt s (fresh_block (m + 1)) (m + 1);
     if r \<noteq> 0 then Some (Inl (CfgErrors CFG_ENCRYPT_FAILED)) else do { t \<leftarrow> c_str b; Some (Inr t) }
   }"

definition store_value ::
  "configuration_item \<Rightarrow> string option \<Rightarrow> int \<Rightarrow> security_level \<Rightarrow> (lib_error \<times> configuration_item) option" where
  "store_value it value i level =
     (if level = CFG_ENCRIPTION
      then do {
        v \<leftarrow> value;
        r \<leftarrow> encrypted_value v;
        (case r of
           Inl e \<Rightarrow> Some (e, it)
         | Inr t \<Rightarrow> map_option (failing_as (CfgItemErrors CFG_CONFIGURATIONITEM_MODIFYITEMVALUE_FAILED))
                      (item_modifyItemValue it (Some t) i))
      }
      else map_option (failing_as (CfgItemErrors CFG_CONFIGURATIONITEM_MODIFYITEMVALUE_FAILED))
             (item_modifyItemValue it value i))"

definition config_modifyItemValue ::
  "config \<Rightarrow> string option \<Rightarrow> string option \<Rightarrow> string option \<Rightarrow> int \<Rightarrow> security_level \<Rightarrow> (lib_error \<times> config) option" where
  "config_modifyItemValue c name itemName value i level =
     with_section c name (\<lambda>s. with_item s itemName (\<lambda>it. store_value it value i level))"

section \<open>Copy\<close>

definition failed_config_copy :: "lib_error \<Rightarrow> config \<Rightarrow> (lib_error \<times> config) option" where
  "failed_config_copy e dst = do { (_, dst1) \<leftarrow> Config_finish dst; Some (e, dst1) }"

fun copy_config_sections ::
  "nat \<Rightarrow> int \<Rightarrow> configuration_section \<Rightarrow> config \<Rightarrow> config \<Rightarrow> int \<Rightarrow> int \<Rightarrow> (lib_error \<times> config) option" where
  "copy_config_sections 0 i cs dst src k n = Some (NoError, dst)"
| "copy_config_sections (Suc j) i cs dst src k n = do {
     (e, cs1) \<leftarrow> getCfgSectionByIndex src i cs k n;
     if e \<noteq> NoError then failed_config_copy (CfgConfigErrors CFG_CONFIG_GETCFGSECTIONBYINDEX_FAILED) dst
     else do {
       (e1, dst1) \<leftarrow> appendCfgSection dst (Some cs1) k n;
       (e2, cs2) \<leftarrow> ConfigurationSection_finish cs1;
       if e1 \<noteq> NoError then failed_config_copy (CfgConfigErrors CFG_CONFIG_APPENDCFGSECTION_FAILED) dst1
       else if e2 \<noteq> NoError then failed_config_copy (CfgSectionErrors CFG_CONFIGURATIONSECTION_FINISH_FAILED) dst1
       else copy_config_sections j (i + 1) cs2 dst1 src k n
     }
   }"

definition Config_copy :: "config \<Rightarrow> config \<Rightarrow> int \<Rightarrow> int \<Rightarrow> int \<Rightarrow> (lib_error \<times> config) option" where
  "Config_copy dst src m k n =
     (if stCfgStatus src \<noteq> CFG_INITIALIZED \<or> stCfgStatus dst \<noteq> CFG_BUILDED
      then Some (CfgErrors CFG_OPERATIONNOTALLOWED, dst)
      else
        or_return (Some (config_getIsCaseSensitive src)) (CfgConfigErrors CFG_CONFIG_GETISCASESENSITIVE_FAILED, dst) (\<lambda>bIsCaseSensitive.
        or_return (getConfigName src) (CfgConfigErrors CFG_CONFIG_GETCONFIGNAME_FAILED, dst) (\<lambda>name.
          (case Config_init dst (Some name) bIsCaseSensitive m of
             (NoError, dst1) \<Rightarrow>
               (case getSectionsNumber src of
                  Inl _ \<Rightarrow> failed_config_copy (CfgConfigErrors CFG_CONFIG_GETSECTIONSNUMBER_FAILED) dst1
                | Inr sections \<Rightarrow> copy_config_sections (nat sections) 0 ConfigurationSection_ctor dst1 src k n)
           | (_, dst1) \<Rightarrow> Some (CfgConfigErrors CFG_CONFIG_INIT_FAILED, dst1)))))"

text \<open>The method finishes the object and copies another one into it.\<close>

definition Config_copy_from :: "config \<Rightarrow> config \<Rightarrow> int \<Rightarrow> int \<Rightarrow> int \<Rightarrow> (lib_error \<times> config) option" where
  "Config_copy_from c src m k n =
     (if config_unready c then Some (CfgErrors CFG_OPERATIONNOTALLOWED, c)
      else do {
        (e, c1) \<leftarrow> Config_finish c;
        if e \<noteq> NoError then Some (CfgConfigErrors CFG_CONFIG_FINISH_FAILED, c1)
        else do {
          (e1, c2) \<leftarrow> Config_copy c1 src m k n;
          Some (if e1 \<noteq> NoError then CfgConfigErrors CFG_CONFIG_COPY_FAILED else NoError, c2)
        }
      })"

end
