(* ===== verification/CfgItemSpec.thy ===== *)
theory CfgItemSpec
  imports CfgItem
begin

text \<open>
  The item as the list of its values: the invariant \<open>item_wf\<close>, the abstraction \<open>item_text\<close>, and the effect of the calls on it.
\<close>

named_theorems cfg_simps \<open>evaluation of the configuration classes on well formed objects\<close>

section \<open>The abstract item\<close>

record item_text =
  it_name :: string
  it_comment :: string
  it_case :: bool
  it_values :: "string list"

definition item_values :: "configuration_item \<Rightarrow> string list" where
  "item_values it = map the (take (nat (lValuesNumber it)) (pValues it))"

definition item_abs :: "configuration_item \<Rightarrow> item_text" where
  "item_abs it = \<lparr>it_name = the (pItemName it), it_comment = the (pItemComment it),
     it_case = item_bIsCaseSensitive it, it_values = item_values it\<rparr>"

definition item_wf :: "configuration_item \<Rightarrow> bool" where
  "item_wf it \<longleftrightarrow>
     stCfgItemStatus it = CFGITEM_INITIALIZED \<and> pItemName it \<noteq> None \<and> pItemComment it \<noteq> None \<and>
     1 \<le> lBufferToAllocOnOverflow it \<and> configurationItemMutex it = Some 0 \<and>
     lAllocatedBuffersNumber it = int (length (pValues it)) \<and>
     0 \<le> lValuesNumber it \<and> lValuesNumber it \<le> int (length (pValues it)) \<and>
     None \<notin> set (take (nat (lValuesNumber it)) (pValues it))"

text \<open>An object that was constructed or finished.\<close>

definition item_built :: "configuration_item \<Rightarrow> bool" where
  "item_built it \<longleftrightarrow> stCfgItemStatus it = CFGITEM_BUILDED \<and> configurationItemMutex it = None"

text \<open>The item in the form the proofs use.\<close>

lemma item_values_used:
  "0 \<le> n \<and> n \<le> int (length xs) \<and> None \<notin> set (take (nat n) xs) \<longleftrightarrow>
     (\<exists>vs r. xs = map Some vs @ r \<and> n = int (length vs))"
proof -
  have "None \<notin> set ys \<Longrightarrow> ys = map Some (map the ys)" for ys :: "'a option list"
    by (induction ys) auto
  then have "None \<notin> set ys \<longleftrightarrow> (\<exists>vs. ys = map Some vs)" for ys :: "'a option list"
    by (metis ex_map_conv option.distinct(1))
  then show ?thesis
    using used_entries [of n xs "\<lambda>ys. None \<notin> set ys" "\<lambda>_. True"] by auto
qed

lemma item_wf_obtain:
  assumes "item_wf it"
  obtains vs r nm cm where "pValues it = map Some vs @ r" "lValuesNumber it = int (length vs)"
    "item_values it = vs" "pItemName it = Some nm" "pItemComment it = Some cm"
    "stCfgItemStatus it = CFGITEM_INITIALIZED" "configurationItemMutex it = Some 0"
    "lAllocatedBuffersNumber it = int (length vs + length r)" "1 \<le> lBufferToAllocOnOverflow it"
  using assms by (fastforce simp: item_wf_def item_values_used item_values_def comp_def)

lemma item_wf_intro:
  assumes "pValues it = map Some vs @ r" "lValuesNumber it = int (length vs)" "pItemName it \<noteq> None"
    "pItemComment it \<noteq> None" "stCfgItemStatus it = CFGITEM_INITIALIZED" "configurationItemMutex it = Some 0"
    "lAllocatedBuffersNumber it = int (length vs + length r)" "1 \<le> lBufferToAllocOnOverflow it"
  shows "item_wf it" "item_values it = vs"
  using assms by (auto simp: item_wf_def item_values_used item_values_def comp_def)

lemma item_ctor_built [simp]: "item_built ConfigurationItem_ctor"
  by (simp add: item_built_def ConfigurationItem_ctor_def)

lemma ConfigurationItem_init_ok:
  assumes "item_built it" "1 \<le> n"
  shows "\<exists>it'. ConfigurationItem_init it (Some nm) (Some cm) cs n = (NoError, it') \<and> item_wf it' \<and>
           item_abs it' = \<lparr>it_name = nm, it_comment = cm, it_case = cs, it_values = []\<rparr>"
  using assms
  by (auto simp: ConfigurationItem_init_def item_built_def PMutex_init_def item_wf_def item_abs_def item_values_def
      intro!: exI [of _ "[]"])

lemma ConfigurationItem_finish_ok:
  assumes "item_wf it"
  shows "\<exists>it'. ConfigurationItem_finish it = Some (NoError, it') \<and> item_built it'"
  using assms by (elim item_wf_obtain) (auto simp: ConfigurationItem_finish_def item_built_def PMutex_finish_def)

lemma item_ready [cfg_simps]: "item_wf it \<Longrightarrow> stCfgItemStatus it = CFGITEM_INITIALIZED"
  by (simp add: item_wf_def)

lemma item_getters [cfg_simps]:
  assumes "item_wf it"
  shows "item_getIsCaseSensitive it = Inr (it_case (item_abs it))"
    "getItemName it = Some (Inr (it_name (item_abs it)))"
    "getItemNameLength it = Some (Inr (int (length (it_name (item_abs it)))))"
    "getItemComment it = Some (Inr (it_comment (item_abs it)))"
    "getItemCommentLength it = Some (Inr (int (length (it_comment (item_abs it)))))"
    "item_getItemValuesNumber it = Inr (int (length (it_values (item_abs it))))"
  using assms
  by (elim item_wf_obtain, simp add: item_getIsCaseSensitive_def getItemName_def getItemNameLength_def getItemComment_def
      getItemCommentLength_def item_getItemValuesNumber_def item_abs_def)+

lemma ConfigurationItem_eq_ok [cfg_simps]:
  "item_wf it \<Longrightarrow> ConfigurationItem_eq it (Some nm) =
     Some (names_equal (it_case (item_abs it)) (it_name (item_abs it)) nm)"
  by (elim item_wf_obtain) (simp add: ConfigurationItem_eq_def item_abs_def)

section \<open>Values\<close>

lemma item_getItemValue_ok:
  assumes "item_wf it" "0 \<le> i"
  shows "item_getItemValue it m i = Some
    (if i \<ge> int (length (it_values (item_abs it))) then Inl (CfgErrors CFG_ACTIVATION_WRONG)
     else if int (length (it_values (item_abs it) ! nat i)) \<ge> m
     then Inl (CfgItemErrors CFG_CONFIGURATIONITEM_BUFFERTOOSHORT) else Inr (it_values (item_abs it) ! nat i))"
  using assms
  by (elim item_wf_obtain) (auto simp: item_getItemValue_def item_abs_def arr_get_def nth_append)

lemma getItemValueLength_ok:
  assumes "item_wf it" "i < length (it_values (item_abs it))"
  shows "getItemValueLength it (int i) = Some (Inr (int (length (it_values (item_abs it) ! i))))"
  using assms
  by (elim item_wf_obtain) (auto simp: getItemValueLength_def item_abs_def nth_append)

text \<open>The values are read up to the end the caller checks, but not from the other end.\<close>

lemma item_getItemValue_negative:
  assumes "item_wf it" "i < 0"
  shows "item_getItemValue it m i = None"
  using assms by (elim item_wf_obtain) (auto simp: item_getItemValue_def)

lemma copied_values_ok:
  "k \<le> length vs \<Longrightarrow> k \<le> length new \<Longrightarrow>
     copied_values k (map Some vs @ r) new = Some (map Some (take k vs) @ drop k new)"
proof (induction k)
  case (Suc k)
  then have k: "k < length vs" "k < length new" by simp_all
  have "arr_get (map Some vs @ r) (int k) = Some (Some (vs ! k))"
    using k by (simp add: nth_append)
  moreover have "arr_set (map Some (take k vs) @ drop k new) (int k) (Some (vs ! k)) =
      Some (map Some (take (Suc k) vs) @ drop (Suc k) new)"
    using k by (simp add: list_update_append take_Suc_conv_app_nth drop_Suc nth_drop Cons_nth_drop_Suc [symmetric])
  ultimately show ?case using Suc k by simp
qed simp

lemma grow_values_ok:
  assumes "pValues it = map Some vs @ r" "lValuesNumber it = int (length vs)"
    "lAllocatedBuffersNumber it = int (length vs + length r)" "1 \<le> lBufferToAllocOnOverflow it"
  shows "\<exists>x r'. grow_values it = Some (it\<lparr>lAllocatedBuffersNumber := int (length vs + length (x # r')),
    pValues := map Some vs @ x # r'\<rparr>)"
proof (cases r)
  case Nil
  define n where "n = nat (int (length vs) + lBufferToAllocOnOverflow it)"
  have n: "length vs < n" "int n = int (length vs) + lBufferToAllocOnOverflow it" using assms by (auto simp: n_def)
  define new where "new = replicate n (None :: string option)"
  have "drop (length vs) new \<noteq> []" using n by (simp add: new_def)
  then obtain x r' where d: "drop (length vs) new = x # r'" by (cases "drop (length vs) new") auto
  then have "length new = length vs + length (x # r')" by (metis append_take_drop_id length_append length_take min.absorb2 n(1) new_def length_replicate less_imp_le)
  then have "int (length vs) + lBufferToAllocOnOverflow it = int (length vs + length (x # r'))"
    using n by (simp add: new_def)
  moreover have "copied_values (length vs) (map Some vs @ r) new = Some (map Some vs @ x # r')"
    using copied_values_ok [of "length vs" vs new r] n d by (simp add: new_def)
  ultimately show ?thesis
    using assms Nil n by (intro exI [of _ x] exI [of _ r']) (simp add: grow_values_def new_def n_def)
next
  case (Cons x r')
  then show ?thesis
    using assms by (intro exI [of _ x] exI [of _ r']) (simp add: grow_values_def)
qed

lemma shift_values_ok:
  "i \<le> length vs \<Longrightarrow>
     shift_values (int (length vs) - 1) (int i) (map Some vs @ x # r) =
     Some (int i - 1, map Some (take i vs) @ (if i = length vs then x else None) # map Some (drop i vs) @ r)"
proof (induction vs arbitrary: x r rule: rev_induct)
  case Nil
  then show ?case by (simp add: shift_values.simps)
next
  case (snoc v vs)
  show ?case
  proof (cases "i = length (vs @ [v])")
    case True
    then show ?thesis by (simp add: shift_values.simps)
  next
    case False
    then have i: "i \<le> length vs" using snoc.prems by simp
    have "shift_values (int (length (vs @ [v])) - 1) (int i) (map Some (vs @ [v]) @ x # r) =
        shift_values (int (length vs) - 1) (int i) (map Some vs @ None # Some v # r)"
      using i by (subst shift_values.simps) (simp add: arr_set_def list_update_append nth_append nat_add_distrib)
    then show ?thesis using snoc.IH [OF i, of None "Some v # r"] i by simp
  qed
qed

lemma shift_values_beyond:
  "i < idx \<Longrightarrow> shift_values i idx vs = Some (i, vs)"
  by (simp add: shift_values.simps)

lemma insertItemValue_ok:
  assumes "item_wf it" "0 \<le> i"
  shows "\<exists>it'. insertItemValue it (Some v) i = Some (NoError, it') \<and> item_wf it' \<and>
    item_abs it' = item_abs it\<lparr>it_values := take (nat i) (it_values (item_abs it)) @ v # drop (nat i) (it_values (item_abs it))\<rparr>"
proof -
  obtain vs r nm cm where it: "pValues it = map Some vs @ r" "lValuesNumber it = int (length vs)"
    "item_values it = vs" "pItemName it = Some nm" "pItemComment it = Some cm"
    "stCfgItemStatus it = CFGITEM_INITIALIZED" "configurationItemMutex it = Some 0"
    "lAllocatedBuffersNumber it = int (length vs + length r)" "1 \<le> lBufferToAllocOnOverflow it"
    using item_wf_obtain [OF assms(1)] .
  let ?it1 = "it\<lparr>configurationItemMutex := Some 1\<rparr>"
  obtain x r' where g: "grow_values ?it1 = Some (?it1\<lparr>lAllocatedBuffersNumber := int (length vs + length (x # r')),
      pValues := map Some vs @ x # r'\<rparr>)"
    using grow_values_ok [of ?it1 vs r] it by auto
  define j where "j = min (nat i) (length vs)"
  have sh: "shift_values (int (length vs) - 1) i (map Some vs @ x # r') =
      Some (int j - 1, map Some (take j vs) @ (if j = length vs then x else None) # map Some (drop j vs) @ r')"
  proof (cases "i \<le> int (length vs)")
    case True
    then have "i = int j" using assms(2) by (simp add: j_def)
    then show ?thesis using shift_values_ok [of j vs x r'] by (simp add: j_def)
  next
    case False
    then show ?thesis using shift_values_beyond [of "int (length vs) - 1" i] by (simp add: j_def)
  qed
  have j: "length (map Some (take j vs)) = j" "take j vs = take (nat i) vs" "drop j vs = drop (nat i) vs"
    by (auto simp: j_def min_def)
  define it' where "it' = it\<lparr>lAllocatedBuffersNumber := int (length vs + length (x # r')),
      pValues := map Some (take j vs @ v # drop j vs) @ r', lValuesNumber := int (Suc (length vs))\<rparr>"
  have "insertItemValue it (Some v) i = Some (NoError, it')"
    using it g sh arr_set_append [OF j(1), of "if j = length vs then x else None" "map Some (drop j vs) @ r'" "Some v"]
    by (simp add: insertItemValue_def it'_def)
  moreover have len: "length (take j vs @ v # drop j vs) = Suc (length vs)" by (simp add: j_def)
  have "item_wf it'" "item_values it' = take j vs @ v # drop j vs"
    by (rule item_wf_intro [of it' "take j vs @ v # drop j vs" r']; use it len in \<open>simp add: it'_def\<close>)+
  ultimately show ?thesis using it j by (auto simp: it'_def item_abs_def)
qed

lemma item_appendItemValue_ok:
  assumes "item_wf it"
  shows "\<exists>it'. item_appendItemValue it (Some v) = Some (NoError, it') \<and> item_wf it' \<and>
    item_abs it' = item_abs it\<lparr>it_values := it_values (item_abs it) @ [v]\<rparr>"
proof -
  have n: "0 \<le> lValuesNumber it" "nat (lValuesNumber it) = length (it_values (item_abs it))"
    using assms by (auto elim!: item_wf_obtain simp: item_abs_def)
  show ?thesis using insertItemValue_ok [OF assms n(1), of v] n(2) by (simp add: item_appendItemValue_def)
qed

lemma item_modifyItemValue_ok:
  assumes "item_wf it" "i < length (it_values (item_abs it))"
  shows "\<exists>it'. item_modifyItemValue it (Some v) (int i) = Some (NoError, it') \<and> item_wf it' \<and>
    item_abs it' = item_abs it\<lparr>it_values := (it_values (item_abs it))[i := v]\<rparr>"
proof -
  obtain vs r nm cm where it: "pValues it = map Some vs @ r" "lValuesNumber it = int (length vs)"
    "item_values it = vs" "pItemName it = Some nm" "pItemComment it = Some cm"
    "stCfgItemStatus it = CFGITEM_INITIALIZED" "configurationItemMutex it = Some 0"
    "lAllocatedBuffersNumber it = int (length vs + length r)" "1 \<le> lBufferToAllocOnOverflow it"
    using item_wf_obtain [OF assms(1)] .
  then have i: "i < length vs" using assms(2) by (simp add: item_abs_def)
  define it' where "it' = it\<lparr>pValues := map Some (vs[i := v]) @ r, configurationItemMutex := Some 0\<rparr>"
  have "item_modifyItemValue it (Some v) (int i) = Some (NoError, it')"
    using it i by (simp add: item_modifyItemValue_def it'_def list_update_append map_update)
  moreover have "item_wf it'" "item_values it' = vs[i := v]"
    by (rule item_wf_intro [of it' "vs[i := v]" r]; use it in \<open>simp add: it'_def\<close>)+
  ultimately show ?thesis using it by (auto simp: it'_def item_abs_def)
qed

lemma item_modifyItemComment_ok:
  assumes "item_wf it"
  shows "\<exists>it'. item_modifyItemComment it (Some cm) = (NoError, it') \<and> item_wf it' \<and>
    item_abs it' = item_abs it\<lparr>it_comment := cm\<rparr>"
  using assms
  by (elim item_wf_obtain)
    (auto simp: item_modifyItemComment_def item_wf_def item_abs_def item_values_def)

lemma modifyItemName_ok:
  assumes "item_wf it"
  shows "\<exists>it'. modifyItemName it (Some nm) = (NoError, it') \<and> item_wf it' \<and>
    item_abs it' = item_abs it\<lparr>it_name := nm\<rparr>"
  using assms
  by (elim item_wf_obtain)
    (auto simp: modifyItemName_def item_wf_def item_abs_def item_values_def)

section \<open>Copy\<close>

lemma copy_item_values_ok:
  assumes "item_wf src" "item_wf dst" "i + k = length (it_values (item_abs src))"
  shows "\<exists>dst'. copy_item_values k (int i) dst src = Some (NoError, dst') \<and> item_wf dst' \<and>
    item_abs dst' = item_abs dst\<lparr>it_values := it_values (item_abs dst) @ drop i (it_values (item_abs src))\<rparr>"
  using assms(2,3)
proof (induction k arbitrary: i dst)
  case 0
  then show ?case by simp
next
  case (Suc k)
  let ?vs = "it_values (item_abs src)"
  have i: "i < length ?vs" using Suc.prems by simp
  obtain dst1 where d1: "item_appendItemValue dst (Some (?vs ! i)) = Some (NoError, dst1)" "item_wf dst1"
      "item_abs dst1 = item_abs dst\<lparr>it_values := it_values (item_abs dst) @ [?vs ! i]\<rparr>"
    using item_appendItemValue_ok [OF Suc.prems(1)] by blast
  obtain dst2 where d2: "copy_item_values k (int (Suc i)) dst1 src = Some (NoError, dst2)" "item_wf dst2"
      "item_abs dst2 = item_abs dst1\<lparr>it_values := it_values (item_abs dst1) @ drop (Suc i) ?vs\<rparr>"
    using Suc.IH [OF d1(2), of "Suc i"] Suc.prems(2) by auto
  have "copy_item_values (Suc k) (int i) dst src = Some (NoError, dst2)"
    using d1 d2(1) i item_getItemValue_ok [OF assms(1), of "int i"] getItemValueLength_ok [OF assms(1) i]
    by (simp add: add.commute)
  then show ?case using d1 d2 i by (simp add: Cons_nth_drop_Suc)
qed

lemma ConfigurationItem_copy_ok:
  assumes "item_built dst" "item_wf src" "1 \<le> n"
  shows "\<exists>dst'. ConfigurationItem_copy dst src n = Some (NoError, dst') \<and> item_wf dst' \<and> item_abs dst' = item_abs src"
proof -
  let ?a = "item_abs src"
  obtain d1 where d1: "ConfigurationItem_init dst (Some (it_name ?a)) (Some (it_comment ?a)) (it_case ?a) n = (NoError, d1)"
      "item_wf d1" "item_abs d1 = \<lparr>it_name = it_name ?a, it_comment = it_comment ?a, it_case = it_case ?a, it_values = []\<rparr>"
    using ConfigurationItem_init_ok [OF assms(1,3)] by blast
  obtain d2 where "copy_item_values (length (it_values ?a)) 0 d1 src = Some (NoError, d2)" "item_wf d2"
      "item_abs d2 = item_abs d1\<lparr>it_values := it_values (item_abs d1) @ it_values ?a\<rparr>"
    using copy_item_values_ok [OF assms(2) d1(2), of 0 "length (it_values ?a)"] by auto
  then show ?thesis
    using d1 assms(1) item_getters [OF assms(2)] item_ready [OF assms(2)]
    by (simp add: ConfigurationItem_copy_def item_built_def)
qed

interpretation item_objects: object_class "\<lambda>n. 1 \<le> n" "\<lambda>n d s. ConfigurationItem_copy d s n" ConfigurationItem_finish
  ConfigurationItem_dtor item_built item_wf item_abs
proof
  show "\<exists>s'. ConfigurationItem_dtor s = Some s'" if "item_built s" for s
    using that by (simp add: ConfigurationItem_dtor_def item_built_def)
qed (use ConfigurationItem_copy_ok ConfigurationItem_finish_ok in blast)+

end
