(* ===== verification/CfgSectionSpec.thy ===== *)
theory CfgSectionSpec
  imports CfgSection CfgItemSpec
begin

text \<open>
  The section as the list of its items: the invariant \<open>section_wf\<close>, the abstraction \<open>section_abs\<close>, and the effect of the calls on it.
\<close>

record section_text =
  se_name :: string
  se_comment :: string
  se_date :: "string option"
  se_case :: bool
  se_items :: "item_text list"

definition section_items :: "configuration_section \<Rightarrow> configuration_item list" where
  "section_items s = take (nat (lCfgItemsNumber s)) (pciCfgItems s)"

definition section_abs :: "configuration_section \<Rightarrow> section_text" where
  "section_abs s = \<lparr>se_name = the (pSectionName s), se_comment = the (pSectionComment s), se_date = pSectionDate s,
     se_case = section_bIsCaseSensitive s, se_items = map item_abs (section_items s)\<rparr>"

definition section_wf :: "configuration_section \<Rightarrow> bool" where
  "section_wf s \<longleftrightarrow>
     stCfgSectionStatus s = CFGSECTION_INITIALIZED \<and> pSectionName s \<noteq> None \<and> pSectionComment s \<noteq> None \<and>
     (pSectionDate s \<noteq> None \<longrightarrow> isValidDate (pSectionDate s)) \<and>
     1 \<le> lCfgItemsToAllocOnOverflow s \<and> configurationSectionMutex s = Some 0 \<and>
     lAllocatedCfgItemNumber s = int (length (pciCfgItems s)) \<and>
     0 \<le> lCfgItemsNumber s \<and> lCfgItemsNumber s \<le> int (length (pciCfgItems s)) \<and>
     list_all item_wf (take (nat (lCfgItemsNumber s)) (pciCfgItems s)) \<and> list_all item_built (drop (nat (lCfgItemsNumber s)) (pciCfgItems s))"

definition section_built :: "configuration_section \<Rightarrow> bool" where
  "section_built s \<longleftrightarrow> stCfgSectionStatus s = CFGSECTION_BUILDED \<and> configurationSectionMutex s = None"

lemma section_wf_obtain:
  assumes "section_wf s"
  obtains its r nm cm where "pciCfgItems s = its @ r" "lCfgItemsNumber s = int (length its)" "section_items s = its"
    "list_all item_wf its" "list_all item_built r" "pSectionName s = Some nm" "pSectionComment s = Some cm"
    "stCfgSectionStatus s = CFGSECTION_INITIALIZED" "configurationSectionMutex s = Some 0"
    "lAllocatedCfgItemNumber s = int (length its + length r)" "1 \<le> lCfgItemsToAllocOnOverflow s"
    "pSectionDate s \<noteq> None \<longrightarrow> isValidDate (pSectionDate s)"
  using assms by (fastforce simp: section_wf_def used_entries section_items_def)

lemma section_wf_intro:
  assumes "pciCfgItems s = its @ r" "lCfgItemsNumber s = int (length its)"
    "list_all item_wf its" "list_all item_built r" "pSectionName s \<noteq> None" "pSectionComment s \<noteq> None"
    "stCfgSectionStatus s = CFGSECTION_INITIALIZED" "configurationSectionMutex s = Some 0"
    "lAllocatedCfgItemNumber s = int (length its + length r)" "1 \<le> lCfgItemsToAllocOnOverflow s"
    "pSectionDate s \<noteq> None \<longrightarrow> isValidDate (pSectionDate s)"
  shows "section_wf s" "section_items s = its"
  using assms by (auto simp: section_wf_def used_entries section_items_def)

lemma section_ctor_built [simp]: "section_built ConfigurationSection_ctor"
  by (simp add: section_built_def ConfigurationSection_ctor_def)

lemma ConfigurationSection_init_ok:
  assumes "section_built s" "1 \<le> n" "date \<noteq> None \<longrightarrow> isValidDate date"
  shows "\<exists>s'. ConfigurationSection_init s (Some nm) (Some cm) date cs n = (NoError, s') \<and> section_wf s' \<and>
           section_abs s' = \<lparr>se_name = nm, se_comment = cm, se_date = date, se_case = cs, se_items = []\<rparr>"
proof -
  define s' where "s' = s\<lparr>section_bIsCaseSensitive := cs, lCfgItemsToAllocOnOverflow := n,
    lCfgItemsNumber := 0, lAllocatedCfgItemNumber := n, configurationSectionMutex := Some 0, pSectionName := Some nm,
    pSectionComment := Some cm, pSectionDate := date, pciCfgItems := replicate (nat n) ConfigurationItem_ctor,
    stCfgSectionStatus := CFGSECTION_INITIALIZED\<rparr>"
  have "ConfigurationSection_init s (Some nm) (Some cm) date cs n = (NoError, s')"
    using assms by (auto simp: ConfigurationSection_init_def section_built_def PMutex_init_def s'_def)
  moreover have "section_wf s'" "section_items s' = []"
    by (rule section_wf_intro [of s' "[]" "replicate (nat n) ConfigurationItem_ctor"];
        use assms in \<open>simp add: s'_def list_all_iff\<close>)+
  ultimately show ?thesis by (auto simp: section_abs_def s'_def)
qed

lemma section_ready [cfg_simps]: "section_wf s \<Longrightarrow> stCfgSectionStatus s = CFGSECTION_INITIALIZED"
  by (simp add: section_wf_def)

lemma ConfigurationSection_finish_ok:
  assumes "section_wf s"
  shows "\<exists>s'. ConfigurationSection_finish s = Some (NoError, s') \<and> section_built s'"
proof -
  obtain its r nm cm where s: "pciCfgItems s = its @ r" "lCfgItemsNumber s = int (length its)" "list_all item_wf its"
      "list_all item_built r" "stCfgSectionStatus s = CFGSECTION_INITIALIZED" "configurationSectionMutex s = Some 0"
    using section_wf_obtain [OF assms] by metis
  obtain ys where "finish_objects ConfigurationItem_finish its = Some (replicate (length its) NoError, ys)" "list_all item_built ys"
    using item_objects.finish_all_ok [OF s(3)] by blast
  then show ?thesis
    using s item_objects.destroy_all_ok [of "ys @ r"]
    by (simp add: ConfigurationSection_finish_def section_built_def PMutex_finish_def)
qed

lemma section_getters [cfg_simps]:
  assumes "section_wf s"
  shows "section_getIsCaseSensitive s = Inr (se_case (section_abs s))"
    "getSectionName s = Some (Inr (se_name (section_abs s)))"
    "getSectionNameLength s = Some (Inr (int (length (se_name (section_abs s)))))"
    "getSectionComment s = Some (Inr (se_comment (section_abs s)))"
    "getSectionCommentLength s = Some (Inr (int (length (se_comment (section_abs s)))))"
    "getSectionDate s = (case se_date (section_abs s) of
        None \<Rightarrow> Inl (CfgSectionErrors CFG_CONFIGURATIONSECTIONDATE_NOTFOUND) | Some d \<Rightarrow> Inr d)"
    "getCfgItemsNumber s = Inr (int (length (se_items (section_abs s))))"
  using assms
  by (elim section_wf_obtain, simp add: section_getIsCaseSensitive_def getSectionName_def getSectionNameLength_def
      getSectionComment_def getSectionCommentLength_def getSectionDate_def getCfgItemsNumber_def section_abs_def)+

lemma ConfigurationSection_eq_ok [cfg_simps]:
  "section_wf s \<Longrightarrow> ConfigurationSection_eq s (Some nm) =
     Some (names_equal (se_case (section_abs s)) (se_name (section_abs s)) nm)"
  by (elim section_wf_obtain) (simp add: ConfigurationSection_eq_def section_abs_def)

section \<open>Name, comment and date\<close>

lemma modifySectionName_ok:
  assumes "section_wf s"
  shows "\<exists>s'. modifySectionName s (Some nm) = (NoError, s') \<and> section_wf s' \<and> section_abs s' = section_abs s\<lparr>se_name := nm\<rparr>"
  using assms
  by (elim section_wf_obtain)
    (auto simp: modifySectionName_def section_locked_def section_wf_def section_abs_def section_items_def)

lemma section_modifySectionComment_ok:
  assumes "section_wf s"
  shows "\<exists>s'. section_modifySectionComment s (Some cm) = (NoError, s') \<and> section_wf s' \<and>
    section_abs s' = section_abs s\<lparr>se_comment := cm\<rparr>"
  using assms
  by (elim section_wf_obtain)
    (auto simp: section_modifySectionComment_def section_locked_def section_wf_def section_abs_def section_items_def)

lemma section_modifySectionDate_ok:
  assumes "section_wf s"
  shows "\<exists>s'. section_modifySectionDate s date =
      (if date = None \<or> isValidDate date then NoError else CfgErrors CFG_ACTIVATION_WRONG, s') \<and> section_wf s' \<and>
    section_abs s' = (if date = None \<or> isValidDate date then section_abs s\<lparr>se_date := date\<rparr> else section_abs s)"
  using assms
  by (elim section_wf_obtain)
    (auto simp: section_modifySectionDate_def section_locked_def section_wf_def section_abs_def section_items_def)

section \<open>Items\<close>

lemma grow_items_ok:
  assumes "pciCfgItems s = its @ r" "lCfgItemsNumber s = int (length its)" "list_all item_wf its" "list_all item_built r"
    "lAllocatedCfgItemNumber s = int (length its + length r)" "1 \<le> lCfgItemsToAllocOnOverflow s" "1 \<le> n"
  shows "\<exists>its' x r'. grow_items s n = Some (NoError, s\<lparr>lAllocatedCfgItemNumber := int (length its' + length (x # r')),
      pciCfgItems := its' @ x # r'\<rparr>) \<and> length its' = length its \<and>
    list_all item_wf its' \<and> map item_abs its' = map item_abs its \<and> list_all item_built (x # r')"
proof (cases r)
  case Nil
  define k where "k = nat (int (length its) + lCfgItemsToAllocOnOverflow s)"
  have k: "length its < k" "int k = int (length its) + lCfgItemsToAllocOnOverflow s" using assms by (auto simp: k_def)
  define new where "new = replicate k ConfigurationItem_ctor"
  have new: "list_all item_built new" "length new = k" by (simp_all add: new_def list_all_iff)
  obtain ys where ys: "copied_objects (\<lambda>d s. ConfigurationItem_copy d s n) (length its) (its @ []) new =
      Some (NoError, ys @ drop (length its) new)" "length ys = length its" "list_all item_wf ys" "map item_abs ys = map item_abs its"
    using item_objects.copied_ok [OF assms(7,3) new(1), of "length its" "[]"] k new by auto
  obtain x r' where x: "drop (length its) new = x # r'" using k new by (cases "drop (length its) new") auto
  then have "length (x # r') = k - length its" using new by (metis length_drop)
  then have len: "length its + length (x # r') = k" using k by simp
  have "list_all item_built (x # r')" using x new(1) by (metis append_take_drop_id list_all_append)
  moreover obtain zs where "finish_objects ConfigurationItem_finish its = Some (replicate (length its) NoError, zs)" "list_all item_built zs"
    using item_objects.finish_all_ok [OF assms(3)] by blast
  ultimately have "grow_items s n = Some (NoError, s\<lparr>lAllocatedCfgItemNumber := int (length ys + length (x # r')),
      pciCfgItems := ys @ x # r'\<rparr>)"
    using ys x len k assms Nil item_objects.destroy_all_ok [of zs]
    by (simp add: grow_items_def new_def Let_def k_def [symmetric])
  then show ?thesis using ys \<open>list_all item_built (x # r')\<close> by blast
next
  case (Cons x r')
  then have "grow_items s n = Some (NoError, s\<lparr>lAllocatedCfgItemNumber := int (length its + length (x # r')),
      pciCfgItems := its @ x # r'\<rparr>)"
    using assms by (simp add: grow_items_def)
  then show ?thesis using assms Cons by blast
qed

lemma section_appendCfgItem_ok:
  assumes "section_wf s" "item_wf it" "1 \<le> n"
  shows "\<exists>s'. section_appendCfgItem s (Some it) n = Some (NoError, s') \<and> section_wf s' \<and>
    section_abs s' = section_abs s\<lparr>se_items := se_items (section_abs s) @ [item_abs it]\<rparr>"
proof -
  obtain its r nm cm where s: "pciCfgItems s = its @ r" "lCfgItemsNumber s = int (length its)" "section_items s = its"
    "list_all item_wf its" "list_all item_built r" "pSectionName s = Some nm" "pSectionComment s = Some cm"
    "stCfgSectionStatus s = CFGSECTION_INITIALIZED" "configurationSectionMutex s = Some 0"
    "lAllocatedCfgItemNumber s = int (length its + length r)" "1 \<le> lCfgItemsToAllocOnOverflow s"
    "pSectionDate s \<noteq> None \<longrightarrow> isValidDate (pSectionDate s)"
    using section_wf_obtain [OF assms(1)] .
  let ?s1 = "s\<lparr>configurationSectionMutex := Some 1\<rparr>"
  obtain its' x r' where g: "grow_items ?s1 n = Some (NoError, ?s1\<lparr>lAllocatedCfgItemNumber := int (length its' + length (x # r')),
      pciCfgItems := its' @ x # r'\<rparr>)" "length its' = length its"
      "list_all item_wf its'" "map item_abs its' = map item_abs its" "list_all item_built (x # r')"
    using grow_items_ok [of ?s1 its r n] s assms(3) by auto
  obtain y where y: "ConfigurationItem_copy x it n = Some (NoError, y)" "item_wf y" "item_abs y = item_abs it"
    using ConfigurationItem_copy_ok [of x it n] g(5) assms by auto
  define s' where "s' = s\<lparr>lAllocatedCfgItemNumber := int (length its' + length (x # r')),
      pciCfgItems := its' @ y # r', lCfgItemsNumber := int (Suc (length its))\<rparr>"
  have "section_appendCfgItem s (Some it) n = Some (NoError, s')"
    using s g y by (simp add: section_appendCfgItem_def append_copy_def s'_def nth_append list_update_append)
  moreover have "section_wf s'" "section_items s' = its' @ [y]"
    by (rule section_wf_intro [of s' "its' @ [y]" r']; use s g y in \<open>simp add: s'_def\<close>)+
  ultimately show ?thesis using s g(4) y(3) by (auto simp: s'_def section_abs_def)
qed

lemma section_item:
  assumes "section_wf s" "i < length (se_items (section_abs s))"
  shows "arr_get (pciCfgItems s) (int i) = Some (section_items s ! i)" "item_wf (section_items s ! i)"
    "item_abs (section_items s ! i) = se_items (section_abs s) ! i"
  using assms by (elim section_wf_obtain; simp add: section_abs_def nth_append list_all_length)+

lemma section_number: "section_wf s \<Longrightarrow> lCfgItemsNumber s = int (length (se_items (section_abs s)))"
  by (elim section_wf_obtain) (simp add: section_abs_def)

lemma section_set_item:
  assumes "section_wf s" "i < length (se_items (section_abs s))" "item_wf it"
  shows "\<exists>its. arr_set (pciCfgItems s) (int i) it = Some its \<and> section_wf (s\<lparr>pciCfgItems := its\<rparr>) \<and>
    section_abs (s\<lparr>pciCfgItems := its\<rparr>) = section_abs s\<lparr>se_items := (se_items (section_abs s))[i := item_abs it]\<rparr>"
proof -
  obtain its r nm cm where s: "pciCfgItems s = its @ r" "lCfgItemsNumber s = int (length its)" "section_items s = its"
    "list_all item_wf its" "list_all item_built r" "pSectionName s = Some nm" "pSectionComment s = Some cm"
    "stCfgSectionStatus s = CFGSECTION_INITIALIZED" "configurationSectionMutex s = Some 0"
    "lAllocatedCfgItemNumber s = int (length its + length r)" "1 \<le> lCfgItemsToAllocOnOverflow s"
    "pSectionDate s \<noteq> None \<longrightarrow> isValidDate (pSectionDate s)"
    using section_wf_obtain [OF assms(1)] .
  have i: "i < length its" using assms(2) s by (simp add: section_abs_def)
  define s' where "s' = s\<lparr>pciCfgItems := its[i := it] @ r\<rparr>"
  have all: "list_all item_wf (its[i := it])"
    using s(4) assms(3) by (auto simp: list_all_iff dest!: set_update_subset_insert [THEN subsetD])
  have "section_wf s'" "section_items s' = its[i := it]"
    by (rule section_wf_intro [of s' "its[i := it]" r]; use s all in \<open>simp add: s'_def\<close>)+
  then show ?thesis using s i by (auto simp: s'_def section_abs_def list_update_append map_update)
qed

lemma section_getCfgItemByIndex_ok:
  assumes "section_wf s" "0 \<le> i" "item_built dst" "1 \<le> n"
  shows "\<exists>dst'. section_getCfgItemByIndex s i dst n = Some
      (if i < int (length (se_items (section_abs s))) then NoError else CfgErrors CFG_ACTIVATION_WRONG, dst') \<and>
    (if i < int (length (se_items (section_abs s))) then item_wf dst' \<and> item_abs dst' = se_items (section_abs s) ! nat i else dst' = dst)"
proof (cases "i < int (length (se_items (section_abs s)))")
  case True
  then obtain j where j: "i = int j" "j < length (se_items (section_abs s))" using assms(2) by (metis nat_0_le nat_less_iff)
  obtain d where "ConfigurationItem_copy dst (section_items s ! j) n = Some (NoError, d)" "item_wf d"
      "item_abs d = se_items (section_abs s) ! j"
    using ConfigurationItem_copy_ok [OF assms(3) _ assms(4)] section_item [OF assms(1) j(2)] by metis
  then show ?thesis
    using j section_item(1) [OF assms(1) j(2)] section_number [OF assms(1)] section_ready [OF assms(1)]
    by (simp add: section_getCfgItemByIndex_def del: arr_get_int arr_get_Some)
next
  case False
  then show ?thesis
    using section_number [OF assms(1)] section_ready [OF assms(1)] by (simp add: section_getCfgItemByIndex_def)
qed

definition item_named :: "string \<Rightarrow> item_text \<Rightarrow> bool" where
  "item_named nm a \<longleftrightarrow> names_equal (it_case a) (it_name a) nm"

lemma search_item_ok:
  assumes "section_wf s"
  shows "search_item s (Some nm) = Some (first_index (item_named nm) (se_items (section_abs s)))"
proof -
  obtain its r where s: "pciCfgItems s = its @ r" "lCfgItemsNumber s = int (length its)" "section_items s = its" "list_all item_wf its"
    using section_wf_obtain [OF assms] by metis
  have "object_index (\<lambda>it. ConfigurationItem_eq it (Some nm)) its = Some (first_index (item_named nm) (map item_abs its))"
    by (rule object_index_ok [where P = "item_named nm" and f = item_abs])
      (use s(4) in \<open>auto simp: list_all_iff cfg_simps item_named_def\<close>)
  then show ?thesis using s by (simp add: search_item_def section_abs_def)
qed

lemma section_getCfgItemByName_ok:
  assumes "section_wf s" "item_built dst" "1 \<le> n"
  shows "let i = first_index (item_named nm) (se_items (section_abs s)) in
    \<exists>dst'. section_getCfgItemByName s (Some nm) dst n = Some
      (if i < length (se_items (section_abs s)) then NoError else CfgSectionErrors CFG_ITEM_NOTFOUND, dst') \<and>
    (if i < length (se_items (section_abs s)) then item_wf dst' \<and> item_abs dst' = se_items (section_abs s) ! i else dst' = dst)"
proof -
  define i where "i = first_index (item_named nm) (se_items (section_abs s))"
  note n = section_number [OF assms(1)]
  show ?thesis
  proof (cases "i < length (se_items (section_abs s))")
    case True
    obtain d where "ConfigurationItem_copy dst (section_items s ! i) n = Some (NoError, d)" "item_wf d"
        "item_abs d = se_items (section_abs s) ! i"
      using ConfigurationItem_copy_ok [OF assms(2) _ assms(3)] section_item [OF assms(1) True] by metis
    then show ?thesis
      using True n section_item(1) [OF assms(1) True] search_item_ok [OF assms(1), of nm] section_ready [OF assms(1)]
      by (simp add: section_getCfgItemByName_def i_def [symmetric] del: arr_get_int arr_get_Some)
  next
    case False
    then show ?thesis
      using n search_item_ok [OF assms(1), of nm] section_ready [OF assms(1)]
      by (simp add: section_getCfgItemByName_def i_def [symmetric])
  qed
qed

lemma getPtrCfgItemByName_ok:
  assumes "section_wf s"
  shows "getPtrCfgItemByName s (Some nm) = Some
    (if first_index (item_named nm) (se_items (section_abs s)) < length (se_items (section_abs s))
     then Inr (first_index (item_named nm) (se_items (section_abs s))) else Inl (CfgSectionErrors CFG_ITEM_NOTFOUND))"
  using search_item_ok [OF assms] section_ready [OF assms] section_number [OF assms]
  by (simp add: getPtrCfgItemByName_def)

section \<open>Copy\<close>

lemma copy_section_items_ok:
  assumes "section_wf src" "section_wf dst" "item_built ci" "i + k = length (se_items (section_abs src))" "1 \<le> n"
  shows "\<exists>dst'. copy_section_items k (int i) ci dst src n = Some (NoError, dst') \<and> section_wf dst' \<and>
    section_abs dst' = section_abs dst\<lparr>se_items := se_items (section_abs dst) @ drop i (se_items (section_abs src))\<rparr>"
  using assms(2-4)
proof (induction k arbitrary: i dst ci)
  case 0
  then show ?case by simp
next
  case (Suc k)
  let ?its = "se_items (section_abs src)"
  have i: "i < length ?its" using Suc.prems by simp
  obtain c1 where c1: "section_getCfgItemByIndex src (int i) ci n = Some (NoError, c1)" "item_wf c1" "item_abs c1 = ?its ! i"
    using section_getCfgItemByIndex_ok [OF assms(1) _ Suc.prems(2) assms(5), of "int i"] i by auto
  obtain d1 where d1: "section_appendCfgItem dst (Some c1) n = Some (NoError, d1)" "section_wf d1"
      "section_abs d1 = section_abs dst\<lparr>se_items := se_items (section_abs dst) @ [?its ! i]\<rparr>"
    using section_appendCfgItem_ok [OF Suc.prems(1) c1(2) assms(5)] c1(3) by auto
  obtain c2 where c2: "ConfigurationItem_finish c1 = Some (NoError, c2)" "item_built c2"
    using ConfigurationItem_finish_ok [OF c1(2)] by blast
  obtain d2 where "copy_section_items k (int (Suc i)) c2 d1 src n = Some (NoError, d2)" "section_wf d2"
      "section_abs d2 = section_abs d1\<lparr>se_items := se_items (section_abs d1) @ drop (Suc i) ?its\<rparr>"
    using Suc.IH [OF d1(2) c2(2), of "Suc i"] Suc.prems(3) by auto
  then show ?case using c1 d1 c2 i by (simp add: add.commute Cons_nth_drop_Suc)
qed

lemma ConfigurationSection_copy_ok:
  assumes "section_built dst" "section_wf src" "1 \<le> k" "1 \<le> n"
  shows "\<exists>dst'. ConfigurationSection_copy dst src k n = Some (NoError, dst') \<and> section_wf dst' \<and>
    section_abs dst' = section_abs src"
proof -
  let ?a = "section_abs src"
  have date: "se_date ?a \<noteq> None \<longrightarrow> isValidDate (se_date ?a)"
    using assms(2) by (elim section_wf_obtain) (simp add: section_abs_def)
  obtain d1 where d1: "ConfigurationSection_init dst (Some (se_name ?a)) (Some (se_comment ?a)) (se_date ?a) (se_case ?a) k = (NoError, d1)"
      "section_wf d1" "section_abs d1 = \<lparr>se_name = se_name ?a, se_comment = se_comment ?a, se_date = se_date ?a,
        se_case = se_case ?a, se_items = []\<rparr>"
    using ConfigurationSection_init_ok [OF assms(1,3) date] by blast
  obtain d2 where "copy_section_items (length (se_items ?a)) 0 ConfigurationItem_ctor d1 src n = Some (NoError, d2)" "section_wf d2"
      "section_abs d2 = section_abs d1\<lparr>se_items := se_items (section_abs d1) @ se_items ?a\<rparr>"
    using copy_section_items_ok [OF assms(2) d1(2) item_ctor_built, of 0 "length (se_items ?a)" n] assms(4) by auto
  then show ?thesis
    using d1 assms(1) section_getters [OF assms(2)] section_ready [OF assms(2)]
    by (cases "se_date ?a") (simp_all add: ConfigurationSection_copy_def section_built_def)
qed

interpretation section_objects: object_class "\<lambda>(k, n). 1 \<le> k \<and> 1 \<le> n" "\<lambda>(k, n) d s. ConfigurationSection_copy d s k n"
  ConfigurationSection_finish ConfigurationSection_dtor section_built section_wf section_abs
proof
  show "\<exists>s'. ConfigurationSection_dtor s = Some s'" if "section_built s" for s
    using that by (simp add: ConfigurationSection_dtor_def section_built_def ConfigurationSection_finish_def)
qed (use ConfigurationSection_copy_ok ConfigurationSection_finish_ok in \<open>auto split: prod.splits\<close>)

end
