(* ===== verification/EncryptProps.thy ===== *)
theory EncryptProps
  imports Encrypt
begin

text \<open>
  What the encryption computes: a text of twice the length that reads back, and the two places where the
  code fails: a character that it means to avoid, and an encrypted text of odd length.
\<close>

section \<open>One character\<close>

definition crypted_char :: "char \<Rightarrow> string" where
  "crypted_char c = (if is_shifted c then [CHR ''1'', char_of_value (char_value c + 3)] else [CHR ''0'', c])"

definition crypted_text :: "string \<Rightarrow> string" where
  "crypted_text s = concat (map crypted_char s)"

lemma of_char_value_bounds: "0 \<le> (of_char c :: int) \<and> (of_char c :: int) < 256"
proof -
  have "0 \<le> int (of_char c)" "int (of_char c) < 256" using nat_of_char_less_256 [of c] by linarith+
  then show ?thesis by (simp only: of_nat_of_char simp_thms)
qed

lemma char_of_char_value [simp]: "char_of_value (char_value c) = c"
proof -
  have "char_value c mod 256 = of_char c"
    using of_char_value_bounds [of c] by (auto simp: char_value_def Let_def)
  then have "char_of_value (char_value c) = char_of (nat (of_char c :: int))" by (simp add: char_of_value_def)
  also have "nat (of_char c :: int) = of_char c" by (metis nat_int of_nat_of_char)
  finally show ?thesis by simp
qed

lemma char_value_of_value: "0 \<le> v \<Longrightarrow> v < 128 \<Longrightarrow> char_value (char_of_value v) = v"
proof -
  assume v: "0 \<le> v" "v < 128"
  then have "(of_char (char_of (nat v) :: char) :: nat) = nat v" by simp
  then have "int (of_char (char_of (nat v) :: char)) = v" using v by simp
  then have "(of_char (char_of (nat v) :: char) :: int) = v" by (simp only: of_nat_of_char)
  then show ?thesis using v by (simp add: char_value_def char_of_value_def)
qed

lemma shifted_back:
  assumes "is_shifted c"
  shows "char_of_value (char_value (char_of_value (char_value c + 3)) - 3) = c"
  using assms char_value_of_value [of "char_value c + 3"] by (simp add: is_shifted_def)

lemma shifted_not_NUL:
  assumes "is_shifted c"
  shows "char_of_value (char_value c + 3) \<noteq> NUL"
proof
  assume "char_of_value (char_value c + 3) = NUL"
  then have "char_value NUL = char_value c + 3"
    using assms char_value_of_value [of "char_value c + 3"] by (simp add: is_shifted_def)
  then show False using assms by (simp add: is_shifted_def char_value_def)
qed

lemma crypted_text_length [simp]: "length (crypted_text s) = 2 * length s"
  by (induction s) (simp_all add: crypted_text_def crypted_char_def)

lemma crypted_text_no_NUL: "NUL \<notin> set s \<Longrightarrow> NUL \<notin> set (crypted_text s)"
  using shifted_not_NUL by (fastforce simp: crypted_text_def crypted_char_def split: if_splits)

section \<open>The loops\<close>

lemma mem_write_at: "length p = j \<Longrightarrow> mem_write (p @ x # r) j c = Some (p @ Some c # r)"
  by (auto simp: mem_write_def)

lemma encrypt_loop_eq:
  assumes "length r = 2 * length s + 1"
  shows "encrypt_loop s (length p) (p @ r) = Some (p @ lit (crypted_text s))"
  using assms
proof (induction s arbitrary: p r)
  case Nil
  then obtain x where "r = [x]" by (cases r) auto
  then show ?case by (simp add: mem_write_at crypted_text_def lit_def)
next
  case (Cons c s)
  then obtain x y r' where r: "r = x # y # r'" "length r' = 2 * length s + 1"
    by (cases r; cases "tl r") auto
  have w1: "mem_write (p @ x # y # r') (length p) a = Some ((p @ [Some a]) @ y # r')" for a
    by (simp add: mem_write_at)
  have w2: "mem_write ((p @ [Some a]) @ y # r') (length p + 1) b = Some ((p @ [Some a, Some b]) @ r')" for a b
    by (subst mem_write_at) simp_all
  show ?case
    using Cons.IH [of r' "p @ map Some (crypted_char c)"] r w1 w2
    by (cases "is_shifted c") (simp_all add: crypted_text_def crypted_char_def lit_def)
qed

lemma encrypt_string_eq:
  assumes "NUL \<notin> set s"
  shows "encrypt_string s = Some (Inr (crypted_text s))"
proof -
  obtain m0 where m0: "strcpy (fresh_block (2 * length s + 1)) 0 (lit []) = Some m0" "length m0 = 2 * length s + 1"
    using strcpy_fresh [of "lit []" "[]" "2 * length s + 1"] by auto
  then show ?thesis
    using encrypt_loop_eq [of m0 s "[]"] crypted_text_no_NUL [OF assms]
    by (simp add: encrypt_string_def encrypt_def getCryptedBufferLength_def mult.commute)
qed

lemma decrypt_loop_step:
  assumes "i < len" "mem_read crypted i = Some a" "mem_read crypted (i + 1) = Some b"
  shows "decrypt_loop crypted len i (length p) (p @ x # r) =
    decrypt_loop crypted len (i + 2) (length (p @ [None]))
      (p @ Some (if a = CHR ''1'' then char_of_value (char_value b - 3) else b) # r)"
  using assms by (subst decrypt_loop.simps) (simp add: mem_write_at)

text \<open>From the middle of the text: what was decrypted so far is \<open>p\<close>.\<close>

lemma mem_read_crypted:
  assumes "length q = i"
  shows "mem_read (lit (q @ crypted_char c @ t)) i = Some (crypted_char c ! 0)"
    "mem_read (lit (q @ crypted_char c @ t)) (i + 1) = Some (crypted_char c ! 1)"
  using assms by (simp_all add: mem_read_def lit_def nth_append crypted_char_def)

lemma decrypt_loop_eq:
  assumes "length r = length s + 1"
  shows "decrypt_loop (lit (q @ crypted_text s)) (length q + 2 * length s) (length q) (length p) (p @ r) = Some (p @ lit s)"
  using assms
proof (induction s arbitrary: p q r)
  case Nil
  then obtain x where "r = [x]" by (cases r) auto
  then show ?case by (subst decrypt_loop.simps) (simp add: mem_write_at lit_def)
next
  case (Cons c s)
  then obtain x r' where r: "r = x # r'" "length r' = length s + 1" by (cases r) auto
  let ?q = "q @ crypted_char c"
  have split: "crypted_text (c # s) = crypted_char c @ crypted_text s" "length (crypted_char c) = 2"
    by (simp_all add: crypted_text_def crypted_char_def)
  have val: "(if crypted_char c ! 0 = CHR ''1'' then char_of_value (char_value (crypted_char c ! 1) - 3)
      else crypted_char c ! 1) = c"
    using shifted_back [of c] by (simp add: crypted_char_def)
  note rd = mem_read_crypted [of q "length q" c "crypted_text s", OF refl]
  have "decrypt_loop (lit (q @ crypted_text (c # s))) (length q + 2 * length (c # s)) (length q) (length p) (p @ r) =
      decrypt_loop (lit (?q @ crypted_text s)) (length ?q + 2 * length s) (length ?q) (length (p @ [Some c]))
        ((p @ [Some c]) @ r')"
    using decrypt_loop_step [of "length q" "length q + 2 * length (c # s)" "lit (q @ crypted_char c @ crypted_text s)",
        OF _ rd, of p x r'] val split r
    by simp
  also have "\<dots> = Some (p @ lit (c # s))"
    using Cons.IH [of r' ?q "p @ [Some c]"] r(2) by (simp add: lit_def)
  finally show ?case .
qed

lemma decrypt_string_eq:
  assumes "NUL \<notin> set s"
  shows "decrypt_string (crypted_text s) = Some (Inr s)"
proof -
  obtain m0 where m0: "strcpy (fresh_block (length s + 1)) 0 (lit []) = Some m0" "length m0 = length s + 1"
    using strcpy_fresh [of "lit []" "[]" "length s + 1"] by auto
  then show ?thesis
    using decrypt_loop_eq [of m0 s "[]" "[]"] assms
    by (simp add: decrypt_string_def decrypt_def getDecryptedBufferLength_def)
qed

section \<open>Properties\<close>

text \<open>What \<open>encrypt\<close> makes of a text, \<open>decrypt\<close> turns back into the text; the encrypted text is twice as long and
  both calls stay in the buffers they allocate.
\<close>

theorem Encrypt_roundtrip:
  assumes "NUL \<notin> set s"
  shows "\<exists>t. encrypt_string s = Some (Inr t) \<and> length t = 2 * length s \<and> decrypt_string t = Some (Inr s)"
  using encrypt_string_eq [OF assms] decrypt_string_eq [OF assms] by simp

theorem Encrypt_roundtrip_witness:
  "\<exists>t. encrypt_string ''a;b'' = Some (Inr t) \<and> length t = 2 * length ''a;b'' \<and> decrypt_string t = Some (Inr ''a;b'')"
  by (rule Encrypt_roundtrip) simp

text \<open>The mark of an odd text's last character is followed by the terminator, so that one character more than
  the buffer was made for is stored, and the terminator behind it.\<close>

lemma decrypt_loop_overflow:
  assumes "i \<le> length t" "length m = j + (length t - i) div 2 + 1" "odd (length t - i)"
  shows "decrypt_loop (lit t) (length t) i j m = None"
  using assms
proof (induction "length t - i" arbitrary: i j m rule: less_induct)
  case less
  then have i: "i < length t" by (cases "i = length t") auto
  have "\<exists>a. mem_read (lit t) k = Some a" if "k \<le> length t" for k
    using that by (cases "k = length t") (simp_all add: mem_read_def lit_def nth_append)
  from this [of i] this [of "i + 1"] i
  obtain a b where r: "mem_read (lit t) i = Some a" "mem_read (lit t) (i + 1) = Some b" by auto
  have j: "j < length m" using less.prems by simp
  let ?m = "m[j := Some (if a = CHR ''1'' then char_of_value (char_value b - 3) else b)]"
  have step: "decrypt_loop (lit t) (length t) i j m = decrypt_loop (lit t) (length t) (i + 2) (j + 1) ?m"
    using i r j by (subst decrypt_loop.simps) (simp add: mem_write_def)
  show ?case
  proof (cases "i + 2 \<le> length t")
    case True
    have "length t - i = Suc (Suc (length t - (i + 2)))" using True by simp
    then have *: "odd (length t - (i + 2))" "(length t - i) div 2 = Suc ((length t - (i + 2)) div 2)"
      using less.prems by simp_all
    have "decrypt_loop (lit t) (length t) (i + 2) (j + 1) ?m = None"
      by (rule less.hyps) (use True * less.prems in auto)
    then show ?thesis using step by simp
  next
    case False
    then have "length t = i + 1" using i by simp
    then show ?thesis using step less.prems by (simp add: decrypt_loop.simps [of _ _ "Suc (Suc i)"] mem_write_def)
  qed
qed

lemma decrypt_string_odd:
  assumes "odd (length t)"
  shows "decrypt_string t = None"
proof -
  obtain m0 where m0: "strcpy (fresh_block (length t div 2 + 1)) 0 (lit []) = Some m0" "length m0 = length t div 2 + 1"
    using strcpy_fresh [of "lit []" "[]" "length t div 2 + 1"] by auto
  then show ?thesis
    using decrypt_loop_overflow [of 0 t m0 0] assms
    by (simp add: decrypt_string_def decrypt_def getDecryptedBufferLength_def)
qed

text \<open>C36: decrypting a text of odd length writes behind the buffer that the caller allocated, whatever the text is: the
  length that \<open>getDecryptedBufferLength\<close> gives is one short.
\<close>

theorem decrypt_overflows:
  assumes "odd (length t)"
  shows "decrypt_string t = None"
  by (rule decrypt_string_odd [OF assms])

theorem decrypt_overflows_witness: "decrypt_string ''1d2'' = None"
  by (rule decrypt_overflows) simp

text \<open>The characters that make problems in a URL or in a token, as the comments of the code name them.\<close>

text \<open>The encryption does not keep out the characters it means to keep out: the test is made on the shifted
  character only, and a semicolon is stored as it is.\<close>

theorem encrypt_keeps_semicolon: "encrypt_string '';'' = Some (Inr ''0;'')"
  by code_simp

end
