(* ===== verification/ConfigSpec.thy ===== *)
theory ConfigSpec
  imports Config CfgSectionSpec EncryptProps
begin

text \<open>
  The configuration as the list of its sections: the invariant \<open>config_wf\<close>, the abstraction \<open>config_abs\<close>, and the
  effect of the calls that append, remove and look up sections.
\<close>

record config_text =
  cf_name :: string
  cf_case :: bool
  cf_sections :: "section_text list"

definition config_sections :: "config \<Rightarrow> configuration_section list" where
  "config_sections c = take (nat (lCfgSectionsNumber c)) (pcsCfgSections c)"

definition config_abs :: "config \<Rightarrow> config_text" where
  "config_abs c = \<lparr>cf_name = the (pConfigName c), cf_case = config_bIsCaseSensitive c,
     cf_sections = map section_abs (config_sections c)\<rparr>"

definition config_wf :: "config \<Rightarrow> bool" where
  "config_wf c \<longleftrightarrow>
     stCfgStatus c = CFG_INITIALIZED \<and> pConfigName c \<noteq> None \<and> length (the (pConfigName c)) < CFG_MAXCONFIGNAMELENGTH \<and>
     1 \<le> lCfgSectionsToAllocOnOverflow c \<and> configurationMutex c = Some 0 \<and>
     lAllocatedCfgSectionsNumber c = int (length (pcsCfgSections c)) \<and>
     0 \<le> lCfgSectionsNumber c \<and> lCfgSectionsNumber c \<le> int (length (pcsCfgSections c)) \<and>
     list_all section_wf (take (nat (lCfgSectionsNumber c)) (pcsCfgSections c)) \<and> list_all section_built (drop (nat (lCfgSectionsNumber c)) (pcsCfgSections c))"

definition config_built :: "config \<Rightarrow> bool" where
  "config_built c \<longleftrightarrow> stCfgStatus c = CFG_BUILDED \<and> configurationMutex c = None"

lemma config_wf_obtain:
  assumes "config_wf c"
  obtains ss r nm where "pcsCfgSections c = ss @ r" "lCfgSectionsNumber c = int (length ss)" "config_sections c = ss"
    "list_all section_wf ss" "list_all section_built r" "pConfigName c = Some nm" "length nm < CFG_MAXCONFIGNAMELENGTH"
    "stCfgStatus c = CFG_INITIALIZED" "configurationMutex c = Some 0"
    "lAllocatedCfgSectionsNumber c = int (length ss + length r)" "1 \<le> lCfgSectionsToAllocOnOverflow c"
  using assms by (fastforce simp: config_wf_def used_entries config_sections_def)

lemma config_wf_intro:
  assumes "pcsCfgSections c = ss @ r" "lCfgSectionsNumber c = int (length ss)"
    "list_all section_wf ss" "list_all section_built r" "pConfigName c = Some nm" "length nm < CFG_MAXCONFIGNAMELENGTH"
    "stCfgStatus c = CFG_INITIALIZED" "configurationMutex c = Some 0"
    "lAllocatedCfgSectionsNumber c = int (length ss + length r)" "1 \<le> lCfgSectionsToAllocOnOverflow c"
  shows "config_wf c" "config_sections c = ss"
  using assms by (auto simp: config_wf_def used_entries config_sections_def)

lemma config_ctor_built [simp]: "config_built Config_ctor"
  by (simp add: config_built_def Config_ctor_def)

lemma Config_init_ok:
  assumes "config_built c" "1 \<le> n" "length nm < CFG_MAXCONFIGNAMELENGTH"
  shows "\<exists>c'. Config_init c (Some nm) cs n = (NoError, c') \<and> config_wf c' \<and>
           config_abs c' = \<lparr>cf_name = nm, cf_case = cs, cf_sections = []\<rparr>"
proof -
  define c' where "c' = c\<lparr>config_bIsCaseSensitive := cs, lCfgSectionsToAllocOnOverflow := n, lCfgSectionsNumber := 0,
    lAllocatedCfgSectionsNumber := n, configurationMutex := Some 0, pConfigName := Some nm,
    pcsCfgSections := replicate (nat n) ConfigurationSection_ctor, stCfgStatus := CFG_INITIALIZED\<rparr>"
  have "Config_init c (Some nm) cs n = (NoError, c')"
    using assms by (auto simp: Config_init_def config_built_def PMutex_init_def c'_def)
  moreover have "config_wf c'" "config_sections c' = []"
    by (rule config_wf_intro [of c' "[]" "replicate (nat n) ConfigurationSection_ctor" nm];
        use assms in \<open>simp add: c'_def list_all_iff\<close>)+
  ultimately show ?thesis by (auto simp: config_abs_def c'_def)
qed

lemma config_ready [cfg_simps]: "config_wf c \<Longrightarrow> stCfgStatus c = CFG_INITIALIZED"
  by (simp add: config_wf_def)

lemma Config_finish_ok:
  assumes "config_wf c"
  shows "\<exists>c'. Config_finish c = Some (NoError, c') \<and> config_built c'"
proof -
  obtain ss r where c: "pcsCfgSections c = ss @ r" "lCfgSectionsNumber c = int (length ss)" "list_all section_wf ss"
      "list_all section_built r" "stCfgStatus c = CFG_INITIALIZED" "configurationMutex c = Some 0"
    using config_wf_obtain [OF assms] by metis
  obtain ys where "finish_objects ConfigurationSection_finish ss = Some (replicate (length ss) NoError, ys)" "list_all section_built ys"
    using section_objects.finish_all_ok [OF c(3)] by blast
  then show ?thesis
    using c section_objects.destroy_all_ok [of "ys @ r"]
    by (simp add: Config_finish_def config_built_def PMutex_finish_def)
qed

lemma config_getters [cfg_simps]:
  assumes "config_wf c"
  shows "config_getIsCaseSensitive c = Inr (cf_case (config_abs c))"
    "getConfigName c = Some (Inr (cf_name (config_abs c)))"
    "getSectionsNumber c = Inr (int (length (cf_sections (config_abs c))))"
  using assms
  by (elim config_wf_obtain, simp add: config_getIsCaseSensitive_def getConfigName_def getSectionsNumber_def config_abs_def)+

lemma modifyConfigName_ok:
  assumes "config_wf c"
  shows "\<exists>c'. modifyConfigName c (Some nm) =
      Some (if length nm < CFG_MAXCONFIGNAMELENGTH then NoError else CfgErrors CFG_ACTIVATION_WRONG, c') \<and> config_wf c' \<and>
    config_abs c' = (if length nm < CFG_MAXCONFIGNAMELENGTH then config_abs c\<lparr>cf_name := nm\<rparr> else config_abs c)"
  using assms
  by (elim config_wf_obtain)
    (auto simp: modifyConfigName_def config_locked_def config_wf_def config_abs_def config_sections_def CFG_MAXCONFIGNAMELENGTH_def)

section \<open>Sections\<close>

lemma grow_sections_ok:
  assumes "pcsCfgSections c = ss @ r" "lCfgSectionsNumber c = int (length ss)" "list_all section_wf ss" "list_all section_built r"
    "lAllocatedCfgSectionsNumber c = int (length ss + length r)" "1 \<le> lCfgSectionsToAllocOnOverflow c" "1 \<le> k" "1 \<le> n"
  shows "\<exists>ss' x r'. grow_sections c k n = Some (NoError, c\<lparr>lAllocatedCfgSectionsNumber := int (length ss' + length (x # r')),
      pcsCfgSections := ss' @ x # r'\<rparr>) \<and> length ss' = length ss \<and>
    list_all section_wf ss' \<and> map section_abs ss' = map section_abs ss \<and> list_all section_built (x # r')"
proof (cases r)
  case Nil
  define m where "m = nat (int (length ss) + lCfgSectionsToAllocOnOverflow c)"
  have m: "length ss < m" "int m = int (length ss) + lCfgSectionsToAllocOnOverflow c" using assms by (auto simp: m_def)
  define new where "new = replicate m ConfigurationSection_ctor"
  have new: "list_all section_built new" "length new = m" by (simp_all add: new_def list_all_iff)
  obtain ys where ys: "copied_objects (\<lambda>d s. ConfigurationSection_copy d s k n) (length ss) (ss @ []) new =
      Some (NoError, ys @ drop (length ss) new)" "length ys = length ss" "list_all section_wf ys" "map section_abs ys = map section_abs ss"
    using section_objects.copied_ok [of "(k, n)" ss new "length ss" "[]"] assms(3,7,8) m new by auto
  obtain x r' where x: "drop (length ss) new = x # r'" using m new by (cases "drop (length ss) new") auto
  then have "length (x # r') = m - length ss" using new by (metis length_drop)
  then have len: "length ss + length (x # r') = m" using m by simp
  have built: "list_all section_built (x # r')" using x new(1) by (metis append_take_drop_id list_all_append)
  obtain zs where "finish_objects ConfigurationSection_finish ss = Some (replicate (length ss) NoError, zs)" "list_all section_built zs"
    using section_objects.finish_all_ok [OF assms(3)] by blast
  then have "grow_sections c k n = Some (NoError, c\<lparr>lAllocatedCfgSectionsNumber := int (length ys + length (x # r')),
      pcsCfgSections := ys @ x # r'\<rparr>)"
    using ys x len m assms Nil section_objects.destroy_all_ok [of zs]
    by (simp add: grow_sections_def new_def Let_def m_def [symmetric])
  then show ?thesis using ys built by blast
next
  case (Cons x r')
  then have "grow_sections c k n = Some (NoError, c\<lparr>lAllocatedCfgSectionsNumber := int (length ss + length (x # r')),
      pcsCfgSections := ss @ x # r'\<rparr>)"
    using assms by (simp add: grow_sections_def)
  then show ?thesis using assms Cons by blast
qed

lemma appendCfgSection_ok:
  assumes "config_wf c" "section_wf s" "1 \<le> k" "1 \<le> n"
  shows "\<exists>c'. appendCfgSection c (Some s) k n = Some (NoError, c') \<and> config_wf c' \<and>
    config_abs c' = config_abs c\<lparr>cf_sections := cf_sections (config_abs c) @ [section_abs s]\<rparr>"
proof -
  obtain ss r nm where c: "pcsCfgSections c = ss @ r" "lCfgSectionsNumber c = int (length ss)" "config_sections c = ss"
    "list_all section_wf ss" "list_all section_built r" "pConfigName c = Some nm" "length nm < CFG_MAXCONFIGNAMELENGTH"
    "stCfgStatus c = CFG_INITIALIZED" "configurationMutex c = Some 0"
    "lAllocatedCfgSectionsNumber c = int (length ss + length r)" "1 \<le> lCfgSectionsToAllocOnOverflow c"
    using config_wf_obtain [OF assms(1)] .
  let ?c1 = "c\<lparr>configurationMutex := Some 1\<rparr>"
  obtain ss' x r' where g: "grow_sections ?c1 k n = Some (NoError, ?c1\<lparr>lAllocatedCfgSectionsNumber := int (length ss' + length (x # r')),
      pcsCfgSections := ss' @ x # r'\<rparr>)" "length ss' = length ss"
      "list_all section_wf ss'" "map section_abs ss' = map section_abs ss" "list_all section_built (x # r')"
    using grow_sections_ok [of ?c1 ss r k n] c assms(3,4) by auto
  obtain y where y: "ConfigurationSection_copy x s k n = Some (NoError, y)" "section_wf y" "section_abs y = section_abs s"
    using ConfigurationSection_copy_ok [of x s k n] g(5) assms by auto
  define c' where "c' = c\<lparr>lAllocatedCfgSectionsNumber := int (length ss' + length (x # r')),
      pcsCfgSections := ss' @ y # r', lCfgSectionsNumber := int (Suc (length ss))\<rparr>"
  have "appendCfgSection c (Some s) k n = Some (NoError, c')"
    using c g y by (simp add: appendCfgSection_def config_locked_def append_section_copy_def c'_def nth_append list_update_append)
  moreover have "config_wf c'" "config_sections c' = ss' @ [y]"
    by (rule config_wf_intro [of c' "ss' @ [y]" r' nm]; use c g y in \<open>simp add: c'_def\<close>)+
  ultimately show ?thesis using c g(4) y(3) by (auto simp: c'_def config_abs_def)
qed

lemma config_section:
  assumes "config_wf c" "i < length (cf_sections (config_abs c))"
  shows "arr_get (pcsCfgSections c) (int i) = Some (config_sections c ! i)" "section_wf (config_sections c ! i)"
    "section_abs (config_sections c ! i) = cf_sections (config_abs c) ! i"
  using assms by (elim config_wf_obtain; simp add: config_abs_def nth_append list_all_length)+

lemma config_number: "config_wf c \<Longrightarrow> lCfgSectionsNumber c = int (length (cf_sections (config_abs c)))"
  by (elim config_wf_obtain) (simp add: config_abs_def)

lemma set_section_ok:
  assumes "config_wf c" "i < length (cf_sections (config_abs c))" "section_wf s"
  shows "\<exists>c'. set_section c i s = Some c' \<and> config_wf c' \<and>
    config_abs c' = config_abs c\<lparr>cf_sections := (cf_sections (config_abs c))[i := section_abs s]\<rparr>"
proof -
  obtain ss r nm where c: "pcsCfgSections c = ss @ r" "lCfgSectionsNumber c = int (length ss)" "config_sections c = ss"
    "list_all section_wf ss" "list_all section_built r" "pConfigName c = Some nm" "length nm < CFG_MAXCONFIGNAMELENGTH"
    "stCfgStatus c = CFG_INITIALIZED" "configurationMutex c = Some 0"
    "lAllocatedCfgSectionsNumber c = int (length ss + length r)" "1 \<le> lCfgSectionsToAllocOnOverflow c"
    using config_wf_obtain [OF assms(1)] .
  have i: "i < length ss" using assms(2) c by (simp add: config_abs_def)
  define c' where "c' = c\<lparr>pcsCfgSections := ss[i := s] @ r\<rparr>"
  have all: "list_all section_wf (ss[i := s])"
    using c(4) assms(3) by (auto simp: list_all_iff dest!: set_update_subset_insert [THEN subsetD])
  have "config_wf c'" "config_sections c' = ss[i := s]"
    by (rule config_wf_intro [of c' "ss[i := s]" r nm]; use c all in \<open>simp add: c'_def\<close>)+
  then show ?thesis using c i by (auto simp: c'_def config_abs_def set_section_def list_update_append map_update)
qed

definition section_named :: "string \<Rightarrow> section_text \<Rightarrow> bool" where
  "section_named nm a \<longleftrightarrow> names_equal (se_case a) (se_name a) nm"

lemma search_section_ok:
  assumes "config_wf c"
  shows "search_section c (Some nm) = Some (first_index (section_named nm) (cf_sections (config_abs c)))"
proof -
  obtain ss r where c: "pcsCfgSections c = ss @ r" "lCfgSectionsNumber c = int (length ss)" "config_sections c = ss" "list_all section_wf ss"
    using config_wf_obtain [OF assms] by metis
  have "object_index (\<lambda>s. ConfigurationSection_eq s (Some nm)) ss = Some (first_index (section_named nm) (map section_abs ss))"
    by (rule object_index_ok [where P = "section_named nm" and f = section_abs])
      (use c(4) in \<open>auto simp: list_all_iff cfg_simps section_named_def\<close>)
  then show ?thesis using c by (simp add: search_section_def config_abs_def)
qed

lemma getCfgSectionByIndex_ok:
  assumes "config_wf c" "0 \<le> i" "section_built dst" "1 \<le> k" "1 \<le> n"
  shows "\<exists>dst'. getCfgSectionByIndex c i dst k n = Some
      (if i < int (length (cf_sections (config_abs c))) then NoError else CfgErrors CFG_ACTIVATION_WRONG, dst') \<and>
    (if i < int (length (cf_sections (config_abs c)))
     then section_wf dst' \<and> section_abs dst' = cf_sections (config_abs c) ! nat i else dst' = dst)"
proof (cases "i < int (length (cf_sections (config_abs c)))")
  case True
  then obtain j where j: "i = int j" "j < length (cf_sections (config_abs c))" using assms(2) by (metis nat_0_le nat_less_iff)
  obtain d where "ConfigurationSection_copy dst (config_sections c ! j) k n = Some (NoError, d)" "section_wf d"
      "section_abs d = cf_sections (config_abs c) ! j"
    using ConfigurationSection_copy_ok [OF assms(3) _ assms(4,5)] config_section [OF assms(1) j(2)] by metis
  then show ?thesis
    using j config_section(1) [OF assms(1) j(2)] config_number [OF assms(1)] config_ready [OF assms(1)]
    by (simp add: getCfgSectionByIndex_def del: arr_get_int arr_get_Some)
next
  case False
  then show ?thesis
    using config_number [OF assms(1)] config_ready [OF assms(1)] by (simp add: getCfgSectionByIndex_def)
qed

lemma getCfgSectionByName_ok:
  assumes "config_wf c" "section_built dst" "1 \<le> k" "1 \<le> n"
  shows "let i = first_index (section_named nm) (cf_sections (config_abs c)) in
    \<exists>dst'. getCfgSectionByName c (Some nm) dst k n = Some
      (if i < length (cf_sections (config_abs c)) then NoError else CfgConfigErrors CFG_SECTION_NOTFOUND, dst') \<and>
    (if i < length (cf_sections (config_abs c)) then section_wf dst' \<and> section_abs dst' = cf_sections (config_abs c) ! i else dst' = dst)"
proof -
  define i where "i = first_index (section_named nm) (cf_sections (config_abs c))"
  note n = config_number [OF assms(1)]
  show ?thesis
  proof (cases "i < length (cf_sections (config_abs c))")
    case True
    obtain d where "ConfigurationSection_copy dst (config_sections c ! i) k n = Some (NoError, d)" "section_wf d"
        "section_abs d = cf_sections (config_abs c) ! i"
      using ConfigurationSection_copy_ok [OF assms(2) _ assms(3,4)] config_section [OF assms(1) True] by metis
    then show ?thesis
      using True n config_section(1) [OF assms(1) True] search_section_ok [OF assms(1), of nm] config_ready [OF assms(1)]
      by (simp add: getCfgSectionByName_def i_def [symmetric] del: arr_get_int arr_get_Some)
  next
    case False
    then show ?thesis
      using n search_section_ok [OF assms(1), of nm] config_ready [OF assms(1)]
      by (simp add: getCfgSectionByName_def i_def [symmetric])
  qed
qed

end
