(* ===== verification/ConfigOps.thy ===== *)
theory ConfigOps
  imports ConfigSpec
begin

text \<open>
  The calls that change a configuration, on the lists of its abstraction: removing a section, appending items and values,
  and the calls on one section or item, which a function on the abstract one describes.
\<close>

section \<open>Removing a section\<close>

lemma search_section_mutex [simp]: "search_section (c\<lparr>configurationMutex := m\<rparr>) nm = search_section c nm"
  by (simp add: search_section_def)

text \<open>The last section takes the place of the one that is removed.\<close>

definition without_section :: "nat \<Rightarrow> 'a list \<Rightarrow> 'a list" where
  "without_section i xs = butlast (xs[i := xs ! (length xs - 1)])"

lemma remove_section_at_ok:
  assumes "pcsCfgSections c = (us @ [l]) @ r" "lCfgSectionsNumber c = int (Suc (length us))"
    "list_all section_wf (us @ [l])" "i < length us" "1 \<le> k" "1 \<le> n"
  shows "\<exists>d b. remove_section_at c i k n = Some (NoError, c\<lparr>pcsCfgSections := us[i := d] @ b # r,
      lCfgSectionsNumber := int (length us)\<rparr>) \<and> section_wf d \<and> section_abs d = section_abs l \<and> section_built b"
proof -
  have wf: "section_wf (us ! i)" "section_wf l" using assms(3,4) by (auto simp: list_all_iff)
  obtain s1 where s1: "ConfigurationSection_finish (us ! i) = Some (NoError, s1)" "section_built s1"
    using ConfigurationSection_finish_ok [OF wf(1)] by blast
  obtain d where d: "ConfigurationSection_copy s1 l k n = Some (NoError, d)" "section_wf d" "section_abs d = section_abs l"
    using ConfigurationSection_copy_ok [OF s1(2) wf(2) assms(5,6)] by blast
  obtain b where b: "ConfigurationSection_finish l = Some (NoError, b)" "section_built b"
    using ConfigurationSection_finish_ok [OF wf(2)] by blast
  have set1: "arr_set (us @ l # r) (int i) x = Some (us[i := x] @ l # r)" for x
    using assms(4) by (simp add: list_update_append)
  have set2: "arr_set (us[i := y] @ l # r) (int i) x = Some (us[i := x] @ l # r)" for x y
    using assms(4) by (simp add: list_update_append)
  have get1: "arr_get (us[i := x] @ l # r) (int i) = Some x" for x
    using assms(4) by (simp add: nth_append)
  have get2: "arr_get (us @ l # r) (int i) = Some (us ! i)"
    using assms(4) by (simp add: nth_append)
  have "remove_section_at c i k n = Some (NoError, c\<lparr>pcsCfgSections := us[i := d] @ b # r, lCfgSectionsNumber := int (length us)\<rparr>)"
    using assms(1,2,4) s1(1) d(1) b(1) set1 set2 get1 get2
    by (simp add: remove_section_at_def list_update_append nth_append del: arr_get_int arr_set_int arr_get_Some)
  then show ?thesis using d b by blast
qed

lemma removeCfgSection_ok:
  assumes "config_wf c" "1 \<le> k" "1 \<le> n" "xs = cf_sections (config_abs c)" "i = first_index (section_named nm) xs" "Suc i \<noteq> length xs"
  shows "\<exists>c'. removeCfgSection c (Some nm) k n = Some
      (if i < length xs then NoError else CfgConfigErrors CFG_SECTION_NOTFOUND, c') \<and> config_wf c' \<and>
    config_abs c' = (if i < length xs then config_abs c\<lparr>cf_sections := without_section i xs\<rparr> else config_abs c)"
proof -
  obtain ss r cn where c: "pcsCfgSections c = ss @ r" "lCfgSectionsNumber c = int (length ss)" "config_sections c = ss"
    "list_all section_wf ss" "list_all section_built r" "pConfigName c = Some cn" "length cn < CFG_MAXCONFIGNAMELENGTH"
    "stCfgStatus c = CFG_INITIALIZED" "configurationMutex c = Some 0"
    "lAllocatedCfgSectionsNumber c = int (length ss + length r)" "1 \<le> lCfgSectionsToAllocOnOverflow c"
    using config_wf_obtain [OF assms(1)] .
  let ?c1 = "c\<lparr>configurationMutex := Some 1\<rparr>"
  have xs: "xs = map section_abs ss" using c assms(4) by (simp add: config_abs_def)
  have se: "search_section ?c1 (Some nm) = Some i"
    using search_section_ok [OF assms(1), of nm] assms(4,5) by simp
  show ?thesis
  proof (cases "i < length xs")
    case True
    then have "ss \<noteq> []" using xs by auto
    then obtain us l where us: "ss = us @ [l]" by (cases ss rule: rev_cases) auto
    have i: "i < length us" using True assms(6) xs us by simp
    obtain d b where d: "remove_section_at ?c1 i k n = Some (NoError, ?c1\<lparr>pcsCfgSections := us[i := d] @ b # r,
        lCfgSectionsNumber := int (length us)\<rparr>)" "section_wf d" "section_abs d = section_abs l" "section_built b"
      using remove_section_at_ok [of ?c1 us l r i k n] c us i assms(2,3) by auto
    define c' where "c' = c\<lparr>pcsCfgSections := us[i := d] @ b # r, lCfgSectionsNumber := int (length us)\<rparr>"
    have "removeCfgSection c (Some nm) k n = Some (NoError, c')"
      using c d se i us by (simp add: removeCfgSection_def config_locked_def c'_def)
    moreover have all: "list_all section_wf (us[i := d])"
      using c(4) us d(2) by (auto simp: list_all_iff dest!: set_update_subset_insert [THEN subsetD])
    have "config_wf c'" "config_sections c' = us[i := d]"
      by (rule config_wf_intro [of c' "us[i := d]" "b # r" cn]; use c d us all in \<open>simp add: c'_def\<close>)+
    moreover have "map section_abs (us[i := d]) = without_section i xs"
      using i us xs d(3) by (simp add: without_section_def list_update_append map_update nth_append butlast_append)
    ultimately show ?thesis using True c by (auto simp: config_abs_def c'_def)
  next
    case False
    then have "i = length ss" using first_index_le [of "section_named nm" xs] assms(5) xs by simp
    then have "removeCfgSection c (Some nm) k n = Some (CfgConfigErrors CFG_SECTION_NOTFOUND, c)"
      using c se by (simp add: removeCfgSection_def config_locked_def)
    then show ?thesis using False assms(1) by auto
  qed
qed

text \<open>The last section of a configuration is finished before it is copied to itself.\<close>

lemma removeCfgSection_of_last:
  assumes "config_wf c" "xs = cf_sections (config_abs c)" "Suc (first_index (section_named nm) xs) = length xs"
  shows "\<exists>c'. removeCfgSection c (Some nm) k n = Some (CfgSectionErrors CFG_CONFIGURATIONSECTION_COPY_FAILED, c') \<and>
    lCfgSectionsNumber c' = lCfgSectionsNumber c \<and> search_section c' (Some nm) = None"
proof -
  obtain ss r cn where c: "pcsCfgSections c = ss @ r" "lCfgSectionsNumber c = int (length ss)" "config_sections c = ss"
    "list_all section_wf ss" "stCfgStatus c = CFG_INITIALIZED" "configurationMutex c = Some 0"
    using config_wf_obtain [OF assms(1)] by metis
  have xs: "xs = map section_abs ss" using c assms(2) by (simp add: config_abs_def)
  then have "ss \<noteq> []" using assms(3) by auto
  then obtain us l where us: "ss = us @ [l]" by (cases ss rule: rev_cases) auto
  then have i: "first_index (section_named nm) xs = length us" using assms(3) xs by simp
  have se: "search_section (c\<lparr>configurationMutex := Some 1\<rparr>) (Some nm) = Some (length us)"
    using search_section_ok [OF assms(1), of nm] assms(2) i by simp
  have "section_wf l" using c us by simp
  then obtain s1 where s1: "ConfigurationSection_finish l = Some (NoError, s1)" "stCfgSectionStatus s1 = CFGSECTION_BUILDED" "pSectionName s1 = None"
    using ConfigurationSection_finish_ok [of l] by (auto simp: ConfigurationSection_finish_def section_wf_def Let_def split: if_splits bind_splits)
  have copy: "ConfigurationSection_copy s1 s1 k n = Some (CfgErrors CFG_OPERATIONNOTALLOWED, s1)"
    using s1 by (simp add: ConfigurationSection_copy_def)
  define c' where "c' = c\<lparr>pcsCfgSections := us @ s1 # r\<rparr>"
  have "removeCfgSection c (Some nm) k n = Some (CfgSectionErrors CFG_CONFIGURATIONSECTION_COPY_FAILED, c')"
    using c us se s1(1) copy by (simp add: removeCfgSection_def config_locked_def remove_section_at_def c'_def)
  moreover have "search_section c' (Some nm) = None"
  proof -
    have "\<not> section_named nm (section_abs u)" if "u \<in> set us" for u
    proof
      assume "section_named nm (section_abs u)"
      then have "first_index (section_named nm) (map section_abs us) < length (map section_abs us)"
        unfolding first_index_less using that by auto
      moreover have "first_index P (ys @ zs) = first_index P ys" if "first_index P ys < length ys" for P and ys zs :: "section_text list"
        using that by (induction ys) auto
      ultimately show False using i xs us by fastforce
    qed
    then have "ConfigurationSection_eq u (Some nm) = Some False" if "u \<in> set us" for u
      using that c(4) us by (auto simp: list_all_iff cfg_simps section_named_def)
    then have "object_index (\<lambda>s. ConfigurationSection_eq s (Some nm)) (us @ [s1]) = None"
      using s1(3) by (induction us) (auto simp: ConfigurationSection_eq_def)
    moreover have "nat (1 + int (length us)) = Suc (length us)" by simp
    ultimately show ?thesis using c us by (simp add: search_section_def c'_def del: nat_add_distrib)
  qed
  ultimately show ?thesis by (auto simp: c'_def)
qed

section \<open>Appending\<close>

definition new_section :: "string \<Rightarrow> bool \<Rightarrow> item_text \<Rightarrow> section_text" where
  "new_section nm cs it = \<lparr>se_name = nm, se_comment = [], se_date = None, se_case = cs, se_items = [it]\<rparr>"

definition new_item :: "string \<Rightarrow> bool \<Rightarrow> string \<Rightarrow> item_text" where
  "new_item nm cs v = \<lparr>it_name = nm, it_comment = [], it_case = cs, it_values = [v]\<rparr>"

text \<open>What an appending call makes of the sections: the first of the name is changed, or a new one comes last.\<close>

definition append_in_section :: "string \<Rightarrow> (section_text \<Rightarrow> section_text) \<Rightarrow> item_text \<Rightarrow> config_text \<Rightarrow> config_text" where
  "append_in_section nm f it a =
     (let xs = cf_sections a; i = first_index (section_named nm) xs
      in a\<lparr>cf_sections := if i < length xs then xs[i := f (xs ! i)] else xs @ [new_section nm (cf_case a) it]\<rparr>)"

definition append_item :: "item_text \<Rightarrow> section_text \<Rightarrow> section_text" where
  "append_item it s = s\<lparr>se_items := se_items s @ [it]\<rparr>"

definition append_value :: "string \<Rightarrow> string \<Rightarrow> bool \<Rightarrow> section_text \<Rightarrow> section_text" where
  "append_value nm v cs s =
     (let its = se_items s; i = first_index (item_named nm) its
      in s\<lparr>se_items := if i < length its then its[i := (its ! i)\<lparr>it_values := it_values (its ! i) @ [v]\<rparr>]
                       else its @ [new_item nm cs v]\<rparr>)"

lemma append_section_with_ok:
  assumes "config_wf c" "section_wf s" "item_wf it" "1 \<le> k" "1 \<le> n"
  shows "\<exists>c'. append_section_with c s (Some it) k n = Some (NoError, c') \<and> config_wf c' \<and>
    config_abs c' = config_abs c\<lparr>cf_sections := cf_sections (config_abs c) @ [append_item (item_abs it) (section_abs s)]\<rparr>"
proof -
  obtain s1 where s1: "section_appendCfgItem s (Some it) n = Some (NoError, s1)" "section_wf s1"
      "section_abs s1 = append_item (item_abs it) (section_abs s)"
    using section_appendCfgItem_ok [OF assms(2,3,5)] by (auto simp: append_item_def)
  obtain c' where c': "appendCfgSection c (Some s1) k n = Some (NoError, c')" "config_wf c'"
      "config_abs c' = config_abs c\<lparr>cf_sections := cf_sections (config_abs c) @ [section_abs s1]\<rparr>"
    using appendCfgSection_ok [OF assms(1) s1(2) assms(4,5)] by blast
  obtain b where "ConfigurationSection_finish s1 = Some (NoError, b)"
    using ConfigurationSection_finish_ok [OF s1(2)] by blast
  then show ?thesis using s1 c' by (simp add: append_section_with_def)
qed

lemma new_section_ok:
  assumes "1 \<le> k"
  shows "\<exists>s. ConfigurationSection_init ConfigurationSection_ctor (Some nm) (Some []) None cs k = (NoError, s) \<and> section_wf s \<and>
    append_item it (section_abs s) = new_section nm cs it"
  using ConfigurationSection_init_ok [OF section_ctor_built assms, of None nm "[]" cs]
  by (auto simp: append_item_def new_section_def)

lemma item_of_value_ok:
  assumes "1 \<le> n"
  shows "\<exists>it. item_of_value (Some nm) (Some v) cs n = Some (Inr it) \<and> item_wf it \<and> item_abs it = new_item nm cs v"
proof -
  obtain it where it: "ConfigurationItem_init ConfigurationItem_ctor (Some nm) (Some []) cs n = (NoError, it)" "item_wf it"
      "item_abs it = \<lparr>it_name = nm, it_comment = [], it_case = cs, it_values = []\<rparr>"
    using ConfigurationItem_init_ok [OF item_ctor_built assms] by blast
  then show ?thesis
    using item_appendItemValue_ok [OF it(2), of v] by (auto simp: item_of_value_def new_item_def)
qed

lemma section_append_value_ok:
  assumes "section_wf s" "1 \<le> n"
  shows "\<exists>s'. section_append_value s (Some nm) (Some v) cs n = Some (NoError, s') \<and> section_wf s' \<and>
    section_abs s' = append_value nm v cs (section_abs s)"
proof -
  define i where "i = first_index (item_named nm) (se_items (section_abs s))"
  note ptr = getPtrCfgItemByName_ok [OF assms(1), of nm, folded i_def]
  show ?thesis
  proof (cases "i < length (se_items (section_abs s))")
    case True
    note it = section_item [OF assms(1) True]
    obtain it' where it': "item_appendItemValue (section_items s ! i) (Some v) = Some (NoError, it')" "item_wf it'"
        "item_abs it' = (se_items (section_abs s) ! i)\<lparr>it_values := it_values (se_items (section_abs s) ! i) @ [v]\<rparr>"
      using item_appendItemValue_ok [OF it(2), of v] it(3) by auto
    obtain its where "arr_set (pciCfgItems s) (int i) it' = Some its" "section_wf (s\<lparr>pciCfgItems := its\<rparr>)"
        "section_abs (s\<lparr>pciCfgItems := its\<rparr>) = section_abs s\<lparr>se_items := (se_items (section_abs s))[i := item_abs it']\<rparr>"
      using section_set_item [OF assms(1) True it'(2)] by blast
    then show ?thesis
      using True ptr it(1) it' 
      by (simp add: section_append_value_def append_value_def i_def [symmetric] Let_def del: arr_get_int arr_get_Some arr_set_int)
  next
    case False
    obtain it where it: "item_of_value (Some nm) (Some v) cs n = Some (Inr it)" "item_wf it" "item_abs it = new_item nm cs v"
      using item_of_value_ok [OF assms(2)] by blast
    obtain s1 where s1: "section_appendCfgItem s (Some it) n = Some (NoError, s1)" "section_wf s1"
        "section_abs s1 = section_abs s\<lparr>se_items := se_items (section_abs s) @ [item_abs it]\<rparr>"
      using section_appendCfgItem_ok [OF assms(1) it(2) assms(2)] by blast
    obtain b where "ConfigurationItem_finish it = Some (NoError, b)" using ConfigurationItem_finish_ok [OF it(2)] by blast
    then show ?thesis
      using False ptr it s1 by (simp add: section_append_value_def append_value_def i_def [symmetric] Let_def)
  qed
qed

lemma config_appendCfgItem_ok:
  assumes "config_wf c" "item_wf it" "1 \<le> k" "1 \<le> n"
  shows "\<exists>c'. config_appendCfgItem c (Some nm) (Some it) k n = Some (NoError, c') \<and> config_wf c' \<and>
    config_abs c' = append_in_section nm (append_item (item_abs it)) (item_abs it) (config_abs c)"
proof -
  define i where "i = first_index (section_named nm) (cf_sections (config_abs c))"
  note se = search_section_ok [OF assms(1), of nm, folded i_def] config_number [OF assms(1)] config_ready [OF assms(1)]
  show ?thesis
  proof (cases "i < length (cf_sections (config_abs c))")
    case True
    note s = config_section [OF assms(1) True]
    obtain s1 where s1: "section_appendCfgItem (config_sections c ! i) (Some it) n = Some (NoError, s1)" "section_wf s1"
        "section_abs s1 = append_item (item_abs it) (cf_sections (config_abs c) ! i)"
      using section_appendCfgItem_ok [OF s(2) assms(2,4)] s(3) by (auto simp: append_item_def)
    obtain c' where "set_section c i s1 = Some c'" "config_wf c'"
        "config_abs c' = config_abs c\<lparr>cf_sections := (cf_sections (config_abs c))[i := section_abs s1]\<rparr>"
      using set_section_ok [OF assms(1) True s1(2)] by blast
    then show ?thesis
      using True se s(1) s1 
      by (simp add: config_appendCfgItem_def append_in_section_def i_def [symmetric] Let_def del: arr_get_int arr_get_Some)
  next
    case False
    then have i: "i = length (cf_sections (config_abs c))"
      using first_index_le [of "section_named nm" "cf_sections (config_abs c)"] by (simp add: i_def)
    have cs: "config_bIsCaseSensitive c = cf_case (config_abs c)" by (simp add: config_abs_def)
    obtain s where s: "ConfigurationSection_init ConfigurationSection_ctor (Some nm) (Some []) None (config_bIsCaseSensitive c) k = (NoError, s)"
        "section_wf s" "append_item (item_abs it) (section_abs s) = new_section nm (config_bIsCaseSensitive c) (item_abs it)"
      using new_section_ok [OF assms(3)] by blast
    show ?thesis
      using False se i s cs append_section_with_ok [OF assms(1) s(2) assms(2-4)]
      by (auto simp: config_appendCfgItem_def append_in_section_def i_def [symmetric] Let_def)
  qed
qed

lemma config_appendItemValue_ok:
  assumes "config_wf c" "1 \<le> k" "1 \<le> n" "cs = cf_case (config_abs c)"
  shows "\<exists>c'. config_appendItemValue c (Some nm) (Some inm) (Some v) k n = Some (NoError, c') \<and> config_wf c' \<and>
    config_abs c' = append_in_section nm (append_value inm v cs) (new_item inm cs v) (config_abs c)"
proof -
  define i where "i = first_index (section_named nm) (cf_sections (config_abs c))"
  note se = search_section_ok [OF assms(1), of nm, folded i_def] config_number [OF assms(1)] config_ready [OF assms(1)]
  have cs: "config_bIsCaseSensitive c = cs" using assms(4) by (simp add: config_abs_def)
  show ?thesis
  proof (cases "i < length (cf_sections (config_abs c))")
    case True
    note s = config_section [OF assms(1) True]
    obtain s1 where s1: "section_append_value (config_sections c ! i) (Some inm) (Some v) cs n = Some (NoError, s1)" "section_wf s1"
        "section_abs s1 = append_value inm v cs (cf_sections (config_abs c) ! i)"
      using section_append_value_ok [OF s(2) assms(3), of inm v cs] s(3) by auto
    obtain c' where "set_section c i s1 = Some c'" "config_wf c'"
        "config_abs c' = config_abs c\<lparr>cf_sections := (cf_sections (config_abs c))[i := section_abs s1]\<rparr>"
      using set_section_ok [OF assms(1) True s1(2)] by blast
    then show ?thesis
      using True se s(1) s1 cs
      by (simp add: config_appendItemValue_def append_in_section_def i_def [symmetric] Let_def del: arr_get_int arr_get_Some)
  next
    case False
    then have i: "i = length (cf_sections (config_abs c))"
      using first_index_le [of "section_named nm" "cf_sections (config_abs c)"] by (simp add: i_def)
    obtain it where it: "item_of_value (Some inm) (Some v) cs n = Some (Inr it)" "item_wf it" "item_abs it = new_item inm cs v"
      using item_of_value_ok [OF assms(3)] by blast
    obtain b where b: "ConfigurationItem_finish it = Some (NoError, b)" using ConfigurationItem_finish_ok [OF it(2)] by blast
    obtain s where s: "ConfigurationSection_init ConfigurationSection_ctor (Some nm) (Some []) None cs k = (NoError, s)"
        "section_wf s" "append_item (item_abs it) (section_abs s) = new_section nm cs (item_abs it)"
      using new_section_ok [OF assms(2)] by blast
    obtain c' where "append_section_with c s (Some it) k n = Some (NoError, c')" "config_wf c'"
        "config_abs c' = config_abs c\<lparr>cf_sections := cf_sections (config_abs c) @ [append_item (item_abs it) (section_abs s)]\<rparr>"
      using append_section_with_ok [OF assms(1) s(2) it(2) assms(2,3)] by blast
    then show ?thesis
      using False se i s cs it b assms(4)
      by (simp add: config_appendItemValue_def append_in_section_def i_def [symmetric] Let_def)
  qed
qed

section \<open>Calls on one section or item\<close>

text \<open>A call on an object follows a function on what the object stands for.\<close>

definition item_follows ::
  "(configuration_item \<Rightarrow> (lib_error \<times> configuration_item) option) \<Rightarrow> (item_text \<Rightarrow> lib_error \<times> item_text) \<Rightarrow> bool" where
  "item_follows f g \<longleftrightarrow>
     (\<forall>it. item_wf it \<longrightarrow>
        (\<exists>it'. f it = Some (fst (g (item_abs it)), it') \<and> item_wf it' \<and> item_abs it' = snd (g (item_abs it))))"

definition section_follows ::
  "(configuration_section \<Rightarrow> (lib_error \<times> configuration_section) option) \<Rightarrow> (section_text \<Rightarrow> lib_error \<times> section_text) \<Rightarrow> bool" where
  "section_follows f g \<longleftrightarrow>
     (\<forall>s. section_wf s \<longrightarrow>
        (\<exists>s'. f s = Some (fst (g (section_abs s)), s') \<and> section_wf s' \<and> section_abs s' = snd (g (section_abs s))))"

definition in_item :: "string \<Rightarrow> (item_text \<Rightarrow> lib_error \<times> item_text) \<Rightarrow> section_text \<Rightarrow> lib_error \<times> section_text" where
  "in_item nm g s =
     (let its = se_items s; i = first_index (item_named nm) its
      in if i < length its then (fst (g (its ! i)), s\<lparr>se_items := its[i := snd (g (its ! i))]\<rparr>)
         else (CfgSectionErrors CFG_CONFIGURATIONSECTION_GETPTRCFGITEMBYNAME_FAILED, s))"

definition in_section :: "string \<Rightarrow> (section_text \<Rightarrow> lib_error \<times> section_text) \<Rightarrow> config_text \<Rightarrow> lib_error \<times> config_text" where
  "in_section nm g a =
     (let xs = cf_sections a; i = first_index (section_named nm) xs
      in if i < length xs then (fst (g (xs ! i)), a\<lparr>cf_sections := xs[i := snd (g (xs ! i))]\<rparr>)
         else (CfgConfigErrors CFG_SECTION_NOTFOUND, a))"

lemma with_item_follows:
  assumes "item_follows f g"
  shows "section_follows (\<lambda>s. with_item s (Some nm) f) (in_item nm g)"
  unfolding section_follows_def
proof (intro allI impI)
  fix s assume s: "section_wf s"
  define i where "i = first_index (item_named nm) (se_items (section_abs s))"
  note ptr = getPtrCfgItemByName_ok [OF s, of nm, folded i_def]
  show "\<exists>s'. with_item s (Some nm) f = Some (fst (in_item nm g (section_abs s)), s') \<and> section_wf s' \<and>
    section_abs s' = snd (in_item nm g (section_abs s))"
  proof (cases "i < length (se_items (section_abs s))")
    case True
    note it = section_item [OF s True]
    let ?a = "se_items (section_abs s) ! i"
    obtain it' where it': "f (section_items s ! i) = Some (fst (g ?a), it')" "item_wf it'" "item_abs it' = snd (g ?a)"
      using assms it unfolding item_follows_def by metis
    obtain its where "arr_set (pciCfgItems s) (int i) it' = Some its" "section_wf (s\<lparr>pciCfgItems := its\<rparr>)"
        "section_abs (s\<lparr>pciCfgItems := its\<rparr>) = section_abs s\<lparr>se_items := (se_items (section_abs s))[i := item_abs it']\<rparr>"
      using section_set_item [OF s True it'(2)] by blast
    then show ?thesis
      using True ptr it(1) it'
      by (simp add: with_item_def in_item_def i_def [symmetric] Let_def del: arr_get_int arr_get_Some arr_set_int)
  next
    case False
    then show ?thesis using ptr s by (simp add: with_item_def in_item_def i_def [symmetric] Let_def)
  qed
qed

lemma with_section_ok:
  assumes "section_follows f g" "config_wf c"
  shows "\<exists>c'. with_section c (Some nm) f = Some (fst (in_section nm g (config_abs c)), c') \<and> config_wf c' \<and>
    config_abs c' = snd (in_section nm g (config_abs c))"
proof -
  define i where "i = first_index (section_named nm) (cf_sections (config_abs c))"
  note se = search_section_ok [OF assms(2), of nm, folded i_def] config_number [OF assms(2)] config_ready [OF assms(2)]
  show ?thesis
  proof (cases "i < length (cf_sections (config_abs c))")
    case True
    note s = config_section [OF assms(2) True]
    let ?a = "cf_sections (config_abs c) ! i"
    obtain s1 where s1: "f (config_sections c ! i) = Some (fst (g ?a), s1)" "section_wf s1" "section_abs s1 = snd (g ?a)"
      using assms(1) s unfolding section_follows_def by metis
    obtain c' where "set_section c i s1 = Some c'" "config_wf c'"
        "config_abs c' = config_abs c\<lparr>cf_sections := (cf_sections (config_abs c))[i := section_abs s1]\<rparr>"
      using set_section_ok [OF assms(2) True s1(2)] by blast
    then show ?thesis
      using True se s(1) s1
      by (simp add: with_section_def in_section_def i_def [symmetric] Let_def del: arr_get_int arr_get_Some)
  next
    case False
    then have "i = length (cf_sections (config_abs c))"
      using first_index_le [of "section_named nm" "cf_sections (config_abs c)"] by (simp add: i_def)
    then show ?thesis
      using se assms(2) by (simp add: with_section_def in_section_def i_def [symmetric] Let_def)
  qed
qed

text \<open>The calls themselves. A value is encrypted before it is stored, when the caller asks for it.\<close>

definition dated :: "string option \<Rightarrow> section_text \<Rightarrow> lib_error \<times> section_text" where
  "dated d s = (if d = None \<or> isValidDate d then (NoError, s\<lparr>se_date := d\<rparr>)
                else (CfgSectionErrors CFG_CONFIGURATIONSECTION_MODIFYSECTIONDATE_FAILED, s))"

definition stored :: "string \<Rightarrow> nat \<Rightarrow> security_level \<Rightarrow> item_text \<Rightarrow> lib_error \<times> item_text" where
  "stored v i level it =
     (if i < length (it_values it)
      then (NoError, it\<lparr>it_values := (it_values it)[i := if level = CFG_ENCRIPTION then crypted_text v else v]\<rparr>)
      else (CfgItemErrors CFG_CONFIGURATIONITEM_MODIFYITEMVALUE_FAILED, it))"

lemma item_modifyItemValue_beyond:
  assumes "item_wf it" "length (it_values (item_abs it)) \<le> i"
  shows "item_modifyItemValue it (Some v) (int i) = Some (CfgErrors CFG_ACTIVATION_WRONG, it)"
  using assms by (elim item_wf_obtain) (simp add: item_modifyItemValue_def item_abs_def)

lemma encrypted_value_eq: "NUL \<notin> set v \<Longrightarrow> encrypted_value v = Some (Inr (crypted_text v))"
  using encrypt_loop_eq [of "fresh_block (2 * length v + 1)" v "[]"] crypted_text_no_NUL [of v]
  by (simp add: encrypted_value_def encrypt_def getCryptedBufferLength_def mult.commute)

lemma decrypted_value_eq: "NUL \<notin> set v \<Longrightarrow> decrypted_value (crypted_text v) = Some (Inr v)"
  using decrypt_loop_eq [of "fresh_block (length v + 1)" v "[]" "[]"]
  by (simp add: decrypted_value_def decrypt_def getDecryptedBufferLength_def)

lemma store_value_follows:
  assumes "level = CFG_ENCRIPTION \<longrightarrow> NUL \<notin> set v"
  shows "item_follows (\<lambda>it. store_value it (Some v) (int i) level) (stored v i level)"
  unfolding item_follows_def
proof (intro allI impI)
  fix it assume it: "item_wf it"
  define w where "w = (if level = CFG_ENCRIPTION then crypted_text v else v)"
  have st: "store_value it (Some v) (int i) level =
      map_option (failing_as (CfgItemErrors CFG_CONFIGURATIONITEM_MODIFYITEMVALUE_FAILED)) (item_modifyItemValue it (Some w) (int i))"
    using assms encrypted_value_eq [of v] by (simp add: store_value_def w_def)
  show "\<exists>it'. store_value it (Some v) (int i) level = Some (fst (stored v i level (item_abs it)), it') \<and> item_wf it' \<and>
    item_abs it' = snd (stored v i level (item_abs it))"
    using st it item_modifyItemValue_ok [OF it, of i w] item_modifyItemValue_beyond [OF it, of i w]
    by (cases "i < length (it_values (item_abs it))") (auto simp: stored_def failing_as_def w_def)
qed

lemma calls_follow:
  "section_follows (\<lambda>s. Some (failing_as (CfgSectionErrors CFG_CONFIGURATIONSECTION_MODIFYSECTIONCOMMENT_FAILED)
     (section_modifySectionComment s (Some cm)))) (\<lambda>s. (NoError, s\<lparr>se_comment := cm\<rparr>))"
  "section_follows (\<lambda>s. Some (failing_as (CfgSectionErrors CFG_CONFIGURATIONSECTION_MODIFYSECTIONDATE_FAILED)
     (section_modifySectionDate s d))) (dated d)"
  "item_follows (\<lambda>it. Some (failing_as (CfgItemErrors CFG_CONFIGURATIONITEM_MODIFYITEMCOMMENT_FAILED)
     (item_modifyItemComment it (Some cm)))) (\<lambda>it. (NoError, it\<lparr>it_comment := cm\<rparr>))"
  using section_modifySectionComment_ok [of _ cm] section_modifySectionDate_ok [of _ d] item_modifyItemComment_ok [of _ cm]
  by (fastforce simp: section_follows_def item_follows_def failing_as_def dated_def)+

end
