(* ===== verification/ConfigProps.thy ===== *)
theory ConfigProps
  imports ConfigOps Simulation
begin

text \<open>
  The queries of a configuration and its copy, runs of calls against the lists of the abstraction, and the properties.
\<close>

section \<open>Queries\<close>

text \<open>A key a caller may give: a name, or an index that is not negative (no call checks the lower end).\<close>

fun key_ok :: "cfg_key \<Rightarrow> bool" where
  "key_ok (ByName nm) = (nm \<noteq> None)"
| "key_ok (ByIndex i) = (0 \<le> i)"

fun section_at :: "cfg_key \<Rightarrow> config_text \<Rightarrow> section_text option" where
  "section_at (ByName nm) a = find (section_named (the nm)) (cf_sections a)"
| "section_at (ByIndex i) a = (if nat i < length (cf_sections a) then Some (cf_sections a ! nat i) else None)"

fun item_at :: "cfg_key \<Rightarrow> section_text \<Rightarrow> item_text option" where
  "item_at (ByName nm) a = find (item_named (the nm)) (se_items a)"
| "item_at (ByIndex i) a = (if nat i < length (se_items a) then Some (se_items a ! nat i) else None)"

lemma find_first_index:
  "find P xs = (if first_index P xs < length xs then Some (xs ! first_index P xs) else None)"
  by (induction xs) auto

lemma section_of_ok:
  assumes "config_wf c" "key_ok key" "1 \<le> k" "1 \<le> n"
  shows "case section_at key (config_abs c) of
      None \<Rightarrow> section_of c key k n = Some (case key of ByName _ \<Rightarrow> CfgConfigErrors CFG_SECTION_NOTFOUND
                | ByIndex _ \<Rightarrow> CfgErrors CFG_ACTIVATION_WRONG, ConfigurationSection_ctor)
    | Some a \<Rightarrow> \<exists>s. section_of c key k n = Some (NoError, s) \<and> section_wf s \<and> section_abs s = a"
proof (cases key)
  case (ByName nm)
  then obtain t where t: "nm = Some t" using assms(2) by auto
  show ?thesis
    using getCfgSectionByName_ok [OF assms(1) section_ctor_built assms(3,4), of t] ByName t
    by (auto simp: section_of_def find_first_index Let_def)
next
  case (ByIndex i)
  then show ?thesis
    using getCfgSectionByIndex_ok [OF assms(1) _ section_ctor_built assms(3,4), of i] assms(2)
    by (auto simp: section_of_def)
qed

lemma item_of_ok:
  assumes "section_wf s" "key_ok key" "1 \<le> n"
  shows "case item_at key (section_abs s) of
      None \<Rightarrow> item_of s key ConfigurationItem_ctor n = Some (case key of ByName _ \<Rightarrow> CfgSectionErrors CFG_ITEM_NOTFOUND
                | ByIndex _ \<Rightarrow> CfgErrors CFG_ACTIVATION_WRONG, ConfigurationItem_ctor)
    | Some a \<Rightarrow> \<exists>it. item_of s key ConfigurationItem_ctor n = Some (NoError, it) \<and> item_wf it \<and> item_abs it = a"
proof (cases key)
  case (ByName nm)
  then obtain t where t: "nm = Some t" using assms(2) by auto
  show ?thesis
    using section_getCfgItemByName_ok [OF assms(1) item_ctor_built assms(3), of t] ByName t
    by (auto simp: item_of_def find_first_index Let_def)
next
  case (ByIndex i)
  then show ?thesis
    using section_getCfgItemByIndex_ok [OF assms(1) _ item_ctor_built assms(3), of i] assms(2)
    by (auto simp: item_of_def)
qed

definition items_number :: "cfg_key \<Rightarrow> config_text \<Rightarrow> lib_error + int" where
  "items_number key a =
     (case section_at key a of None \<Rightarrow> Inl (section_failed key) | Some s \<Rightarrow> Inr (int (length (se_items s))))"

definition values_number :: "cfg_key \<Rightarrow> cfg_key \<Rightarrow> config_text \<Rightarrow> lib_error + int" where
  "values_number key ikey a =
     (case section_at key a of
        None \<Rightarrow> Inl (section_failed key)
      | Some s \<Rightarrow> (case item_at ikey s of None \<Rightarrow> Inl (item_failed ikey) | Some it \<Rightarrow> Inr (int (length (it_values it)))))"

text \<open>The value as it is stored.\<close>

definition value_at :: "string \<Rightarrow> string \<Rightarrow> int \<Rightarrow> nat \<Rightarrow> config_text \<Rightarrow> lib_error + string" where
  "value_at nm inm m i a =
     (case section_at (ByName (Some nm)) a of
        None \<Rightarrow> Inl (CfgConfigErrors CFG_SECTION_NOTFOUND)
      | Some s \<Rightarrow>
          (case item_at (ByName (Some inm)) s of
             None \<Rightarrow> Inl (CfgSectionErrors CFG_ITEM_NOTFOUND)
           | Some it \<Rightarrow>
               if length (it_values it) \<le> i then Inl (CfgErrors CFG_ACTIVATION_WRONG)
               else if m \<le> int (length (it_values it ! i)) then Inl (CfgItemErrors CFG_CONFIGURATIONITEM_BUFFERTOOSHORT)
               else Inr (it_values it ! i)))"

lemma getItemsNumber_ok:
  assumes "config_wf c" "key_ok key" "1 \<le> k" "1 \<le> n"
  shows "getItemsNumber c key k n = Some (items_number key (config_abs c))"
proof (cases "section_at key (config_abs c)")
  case None
  then show ?thesis
    using section_of_ok [OF assms] config_ready [OF assms(1)]
    by (auto simp: getItemsNumber_def items_number_def split: cfg_key.splits)
next
  case (Some a)
  then obtain s where s: "section_of c key k n = Some (NoError, s)" "section_wf s" "section_abs s = a"
    using section_of_ok [OF assms] by auto
  obtain b where "ConfigurationSection_finish s = Some (NoError, b)"
    using ConfigurationSection_finish_ok [OF s(2)] by blast
  then show ?thesis
    using Some s config_ready [OF assms(1)] by (simp add: getItemsNumber_def items_number_def cfg_simps)
qed

lemma config_getCfgItemByName_ok:
  assumes "config_wf c" "1 \<le> k" "1 \<le> n"
  shows "case section_at (ByName (Some nm)) (config_abs c) of
      None \<Rightarrow> config_getCfgItemByName c (ByName (Some nm)) (Some inm) ConfigurationItem_ctor k n =
        Some (CfgConfigErrors CFG_SECTION_NOTFOUND, ConfigurationItem_ctor)
    | Some s \<Rightarrow>
        (case item_at (ByName (Some inm)) s of
           None \<Rightarrow> config_getCfgItemByName c (ByName (Some nm)) (Some inm) ConfigurationItem_ctor k n =
             Some (CfgSectionErrors CFG_ITEM_NOTFOUND, ConfigurationItem_ctor)
         | Some a \<Rightarrow> \<exists>it. config_getCfgItemByName c (ByName (Some nm)) (Some inm) ConfigurationItem_ctor k n = Some (NoError, it) \<and>
             item_wf it \<and> item_abs it = a)"
proof (cases "section_at (ByName (Some nm)) (config_abs c)")
  case None
  then show ?thesis
    using section_of_ok [OF assms(1) _ assms(2,3), of "ByName (Some nm)"] config_ready [OF assms(1)]
    by (simp add: config_getCfgItemByName_def del: section_at.simps)
next
  case (Some a)
  then obtain s where s: "section_of c (ByName (Some nm)) k n = Some (NoError, s)" "section_wf s" "section_abs s = a"
    using section_of_ok [OF assms(1) _ assms(2,3), of "ByName (Some nm)"] by (auto simp del: section_at.simps)
  obtain b where b: "ConfigurationSection_finish s = Some (NoError, b)"
    using ConfigurationSection_finish_ok [OF s(2)] by blast
  show ?thesis
  proof (cases "item_at (ByName (Some inm)) a")
    case None
    then have "section_getCfgItemByName s (Some inm) ConfigurationItem_ctor n = Some (CfgSectionErrors CFG_ITEM_NOTFOUND, ConfigurationItem_ctor)"
      using item_of_ok [OF s(2) _ assms(3), of "ByName (Some inm)"] s(3) by (simp add: item_of_def del: item_at.simps)
    then show ?thesis
      using Some None s(1) b config_ready [OF assms(1)]
      by (simp add: config_getCfgItemByName_def del: section_at.simps item_at.simps)
  next
    case (Some t)
    then obtain it where "section_getCfgItemByName s (Some inm) ConfigurationItem_ctor n = Some (NoError, it)" "item_wf it" "item_abs it = t"
      using item_of_ok [OF s(2) _ assms(3), of "ByName (Some inm)"] s(3) by (auto simp: item_of_def simp del: item_at.simps)
    then show ?thesis
      using \<open>section_at (ByName (Some nm)) (config_abs c) = Some a\<close> Some s(1) b config_ready [OF assms(1)]
      by (simp add: config_getCfgItemByName_def del: section_at.simps item_at.simps)
  qed
qed

lemma config_getItemValue_ok:
  assumes "config_wf c" "1 \<le> k" "1 \<le> n"
  shows "config_getItemValue c (Some nm) (Some inm) m (int i) level k n =
    (case value_at nm inm m i (config_abs c) of
       Inl e \<Rightarrow> Some (Inl e)
     | Inr v \<Rightarrow> if level = CFG_ENCRIPTION \<and> v \<noteq> [] then decrypted_value v else Some (Inr v))"
proof (cases "section_at (ByName (Some nm)) (config_abs c)")
  case None
  then show ?thesis
    using config_getCfgItemByName_ok [OF assms, of nm inm] config_ready [OF assms(1)]
    by (simp add: config_getItemValue_def value_at_def del: section_at.simps)
next
  case (Some s)
  show ?thesis
  proof (cases "item_at (ByName (Some inm)) s")
    case None
    then show ?thesis
      using Some config_getCfgItemByName_ok [OF assms, of nm inm] config_ready [OF assms(1)]
      by (simp add: config_getItemValue_def value_at_def del: section_at.simps item_at.simps)
  next
    case item: (Some a)
    then obtain it where it: "config_getCfgItemByName c (ByName (Some nm)) (Some inm) ConfigurationItem_ctor k n = Some (NoError, it)"
        "item_wf it" "item_abs it = a"
      using Some config_getCfgItemByName_ok [OF assms, of nm inm] by (auto simp del: section_at.simps item_at.simps)
    obtain b where b: "ConfigurationItem_finish it = Some (NoError, b)" using ConfigurationItem_finish_ok [OF it(2)] by blast
    show ?thesis
      using Some item it(1,3) b item_getItemValue_ok [OF it(2), of "int i" m] config_ready [OF assms(1)]
      by (simp add: config_getItemValue_def value_at_def del: section_at.simps item_at.simps)
  qed
qed

lemma config_getItemValuesNumber_ok:
  assumes "config_wf c" "key_ok key" "key_ok ikey" "1 \<le> k" "1 \<le> n"
  shows "config_getItemValuesNumber c key ikey k n = Some (values_number key ikey (config_abs c))"
proof (cases "section_at key (config_abs c)")
  case None
  then show ?thesis
    using section_of_ok [OF assms(1,2,4,5)] config_ready [OF assms(1)]
    by (auto simp: config_getItemValuesNumber_def values_number_def split: cfg_key.splits)
next
  case (Some a)
  then obtain s where s: "section_of c key k n = Some (NoError, s)" "section_wf s" "section_abs s = a"
    using section_of_ok [OF assms(1,2,4,5)] by auto
  obtain b where b: "ConfigurationSection_finish s = Some (NoError, b)"
    using ConfigurationSection_finish_ok [OF s(2)] by blast
  show ?thesis
  proof (cases "item_at ikey a")
    case None
    then show ?thesis
      using Some s b item_of_ok [OF s(2) assms(3,5)] config_ready [OF assms(1)]
      by (auto simp: config_getItemValuesNumber_def values_number_def split: cfg_key.splits)
  next
    case item: (Some t)
    then obtain it where it: "item_of s ikey ConfigurationItem_ctor n = Some (NoError, it)" "item_wf it" "item_abs it = t"
      using item_of_ok [OF s(2) assms(3,5)] s(3) by auto
    obtain d where "ConfigurationItem_finish it = Some (NoError, d)" using ConfigurationItem_finish_ok [OF it(2)] by blast
    then show ?thesis
      using Some item s b it config_ready [OF assms(1)]
      by (simp add: config_getItemValuesNumber_def values_number_def cfg_simps)
  qed
qed

section \<open>Copy\<close>

lemma copy_config_sections_ok:
  assumes "config_wf src" "config_wf dst" "section_built cs" "i + j = length (cf_sections (config_abs src))" "1 \<le> k" "1 \<le> n"
  shows "\<exists>dst'. copy_config_sections j (int i) cs dst src k n = Some (NoError, dst') \<and> config_wf dst' \<and>
    config_abs dst' = config_abs dst\<lparr>cf_sections := cf_sections (config_abs dst) @ drop i (cf_sections (config_abs src))\<rparr>"
  using assms(2-4)
proof (induction j arbitrary: i dst cs)
  case 0
  then show ?case by simp
next
  case (Suc j)
  let ?ss = "cf_sections (config_abs src)"
  have i: "i < length ?ss" using Suc.prems by simp
  obtain c1 where c1: "getCfgSectionByIndex src (int i) cs k n = Some (NoError, c1)" "section_wf c1" "section_abs c1 = ?ss ! i"
    using getCfgSectionByIndex_ok [OF assms(1) _ Suc.prems(2) assms(5,6), of "int i"] i by auto
  obtain d1 where d1: "appendCfgSection dst (Some c1) k n = Some (NoError, d1)" "config_wf d1"
      "config_abs d1 = config_abs dst\<lparr>cf_sections := cf_sections (config_abs dst) @ [?ss ! i]\<rparr>"
    using appendCfgSection_ok [OF Suc.prems(1) c1(2) assms(5,6)] c1(3) by auto
  obtain c2 where c2: "ConfigurationSection_finish c1 = Some (NoError, c2)" "section_built c2"
    using ConfigurationSection_finish_ok [OF c1(2)] by blast
  obtain d2 where "copy_config_sections j (int (Suc i)) c2 d1 src k n = Some (NoError, d2)" "config_wf d2"
      "config_abs d2 = config_abs d1\<lparr>cf_sections := cf_sections (config_abs d1) @ drop (Suc i) ?ss\<rparr>"
    using Suc.IH [OF d1(2) c2(2), of "Suc i"] Suc.prems(3) by auto
  then show ?case using c1 d1 c2 i by (simp add: add.commute Cons_nth_drop_Suc)
qed

lemma Config_copy_ok:
  assumes "config_built dst" "config_wf src" "1 \<le> m" "1 \<le> k" "1 \<le> n"
  shows "\<exists>dst'. Config_copy dst src m k n = Some (NoError, dst') \<and> config_wf dst' \<and> config_abs dst' = config_abs src"
proof -
  let ?a = "config_abs src"
  have nm: "length (cf_name ?a) < CFG_MAXCONFIGNAMELENGTH"
    using assms(2) by (elim config_wf_obtain) (simp add: config_abs_def)
  obtain d1 where d1: "Config_init dst (Some (cf_name ?a)) (cf_case ?a) m = (NoError, d1)"
      "config_wf d1" "config_abs d1 = \<lparr>cf_name = cf_name ?a, cf_case = cf_case ?a, cf_sections = []\<rparr>"
    using Config_init_ok [OF assms(1,3) nm] by blast
  obtain d2 where "copy_config_sections (length (cf_sections ?a)) 0 ConfigurationSection_ctor d1 src k n = Some (NoError, d2)" "config_wf d2"
      "config_abs d2 = config_abs d1\<lparr>cf_sections := cf_sections (config_abs d1) @ cf_sections ?a\<rparr>"
    using copy_config_sections_ok [OF assms(2) d1(2) section_ctor_built, of 0 "length (cf_sections ?a)" k n] assms(4,5) by auto
  then show ?thesis
    using d1 assms(1) config_getters [OF assms(2)] config_ready [OF assms(2)]
    by (simp add: Config_copy_def config_built_def)
qed

section \<open>Runs of calls\<close>

datatype cfg_call =
    RenameConfig string
  | AppendSection configuration_section
  | RemoveSection string
  | AppendItem string configuration_item
  | AppendValue string string string
  | SectionComment string string
  | SectionDate string "string option"
  | ItemComment string string string
  | ItemValue string string string nat security_level
  | ItemsNumber cfg_key
  | ValuesNumber cfg_key cfg_key
  | ValueOf string string int nat

datatype cfg_answer = Done lib_error | Number "lib_error + int" | Value "lib_error + string"

definition done_call :: "(lib_error \<times> 'a) option \<Rightarrow> (cfg_answer \<times> 'a) option" where
  "done_call = map_option (map_prod Done id)"

fun config_exec :: "int \<Rightarrow> int \<Rightarrow> cfg_call \<Rightarrow> config \<Rightarrow> (cfg_answer \<times> config) option" where
  "config_exec k n (RenameConfig nm) c = done_call (modifyConfigName c (Some nm))"
| "config_exec k n (AppendSection s) c = done_call (appendCfgSection c (Some s) k n)"
| "config_exec k n (RemoveSection nm) c = done_call (removeCfgSection c (Some nm) k n)"
| "config_exec k n (AppendItem nm it) c = done_call (config_appendCfgItem c (Some nm) (Some it) k n)"
| "config_exec k n (AppendValue nm inm v) c = done_call (config_appendItemValue c (Some nm) (Some inm) (Some v) k n)"
| "config_exec k n (SectionComment nm cm) c = done_call (config_modifySectionComment c (Some nm) (Some cm))"
| "config_exec k n (SectionDate nm d) c = done_call (config_modifySectionDate c (Some nm) d)"
| "config_exec k n (ItemComment nm inm cm) c = done_call (config_modifyItemComment c (Some nm) (Some inm) (Some cm))"
| "config_exec k n (ItemValue nm inm v i level) c = done_call (config_modifyItemValue c (Some nm) (Some inm) (Some v) (int i) level)"
| "config_exec k n (ItemsNumber key) c = map_option (\<lambda>r. (Number r, c)) (getItemsNumber c key k n)"
| "config_exec k n (ValuesNumber key ikey) c = map_option (\<lambda>r. (Number r, c)) (config_getItemValuesNumber c key ikey k n)"
| "config_exec k n (ValueOf nm inm m i) c =
     map_option (\<lambda>r. (Value r, c)) (config_getItemValue c (Some nm) (Some inm) m (int i) CFG_NOENCRIPTION k n)"

fun config_spec :: "cfg_call \<Rightarrow> config_text \<Rightarrow> cfg_answer \<times> config_text" where
  "config_spec (RenameConfig nm) a =
     (if length nm < CFG_MAXCONFIGNAMELENGTH then (Done NoError, a\<lparr>cf_name := nm\<rparr>) else (Done (CfgErrors CFG_ACTIVATION_WRONG), a))"
| "config_spec (AppendSection s) a = (Done NoError, a\<lparr>cf_sections := cf_sections a @ [section_abs s]\<rparr>)"
| "config_spec (RemoveSection nm) a =
     (let xs = cf_sections a; i = first_index (section_named nm) xs
      in if i < length xs then (Done NoError, a\<lparr>cf_sections := without_section i xs\<rparr>)
         else (Done (CfgConfigErrors CFG_SECTION_NOTFOUND), a))"
| "config_spec (AppendItem nm it) a = (Done NoError, append_in_section nm (append_item (item_abs it)) (item_abs it) a)"
| "config_spec (AppendValue nm inm v) a =
     (Done NoError, append_in_section nm (append_value inm v (cf_case a)) (new_item inm (cf_case a) v) a)"
| "config_spec (SectionComment nm cm) a = map_prod Done id (in_section nm (\<lambda>s. (NoError, s\<lparr>se_comment := cm\<rparr>)) a)"
| "config_spec (SectionDate nm d) a = map_prod Done id (in_section nm (dated d) a)"
| "config_spec (ItemComment nm inm cm) a =
     map_prod Done id (in_section nm (in_item inm (\<lambda>it. (NoError, it\<lparr>it_comment := cm\<rparr>))) a)"
| "config_spec (ItemValue nm inm v i level) a = map_prod Done id (in_section nm (in_item inm (stored v i level)) a)"
| "config_spec (ItemsNumber key) a = (Number (items_number key a), a)"
| "config_spec (ValuesNumber key ikey) a = (Number (values_number key ikey a), a)"
| "config_spec (ValueOf nm inm m i) a = (Value (value_at nm inm m i a), a)"

text \<open>The section to remove is not the last one; the other calls need no more than objects and keys that are in order.\<close>

fun config_call_ok :: "cfg_call \<Rightarrow> config_text \<Rightarrow> bool" where
  "config_call_ok (AppendSection s) a = section_wf s"
| "config_call_ok (RemoveSection nm) a = (Suc (first_index (section_named nm) (cf_sections a)) \<noteq> length (cf_sections a))"
| "config_call_ok (AppendItem nm it) a = item_wf it"
| "config_call_ok (ItemValue nm inm v i level) a = (level = CFG_ENCRIPTION \<longrightarrow> NUL \<notin> set v)"
| "config_call_ok (ItemsNumber key) a = key_ok key"
| "config_call_ok (ValuesNumber key ikey) a = (key_ok key \<and> key_ok ikey)"
| "config_call_ok _ a = True"

definition config_rel :: "config \<Rightarrow> config_text \<Rightarrow> bool" where
  "config_rel c a \<longleftrightarrow> config_wf c \<and> config_abs c = a"

lemma config_step:
  assumes "config_wf c" "config_call_ok p (config_abs c)" "1 \<le> k" "1 \<le> n"
  shows "\<exists>c'. config_exec k n p c = Some (fst (config_spec p (config_abs c)), c') \<and> config_wf c' \<and>
    config_abs c' = snd (config_spec p (config_abs c))"
proof (cases p)
  case (RenameConfig nm)
  then show ?thesis using modifyConfigName_ok [OF assms(1), of nm] by (auto simp: done_call_def)
next
  case (AppendSection s)
  then show ?thesis using appendCfgSection_ok [OF assms(1) _ assms(3,4), of s] assms(2) by (auto simp: done_call_def)
next
  case (RemoveSection nm)
  then show ?thesis
    using removeCfgSection_ok [OF assms(1,3,4) refl refl, of nm] assms(2) by (auto simp: done_call_def Let_def)
next
  case (AppendItem nm it)
  then show ?thesis using config_appendCfgItem_ok [OF assms(1) _ assms(3,4), of it nm] assms(2) by (auto simp: done_call_def)
next
  case (AppendValue nm inm v)
  then show ?thesis using config_appendItemValue_ok [OF assms(1,3,4) refl, of nm inm v] by (auto simp: done_call_def)
next
  case (SectionComment nm cm)
  then show ?thesis
    using with_section_ok [OF calls_follow(1) assms(1)] by (auto simp: done_call_def config_modifySectionComment_def)
next
  case (SectionDate nm d)
  then show ?thesis
    using with_section_ok [OF calls_follow(2) assms(1)] by (auto simp: done_call_def config_modifySectionDate_def)
next
  case (ItemComment nm inm cm)
  then show ?thesis
    using with_section_ok [OF with_item_follows [OF calls_follow(3)] assms(1)]
    by (auto simp: done_call_def config_modifyItemComment_def)
next
  case (ItemValue nm inm v i level)
  then show ?thesis
    using with_section_ok [OF with_item_follows [OF store_value_follows] assms(1)] assms(2)
    by (auto simp: done_call_def config_modifyItemValue_def)
next
  case (ItemsNumber key)
  then show ?thesis using getItemsNumber_ok [OF assms(1) _ assms(3,4), of key] assms(1,2) by simp
next
  case (ValuesNumber key ikey)
  then show ?thesis using config_getItemValuesNumber_ok [OF assms(1) _ _ assms(3,4), of key ikey] assms(1,2) by simp
next
  case (ValueOf nm inm m i)
  then show ?thesis
    using config_getItemValue_ok [OF assms(1,3,4), of nm inm m i CFG_NOENCRIPTION] assms(1) by (simp split: sum.splits)
qed

interpretation config_runs: simulation "config_exec 5 20" config_spec config_rel config_call_ok
  by unfold_locales (use config_step [where k = 5 and n = 20] in \<open>auto simp: config_rel_def\<close>)

section \<open>What is stored is found\<close>

lemma first_index_update: "first_index P xs < length xs \<Longrightarrow> P y \<Longrightarrow> first_index P (xs[first_index P xs := y]) = first_index P xs"
  by (induction xs) auto

lemma first_index_append: "\<not> first_index P xs < length xs \<Longrightarrow> P y \<Longrightarrow> first_index P (xs @ [y]) = length xs"
  by (induction xs) (auto split: if_splits)

lemma names_equal_refl [simp]: "names_equal cs a a"
  by (simp add: names_equal_def)

lemma find_update:
  assumes "first_index P xs < length xs" "P y"
  shows "find P (xs[first_index P xs := y]) = Some y"
  using assms by (simp add: find_first_index first_index_update)

lemma find_append:
  assumes "\<not> first_index P xs < length xs" "P y"
  shows "find P (xs @ [y]) = Some y"
  using assms by (simp add: find_first_index first_index_append)

lemma stored_value_at:
  assumes "fst (in_section nm (in_item inm (stored v i level)) a) = NoError"
  shows "value_at nm inm m i (snd (in_section nm (in_item inm (stored v i level)) a)) =
    (let w = if level = CFG_ENCRIPTION then crypted_text v else v
     in if m \<le> int (length w) then Inl (CfgItemErrors CFG_CONFIGURATIONITEM_BUFFERTOOSHORT) else Inr w)"
proof -
  let ?xs = "cf_sections a"
  let ?i = "first_index (section_named nm) ?xs"
  let ?its = "se_items (?xs ! ?i)"
  let ?j = "first_index (item_named inm) ?its"
  have lt: "?i < length ?xs" "?j < length ?its" "i < length (it_values (?its ! ?j))"
    using assms by (auto simp: in_section_def in_item_def stored_def Let_def split: if_splits)
  let ?it = "snd (stored v i level (?its ! ?j))"
  let ?s = "(?xs ! ?i)\<lparr>se_items := ?its[?j := ?it]\<rparr>"
  have "section_named nm ?s" using first_index_holds [OF lt(1)] by (simp add: section_named_def)
  moreover have "item_named inm ?it"
    using first_index_holds [OF lt(2)] lt(3) by (simp add: item_named_def stored_def)
  ultimately show ?thesis
    using lt by (simp add: value_at_def in_section_def in_item_def Let_def find_update stored_def)
qed

lemma appended_value_at:
  fixes a :: config_text and nm inm v :: string and cs :: bool
  defines "b \<equiv> append_in_section nm (append_value inm v cs) (new_item inm cs v) a"
  assumes "cs = cf_case a"
  shows "\<exists>j. values_number (ByName (Some nm)) (ByName (Some inm)) b = Inr (int (Suc j)) \<and>
    (int (length v) < m \<longrightarrow> value_at nm inm m j b = Inr v)"
proof -
  let ?xs = "cf_sections a"
  let ?i = "first_index (section_named nm) ?xs"
  obtain s it where s: "section_at (ByName (Some nm)) b = Some s" "item_at (ByName (Some inm)) s = Some it"
      "\<exists>vs. it_values it = vs @ [v]"
  proof (cases "?i < length ?xs")
    case True
    let ?s = "append_value inm v cs (?xs ! ?i)"
    let ?its = "se_items (?xs ! ?i)"
    let ?j = "first_index (item_named inm) ?its"
    have s: "section_named nm ?s"
      using first_index_holds [OF True] by (simp add: section_named_def append_value_def Let_def)
    show ?thesis
    proof (cases "?j < length ?its")
      case j: True
      let ?it = "(?its ! ?j)\<lparr>it_values := it_values (?its ! ?j) @ [v]\<rparr>"
      have "item_named inm ?it" using first_index_holds [OF j] by (simp add: item_named_def)
      then show ?thesis
        using that [of ?s ?it] True j s by (simp add: b_def append_in_section_def find_update append_value_def Let_def)
    next
      case j: False
      have "item_named inm (new_item inm cs v)" by (simp add: item_named_def new_item_def)
      then show ?thesis
        using that [of ?s "new_item inm cs v"] True j s
        by (simp add: b_def append_in_section_def find_update find_append append_value_def Let_def)
          (simp add: new_item_def)
    qed
  next
    case False
    let ?s = "new_section nm cs (new_item inm cs v)"
    have "section_named nm ?s" by (simp add: section_named_def new_section_def)
    then show ?thesis
      using that [of ?s "new_item inm cs v"] False assms(2)
      by (simp add: b_def append_in_section_def find_append Let_def) (simp add: new_section_def new_item_def item_named_def)
  qed
  then obtain vs where "it_values it = vs @ [v]" by blast
  then show ?thesis
    using s by (intro exI [of _ "length vs"]) (simp add: values_number_def value_at_def del: section_at.simps item_at.simps)
qed

section \<open>Properties\<close>


definition sample_config :: config where
  "sample_config = snd (Config_init Config_ctor (Some ''cfg'') False 1)"

lemma sample_config_wf: "config_wf sample_config"
  by (auto simp: sample_config_def Config_init_def Config_ctor_def PMutex_init_def config_wf_def CFG_MAXCONFIGNAMELENGTH_def)

lemma sample_config_abs: "config_abs sample_config = \<lparr>cf_name = ''cfg'', cf_case = False, cf_sections = []\<rparr>"
  by code_simp

definition sample_calls :: "cfg_call list" where
  "sample_calls = [AppendValue ''Net'' ''host'' ''a'', AppendValue ''Log'' ''file'' ''x'', AppendValue ''net'' ''HOST'' ''b'',
     RemoveSection ''net'', ValueOf ''LOG'' ''file'' 10 0, ValueOf ''net'' ''host'' 10 0]"


text \<open>C17: a value that is stored with encryption, in any position of an item, is read back as it was with decryption; the
  caller's buffer has room for the encrypted value.\<close>

theorem Config_encrypted_value_roundtrip:
  assumes "config_wf c" "NUL \<notin> set v" "2 * int (length v) < m"
    "config_modifyItemValue c (Some nm) (Some inm) (Some v) (int i) CFG_ENCRIPTION = Some (NoError, c')"
  shows "config_getItemValue c' (Some nm) (Some inm) m (int i) CFG_ENCRIPTION 5 20 = Some (Inr v)"
proof -
  let ?r = "in_section nm (in_item inm (stored v i CFG_ENCRIPTION)) (config_abs c)"
  have c': "fst ?r = NoError" "config_wf c'" "config_abs c' = snd ?r"
    using with_section_ok [OF with_item_follows [OF store_value_follows [of CFG_ENCRIPTION v i]] assms(1), of nm inm] assms(2,4)
    by (auto simp: config_modifyItemValue_def)
  have "value_at nm inm m i (config_abs c') = Inr (crypted_text v)"
    unfolding c'(3) stored_value_at [OF c'(1)] using assms(3) by simp
  moreover have "crypted_text v = [] \<longleftrightarrow> v = []" by (metis crypted_text_length length_0_conv mult_is_0 zero_neq_numeral)
  ultimately show ?thesis
    using config_getItemValue_ok [OF c'(2), of 5 20 nm inm m i] decrypted_value_eq [OF assms(2)] by auto
qed

definition sample_filled :: config where
  "sample_filled = (case config_appendItemValue sample_config (Some ''Net'') (Some ''pwd'') (Some ''a'') 5 20 of
     Some (_, c) \<Rightarrow> c | None \<Rightarrow> sample_config)"

lemma sample_filled_eq: "config_wf sample_filled \<and> config_abs sample_filled =
    append_in_section ''Net'' (append_value ''pwd'' ''a'' False) (new_item ''pwd'' False ''a'')
      \<lparr>cf_name = ''cfg'', cf_case = False, cf_sections = []\<rparr>"
  using config_appendItemValue_ok [OF sample_config_wf, of 5 20 False "''Net''" "''pwd''" "''a''"] sample_config_abs
  by (auto simp: sample_filled_def)

theorem Config_encrypted_value_roundtrip_witness:
  "\<exists>c'. config_modifyItemValue sample_filled (Some ''net'') (Some ''PWD'') (Some ''k;1'') (int 0) CFG_ENCRIPTION = Some (NoError, c') \<and>
     config_getItemValue c' (Some ''net'') (Some ''PWD'') 10 (int 0) CFG_ENCRIPTION 5 20 = Some (Inr ''k;1'')"
proof -
  have "fst (in_section ''net'' (in_item ''PWD'' (stored ''k;1'' 0 CFG_ENCRIPTION)) (config_abs sample_filled)) = NoError"
    unfolding conjunct2 [OF sample_filled_eq] by code_simp
  then obtain c' where c': "config_modifyItemValue sample_filled (Some ''net'') (Some ''PWD'') (Some ''k;1'') (int 0) CFG_ENCRIPTION = Some (NoError, c')"
    using with_section_ok [OF with_item_follows [OF store_value_follows [of CFG_ENCRIPTION "''k;1''" 0]] conjunct1 [OF sample_filled_eq],
        of "''net''" "''PWD''"]
    by (auto simp: config_modifyItemValue_def)
  show ?thesis
    using Config_encrypted_value_roundtrip [OF conjunct1 [OF sample_filled_eq] _ _ c', of 10] c' by simp
qed

text \<open>C18: a value that is appended is the last value of the item the same names find afterwards, whether the section and
  the item were there or not.\<close>

theorem Config_append_then_get:
  assumes "config_wf c" "int (length v) < m"
  shows "\<exists>c' j. config_appendItemValue c (Some nm) (Some inm) (Some v) 5 20 = Some (NoError, c') \<and>
    config_getItemValuesNumber c' (ByName (Some nm)) (ByName (Some inm)) 5 20 = Some (Inr (int (Suc j))) \<and>
    config_getItemValue c' (Some nm) (Some inm) m (int j) CFG_NOENCRIPTION 5 20 = Some (Inr v)"
proof -
  obtain c' where c': "config_appendItemValue c (Some nm) (Some inm) (Some v) 5 20 = Some (NoError, c')" "config_wf c'"
      "config_abs c' = append_in_section nm (append_value inm v (cf_case (config_abs c)))
        (new_item inm (cf_case (config_abs c)) v) (config_abs c)"
    using config_appendItemValue_ok [OF assms(1), of 5 20 _ nm inm v] by fastforce
  obtain j where "values_number (ByName (Some nm)) (ByName (Some inm)) (config_abs c') = Inr (int (Suc j))"
      "value_at nm inm m j (config_abs c') = Inr v"
    using appended_value_at [of "cf_case (config_abs c)" "config_abs c" nm inm v m] assms(2) unfolding c'(3) by auto
  then show ?thesis
    using c'(1) config_getItemValue_ok [OF c'(2), of 5 20 nm inm m j CFG_NOENCRIPTION]
      config_getItemValuesNumber_ok [OF c'(2), of "ByName (Some nm)" "ByName (Some inm)" 5 20]
    by (auto simp del: of_nat_Suc)
qed

theorem Config_append_then_get_witness:
  "\<exists>c' j. config_appendItemValue sample_filled (Some ''NET'') (Some ''pwd'') (Some ''b'') 5 20 = Some (NoError, c') \<and>
    config_getItemValuesNumber c' (ByName (Some ''NET'')) (ByName (Some ''pwd'')) 5 20 = Some (Inr (int (Suc j))) \<and>
    config_getItemValue c' (Some ''NET'') (Some ''pwd'') 2 (int j) CFG_NOENCRIPTION 5 20 = Some (Inr ''b'')"
  by (rule Config_append_then_get [OF conjunct1 [OF sample_filled_eq]]) simp

text \<open>C34: the last section cannot be removed. It is finished, and then copied to its own place, which a finished section
  cannot be: the call fails, the section is still counted, and the next lookup that reaches it compares with a
  null name.\<close>

theorem removeCfgSection_last_fails:
  assumes "config_wf c" "xs = cf_sections (config_abs c)" "Suc (first_index (section_named nm) xs) = length xs"
  shows "\<exists>c'. removeCfgSection c (Some nm) k n = Some (CfgSectionErrors CFG_CONFIGURATIONSECTION_COPY_FAILED, c') \<and>
    lCfgSectionsNumber c' = lCfgSectionsNumber c \<and> search_section c' (Some nm) = None"
  by (rule removeCfgSection_of_last [OF assms])

theorem removeCfgSection_last_fails_witness:
  "\<exists>c'. removeCfgSection sample_filled (Some ''net'') 5 20 = Some (CfgSectionErrors CFG_CONFIGURATIONSECTION_COPY_FAILED, c') \<and>
    lCfgSectionsNumber c' = lCfgSectionsNumber sample_filled \<and> search_section c' (Some ''net'') = None"
proof (rule removeCfgSection_last_fails [OF conjunct1 [OF sample_filled_eq] refl])
  show "Suc (first_index (section_named ''net'') (cf_sections (config_abs sample_filled))) = length (cf_sections (config_abs sample_filled))"
    unfolding conjunct2 [OF sample_filled_eq] by code_simp
qed

text \<open>C33: the copy of a configuration holds the same sections, items and values, whatever the sizes its arrays
  grow by.\<close>

theorem Config_copy_equal:
  assumes "config_built dst" "config_wf src" "1 \<le> m" "1 \<le> k" "1 \<le> n"
  shows "\<exists>dst'. Config_copy dst src m k n = Some (NoError, dst') \<and> config_wf dst' \<and> config_abs dst' = config_abs src"
  by (rule Config_copy_ok [OF assms])

theorem Config_copy_equal_witness:
  "\<exists>dst'. Config_copy Config_ctor sample_filled 1 1 1 = Some (NoError, dst') \<and> config_wf dst' \<and> config_abs dst' = config_abs sample_filled"
  by (rule Config_copy_equal [OF config_ctor_built conjunct1 [OF sample_filled_eq]]) simp_all

text \<open>C35: the index of a value is not checked at its lower end: for a negative one an item that is found is read outside
  its array.\<close>

theorem getItemValue_negative:
  assumes "config_wf c" "values_number (ByName (Some nm)) (ByName (Some inm)) (config_abs c) = Inr j" "i < 0"
  shows "config_getItemValue c (Some nm) (Some inm) m i level 5 20 = None"
proof -
  obtain s a where "section_at (ByName (Some nm)) (config_abs c) = Some s" "item_at (ByName (Some inm)) s = Some a"
    using assms(2) by (auto simp: values_number_def simp del: section_at.simps item_at.simps split: option.splits)
  then obtain it where "config_getCfgItemByName c (ByName (Some nm)) (Some inm) ConfigurationItem_ctor 5 20 = Some (NoError, it)" "item_wf it"
    using config_getCfgItemByName_ok [OF assms(1), of 5 20 nm inm] by (auto simp del: section_at.simps item_at.simps)
  then show ?thesis
    using item_getItemValue_negative [of it i m] assms(3) config_ready [OF assms(1)] by (simp add: config_getItemValue_def)
qed

theorem getItemValue_negative_witness:
  "config_getItemValue sample_filled (Some ''net'') (Some ''pwd'') 10 (- 1) CFG_NOENCRIPTION 5 20 = None"
proof (rule getItemValue_negative [OF conjunct1 [OF sample_filled_eq]])
  show "values_number (ByName (Some ''net'')) (ByName (Some ''pwd'')) (config_abs sample_filled) = Inr 1"
    unfolding conjunct2 [OF sample_filled_eq] by code_simp
qed simp

end
