(* ===== verification/CfgWrite.thy ===== *)
theory CfgWrite
  imports Config
begin

text \<open>
  The output of a configuration: \<open>write\<close> of the three classes of \<open>Configuration/src\<close>, call by call of
  \<open>FileIO:: writeChars\<close>, whose results are an argument, and \<open>operator <<\<close>, whose layout is not the same.
\<close>

abbreviation NEWLINE :: char where
  "NEWLINE \<equiv> CHR 0x0A"

abbreviation TAB :: char where
  "TAB \<equiv> CHR 0x09"

abbreviation QUOTE :: char where
  "QUOTE \<equiv> CHR 0x22"

section \<open>The file\<close>

text \<open>What was written, and the number of calls made.\<close>

record out_file =
  out_text :: string
  out_calls :: nat

definition writeChars :: "(nat \<Rightarrow> bool) \<Rightarrow> string \<Rightarrow> out_file \<Rightarrow> lib_error \<times> out_file" where
  "writeChars fails s f =
     (if fails (out_calls f) then (FileErrors TOOLS_FILEIO_WRITECHARS_FAILED, f\<lparr>out_calls := Suc (out_calls f)\<rparr>)
      else (NoError, f\<lparr>out_text := out_text f @ s, out_calls := Suc (out_calls f)\<rparr>))"

text \<open>Calls one after the other, up to the first that fails.\<close>

fun write_chunks :: "(nat \<Rightarrow> bool) \<Rightarrow> string list \<Rightarrow> out_file \<Rightarrow> lib_error \<times> out_file" where
  "write_chunks fails [] f = (NoError, f)"
| "write_chunks fails (s # ss) f =
     (case writeChars fails s f of
        (NoError, f1) \<Rightarrow> write_chunks fails ss f1
      | (e, f1) \<Rightarrow> (e, f1))"

section \<open>write\<close>

text \<open>The lines of a comment, the last one without a newline.\<close>

fun comment_lines :: "string \<Rightarrow> string list" where
  "comment_lines [] = [[]]"
| "comment_lines (c # s) =
     (if c = NEWLINE then [] # comment_lines s
      else case comment_lines s of [] \<Rightarrow> [[c]] | l # ls \<Rightarrow> (c # l) # ls)"

definition comment_chunks :: "string \<Rightarrow> string \<Rightarrow> string list" where
  "comment_chunks mark comment =
     (if comment = [] then [] else concat (map (\<lambda>l. [mark, l, [NEWLINE]]) (comment_lines comment)))"

definition name_quoted :: "string \<Rightarrow> bool" where
  "name_quoted s \<longleftrightarrow> CHR '' '' \<in> set s \<or> TAB \<in> set s \<or> QUOTE \<in> set s"

definition name_chunks :: "string \<Rightarrow> string list" where
  "name_chunks s = (if name_quoted s then [[QUOTE], s, [QUOTE]] else [s])"

text \<open>A comma is a reason for quotes in a single value only.\<close>

definition single_chunks :: "string \<Rightarrow> string list" where
  "single_chunks v =
     (if name_quoted v \<or> CHR '','' \<in> set v then [[QUOTE], v, [QUOTE]]
      else if v = [] then [[QUOTE, QUOTE]]
      else [v])"

definition value_chunks :: "string \<Rightarrow> string list" where
  "value_chunks v =
     (if v = [] then [[QUOTE, QUOTE]]
      else if name_quoted v then [[QUOTE], v, [QUOTE]]
      else [v])"

fun list_chunks :: "string list \<Rightarrow> string list" where
  "list_chunks [] = []"
| "list_chunks [v] = [TAB, TAB] # value_chunks v @ [[NEWLINE]]"
| "list_chunks (v # w # vs) = [TAB, TAB] # value_chunks v @ '','' # [NEWLINE] # list_chunks (w # vs)"

text \<open>The values an item has; an entry that is missing has no text.\<close>

definition item_texts :: "configuration_item \<Rightarrow> string list option" where
  "item_texts it =
     (if int (length (pValues it)) < lValuesNumber it then None
      else those (take (nat (lValuesNumber it)) (pValues it)))"

definition item_chunks :: "configuration_item \<Rightarrow> string list option" where
  "item_chunks it = do {
     comment \<leftarrow> pItemComment it;
     name \<leftarrow> pItemName it;
     values \<leftarrow> item_texts it;
     Some (comment_chunks (TAB # ''##'') comment @ [TAB] #
       (case values of
          [] \<Rightarrow> (if lValuesNumber it = 0 then name_chunks name @ ['' = '', [QUOTE, QUOTE], [NEWLINE]] else [])
        | [v] \<Rightarrow> name_chunks name @ '' = '' # single_chunks v @ [[NEWLINE]]
        | _ \<Rightarrow> name_chunks name @ '' = '' # [NEWLINE] # (TAB # ''{'') # [NEWLINE] # list_chunks values @
            [TAB # ''}'', [NEWLINE]]))
   }"

definition item_write :: "(nat \<Rightarrow> bool) \<Rightarrow> configuration_item \<Rightarrow> out_file \<Rightarrow> (lib_error \<times> out_file) option" where
  "item_write fails it f = map_option (\<lambda>ss. write_chunks fails ss f) (item_chunks it)"

definition header_chunks :: "configuration_section \<Rightarrow> string list option" where
  "header_chunks s = do {
     comment \<leftarrow> pSectionComment s;
     name \<leftarrow> pSectionName s;
     Some (comment_chunks ''#'' comment @ ''['' # name_chunks name @ '']'' #
       (case pSectionDate s of None \<Rightarrow> [] | Some d \<Rightarrow> ['' ('', d, '')'']) @ [[NEWLINE]])
   }"

fun write_items :: "(nat \<Rightarrow> bool) \<Rightarrow> configuration_item list \<Rightarrow> out_file \<Rightarrow> (lib_error \<times> out_file) option" where
  "write_items fails [] f = Some (NoError, f)"
| "write_items fails (it # its) f = do {
     (e, f1) \<leftarrow> item_write fails it f;
     if e \<noteq> NoError then Some (CfgItemErrors CFG_CONFIGURATIONITEM_WRITE_FAILED, f1)
     else case writeChars fails [NEWLINE] f1 of
       (NoError, f2) \<Rightarrow> write_items fails its f2
     | (e, f2) \<Rightarrow> Some (e, f2)
   }"

definition section_write :: "(nat \<Rightarrow> bool) \<Rightarrow> configuration_section \<Rightarrow> out_file \<Rightarrow> (lib_error \<times> out_file) option" where
  "section_write fails s f = do {
     ss \<leftarrow> header_chunks s;
     (case write_chunks fails ss f of
        (NoError, f1) \<Rightarrow>
          if int (length (pciCfgItems s)) < lCfgItemsNumber s then None
          else write_items fails (take (nat (lCfgItemsNumber s)) (pciCfgItems s)) f1
      | (e, f1) \<Rightarrow> Some (e, f1))
   }"

fun write_sections :: "(nat \<Rightarrow> bool) \<Rightarrow> configuration_section list \<Rightarrow> out_file \<Rightarrow> (lib_error \<times> out_file) option" where
  "write_sections fails [] f = Some (NoError, f)"
| "write_sections fails (s # ss) f = do {
     (e, f1) \<leftarrow> section_write fails s f;
     if e \<noteq> NoError then Some (CfgSectionErrors CFG_CONFIGURATIONSECTION_WRITE_FAILED, f1)
     else write_sections fails ss f1
   }"

definition config_write :: "(nat \<Rightarrow> bool) \<Rightarrow> config \<Rightarrow> out_file \<Rightarrow> (lib_error \<times> out_file) option" where
  "config_write fails c f =
     (if int (length (pcsCfgSections c)) < lCfgSectionsNumber c then None
      else write_sections fails (take (nat (lCfgSectionsNumber c)) (pcsCfgSections c)) f)"

section \<open>operator <<\<close>

text \<open>Here the newline of a comment line is part of the line, an item without values has nothing behind the equals sign,
  and an empty value or a comma is no reason for quotes.\<close>

definition shown_name :: "string \<Rightarrow> string" where
  "shown_name s = (if name_quoted s then QUOTE # s @ [QUOTE] else s)"

definition shown_comment :: "string \<Rightarrow> string \<Rightarrow> string" where
  "shown_comment mark comment =
     (if comment = [] then [] else concat (map (\<lambda>l. mark @ l @ [NEWLINE]) (comment_lines comment)))"

fun shown_list :: "string list \<Rightarrow> string" where
  "shown_list [] = []"
| "shown_list [v] = TAB # TAB # shown_name v @ [NEWLINE]"
| "shown_list (v # w # vs) = TAB # TAB # shown_name v @ '','' @ NEWLINE # shown_list (w # vs)"

definition item_show :: "configuration_item \<Rightarrow> string option" where
  "item_show it = do {
     comment \<leftarrow> pItemComment it;
     name \<leftarrow> pItemName it;
     values \<leftarrow> item_texts it;
     Some (shown_comment (TAB # ''##'') comment @ TAB #
       (case values of
          [] \<Rightarrow> (if lValuesNumber it = 0 then shown_name name @ '' = '' @ [NEWLINE] else [])
        | [v] \<Rightarrow> shown_name name @ '' = '' @ shown_name v @ [NEWLINE]
        | _ \<Rightarrow> shown_name name @ '' = '' @ NEWLINE # TAB # ''{'' @ NEWLINE # shown_list values @ TAB # ''}'' @ [NEWLINE]))
   }"

definition section_show :: "configuration_section \<Rightarrow> string option" where
  "section_show s = do {
     comment \<leftarrow> pSectionComment s;
     name \<leftarrow> pSectionName s;
     its \<leftarrow> (if int (length (pciCfgItems s)) < lCfgItemsNumber s then None
             else those (map item_show (take (nat (lCfgItemsNumber s)) (pciCfgItems s))));
     Some (shown_comment ''#'' comment @ ''['' @ shown_name name @ '']'' @
       (case pSectionDate s of None \<Rightarrow> [] | Some d \<Rightarrow> '' ('' @ d @ '')'') @ NEWLINE #
       concat (map (\<lambda>t. t @ [NEWLINE]) its))
   }"

definition config_show :: "config \<Rightarrow> string option" where
  "config_show c =
     (if int (length (pcsCfgSections c)) < lCfgSectionsNumber c then None
      else map_option concat (those (map section_show (take (nat (lCfgSectionsNumber c)) (pcsCfgSections c)))))"

end
