(* ===== verification/CfgScanner.thy ===== *)
theory CfgScanner
  imports CfgWrite
begin

text \<open>
  The scanner of configuration files (\<open>configurationScanner.ll\<close>): the rules in their order, each with the length of
  its longest match, the longest match of all, the first rule among equals, and the tokens. Only the start condition 0 is
  used. What \<open>strcpy\<close> copies of a match ends at a NUL.
\<close>

datatype cfg_token =
    TOKEN_EOF
  | CHARACTER char
  | SECTION_BEGIN | SECTION_END | ITEMSLIST_BEGIN | ITEMSLIST_END | SECTION_DATE_BEGIN | SECTION_DATE_END
  | STRING string | ITEMCOMMENT string | SECTIONCOMMENT string | SECTIONDATE string

definition up_to_NUL :: "string \<Rightarrow> string" where
  "up_to_NUL s = takeWhile (\<lambda>c. c \<noteq> NUL) s"

section \<open>Patterns\<close>

text \<open>The length of the longest match of a pattern at the beginning of the text, 0 when there is none.\<close>

definition match_char :: "(char \<Rightarrow> bool) \<Rightarrow> string \<Rightarrow> nat" where
  "match_char P s = (case s of [] \<Rightarrow> 0 | c # _ \<Rightarrow> if P c then 1 else 0)"

definition is_digit :: "char \<Rightarrow> bool" where
  "is_digit c \<longleftrightarrow> 48 \<le> (of_char c :: nat) \<and> (of_char c :: nat) \<le> 57"

definition match_date :: "string \<Rightarrow> nat" where
  "match_date s =
     (case s of
        a # b # c # d # e # f # g # h # i # j # _ \<Rightarrow>
          if list_all is_digit [a, b, c, d] \<and> e = CHR ''/'' \<and> is_digit f \<and> is_digit g \<and> h = CHR ''/'' \<and> is_digit i \<and> is_digit j
          then 10 else 0
      | _ \<Rightarrow> 0)"

text \<open>The characters that neither a string nor a quoted string contains, and those a string does not contain.\<close>

definition is_special :: "char \<Rightarrow> bool" where
  "is_special c \<longleftrightarrow> c \<in> {NEWLINE, CHR 0x0D, CHR ''['', CHR '']'', CHR ''{'', CHR ''}'', CHR ''='', CHR ''#''}"

definition ends_string :: "char \<Rightarrow> bool" where
  "ends_string c \<longleftrightarrow> is_special c \<or> c \<in> {CHR '','', CHR '' '', TAB}"

definition match_string :: "string \<Rightarrow> nat" where
  "match_string s = length (takeWhile (\<lambda>c. \<not> ends_string c) s)"

text \<open>From a quote to the last quote that no special character comes before.\<close>

definition match_quotedString :: "string \<Rightarrow> nat" where
  "match_quotedString s =
     (case s of
        [] \<Rightarrow> 0
      | c # r \<Rightarrow>
          let run = takeWhile (\<lambda>c. \<not> is_special c) r;
              upto = rev (dropWhile (\<lambda>c. c \<noteq> QUOTE) (rev run))
          in if c = QUOTE \<and> upto \<noteq> [] then Suc (length upto) else 0)"

definition comment_rest :: "string \<Rightarrow> nat" where
  "comment_rest s = length (takeWhile (\<lambda>c. c \<noteq> NEWLINE \<and> c \<noteq> CHR ''#'') s)"

definition match_itemComment :: "string \<Rightarrow> nat" where
  "match_itemComment s =
     (case s of a # b # r \<Rightarrow> if a = CHR ''#'' \<and> b = CHR ''#'' then 2 + comment_rest r else 0 | _ \<Rightarrow> 0)"

definition match_sectionComment :: "string \<Rightarrow> nat" where
  "match_sectionComment s = (case s of [] \<Rightarrow> 0 | a # r \<Rightarrow> if a = CHR ''#'' then 1 + comment_rest r else 0)"

section \<open>Rules\<close>

text \<open>A rule that returns no token lets the scanner go on.\<close>

definition scan_rules :: "((string \<Rightarrow> nat) \<times> (string \<Rightarrow> cfg_token option)) list" where
  "scan_rules =
    [(match_char (\<lambda>c. c = CHR ''=''), \<lambda>t. Some (CHARACTER (hd t))),
     (match_char (\<lambda>c. c = CHR ''(''), \<lambda>t. Some SECTION_DATE_BEGIN),
     (match_char (\<lambda>c. c = CHR '')''), \<lambda>t. Some SECTION_DATE_END),
     (match_char (\<lambda>c. c = CHR ''[''), \<lambda>t. Some SECTION_BEGIN),
     (match_char (\<lambda>c. c = CHR '']''), \<lambda>t. Some SECTION_END),
     (match_char (\<lambda>c. c = CHR ''{''), \<lambda>t. Some ITEMSLIST_BEGIN),
     (match_char (\<lambda>c. c = CHR ''}''), \<lambda>t. Some ITEMSLIST_END),
     (match_date, \<lambda>t. Some (SECTIONDATE (up_to_NUL t))),
     (match_quotedString, \<lambda>t. Some (STRING (up_to_NUL (butlast (tl t))))),
     (match_string, \<lambda>t. Some (STRING (up_to_NUL t))),
     (match_itemComment, \<lambda>t. Some (ITEMCOMMENT (up_to_NUL (drop 2 t)))),
     (match_sectionComment, \<lambda>t. Some (SECTIONCOMMENT (up_to_NUL (drop 1 t)))),
     (match_char (\<lambda>c. c = CHR '',''), \<lambda>t. Some (CHARACTER (hd t))),
     (match_char (\<lambda>c. c = CHR '' '' \<or> c = TAB), \<lambda>t. None),
     (match_char (\<lambda>c. c = CHR 0x0D), \<lambda>t. None),
     (match_char (\<lambda>c. c = NEWLINE), \<lambda>t. None),
     (match_char (\<lambda>c. c \<noteq> NEWLINE), \<lambda>t. Some (CHARACTER (hd t)))]"

fun longest_match :: "((string \<Rightarrow> nat) \<times> (string \<Rightarrow> cfg_token option)) list \<Rightarrow> string \<Rightarrow> nat \<times> (string \<Rightarrow> cfg_token option)" where
  "longest_match [] s = (0, \<lambda>_. None)"
| "longest_match ((len, act) # rules) s =
     (let (n, act') = longest_match rules s in if n \<le> len s then (len s, act) else (n, act'))"

lemma longest_match_ge: "(len, act) \<in> set rules \<Longrightarrow> len s \<le> fst (longest_match rules s)"
  by (induction rules) (auto simp: Let_def split: prod.splits)

lemma scan_progress: "0 < fst (longest_match scan_rules (c # s))"
proof (cases "c = NEWLINE")
  case True
  have "match_char (\<lambda>c. c = NEWLINE) (c # s) \<le> fst (longest_match scan_rules (c # s))"
    by (rule longest_match_ge [where act = "\<lambda>t. None"]) (simp add: scan_rules_def)
  then show ?thesis using True by (simp add: match_char_def)
next
  case False
  have "match_char (\<lambda>c. c \<noteq> NEWLINE) (c # s) \<le> fst (longest_match scan_rules (c # s))"
    by (rule longest_match_ge [where act = "\<lambda>t. Some (CHARACTER (hd t))"]) (simp add: scan_rules_def)
  then show ?thesis using False by (simp add: match_char_def)
qed

function yylex :: "string \<Rightarrow> cfg_token \<times> string" where
  "yylex s =
     (if s = [] then (TOKEN_EOF, [])
      else let (n, act) = longest_match scan_rules s
           in case act (take n s) of Some t \<Rightarrow> (t, drop n s) | None \<Rightarrow> yylex (drop n s))"
  by pat_completeness auto
termination
proof (relation "measure length", goal_cases)
  case (2 s x n act)
  then obtain c r where "s = c # r" by (cases s) auto
  then have "0 < n" using scan_progress [of c r] 2(2,3) by (metis fst_conv)
  then show ?case using 2(1) by simp
qed simp

declare yylex.simps [simp del]

end
