(* ===== verification/CfgParser.thy ===== *)
theory CfgParser
  imports CfgScanner
begin

text \<open>
  The parser of configuration files (\<open>configurationParser.yy\<close>) on the text the scanner has not read yet. The grammar
  is read from the left with one token of lookahead, which stays in the text until it is shifted. The actions build the
  objects of \<open>Configuration\<close>.

  A syntax error ends the parse with the offending token read; an action that fails ends it as well (\<open>YYABORT\<close>).
  The text behind that point is what the scanner still holds, and it is the \<open>Inl\<close> result. The objects that are deleted
  on this way out are not modelled.
\<close>

type_synonym 'a parsed = "(string + 'a \<times> string) option"

text \<open>An error found at a token, which is read.\<close>

definition stop_at_token :: "string \<Rightarrow> 'a parsed" where
  "stop_at_token s = Some (Inl (snd (yylex s)))"

lemma yylex_shorter:
  "fst (yylex s) \<noteq> TOKEN_EOF \<Longrightarrow> length (snd (yylex s)) < length s"
proof (induction s rule: yylex.induct)
  case (1 s)
  show ?case
  proof (cases s)
    case Nil
    then show ?thesis using 1(2) by (simp add: yylex.simps)
  next
    case (Cons c r)
    obtain n act where l: "longest_match scan_rules s = (n, act)" by (cases "longest_match scan_rules s")
    then have n: "0 < n" using scan_progress [of c r] Cons by simp
    show ?thesis
    proof (cases "act (take n s)")
      case (Some t)
      then show ?thesis using Cons l n by (subst yylex.simps) simp
    next
      case None
      have step: "yylex s = yylex (drop n s)" using Cons l None by (subst yylex.simps) simp
      have "length (snd (yylex (drop n s))) < length (drop n s)"
        using 1(1) [OF _ l [symmetric] refl None] 1(2) Cons step by simp
      then show ?thesis using step by simp
    qed
  qed
qed

lemma yylex_shorter': "yylex s = (t, r) \<Longrightarrow> t \<noteq> TOKEN_EOF \<Longrightarrow> length r < length s"
  using yylex_shorter [of s] by simp

lemma yylex_shorter'': "(t, r) = yylex s \<Longrightarrow> t \<noteq> TOKEN_EOF \<Longrightarrow> length r < length s"
  using yylex_shorter [of s] by (metis fst_conv snd_conv)

section \<open>Comments\<close>

definition join_comments :: "string \<Rightarrow> string \<Rightarrow> string" where
  "join_comments c1 c2 = (if c1 = [] then c2 else c1 @ NEWLINE # c2)"

function itemComments :: "string \<Rightarrow> string \<Rightarrow> string \<times> string" where
  "itemComments c s =
     (case yylex s of
        (ITEMCOMMENT c2, s1) \<Rightarrow> itemComments (join_comments c c2) s1
      | _ \<Rightarrow> (c, s))"
  by pat_completeness auto
termination by (relation "measure (\<lambda>(c, s). length s)") (auto dest: yylex_shorter'')

declare itemComments.simps [simp del]

function sectionComments :: "string \<Rightarrow> string \<Rightarrow> string \<times> string" where
  "sectionComments c s =
     (case yylex s of
        (SECTIONCOMMENT c2, s1) \<Rightarrow> sectionComments (join_comments c c2) s1
      | _ \<Rightarrow> (c, s))"
  by pat_completeness auto
termination by (relation "measure (\<lambda>(c, s). length s)") (auto dest: yylex_shorter'')

declare sectionComments.simps [simp del]

lemma itemComments_le: "length (snd (itemComments c s)) \<le> length s"
proof (induction c s rule: itemComments.induct)
  case (1 c s)
  then show ?case
    by (subst itemComments.simps) (fastforce split: prod.splits cfg_token.splits dest: yylex_shorter' intro: order.trans less_imp_le)
qed

lemma sectionComments_le: "length (snd (sectionComments c s)) \<le> length s"
proof (induction c s rule: sectionComments.induct)
  case (1 c s)
  then show ?case
    by (subst sectionComments.simps) (fastforce split: prod.splits cfg_token.splits dest: yylex_shorter' intro: order.trans less_imp_le)
qed

section \<open>Values and items\<close>

text \<open>The sizes: how many values an array of values grows by, and how many items an array of items.\<close>

definition empty_item :: "bool \<Rightarrow> int \<Rightarrow> configuration_item option" where
  "empty_item cs n =
     (case ConfigurationItem_init ConfigurationItem_ctor (Some []) (Some []) cs n of
        (NoError, it) \<Rightarrow> Some it
      | _ \<Rightarrow> None)"

function valuesList :: "configuration_item \<Rightarrow> string \<Rightarrow> configuration_item parsed" where
  "valuesList it s =
     (case yylex s of
        (CHARACTER c, s1) \<Rightarrow>
          if c = CHR '','' then
            (case yylex s1 of
               (STRING v, s2) \<Rightarrow>
                 (case item_appendItemValue it (Some v) of
                    None \<Rightarrow> None
                  | Some (e, it1) \<Rightarrow> if e \<noteq> NoError then Some (Inl s2) else valuesList it1 s2)
             | _ \<Rightarrow> stop_at_token s1)
          else Some (Inr (it, s))
      | _ \<Rightarrow> Some (Inr (it, s)))"
  by pat_completeness auto
termination by (relation "measure (\<lambda>(it, s). length s)") (auto dest!: yylex_shorter'')

declare valuesList.simps [simp del]

definition parse_value :: "bool \<Rightarrow> int \<Rightarrow> string \<Rightarrow> configuration_item parsed" where
  "parse_value cs n s =
     (case yylex s of
        (STRING v, s1) \<Rightarrow>
          (case empty_item cs n of
             None \<Rightarrow> Some (Inl s1)
           | Some it \<Rightarrow> do {
               (e, it1) \<leftarrow> item_appendItemValue it (Some v);
               Some (if e \<noteq> NoError then Inl s1 else Inr (it1, s1))
             })
      | (ITEMSLIST_BEGIN, s1) \<Rightarrow>
          (case yylex s1 of
             (ITEMSLIST_END, s2) \<Rightarrow>
               Some (case empty_item cs n of None \<Rightarrow> Inl s2 | Some it \<Rightarrow> Inr (it, s2))
           | (STRING v, s2) \<Rightarrow>
               (case empty_item cs n of
                  None \<Rightarrow> Some (Inl s2)
                | Some it \<Rightarrow> do {
                    r \<leftarrow> valuesList it s2;
                    (case r of
                       Inl rest \<Rightarrow> Some (Inl rest)
                     | Inr (it1, s3) \<Rightarrow>
                         (case yylex s3 of
                            (ITEMSLIST_END, s4) \<Rightarrow> do {
                              (e, it2) \<leftarrow> insertItemValue it1 (Some v) 0;
                              Some (if e \<noteq> NoError then Inl s4 else Inr (it2, s4))
                            }
                          | _ \<Rightarrow> stop_at_token s3))
                  })
           | _ \<Rightarrow> stop_at_token s1)
      | _ \<Rightarrow> stop_at_token s)"

definition parse_item :: "bool \<Rightarrow> int \<Rightarrow> string \<Rightarrow> configuration_item parsed" where
  "parse_item cs n s =
     (let (comment, s1) = itemComments [] s
      in case yylex s1 of
           (STRING name, s2) \<Rightarrow>
             (case yylex s2 of
                (CHARACTER c, s3) \<Rightarrow>
                  if c = CHR ''='' then do {
                    r \<leftarrow> parse_value cs n s3;
                    (case r of
                       Inl rest \<Rightarrow> Some (Inl rest)
                     | Inr (it, s4) \<Rightarrow>
                         (case modifyItemName it (Some name) of
                            (NoError, it1) \<Rightarrow>
                              (case item_modifyItemComment it1 (Some comment) of
                                 (NoError, it2) \<Rightarrow> Some (Inr (it2, s4))
                               | _ \<Rightarrow> Some (Inl s4))
                          | _ \<Rightarrow> Some (Inl s4)))
                  }
                  else stop_at_token s2
              | _ \<Rightarrow> stop_at_token s2)
         | _ \<Rightarrow> stop_at_token s1)"

lemma valuesList_le: "valuesList it s = Some (Inr (it', s')) \<Longrightarrow> length s' \<le> length s"
proof (induction "length s" arbitrary: it s rule: less_induct)
  case less
  obtain t s1 where t: "yylex s = (t, s1)" by (cases "yylex s")
  show ?case
  proof (cases "t = CHARACTER CHR '',''")
    case False
    then have "s' = s" using less(2) t by (subst (asm) valuesList.simps) (auto split: cfg_token.splits if_splits)
    then show ?thesis by simp
  next
    case True
    obtain u s2 where u: "yylex s1 = (u, s2)" by (cases "yylex s1")
    have lt: "length s1 < length s" using t True yylex_shorter' by blast
    obtain it1 v where it1: "u = STRING v" "valuesList it1 s2 = Some (Inr (it', s'))"
      using less(2) t u True
      by (subst (asm) valuesList.simps) (auto simp: stop_at_token_def split: cfg_token.splits if_splits option.splits)
    then have "length s2 < length s1" using u yylex_shorter' by blast
    then show ?thesis using less(1) [OF _ it1(2)] lt by simp
  qed
qed

lemma parse_value_le: "parse_value cs n s = Some (Inr (it, s')) \<Longrightarrow> length s' \<le> length s"
  by (auto simp: parse_value_def stop_at_token_def split: prod.splits cfg_token.splits if_splits option.splits bind_splits sum.splits
      dest!: yylex_shorter' valuesList_le)

lemma parse_item_less: "parse_item cs n s = Some (Inr (it, s')) \<Longrightarrow> length s' < length s"
  using itemComments_le [of "[]" s]
  by (auto simp: parse_item_def stop_at_token_def Let_def split: prod.splits cfg_token.splits if_splits option.splits bind_splits
      sum.splits lib_error.splits dest!: yylex_shorter' parse_value_le)

section \<open>Sections\<close>

function parse_items :: "bool \<Rightarrow> int \<Rightarrow> configuration_section \<Rightarrow> string \<Rightarrow> configuration_section parsed" where
  "parse_items cs n sec s =
     (if (case fst (yylex s) of STRING _ \<Rightarrow> True | ITEMCOMMENT _ \<Rightarrow> True | _ \<Rightarrow> False)
      then
        (case parse_item cs n s of
           None \<Rightarrow> None
         | Some (Inl rest) \<Rightarrow> Some (Inl rest)
         | Some (Inr (it, s1)) \<Rightarrow>
             (case section_appendCfgItem sec (Some it) n of
                None \<Rightarrow> None
              | Some (e, sec1) \<Rightarrow>
                  if e \<noteq> NoError then Some (Inl s1)
                  else (case ConfigurationItem_finish it of
                          None \<Rightarrow> None
                        | Some (e1, _) \<Rightarrow> if e1 \<noteq> NoError then Some (Inl s1) else parse_items cs n sec1 s1)))
      else Some (Inr (sec, s)))"
  by pat_completeness auto
termination by (relation "measure (\<lambda>(cs, n, sec, s). length s)") (auto dest: parse_item_less)

declare parse_items.simps [simp del]

definition parse_date :: "string \<Rightarrow> string + string \<times> string" where
  "parse_date s =
     (case yylex s of
        (SECTION_DATE_BEGIN, s1) \<Rightarrow>
          (case yylex s1 of
             (SECTIONDATE d, s2) \<Rightarrow>
               (case yylex s2 of
                  (SECTION_DATE_END, s3) \<Rightarrow> Inr (d, s3)
                | (_, s3) \<Rightarrow> Inl s3)
           | (_, s2) \<Rightarrow> Inl s2)
      | _ \<Rightarrow> Inr ([], s))"

text \<open>The name, the comment and the date come into the object behind the items. The token behind the items was looked at.\<close>

definition parse_body ::
  "bool \<Rightarrow> int \<Rightarrow> int \<Rightarrow> string \<Rightarrow> string \<Rightarrow> string \<Rightarrow> string \<Rightarrow> configuration_section parsed" where
  "parse_body cs k n comment name date s =
     (case ConfigurationSection_init ConfigurationSection_ctor (Some []) (Some []) None cs k of
        (NoError, sec) \<Rightarrow> do {
          r \<leftarrow> parse_items cs n sec s;
          (case r of
             Inl rest \<Rightarrow> Some (Inl rest)
           | Inr (sec1, s1) \<Rightarrow>
               (case modifySectionName sec1 (Some name) of
                  (NoError, sec2) \<Rightarrow>
                    (case section_modifySectionComment sec2 (Some comment) of
                       (NoError, sec3) \<Rightarrow>
                         (case section_modifySectionDate sec3 (if date = [] then None else Some date) of
                            (NoError, sec4) \<Rightarrow> Some (Inr (sec4, s1))
                          | _ \<Rightarrow> stop_at_token s1)
                     | _ \<Rightarrow> stop_at_token s1)
                | _ \<Rightarrow> stop_at_token s1))
        }
      | _ \<Rightarrow> if date = [] then stop_at_token s else Some (Inl s))"

definition parse_section :: "bool \<Rightarrow> int \<Rightarrow> int \<Rightarrow> string \<Rightarrow> configuration_section parsed" where
  "parse_section cs k n s =
     (let (comment, s1) = sectionComments [] s
      in case yylex s1 of
           (SECTION_BEGIN, s2) \<Rightarrow>
             (case yylex s2 of
                (STRING name, s3) \<Rightarrow>
                  (case yylex s3 of
                     (SECTION_END, s4) \<Rightarrow>
                       (case parse_date s4 of
                          Inl rest \<Rightarrow> Some (Inl rest)
                        | Inr (date, s5) \<Rightarrow> parse_body cs k n comment name date s5)
                   | _ \<Rightarrow> stop_at_token s3)
              | _ \<Rightarrow> stop_at_token s2)
         | _ \<Rightarrow> stop_at_token s1)"

lemma parse_items_le: "parse_items cs n sec s = Some (Inr (sec', s')) \<Longrightarrow> length s' \<le> length s"
proof (induction "length s" arbitrary: sec s rule: less_induct)
  case less
  show ?case
  proof (cases "case fst (yylex s) of STRING _ \<Rightarrow> True | ITEMCOMMENT _ \<Rightarrow> True | _ \<Rightarrow> False")
    case False
    then show ?thesis using less(2) by (subst (asm) parse_items.simps) simp
  next
    case True
    have "\<exists>it s1 sec1. parse_item cs n s = Some (Inr (it, s1)) \<and> parse_items cs n sec1 s1 = Some (Inr (sec', s'))"
      using less(2) True unfolding parse_items.simps [of cs n sec s]
      by (auto split: option.splits sum.splits if_splits) blast
    then obtain it s1 sec1 where it: "parse_item cs n s = Some (Inr (it, s1))" "parse_items cs n sec1 s1 = Some (Inr (sec', s'))"
      by blast
    then have "length s1 < length s" by (simp add: parse_item_less)
    then show ?thesis using less(1) it(2) by fastforce
  qed
qed

lemma parse_date_le: "parse_date s = Inr (d, s') \<Longrightarrow> length s' \<le> length s"
  by (auto simp: parse_date_def split: prod.splits cfg_token.splits dest!: yylex_shorter')

lemma parse_body_le: "parse_body cs k n cm nm d s = Some (Inr (sec, s')) \<Longrightarrow> length s' \<le> length s"
  by (auto simp: parse_body_def stop_at_token_def split: prod.splits lib_error.splits bind_splits sum.splits if_splits dest!: parse_items_le)

lemma parse_section_less: "parse_section cs k n s = Some (Inr (sec, s')) \<Longrightarrow> length s' < length s"
  using sectionComments_le [of "[]" s]
  by (auto simp: parse_section_def stop_at_token_def Let_def split: prod.splits cfg_token.splits sum.splits
      dest!: yylex_shorter' parse_date_le parse_body_le)

function parse_sections :: "bool \<Rightarrow> int \<Rightarrow> int \<Rightarrow> config \<Rightarrow> string \<Rightarrow> config parsed" where
  "parse_sections cs k n cfg s =
     (if fst (yylex s) = TOKEN_EOF then Some (Inr (cfg, []))
      else
        (case parse_section cs k n s of
           None \<Rightarrow> None
         | Some (Inl rest) \<Rightarrow> Some (Inl rest)
         | Some (Inr (sec, s1)) \<Rightarrow>
             (case appendCfgSection cfg (Some sec) k n of
                None \<Rightarrow> None
              | Some (e, cfg1) \<Rightarrow>
                  if e \<noteq> NoError then stop_at_token s1
                  else (case ConfigurationSection_finish sec of
                          None \<Rightarrow> None
                        | Some (e1, _) \<Rightarrow> if e1 \<noteq> NoError then stop_at_token s1 else parse_sections cs k n cfg1 s1))))"
  by pat_completeness auto
termination by (relation "measure (\<lambda>(cs, k, n, cfg, s). length s)") (auto dest: parse_section_less)

declare parse_sections.simps [simp del]

text \<open>\<open>yyparse\<close>: the configuration gets the empty name. The sizes are those of \<open>Config:: init\<close>,
  \<open>ConfigurationSection:: init\<close> and \<open>ConfigurationItem:: init\<close>.\<close>

definition yyparse :: "bool \<Rightarrow> int \<Rightarrow> int \<Rightarrow> int \<Rightarrow> string \<Rightarrow> config parsed" where
  "yyparse cs m k n s =
     (case Config_init Config_ctor (Some []) cs m of
        (NoError, cfg) \<Rightarrow> parse_sections cs k n cfg s
      | _ \<Rightarrow> Some (Inl s))"

end
