(* ===== verification/ConfigurationFile.thy ===== *)
theory ConfigurationFile
  imports CfgParser
begin

text \<open>
  The class \<open>ConfigurationFile\<close> of \<open>ConfigurationFile/src/ConfigurationFile.cpp\<close>: a configuration that is read from a file
  and saved to it. The results of the calls of \<open>FileIO\<close> are arguments. What the scanner has read and not used
  stays in its buffer after a parse that failed, and is scanned before the next file (\<open>scanner_rest\<close>). The path is a text
  of which the name of the lock file must fit its array. Line numbers are not modelled.
\<close>

datatype cfg_file_status = CFGFILE_BUILDED | CFGFILE_INITIALIZED

record configuration_file =
  file_config :: config
  stCfgFileStatus :: cfg_file_status
  pPathName :: "string option"

definition ConfigurationFile_ctor :: configuration_file where
  "ConfigurationFile_ctor = \<lparr>file_config = Config_ctor, stCfgFileStatus = CFGFILE_BUILDED, pPathName = None\<rparr>"

definition CFGFILE_MAXPATHNAMELENGTH :: nat where
  "CFGFILE_MAXPATHNAMELENGTH = 1024 + 1"

definition file_getCfgStatus :: "configuration_file \<Rightarrow> cfg_file_status" where
  "file_getCfgStatus f = stCfgFileStatus f"

definition ConfigurationFile_path :: "configuration_file \<Rightarrow> string option" where
  "ConfigurationFile_path f = (if stCfgFileStatus f \<noteq> CFGFILE_INITIALIZED then Some [] else pPathName f)"

text \<open>The result of \<open>Config:: finish\<close> is dropped.\<close>

definition ConfigurationFile_finish :: "configuration_file \<Rightarrow> (lib_error \<times> configuration_file) option" where
  "ConfigurationFile_finish f =
     (if stCfgFileStatus f \<noteq> CFGFILE_INITIALIZED then Some (CfgErrors CFG_OPERATIONNOTALLOWED, f)
      else do {
        (_, c) \<leftarrow> Config_finish (file_config f);
        Some (NoError, f\<lparr>file_config := c, pPathName := None, stCfgFileStatus := CFGFILE_BUILDED\<rparr>)
      })"

definition ConfigurationFile_dtor :: "configuration_file \<Rightarrow> configuration_file option" where
  "ConfigurationFile_dtor f =
     (if stCfgFileStatus f \<noteq> CFGFILE_BUILDED then map_option snd (ConfigurationFile_finish f) else Some f)"

section \<open>Reading\<close>

text \<open>The results of the calls of one \<open>init\<close>, and the text that \<open>readChars\<close> delivers.\<close>

record file_calls =
  lock_result :: lib_error
  open_result :: lib_error
  seek_end_result :: lib_error
  seek_set_result :: lib_error
  read_result :: lib_error
  read_text :: string
  close_result :: lib_error
  unlock_result :: lib_error

definition lock_name_fits :: "string \<Rightarrow> bool" where
  "lock_name_fits path \<longleftrightarrow> length path + length ''.lck'' < CFGFILE_MAXPATHNAMELENGTH"

text \<open>The text of the file; an error closes and unlocks what was opened and locked.\<close>

definition read_file :: "file_calls \<Rightarrow> lib_error + string" where
  "read_file w =
     (if open_result w \<noteq> NoError then Inl (open_result w)
      else if seek_end_result w \<noteq> NoError then Inl (FileErrors TOOLS_FILEIO_SEEK_FAILED)
      else if seek_set_result w \<noteq> NoError then Inl (FileErrors TOOLS_FILEIO_SEEK_FAILED)
      else if read_result w \<noteq> NoError then Inl (FileErrors TOOLS_FILEIO_READCHARS_FAILED)
      else if close_result w \<noteq> NoError then Inl (FileErrors TOOLS_FILEIO_CLOSE_FAILED)
      else Inr (read_text w))"

text \<open>The part behind the parse: the configuration \<open>cfg\<close> is copied into the object and finished.\<close>

definition adopt_config ::
  "configuration_file \<Rightarrow> config \<Rightarrow> string option \<Rightarrow> int \<Rightarrow> int \<Rightarrow> int \<Rightarrow> (lib_error \<times> configuration_file) option" where
  "adopt_config f cfg configName m k n = do {
     (e, c) \<leftarrow> Config_copy (file_config f) cfg m k n;
     (e1, _) \<leftarrow> Config_finish cfg;
     if e \<noteq> NoError then Some (CfgConfigErrors CFG_CONFIG_COPY_FAILED, f\<lparr>file_config := c, pPathName := None\<rparr>)
     else if e1 \<noteq> NoError then do {
       (_, c1) \<leftarrow> Config_finish c;
       Some (CfgConfigErrors CFG_CONFIG_FINISH_FAILED, f\<lparr>file_config := c1, pPathName := None\<rparr>)
     }
     else do {
       (e2, c1) \<leftarrow> modifyConfigName c configName;
       if e2 \<noteq> NoError then do {
         (_, c2) \<leftarrow> Config_finish c1;
         Some (CfgConfigErrors CFG_CONFIG_MODIFYCONFIGNAME_FAILED, f\<lparr>file_config := c2, pPathName := None\<rparr>)
       }
       else Some (NoError, f\<lparr>file_config := c1, stCfgFileStatus := CFGFILE_INITIALIZED\<rparr>)
     }
   }"

text \<open>The result has the text left in the scanner as its last component.\<close>

definition ConfigurationFile_init ::
  "configuration_file \<Rightarrow> string option \<Rightarrow> string option \<Rightarrow> bool \<Rightarrow> int \<Rightarrow> int \<Rightarrow> int \<Rightarrow> bool \<Rightarrow> file_calls \<Rightarrow> string \<Rightarrow>
     (lib_error \<times> configuration_file \<times> string) option" where
  "ConfigurationFile_init f pathName configName cs m k n bLockFile w scanner_rest =
     (if stCfgFileStatus f \<noteq> CFGFILE_BUILDED then Some (CfgErrors CFG_OPERATIONNOTALLOWED, f, scanner_rest)
      else case pathName of
        None \<Rightarrow> Some (CfgErrors CFG_ACTIVATION_WRONG, f, scanner_rest)
      | Some path \<Rightarrow>
          if bLockFile \<and> \<not> lock_name_fits path then None
          else if bLockFile \<and> lock_result w \<noteq> NoError
          then Some (FileErrors TOOLS_FILEIO_LOCKFILE_FAILED, f\<lparr>pPathName := None\<rparr>, scanner_rest)
          else case read_file w of
            Inl e \<Rightarrow> Some (e, f\<lparr>pPathName := None\<rparr>, scanner_rest)
          | Inr s \<Rightarrow> do {
              r \<leftarrow> yyparse cs m k n (scanner_rest @ s);
              (case r of
                 Inl rest \<Rightarrow> Some (ConfigurationFileErrors CFGFILE_YYPARSER_FAILED, f\<lparr>pPathName := None\<rparr>, rest)
               | Inr (cfg, rest) \<Rightarrow>
                   if bLockFile \<and> unlock_result w \<noteq> NoError
                   then do { (_, _) \<leftarrow> Config_finish cfg; Some (unlock_result w, f\<lparr>pPathName := None\<rparr>, rest) }
                   else map_option (\<lambda>(e, f1). (e, f1, rest)) (adopt_config (f\<lparr>pPathName := Some path\<rparr>) cfg configName m k n))
            })"

text \<open>The other \<open>init\<close> copies a configuration, or makes an empty one, and only keeps the path.\<close>

definition ConfigurationFile_init_config ::
  "configuration_file \<Rightarrow> string option \<Rightarrow> config option \<Rightarrow> string option \<Rightarrow> bool \<Rightarrow> int \<Rightarrow> int \<Rightarrow> int \<Rightarrow>
     (lib_error \<times> configuration_file) option" where
  "ConfigurationFile_init_config f pathName cfg configName cs m k n =
     (if stCfgFileStatus f \<noteq> CFGFILE_BUILDED then Some (CfgErrors CFG_OPERATIONNOTALLOWED, f)
      else case pathName of
        None \<Rightarrow> Some (CfgErrors CFG_ACTIVATION_WRONG, f)
      | Some path \<Rightarrow> do {
          (e, c) \<leftarrow> (case cfg of
                       Some c \<Rightarrow> map_option (\<lambda>(e, c1). (if e \<noteq> NoError then CfgConfigErrors CFG_CONFIG_COPY_FAILED else NoError, c1))
                                   (Config_copy (file_config f) c m k n)
                     | None \<Rightarrow> (case Config_init (file_config f) configName cs m of
                                  (e, c1) \<Rightarrow> Some (if e \<noteq> NoError then CfgConfigErrors CFG_CONFIG_INIT_FAILED else NoError, c1)));
          Some (e, if e \<noteq> NoError then f\<lparr>file_config := c, pPathName := None\<rparr>
                   else f\<lparr>file_config := c, pPathName := Some path, stCfgFileStatus := CFGFILE_INITIALIZED\<rparr>)
        })"

section \<open>Saving\<close>

text \<open>The results of the calls of one \<open>save\<close>, and which calls of \<open>writeChars\<close> fail.\<close>

record save_calls =
  save_lock_result :: lib_error
  save_open_result :: lib_error
  write_fails :: "nat \<Rightarrow> bool"
  save_close_result :: lib_error
  save_unlock_result :: lib_error

text \<open>The file is emptied when it is opened. The result tells the new text of the file at \<open>pPathName\<close>, if it was opened; the
  lock is always the one of the path of \<open>init\<close>.\<close>

definition ConfigurationFile_save ::
  "configuration_file \<Rightarrow> string option \<Rightarrow> save_calls \<Rightarrow> (lib_error \<times> (string \<times> string) option) option" where
  "ConfigurationFile_save f newPathName w =
     (if stCfgFileStatus f \<noteq> CFGFILE_INITIALIZED then Some (CfgErrors CFG_OPERATIONNOTALLOWED, None)
      else do {
        own \<leftarrow> pPathName f;
        let path = (case newPathName of None \<Rightarrow> own | Some p \<Rightarrow> p);
        if \<not> lock_name_fits own then None
        else if save_lock_result w \<noteq> NoError then Some (FileErrors TOOLS_FILEIO_LOCKFILE_FAILED, None)
        else if save_open_result w \<noteq> NoError then Some (FileErrors TOOLS_FILEIO_OPEN_FAILED, None)
        else do {
          (e, out) \<leftarrow> config_write (write_fails w) (file_config f) \<lparr>out_text = [], out_calls = 0\<rparr>;
          Some (if e \<noteq> NoError then CfgConfigErrors CFG_CONFIG_WRITE_FAILED
                else if save_close_result w \<noteq> NoError then FileErrors TOOLS_CLOSE_FAILED
                else if save_unlock_result w \<noteq> NoError then FileErrors TOOLS_FILEIO_LOCKFILE_FAILED
                else NoError,
                Some (path, out_text out))
        }
      })"

definition addItemAndSave ::
  "configuration_file \<Rightarrow> string option \<Rightarrow> string option \<Rightarrow> string option \<Rightarrow> int \<Rightarrow> int \<Rightarrow> save_calls \<Rightarrow>
     (lib_error \<times> configuration_file \<times> (string \<times> string) option) option" where
  "addItemAndSave f sectionName itemName value k n w = do {
     (e, c) \<leftarrow> config_appendItemValue (file_config f) sectionName itemName value k n;
     let f1 = f\<lparr>file_config := c\<rparr>;
     if e \<noteq> NoError then Some (e, f1, None)
     else map_option (\<lambda>(e1, out). (e1, f1, out)) (ConfigurationFile_save f1 None w)
   }"

end
