(* ===== verification/CfgWriteSpec.thy ===== *)
theory CfgWriteSpec
  imports ConfigSpec CfgWrite
begin

text \<open>
  The text a configuration is written as, from its abstraction, and what a call of \<open>write\<close> leaves in the file: all of it, or
  a prefix when a call of \<open>writeChars\<close> fails.
\<close>

definition name_out :: "string \<Rightarrow> string" where
  "name_out s = concat (name_chunks s)"

definition values_out :: "string list \<Rightarrow> string" where
  "values_out vs =
     (case vs of
        [] \<Rightarrow> [QUOTE, QUOTE, NEWLINE]
      | [v] \<Rightarrow> concat (single_chunks v) @ [NEWLINE]
      | _ \<Rightarrow> NEWLINE # TAB # ''{'' @ NEWLINE # concat (list_chunks vs) @ TAB # ''}'' @ [NEWLINE])"

definition item_out :: "item_text \<Rightarrow> string" where
  "item_out a = concat (comment_chunks (TAB # ''##'') (it_comment a)) @ TAB # name_out (it_name a) @ '' = '' @ values_out (it_values a)"

definition date_out :: "string option \<Rightarrow> string" where
  "date_out d = (case d of None \<Rightarrow> [] | Some t \<Rightarrow> '' ('' @ t @ '')'')"

definition section_out :: "section_text \<Rightarrow> string" where
  "section_out s = concat (comment_chunks ''#'' (se_comment s)) @ ''['' @ name_out (se_name s) @ '']'' @ date_out (se_date s) @ NEWLINE #
     concat (map (\<lambda>a. item_out a @ [NEWLINE]) (se_items s))"

definition config_out :: "config_text \<Rightarrow> string" where
  "config_out a = concat (map section_out (cf_sections a))"

section \<open>Calls of writeChars\<close>

text \<open>An error stands for a file with some prefix of the text; no error for the whole text.\<close>

definition wrote :: "out_file \<Rightarrow> string \<Rightarrow> lib_error \<Rightarrow> out_file \<Rightarrow> bool" where
  "wrote f s e f' \<longleftrightarrow> (\<exists>p q. s = p @ q \<and> out_text f' = out_text f @ p \<and> (e = NoError \<longrightarrow> q = []))"

lemma wrote_trans: "wrote f s NoError f1 \<Longrightarrow> wrote f1 t e f2 \<Longrightarrow> wrote f (s @ t) e f2"
  unfolding wrote_def by (elim exE conjE) (metis append.right_neutral append_assoc)

lemma wrote_error: "wrote f s e f1 \<Longrightarrow> e' \<noteq> NoError \<Longrightarrow> wrote f (s @ t) e' f1"
  unfolding wrote_def by (elim exE conjE) (metis append_assoc)

lemma wrote_none: "wrote f [] NoError f"
  by (simp add: wrote_def)

lemma writeChars_ok:
  "\<exists>e f'. writeChars fails s f = (e, f') \<and> wrote f s e f' \<and> ((\<forall>k. \<not> fails k) \<longrightarrow> e = NoError)"
proof (cases "fails (out_calls f)")
  case True
  then show ?thesis by (auto simp: writeChars_def wrote_def)
next
  case False
  then show ?thesis by (simp add: writeChars_def wrote_def)
qed

lemma write_chunks_ok:
  "\<exists>e f'. write_chunks fails ss f = (e, f') \<and> wrote f (concat ss) e f' \<and> ((\<forall>k. \<not> fails k) \<longrightarrow> e = NoError)"
proof (induction ss arbitrary: f)
  case Nil
  then show ?case by (simp add: wrote_none)
next
  case (Cons s ss)
  obtain e f1 where f1: "writeChars fails s f = (e, f1)" "wrote f s e f1" "(\<forall>k. \<not> fails k) \<longrightarrow> e = NoError"
    using writeChars_ok [of fails s f] by blast
  show ?case
  proof (cases "e = NoError")
    case True
    obtain e2 f2 where "write_chunks fails ss f1 = (e2, f2)" "wrote f1 (concat ss) e2 f2" "(\<forall>k. \<not> fails k) \<longrightarrow> e2 = NoError"
      using Cons.IH [of f1] by blast
    then show ?thesis using f1 True wrote_trans [of f s f1 "concat ss" e2 f2] by simp
  next
    case False
    then have "write_chunks fails (s # ss) f = (e, f1)" using f1(1) by (cases e) simp_all
    then show ?thesis using f1 False wrote_error [of f s e f1 e "concat ss"] by simp
  qed
qed

section \<open>Items, sections and configurations\<close>

lemma those_map_Some: "those (map Some vs) = Some vs"
  by (induction vs) simp_all

lemma item_texts_ok: "item_wf it \<Longrightarrow> item_texts it = Some (it_values (item_abs it))"
  by (elim item_wf_obtain) (simp add: item_texts_def item_abs_def those_map_Some)

lemma item_chunks_ok:
  assumes "item_wf it"
  shows "\<exists>ss. item_chunks it = Some ss \<and> concat ss = item_out (item_abs it)"
proof -
  obtain nm cm where n: "pItemName it = Some nm" "pItemComment it = Some cm" "lValuesNumber it = int (length (it_values (item_abs it)))"
    using assms by (elim item_wf_obtain) (simp add: item_abs_def)
  then have "it_name (item_abs it) = nm" "it_comment (item_abs it) = cm" by (simp_all add: item_abs_def)
  then show ?thesis
    using n item_texts_ok [OF assms]
    by (auto simp: item_chunks_def item_out_def values_out_def name_out_def split: list.splits)
qed

lemma item_write_ok:
  assumes "item_wf it"
  shows "\<exists>e f'. item_write fails it f = Some (e, f') \<and> wrote f (item_out (item_abs it)) e f' \<and> ((\<forall>k. \<not> fails k) \<longrightarrow> e = NoError)"
proof -
  obtain ss where "item_chunks it = Some ss" "concat ss = item_out (item_abs it)" using item_chunks_ok [OF assms] by blast
  then show ?thesis using write_chunks_ok [of fails ss f] by (auto simp: item_write_def)
qed

lemma write_items_ok:
  "list_all item_wf its \<Longrightarrow> \<exists>e f'. write_items fails its f = Some (e, f') \<and>
     wrote f (concat (map (\<lambda>a. item_out a @ [NEWLINE]) (map item_abs its))) e f' \<and> ((\<forall>k. \<not> fails k) \<longrightarrow> e = NoError)"
proof (induction its arbitrary: f)
  case Nil
  then show ?case by (simp add: wrote_none)
next
  case (Cons it its)
  let ?rest = "concat (map (\<lambda>a. item_out a @ [NEWLINE]) (map item_abs its))"
  obtain e f1 where f1: "item_write fails it f = Some (e, f1)" "wrote f (item_out (item_abs it)) e f1" "(\<forall>k. \<not> fails k) \<longrightarrow> e = NoError"
    using item_write_ok [of it fails f] Cons.prems by auto
  show ?case
  proof (cases "e = NoError")
    case False
    then show ?thesis
      using f1 wrote_error [OF f1(2), of "CfgItemErrors CFG_CONFIGURATIONITEM_WRITE_FAILED" "NEWLINE # ?rest"] by (auto simp: o_def)
  next
    case True
    obtain e2 f2 where f2: "writeChars fails [NEWLINE] f1 = (e2, f2)" "wrote f1 [NEWLINE] e2 f2" "(\<forall>k. \<not> fails k) \<longrightarrow> e2 = NoError"
      using writeChars_ok [of fails "[NEWLINE]" f1] by blast
    have w2: "wrote f (item_out (item_abs it) @ [NEWLINE]) e2 f2" using wrote_trans f1(2) f2(2) True by blast
    show ?thesis
    proof (cases "e2 = NoError")
      case t2: True
      obtain e3 f3 where "write_items fails its f2 = Some (e3, f3)" "wrote f2 ?rest e3 f3" "(\<forall>k. \<not> fails k) \<longrightarrow> e3 = NoError"
        using Cons.IH [of f2] Cons.prems by auto
      then show ?thesis using f1(1) f2(1) True t2 w2 wrote_trans [of f "item_out (item_abs it) @ [NEWLINE]" f2 ?rest e3 f3] by auto
    next
      case False
      then have "write_items fails (it # its) f = Some (e2, f2)" using f1(1) f2(1) True by (cases e2) simp_all
      then show ?thesis using False f2(3) wrote_error [OF w2 False, of ?rest] by auto
    qed
  qed
qed

lemma section_write_ok:
  assumes "section_wf s"
  shows "\<exists>e f'. section_write fails s f = Some (e, f') \<and> wrote f (section_out (section_abs s)) e f' \<and> ((\<forall>k. \<not> fails k) \<longrightarrow> e = NoError)"
proof -
  obtain its r nm cm where s: "pciCfgItems s = its @ r" "lCfgItemsNumber s = int (length its)" "section_items s = its"
      "list_all item_wf its" "pSectionName s = Some nm" "pSectionComment s = Some cm"
    using section_wf_obtain [OF assms] by metis
  define head where "head = concat (comment_chunks ''#'' cm) @ ''['' @ name_out nm @ '']'' @ date_out (pSectionDate s) @ [NEWLINE]"
  let ?rest = "concat (map (\<lambda>a. item_out a @ [NEWLINE]) (map item_abs its))"
  have out: "section_out (section_abs s) = head @ ?rest"
    using s by (simp add: section_out_def section_abs_def head_def)
  obtain ss where ss: "header_chunks s = Some ss" "concat ss = head"
    using s by (auto simp: header_chunks_def head_def name_out_def date_out_def split: option.splits)
  obtain e f1 where f1: "write_chunks fails ss f = (e, f1)" "wrote f head e f1" "(\<forall>k. \<not> fails k) \<longrightarrow> e = NoError"
    using write_chunks_ok [of fails ss f] ss by auto
  show ?thesis
  proof (cases "e = NoError")
    case True
    obtain e2 f2 where "write_items fails its f1 = Some (e2, f2)" "wrote f1 ?rest e2 f2" "(\<forall>k. \<not> fails k) \<longrightarrow> e2 = NoError"
      using write_items_ok [OF s(4), of fails f1] by auto
    then show ?thesis
      using True f1 ss s(1,2) wrote_trans [of f head f1 ?rest e2 f2] by (simp add: section_write_def out)
  next
    case False
    then have "section_write fails s f = Some (e, f1)" using f1(1) ss(1) by (cases e) (simp_all add: section_write_def)
    then show ?thesis using False f1(2,3) wrote_error [of f head e f1 e ?rest] by (auto simp: out)
  qed
qed

lemma write_sections_ok:
  "list_all section_wf ss \<Longrightarrow> \<exists>e f'. write_sections fails ss f = Some (e, f') \<and>
     wrote f (concat (map section_out (map section_abs ss))) e f' \<and> ((\<forall>k. \<not> fails k) \<longrightarrow> e = NoError)"
proof (induction ss arbitrary: f)
  case Nil
  then show ?case by (simp add: wrote_none)
next
  case (Cons s ss)
  let ?rest = "concat (map section_out (map section_abs ss))"
  obtain e f1 where f1: "section_write fails s f = Some (e, f1)" "wrote f (section_out (section_abs s)) e f1" "(\<forall>k. \<not> fails k) \<longrightarrow> e = NoError"
    using section_write_ok [of s fails f] Cons.prems by auto
  show ?case
  proof (cases "e = NoError")
    case False
    then show ?thesis
      using f1 wrote_error [OF f1(2), of "CfgSectionErrors CFG_CONFIGURATIONSECTION_WRITE_FAILED" ?rest] by auto
  next
    case True
    obtain e2 f2 where "write_sections fails ss f1 = Some (e2, f2)" "wrote f1 ?rest e2 f2" "(\<forall>k. \<not> fails k) \<longrightarrow> e2 = NoError"
      using Cons.IH [of f1] Cons.prems by auto
    then show ?thesis using f1 True wrote_trans [of f "section_out (section_abs s)" f1 ?rest e2 f2] by auto
  qed
qed

lemma config_write_ok:
  assumes "config_wf c"
  shows "\<exists>e f'. config_write fails c f = Some (e, f') \<and> wrote f (config_out (config_abs c)) e f' \<and> ((\<forall>k. \<not> fails k) \<longrightarrow> e = NoError)"
proof -
  obtain ss r where c: "pcsCfgSections c = ss @ r" "lCfgSectionsNumber c = int (length ss)" "config_sections c = ss" "list_all section_wf ss"
    using config_wf_obtain [OF assms] by metis
  then show ?thesis
    using write_sections_ok [OF c(4), of fails f] by (simp add: config_write_def config_out_def config_abs_def)
qed

end
