(* ===== verification/CfgScanSpec.thy ===== *)
theory CfgScanSpec
  imports CfgScanner
begin

text \<open>
  What the scanner makes of the pieces a configuration is written in: single characters, comments, plain strings and
  strings in quotes.
\<close>

section \<open>The longest match\<close>

lemma scan_token: "s \<noteq> [] \<Longrightarrow> longest_match scan_rules s = (n, act) \<Longrightarrow> act (take n s) = Some t \<Longrightarrow> yylex s = (t, drop n s)"
  by (subst yylex.simps) simp

lemma scan_skips: "s \<noteq> [] \<Longrightarrow> longest_match scan_rules s = (n, act) \<Longrightarrow> act (take n s) = None \<Longrightarrow> yylex s = yylex (drop n s)"
  by (subst yylex.simps) simp

section \<open>Single characters\<close>

lemma match_date_no: "\<not> is_digit c \<Longrightarrow> match_date (c # r) = 0"
  by (auto simp: match_date_def split: list.splits)

lemma match_quoted_no: "c \<noteq> QUOTE \<Longrightarrow> match_quotedString (c # r) = 0"
  by (simp add: match_quotedString_def)

lemma match_comment_no: "c \<noteq> CHR ''#'' \<Longrightarrow> match_itemComment (c # r) = 0" "c \<noteq> CHR ''#'' \<Longrightarrow> match_sectionComment (c # r) = 0"
  by (auto simp: match_itemComment_def match_sectionComment_def split: list.splits)

lemma match_string_no: "ends_string c \<Longrightarrow> match_string (c # r) = 0"
  by (simp add: match_string_def)

lemma match_char_Cons: "match_char P (c # r) = (if P c then 1 else 0)"
  by (simp add: match_char_def)

lemma ends_not_digit: "ends_string c \<Longrightarrow> \<not> is_digit c" "is_special c \<Longrightarrow> ends_string c"
  by (auto simp: ends_string_def is_special_def is_digit_def)

lemmas matches_no = match_date_no match_quoted_no match_comment_no match_string_no match_char_Cons

definition is_blank :: "char \<Rightarrow> bool" where
  "is_blank c \<longleftrightarrow> c \<in> {CHR '' '', TAB, NEWLINE, CHR 0x0D}"

lemma scan_blank: "is_blank c \<Longrightarrow> yylex (c # r) = yylex r"
proof -
  assume c: "is_blank c"
  then have no: "\<not> is_digit c" "c \<noteq> QUOTE" "c \<noteq> CHR ''#''" "ends_string c"
    by (auto simp: is_blank_def ends_string_def is_special_def is_digit_def)
  have "\<exists>act. longest_match scan_rules (c # r) = (1, act) \<and> act [c] = None"
    using c no by (auto simp: scan_rules_def matches_no is_blank_def)
  then show ?thesis using scan_skips [of "c # r" 1] by auto
qed

lemma scan_blanks: "list_all is_blank w \<Longrightarrow> yylex (w @ r) = yylex r"
  by (induction w) (simp_all add: scan_blank)

definition char_token :: "char \<Rightarrow> cfg_token" where
  "char_token c =
     (if c = CHR ''['' then SECTION_BEGIN else if c = CHR '']'' then SECTION_END
      else if c = CHR ''{'' then ITEMSLIST_BEGIN else if c = CHR ''}'' then ITEMSLIST_END else CHARACTER c)"

lemma scan_char:
  assumes "c \<in> {CHR ''['', CHR '']'', CHR ''{'', CHR ''}'', CHR ''='', CHR '',''}"
  shows "yylex (c # r) = (char_token c, r)"
proof -
  have no: "\<not> is_digit c" "c \<noteq> QUOTE" "c \<noteq> CHR ''#''" "ends_string c"
    using assms by (auto simp: ends_string_def is_special_def is_digit_def)
  have "\<exists>act. longest_match scan_rules (c # r) = (1, act) \<and> act [c] = Some (char_token c)"
    using assms no by (auto simp: scan_rules_def matches_no char_token_def)
  then show ?thesis using scan_token [of "c # r" 1] by auto
qed

section \<open>Comments\<close>

definition comment_line :: "string \<Rightarrow> bool" where
  "comment_line l \<longleftrightarrow> NEWLINE \<notin> set l \<and> CHR ''#'' \<notin> set l \<and> NUL \<notin> set l"

lemma comment_rest_line: "comment_line l \<Longrightarrow> comment_rest (l @ NEWLINE # r) = length l"
  unfolding comment_rest_def by (subst takeWhile_append2) (auto simp: comment_line_def)

lemma up_to_NUL_id [simp]: "NUL \<notin> set s \<Longrightarrow> up_to_NUL s = s"
  by (auto simp: up_to_NUL_def takeWhile_eq_all_conv)

lemma scan_sectionComment:
  assumes "comment_line l"
  shows "yylex (CHR ''#'' # l @ NEWLINE # r) = (SECTIONCOMMENT l, NEWLINE # r)"
proof -
  let ?s = "CHR ''#'' # l @ NEWLINE # r"
  have no: "\<not> is_digit CHR ''#''" "ends_string CHR ''#''" by (simp_all add: is_digit_def ends_string_def is_special_def)
  have m: "match_sectionComment ?s = Suc (length l)"
    using comment_rest_line [OF assms, of r] by (simp add: match_sectionComment_def)
  have i: "match_itemComment ?s = 0"
    using assms by (cases l) (auto simp: match_itemComment_def comment_line_def)
  have "longest_match scan_rules ?s = (Suc (length l), \<lambda>t. Some (SECTIONCOMMENT (up_to_NUL (drop 1 t))))"
    using no m i by (simp add: scan_rules_def matches_no)
  then show ?thesis using scan_token [of ?s "Suc (length l)"] assms by (simp add: comment_line_def)
qed

lemma scan_itemComment:
  assumes "comment_line l"
  shows "yylex (CHR ''#'' # CHR ''#'' # l @ NEWLINE # r) = (ITEMCOMMENT l, NEWLINE # r)"
proof -
  let ?s = "CHR ''#'' # CHR ''#'' # l @ NEWLINE # r"
  have no: "\<not> is_digit CHR ''#''" "ends_string CHR ''#''" by (simp_all add: is_digit_def ends_string_def is_special_def)
  have m: "match_itemComment ?s = Suc (Suc (length l))"
    using comment_rest_line [OF assms, of r] by (simp add: match_itemComment_def)
  have i: "match_sectionComment ?s = 1" by (simp add: match_sectionComment_def comment_rest_def)
  have "longest_match scan_rules ?s = (Suc (Suc (length l)), \<lambda>t. Some (ITEMCOMMENT (up_to_NUL (drop 2 t))))"
    using no m i by (simp add: scan_rules_def matches_no)
  then show ?thesis using scan_token [of ?s "Suc (Suc (length l))"] assms by (simp add: comment_line_def)
qed

section \<open>Strings\<close>

text \<open>Characters a text may have, and what comes behind a text: blanks or commas up to a special character.\<close>

definition quotable :: "string \<Rightarrow> bool" where
  "quotable s \<longleftrightarrow> (\<forall>c \<in> set s. \<not> is_special c \<and> c \<noteq> NUL)"

definition closes :: "string \<Rightarrow> bool" where
  "closes r \<longleftrightarrow> (\<exists>w x r'. r = w @ x # r' \<and> set w \<subseteq> {CHR '' '', CHR '',''} \<and> is_special x)"

lemma closes_Cons:
  "is_special c \<Longrightarrow> closes (c # r)" "closes r \<Longrightarrow> closes (CHR '' '' # r)" "closes r \<Longrightarrow> closes (CHR '','' # r)"
proof -
  show "is_special c \<Longrightarrow> closes (c # r)" unfolding closes_def by (rule exI [of _ "[]"]) simp
next
  show "closes r \<Longrightarrow> closes (CHR '' '' # r)" "closes r \<Longrightarrow> closes (CHR '','' # r)" unfolding closes_def
    by (elim exE conjE, metis append_Cons insertCI insert_subset list.set(2))+
qed

lemma closes_ends: "closes r \<Longrightarrow> \<exists>c r'. r = c # r' \<and> ends_string c"
  unfolding closes_def
  by (elim exE conjE) (metis append_Cons append_Nil ends_string_def insertE insert_subset list.set(2) neq_Nil_conv singletonD insertCI ends_not_digit(2))

lemma closes_run: "closes r \<Longrightarrow> QUOTE \<notin> set (takeWhile (\<lambda>c. \<not> is_special c) r)"
proof -
  assume "closes r"
  then obtain w x r' where r: "r = w @ x # r'" "set w \<subseteq> {CHR '' '', CHR '',''}" "is_special x" unfolding closes_def by blast
  then have "\<forall>c \<in> set w. \<not> is_special c" by (auto simp: is_special_def)
  then have "takeWhile (\<lambda>c. \<not> is_special c) r = w" using r by (simp add: takeWhile_append2)
  then show ?thesis using r by auto
qed

lemma match_string_closed:
  assumes "\<forall>c \<in> set s. \<not> ends_string c" "closes r"
  shows "match_string (s @ r) = length s"
proof -
  obtain c r' where "r = c # r'" "ends_string c" using closes_ends [OF assms(2)] by blast
  then show ?thesis using assms(1) by (simp add: match_string_def takeWhile_append2)
qed

lemma match_string_le: "closes r \<Longrightarrow> match_string (s @ r) \<le> length s"
proof (induction s)
  case Nil
  then show ?case using closes_ends [of r] by (auto simp: match_string_def)
next
  case (Cons a s)
  then show ?case by (simp add: match_string_def)
qed

lemma match_quoted:
  assumes "quotable s" "closes r"
  shows "match_quotedString (QUOTE # s @ QUOTE # r) = Suc (Suc (length s))"
proof -
  let ?q = "takeWhile (\<lambda>c. \<not> is_special c) r"
  have "\<forall>c \<in> set (s @ [QUOTE]). \<not> is_special c" using assms(1) by (auto simp: quotable_def is_special_def)
  then have "takeWhile (\<lambda>c. \<not> is_special c) ((s @ [QUOTE]) @ r) = (s @ [QUOTE]) @ ?q"
    by (subst takeWhile_append2) auto
  moreover have "dropWhile (\<lambda>c. c \<noteq> QUOTE) (rev ((s @ [QUOTE]) @ ?q)) = QUOTE # rev s"
    using closes_run [OF assms(2)] by (auto simp: dropWhile_append)
  ultimately show ?thesis by (simp add: match_quotedString_def Let_def)
qed

lemma scan_quoted:
  assumes "quotable s" "closes r"
  shows "yylex (QUOTE # s @ QUOTE # r) = (STRING s, r)"
proof -
  let ?s = "QUOTE # s @ QUOTE # r"
  have no: "\<not> is_digit QUOTE" by (simp add: is_digit_def)
  have q: "match_quotedString ?s = Suc (Suc (length s))" by (rule match_quoted [OF assms])
  have m: "match_string ?s \<le> Suc (Suc (length s))"
    using match_string_le [OF assms(2), of "QUOTE # s @ [QUOTE]"] by simp
  have "longest_match scan_rules ?s = (Suc (Suc (length s)), \<lambda>t. Some (STRING (up_to_NUL (butlast (tl t)))))"
    using no q m by (simp add: scan_rules_def match_date_no match_comment_no match_char_Cons)
  then show ?thesis using scan_token [of ?s "Suc (Suc (length s))"] assms(1) by (auto simp: quotable_def butlast_append)
qed

definition looks_like_date :: "string \<Rightarrow> bool" where
  "looks_like_date s \<longleftrightarrow> length s = 10 \<and> match_date s = 10"

definition plain :: "string \<Rightarrow> bool" where
  "plain s \<longleftrightarrow> s \<noteq> [] \<and> (\<forall>c \<in> set s. \<not> ends_string c \<and> c \<noteq> NUL \<and> c \<noteq> QUOTE) \<and>
     \<not> looks_like_date s \<and> s \<noteq> ''('' \<and> s \<noteq> '')''"

lemma match_date_le: "match_date s = 0 \<or> match_date s = 10 \<and> 10 \<le> length s \<and> (\<forall>c \<in> set (take 10 s). is_digit c \<or> c = CHR ''/'')"
  by (auto simp: match_date_def split: list.splits)

lemma match_date_take: "10 \<le> length s \<Longrightarrow> match_date (s @ r) = match_date s"
proof -
  assume "10 \<le> length s"
  then have "\<exists>a b c d e f g h i j t. s = a # b # c # d # e # f # g # h # i # j # t"
    by (auto simp: numeral_eq_Suc Suc_le_length_iff)
  then show ?thesis by (auto simp: match_date_def)
qed

lemma match_date_plain:
  assumes "plain s" "closes r"
  shows "match_date (s @ r) < length s"
proof (cases "match_date (s @ r) = 0")
  case True
  then show ?thesis using assms(1) by (simp add: plain_def)
next
  case False
  then have m: "match_date (s @ r) = 10" "\<forall>c \<in> set (take 10 (s @ r)). is_digit c \<or> c = CHR ''/''"
    using match_date_le [of "s @ r"] by auto
  obtain c r' where r: "r = c # r'" "ends_string c" using closes_ends [OF assms(2)] by blast
  have "10 \<le> length s"
  proof (rule ccontr)
    assume "\<not> 10 \<le> length s"
    then have "c \<in> set (take 10 (s @ r))" using r by (auto simp: take_Cons')
    then show False using m(2) r(2) ends_not_digit(1) [of c] by (auto simp: ends_string_def is_special_def)
  qed
  moreover have "length s \<noteq> 10"
    using m(1) match_date_take [of s r] calculation assms(1) by (auto simp: plain_def looks_like_date_def)
  ultimately show ?thesis using m(1) by simp
qed

lemma scan_plain:
  assumes "plain s" "closes r"
  shows "yylex (s @ r) = (STRING s, r)"
proof -
  obtain h t where s: "s = h # t" using assms(1) by (cases s) (auto simp: plain_def)
  have h: "\<not> ends_string h" "h \<noteq> QUOTE" "h \<noteq> CHR ''#''"
    using assms(1) s by (auto simp: plain_def ends_string_def is_special_def)
  then have sp: "h \<notin> {CHR ''='', CHR ''['', CHR '']'', CHR ''{'', CHR ''}'', CHR '','', CHR '' '', TAB, NEWLINE, CHR 0x0D}"
    by (auto simp: ends_string_def is_special_def)
  have m: "match_string (s @ r) = length s"
    using match_string_closed assms by (auto simp: plain_def)
  have par: "(h = CHR ''('' \<or> h = CHR '')'') \<Longrightarrow> 1 < length s" using assms(1) s by (auto simp: plain_def)
  have d: "match_date (s @ r) < length s" by (rule match_date_plain [OF assms])
  have "longest_match scan_rules (s @ r) = (length s, \<lambda>t. Some (STRING (up_to_NUL t)))"
    using h sp m par d s by (auto simp: scan_rules_def match_comment_no match_quoted_no match_char_Cons)
  then show ?thesis
    using scan_token [of "s @ r" "length s"] s assms(1) by (auto simp: plain_def)
qed

end
