(* ===== verification/CfgRoundtrip.thy ===== *)
theory CfgRoundtrip
  imports CfgWriteSpec CfgScanSpec CfgParser
begin

text \<open>
  The parser reads back what was written, when the texts are ones the format can hold (\<open>storable\<close>): no special character,
  no text that has to be in quotes and is not, no section with a date, no item without a value.
\<close>

section \<open>Texts the format can hold\<close>

definition storable_name :: "string \<Rightarrow> bool" where
  "storable_name s \<longleftrightarrow> quotable s \<and> (name_quoted s \<or> s \<noteq> [] \<and> CHR '','' \<notin> set s \<and> \<not> looks_like_date s \<and> s \<noteq> ''('' \<and> s \<noteq> '')'')"

text \<open>A single value may have commas, a value of several only with blanks or quotes.\<close>

definition storable_value :: "bool \<Rightarrow> string \<Rightarrow> bool" where
  "storable_value single v \<longleftrightarrow>
     quotable v \<and> (v = [] \<or> name_quoted v \<or>
       (single \<or> CHR '','' \<notin> set v) \<and> \<not> looks_like_date v \<and> v \<noteq> ''('' \<and> v \<noteq> '')'')"

definition storable_comment :: "string \<Rightarrow> bool" where
  "storable_comment c \<longleftrightarrow> CHR ''#'' \<notin> set c \<and> NUL \<notin> set c \<and> (c \<noteq> [] \<longrightarrow> hd c \<noteq> NEWLINE)"

definition storable_item :: "bool \<Rightarrow> item_text \<Rightarrow> bool" where
  "storable_item cs a \<longleftrightarrow> it_case a = cs \<and> storable_name (it_name a) \<and> storable_comment (it_comment a) \<and>
     it_values a \<noteq> [] \<and> list_all (storable_value (length (it_values a) = 1)) (it_values a)"

definition storable_section :: "bool \<Rightarrow> section_text \<Rightarrow> bool" where
  "storable_section cs s \<longleftrightarrow> se_case s = cs \<and> storable_name (se_name s) \<and> storable_comment (se_comment s) \<and>
     se_date s = None \<and> list_all (storable_item cs) (se_items s)"

definition storable_config :: "config_text \<Rightarrow> bool" where
  "storable_config a \<longleftrightarrow> list_all (storable_section (cf_case a)) (cf_sections a)"

section \<open>Names and values\<close>

lemma plain_intro:
  assumes "quotable s" "\<not> name_quoted s" "CHR '','' \<notin> set s" "s \<noteq> []" "\<not> looks_like_date s" "s \<noteq> ''(''" "s \<noteq> '')''"
  shows "plain s"
  using assms by (auto simp: plain_def quotable_def name_quoted_def ends_string_def)

lemma scan_name:
  assumes "storable_name s" "closes r"
  shows "yylex (name_out s @ r) = (STRING s, r)"
proof (cases "name_quoted s")
  case True
  then show ?thesis
    using scan_quoted [of s r] assms by (simp add: name_out_def name_chunks_def storable_name_def)
next
  case False
  then show ?thesis
    using scan_plain [of s r] plain_intro [of s] assms by (simp add: name_out_def name_chunks_def storable_name_def)
qed

lemma scan_quoted_empty: "closes r \<Longrightarrow> yylex (QUOTE # QUOTE # r) = (STRING [], r)"
  using scan_quoted [of "[]" r] by (simp add: quotable_def)

lemma scan_single:
  assumes "storable_value True v" "closes r"
  shows "yylex (concat (single_chunks v) @ r) = (STRING v, r)"
proof (cases "name_quoted v \<or> CHR '','' \<in> set v")
  case True
  then show ?thesis
    using scan_quoted [of v r] assms by (auto simp: single_chunks_def storable_value_def)
next
  case False
  then show ?thesis
    using scan_plain [of v r] plain_intro [of v] scan_quoted_empty assms
    by (auto simp: single_chunks_def storable_value_def)
qed

lemma scan_value:
  assumes "storable_value False v" "closes r"
  shows "yylex (concat (value_chunks v) @ r) = (STRING v, r)"
proof (cases "name_quoted v")
  case True
  then show ?thesis
    using scan_quoted [of v r] assms by (auto simp: value_chunks_def storable_value_def name_quoted_def)
next
  case False
  then show ?thesis
    using scan_plain [of v r] plain_intro [of v] scan_quoted_empty assms
    by (auto simp: value_chunks_def storable_value_def)
qed

lemma blanks_simps [simp]: "is_blank CHR '' ''" "is_blank TAB" "is_blank NEWLINE"
  by (simp_all add: is_blank_def)

lemma special_simps [simp]: "is_special NEWLINE" "is_special CHR ''=''" "is_special CHR '']''" "is_special CHR ''}''"
  by (simp_all add: is_special_def)

lemma closes_simps [simp]:
  "closes (NEWLINE # r)" "closes (CHR '','' # NEWLINE # r)" "closes (CHR '' '' # CHR ''='' # r)" "closes (CHR '']'' # r)"
  using closes_Cons(1) [of NEWLINE r] closes_Cons(1) [of "CHR ''=''" r] closes_Cons(1) [of "CHR '']''" r] closes_Cons(2,3)
  by simp_all

section \<open>Comments\<close>

lemma comment_lines_join: "\<exists>l ls. comment_lines c = l # ls \<and> c = l @ concat (map ((#) NEWLINE) ls)"
proof (induction c)
  case Nil
  then show ?case by simp
next
  case (Cons a c)
  then obtain l ls where c: "comment_lines c = l # ls" "c = l @ concat (map ((#) NEWLINE) ls)" by blast
  then show ?case by auto
qed

lemma comment_lines_set: "l \<in> set (comment_lines c) \<Longrightarrow> NEWLINE \<notin> set l \<and> set l \<subseteq> set c"
proof (induction c arbitrary: l)
  case Nil
  then show ?case by simp
next
  case (Cons a c)
  obtain k ks where k: "comment_lines c = k # ks" using comment_lines_join by blast
  then have "NEWLINE \<notin> set k \<and> set k \<subseteq> set c" "\<And>l. l \<in> set ks \<Longrightarrow> NEWLINE \<notin> set l \<and> set l \<subseteq> set c" using Cons.IH by auto
  moreover have "l \<in> set (if a = NEWLINE then [] # k # ks else (a # k) # ks)" using Cons.prems k by (auto split: if_splits)
  ultimately show ?case by (cases "a = NEWLINE") auto
qed

lemma join_lines: "c \<noteq> [] \<Longrightarrow> foldl join_comments c ls = c @ concat (map ((#) NEWLINE) ls)"
  by (induction ls arbitrary: c) (simp_all add: join_comments_def)

lemma joined_comment:
  assumes "c \<noteq> []" "hd c \<noteq> NEWLINE"
  shows "foldl join_comments [] (comment_lines c) = c"
proof -
  obtain l ls where l: "comment_lines c = l # ls" "c = l @ concat (map ((#) NEWLINE) ls)" using comment_lines_join by blast
  have "l \<noteq> []"
  proof
    assume "l = []"
    then show False using l(2) assms by (cases ls) auto
  qed
  then show ?thesis using l join_lines [of l ls] by (simp add: join_comments_def)
qed

lemma storable_lines: "storable_comment c \<Longrightarrow> list_all comment_line (comment_lines c)"
  using comment_lines_set [of _ c] by (auto simp: storable_comment_def comment_line_def list_all_iff)

text \<open>Lines of comments that blanks come before, up to a token of another kind.\<close>

lemma itemComments_lines:
  assumes "list_all comment_line ls" "list_all is_blank w" "\<And>x. fst (yylex r) \<noteq> ITEMCOMMENT x"
  shows "\<exists>w'. itemComments c (w @ concat (map (\<lambda>l. TAB # ''##'' @ l @ [NEWLINE]) ls) @ r) = (foldl join_comments c ls, w' @ r) \<and>
    list_all is_blank w'"
  using assms(1,2)
proof (induction ls arbitrary: c w)
  case Nil
  have no: "\<forall>x. fst (yylex r) \<noteq> ITEMCOMMENT x" using assms(3) by blast
  have "yylex (w @ r) = yylex r" by (rule scan_blanks [OF Nil.prems(2)])
  then have "itemComments c (w @ r) = (c, w @ r)"
    using no by (subst itemComments.simps) (auto split: prod.splits cfg_token.splits)
  then show ?case using Nil.prems by auto
next
  case (Cons l ls)
  let ?rest = "concat (map (\<lambda>l. TAB # ''##'' @ l @ [NEWLINE]) ls) @ r"
  have "yylex (w @ TAB # CHR ''#'' # CHR ''#'' # l @ NEWLINE # ?rest) = (ITEMCOMMENT l, NEWLINE # ?rest)"
    using scan_blanks [of "w @ [TAB]"] scan_itemComment [of l ?rest] Cons.prems by simp
  then have "itemComments c (w @ concat (map (\<lambda>l. TAB # ''##'' @ l @ [NEWLINE]) (l # ls)) @ r) =
      itemComments (join_comments c l) ([NEWLINE] @ ?rest)"
    by (subst itemComments.simps) simp
  then show ?case using Cons.IH [of "[NEWLINE]" "join_comments c l"] Cons.prems by simp
qed

lemma sectionComments_lines:
  assumes "list_all comment_line ls" "list_all is_blank w" "\<And>x. fst (yylex r) \<noteq> SECTIONCOMMENT x"
  shows "\<exists>w'. sectionComments c (w @ concat (map (\<lambda>l. ''#'' @ l @ [NEWLINE]) ls) @ r) = (foldl join_comments c ls, w' @ r) \<and>
    list_all is_blank w'"
  using assms(1,2)
proof (induction ls arbitrary: c w)
  case Nil
  have no: "\<forall>x. fst (yylex r) \<noteq> SECTIONCOMMENT x" using assms(3) by blast
  have "yylex (w @ r) = yylex r" by (rule scan_blanks [OF Nil.prems(2)])
  then have "sectionComments c (w @ r) = (c, w @ r)"
    using no by (subst sectionComments.simps) (auto split: prod.splits cfg_token.splits)
  then show ?case using Nil.prems by auto
next
  case (Cons l ls)
  let ?rest = "concat (map (\<lambda>l. ''#'' @ l @ [NEWLINE]) ls) @ r"
  have "yylex (w @ CHR ''#'' # l @ NEWLINE # ?rest) = (SECTIONCOMMENT l, NEWLINE # ?rest)"
    using scan_blanks scan_sectionComment [of l ?rest] Cons.prems by simp
  then have "sectionComments c (w @ concat (map (\<lambda>l. ''#'' @ l @ [NEWLINE]) (l # ls)) @ r) =
      sectionComments (join_comments c l) ([NEWLINE] @ ?rest)"
    by (subst sectionComments.simps) simp
  then show ?case using Cons.IH [of "[NEWLINE]" "join_comments c l"] Cons.prems by simp
qed

lemma comment_chunks_concat:
  "concat (comment_chunks mark c) = (if c = [] then [] else concat (map (\<lambda>l. mark @ l @ [NEWLINE]) (comment_lines c)))"
proof -
  have "concat (concat (map (\<lambda>l. [mark, l, [NEWLINE]]) ls)) = concat (map (\<lambda>l. mark @ l @ [NEWLINE]) ls)" for ls
    by (induction ls) simp_all
  then show ?thesis by (simp add: comment_chunks_def)
qed

lemma itemComments_written:
  assumes "storable_comment c" "list_all is_blank w" "\<And>x. fst (yylex r) \<noteq> ITEMCOMMENT x"
  shows "\<exists>w'. itemComments [] (w @ concat (comment_chunks (TAB # ''##'') c) @ r) = (c, w' @ r) \<and> list_all is_blank w'"
proof (cases "c = []")
  case True
  then show ?thesis using itemComments_lines [of "[]" w r "[]"] assms by (simp add: comment_chunks_concat)
next
  case False
  then show ?thesis
    using itemComments_lines [of "comment_lines c" w r "[]"] assms storable_lines joined_comment [of c]
    by (simp add: comment_chunks_concat storable_comment_def)
qed

lemma sectionComments_written:
  assumes "storable_comment c" "list_all is_blank w" "\<And>x. fst (yylex r) \<noteq> SECTIONCOMMENT x"
  shows "\<exists>w'. sectionComments [] (w @ concat (comment_chunks ''#'' c) @ r) = (c, w' @ r) \<and> list_all is_blank w'"
proof (cases "c = []")
  case True
  then show ?thesis using sectionComments_lines [of "[]" w r "[]"] assms by (simp add: comment_chunks_concat)
next
  case False
  then show ?thesis
    using sectionComments_lines [of "comment_lines c" w r "[]"] assms storable_lines joined_comment [of c]
    by (simp add: comment_chunks_concat storable_comment_def)
qed

section \<open>Values\<close>

fun list_tail :: "string list \<Rightarrow> string" where
  "list_tail [] = [NEWLINE]"
| "list_tail (v # vs) = '','' @ NEWLINE # TAB # TAB # concat (value_chunks v) @ list_tail vs"

lemma list_chunks_tail: "concat (list_chunks (v # vs)) = TAB # TAB # concat (value_chunks v) @ list_tail vs"
  by (induction vs arbitrary: v) simp_all

lemma list_tail_closes: "closes (list_tail vs @ r)"
  by (cases vs) simp_all

lemma empty_item_ok:
  "1 \<le> n \<Longrightarrow> \<exists>it. empty_item cs n = Some it \<and> item_wf it \<and> item_abs it = \<lparr>it_name = [], it_comment = [], it_case = cs, it_values = []\<rparr>"
  using ConfigurationItem_init_ok [OF item_ctor_built, of n "[]" "[]" cs] by (auto simp: empty_item_def)

lemma valuesList_written:
  assumes "list_all (storable_value False) vs" "item_wf it"
  shows "\<exists>it' w'. valuesList it (list_tail vs @ TAB # CHR ''}'' # r) = Some (Inr (it', w' @ CHR ''}'' # r)) \<and> list_all is_blank w' \<and>
    item_wf it' \<and> item_abs it' = item_abs it\<lparr>it_values := it_values (item_abs it) @ vs\<rparr>"
  using assms
proof (induction vs arbitrary: it)
  case Nil
  have "yylex ([NEWLINE, TAB] @ CHR ''}'' # r) = (ITEMSLIST_END, r)"
    using scan_blanks [of "[NEWLINE, TAB]" "CHR ''}'' # r"] scan_char [of "CHR ''}''" r] by (simp add: char_token_def)
  then have "valuesList it ([NEWLINE, TAB] @ CHR ''}'' # r) = Some (Inr (it, [NEWLINE, TAB] @ CHR ''}'' # r))"
    by (subst valuesList.simps) simp
  then show ?case using Nil by (intro exI [of _ it] exI [of _ "[NEWLINE, TAB]"]) simp
next
  case (Cons v vs)
  let ?r = "list_tail vs @ TAB # CHR ''}'' # r"
  have comma: "yylex (CHR '','' # x) = (CHARACTER CHR '','', x)" for x
    using scan_char [of "CHR '',''" x] by (simp add: char_token_def)
  have "yylex (NEWLINE # TAB # TAB # concat (value_chunks v) @ ?r) = (STRING v, ?r)"
    using scan_blanks [of "[NEWLINE, TAB, TAB]"] scan_value [of v ?r] list_tail_closes Cons.prems by simp
  moreover obtain it1 where it1: "item_appendItemValue it (Some v) = Some (NoError, it1)" "item_wf it1"
      "item_abs it1 = item_abs it\<lparr>it_values := it_values (item_abs it) @ [v]\<rparr>"
    using item_appendItemValue_ok [OF Cons.prems(2), of v] by blast
  ultimately have "valuesList it (list_tail (v # vs) @ TAB # CHR ''}'' # r) = valuesList it1 ?r"
    using comma by (subst valuesList.simps) simp
  then show ?case using Cons.IH [OF _ it1(2)] Cons.prems it1(3) by simp
qed

lemma parse_value_written:
  assumes "vs \<noteq> []" "list_all (storable_value (length vs = 1)) vs" "list_all is_blank w" "1 \<le> n"
  shows "\<exists>it w'. parse_value cs n (w @ values_out vs @ r) = Some (Inr (it, w' @ r)) \<and> list_all is_blank w' \<and> item_wf it \<and>
    item_abs it = \<lparr>it_name = [], it_comment = [], it_case = cs, it_values = vs\<rparr>"
proof -
  obtain it where it: "empty_item cs n = Some it" "item_wf it"
      "item_abs it = \<lparr>it_name = [], it_comment = [], it_case = cs, it_values = []\<rparr>"
    using empty_item_ok [OF assms(4)] by blast
  obtain v vs' where vs: "vs = v # vs'" using assms(1) by (cases vs) auto
  show ?thesis
  proof (cases "vs' = []")
    case True
    have "yylex (w @ concat (single_chunks v) @ NEWLINE # r) = (STRING v, NEWLINE # r)"
      using scan_blanks [OF assms(3)] scan_single [of v "NEWLINE # r"] assms(2) vs True by simp
    moreover obtain it1 where "item_appendItemValue it (Some v) = Some (NoError, it1)" "item_wf it1"
        "item_abs it1 = item_abs it\<lparr>it_values := it_values (item_abs it) @ [v]\<rparr>"
      using item_appendItemValue_ok [OF it(2), of v] by blast
    ultimately show ?thesis
      using it vs True by (intro exI [of _ it1] exI [of _ "[NEWLINE]"]) (simp add: parse_value_def values_out_def)
  next
    case False
    let ?tail = "list_tail vs' @ TAB # CHR ''}'' # NEWLINE # r"
    have out: "w @ values_out vs @ r = (w @ [NEWLINE, TAB]) @ CHR ''{'' # NEWLINE # TAB # TAB # concat (value_chunks v) @ ?tail"
      using False vs list_chunks_tail [of v vs'] by (simp add: values_out_def split: list.splits)
    have st: "storable_value False v" "list_all (storable_value False) vs'" using assms(2) vs False by simp_all
    have t1: "yylex (w @ values_out vs @ r) = (ITEMSLIST_BEGIN, NEWLINE # TAB # TAB # concat (value_chunks v) @ ?tail)"
      unfolding out using scan_blanks [of "w @ [NEWLINE, TAB]"] scan_char [of "CHR ''{''"] assms(3) by (simp add: char_token_def)
    have t2: "yylex (NEWLINE # TAB # TAB # concat (value_chunks v) @ ?tail) = (STRING v, ?tail)"
      using scan_blanks [of "[NEWLINE, TAB, TAB]"] scan_value [OF st(1), of ?tail] list_tail_closes by simp
    obtain it1 w1 where it1: "valuesList it ?tail = Some (Inr (it1, w1 @ CHR ''}'' # NEWLINE # r))" "list_all is_blank w1" "item_wf it1"
        "item_abs it1 = item_abs it\<lparr>it_values := it_values (item_abs it) @ vs'\<rparr>"
      using valuesList_written [OF st(2) it(2), of "NEWLINE # r"] by blast
    have t3: "yylex (w1 @ CHR ''}'' # NEWLINE # r) = (ITEMSLIST_END, NEWLINE # r)"
      using scan_blanks [OF it1(2)] scan_char [of "CHR ''}''"] by (simp add: char_token_def)
    obtain it2 where it2: "insertItemValue it1 (Some v) 0 = Some (NoError, it2)" "item_wf it2"
        "item_abs it2 = item_abs it1\<lparr>it_values := v # it_values (item_abs it1)\<rparr>"
      using insertItemValue_ok [OF it1(3), of 0 v] by auto
    have "parse_value cs n (w @ values_out vs @ r) = Some (Inr (it2, [NEWLINE] @ r))"
      using it(1) it1(1) it2(1) t1 t2 t3 by (simp add: parse_value_def)
    then show ?thesis
      using it(3) it1(4) it2 vs by (intro exI [of _ it2] exI [of _ "[NEWLINE]"]) simp
  qed
qed

section \<open>Items and sections\<close>

lemma next_of_name: "storable_name nm \<Longrightarrow> closes r \<Longrightarrow> list_all is_blank w \<Longrightarrow> yylex (w @ name_out nm @ r) = (STRING nm, r)"
  using scan_blanks [of w "name_out nm @ r"] scan_name by simp

lemma parse_item_written:
  assumes "storable_item cs a" "list_all is_blank w" "1 \<le> n"
  shows "\<exists>it w'. parse_item cs n (w @ item_out a @ r) = Some (Inr (it, w' @ r)) \<and> list_all is_blank w' \<and> item_wf it \<and> item_abs it = a"
proof -
  have st: "it_case a = cs" "storable_name (it_name a)" "storable_comment (it_comment a)" "it_values a \<noteq> []"
      "list_all (storable_value (length (it_values a) = 1)) (it_values a)"
    using assms(1) by (auto simp: storable_item_def)
  let ?v = "'' '' @ values_out (it_values a) @ r"
  let ?r = "TAB # name_out (it_name a) @ '' ='' @ ?v"
  have name: "yylex (w' @ ?r) = (STRING (it_name a), '' ='' @ ?v)" if "list_all is_blank w'" for w'
    using next_of_name [OF st(2), of "'' ='' @ ?v" "w' @ [TAB]"] that by simp
  obtain w1 where w1: "itemComments [] (w @ concat (comment_chunks (TAB # ''##'') (it_comment a)) @ ?r) = (it_comment a, w1 @ ?r)"
      "list_all is_blank w1"
    using itemComments_written [OF st(3) assms(2), of ?r] name [of "[]"] by auto
  have eq: "yylex ('' ='' @ ?v) = (CHARACTER CHR ''='', ?v)"
    using scan_blanks [of "'' ''" "CHR ''='' # ?v"] scan_char [of "CHR ''=''" ?v] by (simp add: char_token_def)
  obtain it w2 where it: "parse_value cs n ?v = Some (Inr (it, w2 @ r))" "list_all is_blank w2" "item_wf it"
      "item_abs it = \<lparr>it_name = [], it_comment = [], it_case = cs, it_values = it_values a\<rparr>"
    using parse_value_written [OF st(4,5), of "'' ''" n cs r] assms(3) by auto
  obtain it1 where it1: "modifyItemName it (Some (it_name a)) = (NoError, it1)" "item_wf it1"
      "item_abs it1 = item_abs it\<lparr>it_name := it_name a\<rparr>"
    using modifyItemName_ok [OF it(3)] by blast
  obtain it2 where it2: "item_modifyItemComment it1 (Some (it_comment a)) = (NoError, it2)" "item_wf it2"
      "item_abs it2 = item_abs it1\<lparr>it_comment := it_comment a\<rparr>"
    using item_modifyItemComment_ok [OF it1(2)] by blast
  have "w @ item_out a @ r = w @ concat (comment_chunks (TAB # ''##'') (it_comment a)) @ ?r" by (simp add: item_out_def)
  then have "parse_item cs n (w @ item_out a @ r) = Some (Inr (it2, w2 @ r))"
    using w1(1) name [OF w1(2)] eq it(1) it1(1) it2(1) by (simp add: parse_item_def)
  moreover have "item_abs it2 = a" using it2(3) it1(3) it(4) st(1) by simp
  ultimately show ?thesis using it(2) it2(2) by blast
qed

lemma item_out_next: "storable_item cs a \<Longrightarrow> list_all is_blank w \<Longrightarrow>
    (case fst (yylex (w @ item_out a @ r)) of STRING _ \<Rightarrow> True | ITEMCOMMENT _ \<Rightarrow> True | _ \<Rightarrow> False)"
proof -
  assume a: "storable_item cs a" "list_all is_blank w"
  then have st: "storable_name (it_name a)" "storable_comment (it_comment a)" by (auto simp: storable_item_def)
  show ?thesis
  proof (cases "it_comment a = []")
    case True
    then show ?thesis
      using next_of_name [OF st(1), of "'' = '' @ values_out (it_values a) @ r" "w @ [TAB]"] a(2)
      by (simp add: item_out_def comment_chunks_def)
  next
    case False
    obtain l ls where l: "comment_lines (it_comment a) = l # ls" using comment_lines_join by blast
    then have "comment_line l" using storable_lines [OF st(2)] by simp
    then show ?thesis
      using False l a(2) scan_blanks [of "w @ [TAB]"] scan_itemComment [of l]
      by (simp add: item_out_def comment_chunks_concat)
  qed
qed

lemma parse_items_written:
  assumes "list_all (storable_item cs) as" "list_all is_blank w" "section_wf sec" "1 \<le> n"
    "\<not> (case fst (yylex r) of STRING _ \<Rightarrow> True | ITEMCOMMENT _ \<Rightarrow> True | _ \<Rightarrow> False)"
  shows "\<exists>sec' w'. parse_items cs n sec (w @ concat (map (\<lambda>a. item_out a @ [NEWLINE]) as) @ r) = Some (Inr (sec', w' @ r)) \<and>
    list_all is_blank w' \<and> section_wf sec' \<and> section_abs sec' = section_abs sec\<lparr>se_items := se_items (section_abs sec) @ as\<rparr>"
  using assms(1-3)
proof (induction as arbitrary: w sec)
  case Nil
  have "yylex (w @ r) = yylex r" by (rule scan_blanks [OF Nil.prems(2)])
  then have "parse_items cs n sec (w @ r) = Some (Inr (sec, w @ r))" using assms(5) by (subst parse_items.simps) simp
  then show ?case using Nil.prems by (intro exI [of _ sec] exI [of _ w]) simp
next
  case (Cons a as)
  let ?r = "NEWLINE # concat (map (\<lambda>a. item_out a @ [NEWLINE]) as) @ r"
  have a: "storable_item cs a" using Cons.prems by simp
  obtain it w1 where it: "parse_item cs n (w @ item_out a @ ?r) = Some (Inr (it, w1 @ ?r))" "list_all is_blank w1" "item_wf it"
      "item_abs it = a"
    using parse_item_written [OF a Cons.prems(2) assms(4)] by blast
  obtain sec1 where sec1: "section_appendCfgItem sec (Some it) n = Some (NoError, sec1)" "section_wf sec1"
      "section_abs sec1 = section_abs sec\<lparr>se_items := se_items (section_abs sec) @ [a]\<rparr>"
    using section_appendCfgItem_ok [OF Cons.prems(3) it(3) assms(4)] it(4) by auto
  obtain b where "ConfigurationItem_finish it = Some (NoError, b)" using ConfigurationItem_finish_ok [OF it(3)] by blast
  then have "parse_items cs n sec (w @ item_out a @ ?r) = parse_items cs n sec1 ((w1 @ [NEWLINE]) @ concat (map (\<lambda>a. item_out a @ [NEWLINE]) as) @ r)"
    using item_out_next [OF a Cons.prems(2), of ?r] it(1) sec1(1) by (subst parse_items.simps) simp
  then show ?case
    using Cons.IH [of "w1 @ [NEWLINE]" sec1] Cons.prems(1) it(2) sec1(2,3) by simp
qed

text \<open>What comes behind a section: another one, or the end.\<close>

definition section_follows_text :: "string \<Rightarrow> bool" where
  "section_follows_text r \<longleftrightarrow> (case fst (yylex r) of TOKEN_EOF \<Rightarrow> True | SECTION_BEGIN \<Rightarrow> True | SECTIONCOMMENT _ \<Rightarrow> True | _ \<Rightarrow> False)"

lemma parse_date_none:
  "fst (yylex s) \<noteq> SECTION_DATE_BEGIN \<Longrightarrow> parse_date s = Inr ([], s)"
  by (auto simp: parse_date_def split: prod.splits cfg_token.splits)

lemma parse_section_written:
  assumes "storable_section cs s" "list_all is_blank w" "section_follows_text r" "1 \<le> k" "1 \<le> n"
  shows "\<exists>sec w'. parse_section cs k n (w @ section_out s @ r) = Some (Inr (sec, w' @ r)) \<and> list_all is_blank w' \<and>
    section_wf sec \<and> section_abs sec = s"
proof -
  have st: "se_case s = cs" "storable_name (se_name s)" "storable_comment (se_comment s)" "se_date s = None"
      "list_all (storable_item cs) (se_items s)"
    using assms(1) by (auto simp: storable_section_def)
  let ?its = "concat (map (\<lambda>a. item_out a @ [NEWLINE]) (se_items s)) @ r"
  let ?r = "CHR ''['' # name_out (se_name s) @ CHR '']'' # NEWLINE # ?its"
  have begin_: "yylex (w' @ ?r) = (SECTION_BEGIN, name_out (se_name s) @ CHR '']'' # NEWLINE # ?its)" if "list_all is_blank w'" for w'
    using scan_blanks [OF that] scan_char [of "CHR ''[''"] by (simp add: char_token_def)
  have name: "yylex (name_out (se_name s) @ CHR '']'' # NEWLINE # ?its) = (STRING (se_name s), CHR '']'' # NEWLINE # ?its)"
    by (rule scan_name [OF st(2)]) simp
  have end_: "yylex (CHR '']'' # NEWLINE # ?its) = (SECTION_END, NEWLINE # ?its)"
    using scan_char [of "CHR '']''"] by (simp add: char_token_def)
  obtain w1 where w1: "sectionComments [] (w @ concat (comment_chunks ''#'' (se_comment s)) @ ?r) = (se_comment s, w1 @ ?r)"
      "list_all is_blank w1"
    using sectionComments_written [OF st(3) assms(2), of ?r] begin_ [of "[]"] by auto
  have nodate: "fst (yylex (NEWLINE # ?its)) \<noteq> SECTION_DATE_BEGIN"
  proof (cases "se_items s")
    case Nil
    then show ?thesis
      using assms(3) scan_blank [of NEWLINE r] by (auto simp: section_follows_text_def split: cfg_token.splits)
  next
    case (Cons a as)
    then show ?thesis
      using item_out_next [of cs a "[NEWLINE]" "NEWLINE # concat (map (\<lambda>a. item_out a @ [NEWLINE]) as) @ r"] st(5)
      by (auto split: cfg_token.splits)
  qed
  obtain sec0 where sec0: "ConfigurationSection_init ConfigurationSection_ctor (Some []) (Some []) None cs k = (NoError, sec0)" "section_wf sec0"
      "section_abs sec0 = \<lparr>se_name = [], se_comment = [], se_date = None, se_case = cs, se_items = []\<rparr>"
    using ConfigurationSection_init_ok [OF section_ctor_built assms(4), of None "[]" "[]" cs] by auto
  have nor: "\<not> (case fst (yylex r) of STRING _ \<Rightarrow> True | ITEMCOMMENT _ \<Rightarrow> True | _ \<Rightarrow> False)"
    using assms(3) by (auto simp: section_follows_text_def split: cfg_token.splits)
  obtain sec1 w2 where sec1: "parse_items cs n sec0 ([NEWLINE] @ ?its) = Some (Inr (sec1, w2 @ r))" "list_all is_blank w2" "section_wf sec1"
      "section_abs sec1 = section_abs sec0\<lparr>se_items := se_items (section_abs sec0) @ se_items s\<rparr>"
    using parse_items_written [OF st(5) _ sec0(2) assms(5) nor, of "[NEWLINE]"] by auto
  obtain sec2 where sec2: "modifySectionName sec1 (Some (se_name s)) = (NoError, sec2)" "section_wf sec2"
      "section_abs sec2 = section_abs sec1\<lparr>se_name := se_name s\<rparr>"
    using modifySectionName_ok [OF sec1(3)] by blast
  obtain sec3 where sec3: "section_modifySectionComment sec2 (Some (se_comment s)) = (NoError, sec3)" "section_wf sec3"
      "section_abs sec3 = section_abs sec2\<lparr>se_comment := se_comment s\<rparr>"
    using section_modifySectionComment_ok [OF sec2(2)] by blast
  obtain sec4 where sec4: "section_modifySectionDate sec3 None = (NoError, sec4)" "section_wf sec4"
      "section_abs sec4 = section_abs sec3\<lparr>se_date := None\<rparr>"
    using section_modifySectionDate_ok [OF sec3(2), of None] by auto
  have "w @ section_out s @ r = w @ concat (comment_chunks ''#'' (se_comment s)) @ ?r"
    using st(4) by (simp add: section_out_def date_out_def)
  then have "parse_section cs k n (w @ section_out s @ r) = Some (Inr (sec4, w2 @ r))"
    using w1(1) begin_ [OF w1(2)] name end_ parse_date_none [OF nodate] sec0(1) sec1(1) sec2(1) sec3(1) sec4(1)
    by (simp add: parse_section_def parse_body_def)
  moreover have "section_abs sec4 = s"
    using sec4(3) sec3(3) sec2(3) sec1(4) sec0(3) st(1,4) by simp
  ultimately show ?thesis using sec1(2) sec4(2) by blast
qed

lemma section_out_start:
  assumes "storable_comment (se_comment s)" "list_all is_blank w"
  shows "section_follows_text (w @ section_out s @ r) \<and> fst (yylex (w @ section_out s @ r)) \<noteq> TOKEN_EOF"
proof (cases "se_comment s = []")
  case True
  then have "fst (yylex (w @ section_out s @ r)) = SECTION_BEGIN"
    using scan_blanks [OF assms(2)] scan_char [of "CHR ''[''"] by (simp add: section_out_def comment_chunks_def char_token_def)
  then show ?thesis by (simp add: section_follows_text_def)
next
  case False
  obtain l ls where l: "comment_lines (se_comment s) = l # ls" using comment_lines_join by blast
  then have "comment_line l" using storable_lines [OF assms(1)] by simp
  then have "fst (yylex (w @ section_out s @ r)) = SECTIONCOMMENT l"
    using False l scan_blanks [OF assms(2)] scan_sectionComment [of l] by (simp add: section_out_def comment_chunks_concat)
  then show ?thesis by (simp add: section_follows_text_def)
qed

lemma section_out_next:
  "storable_section cs s \<Longrightarrow> list_all is_blank w \<Longrightarrow>
     section_follows_text (w @ section_out s @ r) \<and> fst (yylex (w @ section_out s @ r)) \<noteq> TOKEN_EOF"
  using section_out_start by (simp add: storable_section_def)

section \<open>Configurations\<close>

lemma parse_sections_written:
  assumes "list_all (storable_section cs) ss" "list_all is_blank w" "config_wf cfg" "1 \<le> k" "1 \<le> n"
  shows "\<exists>cfg'. parse_sections cs k n cfg (w @ concat (map section_out ss)) = Some (Inr (cfg', [])) \<and> config_wf cfg' \<and>
    config_abs cfg' = config_abs cfg\<lparr>cf_sections := cf_sections (config_abs cfg) @ ss\<rparr>"
  using assms(1-3)
proof (induction ss arbitrary: w cfg)
  case Nil
  have "fst (yylex (w @ [])) = TOKEN_EOF"
    unfolding scan_blanks [OF Nil.prems(2)] by (simp add: yylex.simps)
  then show ?case using Nil.prems by (subst parse_sections.simps) simp
next
  case (Cons s ss)
  let ?r = "concat (map section_out ss)"
  have s: "storable_section cs s" using Cons.prems by simp
  have r: "section_follows_text ?r"
  proof (cases ss)
    case Nil
    then show ?thesis by (simp add: section_follows_text_def yylex.simps)
  next
    case (Cons s' ss')
    then show ?thesis using section_out_next [of cs s' "[]" "concat (map section_out ss')"] Cons.prems by simp
  qed
  obtain sec w1 where sec: "parse_section cs k n (w @ section_out s @ ?r) = Some (Inr (sec, w1 @ ?r))" "list_all is_blank w1" "section_wf sec"
      "section_abs sec = s"
    using parse_section_written [OF s Cons.prems(2) r assms(4,5)] by blast
  obtain cfg1 where cfg1: "appendCfgSection cfg (Some sec) k n = Some (NoError, cfg1)" "config_wf cfg1"
      "config_abs cfg1 = config_abs cfg\<lparr>cf_sections := cf_sections (config_abs cfg) @ [s]\<rparr>"
    using appendCfgSection_ok [OF Cons.prems(3) sec(3) assms(4,5)] sec(4) by auto
  obtain b where "ConfigurationSection_finish sec = Some (NoError, b)" using ConfigurationSection_finish_ok [OF sec(3)] by blast
  then have "parse_sections cs k n cfg (w @ section_out s @ ?r) = parse_sections cs k n cfg1 (w1 @ ?r)"
    using section_out_next [OF s Cons.prems(2), of ?r] sec(1) cfg1(1) by (subst parse_sections.simps) simp
  then show ?case using Cons.IH [OF _ sec(2) cfg1(2)] Cons.prems(1) cfg1(3) by simp
qed

lemma yyparse_written:
  assumes "storable_config a" "1 \<le> m" "1 \<le> k" "1 \<le> n"
  shows "\<exists>cfg. yyparse (cf_case a) m k n (config_out a) = Some (Inr (cfg, [])) \<and> config_wf cfg \<and>
    config_abs cfg = a\<lparr>cf_name := []\<rparr>"
proof -
  obtain cfg0 where cfg0: "Config_init Config_ctor (Some []) (cf_case a) m = (NoError, cfg0)" "config_wf cfg0"
      "config_abs cfg0 = \<lparr>cf_name = [], cf_case = cf_case a, cf_sections = []\<rparr>"
    using Config_init_ok [OF config_ctor_built assms(2), of "[]" "cf_case a"] by (auto simp: CFG_MAXCONFIGNAMELENGTH_def)
  show ?thesis
    using parse_sections_written [of "cf_case a" "cf_sections a" "[]" cfg0 k n] assms cfg0
    by (auto simp: yyparse_def storable_config_def config_out_def)
qed

end
