(* ===== verification/ConfigurationFileProps.thy ===== *)
theory ConfigurationFileProps
  imports ConfigurationFile CfgRoundtrip ConfigProps
begin

text \<open>
  Properties of configurations in files: what \<open>save\<close> leaves in the file, what \<open>init\<close> makes of it, and where the two
  do not fit together.
\<close>

definition file_wf :: "configuration_file \<Rightarrow> bool" where
  "file_wf f \<longleftrightarrow> stCfgFileStatus f = CFGFILE_INITIALIZED \<and> config_wf (file_config f) \<and>
     (case pPathName f of None \<Rightarrow> False | Some p \<Rightarrow> lock_name_fits p)"

definition file_built :: "configuration_file \<Rightarrow> bool" where
  "file_built f \<longleftrightarrow> stCfgFileStatus f = CFGFILE_BUILDED \<and> config_built (file_config f)"

text \<open>Calls of \<open>FileIO\<close> without errors.\<close>

definition good_read :: "string \<Rightarrow> file_calls" where
  "good_read t = \<lparr>lock_result = NoError, open_result = NoError, seek_end_result = NoError, seek_set_result = NoError,
     read_result = NoError, read_text = t, close_result = NoError, unlock_result = NoError\<rparr>"

definition good_save :: save_calls where
  "good_save = \<lparr>save_lock_result = NoError, save_open_result = NoError, write_fails = (\<lambda>_. False), save_close_result = NoError,
     save_unlock_result = NoError\<rparr>"

section \<open>Reading a text that parses, and one that does not\<close>

lemma adopt_config_ok:
  assumes "config_built (file_config f)" "config_wf cfg" "length nm < CFG_MAXCONFIGNAMELENGTH" "1 \<le> m" "1 \<le> k" "1 \<le> n"
  shows "\<exists>c. adopt_config f cfg (Some nm) m k n = Some (NoError, f\<lparr>file_config := c, stCfgFileStatus := CFGFILE_INITIALIZED\<rparr>) \<and>
    config_wf c \<and> config_abs c = config_abs cfg\<lparr>cf_name := nm\<rparr>"
proof -
  obtain c where c: "Config_copy (file_config f) cfg m k n = Some (NoError, c)" "config_wf c" "config_abs c = config_abs cfg"
    using Config_copy_ok [OF assms(1,2,4-6)] by blast
  obtain b where b: "Config_finish cfg = Some (NoError, b)" using Config_finish_ok [OF assms(2)] by blast
  obtain c1 where "modifyConfigName c (Some nm) = Some (NoError, c1)" "config_wf c1" "config_abs c1 = config_abs c\<lparr>cf_name := nm\<rparr>"
    using modifyConfigName_ok [OF c(2), of nm] assms(3) by auto
  then show ?thesis using c b by (intro exI [of _ c1]) (simp add: adopt_config_def)
qed

lemma init_parsed:
  assumes "file_built f" "yyparse cs m k n (rest @ t) = Some (Inr (cfg, rest'))" "config_wf cfg" "length nm < CFG_MAXCONFIGNAMELENGTH"
    "1 \<le> m" "1 \<le> k" "1 \<le> n" "lock \<longrightarrow> lock_name_fits p"
  shows "\<exists>f'. ConfigurationFile_init f (Some p) (Some nm) cs m k n lock (good_read t) rest = Some (NoError, f', rest') \<and>
    stCfgFileStatus f' = CFGFILE_INITIALIZED \<and> pPathName f' = Some p \<and> config_wf (file_config f') \<and>
    config_abs (file_config f') = config_abs cfg\<lparr>cf_name := nm\<rparr>"
proof -
  obtain c where "adopt_config (f\<lparr>pPathName := Some p\<rparr>) cfg (Some nm) m k n =
      Some (NoError, f\<lparr>pPathName := Some p, file_config := c, stCfgFileStatus := CFGFILE_INITIALIZED\<rparr>)"
      "config_wf c" "config_abs c = config_abs cfg\<lparr>cf_name := nm\<rparr>"
    using adopt_config_ok [of "f\<lparr>pPathName := Some p\<rparr>" cfg nm m k n] assms(1,3-7) by (auto simp: file_built_def)
  then show ?thesis
    using assms(1,2,8) by (simp add: ConfigurationFile_init_def file_built_def good_read_def read_file_def)
qed

lemma init_failed:
  assumes "file_built f" "yyparse cs m k n (rest @ t) = Some (Inl rest')" "lock \<longrightarrow> lock_name_fits p"
  shows "ConfigurationFile_init f (Some p) nm cs m k n lock (good_read t) rest =
    Some (ConfigurationFileErrors CFGFILE_YYPARSER_FAILED, f\<lparr>pPathName := None\<rparr>, rest')"
  using assms by (simp add: ConfigurationFile_init_def file_built_def good_read_def read_file_def)

section \<open>What save writes\<close>

lemma save_ok:
  assumes "file_wf f" "save_lock_result w = NoError" "save_open_result w = NoError"
  shows "\<exists>e t q. ConfigurationFile_save f p w = Some (e, Some (case p of None \<Rightarrow> the (pPathName f) | Some p \<Rightarrow> p, t)) \<and>
    config_out (config_abs (file_config f)) = t @ q \<and> (e = NoError \<longrightarrow> q = []) \<and>
    ((\<forall>k. \<not> write_fails w k) \<and> save_close_result w = NoError \<and> save_unlock_result w = NoError \<longrightarrow> e = NoError)"
proof -
  obtain own where own: "pPathName f = Some own" "lock_name_fits own" using assms(1) by (auto simp: file_wf_def split: option.splits)
  obtain e out where out: "config_write (write_fails w) (file_config f) \<lparr>out_text = [], out_calls = 0\<rparr> = Some (e, out)"
      "wrote \<lparr>out_text = [], out_calls = 0\<rparr> (config_out (config_abs (file_config f))) e out" "(\<forall>k. \<not> write_fails w k) \<longrightarrow> e = NoError"
    using config_write_ok [of "file_config f" "write_fails w"] assms(1) unfolding file_wf_def by blast
  then obtain q where "config_out (config_abs (file_config f)) = out_text out @ q" "e = NoError \<longrightarrow> q = []"
    by (auto simp: wrote_def)
  then show ?thesis
    using assms own out(1,3) by (cases p) (auto simp: ConfigurationFile_save_def file_wf_def)
qed

text \<open>C1: a save writes a prefix of the text of the configuration, and the whole text when it reports no error. The old
  contents of the file are gone in any case, since the file is emptied before the first write.\<close>

theorem save_writes_prefix:
  assumes "file_wf f" "save_lock_result w = NoError" "save_open_result w = NoError"
  shows "\<exists>e t q. ConfigurationFile_save f p w = Some (e, Some (case p of None \<Rightarrow> the (pPathName f) | Some p \<Rightarrow> p, t)) \<and>
    config_out (config_abs (file_config f)) = t @ q \<and> (e = NoError \<longrightarrow> q = []) \<and>
    ((\<forall>k. \<not> write_fails w k) \<and> save_close_result w = NoError \<and> save_unlock_result w = NoError \<longrightarrow> e = NoError)"
  by (rule save_ok [OF assms])

definition sample_file :: configuration_file where
  "sample_file = \<lparr>file_config = sample_filled, stCfgFileStatus = CFGFILE_INITIALIZED, pPathName = Some ''a.cfg''\<rparr>"

lemma sample_file_wf: "file_wf sample_file"
  using sample_filled_eq by (simp add: file_wf_def sample_file_def lock_name_fits_def CFGFILE_MAXPATHNAMELENGTH_def)

theorem save_writes_prefix_witness:
  "\<exists>e t q. ConfigurationFile_save sample_file None (good_save\<lparr>write_fails := (\<lambda>k. k = 3)\<rparr>) =
      Some (e, Some (''a.cfg'', t)) \<and> config_out (config_abs sample_filled) = t @ q \<and> (e = NoError \<longrightarrow> q = [])"
  using save_writes_prefix [OF sample_file_wf, of "good_save\<lparr>write_fails := (\<lambda>k. k = 3)\<rparr>" None]
  by (auto simp: good_save_def sample_file_def)

section \<open>The round trip\<close>

text \<open>C2: a configuration whose texts the format can hold is restored by \<open>save\<close> and \<open>init\<close>: sections, comments, items and
  all their values in order, texts in quotes included.\<close>

theorem save_then_init_restores:
  assumes "file_wf f" "storable_config (config_abs (file_config f))" "file_built g" "length nm < CFG_MAXCONFIGNAMELENGTH"
    "1 \<le> m" "1 \<le> k" "1 \<le> n" "lock_name_fits p"
  shows "\<exists>t g'. ConfigurationFile_save f (Some p) good_save = Some (NoError, Some (p, t)) \<and>
    ConfigurationFile_init g (Some p) (Some nm) (cf_case (config_abs (file_config f))) m k n lock (good_read t) [] = Some (NoError, g', []) \<and>
    file_wf g' \<and> config_abs (file_config g') = config_abs (file_config f)\<lparr>cf_name := nm\<rparr>"
proof -
  let ?a = "config_abs (file_config f)"
  have save: "ConfigurationFile_save f (Some p) good_save = Some (NoError, Some (p, config_out ?a))"
    using save_ok [OF assms(1), of good_save "Some p"] by (auto simp: good_save_def)
  obtain cfg where cfg: "yyparse (cf_case ?a) m k n (config_out ?a) = Some (Inr (cfg, []))" "config_wf cfg" "config_abs cfg = ?a\<lparr>cf_name := []\<rparr>"
    using yyparse_written [OF assms(2,5-7)] by blast
  obtain g' where "ConfigurationFile_init g (Some p) (Some nm) (cf_case ?a) m k n lock (good_read (config_out ?a)) [] = Some (NoError, g', [])"
      "stCfgFileStatus g' = CFGFILE_INITIALIZED" "pPathName g' = Some p" "config_wf (file_config g')"
      "config_abs (file_config g') = config_abs cfg\<lparr>cf_name := nm\<rparr>"
    using init_parsed [OF assms(3) _ cfg(2) assms(4-7), of "cf_case ?a" "[]" "config_out ?a" "[]" lock p] cfg(1) assms(8) by auto
  then show ?thesis using save cfg(3) assms(8) by (auto simp: file_wf_def)
qed

lemma ctor_file_built: "file_built ConfigurationFile_ctor"
  by (simp add: file_built_def ConfigurationFile_ctor_def)

theorem save_then_init_restores_witness:
  "\<exists>t g'. ConfigurationFile_save sample_file (Some ''b.cfg'') good_save = Some (NoError, Some (''b.cfg'', t)) \<and>
    ConfigurationFile_init ConfigurationFile_ctor (Some ''b.cfg'') (Some ''B'') False 1 1 1 True (good_read t) [] = Some (NoError, g', []) \<and>
    file_wf g' \<and> config_abs (file_config g') = config_abs sample_filled\<lparr>cf_name := ''B''\<rparr>"
proof -
  have c: "cf_case (config_abs (file_config sample_file)) = False" "file_config sample_file = sample_filled"
    using sample_filled_eq by (simp_all add: sample_file_def append_in_section_def)
  have st: "storable_config (config_abs (file_config sample_file))"
    unfolding c(2) conjunct2 [OF sample_filled_eq] by code_simp
  show ?thesis
    using save_then_init_restores [OF sample_file_wf st ctor_file_built, of "''B''" 1 1 1 "''b.cfg''" True] c
    by (simp add: CFG_MAXCONFIGNAMELENGTH_def lock_name_fits_def CFGFILE_MAXPATHNAMELENGTH_def)
qed

section \<open>What is not restored\<close>

text \<open>The date behind the name of a section is scanned as a string: the parser takes it for the name of an item, and finds no
  equals sign.\<close>

lemma date_in_parentheses:
  assumes "looks_like_date d"
  shows "plain (''('' @ d @ '')'')"
proof -
  have "\<forall>c \<in> set (take 10 d). is_digit c \<or> c = CHR ''/''" "length d = 10"
    using assms match_date_le [of d] by (auto simp: looks_like_date_def)
  then have "\<forall>c \<in> set d. is_digit c \<or> c = CHR ''/''" "length (''('' @ d @ '')'') = 12" by simp_all
  moreover have "\<not> ends_string c \<and> c \<noteq> NUL \<and> c \<noteq> QUOTE" if "is_digit c \<or> c = CHR ''/'' \<or> c = CHR ''('' \<or> c = CHR '')''" for c
    using that by (auto simp: is_digit_def ends_string_def is_special_def)
  ultimately show ?thesis by (auto simp: plain_def looks_like_date_def)
qed

definition stops_item :: "cfg_token \<Rightarrow> bool" where
  "stops_item t \<longleftrightarrow> (case t of CHARACTER c \<Rightarrow> c \<noteq> CHR ''='' | _ \<Rightarrow> True)"

lemma parse_dated_section:
  assumes "storable_section cs (s\<lparr>se_date := None\<rparr>)" "se_date s = Some d" "looks_like_date d" "list_all is_blank w"
    "section_follows_text r" "1 \<le> k"
  shows "\<exists>rest. parse_section cs k n (w @ section_out s @ r) = Some (Inl rest)"
proof -
  have st: "storable_name (se_name s)" "storable_comment (se_comment s)" "list_all (storable_item cs) (se_items s)"
    using assms(1) by (auto simp: storable_section_def)
  let ?its = "concat (map (\<lambda>a. item_out a @ [NEWLINE]) (se_items s)) @ r"
  let ?d = "'' '' @ (''('' @ d @ '')'') @ NEWLINE # ?its"
  let ?r = "CHR ''['' # name_out (se_name s) @ CHR '']'' # ?d"
  have begin_: "yylex (w' @ ?r) = (SECTION_BEGIN, name_out (se_name s) @ CHR '']'' # ?d)" if "list_all is_blank w'" for w'
    using scan_blanks [OF that] scan_char [of "CHR ''[''"] by (simp add: char_token_def)
  have name: "yylex (name_out (se_name s) @ CHR '']'' # ?d) = (STRING (se_name s), CHR '']'' # ?d)"
    by (rule scan_name [OF st(1)]) simp
  have end_: "yylex (CHR '']'' # ?d) = (SECTION_END, ?d)"
    using scan_char [of "CHR '']''"] by (simp add: char_token_def)
  obtain w1 where w1: "sectionComments [] (w @ concat (comment_chunks ''#'' (se_comment s)) @ ?r) = (se_comment s, w1 @ ?r)"
      "list_all is_blank w1"
    using sectionComments_written [OF st(2) assms(4), of ?r] begin_ [of "[]"] by auto
  have date: "yylex ?d = (STRING (''('' @ d @ '')''), NEWLINE # ?its)"
    using scan_blanks [of "'' ''"] scan_plain [OF date_in_parentheses [OF assms(3)], of "NEWLINE # ?its"] by simp
  have after: "stops_item (fst (yylex (NEWLINE # ?its)))"
  proof (cases "se_items s")
    case Nil
    then show ?thesis
      using assms(5) scan_blank [of NEWLINE r] by (auto simp: section_follows_text_def stops_item_def split: cfg_token.splits)
  next
    case (Cons a as)
    then show ?thesis
      using item_out_next [of cs a "[NEWLINE]" "NEWLINE # concat (map (\<lambda>a. item_out a @ [NEWLINE]) as) @ r"] st(3)
      by (auto simp: stops_item_def split: cfg_token.splits)
  qed
  have "itemComments [] ?d = ([], ?d)" using date by (subst itemComments.simps) simp
  then have "\<exists>rest. parse_item cs n ?d = Some (Inl rest)"
    using date after by (auto simp: parse_item_def stop_at_token_def stops_item_def split: prod.splits cfg_token.splits)
  then have items: "\<exists>rest. parse_items cs n sec ?d = Some (Inl rest)" for sec
    using date by (subst parse_items.simps) auto
  obtain sec0 where "ConfigurationSection_init ConfigurationSection_ctor (Some []) (Some []) None cs k = (NoError, sec0)"
    using ConfigurationSection_init_ok [OF section_ctor_built assms(6), of None "[]" "[]" cs] by auto
  then have body: "\<exists>rest. parse_body cs k n cm nm [] ?d = Some (Inl rest)" for cm nm
    using items [of sec0] by (auto simp: parse_body_def)
  have "parse_date ?d = Inr ([], ?d)" using date by (intro parse_date_none) simp
  moreover have "w @ section_out s @ r = w @ concat (comment_chunks ''#'' (se_comment s)) @ ?r"
    using assms(2) by (simp add: section_out_def date_out_def)
  ultimately show ?thesis
    using w1(1) begin_ [OF w1(2)] name end_ body by (simp add: parse_section_def)
qed

lemma parse_sections_dated:
  assumes "list_all (storable_section cs) ss" "storable_section cs (s\<lparr>se_date := None\<rparr>)" "se_date s = Some d" "looks_like_date d"
    "list_all is_blank w" "section_follows_text r" "config_wf cfg" "1 \<le> k" "1 \<le> n"
  shows "\<exists>rest. parse_sections cs k n cfg (w @ concat (map section_out ss) @ section_out s @ r) = Some (Inl rest)"
  using assms(1,5,7)
proof (induction ss arbitrary: w cfg)
  case Nil
  have "fst (yylex (w @ section_out s @ r)) \<noteq> TOKEN_EOF"
    using section_out_start [OF _ Nil.prems(2)] assms(2) by (simp add: storable_section_def)
  then show ?case
    using parse_dated_section [OF assms(2-4) Nil.prems(2) assms(6,8), of n] by (subst parse_sections.simps) auto
next
  case (Cons s1 ss)
  let ?r = "concat (map section_out ss) @ section_out s @ r"
  have s1: "storable_section cs s1" using Cons.prems by simp
  have r: "section_follows_text ?r"
  proof (cases ss)
    case Nil
    then show ?thesis using section_out_start [of s "[]" r] assms(2) by (simp add: storable_section_def)
  next
    case (Cons s2 ss2)
    then show ?thesis
      using section_out_next [of cs s2 "[]" "concat (map section_out ss2) @ section_out s @ r"] Cons.prems by simp
  qed
  obtain sec w1 where sec: "parse_section cs k n (w @ section_out s1 @ ?r) = Some (Inr (sec, w1 @ ?r))" "list_all is_blank w1" "section_wf sec"
    using parse_section_written [OF s1 Cons.prems(2) r assms(8,9)] by blast
  obtain cfg1 where cfg1: "appendCfgSection cfg (Some sec) k n = Some (NoError, cfg1)" "config_wf cfg1"
    using appendCfgSection_ok [OF Cons.prems(3) sec(3) assms(8,9)] by auto
  obtain b where "ConfigurationSection_finish sec = Some (NoError, b)" using ConfigurationSection_finish_ok [OF sec(3)] by blast
  then have "parse_sections cs k n cfg (w @ section_out s1 @ ?r) = parse_sections cs k n cfg1 (w1 @ ?r)"
    using section_out_next [OF s1 Cons.prems(2), of ?r] sec(1) cfg1(1) by (subst parse_sections.simps) simp
  then show ?case using Cons.IH [OF _ sec(2) cfg1(2)] Cons.prems(1) by simp
qed

text \<open>C3: a saved configuration with a dated section cannot be loaded again: the parse fails at the first one.\<close>

theorem dated_section_is_lost:
  assumes "file_wf f" "cf_sections (config_abs (file_config f)) = ss @ s # rs" "cs = cf_case (config_abs (file_config f))"
    "list_all (storable_section cs) ss" "storable_section cs (s\<lparr>se_date := None\<rparr>)" "se_date s = Some d" "looks_like_date d"
    "list_all (storable_section cs) rs" "file_built g" "1 \<le> m" "1 \<le> k" "1 \<le> n" "lock_name_fits p"
  shows "\<exists>t g' rest. ConfigurationFile_save f (Some p) good_save = Some (NoError, Some (p, t)) \<and>
    ConfigurationFile_init g (Some p) nm cs m k n lock (good_read t) [] =
      Some (ConfigurationFileErrors CFGFILE_YYPARSER_FAILED, g', rest)"
proof -
  let ?a = "config_abs (file_config f)"
  let ?r = "concat (map section_out rs)"
  have save: "ConfigurationFile_save f (Some p) good_save = Some (NoError, Some (p, config_out ?a))"
    using save_ok [OF assms(1), of good_save "Some p"] by (auto simp: good_save_def)
  have r: "section_follows_text ?r"
  proof (cases rs)
    case Nil
    then show ?thesis by (simp add: section_follows_text_def yylex.simps)
  next
    case (Cons s' rs')
    then show ?thesis using section_out_next [of cs s' "[]" "concat (map section_out rs')"] assms(8) by simp
  qed
  obtain cfg0 where cfg0: "Config_init Config_ctor (Some []) cs m = (NoError, cfg0)" "config_wf cfg0"
    using Config_init_ok [OF config_ctor_built assms(10), of "[]" cs] by (auto simp: CFG_MAXCONFIGNAMELENGTH_def)
  then obtain rest where "yyparse cs m k n (config_out ?a) = Some (Inl rest)"
    using parse_sections_dated [OF assms(4-7) _ r cfg0(2) assms(11,12), of "[]"] assms(2) by (auto simp: yyparse_def config_out_def)
  then show ?thesis using save init_failed [OF assms(9), of cs m k n "[]" "config_out ?a" rest lock p nm] assms(13) by auto
qed

definition dated_section :: section_text where
  "dated_section = \<lparr>se_name = ''N'', se_comment = [], se_date = Some ''2001/10/20'', se_case = True, se_items = []\<rparr>"

definition dated_config :: config where
  "dated_config = (case ConfigurationSection_init ConfigurationSection_ctor (Some ''N'') (Some []) (Some ''2001/10/20'') True 1 of
     (_, s) \<Rightarrow> (case Config_init Config_ctor (Some ''c'') True 1 of
       (_, c) \<Rightarrow> (case appendCfgSection c (Some s) 1 1 of Some (_, c1) \<Rightarrow> c1 | None \<Rightarrow> c)))"

definition dated_file :: configuration_file where
  "dated_file = \<lparr>file_config = dated_config, stCfgFileStatus = CFGFILE_INITIALIZED, pPathName = Some ''d''\<rparr>"

lemma dated_file_wf: "file_wf dated_file"
  by code_simp

lemma dated_file_abs: "config_abs (file_config dated_file) = \<lparr>cf_name = ''c'', cf_case = True, cf_sections = [dated_section]\<rparr>"
  by code_simp

theorem dated_section_is_lost_witness:
  "\<exists>t g' rest. ConfigurationFile_save dated_file (Some ''d'') good_save = Some (NoError, Some (''d'', t)) \<and>
    ConfigurationFile_init ConfigurationFile_ctor (Some ''d'') (Some ''c'') True 1 1 1 False (good_read t) [] =
      Some (ConfigurationFileErrors CFGFILE_YYPARSER_FAILED, g', rest)"
proof (rule dated_section_is_lost [OF dated_file_wf])
  show "cf_sections (config_abs (file_config dated_file)) = [] @ dated_section # []" "True = cf_case (config_abs (file_config dated_file))"
    by (simp_all add: dated_file_abs)
  show "storable_section True (dated_section\<lparr>se_date := None\<rparr>)" "se_date dated_section = Some ''2001/10/20''"
    "looks_like_date ''2001/10/20''" "lock_name_fits ''d''"
    by code_simp+
qed (simp_all add: ctor_file_built)

text \<open>C4: what the scanner read of a file that does not parse is scanned before the next file: when an error at its first
  character hides the sections of one file, they show up in front of the sections of the next one. (The files are not longer than
  what the scanner reads at once, 8191 characters.)\<close>

theorem stale_text_is_parsed:
  assumes "storable_config a" "storable_config b" "cf_case b = cf_case a" "length (CHR ''='' # config_out a) \<le> 8191"
    "length (config_out b) \<le> 8191" "file_built f" "length nm < CFG_MAXCONFIGNAMELENGTH" "1 \<le> m" "1 \<le> k" "1 \<le> n"
  shows "\<exists>f1 rest f2. ConfigurationFile_init f (Some p) (Some nm) (cf_case a) m k n False (good_read (CHR ''='' # config_out a)) [] =
      Some (ConfigurationFileErrors CFGFILE_YYPARSER_FAILED, f1, rest) \<and>
    ConfigurationFile_init f1 (Some q) (Some nm) (cf_case a) m k n False (good_read (config_out b)) rest = Some (NoError, f2, []) \<and>
    cf_sections (config_abs (file_config f2)) = cf_sections a @ cf_sections b"
proof -
  obtain cfg0 where cfg0: "Config_init Config_ctor (Some []) (cf_case a) m = (NoError, cfg0)" "config_wf cfg0"
    using Config_init_ok [OF config_ctor_built assms(8), of "[]" "cf_case a"] by (auto simp: CFG_MAXCONFIGNAMELENGTH_def)
  have tok: "yylex (CHR ''='' # config_out a) = (CHARACTER CHR ''='', config_out a)"
    using scan_char [of "CHR ''=''"] by (simp add: char_token_def)
  have "sectionComments [] (CHR ''='' # config_out a) = ([], CHR ''='' # config_out a)"
    using tok by (subst sectionComments.simps) simp
  then have "parse_section (cf_case a) k n (CHR ''='' # config_out a) = Some (Inl (config_out a))"
    using tok by (simp add: parse_section_def stop_at_token_def)
  then have bad: "yyparse (cf_case a) m k n (CHR ''='' # config_out a) = Some (Inl (config_out a))"
    using cfg0 tok by (simp add: yyparse_def parse_sections.simps)
  let ?f1 = "f\<lparr>pPathName := None\<rparr>"
  let ?ab = "a\<lparr>cf_sections := cf_sections a @ cf_sections b\<rparr>"
  have "storable_config ?ab" using assms(1-3) by (simp add: storable_config_def)
  then obtain cfg where cfg: "yyparse (cf_case a) m k n (config_out a @ config_out b) = Some (Inr (cfg, []))" "config_wf cfg"
      "config_abs cfg = ?ab\<lparr>cf_name := []\<rparr>"
    using yyparse_written [of ?ab m k n] assms(8-10) by (auto simp: config_out_def)
  have f1: "file_built ?f1" using assms(6) by (simp add: file_built_def)
  show ?thesis
    using init_failed [OF assms(6), of "cf_case a" m k n "[]" _ _ False p "Some nm"] bad
      init_parsed [OF f1 cfg(1,2) assms(7-10), of False q] cfg(3)
    by fastforce
qed

definition sample_text :: "string \<Rightarrow> string list \<Rightarrow> config_text" where
  "sample_text nm vs = \<lparr>cf_name = [], cf_case = False, cf_sections = [\<lparr>se_name = nm, se_comment = [], se_date = None, se_case = False,
     se_items = [\<lparr>it_name = ''x'', it_comment = [], it_case = False, it_values = vs\<rparr>]\<rparr>]\<rparr>"

theorem stale_text_is_parsed_witness:
  "\<exists>f1 rest f2. ConfigurationFile_init ConfigurationFile_ctor (Some ''p'') (Some ''c'') False 1 1 1 False
        (good_read (CHR ''='' # config_out (sample_text ''A'' [''1'']))) [] = Some (ConfigurationFileErrors CFGFILE_YYPARSER_FAILED, f1, rest) \<and>
    ConfigurationFile_init f1 (Some ''q'') (Some ''c'') False 1 1 1 False (good_read (config_out (sample_text ''B'' [''2'']))) rest =
      Some (NoError, f2, []) \<and>
    map se_name (cf_sections (config_abs (file_config f2))) = [''A'', ''B'']"
proof -
  have st: "storable_config (sample_text ''A'' [''1''])" "storable_config (sample_text ''B'' [''2''])"
    "length (CHR ''='' # config_out (sample_text ''A'' [''1''])) \<le> 8191" "length (config_out (sample_text ''B'' [''2''])) \<le> 8191"
    by code_simp+
  show ?thesis
    using stale_text_is_parsed [OF st(1,2) _ st(3,4) ctor_file_built, of "''c''" 1 1 1 "''p''" "''q''"]
    by (fastforce simp: sample_text_def CFG_MAXCONFIGNAMELENGTH_def)
qed

text \<open>An item without values is written like an item with one empty value.\<close>

definition with_value :: "item_text \<Rightarrow> item_text" where
  "with_value a = (if it_values a = [] then a\<lparr>it_values := ['''']\<rparr> else a)"

definition with_values :: "config_text \<Rightarrow> config_text" where
  "with_values c = c\<lparr>cf_sections := map (\<lambda>s. s\<lparr>se_items := map with_value (se_items s)\<rparr>) (cf_sections c)\<rparr>"

lemma with_value_out: "item_out (with_value a) = item_out a"
  by (simp add: with_value_def item_out_def values_out_def single_chunks_def name_quoted_def)

lemma with_value_section_out: "section_out (s\<lparr>se_items := map with_value (se_items s)\<rparr>) = section_out s"
proof -
  have "map ((\<lambda>a. item_out a @ [NEWLINE]) \<circ> with_value) (se_items s) = map (\<lambda>a. item_out a @ [NEWLINE]) (se_items s)"
    by (simp add: with_value_out)
  then show ?thesis by (simp add: section_out_def del: map_eq_conv)
qed

lemma with_values_out: "config_out (with_values c) = config_out c"
proof -
  have "map (section_out \<circ> (\<lambda>s. s\<lparr>se_items := map with_value (se_items s)\<rparr>)) (cf_sections c) = map section_out (cf_sections c)"
    by (rule map_cong [OF refl]) (simp only: o_apply with_value_section_out)
  then show ?thesis by (simp add: config_out_def with_values_def del: map_eq_conv)
qed

text \<open>C5: an item without values comes back with one value, the empty text.\<close>

theorem missing_values_become_empty:
  assumes "file_wf f" "storable_config (with_values (config_abs (file_config f)))" "file_built g" "length nm < CFG_MAXCONFIGNAMELENGTH"
    "1 \<le> m" "1 \<le> k" "1 \<le> n" "lock_name_fits p"
  shows "\<exists>t g'. ConfigurationFile_save f (Some p) good_save = Some (NoError, Some (p, t)) \<and>
    ConfigurationFile_init g (Some p) (Some nm) (cf_case (config_abs (file_config f))) m k n lock (good_read t) [] = Some (NoError, g', []) \<and>
    config_abs (file_config g') = with_values (config_abs (file_config f))\<lparr>cf_name := nm\<rparr>"
proof -
  let ?a = "config_abs (file_config f)"
  have save: "ConfigurationFile_save f (Some p) good_save = Some (NoError, Some (p, config_out ?a))"
    using save_ok [OF assms(1), of good_save "Some p"] by (auto simp: good_save_def)
  have cs: "cf_case (with_values ?a) = cf_case ?a" by (simp add: with_values_def)
  obtain cfg where cfg: "yyparse (cf_case ?a) m k n (config_out ?a) = Some (Inr (cfg, []))" "config_wf cfg"
      "config_abs cfg = (with_values ?a)\<lparr>cf_name := []\<rparr>"
    using yyparse_written [OF assms(2,5-7)] unfolding with_values_out cs by blast
  then show ?thesis
    using init_parsed [OF assms(3) _ cfg(2) assms(4-7), of "cf_case ?a" "[]" "config_out ?a" "[]" lock p] save assms(8) by auto
qed

definition bare_file :: configuration_file where
  "bare_file = \<lparr>file_config = (case config_appendCfgItem (snd (Config_init Config_ctor (Some ''c'') False 1)) (Some ''S'')
       (Some (snd (ConfigurationItem_init ConfigurationItem_ctor (Some ''x'') (Some []) False 1))) 1 1 of Some (_, c) \<Rightarrow> c | None \<Rightarrow> Config_ctor),
     stCfgFileStatus = CFGFILE_INITIALIZED, pPathName = Some ''f''\<rparr>"

theorem missing_values_become_empty_witness:
  "\<exists>t g'. ConfigurationFile_save bare_file (Some ''f'') good_save = Some (NoError, Some (''f'', t)) \<and>
    ConfigurationFile_init ConfigurationFile_ctor (Some ''f'') (Some ''c'') False 1 1 1 True (good_read t) [] = Some (NoError, g', []) \<and>
    concat (map (map it_values \<circ> se_items) (cf_sections (config_abs (file_config bare_file)))) = [ [] ] \<and>
    concat (map (map it_values \<circ> se_items) (cf_sections (config_abs (file_config g')))) = [ [ [] ] ]"
proof -
  have wf: "file_wf bare_file" by code_simp
  have st: "storable_config (with_values (config_abs (file_config bare_file)))" by code_simp
  have eq: "cf_case (config_abs (file_config bare_file)) = False"
    "concat (map (map it_values \<circ> se_items) (cf_sections (config_abs (file_config bare_file)))) = [ [] ]"
    "concat (map (map it_values \<circ> se_items) (cf_sections (with_values (config_abs (file_config bare_file))))) = [ [ [] ] ]"
    by code_simp+
  show ?thesis
    using missing_values_become_empty [OF wf st ctor_file_built, of "''c''" 1 1 1 "''f''" True] eq
    by (auto simp: CFG_MAXCONFIGNAMELENGTH_def lock_name_fits_def CFGFILE_MAXPATHNAMELENGTH_def)
qed

definition read_values :: "config_text \<Rightarrow> string list list option" where
  "read_values a = (case yyparse (cf_case a) 1 1 1 (config_out a) of
     Some (Inr (c, _)) \<Rightarrow> Some (concat (map (map it_values \<circ> se_items) (cf_sections (config_abs c))))
   | _ \<Rightarrow> None)"

text \<open>C6: other texts that are written and not read back: a comma splits a value of several, a value that looks like a date,
  or with one of the characters of the syntax in it, makes a file that does not parse; and the scanner joins quoted values on one line.\<close>

theorem values_not_restored:
  "read_values (sample_text ''S'' [''a,b'', ''c'']) = Some [[''a'', ''b'', ''c'']] \<and>
   read_values (sample_text ''S'' [''2001/10/20'']) = None \<and>
   read_values (sample_text ''S'' [''a=b'']) = None \<and>
   read_values (sample_text ''S'' [QUOTE # ''[a]'' @ [QUOTE]]) = None \<and>
   (case yyparse False 1 1 1 (''[S] x = {'' @ [QUOTE] @ ''a b'' @ [QUOTE, CHR '','', QUOTE] @ ''c d'' @ [QUOTE] @ ''}'') of
      Some (Inr (c, _)) \<Rightarrow> concat (map (map it_values \<circ> se_items) (cf_sections (config_abs c))) = [[''a b'' @ [QUOTE, CHR '','', QUOTE] @ ''c d'']]
    | _ \<Rightarrow> False)"
  by code_simp

end
