(* ===== verification/Spec2Isabelle.thy ===== *)
theory Spec2Isabelle
  imports BufferProps HashMapProps EventsSetProps PCondition DateTimeProps TimesCalendarProps SchedulerProps
  Scheduler2Props MultiEventsSystem MergeSortProps ConvertProps TokenizerProps ConfigProps ConfigurationFileProps
begin

text \<open>
  \<^bold>\<open>CatraLibraries\<close>: a verification library for its containers, its event queues, its schedulers and its tools.

  \<^bold>\<open>The program.\<close> The repository is a set of C++ libraries, each in its directory under \<open>src/\<close>, that build
  on each other: \<open>Tools\<close> (texts, dates, files), \<open>my_hash_map\<close>, \<open>PThread\<close> (wrappers of pthreads),
  \<open>EventsSet\<close> (queues of events between threads, on top of \<open>Buffer\<close> and \<open>PThread\<close>) and \<open>Scheduler\<close> (clocks with
  periodic and calendar schedules, on top of \<open>DateTime\<close> and \<open>PThread\<close>). Servers, loaders and network clients use them.
  What is modelled is the code of the non Windows build.

  \<^bold>\<open>Conventions.\<close> An object is a record of its data members, an operation is a function from the object to
  an error value and the new object. Errors are values (\<open>lib_error\<close> in theory \<open>Errors\<close> names the library and
  the code). An operation that the C++ standard gives no meaning (an access outside a block, an uninitialised
  pointer, a text that does not fit its array) or that does not return is \<open>None\<close>; theorems that say \<open>= Some\<close> therefore
  also say that the code is free of both. Clocks, time zones, results of system calls, hash functions and the code of
  the users (handlers) are arguments. Allocation does not fail.

  \<^bold>\<open>Parts and theories.\<close>

  \<^item> \<open>Prelude\<close>, \<open>Simulation\<close>: memory blocks with checked accesses, C strings, decimal numbers; and the locale
    \<open>simulation\<close>, the refinement contract of the stateful components: one simulated operation gives whole runs. It is
    interpreted for \<open>Buffer\<close> (\<open>BufferRefine\<close>), \<open>my_hash_map\<close> (\<open>HashMapUse\<close>), \<open>Scheduler\<close> (\<open>SchedulerRefine\<close>) and
    \<open>Config\<close> (\<open>ConfigProps\<close>).
  \<^item> \<open>BufferCore\<close>, \<open>BufferEdit\<close>, \<open>BufferQuery\<close>: the class \<open>Buffer\<close> (\<open>Tools/src/Buffer.cpp\<close>), a growing block of
    characters. \<open>BufferSpec\<close> and \<open>BufferEditSpec\<close>: what every operation does to the text of a buffer
    (\<open>Buffer_holds b s\<close>); \<open>BufferRefine\<close>, \<open>BufferProps\<close>: runs of operations against a machine on texts.
  \<^item> \<open>HashMap\<close>: \<open>my_hash_map/my_hash_map.h\<close>, double hashing on a power-of-two table. \<open>HashMapSpec\<close>,
    \<open>HashMapOps\<close>, \<open>HashMapWf\<close>: the invariant \<open>hm_wf\<close> and its preservation; \<open>HashMapUse\<close>: the locale \<open>finite_map\<close>
    and runs against a finite map. Hash calls nest at most twice (a table is rebuilt inside an insertion), so that
    depth 2 of \<open>InsertWithoutDuplication\<close> is enough for every run (\<open>Suc (Suc d)\<close> in the statements).
  \<^item> \<open>PMutex\<close>, \<open>PCondition\<close>, \<open>PosixThread\<close>: the classes of \<open>PThread/src\<close>. A mutex is the number of times its holder
    locked it; blocking calls are cut where they block.
  \<^item> \<open>Event\<close>, \<open>EventsSet\<close>, \<open>EventsSetWait\<close>: \<open>EventsSet/src/Event.cpp\<close> and \<open>EventsSet.cpp\<close>. \<open>EventQueue\<close>: the
    \<^verbatim>\<open>std:: multimap\<close> of a destination, behind the locale \<open>ordered_queue\<close>. \<open>EventsSetSpec\<close>, \<open>EventsSetOps\<close>,
    \<open>EventsSetBlocking\<close>: the effect of every operation on the queues; \<open>EventsSetSystem\<close>: all interleavings of threads as
    an inductive step relation; \<open>EventsSetPool\<close>: the pool of free events and the life cycle.
  \<^item> \<open>CTime\<close>, \<open>CText\<close>, \<open>DateText\<close>: what the date code calls from \<open>time.h\<close> and \<open>stdio.h\<close>: the civil calendar
    (\<open>gmtime_r\<close>, \<open>timegm\<close>), scanning and printing of numbers, and dates as texts, whose order is the order of the
    instants (\<open>text_le_instants\<close>). A \<open>zone\<close> is the pair of \<open>localtime_r\<close> and \<open>mktime\<close>; \<open>fixed_zone off shift\<close> is a zone without
    daylight saving, \<open>shift\<close> being what \<open>mktime\<close> takes off a date whose \<open>tm_isdst\<close> is positive.
  \<^item> \<open>DateTime\<close>, \<open>DateTimeProps\<close>: \<open>Tools/src/DateTime.cpp\<close>.
  \<^item> \<open>Schedule\<close>, \<open>Times\<close>: \<open>Scheduler/src/Times.cpp\<close>, the checks of a calendar schedule, the search for its next
    expiration (\<open>calendar_loop\<close>, a \<open>partial_function\<close>, since it need not end) and the class around it.
    \<open>ScheduleSpec\<close>: what a schedule means (\<open>matches\<close>) and that each jump of the search only passes over seconds that do
    not match; \<open>TimesSpec\<close>, \<open>TimesProps\<close>, \<open>TimesCalendarProps\<close>: the invariant, periodic and calendar updates.
  \<^item> \<open>Scheduler\<close>: \<open>Scheduler/src/Scheduler.cpp\<close>, the array of active objects and the scan. \<open>SchedulerSpec\<close>: the list
    that the array stands for (\<open>actives\<close>, \<open>sched_wf\<close>); \<open>SchedulerRefine\<close>: the public calls against a machine on
    that list; \<open>SchedulerScan\<close>: a scan against what each object does by itself; \<open>SchedulerProps\<close>.
  \<^item> \<open>Times2\<close>, \<open>Scheduler2\<close>: \<open>Scheduler/src/Times2.cpp\<close> and \<open>Scheduler2.cpp\<close>, the variants that throw exceptions.
    \<open>Times2Props\<close>, \<open>Scheduler2Props\<close>: that they update and scan as \<open>Times\<close> and \<open>Scheduler\<close> do (\<open>times2_of\<close> forgets the
    mutex), and where their exceptions end the thread.
  \<^item> \<open>EventsFactory\<close>, \<open>MultiEventsSet\<close>: the directory \<open>MultiEventsSet/src\<close>, the pool of events and the queues by
    destination on the ordered queues of \<open>EventQueue\<close>; calls are cut where they wait. \<open>EventsFactoryProps\<close>: sequences
    of calls on a factory; \<open>MultiEventsProps\<close>: single calls; \<open>MultiEventsSystem\<close>: all interleavings of threads.
  \<^item> \<open>MergeSort\<close>, \<open>Convert\<close>, \<open>StringTokenizer\<close>: \<open>MergeSort.h\<close>, \<open>Convert.cpp\<close> and \<open>StringTokenizer.cpp\<close> of \<open>Tools/src\<close>. \<open>MergeSortProps\<close>
    (the locale \<open>weak_order\<close>, interpreted for both directions), \<open>ConvertProps\<close> (base 64 against \<open>base64_spec\<close>, base 16 on
    memory blocks), \<open>TokenizerProps\<close> (tokens of a text on a heap of blocks).
  \<^item> \<open>Encrypt\<close>, \<open>EncryptProps\<close>: the encryption of configuration values in \<open>Tools/src/Encrypt.cpp\<close>.
  \<^item> \<open>CfgItem\<close>, \<open>CfgSection\<close>, \<open>Config\<close>: the classes of \<open>Configuration/src\<close>, items in sections in a configuration, each
    in an array of objects that grows by copying (\<open>CfgArray\<close>, with the locale \<open>object_class\<close>, interpreted for items and
    sections). \<open>CfgItemSpec\<close>, \<open>CfgSectionSpec\<close>, \<open>ConfigSpec\<close>: the lists these stand for (\<open>item_abs\<close>, \<open>section_abs\<close>, \<open>config_abs\<close>) and
    the invariants; \<open>ConfigOps\<close>, \<open>ConfigProps\<close>: the calls on the lists, and runs of them.
  \<^item> \<open>CfgWrite\<close>, \<open>CfgScanner\<close>, \<open>CfgParser\<close>, \<open>ConfigurationFile\<close>: configurations as text. What \<open>write\<close> and \<open>operator <<\<close> of the three
    classes put out; the rules of \<open>configurationScanner.ll\<close> with the longest match; the grammar of \<open>configurationParser.yy\<close> with
    its actions, by recursive descent, where the result of an error is the text the scanner still holds; and
    \<open>ConfigurationFile/src/ConfigurationFile.cpp\<close> around them, with the results of \<open>FileIO\<close> as arguments. \<open>CfgScanSpec\<close>,
    \<open>CfgWriteSpec\<close>, \<open>CfgRoundtrip\<close>: the tokens of a written text, the text a configuration is written as (\<open>config_out\<close>), and that the
    parser gives back what the format can hold (\<open>storable_config\<close>); \<open>ConfigurationFileProps\<close>: saving and loading.

  \<^bold>\<open>What the groups of lemmas show.\<close> For every component an invariant that all operations keep, the effect of every
  operation on an abstract state (a text, a finite map, sorted queues, a list, an instant), and from these whole runs:
  of \<open>Buffer\<close> and \<open>my_hash_map\<close> under sequences of calls, of \<open>EventsSet\<close> under all interleavings of threads, of the
  scheduler under sequences of calls and during a scan that loses objects. Properties that name what the code does wrong are
  stated as theorems about what it does; they are the findings of the manifest.

  \<^bold>\<open>Bounds.\<close> Lengths and counters of \<open>Buffer\<close> are below \<open>2 ^ 64\<close> and keys and sizes of \<open>my_hash_map\<close> in 32 bits where the code's
  types say so; milliseconds and periods are taken modulo \<open>2 ^ 64\<close> where they are added. The fields of \<open>struct tm\<close> and
  \<open>time_t\<close> are unbounded integers, and dates as text are related to instants in the years 0 to 9999 (\<open>in_years\<close>), which four
  digits hold. Properties of \<open>Times\<close> that speak of instants assume a zone without daylight saving.

  \<^bold>\<open>Not modelled.\<close> The Windows variants; \<open>operator <<\<close> of \<open>Buffer\<close>; \<open>SetResizeRatio\<close> and the debug output of
  \<open>my_hash_map\<close>; \<open>tryLock\<close>, priorities, scheduling policies, stack sizes and sleeping of \<open>PThread\<close>, which only forward
  to pthreads; \<open>FileIO\<close>, \<open>System\<close>, \<open>Network\<close>, \<open>Service\<close>, \<open>Socket\<close>, \<open>Tracer\<close> and the wrappers of LDAP, FTP and SNMP, which
  are input and output; vendored code; the tables that flex and bison generate from the scanner and the grammar; the output operators of \<open>Event2\<close> and \<open>EventsFactory\<close>;
  \<open>LoadBalancer\<close>, the pools of sockets and the cache of \<open>HTTPCacheManager\<close>, whose state is that of servers and disks.
\<close>

end
